(* ===== verification/Prelude.thy ===== *)
theory Prelude
  imports Main "HOL-Library.Sublist"
begin

text \<open>
  Shared vocabulary of the development.

  \<^item> Go functions that return \<open>(T, error)\<close> return \<open>'e + 'a\<close> here (\<open>Inl\<close> the error);
    \<open>bind_result\<close> is the \<open>if err != nil { return err }\<close> chain and \<open>fold_result\<close> the loop
    over it.
  \<^item> Go's \<open>int\<close> and \<open>int64\<close> (both 64 bits wide on the platforms the program is built for) are
    \<open>int\<close> with the wrap-around written out by \<open>wrap64\<close>; \<open>quo\<close> is Go's truncating division.
  \<^item> \<open>replace_first\<close>, \<open>delete_first\<close> and the locale \<open>keyed_items\<close> capture the slices that Go
    code uses as small ordered maps keyed by an identifier field.
\<close>

named_theorems result_simps "equations of the error-returning combinators"
named_theorems wf_intros "introduction rules of the well-formedness invariants"

section \<open>Results\<close>

definition bind_result :: "'e + 'a \<Rightarrow> ('a \<Rightarrow> 'e + 'b) \<Rightarrow> 'e + 'b" where
  "bind_result r f = (case r of Inl e \<Rightarrow> Inl e | Inr x \<Rightarrow> f x)"

lemma bind_result_simps [simp, result_simps]:
  "bind_result (Inl e) f = Inl e"
  "bind_result (Inr x) f = f x"
  by (simp_all add: bind_result_def)

lemma bind_result_Inr:
  "bind_result r f = Inr y \<longleftrightarrow> (\<exists>x. r = Inr x \<and> f x = Inr y)"
  by (cases r) auto

lemma bind_result_Inl:
  "bind_result r f = Inl e \<longleftrightarrow> r = Inl e \<or> (\<exists>x. r = Inr x \<and> f x = Inl e)"
  by (cases r) auto

fun map_error :: "('e \<Rightarrow> 'f) \<Rightarrow> 'e + 'a \<Rightarrow> 'f + 'a" where
  "map_error g (Inl e) = Inl (g e)"
| "map_error g (Inr x) = Inr x"

lemma map_error_Inr [simp]: "map_error g r = Inr x \<longleftrightarrow> r = Inr x"
  by (cases r) auto

lemma map_error_Inl: "map_error g r = Inl e \<longleftrightarrow> (\<exists>d. r = Inl d \<and> e = g d)"
  by (cases r) auto

text \<open>A loop whose body may return early with an error; the position is passed to the body.\<close>

fun fold_result :: "(nat \<Rightarrow> 'a \<Rightarrow> 's \<Rightarrow> 'e + 's) \<Rightarrow> nat \<Rightarrow> 'a list \<Rightarrow> 's \<Rightarrow> 'e + 's" where
  "fold_result f i [] s = Inr s"
| "fold_result f i (x # xs) s =
     (case f i x s of Inl e \<Rightarrow> Inl e | Inr s' \<Rightarrow> fold_result f (Suc i) xs s')"

lemma fold_result_invariant:
  assumes "fold_result f i xs s = Inr t" and "P s"
    and "\<And>j x u v. x \<in> set xs \<Longrightarrow> P u \<Longrightarrow> f j x u = Inr v \<Longrightarrow> P v"
  shows "P t"
  using assms
proof (induction xs arbitrary: i s)
  case Nil
  then show ?case by simp
next
  case (Cons x xs)
  then obtain u where "f i x s = Inr u" "fold_result f (Suc i) xs u = Inr t"
    by (auto split: sum.splits)
  with Cons show ?case by (metis list.set_intros)
qed

lemma fold_result_append:
  "fold_result f i (xs @ ys) s =
     (case fold_result f i xs s of
        Inl e \<Rightarrow> Inl e | Inr t \<Rightarrow> fold_result f (i + length xs) ys t)"
  by (induction xs arbitrary: i s) (auto split: sum.splits)

section \<open>64-bit integers\<close>

definition max_int64 :: int where "max_int64 = 9223372036854775807"

definition min_int64 :: int where "min_int64 = - 9223372036854775808"

abbreviation is_int64 :: "int \<Rightarrow> bool" where
  "is_int64 x \<equiv> min_int64 \<le> x \<and> x \<le> max_int64"

definition wrap64 :: "int \<Rightarrow> int" where
  "wrap64 x = (x + 9223372036854775808) mod 18446744073709551616 - 9223372036854775808"

lemma wrap64_id: "is_int64 x \<Longrightarrow> wrap64 x = x"
  by (simp add: wrap64_def max_int64_def min_int64_def)

lemma wrap64_range: "is_int64 (wrap64 x)"
proof -
  have "0 \<le> (x + 9223372036854775808) mod 18446744073709551616"
    "(x + 9223372036854775808) mod 18446744073709551616 < 18446744073709551616"
    by simp_all
  then show ?thesis by (simp add: wrap64_def max_int64_def min_int64_def)
qed

lemma wrap64_succ: "is_int64 x \<Longrightarrow> x < max_int64 \<Longrightarrow> wrap64 (x + 1) = x + 1"
  by (rule wrap64_id) (simp add: min_int64_def)

text \<open>Go's integer division truncates towards zero.\<close>

definition quo :: "int \<Rightarrow> int \<Rightarrow> int" where
  "quo a b = sgn a * sgn b * (\<bar>a\<bar> div \<bar>b\<bar>)"

lemma quo_nonneg: "0 \<le> a \<Longrightarrow> 0 < b \<Longrightarrow> quo a b = a div b"
  by (cases "a = 0") (simp_all add: quo_def)

section \<open>Sets\<close>

lemma disjoint_cover: "A \<inter> B = {} \<Longrightarrow> A \<inter> C = {} \<Longrightarrow> D \<subseteq> C \<union> B \<Longrightarrow> A \<inter> D = {}"
  by blast

section \<open>Optional values\<close>

abbreviation is_some :: "'a option \<Rightarrow> bool" where
  "is_some x \<equiv> x \<noteq> None"

end
