(* ===== verification/Go_String.thy ===== *)
theory Go_String
  imports Prelude "HOL-Library.List_Lexorder" "HOL-Library.Char_ord"
begin

text \<open>
  Go strings. A Go string is a sequence of bytes, modelled by \<open>string\<close> (a \<open>char\<close> is a byte).
  This theory models what the program uses of the standard library on them:
  \<open>strings.TrimSpace\<close> (all the white space of \<open>unicode.IsSpace\<close>, in its UTF-8 encoding),
  the decoding of UTF-8 into runes with an invalid byte counting as one rune
  (\<open>len([]rune(s))\<close>), \<open>utf8.RuneStart\<close>, and the replacement of invalid bytes by U+FFFD that
  a round trip through \<open>encoding/json\<close> performs. Strings are ordered bytewise, as in Go.
\<close>

section \<open>UTF-8\<close>

definition byte :: "char \<Rightarrow> nat" where "byte c = of_char c"

text \<open>The continuation bytes that must follow a leading byte, with the ranges of the Go table.\<close>

fun in_ranges :: "(nat \<times> nat) list \<Rightarrow> string \<Rightarrow> bool" where
  "in_ranges [] s = True"
| "in_ranges ((lo, hi) # rs) (c # s) = (lo \<le> byte c \<and> byte c \<le> hi \<and> in_ranges rs s)"
| "in_ranges (r # rs) [] = False"

definition tail_ranges :: "nat \<Rightarrow> (nat \<times> nat) list option" where
  "tail_ranges b =
     (if b < 128 then Some []
      else if 194 \<le> b \<and> b \<le> 223 then Some [(128, 191)]
      else if b = 224 then Some [(160, 191), (128, 191)]
      else if b = 237 then Some [(128, 159), (128, 191)]
      else if 225 \<le> b \<and> b \<le> 239 then Some [(128, 191), (128, 191)]
      else if b = 240 then Some [(144, 191), (128, 191), (128, 191)]
      else if 241 \<le> b \<and> b \<le> 243 then Some [(128, 191), (128, 191), (128, 191)]
      else if b = 244 then Some [(128, 143), (128, 191), (128, 191)]
      else None)"

text \<open>The length of the encoded rune a string starts with, 0 when its first byte is invalid.\<close>

definition rune_width :: "string \<Rightarrow> nat" where
  "rune_width s =
     (case s of [] \<Rightarrow> 0
      | c # t \<Rightarrow> (case tail_ranges (byte c) of
                    None \<Rightarrow> 0
                  | Some rs \<Rightarrow> if in_ranges rs t then Suc (length rs) else 0))"

lemma in_ranges_length: "in_ranges rs s \<Longrightarrow> length rs \<le> length s"
  by (induction rs s rule: in_ranges.induct) auto

lemma in_ranges_append: "length rs \<le> length s \<Longrightarrow> in_ranges rs (s @ t) = in_ranges rs s"
  by (induction rs s rule: in_ranges.induct) auto

lemma tail_ranges_cont:
  "tail_ranges b = Some rs \<Longrightarrow> \<forall>(lo, hi) \<in> set rs. 128 \<le> lo \<and> hi \<le> 191"
  by (auto simp: tail_ranges_def split: if_splits)

lemma rune_width_le: "rune_width s \<le> length s"
  by (auto simp: rune_width_def split: list.splits option.splits dest: in_ranges_length)

lemma rune_width_append: "rune_width s \<noteq> 0 \<Longrightarrow> rune_width (s @ t) = rune_width s"
  by (auto simp: rune_width_def in_ranges_append in_ranges_length
      split: list.splits option.splits if_splits)

lemma rune_width_take: "rune_width (s @ t) \<noteq> 0 \<Longrightarrow> rune_width (s @ t) \<le> length s \<Longrightarrow>
    rune_width s = rune_width (s @ t)"
  by (cases s) (auto simp: rune_width_def in_ranges_append split: option.splits if_splits)

text \<open>The runes of a string, each as its bytes; an invalid byte is a rune of its own.\<close>

function runes :: "string \<Rightarrow> string list" where
  "runes s = (if s = [] then []
              else take (max 1 (rune_width s)) s # runes (drop (max 1 (rune_width s)) s))"
  by pat_completeness auto
termination
  by (relation "measure length") auto

declare runes.simps [simp del]

definition rune_count :: "string \<Rightarrow> nat" where "rune_count s = length (runes s)"

lemma runes_Nil [simp]: "runes [] = []"
  by (simp add: runes.simps)

lemma rune_count_le: "rune_count s \<le> length s"
proof (induction s rule: runes.induct)
  case (1 s)
  show ?case
  proof (cases "s = []")
    case False
    with 1 have "rune_count (drop (max 1 (rune_width s)) s) \<le> length s - max 1 (rune_width s)"
      by simp
    moreover have "length s > 0" using False by simp
    ultimately have "Suc (rune_count (drop (max 1 (rune_width s)) s)) \<le> length s"
      by linarith
    then show ?thesis using False by (simp add: rune_count_def runes.simps [of s])
  qed (simp add: rune_count_def)
qed

function utf8_valid :: "string \<Rightarrow> bool" where
  "utf8_valid s =
     (if s = [] then True
      else if rune_width s = 0 then False
      else utf8_valid (drop (rune_width s) s))"
  by pat_completeness auto
termination
  by (relation "measure length") auto

declare utf8_valid.simps [simp del]

lemma utf8_valid_Nil [simp]: "utf8_valid []"
  by (simp add: utf8_valid.simps)

lemma utf8_valid_step:
  "s \<noteq> [] \<Longrightarrow> utf8_valid s \<longleftrightarrow> rune_width s \<noteq> 0 \<and> utf8_valid (drop (rune_width s) s)"
  by (subst utf8_valid.simps) simp

definition replacement_rune :: string where
  "replacement_rune = [CHR 0xEF, CHR 0xBF, CHR 0xBD]"

definition sanitize_utf8 :: "string \<Rightarrow> string" where
  "sanitize_utf8 s = concat (map (\<lambda>r. if rune_width r = 0 then replacement_rune else r) (runes s))"

lemma sanitize_valid: "utf8_valid s \<Longrightarrow> sanitize_utf8 s = s"
proof (induction s rule: runes.induct)
  case (1 s)
  show ?case
  proof (cases "s = []")
    case False
    let ?k = "rune_width s"
    from False "1.prems" have k: "?k \<noteq> 0" and v: "utf8_valid (drop ?k s)"
      by (simp_all add: utf8_valid_step)
    then have m: "max 1 ?k = ?k" by simp
    have le: "?k \<le> length s" by (rule rune_width_le)
    have w: "rune_width (take ?k s) = ?k"
      using rune_width_take [of "take ?k s" "drop ?k s"] k le by simp
    from False "1.IH" v m have "sanitize_utf8 (drop ?k s) = drop ?k s" by simp
    then show ?thesis using False w k m
      by (simp add: sanitize_utf8_def runes.simps [of s])
  qed (simp add: sanitize_utf8_def)
qed

text \<open>\<open>utf8.RuneStart\<close>: the byte is not a continuation byte.\<close>

definition rune_start :: "char \<Rightarrow> bool" where
  "rune_start c = (\<not> (128 \<le> byte c \<and> byte c \<le> 191))"

lemma valid_first_rune_start: "utf8_valid (c # s) \<Longrightarrow> rune_start c"
  by (auto simp: utf8_valid.simps [of "c # s"] rune_width_def rune_start_def tail_ranges_def
      split: if_splits)

lemma in_ranges_cont_byte:
  "in_ranges rs s \<Longrightarrow> (\<forall>(lo, hi) \<in> set rs. 128 \<le> lo \<and> hi \<le> 191) \<Longrightarrow> i < length rs \<Longrightarrow>
    \<not> rune_start (s ! i)"
proof (induction rs s arbitrary: i rule: in_ranges.induct)
  case (2 lo hi rs c s)
  then show ?case by (cases i) (auto simp: rune_start_def)
qed auto

lemma inner_byte_not_start: "rune_width s \<noteq> 0 \<Longrightarrow> 0 < i \<Longrightarrow> i < rune_width s \<Longrightarrow> \<not> rune_start (s ! i)"
  by (cases i)
    (auto simp: rune_width_def in_ranges_cont_byte dest: tail_ranges_cont
      split: list.splits option.splits if_splits)

text \<open>A valid string stays valid when a suffix that begins at a rune start is cut off.\<close>

lemma utf8_valid_prefix:
  "utf8_valid (s @ t) \<Longrightarrow> t = [] \<or> rune_start (hd t) \<Longrightarrow> utf8_valid s"
proof (induction "length s" arbitrary: s rule: less_induct)
  case less
  show ?case
  proof (cases "s = [] \<or> t = []")
    case False
    let ?k = "rune_width (s @ t)"
    from less.prems False have k: "?k \<noteq> 0" and v: "utf8_valid (drop ?k (s @ t))"
      by (simp_all add: utf8_valid_step [of "s @ t"])
    have le: "?k \<le> length s"
    proof (rule ccontr)
      assume "\<not> ?k \<le> length s"
      then have "\<not> rune_start ((s @ t) ! length s)"
        using inner_byte_not_start [OF k, of "length s"] False by simp
      then show False using less.prems False by (auto simp: nth_append hd_conv_nth)
    qed
    have w: "rune_width s = ?k" by (rule rune_width_take [OF k le])
    have "utf8_valid (drop ?k s)"
      by (rule less.hyps) (use v le k False less.prems in auto)
    with w k show ?thesis by (cases "s = []") (simp_all add: utf8_valid_step)
  qed (use less.prems in auto)
qed

lemma utf8_valid_drop: "utf8_valid s \<Longrightarrow> prefix r s \<Longrightarrow> rune_width r = length r \<Longrightarrow> r \<noteq> [] \<Longrightarrow>
    utf8_valid (drop (length r) s)"
proof -
  assume v: "utf8_valid s" and p: "prefix r s" and w: "rune_width r = length r" and "r \<noteq> []"
  then obtain t where s: "s = r @ t" and r: "rune_width r \<noteq> 0" by (auto elim: prefixE)
  then have "rune_width s = length r" using rune_width_append w by metis
  with v \<open>r \<noteq> []\<close> have "utf8_valid (drop (rune_width s) s)"
    by (simp add: utf8_valid_step s)
  with \<open>rune_width s = length r\<close> show ?thesis by simp
qed

section \<open>strings.TrimSpace\<close>

text \<open>The runes of \<open>unicode.IsSpace\<close>, UTF-8 encoded.\<close>

definition space_runes :: "string list" where
  "space_runes =
     [[CHR 0x09], [CHR 0x0A], [CHR 0x0B], [CHR 0x0C], [CHR 0x0D], [CHR 0x20],
      [CHR 0xC2, CHR 0x85], [CHR 0xC2, CHR 0xA0], [CHR 0xE1, CHR 0x9A, CHR 0x80],
      [CHR 0xE2, CHR 0x80, CHR 0x80], [CHR 0xE2, CHR 0x80, CHR 0x81],
      [CHR 0xE2, CHR 0x80, CHR 0x82], [CHR 0xE2, CHR 0x80, CHR 0x83],
      [CHR 0xE2, CHR 0x80, CHR 0x84], [CHR 0xE2, CHR 0x80, CHR 0x85],
      [CHR 0xE2, CHR 0x80, CHR 0x86], [CHR 0xE2, CHR 0x80, CHR 0x87],
      [CHR 0xE2, CHR 0x80, CHR 0x88], [CHR 0xE2, CHR 0x80, CHR 0x89],
      [CHR 0xE2, CHR 0x80, CHR 0x8A], [CHR 0xE2, CHR 0x80, CHR 0xA8],
      [CHR 0xE2, CHR 0x80, CHR 0xA9], [CHR 0xE2, CHR 0x80, CHR 0xAF],
      [CHR 0xE2, CHR 0x81, CHR 0x9F], [CHR 0xE3, CHR 0x80, CHR 0x80]]"

text \<open>Removes from the front of a string as long as one of the given words is there.\<close>

function strip_words :: "string list \<Rightarrow> string \<Rightarrow> string" where
  "strip_words ws s =
     (case find (\<lambda>w. w \<noteq> [] \<and> prefix w s) ws of
        None \<Rightarrow> s
      | Some w \<Rightarrow> strip_words ws (drop (length w) s))"
  by pat_completeness auto
termination
  by (relation "measure (\<lambda>(ws, s). length s)")
    (auto simp: find_Some_iff elim!: prefixE)

declare strip_words.simps [simp del]

definition trim_left :: "string \<Rightarrow> string" where
  "trim_left s = strip_words space_runes s"

definition trim_right :: "string \<Rightarrow> string" where
  "trim_right s = rev (strip_words (map rev space_runes) (rev s))"

definition trim_space :: "string \<Rightarrow> string" where
  "trim_space s = trim_right (trim_left s)"

lemma strip_words_suffix: "suffix (strip_words ws s) s"
proof (induction ws s rule: strip_words.induct)
  case (1 ws s)
  show ?case
  proof (cases "find (\<lambda>w. w \<noteq> [] \<and> prefix w s) ws")
    case (Some w)
    with 1 have "suffix (strip_words ws (drop (length w) s)) (drop (length w) s)" by simp
    also have "suffix (drop (length w) s) s" by (rule suffix_drop)
    finally show ?thesis using Some by (simp add: strip_words.simps [of ws s])
  qed (simp add: strip_words.simps [of ws s])
qed

lemma strip_words_done: "w \<in> set ws \<Longrightarrow> w \<noteq> [] \<Longrightarrow> \<not> prefix w (strip_words ws s)"
proof (induction ws s rule: strip_words.induct)
  case (1 ws s)
  show ?case
  proof (cases "find (\<lambda>w. w \<noteq> [] \<and> prefix w s) ws")
    case None
    then have "strip_words ws s = s" by (simp add: strip_words.simps [of ws s])
    with None 1 show ?thesis by (auto simp: find_None_iff)
  next
    case (Some v)
    then have "strip_words ws s = strip_words ws (drop (length v) s)"
      by (simp add: strip_words.simps [of ws s])
    with Some 1 show ?thesis by simp
  qed
qed

lemma strip_words_fixed: "(\<forall>w \<in> set ws. w \<noteq> [] \<longrightarrow> \<not> prefix w s) \<Longrightarrow> strip_words ws s = s"
proof -
  assume "\<forall>w \<in> set ws. w \<noteq> [] \<longrightarrow> \<not> prefix w s"
  then have "find (\<lambda>w. w \<noteq> [] \<and> prefix w s) ws = None" by (auto simp: find_None_iff)
  then show ?thesis by (simp add: strip_words.simps [of ws s])
qed

lemma trim_right_prefix: "prefix (trim_right s) s"
  using strip_words_suffix [of "map rev space_runes" "rev s"]
  by (simp add: trim_right_def suffix_to_prefix)

lemma trim_right_idem: "trim_right (trim_right s) = trim_right s"
  by (simp add: trim_right_def strip_words_fixed strip_words_done)

lemma trim_left_trimmed: "trim_left (trim_space s) = trim_space s"
  unfolding trim_left_def trim_space_def
  by (rule strip_words_fixed)
    (metis prefix_order.trans strip_words_done trim_right_prefix)

lemma trim_space_idem [simp]: "trim_space (trim_space s) = trim_space s"
  by (metis trim_left_trimmed trim_right_idem trim_space_def)

lemma trim_space_length: "length (trim_space s) \<le> length s"
  unfolding trim_space_def trim_left_def
  by (meson order_trans prefix_length_le strip_words_suffix suffix_length_le trim_right_prefix)

lemma space_rune_width: "w \<in> set space_runes \<Longrightarrow> rune_width w = length w \<and> w \<noteq> [] \<and> rune_start (hd w)"
  by (auto simp: space_runes_def rune_width_def tail_ranges_def byte_def rune_start_def)

lemma trim_left_valid: "utf8_valid s \<Longrightarrow> utf8_valid (strip_words space_runes s)"
proof (induction "space_runes" s rule: strip_words.induct)
  case (1 s)
  show ?case
  proof (cases "find (\<lambda>w. w \<noteq> [] \<and> prefix w s) space_runes")
    case (Some w)
    then have w: "w \<in> set space_runes" "w \<noteq> []" "prefix w s"
      by (auto simp: find_Some_iff)
    with "1.prems" have "utf8_valid (drop (length w) s)"
      using space_rune_width utf8_valid_drop by blast
    with Some 1 show ?thesis by (simp add: strip_words.simps [of _ s])
  qed (use 1 in \<open>simp add: strip_words.simps [of _ s]\<close>)
qed

lemma trim_right_valid: "utf8_valid (rev s) \<Longrightarrow> utf8_valid (rev (strip_words (map rev space_runes) s))"
proof (induction "map rev space_runes" s rule: strip_words.induct)
  case (1 s)
  show ?case
  proof (cases "find (\<lambda>w. w \<noteq> [] \<and> prefix w s) (map rev space_runes)")
    case (Some w)
    then have "\<exists>v \<in> set space_runes. w = rev v" and p: "prefix w s"
      by (auto simp: find_Some_iff)
    then obtain v t where v: "v \<in> set space_runes" "w = rev v" and s: "s = w @ t"
      by (auto elim: prefixE)
    then have "rev s = rev t @ v" by simp
    with "1.prems" have "utf8_valid (rev t)"
      using utf8_valid_prefix [of "rev t" v] space_rune_width [OF v(1)] by simp
    with Some 1 s have "utf8_valid (rev (strip_words (map rev space_runes) t))" by simp
    moreover have "strip_words (map rev space_runes) s = strip_words (map rev space_runes) t"
      using Some s by (subst strip_words.simps) simp
    ultimately show ?thesis by simp
  qed (use 1 in \<open>simp add: strip_words.simps [of _ s]\<close>)
qed

lemma trim_space_valid [intro]: "utf8_valid s \<Longrightarrow> utf8_valid (trim_space s)"
  using trim_right_valid [of "rev (trim_left s)"] trim_left_valid [of s]
  by (simp add: trim_space_def trim_right_def trim_left_def)

end
