(* ===== verification/Domain.thy ===== *)
theory Domain
  imports Complex_Main Go_String
begin

text \<open>
  The domain records that several components share (\<open>internal/domain\<close>): Run statuses and the
  Run row, typed Run events and their payloads, the frozen runtime snapshot as far as the
  modelled code reads it, and the budget and pricing structures inside it.

  A Go string enumeration is a datatype with one constructor per declared constant and a last
  constructor for every other string. The 81 event types are grouped by the first component of
  their name; \<open>EventRunCreated\<close> and so on are the source's names for them. Instants
  (\<open>time.Time\<close>) are nanoseconds since Go's zero time; \<open>*time.Time\<close> is an \<open>option\<close>.
\<close>

section \<open>Time\<close>

type_synonym time = int

text \<open>\<open>a.Sub(b)\<close> saturates at the bounds of \<open>time.Duration\<close>.\<close>

definition time_sub :: "time \<Rightarrow> time \<Rightarrow> int" where
  "time_sub a b = max min_int64 (min max_int64 (a - b))"

definition milliseconds :: "int \<Rightarrow> int" where
  "milliseconds d = quo d 1000000"

lemma milliseconds_nonneg: "0 \<le> d \<Longrightarrow> 0 \<le> milliseconds d"
  by (simp add: milliseconds_def quo_nonneg)

section \<open>Run status\<close>

datatype run_status =
    RunQueued
  | RunRunning
  | RunWaitingForUser
  | RunCompleted
  | RunFailed
  | RunFailedRecoverable
  | RunCanceling
  | RunCanceled
  | RunStatusOther string

fun run_status_text :: "run_status \<Rightarrow> string" where
  "run_status_text RunQueued = ''queued''"
| "run_status_text RunRunning = ''running''"
| "run_status_text RunWaitingForUser = ''waiting_for_user''"
| "run_status_text RunCompleted = ''completed''"
| "run_status_text RunFailed = ''failed''"
| "run_status_text RunFailedRecoverable = ''failed_recoverable''"
| "run_status_text RunCanceling = ''canceling''"
| "run_status_text RunCanceled = ''canceled''"
| "run_status_text (RunStatusOther s) = s"

datatype verification_status =
    VerificationNotRequired
  | VerificationPending
  | VerificationRunning
  | VerificationPassed
  | VerificationFailed
  | VerificationBlocked
  | VerificationStale
  | VerificationOther string

section \<open>Event types\<close>

datatype run_kind =
    KPlanRecorded | KRunCreated | KRunStarted | KRunProgress
  | KRunWaitingForUser | KRunResumed | KRunCancelRequested | KRunCanceled
  | KRunCompleted | KRunFailed | KRunRevisionRequested

datatype stage_kind =
    KStageStarted | KStageCompleted | KStageFailed | KStageCanceled

datatype turn_kind =
    KTurnStarted | KTurnCompleted | KTurnFailed | KTurnCanceled
  | KTurnNoProgress

datatype model_kind =
    KModelStarted | KModelRouteDecided | KModelRequestPrepared | KModelAttemptFinished
  | KModelDelta | KModelOutputCheckpoint | KModelReasoning | KModelReasoningDelta
  | KModelCompleted | KModelFailed

datatype context_kind =
    KContextAssembled | KCompactionStarted | KCompactionCompleted | KCompactionFailed

datatype tool_kind =
    KToolEffectReconciliationStarted | KToolStarted | KToolProgress | KToolDiscoveryUpdated
  | KToolCompleted | KToolFailed | KToolPolicyEvaluated | KToolGuardWarned
  | KToolGuardBlocked | KToolResultPersisted | KToolEffectReconciled | KToolEffectReconciliationFailed
  | KArtifactRead | KArtifactExpired

datatype retrieval_kind =
    KRetrievalStarted | KRetrievalCompleted | KRetrievalFailed

datatype history_kind =
    KHistorySearchStarted | KHistorySearchCompleted | KHistorySearchFailed

datatype memory_kind =
    KMemoryCandidateProposed | KMemoryCandidateAccepted | KMemoryCandidateRejected | KMemoryCandidateFailed
  | KMemoryRecallFailed | KMemorySyncRequested | KMemorySyncRejected | KMemorySyncCompleted
  | KMemorySyncFailed

datatype verification_kind =
    KVerificationRequested | KVerificationStarted | KVerificationPassed | KVerificationFailed
  | KVerificationBlocked | KVerificationStale

datatype checkpoint_kind =
    KCheckpointCaptured | KCheckpointRestored | KCheckpointStale | KCompensationStarted
  | KCompensationCompleted | KCompensationFailed

datatype misc_kind =
    KTaskStateUpdated | KCitationResolved | KUsageRecorded | KBudgetExceeded
  | KAgentSelectionDecided | KClarificationAnswered

datatype run_event_type =
    Run_event run_kind
  | Stage_event stage_kind
  | Turn_event turn_kind
  | Model_event model_kind
  | Context_event context_kind
  | Tool_event tool_kind
  | Retrieval_event retrieval_kind
  | History_event history_kind
  | Memory_event memory_kind
  | Verification_event verification_kind
  | Checkpoint_event checkpoint_kind
  | Misc_event misc_kind
  | Unregistered_event string

abbreviation "EventPlanRecorded \<equiv> Run_event KPlanRecorded"
abbreviation "EventRunCreated \<equiv> Run_event KRunCreated"
abbreviation "EventRunStarted \<equiv> Run_event KRunStarted"
abbreviation "EventRunProgress \<equiv> Run_event KRunProgress"
abbreviation "EventRunWaitingForUser \<equiv> Run_event KRunWaitingForUser"
abbreviation "EventRunResumed \<equiv> Run_event KRunResumed"
abbreviation "EventRunCancelRequested \<equiv> Run_event KRunCancelRequested"
abbreviation "EventRunCanceled \<equiv> Run_event KRunCanceled"
abbreviation "EventRunCompleted \<equiv> Run_event KRunCompleted"
abbreviation "EventRunFailed \<equiv> Run_event KRunFailed"
abbreviation "EventRunRevisionRequested \<equiv> Run_event KRunRevisionRequested"
abbreviation "EventStageStarted \<equiv> Stage_event KStageStarted"
abbreviation "EventStageCompleted \<equiv> Stage_event KStageCompleted"
abbreviation "EventStageFailed \<equiv> Stage_event KStageFailed"
abbreviation "EventStageCanceled \<equiv> Stage_event KStageCanceled"
abbreviation "EventTurnStarted \<equiv> Turn_event KTurnStarted"
abbreviation "EventTurnCompleted \<equiv> Turn_event KTurnCompleted"
abbreviation "EventTurnFailed \<equiv> Turn_event KTurnFailed"
abbreviation "EventTurnCanceled \<equiv> Turn_event KTurnCanceled"
abbreviation "EventTurnNoProgress \<equiv> Turn_event KTurnNoProgress"
abbreviation "EventModelStarted \<equiv> Model_event KModelStarted"
abbreviation "EventModelRouteDecided \<equiv> Model_event KModelRouteDecided"
abbreviation "EventModelRequestPrepared \<equiv> Model_event KModelRequestPrepared"
abbreviation "EventModelAttemptFinished \<equiv> Model_event KModelAttemptFinished"
abbreviation "EventModelDelta \<equiv> Model_event KModelDelta"
abbreviation "EventModelOutputCheckpoint \<equiv> Model_event KModelOutputCheckpoint"
abbreviation "EventModelReasoning \<equiv> Model_event KModelReasoning"
abbreviation "EventModelReasoningDelta \<equiv> Model_event KModelReasoningDelta"
abbreviation "EventModelCompleted \<equiv> Model_event KModelCompleted"
abbreviation "EventModelFailed \<equiv> Model_event KModelFailed"
abbreviation "EventContextAssembled \<equiv> Context_event KContextAssembled"
abbreviation "EventCompactionStarted \<equiv> Context_event KCompactionStarted"
abbreviation "EventCompactionCompleted \<equiv> Context_event KCompactionCompleted"
abbreviation "EventCompactionFailed \<equiv> Context_event KCompactionFailed"
abbreviation "EventToolEffectReconciliationStarted \<equiv> Tool_event KToolEffectReconciliationStarted"
abbreviation "EventToolStarted \<equiv> Tool_event KToolStarted"
abbreviation "EventToolProgress \<equiv> Tool_event KToolProgress"
abbreviation "EventToolDiscoveryUpdated \<equiv> Tool_event KToolDiscoveryUpdated"
abbreviation "EventToolCompleted \<equiv> Tool_event KToolCompleted"
abbreviation "EventToolFailed \<equiv> Tool_event KToolFailed"
abbreviation "EventToolPolicyEvaluated \<equiv> Tool_event KToolPolicyEvaluated"
abbreviation "EventToolGuardWarned \<equiv> Tool_event KToolGuardWarned"
abbreviation "EventToolGuardBlocked \<equiv> Tool_event KToolGuardBlocked"
abbreviation "EventToolResultPersisted \<equiv> Tool_event KToolResultPersisted"
abbreviation "EventToolEffectReconciled \<equiv> Tool_event KToolEffectReconciled"
abbreviation "EventToolEffectReconciliationFailed \<equiv> Tool_event KToolEffectReconciliationFailed"
abbreviation "EventArtifactRead \<equiv> Tool_event KArtifactRead"
abbreviation "EventArtifactExpired \<equiv> Tool_event KArtifactExpired"
abbreviation "EventRetrievalStarted \<equiv> Retrieval_event KRetrievalStarted"
abbreviation "EventRetrievalCompleted \<equiv> Retrieval_event KRetrievalCompleted"
abbreviation "EventRetrievalFailed \<equiv> Retrieval_event KRetrievalFailed"
abbreviation "EventHistorySearchStarted \<equiv> History_event KHistorySearchStarted"
abbreviation "EventHistorySearchCompleted \<equiv> History_event KHistorySearchCompleted"
abbreviation "EventHistorySearchFailed \<equiv> History_event KHistorySearchFailed"
abbreviation "EventMemoryCandidateProposed \<equiv> Memory_event KMemoryCandidateProposed"
abbreviation "EventMemoryCandidateAccepted \<equiv> Memory_event KMemoryCandidateAccepted"
abbreviation "EventMemoryCandidateRejected \<equiv> Memory_event KMemoryCandidateRejected"
abbreviation "EventMemoryCandidateFailed \<equiv> Memory_event KMemoryCandidateFailed"
abbreviation "EventMemoryRecallFailed \<equiv> Memory_event KMemoryRecallFailed"
abbreviation "EventMemorySyncRequested \<equiv> Memory_event KMemorySyncRequested"
abbreviation "EventMemorySyncRejected \<equiv> Memory_event KMemorySyncRejected"
abbreviation "EventMemorySyncCompleted \<equiv> Memory_event KMemorySyncCompleted"
abbreviation "EventMemorySyncFailed \<equiv> Memory_event KMemorySyncFailed"
abbreviation "EventVerificationRequested \<equiv> Verification_event KVerificationRequested"
abbreviation "EventVerificationStarted \<equiv> Verification_event KVerificationStarted"
abbreviation "EventVerificationPassed \<equiv> Verification_event KVerificationPassed"
abbreviation "EventVerificationFailed \<equiv> Verification_event KVerificationFailed"
abbreviation "EventVerificationBlocked \<equiv> Verification_event KVerificationBlocked"
abbreviation "EventVerificationStale \<equiv> Verification_event KVerificationStale"
abbreviation "EventCheckpointCaptured \<equiv> Checkpoint_event KCheckpointCaptured"
abbreviation "EventCheckpointRestored \<equiv> Checkpoint_event KCheckpointRestored"
abbreviation "EventCheckpointStale \<equiv> Checkpoint_event KCheckpointStale"
abbreviation "EventCompensationStarted \<equiv> Checkpoint_event KCompensationStarted"
abbreviation "EventCompensationCompleted \<equiv> Checkpoint_event KCompensationCompleted"
abbreviation "EventCompensationFailed \<equiv> Checkpoint_event KCompensationFailed"
abbreviation "EventTaskStateUpdated \<equiv> Misc_event KTaskStateUpdated"
abbreviation "EventCitationResolved \<equiv> Misc_event KCitationResolved"
abbreviation "EventUsageRecorded \<equiv> Misc_event KUsageRecorded"
abbreviation "EventBudgetExceeded \<equiv> Misc_event KBudgetExceeded"
abbreviation "EventAgentSelectionDecided \<equiv> Misc_event KAgentSelectionDecided"
abbreviation "EventClarificationAnswered \<equiv> Misc_event KClarificationAnswered"

definition CurrentRunEventSchemaVersion :: int where "CurrentRunEventSchemaVersion = 1"

section \<open>Events\<close>

text \<open>The dynamic values of a \<open>map[string]any\<close> payload.\<close>

datatype any_value =
    VNil
  | VBool bool
  | VString string
  | VInt int
  | VInt64 int
  | VFloat64 rat
  | VRunStatus run_status
  | VList "any_value list"
  | VMap "(string \<times> any_value) list"

type_synonym payload = "string \<rightharpoonup> any_value"

text \<open>\<open>s, _ := payload[key].(string)\<close>.\<close>

definition payload_string :: "payload \<Rightarrow> string \<Rightarrow> string" where
  "payload_string p k = (case p k of Some (VString s) \<Rightarrow> s | _ \<Rightarrow> [])"

record run_event =
  ev_id :: string
  ev_type :: run_event_type
  ev_schema_version :: int
  ev_sequence :: int
  ev_conversation_id :: string
  ev_run_id :: string
  ev_stage_id :: string
  ev_turn_id :: string
  ev_parent_event_id :: string
  ev_payload :: payload
  ev_timestamp :: time

text \<open>The zero value of the struct.\<close>

definition zero_event :: run_event where
  "zero_event = \<lparr>ev_id = [], ev_type = Unregistered_event [], ev_schema_version = 0,
     ev_sequence = 0, ev_conversation_id = [], ev_run_id = [], ev_stage_id = [], ev_turn_id = [],
     ev_parent_event_id = [], ev_payload = Map.empty, ev_timestamp = 0\<rparr>"

section \<open>Budgets and pricing\<close>

record run_budget =
  MaxModelCalls :: int
  MaxPromptTokens :: int
  MaxCompletionTokens :: int
  MaxTotalTokens :: int
  MaxToolCalls :: int
  MaxRuntimeMS :: int
  MaxEstimatedCostMicros :: int
  InputCostPerMillionTokensMicros :: int
  OutputCostPerMillionTokensMicros :: int

definition no_budget :: run_budget where
  "no_budget = \<lparr>MaxModelCalls = 0, MaxPromptTokens = 0, MaxCompletionTokens = 0,
     MaxTotalTokens = 0, MaxToolCalls = 0, MaxRuntimeMS = 0, MaxEstimatedCostMicros = 0,
     InputCostPerMillionTokensMicros = 0, OutputCostPerMillionTokensMicros = 0\<rparr>"

record route_pricing =
  pricing_source :: string
  InputPerMillionTokensMicros :: int
  OutputPerMillionTokensMicros :: int
  CachedInputPerMillionTokensMicros :: "int option"

record model_route =
  route_id :: string
  route_model :: string
  route_pricing :: route_pricing

section \<open>Runs\<close>

text \<open>
  The frozen runtime snapshot, as far as the modelled code reads it. \<open>snap_rest\<close> stands for
  the remaining fields (agents, prompts, tools, skills, context configuration), which only
  enter the hashes of the checkpoint provider.
\<close>

record plan_origin =
  origin_run_id :: string
  origin_hash :: string

record runtime_snapshot =
  snap_execution_constraint :: string
  snap_plan_origin :: "plan_origin option"
  snap_schema_version :: int
  snap_routes :: "model_route list"
  snap_run_budget :: "run_budget option"
  snap_rest :: string

record verifier_spec =
  verifier_id :: string
  verifier_type :: string
  verifier_version :: string

record completion_contract =
  contract_id :: string
  contract_version :: int
  contract_hash :: string
  contract_verifiers :: "verifier_spec list"

record run =
  run_id :: string
  run_workspace_id :: string
  run_agent_id :: string
  run_conversation_id :: string
  run_status :: run_status
  run_snapshot :: "runtime_snapshot option"
  run_contract :: "completion_contract option"
  run_verification_status :: verification_status
  run_error :: string
  run_started_at :: "time option"
  run_execution_started_at :: "time option"
  run_active_runtime_ms :: int
  run_heartbeat_at :: "time option"
  run_completed_at :: "time option"
  run_created_at :: time
  run_updated_at :: time

section \<open>Stages, checkpoints and tool effects\<close>

datatype step_status =
    CollaborationStepQueued
  | CollaborationStepRunning
  | CollaborationStepCompleted
  | CollaborationStepFailed
  | CollaborationStepOther string

record collaboration_step =
  step_id :: string
  step_run_id :: string
  step_conversation_id :: string
  step_role :: string
  step_agent_id :: string
  step_status :: step_status
  step_iteration :: int
  step_input :: string
  step_output :: string
  step_error :: string
  step_created_at :: time
  step_updated_at :: time

datatype checkpoint_status =
    CheckpointPrepared
  | CheckpointExecuting
  | CheckpointCommitted
  | CheckpointCompensated
  | CheckpointNeedsReconciliation
  | CheckpointOther string

record stage_checkpoint =
  cp_id :: string
  cp_provider :: string
  cp_run_id :: string
  cp_conversation_id :: string
  cp_stage_id :: string
  cp_status :: checkpoint_status
  cp_input_hash :: string
  cp_output_hash :: string
  cp_snapshot_hash :: string
  cp_tools_hash :: string
  cp_event_cursor :: int
  cp_error :: string
  cp_created_at :: time
  cp_updated_at :: time

datatype effect_status =
    ToolEffectPrepared
  | ToolEffectExecuting
  | ToolEffectCommitted
  | ToolEffectFailed
  | ToolEffectCompensated
  | ToolEffectNeedsReconciliation
  | ToolEffectReconciling
  | ToolEffectOther string

record tool_effect =
  eff_key :: string
  eff_version :: int
  eff_run_id :: string
  eff_stage_id :: string
  eff_turn_id :: string
  eff_tool_call_id :: string
  eff_tool_name :: string
  eff_revision :: string
  eff_request_hash :: string
  eff_status :: effect_status
  eff_result :: string
  eff_error :: string
  eff_created_at :: time
  eff_updated_at :: time

text \<open>\<open>ToolEffectRequiresReconciliation\<close>\<close>

definition ToolEffectRequiresReconciliation :: "effect_status \<Rightarrow> bool" where
  "ToolEffectRequiresReconciliation s \<longleftrightarrow>
     s = ToolEffectNeedsReconciliation \<or> s = ToolEffectReconciling"

section \<open>Names\<close>

definition DefaultWorkspaceID :: string where
  "DefaultWorkspaceID = ''default_workspace''"

definition NormalizeWorkspaceID :: "string \<Rightarrow> string" where
  "NormalizeWorkspaceID w =
     (let w = trim_space w in
      if w = [] \<or> w = ''default'' then DefaultWorkspaceID else w)"

lemma trim_default_workspace: "trim_space DefaultWorkspaceID = DefaultWorkspaceID"
  by code_simp

lemma NormalizeWorkspaceID_idem [simp]:
  "NormalizeWorkspaceID (NormalizeWorkspaceID w) = NormalizeWorkspaceID w"
  by (auto simp: NormalizeWorkspaceID_def Let_def trim_default_workspace)

lemma NormalizeWorkspaceID_nonempty: "NormalizeWorkspaceID w \<noteq> []"
  by (simp add: NormalizeWorkspaceID_def Let_def DefaultWorkspaceID_def)

end
