(* ===== verification/Event_Catalog.thy ===== *)
theory Event_Catalog
  imports Domain
begin

text \<open>
  The event catalog (\<open>internal/eventcatalog/registry.go\<close>): the registry of event types with
  their durability, required scope and lifecycle role, and the envelope checks that producers
  and the store run against it. Payload schema names, producers and consumers are documentation
  metadata in the source and are left out. The typed payload checks of \<open>tool.progress\<close> and
  \<open>model.output_checkpoint\<close> are a parameter (\<open>check_payload\<close>).
\<close>

datatype durability = DurableFact | LiveOnly

record scope_contract =
  scope_stage_required :: bool
  scope_turn_required :: bool
  scope_owner_required :: bool

datatype lifecycle_contract =
    LifecycleNone
  | LifecycleStart string
  | LifecycleTerminal string run_event_type
  | LifecycleTransition string

record event_definition =
  def_durability :: durability
  def_schema_version :: int
  def_scope :: scope_contract
  def_lifecycle :: lifecycle_contract

definition scope_optional :: scope_contract where
  "scope_optional = \<lparr>scope_stage_required = False, scope_turn_required = False,
     scope_owner_required = False\<rparr>"

definition scope_stage :: scope_contract where
  "scope_stage = scope_optional\<lparr>scope_stage_required := True\<rparr>"

definition scope_turn :: scope_contract where
  "scope_turn = scope_optional\<lparr>scope_turn_required := True\<rparr>"

definition scope_owner :: scope_contract where
  "scope_owner = scope_optional\<lparr>scope_owner_required := True\<rparr>"

definition registered :: "durability \<Rightarrow> scope_contract \<Rightarrow> lifecycle_contract \<Rightarrow> event_definition option" where
  "registered d s l = Some \<lparr>def_durability = d, def_schema_version = CurrentRunEventSchemaVersion,
     def_scope = s, def_lifecycle = l\<rparr>"

fun run_definition :: "run_kind \<Rightarrow> event_definition option" where
  "run_definition KRunCreated = registered DurableFact scope_optional (LifecycleStart ''run'')"
| "run_definition KRunStarted = registered DurableFact scope_optional (LifecycleTransition ''run'')"
| "run_definition KRunWaitingForUser = registered DurableFact scope_optional (LifecycleTransition ''run'')"
| "run_definition KRunResumed = registered DurableFact scope_optional (LifecycleTransition ''run'')"
| "run_definition KRunCancelRequested = registered DurableFact scope_optional (LifecycleTransition ''run'')"
| "run_definition KRunRevisionRequested = registered DurableFact scope_optional (LifecycleTransition ''run'')"
| "run_definition KRunCanceled = registered DurableFact scope_optional (LifecycleTerminal ''run'' EventRunCreated)"
| "run_definition KRunCompleted = registered DurableFact scope_optional (LifecycleTerminal ''run'' EventRunCreated)"
| "run_definition KRunFailed = registered DurableFact scope_optional (LifecycleTerminal ''run'' EventRunCreated)"
| "run_definition KRunProgress = registered LiveOnly scope_optional LifecycleNone"
| "run_definition KPlanRecorded = registered DurableFact scope_optional LifecycleNone"

fun stage_definition :: "stage_kind \<Rightarrow> event_definition option" where
  "stage_definition KStageStarted = registered DurableFact scope_stage (LifecycleStart ''stage'')"
| "stage_definition k = registered DurableFact scope_stage (LifecycleTerminal ''stage'' EventStageStarted)"

fun turn_definition :: "turn_kind \<Rightarrow> event_definition option" where
  "turn_definition KTurnStarted = registered DurableFact scope_turn (LifecycleStart ''turn'')"
| "turn_definition KTurnNoProgress = registered DurableFact scope_turn (LifecycleTransition ''turn'')"
| "turn_definition k = registered DurableFact scope_turn (LifecycleTerminal ''turn'' EventTurnStarted)"

fun model_definition :: "model_kind \<Rightarrow> event_definition option" where
  "model_definition KModelStarted = registered DurableFact scope_optional (LifecycleStart ''model'')"
| "model_definition KModelCompleted = registered DurableFact scope_optional (LifecycleTerminal ''model'' EventModelStarted)"
| "model_definition KModelFailed = registered DurableFact scope_optional (LifecycleTerminal ''model'' EventModelStarted)"
| "model_definition KModelDelta = registered LiveOnly scope_optional LifecycleNone"
| "model_definition KModelOutputCheckpoint = registered DurableFact scope_turn LifecycleNone"
| "model_definition KModelReasoning = registered DurableFact scope_turn LifecycleNone"
| "model_definition KModelReasoningDelta = registered LiveOnly scope_turn LifecycleNone"
| "model_definition KModelRouteDecided = registered DurableFact scope_optional (LifecycleTransition ''model'')"
| "model_definition KModelRequestPrepared = registered DurableFact scope_optional (LifecycleTransition ''model'')"
| "model_definition KModelAttemptFinished = registered DurableFact scope_optional LifecycleNone"

fun context_definition :: "context_kind \<Rightarrow> event_definition option" where
  "context_definition KContextAssembled = registered DurableFact scope_optional LifecycleNone"
| "context_definition KCompactionStarted = registered DurableFact scope_optional (LifecycleStart ''compaction'')"
| "context_definition k = registered DurableFact scope_optional (LifecycleTerminal ''compaction'' EventCompactionStarted)"

fun tool_definition :: "tool_kind \<Rightarrow> event_definition option" where
  "tool_definition KToolStarted = registered DurableFact scope_optional (LifecycleStart ''tool'')"
| "tool_definition KToolProgress = registered DurableFact scope_turn LifecycleNone"
| "tool_definition KToolCompleted = registered DurableFact scope_optional (LifecycleTerminal ''tool'' EventToolStarted)"
| "tool_definition KToolFailed = registered DurableFact scope_optional (LifecycleTerminal ''tool'' EventToolStarted)"
| "tool_definition KToolDiscoveryUpdated = registered DurableFact scope_turn LifecycleNone"
| "tool_definition KToolEffectReconciliationStarted = registered DurableFact scope_owner LifecycleNone"
| "tool_definition KToolEffectReconciled = registered DurableFact scope_owner LifecycleNone"
| "tool_definition KToolEffectReconciliationFailed = registered DurableFact scope_owner LifecycleNone"
| "tool_definition k = registered DurableFact scope_optional LifecycleNone"

fun retrieval_definition :: "retrieval_kind \<Rightarrow> event_definition option" where
  "retrieval_definition KRetrievalStarted = registered DurableFact scope_optional (LifecycleStart ''retrieval'')"
| "retrieval_definition k = registered DurableFact scope_optional (LifecycleTerminal ''retrieval'' EventRetrievalStarted)"

fun history_definition :: "history_kind \<Rightarrow> event_definition option" where
  "history_definition KHistorySearchStarted = registered DurableFact scope_optional (LifecycleStart ''history_search'')"
| "history_definition k = registered DurableFact scope_optional (LifecycleTerminal ''history_search'' EventHistorySearchStarted)"

fun memory_definition :: "memory_kind \<Rightarrow> event_definition option" where
  "memory_definition KMemoryCandidateProposed = registered DurableFact scope_optional (LifecycleStart ''memory_candidate'')"
| "memory_definition KMemoryCandidateAccepted = registered DurableFact scope_optional (LifecycleTerminal ''memory_candidate'' EventMemoryCandidateProposed)"
| "memory_definition KMemoryCandidateRejected = registered DurableFact scope_optional (LifecycleTerminal ''memory_candidate'' EventMemoryCandidateProposed)"
| "memory_definition KMemoryCandidateFailed = registered DurableFact scope_optional LifecycleNone"
| "memory_definition KMemoryRecallFailed = registered DurableFact scope_optional LifecycleNone"
| "memory_definition KMemorySyncRequested = registered DurableFact scope_optional (LifecycleStart ''memory_sync'')"
| "memory_definition KMemorySyncRejected = registered DurableFact scope_optional LifecycleNone"
| "memory_definition KMemorySyncCompleted = registered DurableFact scope_optional (LifecycleTerminal ''memory_sync'' EventMemorySyncRequested)"
| "memory_definition KMemorySyncFailed = registered DurableFact scope_optional (LifecycleTerminal ''memory_sync'' EventMemorySyncRequested)"

fun verification_definition :: "verification_kind \<Rightarrow> event_definition option" where
  "verification_definition KVerificationRequested = registered DurableFact scope_optional (LifecycleStart ''verification_attempt'')"
| "verification_definition KVerificationStarted = registered DurableFact scope_optional (LifecycleStart ''verifier'')"
| "verification_definition KVerificationStale = registered DurableFact scope_optional (LifecycleTransition ''verification_attempt'')"
| "verification_definition k = registered DurableFact scope_optional (LifecycleTerminal ''verifier'' EventVerificationStarted)"

fun checkpoint_definition :: "checkpoint_kind \<Rightarrow> event_definition option" where
  "checkpoint_definition KCompensationStarted = registered DurableFact scope_stage (LifecycleStart ''compensation'')"
| "checkpoint_definition KCompensationCompleted = registered DurableFact scope_stage (LifecycleTerminal ''compensation'' EventCompensationStarted)"
| "checkpoint_definition KCompensationFailed = registered DurableFact scope_stage (LifecycleTerminal ''compensation'' EventCompensationStarted)"
| "checkpoint_definition k = registered DurableFact scope_stage (LifecycleTransition ''checkpoint'')"

fun misc_definition :: "misc_kind \<Rightarrow> event_definition option" where
  "misc_definition KAgentSelectionDecided = registered DurableFact scope_stage LifecycleNone"
| "misc_definition k = registered DurableFact scope_optional LifecycleNone"

fun DefinitionFor :: "run_event_type \<Rightarrow> event_definition option" where
  "DefinitionFor (Run_event k) = run_definition k"
| "DefinitionFor (Stage_event k) = stage_definition k"
| "DefinitionFor (Turn_event k) = turn_definition k"
| "DefinitionFor (Model_event k) = model_definition k"
| "DefinitionFor (Context_event k) = context_definition k"
| "DefinitionFor (Tool_event k) = tool_definition k"
| "DefinitionFor (Retrieval_event k) = retrieval_definition k"
| "DefinitionFor (History_event k) = history_definition k"
| "DefinitionFor (Memory_event k) = memory_definition k"
| "DefinitionFor (Verification_event k) = verification_definition k"
| "DefinitionFor (Checkpoint_event k) = checkpoint_definition k"
| "DefinitionFor (Misc_event k) = misc_definition k"
| "DefinitionFor (Unregistered_event s) = None"

datatype envelope_error =
    NotRegistered
  | RunIDRequired
  | SchemaUnsupported int
  | StageIDRequired
  | TurnIDRequired
  | OwnerRequired
  | PayloadInvalid string
  | LiveOnlyEvent

text \<open>\<open>ValidateEnvelope\<close>; an absent error (\<open>nil\<close>) is \<open>None\<close>.\<close>

definition ValidateEnvelope ::
  "(run_event \<Rightarrow> string option) \<Rightarrow> run_event \<Rightarrow> envelope_error option" where
  "ValidateEnvelope check_payload item =
     (case DefinitionFor (ev_type item) of
        None \<Rightarrow> Some NotRegistered
      | Some d \<Rightarrow>
          if trim_space (ev_run_id item) = [] then Some RunIDRequired
          else if ev_schema_version item \<noteq> def_schema_version d
          then Some (SchemaUnsupported (ev_schema_version item))
          else if scope_stage_required (def_scope d) \<and> trim_space (ev_stage_id item) = []
          then Some StageIDRequired
          else if scope_turn_required (def_scope d) \<and> trim_space (ev_turn_id item) = []
          then Some TurnIDRequired
          else if scope_owner_required (def_scope d) \<and> trim_space (ev_stage_id item) = []
                \<and> trim_space (ev_turn_id item) = []
          then Some OwnerRequired
          else if ev_type item = EventToolProgress \<or> ev_type item = EventModelOutputCheckpoint
          then map_option PayloadInvalid (check_payload item)
          else None)"

definition ValidateDurableFact ::
  "(run_event \<Rightarrow> string option) \<Rightarrow> run_event \<Rightarrow> envelope_error option" where
  "ValidateDurableFact check_payload item =
     (case ValidateEnvelope check_payload item of
        Some e \<Rightarrow> Some e
      | None \<Rightarrow>
          (case DefinitionFor (ev_type item) of
             Some d \<Rightarrow> if def_durability d \<noteq> DurableFact then Some LiveOnlyEvent else None
           | None \<Rightarrow> Some LiveOnlyEvent))"

definition IsDurable :: "run_event_type \<Rightarrow> bool" where
  "IsDurable t = (case DefinitionFor t of
     None \<Rightarrow> False | Some d \<Rightarrow> def_durability d = DurableFact)"

lemma DefinitionFor_version:
  "DefinitionFor t = Some d \<Longrightarrow> def_schema_version d = CurrentRunEventSchemaVersion"
  by (induction t rule: DefinitionFor.induct; rename_tac k; case_tac k)
    (auto simp: registered_def)

lemma DefinitionFor_None: "DefinitionFor t = None \<longleftrightarrow> (\<exists>s. t = Unregistered_event s)"
  by (induction t rule: DefinitionFor.induct; (rename_tac k; case_tac k)?)
    (auto simp: registered_def)

lemma ValidateDurableFact_None:
  assumes "ValidateDurableFact chk item = None"
  shows "trim_space (ev_run_id item) \<noteq> []" and "ev_schema_version item = CurrentRunEventSchemaVersion"
    and "IsDurable (ev_type item)"
  using assms DefinitionFor_version [of "ev_type item"]
  by (auto simp: ValidateDurableFact_def ValidateEnvelope_def IsDurable_def
      split: option.splits if_splits)

text \<open>
  Every terminal event type closes a start event type of the same family that is itself in the
  registry with at least the scope of its terminal.
\<close>

definition lifecycle_closed :: "run_event_type \<Rightarrow> bool" where
  "lifecycle_closed t =
     (case DefinitionFor t of
        None \<Rightarrow> True
      | Some d \<Rightarrow>
          (case def_lifecycle d of
             LifecycleTerminal f s \<Rightarrow>
               (case DefinitionFor s of
                  None \<Rightarrow> False
                | Some ds \<Rightarrow> def_lifecycle ds = LifecycleStart f \<and> def_durability ds = def_durability d
                    \<and> def_scope ds = def_scope d)
           | _ \<Rightarrow> True))"

lemma registry_lifecycle_closed: "lifecycle_closed t"
  by (induction t rule: DefinitionFor.induct; (rename_tac k; case_tac k)?)
    (auto simp: lifecycle_closed_def registered_def)

section \<open>The part of the check that does not read the payload\<close>

definition scope_satisfied :: "event_definition \<Rightarrow> run_event \<Rightarrow> bool" where
  "scope_satisfied d e \<longleftrightarrow> trim_space (ev_run_id e) \<noteq> []
     \<and> ev_schema_version e = def_schema_version d \<and> def_durability d = DurableFact
     \<and> (scope_stage_required (def_scope d) \<longrightarrow> trim_space (ev_stage_id e) \<noteq> [])
     \<and> (scope_turn_required (def_scope d) \<longrightarrow> trim_space (ev_turn_id e) \<noteq> [])
     \<and> (scope_owner_required (def_scope d) \<longrightarrow>
          trim_space (ev_stage_id e) \<noteq> [] \<or> trim_space (ev_turn_id e) \<noteq> [])"

definition scoped :: "run_event \<Rightarrow> bool" where
  "scoped e \<longleftrightarrow> (\<exists>d. DefinitionFor (ev_type e) = Some d \<and> scope_satisfied d e)"

lemma ValidateEnvelope_scope:
  assumes "DefinitionFor (ev_type e) = Some d"
  shows "ValidateEnvelope chk e = None \<and> def_durability d = DurableFact \<longleftrightarrow> scope_satisfied d e
    \<and> (ev_type e = EventToolProgress \<or> ev_type e = EventModelOutputCheckpoint \<longrightarrow> chk e = None)"
proof (cases "ev_type e = EventToolProgress \<or> ev_type e = EventModelOutputCheckpoint")
  case True
  then have "ValidateEnvelope chk e = None \<longleftrightarrow>
      ValidateEnvelope (\<lambda>_. None) e = None \<and> chk e = None"
    using assms by (auto simp: ValidateEnvelope_def)
  moreover have "ValidateEnvelope (\<lambda>_. None) e = None \<and> def_durability d = DurableFact \<longleftrightarrow> scope_satisfied d e"
    using assms by (auto simp: ValidateEnvelope_def scope_satisfied_def)
  ultimately show ?thesis using True by blast
next
  case False
  then show ?thesis using assms by (auto simp: ValidateEnvelope_def scope_satisfied_def)
qed

lemma ValidateDurableFact_iff:
  "ValidateDurableFact chk e = None \<longleftrightarrow> scoped e
     \<and> (ev_type e = EventToolProgress \<or> ev_type e = EventModelOutputCheckpoint \<longrightarrow> chk e = None)"
proof (cases "DefinitionFor (ev_type e)")
  case None
  then show ?thesis by (simp add: ValidateDurableFact_def ValidateEnvelope_def scoped_def)
next
  case (Some d)
  then have "ValidateDurableFact chk e = None \<longleftrightarrow>
      ValidateEnvelope chk e = None \<and> def_durability d = DurableFact"
    by (auto simp: ValidateDurableFact_def split: option.splits)
  then show ?thesis using ValidateEnvelope_scope [OF Some, of chk] Some by (simp only: scoped_def option.inject) blast
qed

lemma ValidateDurableFact_scoped: "ValidateDurableFact chk e = None \<Longrightarrow> scoped e"
  by (simp add: ValidateDurableFact_iff)

lemma scoped_cong:
  "ev_type e = ev_type e' \<Longrightarrow> trim_space (ev_run_id e) \<noteq> [] \<Longrightarrow>
     ev_schema_version e = ev_schema_version e' \<Longrightarrow> ev_stage_id e = ev_stage_id e' \<Longrightarrow>
     ev_turn_id e = ev_turn_id e' \<Longrightarrow> scoped e' \<Longrightarrow> scoped e"
  by (auto simp: scoped_def scope_satisfied_def)

end
