(* ===== verification/Event_Lifecycle.thy ===== *)
theory Event_Lifecycle
  imports Event_Catalog "HOL-Library.AList"
begin

text \<open>
  The durable lifecycle protocol of a Run's event stream (\<open>internal/event/contract.go\<close>): the
  scan that checks sequence numbers, registration, and the pairing of stage, turn, model-call
  and tool-call starts with their terminals; and the planner that closes the scopes a crashed
  worker left open. The Go maps of open scopes are association lists without duplicate keys;
  the order Go iterates them in does not matter, because the planner sorts by sequence number.
\<close>

section \<open>The scan\<close>

record lifecycle_state =
  lc_stages :: "(string \<times> run_event) list"
  lc_turns :: "(string \<times> run_event) list"
  lc_models :: "(string \<times> run_event) list"
  lc_tools :: "(string \<times> run_event) list"

definition empty_lifecycle :: lifecycle_state where
  "empty_lifecycle = \<lparr>lc_stages = [], lc_turns = [], lc_models = [], lc_tools = []\<rparr>"

text \<open>\<open>domain.RuntimeInvariantFailure\<close> as raised by the scan; its message text is left out.\<close>

record violation =
  viol_code :: string
  viol_run_id :: string
  viol_event_id :: string
  viol_sequence :: int

definition newProtocolViolation :: "string \<Rightarrow> run_event \<Rightarrow> violation" where
  "newProtocolViolation code item =
     \<lparr>viol_code = code, viol_run_id = ev_run_id item, viol_event_id = ev_id item,
      viol_sequence = ev_sequence item\<rparr>"

definition toolCallID :: "run_event \<Rightarrow> string" where
  "toolCallID item = payload_string (ev_payload item) ''tool_call_id''"

definition validateRegisteredEvent :: "run_event \<Rightarrow> violation option" where
  "validateRegisteredEvent item =
     (case DefinitionFor (ev_type item) of
        None \<Rightarrow> Some (newProtocolViolation ''event_type_unregistered'' item)
      | Some d \<Rightarrow>
          if ev_schema_version item \<noteq> def_schema_version d
          then Some (newProtocolViolation ''event_schema_unsupported'' item) else None)"

text \<open>A scope may be opened once: the blank-identifier and overlap checks of the start cases.\<close>

definition open_scope ::
  "string \<Rightarrow> string \<Rightarrow> run_event \<Rightarrow> string \<Rightarrow> (string \<times> run_event) list
    \<Rightarrow> violation + (string \<times> run_event) list" where
  "open_scope missing overlap item key m =
     (if key = [] then Inl (newProtocolViolation missing item)
      else if map_of m key \<noteq> None then Inl (newProtocolViolation overlap item)
      else Inr (AList.update key item m))"

text \<open>A terminal closes an open scope.\<close>

definition close_scope ::
  "string \<Rightarrow> run_event \<Rightarrow> string \<Rightarrow> (string \<times> run_event) list
    \<Rightarrow> violation + (string \<times> run_event) list" where
  "close_scope orphan item key m =
     (if map_of m key = None then Inl (newProtocolViolation orphan item)
      else Inr (AList.delete key m))"

text \<open>The switch of \<open>scanLifecycle\<close> on the type of one event.\<close>

definition scan_type :: "bool \<Rightarrow> run_event \<Rightarrow> lifecycle_state \<Rightarrow> violation + lifecycle_state" where
  "scan_type strict item st =
     (case ev_type item of
        Stage_event KStageStarted \<Rightarrow>
          bind_result (open_scope ''stage_scope_missing'' ''stage_overlap'' item (ev_stage_id item) (lc_stages st))
            (\<lambda>m. Inr (st\<lparr>lc_stages := m\<rparr>))
      | Stage_event _ \<Rightarrow>
          if map_of (lc_stages st) (ev_stage_id item) = None \<and> \<not> strict then Inr st
          else bind_result (close_scope ''stage_terminal_orphan'' item (ev_stage_id item) (lc_stages st))
            (\<lambda>m. Inr (st\<lparr>lc_stages := m\<rparr>))
      | Turn_event KTurnStarted \<Rightarrow>
          bind_result (open_scope ''turn_scope_missing'' ''turn_overlap'' item (ev_turn_id item) (lc_turns st))
            (\<lambda>m. Inr (st\<lparr>lc_turns := m\<rparr>))
      | Turn_event KTurnNoProgress \<Rightarrow> Inr st
      | Turn_event _ \<Rightarrow>
          bind_result (close_scope ''turn_terminal_orphan'' item (ev_turn_id item) (lc_turns st))
            (\<lambda>m. Inr (st\<lparr>lc_turns := m\<rparr>))
      | Model_event KModelStarted \<Rightarrow>
          bind_result (open_scope ''model_scope_missing'' ''model_overlap'' item (ev_turn_id item) (lc_models st))
            (\<lambda>m. Inr (st\<lparr>lc_models := m\<rparr>))
      | Model_event KModelCompleted \<Rightarrow>
          bind_result (close_scope ''model_terminal_orphan'' item (ev_turn_id item) (lc_models st))
            (\<lambda>m. Inr (st\<lparr>lc_models := m\<rparr>))
      | Model_event KModelFailed \<Rightarrow>
          bind_result (close_scope ''model_terminal_orphan'' item (ev_turn_id item) (lc_models st))
            (\<lambda>m. Inr (st\<lparr>lc_models := m\<rparr>))
      | Tool_event KToolStarted \<Rightarrow>
          bind_result (open_scope ''tool_call_id_missing'' ''tool_overlap'' item (toolCallID item) (lc_tools st))
            (\<lambda>m. Inr (st\<lparr>lc_tools := m\<rparr>))
      | Tool_event KToolProgress \<Rightarrow>
          (case map_of (lc_tools st) (toolCallID item) of
             None \<Rightarrow> Inl (newProtocolViolation ''tool_progress_orphan'' item)
           | Some started \<Rightarrow>
               if ev_turn_id started \<noteq> ev_turn_id item \<or> ev_stage_id started \<noteq> ev_stage_id item
               then Inl (newProtocolViolation ''tool_progress_orphan'' item) else Inr st)
      | Tool_event KToolCompleted \<Rightarrow>
          bind_result (close_scope ''tool_terminal_orphan'' item (toolCallID item) (lc_tools st))
            (\<lambda>m. Inr (st\<lparr>lc_tools := m\<rparr>))
      | Tool_event KToolFailed \<Rightarrow>
          bind_result (close_scope ''tool_terminal_orphan'' item (toolCallID item) (lc_tools st))
            (\<lambda>m. Inr (st\<lparr>lc_tools := m\<rparr>))
      | _ \<Rightarrow> Inr st)"

text \<open>The loop body: sequence, registration, then the switch.\<close>

definition scan_event ::
  "bool \<Rightarrow> nat \<Rightarrow> run_event \<Rightarrow> lifecycle_state \<Rightarrow> violation + lifecycle_state" where
  "scan_event strict index item st =
     (if ev_sequence item \<noteq> int index + 1
      then Inl (newProtocolViolation ''event_sequence_gap'' item)
      else (case validateRegisteredEvent item of
              Some v \<Rightarrow> Inl v
            | None \<Rightarrow> scan_type strict item st))"

text \<open>Streams that use checkpoints get the strict pairing of stage terminals.\<close>

definition strictStagePairing :: "run_event list \<Rightarrow> bool" where
  "strictStagePairing events =
     list_ex (\<lambda>e. ev_type e \<in> {EventCheckpointCaptured, EventCheckpointRestored, EventCheckpointStale}) events"

definition scanLifecycle :: "run_event list \<Rightarrow> violation + lifecycle_state" where
  "scanLifecycle events =
     fold_result (scan_event (strictStagePairing events)) 0 events empty_lifecycle"

section \<open>Complete streams\<close>

datatype lifecycle_error =
    Protocol violation
  | StageOpen string
  | TurnOpen string
  | ModelOpen string
  | ToolOpen string
  | PlannedRecoveryInvalid lifecycle_error

text \<open>The open scope with the least sequence number; ties are broken by the event identifier.\<close>

fun firstOpen :: "(string \<times> run_event) list \<Rightarrow> run_event option" where
  "firstOpen [] = None"
| "firstOpen ((k, item) # m) =
     (case firstOpen m of
        None \<Rightarrow> Some item
      | Some first \<Rightarrow>
          if ev_sequence item < ev_sequence first
             \<or> ev_sequence item = ev_sequence first \<and> ev_id item < ev_id first
          then Some item else Some first)"

definition ValidateLifecycle :: "run_event list \<Rightarrow> lifecycle_error option" where
  "ValidateLifecycle events =
     (case scanLifecycle events of
        Inl v \<Rightarrow> Some (Protocol v)
      | Inr st \<Rightarrow>
          (case firstOpen (lc_stages st) of
             Some item \<Rightarrow> Some (StageOpen (ev_stage_id item))
           | None \<Rightarrow>
          (case firstOpen (lc_turns st) of
             Some item \<Rightarrow> Some (TurnOpen (ev_turn_id item))
           | None \<Rightarrow>
          (case firstOpen (lc_models st) of
             Some item \<Rightarrow> Some (ModelOpen (ev_turn_id item))
           | None \<Rightarrow>
          (case firstOpen (lc_tools st) of
             Some item \<Rightarrow> Some (ToolOpen (toolCallID item))
           | None \<Rightarrow> None)))))"

section \<open>The repair plan\<close>

text \<open>The synthetic terminal event for one open scope.\<close>

definition synthetic_terminal ::
  "run_event_type \<Rightarrow> string \<Rightarrow> int \<Rightarrow> run_event \<Rightarrow> run_event" where
  "synthetic_terminal terminal_type reason cursor started =
     zero_event\<lparr>ev_type := terminal_type, ev_schema_version := CurrentRunEventSchemaVersion,
       ev_sequence := cursor, ev_conversation_id := ev_conversation_id started,
       ev_run_id := ev_run_id started, ev_stage_id := ev_stage_id started,
       ev_turn_id := ev_turn_id started, ev_parent_event_id := ev_id started,
       ev_payload := (ev_payload started)
         (''synthetic'' \<mapsto> VBool True, ''reason'' \<mapsto> VString reason,
          ''repaired_from_event_id'' \<mapsto> VString (ev_id started))\<rparr>"

fun number_terminals ::
  "run_event_type \<Rightarrow> string \<Rightarrow> int \<Rightarrow> run_event list \<Rightarrow> run_event list" where
  "number_terminals t reason cursor [] = []"
| "number_terminals t reason cursor (e # es) =
     synthetic_terminal t reason (cursor + 1) e # number_terminals t reason (cursor + 1) es"

text \<open>
  \<open>appendOpen\<close>: the open scopes of one kind, latest first, each with the next sequence number.
\<close>

definition appendOpen ::
  "run_event_type \<Rightarrow> string \<Rightarrow> int \<Rightarrow> (string \<times> run_event) list \<Rightarrow> run_event list" where
  "appendOpen t reason cursor items =
     number_terminals t reason cursor (sort_key (\<lambda>e. - ev_sequence e) (map snd items))"

definition last_sequence :: "run_event list \<Rightarrow> int" where
  "last_sequence events = (if events = [] then 0 else ev_sequence (last events))"

text \<open>Inner scopes are closed before their parents: tools, model calls, turns, stages.\<close>

definition repair_terminals :: "string \<Rightarrow> int \<Rightarrow> lifecycle_state \<Rightarrow> run_event list" where
  "repair_terminals reason cursor st =
     (let tools = appendOpen EventToolFailed reason cursor (lc_tools st);
          c1 = cursor + int (length tools);
          models = appendOpen EventModelFailed reason c1 (lc_models st);
          c2 = c1 + int (length models);
          turns = appendOpen EventTurnFailed reason c2 (lc_turns st);
          c3 = c2 + int (length turns);
          stages = appendOpen EventStageFailed reason c3 (lc_stages st)
      in tools @ models @ turns @ stages)"

definition PlanInterruptedLifecycleRepair ::
  "run_event list \<Rightarrow> string \<Rightarrow> lifecycle_error + run_event list" where
  "PlanInterruptedLifecycleRepair events reason =
     (case scanLifecycle events of
        Inl v \<Rightarrow> Inl (Protocol v)
      | Inr st \<Rightarrow>
          (let terminal = repair_terminals reason (last_sequence events) st
           in case ValidateLifecycle (events @ terminal) of
                Some e \<Rightarrow> Inl (PlannedRecoveryInvalid e)
              | None \<Rightarrow> Inr terminal))"

section \<open>Invariant of the scan\<close>

definition keyed :: "(run_event \<Rightarrow> string) \<Rightarrow> (string \<times> run_event) list \<Rightarrow> bool" where
  "keyed key m \<longleftrightarrow> distinct (map fst m) \<and> (\<forall>(k, e) \<in> set m. key e = k)"

definition lifecycle_wf :: "lifecycle_state \<Rightarrow> bool" where
  "lifecycle_wf st \<longleftrightarrow> keyed ev_stage_id (lc_stages st) \<and> keyed ev_turn_id (lc_turns st)
     \<and> keyed ev_turn_id (lc_models st) \<and> keyed toolCallID (lc_tools st)"

lemma keyed_Nil [simp]: "keyed key []"
  by (simp add: keyed_def)

lemma keyed_delete: "keyed key m \<Longrightarrow> keyed key (AList.delete k m)"
  using dom_delete_subset [of k m]
  by (auto simp: keyed_def distinct_delete AList.delete_eq [symmetric])
    (auto simp: AList.delete_eq)

lemma keyed_update: "keyed key m \<Longrightarrow> key e = k \<Longrightarrow> keyed key (AList.update k e m)"
proof -
  assume m: "keyed key m" "key e = k"
  have "set (AList.update k e m) \<subseteq> insert (k, e) (set m)"
    by (induction m) auto
  with m show ?thesis by (auto simp: keyed_def distinct_update)
qed

lemma open_scope_keyed:
  "open_scope x y item k m = Inr m' \<Longrightarrow> keyed key m \<Longrightarrow> key item = k \<Longrightarrow> keyed key m'"
  by (auto simp: open_scope_def keyed_update split: if_splits)

lemma close_scope_keyed: "close_scope x item k m = Inr m' \<Longrightarrow> keyed key m \<Longrightarrow> keyed key m'"
  by (auto simp: close_scope_def keyed_delete split: if_splits)

lemma scan_type_wf:
  "scan_type strict item st = Inr st' \<Longrightarrow> lifecycle_wf st \<Longrightarrow> lifecycle_wf st'"
  by (auto simp: scan_type_def lifecycle_wf_def bind_result_Inr
      split: run_event_type.splits stage_kind.splits turn_kind.splits model_kind.splits
        tool_kind.splits if_splits option.splits
      intro: open_scope_keyed close_scope_keyed)

lemma scan_event_type:
  "scan_event strict i item st = Inr st' \<Longrightarrow>
     ev_sequence item = int i + 1 \<and> scan_type strict item st = Inr st'"
  by (auto simp: scan_event_def split: if_splits option.splits)

lemma empty_lifecycle_wf: "lifecycle_wf empty_lifecycle"
  by (simp add: lifecycle_wf_def empty_lifecycle_def)

lemma scanLifecycle_wf: "scanLifecycle events = Inr st \<Longrightarrow> lifecycle_wf st"
  unfolding scanLifecycle_def
  by (erule fold_result_invariant [where P = lifecycle_wf])
    (auto simp: empty_lifecycle_wf dest: scan_event_type scan_type_wf)

lemma scan_sequences:
  "fold_result (scan_event strict) i events st = Inr st' \<Longrightarrow>
     (\<forall>j < length events. ev_sequence (events ! j) = int (i + j) + 1)"
proof (induction events arbitrary: i st)
  case (Cons e es)
  then obtain u where u: "scan_event strict i e st = Inr u"
    "fold_result (scan_event strict) (Suc i) es u = Inr st'"
    by (auto split: sum.splits)
  from Cons.IH [OF u(2)] scan_event_type [OF u(1)] show ?case
    by (auto simp: nth_Cons split: nat.splits)
qed simp

lemma scan_last_sequence: "scanLifecycle events = Inr st \<Longrightarrow> last_sequence events = int (length events)"
  by (cases events rule: rev_cases)
    (auto simp: last_sequence_def scanLifecycle_def dest!: scan_sequences)

section \<open>Closing all open scopes of one kind\<close>

text \<open>
  The four kinds of scope have the same contract: a synthetic terminal with the right key removes
  exactly that key from its map. The consequence, that the numbered terminals of all open scopes
  empty the map, is proved once.
\<close>

lemma number_terminals_length [simp]: "length (number_terminals t r c es) = length es"
  by (induction es arbitrary: c) auto

lemma number_terminals_type: "e \<in> set (number_terminals t r c es) \<Longrightarrow> ev_type e = t"
  by (induction es arbitrary: c) (auto simp: synthetic_terminal_def)

lemma appendOpen_length [simp]: "length (appendOpen t r c m) = length m"
  by (simp add: appendOpen_def)

lemma toolCallID_synthetic [simp]: "toolCallID (synthetic_terminal t r c e) = toolCallID e"
  by (simp add: toolCallID_def payload_string_def synthetic_terminal_def)

lemma synthetic_fields [simp]:
  "ev_type (synthetic_terminal t r c e) = t"
  "ev_schema_version (synthetic_terminal t r c e) = CurrentRunEventSchemaVersion"
  "ev_sequence (synthetic_terminal t r c e) = c"
  "ev_stage_id (synthetic_terminal t r c e) = ev_stage_id e"
  "ev_turn_id (synthetic_terminal t r c e) = ev_turn_id e"
  "ev_run_id (synthetic_terminal t r c e) = ev_run_id e"
  by (simp_all add: synthetic_terminal_def)

lemma registered_current:
  "DefinitionFor (ev_type e) \<noteq> None \<Longrightarrow> ev_schema_version e = CurrentRunEventSchemaVersion \<Longrightarrow>
     validateRegisteredEvent e = None"
  by (auto simp: validateRegisteredEvent_def DefinitionFor_version)

locale closing_family =
  fixes items :: "lifecycle_state \<Rightarrow> (string \<times> run_event) list"
    and put :: "(string \<times> run_event) list \<Rightarrow> lifecycle_state \<Rightarrow> lifecycle_state"
    and key :: "run_event \<Rightarrow> string"
    and terminal :: run_event_type
  assumes items_put: "items (put m st) = m"
    and put_put: "put m (put m' st) = put m st"
    and put_items: "put (items st) st = st"
    and key_synthetic: "key (synthetic_terminal t r c e) = key e"
    and terminal_registered: "DefinitionFor terminal \<noteq> None"
    and terminal_closes:
      "ev_type e = terminal \<Longrightarrow> map_of (items st) (key e) \<noteq> None \<Longrightarrow>
         scan_type strict e st = Inr (put (AList.delete (key e) (items st)) st)"
begin

lemma close_one:
  "map_of (items st) (key e) \<noteq> None \<Longrightarrow>
     scan_event strict i (synthetic_terminal terminal r (int i + 1) e) st =
       Inr (put (AList.delete (key e) (items st)) st)"
  using terminal_closes [of "synthetic_terminal terminal r (int i + 1) e" st strict]
    terminal_registered
  by (simp add: scan_event_def registered_current key_synthetic)

lemma close_list:
  "distinct (map key es) \<Longrightarrow> fst ` set (items st) = key ` set es \<Longrightarrow>
     fold_result (scan_event strict) i (number_terminals terminal r (int i) es) st =
       Inr (put [] st)"
proof (induction es arbitrary: i st)
  case Nil
  then have "items st = []" by simp
  then show ?case using put_items [of st] by simp
next
  case (Cons e es)
  let ?st = "put (AList.delete (key e) (items st)) st"
  have "key e \<in> fst ` set (items st)" using Cons.prems by simp
  then have "scan_event strict i (synthetic_terminal terminal r (int i + 1) e) st = Inr ?st"
    by (intro close_one) (simp add: map_of_eq_None_iff)
  moreover have "fst ` set (items ?st) = key ` set es"
    using Cons.prems by (simp add: items_put delete_keys flip: set_map)
  then have "fold_result (scan_event strict) (Suc i)
      (number_terminals terminal r (int (Suc i)) es) ?st = Inr (put [] ?st)"
    by (intro Cons.IH) (use Cons.prems in auto)
  ultimately show ?case by (simp add: put_put add.commute)
qed

lemma close_all:
  assumes "keyed key (items st)"
  shows "fold_result (scan_event strict) i (appendOpen terminal r (int i) (items st)) st =
           Inr (put [] st)"
proof -
  let ?es = "sort_key (\<lambda>e. - ev_sequence e) (map snd (items st))"
  have keys: "map key (map snd (items st)) = map fst (items st)"
    using assms by (force simp: keyed_def)
  then have "distinct (map key (map snd (items st)))"
    using assms by (simp only: keyed_def)
  then have "distinct (map snd (items st)) \<and> inj_on key (set (map snd (items st)))"
    by (simp only: distinct_map)
  then have "distinct (map key ?es)"
    by (simp only: distinct_map distinct_sort set_sort)
  moreover have "fst ` set (items st) = key ` set ?es"
    using keys by (metis image_set set_sort)
  ultimately show ?thesis unfolding appendOpen_def by (rule close_list)
qed

end

interpretation stage_family: closing_family lc_stages "\<lambda>m st. st\<lparr>lc_stages := m\<rparr>" ev_stage_id EventStageFailed
  by unfold_locales (auto simp: scan_type_def close_scope_def registered_def)

interpretation turn_family: closing_family lc_turns "\<lambda>m st. st\<lparr>lc_turns := m\<rparr>" ev_turn_id EventTurnFailed
  by unfold_locales (auto simp: scan_type_def close_scope_def registered_def)

interpretation model_family: closing_family lc_models "\<lambda>m st. st\<lparr>lc_models := m\<rparr>" ev_turn_id EventModelFailed
  by unfold_locales (auto simp: scan_type_def close_scope_def registered_def)

interpretation tool_family: closing_family lc_tools "\<lambda>m st. st\<lparr>lc_tools := m\<rparr>" toolCallID EventToolFailed
  by unfold_locales (auto simp: scan_type_def close_scope_def registered_def)


section \<open>The repair plan is total\<close>

lemma appendOpen_types: "e \<in> set (appendOpen t r c m) \<Longrightarrow> ev_type e = t"
  by (auto simp: appendOpen_def dest: number_terminals_type)

lemma repair_terminals_types:
  "e \<in> set (repair_terminals r c st) \<Longrightarrow>
     ev_type e \<in> {EventToolFailed, EventModelFailed, EventTurnFailed, EventStageFailed}"
  by (auto simp: repair_terminals_def Let_def dest: appendOpen_types)

lemma repair_keeps_strictness:
  "strictStagePairing (events @ repair_terminals r c st) = strictStagePairing events"
  by (auto simp: strictStagePairing_def list_ex_iff dest: repair_terminals_types)

lemma repair_closes_everything:
  assumes "lifecycle_wf st"
  shows "fold_result (scan_event strict) n (repair_terminals r (int n) st) st = Inr empty_lifecycle"
proof -
  let ?s1 = "st\<lparr>lc_tools := []\<rparr>"
  let ?s2 = "?s1\<lparr>lc_models := []\<rparr>"
  let ?s3 = "?s2\<lparr>lc_turns := []\<rparr>"
  let ?n1 = "n + length (lc_tools st)"
  let ?n2 = "?n1 + length (lc_models st)"
  let ?n3 = "?n2 + length (lc_turns st)"
  have wf: "keyed toolCallID (lc_tools st)" "keyed ev_turn_id (lc_models ?s1)"
    "keyed ev_turn_id (lc_turns ?s2)" "keyed ev_stage_id (lc_stages ?s3)"
    using assms by (simp_all add: lifecycle_wf_def)
  note steps = tool_family.close_all [OF wf(1), of strict n r]
    model_family.close_all [OF wf(2), of strict ?n1 r]
    turn_family.close_all [OF wf(3), of strict ?n2 r]
    stage_family.close_all [OF wf(4), of strict ?n3 r]
  show ?thesis
    using steps by (simp add: repair_terminals_def Let_def fold_result_append empty_lifecycle_def)
qed

lemma repaired_scan:
  assumes "scanLifecycle events = Inr st"
  shows "scanLifecycle (events @ repair_terminals r (last_sequence events) st) = Inr empty_lifecycle"
  using assms repair_closes_everything [OF scanLifecycle_wf [OF assms]]
  by (simp add: scanLifecycle_def repair_keeps_strictness fold_result_append
      scan_last_sequence [OF assms])

lemma ValidateLifecycle_None_iff: "ValidateLifecycle events = None \<longleftrightarrow> scanLifecycle events = Inr empty_lifecycle"
proof -
  have first: "firstOpen m = None \<longleftrightarrow> m = []" for m
    by (induction m rule: firstOpen.induct) (auto split: option.splits)
  show ?thesis
    by (auto simp: ValidateLifecycle_def first empty_lifecycle_def split: sum.splits option.splits)
qed

lemma plan_when_scanned:
  assumes "scanLifecycle events = Inr st"
  shows "PlanInterruptedLifecycleRepair events r = Inr (repair_terminals r (last_sequence events) st)"
  using assms ValidateLifecycle_None_iff [THEN iffD2, OF repaired_scan [OF assms]]
  by (simp add: PlanInterruptedLifecycleRepair_def Let_def)


section \<open>What the scan accepts\<close>

text \<open>
  The specification of pairing: seen from one scope identifier, the marks of a stream (\<open>True\<close> for
  a start, \<open>False\<close> for a terminal) alternate. \<open>alternation\<close> returns whether the scope is open at
  the end, or \<open>None\<close> when two starts or two terminals follow each other.
\<close>

fun alternation :: "bool \<Rightarrow> bool list \<Rightarrow> bool option" where
  "alternation b [] = Some b"
| "alternation b (m # ms) = (if m = b then None else alternation m ms)"

definition marks_of :: "(run_event \<Rightarrow> (string \<times> bool) option) \<Rightarrow> string \<Rightarrow> run_event list \<Rightarrow> bool list" where
  "marks_of mark k events = [b. (k', b) \<leftarrow> List.map_filter mark events, k' = k]"

fun turn_mark :: "run_event \<Rightarrow> (string \<times> bool) option" where
  "turn_mark e = (case ev_type e of
     Turn_event KTurnStarted \<Rightarrow> Some (ev_turn_id e, True)
   | Turn_event KTurnNoProgress \<Rightarrow> None
   | Turn_event _ \<Rightarrow> Some (ev_turn_id e, False)
   | _ \<Rightarrow> None)"

fun stage_mark :: "run_event \<Rightarrow> (string \<times> bool) option" where
  "stage_mark e = (case ev_type e of
     Stage_event KStageStarted \<Rightarrow> Some (ev_stage_id e, True)
   | Stage_event _ \<Rightarrow> Some (ev_stage_id e, False)
   | _ \<Rightarrow> None)"

fun model_mark :: "run_event \<Rightarrow> (string \<times> bool) option" where
  "model_mark e = (case ev_type e of
     Model_event KModelStarted \<Rightarrow> Some (ev_turn_id e, True)
   | Model_event KModelCompleted \<Rightarrow> Some (ev_turn_id e, False)
   | Model_event KModelFailed \<Rightarrow> Some (ev_turn_id e, False)
   | _ \<Rightarrow> None)"

fun tool_mark :: "run_event \<Rightarrow> (string \<times> bool) option" where
  "tool_mark e = (case ev_type e of
     Tool_event KToolStarted \<Rightarrow> Some (toolCallID e, True)
   | Tool_event KToolCompleted \<Rightarrow> Some (toolCallID e, False)
   | Tool_event KToolFailed \<Rightarrow> Some (toolCallID e, False)
   | _ \<Rightarrow> None)"

locale scope_family =
  fixes items :: "lifecycle_state \<Rightarrow> (string \<times> run_event) list"
    and mark :: "run_event \<Rightarrow> (string \<times> bool) option"
    and guard :: "bool \<Rightarrow> bool"
  assumes step:
    "guard strict \<Longrightarrow> scan_type strict e st = Inr st' \<Longrightarrow>
       (case mark e of
          None \<Rightarrow> items st' = items st
        | Some (k, b) \<Rightarrow> is_some (map_of (items st) k) = (\<not> b) \<and>
            (\<forall>j. is_some (map_of (items st') j) = (if j = k then b else is_some (map_of (items st) j))))"
begin

lemma alternates:
  assumes "guard strict" and "fold_result (scan_event strict) i events st = Inr st'"
  shows "alternation (is_some (map_of (items st) k)) (marks_of mark k events) =
           Some (is_some (map_of (items st') k))"
  using assms(2)
proof (induction events arbitrary: i st)
  case (Cons e es)
  then obtain u where "scan_event strict i e st = Inr u"
    and rest: "fold_result (scan_event strict) (Suc i) es u = Inr st'"
    by (auto split: sum.splits)
  then have u: "scan_type strict e st = Inr u" by (simp add: scan_event_type)
  show ?case
  proof (cases "mark e")
    case None
    then show ?thesis using Cons.IH [OF rest] step [OF assms(1) u]
      by (simp add: marks_of_def List.map_filter_simps)
  next
    case (Some m)
    then obtain k' b where m: "mark e = Some (k', b)" by (cases m) simp
    have s: "is_some (map_of (items st) k') = (\<not> b)"
      "is_some (map_of (items u) k) = (if k = k' then b else is_some (map_of (items st) k))"
      using step [OF assms(1) u] m by auto
    then show ?thesis using Cons.IH [OF rest] m
      by (cases "k = k'") (simp_all add: marks_of_def List.map_filter_simps del: not_None_eq)
  qed
qed (simp add: marks_of_def List.map_filter_simps)

end

lemma open_scope_dom:
  "open_scope x y item k m = Inr m' \<Longrightarrow> map_of m k = None \<and>
     map_of m' = (map_of m)(k \<mapsto> item)"
  by (auto simp: open_scope_def update_conv' split: if_splits)

lemma close_scope_dom:
  "close_scope x item k m = Inr m' \<Longrightarrow> is_some (map_of m k) \<and>
     map_of m' = (map_of m)(k := None)"
  by (auto simp: close_scope_def delete_conv' split: if_splits)

interpretation turn_scope: scope_family lc_turns turn_mark "\<lambda>strict. True"
  by unfold_locales
    (auto simp: scan_type_def bind_result_Inr dest!: open_scope_dom close_scope_dom
      split: run_event_type.splits stage_kind.splits turn_kind.splits model_kind.splits
        tool_kind.splits if_splits option.splits)

interpretation stage_scope: scope_family lc_stages stage_mark "\<lambda>strict. strict"
  by unfold_locales
    (auto simp: scan_type_def bind_result_Inr dest!: open_scope_dom close_scope_dom
      split: run_event_type.splits stage_kind.splits turn_kind.splits model_kind.splits
        tool_kind.splits if_splits option.splits)

interpretation model_scope: scope_family lc_models model_mark "\<lambda>strict. True"
  by unfold_locales
    (auto simp: scan_type_def bind_result_Inr dest!: open_scope_dom close_scope_dom
      split: run_event_type.splits stage_kind.splits turn_kind.splits model_kind.splits
        tool_kind.splits if_splits option.splits)

interpretation tool_scope: scope_family lc_tools tool_mark "\<lambda>strict. True"
  by unfold_locales
    (auto simp: scan_type_def bind_result_Inr dest!: open_scope_dom close_scope_dom
      split: run_event_type.splits stage_kind.splits turn_kind.splits model_kind.splits
        tool_kind.splits if_splits option.splits)


section \<open>Open scopes are events of the stream\<close>

definition from_starts :: "run_event set \<Rightarrow> run_event_type \<Rightarrow> (string \<times> run_event) list \<Rightarrow> bool" where
  "from_starts E t m \<longleftrightarrow> (\<forall>(k, e) \<in> set m. e \<in> E \<and> ev_type e = t)"

definition scopes_from :: "run_event set \<Rightarrow> lifecycle_state \<Rightarrow> bool" where
  "scopes_from E st \<longleftrightarrow>
     from_starts E EventStageStarted (lc_stages st) \<and> from_starts E EventTurnStarted (lc_turns st) \<and>
     from_starts E EventModelStarted (lc_models st) \<and> from_starts E EventToolStarted (lc_tools st)"

lemma update_set: "(k, e) \<in> set (AList.update j x m) \<Longrightarrow> (k, e) \<in> set m \<or> e = x"
  by (induction m) (auto split: if_splits)

lemma open_scope_from:
  "open_scope x y item k m = Inr m' \<Longrightarrow> from_starts E t m \<Longrightarrow> item \<in> E \<Longrightarrow> ev_type item = t \<Longrightarrow>
     from_starts E t m'"
  by (fastforce simp: open_scope_def from_starts_def dest: update_set split: if_splits)

lemma close_scope_from:
  "close_scope x item k m = Inr m' \<Longrightarrow> from_starts E t m \<Longrightarrow> from_starts E t m'"
  by (auto simp: close_scope_def AList.delete_eq from_starts_def split: if_splits)

lemma scan_type_scopes:
  "scan_type strict item st = Inr st' \<Longrightarrow> item \<in> E \<Longrightarrow> scopes_from E st \<Longrightarrow> scopes_from E st'"
  by (auto simp: scan_type_def scopes_from_def bind_result_Inr
      split: run_event_type.splits stage_kind.splits turn_kind.splits model_kind.splits
        tool_kind.splits if_splits option.splits
      intro: open_scope_from close_scope_from)

lemma empty_lifecycle_scopes: "scopes_from E empty_lifecycle"
  by (simp add: scopes_from_def empty_lifecycle_def from_starts_def)

lemma scanLifecycle_scopes:
  assumes "scanLifecycle events = Inr st" shows "scopes_from (set events) st"
  using assms unfolding scanLifecycle_def
  by (rule fold_result_invariant)
    (auto simp: empty_lifecycle_scopes dest!: scan_event_type intro: scan_type_scopes)

text \<open>A terminal of the plan answers a start event of the stream.\<close>

definition answers :: "run_event \<Rightarrow> run_event \<Rightarrow> bool" where
  "answers t s \<longleftrightarrow> ev_parent_event_id t = ev_id s \<and> ev_run_id t = ev_run_id s
     \<and> ev_stage_id t = ev_stage_id s \<and> ev_turn_id t = ev_turn_id s \<and> toolCallID t = toolCallID s
     \<and> (ev_type s, ev_type t) \<in> {(EventStageStarted, EventStageFailed), (EventTurnStarted, EventTurnFailed),
         (EventModelStarted, EventModelFailed), (EventToolStarted, EventToolFailed)}"

lemma number_terminals_from:
  "t \<in> set (number_terminals ty r c es) \<Longrightarrow> \<exists>e \<in> set es. \<exists>c'. t = synthetic_terminal ty r c' e"
  by (induction es arbitrary: c) auto

lemma appendOpen_from:
  "t \<in> set (appendOpen ty r c m) \<Longrightarrow> \<exists>(k, e) \<in> set m. \<exists>c'. t = synthetic_terminal ty r c' e"
  by (fastforce simp: appendOpen_def dest: number_terminals_from)

lemma repair_terminals_answer:
  assumes "scopes_from E st" and "t \<in> set (repair_terminals r c st)"
  shows "\<exists>s \<in> E. answers t s"
  using assms unfolding repair_terminals_def Let_def scopes_from_def from_starts_def
  by (auto dest!: appendOpen_from simp: answers_def)
    (fastforce simp: synthetic_terminal_def)+

fun scope_depth :: "run_event_type \<Rightarrow> nat" where
  "scope_depth (Tool_event _) = 0"
| "scope_depth (Model_event _) = 1"
| "scope_depth (Turn_event _) = 2"
| "scope_depth _ = 3"

lemma appendOpen_depth:
  "map (scope_depth \<circ> ev_type) (appendOpen t r c m) = replicate (length m) (scope_depth t)"
  by (rule nth_equalityI) (auto simp: appendOpen_types [OF nth_mem])

lemma repair_terminals_depth: "sorted (map (scope_depth \<circ> ev_type) (repair_terminals r c st))"
  by (auto simp: repair_terminals_def Let_def appendOpen_depth sorted_append)

section \<open>The open scopes of a stream\<close>

text \<open>
  The scope of an event is open if the event is the last of the stream that marks the scope, and
  starts it. Here \<open>mark\<close> gives the scope of an event, and whether the event starts or ends it.
\<close>

definition opens :: "(run_event \<Rightarrow> (string \<times> bool) option) \<Rightarrow> run_event list \<Rightarrow> nat \<Rightarrow> bool" where
  "opens mark events j \<longleftrightarrow> j < length events
     \<and> (\<exists>k. mark (events ! j) = Some (k, True)
          \<and> (\<forall>i. j < i \<and> i < length events \<longrightarrow> (\<forall>b. mark (events ! i) \<noteq> Some (k, b))))"

definition any_mark_opens :: "run_event list \<Rightarrow> nat \<Rightarrow> bool" where
  "any_mark_opens events j \<longleftrightarrow> opens tool_mark events j \<or> opens model_mark events j
     \<or> opens turn_mark events j \<or> opens stage_mark events j"

definition mark_step :: "(run_event \<Rightarrow> (string \<times> bool) option) \<Rightarrow> run_event
    \<Rightarrow> (string \<rightharpoonup> run_event) \<Rightarrow> (string \<rightharpoonup> run_event)" where
  "mark_step mark e m =
     (case mark e of None \<Rightarrow> m | Some (k, b) \<Rightarrow> m(k := (if b then Some e else None)))"

text \<open>An event is the latest mark of \<open>k\<close> and starts it.\<close>

definition latest_start :: "(run_event \<Rightarrow> (string \<times> bool) option) \<Rightarrow> run_event list \<Rightarrow> string \<Rightarrow> nat \<Rightarrow> bool" where
  "latest_start mark events k j \<longleftrightarrow> j < length events \<and> mark (events ! j) = Some (k, True)
     \<and> (\<forall>i. j < i \<and> i < length events \<longrightarrow> (\<forall>b. mark (events ! i) \<noteq> Some (k, b)))"

lemma opens_latest: "opens mark events j \<longleftrightarrow> (\<exists>k. latest_start mark events k j)"
  by (auto simp: opens_def latest_start_def)

lemma opens_length: "opens mark events j \<Longrightarrow> j < length events"
  unfolding opens_def by blast

lemma latest_start_snoc:
  "latest_start mark (xs @ [x]) k j \<longleftrightarrow>
     (if \<exists>b. mark x = Some (k, b) then j = length xs \<and> mark x = Some (k, True) else latest_start mark xs k j)"
proof (cases "\<exists>b. mark x = Some (k, b)")
  case True
  show ?thesis
  proof
    assume l: "latest_start mark (xs @ [x]) k j"
    have "\<not> j < length xs"
    proof
      assume "j < length xs"
      then have "\<forall>b. mark ((xs @ [x]) ! length xs) \<noteq> Some (k, b)"
        using l unfolding latest_start_def by (metis length_append_singleton lessI)
      then show False using True by simp
    qed
    then have "j = length xs" using l by (simp add: latest_start_def)
    then show "if \<exists>b. mark x = Some (k, b) then j = length xs \<and> mark x = Some (k, True) else latest_start mark xs k j"
      using l True by (simp add: latest_start_def)
  qed (use True in \<open>auto simp: latest_start_def\<close>)
next
  case False
  then show ?thesis by (auto simp: latest_start_def nth_append less_Suc_eq split: if_split_asm)
qed

lemma fold_marks:
  "fold (mark_step mark) events Map.empty k = Some e \<longleftrightarrow> (\<exists>j. latest_start mark events k j \<and> events ! j = e)"
proof (induction events rule: rev_induct)
  case Nil
  then show ?case by (simp add: latest_start_def)
next
  case (snoc x xs)
  show ?case
  proof (cases "\<exists>b. mark x = Some (k, b)")
    case True
    then show ?thesis by (auto simp: mark_step_def latest_start_snoc split: if_split_asm)
  next
    case False
    then have "fold (mark_step mark) (xs @ [x]) Map.empty k = fold (mark_step mark) xs Map.empty k"
      by (auto simp: mark_step_def split: option.split)
    moreover have "latest_start mark xs k j \<Longrightarrow> (xs @ [x]) ! j = xs ! j" for j
      by (simp add: latest_start_def nth_append)
    ultimately show ?thesis using snoc.IH False by (auto simp: latest_start_snoc)
  qed
qed

locale open_family =
  fixes items :: "lifecycle_state \<Rightarrow> (string \<times> run_event) list"
    and mark :: "run_event \<Rightarrow> (string \<times> bool) option"
    and key :: "run_event \<Rightarrow> string"
  assumes items_step:
      "scan_type strict e st = Inr st' \<Longrightarrow> map_of (items st') = mark_step mark e (map_of (items st))"
    and items_empty: "items empty_lifecycle = []"
    and items_keyed: "lifecycle_wf st \<Longrightarrow> keyed key (items st)"
begin

lemma items_fold:
  "fold_result (scan_event strict) i events st = Inr st' \<Longrightarrow>
     map_of (items st') = fold (mark_step mark) events (map_of (items st))"
proof (induction events arbitrary: i st)
  case (Cons e es)
  then obtain u where u: "scan_event strict i e st = Inr u"
    "fold_result (scan_event strict) (Suc i) es u = Inr st'"
    by (auto split: sum.splits)
  have "map_of (items u) = mark_step mark e (map_of (items st))"
    using items_step scan_event_type [OF u(1)] by blast
  then show ?case using Cons.IH [OF u(2)] by simp
qed simp

lemma items_opens:
  assumes "scanLifecycle events = Inr st"
  shows "e \<in> snd ` set (items st) \<longleftrightarrow> (\<exists>j. opens mark events j \<and> events ! j = e)"
proof -
  have "distinct (map fst (items st))" using items_keyed [OF scanLifecycle_wf [OF assms]] by (simp add: keyed_def)
  then have "map_of (items st) k = Some e \<longleftrightarrow> (k, e) \<in> set (items st)" for k
    by (rule map_of_eq_Some_iff)
  then have "e \<in> snd ` set (items st) \<longleftrightarrow> (\<exists>k. map_of (items st) k = Some e)"
    by force
  also have "\<dots> \<longleftrightarrow> (\<exists>k. fold (mark_step mark) events Map.empty k = Some e)"
    using items_fold [OF assms [unfolded scanLifecycle_def]] by (simp add: items_empty)
  finally show ?thesis unfolding fold_marks opens_latest by blast
qed

text \<open>The starts that \<open>appendOpen\<close> answers, as positions of the stream.\<close>

lemma answered_positions:
  assumes "scanLifecycle events = Inr st"
  obtains js where "map (\<lambda>j. events ! j) js = sort_key (\<lambda>e. - ev_sequence e) (map snd (items st))"
    and "set js = {j. opens mark events j}" and "sorted_wrt (>) js"
proof
  let ?es = "sort_key (\<lambda>e. - ev_sequence e) (map snd (items st))"
  let ?pos = "\<lambda>e. nat (ev_sequence e - 1)"
  have seq: "ev_sequence (events ! j) = int j + 1" if "j < length events" for j
    using scan_sequences [OF assms [unfolded scanLifecycle_def]] that by simp
  have es: "e \<in> set ?es \<longleftrightarrow> (\<exists>j. opens mark events j \<and> events ! j = e)" for e
    using items_opens [OF assms] by simp
  have at: "events ! ?pos e = e \<and> ev_sequence e = int (?pos e) + 1 \<and> opens mark events (?pos e)"
    if "e \<in> set ?es" for e
  proof -
    from that have "\<exists>j. opens mark events j \<and> events ! j = e" by (rule iffD1 [OF es])
    then obtain j where j: "opens mark events j" "events ! j = e" by (elim exE conjE)
    then have "ev_sequence e = int j + 1" using seq [OF opens_length [OF j(1)]] by simp
    then show ?thesis using j by simp
  qed
  have "map (\<lambda>j. events ! j) (map ?pos ?es) = map (\<lambda>e. events ! ?pos e) ?es" by simp
  also have "\<dots> = ?es" by (rule map_idI) (rule conjunct1 [OF at])
  finally show "map (\<lambda>j. events ! j) (map ?pos ?es) = ?es" .
  have "j \<in> ?pos ` set ?es" if "opens mark events j" for j
  proof (rule image_eqI [of _ _ "events ! j"])
    show "j = ?pos (events ! j)" using seq [OF opens_length [OF that]] by simp
    show "events ! j \<in> set ?es" by (rule iffD2 [OF es]) (rule exI [of _ j], intro conjI that refl)
  qed
  moreover have "opens mark events (?pos e)" if "e \<in> set ?es" for e using at [OF that] by (elim conjE)
  ultimately show "set (map ?pos ?es) = {j. opens mark events j}"
    unfolding set_map by (intro subset_antisym subsetI) (simp_all only: mem_Collect_eq image_iff, metis+)
  have wf: "keyed key (items st)" by (rule items_keyed [OF scanLifecycle_wf [OF assms]])
  have "map key (map snd (items st)) = map fst (items st)" using wf by (auto simp: keyed_def)
  then have "distinct (map key (map snd (items st)))" using wf by (simp only: keyed_def)
  then have "distinct (map snd (items st))" by (simp only: distinct_map)
  then have "distinct ?es" by simp
  then have d: "sorted_wrt (\<noteq>) ?es" by (simp add: distinct_conv_nth sorted_wrt_iff_nth_less)
  have "sorted (map (\<lambda>e. - ev_sequence e) ?es)" by (rule sorted_sort_key)
  then have o: "sorted_wrt (\<lambda>x y. - ev_sequence x \<le> - ev_sequence y) ?es" by (simp only: sorted_wrt_map)
  have "sorted_wrt (\<lambda>x y. ?pos y < ?pos x) ?es"
    unfolding sorted_wrt_iff_nth_less
  proof (intro allI impI)
    fix i j assume ij: "i < j" "j < length ?es"
    let ?x = "?es ! i" and ?y = "?es ! j"
    have "?x \<noteq> ?y" "ev_sequence ?y \<le> ev_sequence ?x"
      using d o ij unfolding sorted_wrt_iff_nth_less by simp_all
    moreover have "?x \<in> set ?es" by (rule nth_mem) (use ij in simp)
    note x = at [OF this]
    moreover have "?y \<in> set ?es" by (rule nth_mem) (use ij in simp)
    note y = at [OF this]
    moreover have "?pos ?x \<noteq> ?pos ?y" using x y calculation(1) by metis
    ultimately show "?pos ?y < ?pos ?x" by linarith
  qed
  then show "sorted_wrt (>) (map ?pos ?es)" by (simp only: sorted_wrt_map)
qed

end

interpretation open_tools: open_family lc_tools tool_mark toolCallID
  by unfold_locales
    (auto simp: mark_step_def scan_type_def bind_result_Inr empty_lifecycle_def lifecycle_wf_def dest!: open_scope_dom close_scope_dom
      split: run_event_type.splits stage_kind.splits turn_kind.splits model_kind.splits
        tool_kind.splits if_splits option.splits)

interpretation open_models: open_family lc_models model_mark ev_turn_id
  by unfold_locales
    (auto simp: mark_step_def scan_type_def bind_result_Inr empty_lifecycle_def lifecycle_wf_def dest!: open_scope_dom close_scope_dom
      split: run_event_type.splits stage_kind.splits turn_kind.splits model_kind.splits
        tool_kind.splits if_splits option.splits)

interpretation open_turns: open_family lc_turns turn_mark ev_turn_id
  by unfold_locales
    (auto simp: mark_step_def scan_type_def bind_result_Inr empty_lifecycle_def lifecycle_wf_def dest!: open_scope_dom close_scope_dom
      split: run_event_type.splits stage_kind.splits turn_kind.splits model_kind.splits
        tool_kind.splits if_splits option.splits)

interpretation open_stages: open_family lc_stages stage_mark ev_stage_id
  by unfold_locales
    (auto simp: mark_step_def scan_type_def bind_result_Inr empty_lifecycle_def lifecycle_wf_def fun_upd_idem_iff
      dest!: open_scope_dom close_scope_dom
      split: run_event_type.splits stage_kind.splits turn_kind.splits model_kind.splits
        tool_kind.splits if_splits option.splits)

section \<open>Example streams\<close>

definition example_event :: "run_event_type \<Rightarrow> int \<Rightarrow> string \<Rightarrow> run_event" where
  "example_event t n call = zero_event\<lparr>ev_id := ''event'', ev_type := t, ev_schema_version := 1,
     ev_sequence := n, ev_run_id := ''run'', ev_stage_id := ''stage'', ev_turn_id := ''turn'',
     ev_payload := [''tool_call_id'' \<mapsto> VString call]\<rparr>"

definition complete_stream :: "run_event list" where
  "complete_stream =
     [example_event EventStageStarted 1 [], example_event EventCheckpointCaptured 2 [],
      example_event EventTurnStarted 3 [], example_event EventToolStarted 4 ''call'',
      example_event EventToolCompleted 5 ''call'', example_event EventTurnCompleted 6 [],
      example_event EventStageCompleted 7 []]"

text \<open>The same stream cut off by a crash inside the tool call.\<close>

definition interrupted_stream :: "run_event list" where
  "interrupted_stream = take 4 complete_stream"

lemma complete_stream_scan: "scanLifecycle complete_stream = Inr empty_lifecycle"
  by (simp add: scanLifecycle_def complete_stream_def example_event_def zero_event_def
      scan_event_def validateRegisteredEvent_def scan_type_def open_scope_def close_scope_def
      empty_lifecycle_def registered_def CurrentRunEventSchemaVersion_def toolCallID_def
      payload_string_def)

lemma interrupted_stream_scan:
  "scanLifecycle interrupted_stream = Inr
     \<lparr>lc_stages = [(''stage'', example_event EventStageStarted 1 [])],
      lc_turns = [(''turn'', example_event EventTurnStarted 3 [])], lc_models = [],
      lc_tools = [(''call'', example_event EventToolStarted 4 ''call'')]\<rparr>"
  by (simp add: interrupted_stream_def scanLifecycle_def complete_stream_def example_event_def zero_event_def
      scan_event_def validateRegisteredEvent_def scan_type_def open_scope_def close_scope_def
      empty_lifecycle_def registered_def CurrentRunEventSchemaVersion_def toolCallID_def
      payload_string_def)

section \<open>Properties\<close>

text \<open>
  C3: A stream that the lifecycle check accepts pairs its scopes: the sequence numbers are
  \<open>1, 2, ...\<close>, and for every identifier the starts and terminals of turns, model calls and tool
  calls, and of stages once the stream uses checkpoints, strictly alternate and end closed.
\<close>

theorem ValidateLifecycle_sound:
  assumes "ValidateLifecycle events = None"
  shows "(\<forall>i < length events. ev_sequence (events ! i) = int i + 1)
    \<and> alternation False (marks_of turn_mark k events) = Some False
    \<and> alternation False (marks_of model_mark k events) = Some False
    \<and> alternation False (marks_of tool_mark k events) = Some False
    \<and> (strictStagePairing events \<longrightarrow> alternation False (marks_of stage_mark k events) = Some False)"
proof -
  from assms have scan: "scanLifecycle events = Inr empty_lifecycle"
    by (simp only: ValidateLifecycle_None_iff)
  note fold = scan [unfolded scanLifecycle_def]
  show ?thesis
    using scan_sequences [OF fold] turn_scope.alternates [OF TrueI fold, of k]
      model_scope.alternates [OF TrueI fold, of k] tool_scope.alternates [OF TrueI fold, of k]
      stage_scope.alternates [OF _ fold, of k]
    by (simp add: empty_lifecycle_def)
qed

theorem ValidateLifecycle_sound_witness:
  "strictStagePairing complete_stream \<and> marks_of tool_mark ''call'' complete_stream = [True, False]
   \<and> alternation False (marks_of tool_mark ''call'' complete_stream) = Some False"
  using ValidateLifecycle_sound [of complete_stream "''call''"]
  by (simp add: ValidateLifecycle_None_iff complete_stream_scan)
    (simp add: complete_stream_def example_event_def zero_event_def strictStagePairing_def
      marks_of_def List.map_filter_simps toolCallID_def payload_string_def)


text \<open>
  C1: Repairing an interrupted stream never fails unless the stream itself breaks the protocol:
  the plan for every scannable stream exists, and appending it gives a stream that the full
  check accepts. The error branch of \<open>PlanInterruptedLifecycleRepair\<close> for an invalid plan is
  unreachable.
\<close>

theorem repair_plan_total:
  "PlanInterruptedLifecycleRepair events reason =
     (case scanLifecycle events of
        Inl v \<Rightarrow> Inl (Protocol v)
      | Inr st \<Rightarrow> Inr (repair_terminals reason (last_sequence events) st))
   \<and> PlanInterruptedLifecycleRepair events reason \<noteq> Inl (PlannedRecoveryInvalid e)
   \<and> (\<forall>plan. PlanInterruptedLifecycleRepair events reason = Inr plan
        \<longrightarrow> ValidateLifecycle (events @ plan) = None)"
proof (cases "scanLifecycle events")
  case (Inr st)
  then show ?thesis
    by (simp add: plan_when_scanned ValidateLifecycle_None_iff repaired_scan)
qed (simp add: PlanInterruptedLifecycleRepair_def)

theorem repair_plan_total_witness:
  "\<exists>plan. length plan = 3 \<and> ValidateLifecycle (interrupted_stream @ plan) = None"
proof -
  obtain plan where "PlanInterruptedLifecycleRepair interrupted_stream ''crash'' = Inr plan"
    and "length plan = 3"
    using plan_when_scanned [OF interrupted_stream_scan, of "''crash''"]
    by (simp add: repair_terminals_def Let_def)
  then show ?thesis using repair_plan_total [of interrupted_stream "''crash''"] by blast
qed


text \<open>The terminals of one kind answer the open scopes of that kind, the latest first.\<close>

lemma number_terminals_answer:
  assumes "\<forall>s \<in> set ss. \<forall>c. answers (synthetic_terminal t r c s) s"
  shows "list_all2 answers (number_terminals t r c ss) ss"
  using assms by (induction ss arbitrary: c) auto

lemma appendOpen_answers:
  assumes "from_starts E started m" and "(started, terminal) \<in> {(EventStageStarted, EventStageFailed),
     (EventTurnStarted, EventTurnFailed), (EventModelStarted, EventModelFailed), (EventToolStarted, EventToolFailed)}"
  shows "list_all2 answers (appendOpen terminal r c m) (sort_key (\<lambda>e. - ev_sequence e) (map snd m))"
  unfolding appendOpen_def
proof (rule number_terminals_answer, intro ballI allI)
  fix s d assume "s \<in> set (sort_key (\<lambda>e. - ev_sequence e) (map snd m))"
  then have "ev_type s = started" using assms(1) by (auto simp: from_starts_def)
  then show "answers (synthetic_terminal terminal r d s) s"
    using assms(2) by (simp add: answers_def) (simp add: synthetic_terminal_def)
qed

text \<open>Inner scopes first, and of one kind the one that was opened last.\<close>

definition closes_before :: "run_event list \<Rightarrow> nat \<Rightarrow> nat \<Rightarrow> bool" where
  "closes_before events i j \<longleftrightarrow> scope_depth (ev_type (events ! i)) < scope_depth (ev_type (events ! j))
     \<or> scope_depth (ev_type (events ! i)) = scope_depth (ev_type (events ! j)) \<and> j < i"

lemma opens_depth:
  "opens tool_mark events j \<Longrightarrow> scope_depth (ev_type (events ! j)) = 0"
  "opens model_mark events j \<Longrightarrow> scope_depth (ev_type (events ! j)) = 1"
  "opens turn_mark events j \<Longrightarrow> scope_depth (ev_type (events ! j)) = 2"
  "opens stage_mark events j \<Longrightarrow> scope_depth (ev_type (events ! j)) = 3"
  unfolding opens_latest latest_start_def by (auto split: run_event_type.split_asm stage_kind.split_asm
      turn_kind.split_asm model_kind.split_asm tool_kind.split_asm)

lemma closing_order:
  assumes "sorted_wrt (>) js" and "\<forall>j \<in> set js. scope_depth (ev_type (events ! j)) = n"
  shows "sorted_wrt (closes_before events) js"
proof (rule sorted_wrt_mono_rel [OF _ assms(1)])
  show "closes_before events i j" if "i \<in> set js" "j \<in> set js" "j < i" for i j
    using that assms(2) by (simp add: closes_before_def)
qed

text \<open>
  C4: The plan answers exactly the open scopes: its terminals correspond one to one to the starts of
  the stream whose scope is open, that is, which are the last mark of their scope. Each terminal is
  the matching failure, names the start as its parent and carries its run, stage, turn and tool
  call. Inner scopes are closed before the scopes around them (tools, then model calls, then turns,
  then stages), and of one kind the scope that was opened last is closed first; this order is
  strict, so no start is answered twice.
\<close>

theorem repair_plan_answers:
  assumes "PlanInterruptedLifecycleRepair events reason = Inr plan"
  shows "\<exists>js. set js = {j. any_mark_opens events j} \<and> sorted_wrt (closes_before events) js
    \<and> list_all2 (\<lambda>t j. answers t (events ! j)) plan js"
proof -
  obtain st where st: "scanLifecycle events = Inr st"
    using assms by (cases "scanLifecycle events") (simp_all add: PlanInterruptedLifecycleRepair_def)
  have plan: "plan = repair_terminals reason (last_sequence events) st"
    using assms by (simp add: plan_when_scanned [OF st])
  have from_e: "from_starts (set events) EventStageStarted (lc_stages st)"
    "from_starts (set events) EventTurnStarted (lc_turns st)"
    "from_starts (set events) EventModelStarted (lc_models st)"
    "from_starts (set events) EventToolStarted (lc_tools st)"
    using scanLifecycle_scopes [OF st] by (simp_all add: scopes_from_def)
  obtain ts where ts: "map (\<lambda>j. events ! j) ts = sort_key (\<lambda>e. - ev_sequence e) (map snd (lc_tools st))"
    "set ts = {j. opens tool_mark events j}" "sorted_wrt (>) ts" by (rule open_tools.answered_positions [OF st])
  obtain ms where ms: "map (\<lambda>j. events ! j) ms = sort_key (\<lambda>e. - ev_sequence e) (map snd (lc_models st))"
    "set ms = {j. opens model_mark events j}" "sorted_wrt (>) ms" by (rule open_models.answered_positions [OF st])
  obtain us where us: "map (\<lambda>j. events ! j) us = sort_key (\<lambda>e. - ev_sequence e) (map snd (lc_turns st))"
    "set us = {j. opens turn_mark events j}" "sorted_wrt (>) us" by (rule open_turns.answered_positions [OF st])
  obtain ss where ss: "map (\<lambda>j. events ! j) ss = sort_key (\<lambda>e. - ev_sequence e) (map snd (lc_stages st))"
    "set ss = {j. opens stage_mark events j}" "sorted_wrt (>) ss" by (rule open_stages.answered_positions [OF st])
  have depth: "\<forall>j \<in> set ts. scope_depth (ev_type (events ! j)) = 0" "\<forall>j \<in> set ms. scope_depth (ev_type (events ! j)) = 1"
    "\<forall>j \<in> set us. scope_depth (ev_type (events ! j)) = 2" "\<forall>j \<in> set ss. scope_depth (ev_type (events ! j)) = 3"
    by (simp_all add: ts(2) ms(2) us(2) ss(2) opens_depth)
  have "sorted_wrt (closes_before events) (ts @ ms @ us @ ss)"
    using closing_order [OF ts(3) depth(1)] closing_order [OF ms(3) depth(2)] closing_order [OF us(3) depth(3)]
      closing_order [OF ss(3) depth(4)] depth
    by (auto simp: sorted_wrt_append closes_before_def)
  moreover have "set (ts @ ms @ us @ ss) = {j. any_mark_opens events j}"
    by (auto simp: any_mark_opens_def ts(2) ms(2) us(2) ss(2))
  moreover have "list_all2 (\<lambda>t j. answers t (events ! j)) (appendOpen terminal reason c m) js"
    if "map (\<lambda>j. events ! j) js = sort_key (\<lambda>e. - ev_sequence e) (map snd m)"
      "list_all2 answers (appendOpen terminal reason c m) (sort_key (\<lambda>e. - ev_sequence e) (map snd m))" for terminal c m js
    using that(2) unfolding that(1) [symmetric] list.rel_map .
  then have "list_all2 (\<lambda>t j. answers t (events ! j)) plan (ts @ ms @ us @ ss)"
    unfolding plan repair_terminals_def Let_def
    using ts(1) ms(1) us(1) ss(1) from_e by (intro list_all2_appendI) (blast intro: appendOpen_answers)+
  ultimately show ?thesis by blast
qed

theorem repair_plan_answers_witness:
  "\<exists>plan js. PlanInterruptedLifecycleRepair interrupted_stream ''crash'' = Inr plan \<and> length plan = 3
     \<and> set js = {j. any_mark_opens interrupted_stream j} \<and> sorted_wrt (closes_before interrupted_stream) js
     \<and> list_all2 (\<lambda>t j. answers t (interrupted_stream ! j)) plan js"
proof -
  obtain plan where plan: "PlanInterruptedLifecycleRepair interrupted_stream ''crash'' = Inr plan" "length plan = 3"
    using plan_when_scanned [OF interrupted_stream_scan, of "''crash''"] by (simp add: repair_terminals_def Let_def)
  show ?thesis using repair_plan_answers [OF plan(1)] plan by blast
qed

text \<open>Repair is idempotent: a repaired stream needs no further terminals.\<close>

theorem repair_plan_idempotent:
  assumes "PlanInterruptedLifecycleRepair events reason = Inr plan"
  shows "PlanInterruptedLifecycleRepair (events @ plan) reason' = Inr []"
proof -
  obtain st where st: "scanLifecycle events = Inr st"
    using assms by (auto simp: PlanInterruptedLifecycleRepair_def split: sum.splits)
  then have "plan = repair_terminals reason (last_sequence events) st"
    using assms by (simp add: plan_when_scanned)
  then have "scanLifecycle (events @ plan) = Inr empty_lifecycle"
    using st by (simp add: repaired_scan)
  then show ?thesis
    by (simp add: plan_when_scanned repair_terminals_def Let_def appendOpen_def empty_lifecycle_def)
qed

theorem repair_plan_idempotent_witness:
  "\<exists>plan. plan \<noteq> [] \<and> PlanInterruptedLifecycleRepair (interrupted_stream @ plan) ''again'' = Inr []"
proof (intro exI conjI)
  show "PlanInterruptedLifecycleRepair
      (interrupted_stream @ repair_terminals ''crash'' (last_sequence interrupted_stream)
        \<lparr>lc_stages = [(''stage'', example_event EventStageStarted 1 [])],
         lc_turns = [(''turn'', example_event EventTurnStarted 3 [])], lc_models = [],
         lc_tools = [(''call'', example_event EventToolStarted 4 ''call'')]\<rparr>) ''again'' = Inr []"
    by (rule repair_plan_idempotent [OF plan_when_scanned [OF interrupted_stream_scan]])
qed (simp add: repair_terminals_def Let_def appendOpen_def)

end
