(* ===== verification/Run_Lifecycle.thy ===== *)
theory Run_Lifecycle
  imports Event_Lifecycle
begin

text \<open>
  Run status transitions (\<open>internal/store/run_lifecycle.go\<close>, \<open>run_records.go\<close>): the legal edges,
  their effect on the Run row, and the events that are committed with them. The redaction of
  error texts and payloads and the identifiers from \<open>NewID\<close> are parameters: \<open>services\<close> holds the
  former, a function from positions to strings supplies the latter.
\<close>

record services =
  redact_text :: "string \<Rightarrow> string"
  redact_map :: "payload \<Rightarrow> payload"
  check_payload :: "run_event \<Rightarrow> string option"

section \<open>Preparing an event\<close>

datatype prepare_error = EventTypeRequired | EnvelopeRejected envelope_error

text \<open>The event that \<open>PrepareRunEvent\<close> checks and returns.\<close>

definition prepared_event :: "string \<Rightarrow> run_event \<Rightarrow> int \<Rightarrow> time \<Rightarrow> run_event" where
  "prepared_event i event n now =
     event\<lparr>ev_id := if trim_space (ev_id event) = [] then i else trim_space (ev_id event),
       ev_schema_version := if ev_schema_version event = 0 then CurrentRunEventSchemaVersion
         else ev_schema_version event,
       ev_sequence := n, ev_timestamp := if ev_timestamp event = 0 then now else ev_timestamp event\<rparr>"

definition PrepareRunEvent ::
  "services \<Rightarrow> string \<Rightarrow> run_event \<Rightarrow> int \<Rightarrow> time \<Rightarrow> prepare_error + run_event" where
  "PrepareRunEvent svc new_id event sequence now =
     (if ev_type event = Unregistered_event [] then Inl EventTypeRequired
      else case ValidateDurableFact (check_payload svc) (prepared_event new_id event sequence now) of
             Some e \<Rightarrow> Inl (EnvelopeRejected e)
           | None \<Rightarrow> Inr (prepared_event new_id event sequence now))"

section \<open>Legal transitions\<close>

record run_transition =
  tr_run_id :: string
  tr_from :: run_status
  tr_to :: run_status
  tr_error :: string
  tr_event_type :: run_event_type
  tr_payload :: payload

record run_transition_result =
  res_run :: run
  res_events :: "run_event list"
  res_applied :: bool

definition completionSource :: "run_status \<Rightarrow> bool" where
  "completionSource s \<longleftrightarrow> s = RunRunning \<or> s = RunWaitingForUser \<or> s = RunFailedRecoverable
     \<or> s = RunFailed \<or> s = RunCompleted"

definition knownRunStatus :: "run_status \<Rightarrow> bool" where
  "knownRunStatus s \<longleftrightarrow> completionSource s \<or> s = RunQueued \<or> s = RunCanceling \<or> s = RunCanceled"

definition validRunTransition :: "run_transition \<Rightarrow> bool" where
  "validRunTransition r =
     (case tr_event_type r of
        Run_event KRunStarted \<Rightarrow>
          tr_to r = RunRunning \<and> (tr_from r = RunQueued \<or> tr_from r = RunRunning)
      | Run_event KRunResumed \<Rightarrow>
          tr_to r = RunRunning \<and> (tr_from r = RunWaitingForUser \<or> tr_from r = RunFailedRecoverable)
      | Run_event KRunCancelRequested \<Rightarrow> tr_to r = RunCanceling \<and> tr_from r = RunRunning
      | Run_event KRunCanceled \<Rightarrow>
          tr_to r = RunCanceled \<and> tr_from r \<noteq> RunCompleted \<and> tr_from r \<noteq> RunFailed
          \<and> knownRunStatus (tr_from r)
      | Run_event KRunCompleted \<Rightarrow> tr_to r = RunCompleted \<and> completionSource (tr_from r)
      | Run_event KRunFailed \<Rightarrow>
          (tr_to r = RunFailed \<or> tr_to r = RunFailedRecoverable)
          \<and> (completionSource (tr_from r) \<or> tr_from r = RunCanceling \<or> tr_from r = RunQueued)
          \<and> tr_from r \<noteq> RunCompleted
      | Run_event KRunWaitingForUser \<Rightarrow>
          tr_to r = RunWaitingForUser \<and> completionSource (tr_from r) \<and> tr_from r \<noteq> RunCompleted
      | _ \<Rightarrow> False)"

section \<open>Effect on the Run row\<close>

text \<open>
  \<open>ApplyRunStatus\<close>. The conditions on \<open>run.Status\<close> read the status before the assignment, as
  \<open>wasRunning\<close> does in the source.
\<close>

definition ApplyRunStatus :: "run \<Rightarrow> run_status \<Rightarrow> string \<Rightarrow> time \<Rightarrow> run" where
  "ApplyRunStatus r status errorMessage now =
     (let wasRunning = run_status r = RunRunning;
          willRun = status = RunRunning;
          r1 = (if wasRunning \<and> \<not> willRun then
                  (case run_execution_started_at r of
                     None \<Rightarrow> r
                   | Some t \<Rightarrow> r\<lparr>run_active_runtime_ms :=
                         wrap64 (run_active_runtime_ms r + max 0 (milliseconds (time_sub now t))),
                       run_execution_started_at := None\<rparr>)
                else r);
          r2 = (if \<not> wasRunning \<and> willRun then r1\<lparr>run_execution_started_at := Some now\<rparr> else r1);
          r3 = r2\<lparr>run_status := status, run_error := trim_space errorMessage, run_updated_at := now\<rparr>;
          r4 = (if status = RunRunning \<and> run_started_at r3 = None
                then r3\<lparr>run_started_at := Some now\<rparr> else r3);
          r5 = (if status = RunRunning
                then r4\<lparr>run_heartbeat_at := Some now, run_completed_at := None\<rparr> else r4);
          r6 = (if status = RunWaitingForUser then r5\<lparr>run_completed_at := None\<rparr> else r5)
      in if status = RunCompleted \<or> status = RunFailed \<or> status = RunFailedRecoverable
            \<or> status = RunCanceled
         then r6\<lparr>run_completed_at := Some now\<rparr> else r6)"

datatype transition_error = RunTransitionInvalid | EventNotPrepared prepare_error

text \<open>The payload of the committed event, before redaction.\<close>

definition transition_payload :: "run_transition \<Rightarrow> string \<Rightarrow> payload" where
  "transition_payload request err =
     (let p = (tr_payload request)(''status'' \<mapsto> VRunStatus (tr_to request))
      in if err \<noteq> [] then p(''error'' \<mapsto> VString err) else p)"

definition PrepareRunTransition ::
  "services \<Rightarrow> (nat \<Rightarrow> string) \<Rightarrow> run \<Rightarrow> run_transition \<Rightarrow> int \<Rightarrow> time
    \<Rightarrow> transition_error + run_transition_result" where
  "PrepareRunTransition svc ids r request cursor now =
     (let starting = tr_event_type request = EventRunStarted;
          unchanged = \<lparr>res_run = r, res_events = [], res_applied = False\<rparr>
      in if tr_run_id request \<noteq> run_id r \<or> \<not> validRunTransition request
         then Inl RunTransitionInvalid
         else if run_status r \<noteq> tr_from request
            \<or> run_status r = tr_to request \<and> \<not> starting
            \<or> starting \<and> cursor \<noteq> 0
         then Inr unchanged
         else
           (let err = redact_text svc (trim_space (tr_error request));
                next = ApplyRunStatus r (tr_to request) err now;
                payload = redact_map svc (transition_payload request err);
                blank = zero_event\<lparr>ev_run_id := run_id r, ev_conversation_id := run_conversation_id r\<rparr>
            in bind_result
                 (if cursor = 0
                  then map_error EventNotPrepared
                    (bind_result
                      (PrepareRunEvent svc (ids 0)
                        (blank\<lparr>ev_type := EventRunCreated,
                           ev_payload := [''status'' \<mapsto> VRunStatus RunQueued]\<rparr>)
                        (wrap64 (cursor + 1)) now)
                      (\<lambda>created. Inr ([created], wrap64 (cursor + 1))))
                  else Inr ([], cursor))
                 (\<lambda>(events, cursor).
                    bind_result
                      (map_error EventNotPrepared
                        (PrepareRunEvent svc (ids 1)
                          (blank\<lparr>ev_type := tr_event_type request, ev_payload := payload\<rparr>)
                          (wrap64 (cursor + 1)) now))
                      (\<lambda>event. Inr \<lparr>res_run = next, res_events = events @ [event],
                                 res_applied = True\<rparr>))))"

section \<open>Lemmas\<close>

lemma prepared_event_fields [simp]:
  "ev_type (prepared_event i event n now) = ev_type event"
  "ev_sequence (prepared_event i event n now) = n"
  "ev_run_id (prepared_event i event n now) = ev_run_id event"
  "ev_stage_id (prepared_event i event n now) = ev_stage_id event"
  "ev_turn_id (prepared_event i event n now) = ev_turn_id event"
  "ev_payload (prepared_event i event n now) = ev_payload event"
  "ev_schema_version (prepared_event i event n now) =
     (if ev_schema_version event = 0 then 1 else ev_schema_version event)"
  "ev_id (prepared_event i event n now) =
     (if trim_space (ev_id event) = [] then i else trim_space (ev_id event))"
  by (simp_all add: prepared_event_def CurrentRunEventSchemaVersion_def)

lemma PrepareRunEvent_Inr:
  "PrepareRunEvent svc i event n now = Inr e \<Longrightarrow>
     ValidateDurableFact (check_payload svc) e = None \<and> ev_sequence e = n
     \<and> ev_type e = ev_type event \<and> ev_run_id e = ev_run_id event
     \<and> ev_payload e = ev_payload event \<and> ev_stage_id e = ev_stage_id event
     \<and> ev_turn_id e = ev_turn_id event \<and> ev_parent_event_id e = ev_parent_event_id event
     \<and> ev_conversation_id e = ev_conversation_id event"
  by (auto simp: PrepareRunEvent_def prepared_event_def split: if_splits option.splits)

lemma run_kind_durable:
  assumes "k \<noteq> KRunProgress" and "trim_space (ev_run_id e) \<noteq> []"
    and "ev_type e = Run_event k" and "ev_schema_version e = 1"
  shows "ValidateDurableFact chk e = None"
  using assms
  by (cases k) (auto simp: ValidateDurableFact_def ValidateEnvelope_def registered_def
      scope_optional_def CurrentRunEventSchemaVersion_def)

lemma PrepareRunEvent_run_kind:
  assumes "k \<noteq> KRunProgress" and "trim_space (ev_run_id event) \<noteq> []"
    and "ev_type event = Run_event k" and "ev_schema_version event = 0"
  shows "\<exists>e. PrepareRunEvent svc i event n now = Inr e"
  using assms by (simp add: PrepareRunEvent_def run_kind_durable)

lemma validRunTransition_kind:
  "validRunTransition r \<Longrightarrow> \<exists>k. tr_event_type r = Run_event k \<and> k \<noteq> KRunProgress \<and> k \<noteq> KRunCreated"
  by (auto simp: validRunTransition_def split: run_event_type.splits run_kind.splits)

text \<open>What is true of a Run row at any time.\<close>

definition settled :: "run_status \<Rightarrow> bool" where
  "settled s \<longleftrightarrow> s = RunCompleted \<or> s = RunFailed \<or> s = RunFailedRecoverable \<or> s = RunCanceled"

definition run_wf :: "run \<Rightarrow> bool" where
  "run_wf r \<longleftrightarrow> knownRunStatus (run_status r)
     \<and> (is_some (run_execution_started_at r) \<longleftrightarrow> run_status r = RunRunning)
     \<and> (is_some (run_completed_at r) \<longleftrightarrow> settled (run_status r))
     \<and> (run_status r = RunRunning \<longrightarrow> is_some (run_started_at r) \<and> is_some (run_heartbeat_at r))"

lemma ApplyRunStatus_fields [simp]:
  "run_status (ApplyRunStatus r s e now) = s"
  "run_error (ApplyRunStatus r s e now) = trim_space e"
  "run_id (ApplyRunStatus r s e now) = run_id r"
  "run_snapshot (ApplyRunStatus r s e now) = run_snapshot r"
  "run_conversation_id (ApplyRunStatus r s e now) = run_conversation_id r"
  "run_created_at (ApplyRunStatus r s e now) = run_created_at r"
  by (simp_all add: ApplyRunStatus_def Let_def split: option.splits)

lemma ApplyRunStatus_clocks:
  "run_execution_started_at (ApplyRunStatus r s e now) =
     (if s = RunRunning then if run_status r = RunRunning then run_execution_started_at r else Some now
      else if run_status r = RunRunning then None else run_execution_started_at r)"
  "run_completed_at (ApplyRunStatus r s e now) =
     (if settled s then Some now
      else if s = RunRunning \<or> s = RunWaitingForUser then None else run_completed_at r)"
  "run_started_at (ApplyRunStatus r s e now) =
     (if s = RunRunning \<and> run_started_at r = None then Some now else run_started_at r)"
  "run_heartbeat_at (ApplyRunStatus r s e now) =
     (if s = RunRunning then Some now else run_heartbeat_at r)"
  by (simp_all add: ApplyRunStatus_def Let_def settled_def split: option.splits)

lemma validRunTransition_known:
  "validRunTransition r \<Longrightarrow> knownRunStatus (tr_from r) \<and> knownRunStatus (tr_to r)"
  by (auto simp: validRunTransition_def knownRunStatus_def completionSource_def
      split: run_event_type.splits run_kind.splits)

lemma unknown_status [simp]: "\<not> knownRunStatus (RunStatusOther s)"
  by (simp add: knownRunStatus_def completionSource_def)

lemma validRunTransition_wf:
  assumes "validRunTransition req" and "run_wf r" and "run_status r = tr_from req"
  shows "run_wf (ApplyRunStatus r (tr_to req) e now)"
proof -
  have k: "knownRunStatus (tr_to req)" using assms(1) by (simp add: validRunTransition_known)
  have c: "tr_to req = RunCanceling \<longrightarrow> \<not> is_some (run_completed_at r)" "tr_to req \<noteq> RunQueued"
    using assms
    by (auto simp: validRunTransition_def run_wf_def settled_def
        split: run_event_type.splits run_kind.splits)
  show ?thesis
    using k c assms(2)
    by (cases "tr_to req"; cases "run_status r = RunRunning")
      (simp_all add: run_wf_def ApplyRunStatus_clocks settled_def)
qed

text \<open>The two statuses that no transition leaves.\<close>

definition closed_status :: "run_status \<Rightarrow> bool" where
  "closed_status s \<longleftrightarrow> s = RunCompleted \<or> s = RunCanceled"

lemma closed_status_stays:
  "validRunTransition req \<Longrightarrow> closed_status (tr_from req) \<Longrightarrow> tr_to req = tr_from req"
  by (auto simp: validRunTransition_def closed_status_def knownRunStatus_def completionSource_def
      split: run_event_type.splits run_kind.splits)

lemma PrepareRunTransition_applied:
  assumes "PrepareRunTransition svc ids r req cursor now = Inr res" and "res_applied res"
  shows "validRunTransition req" and "tr_run_id req = run_id r" and "run_status r = tr_from req"
    and "run_status r = tr_to req \<longrightarrow> tr_event_type req = EventRunStarted \<and> cursor = 0"
    and "res_run res = ApplyRunStatus r (tr_to req) (redact_text svc (trim_space (tr_error req))) now"
  using assms
  by (auto simp: PrepareRunTransition_def Let_def bind_result_Inr split: if_splits)

lemma PrepareRunTransition_not_applied:
  assumes "PrepareRunTransition svc ids r req cursor now = Inr res" and "\<not> res_applied res"
  shows "res_run res = r \<and> res_events res = []"
  using assms
  by (auto simp: PrepareRunTransition_def Let_def bind_result_Inr split: if_splits)

lemma PrepareRunTransition_events:
  assumes "PrepareRunTransition svc ids r req cursor now = Inr res" and "res_applied res"
    and "0 \<le> cursor" and "cursor + 2 \<le> max_int64"
  shows "map ev_sequence (res_events res) = (if cursor = 0 then [1, 2] else [cursor + 1])"
    and "map ev_type (res_events res) =
      (if cursor = 0 then [EventRunCreated] else []) @ [tr_event_type req]"
    and "\<forall>e \<in> set (res_events res). ev_run_id e = run_id r
           \<and> ValidateDurableFact (check_payload svc) e = None"
proof -
  have w: "wrap64 (cursor + 1) = cursor + 1" "wrap64 1 = 1" "wrap64 2 = 2"
    using assms(3,4) by (auto intro!: wrap64_id simp: min_int64_def max_int64_def)
  show "map ev_sequence (res_events res) = (if cursor = 0 then [1, 2] else [cursor + 1])"
    "map ev_type (res_events res) =
      (if cursor = 0 then [EventRunCreated] else []) @ [tr_event_type req]"
    "\<forall>e \<in> set (res_events res). ev_run_id e = run_id r
        \<and> ValidateDurableFact (check_payload svc) e = None"
    using assms(1,2)
    by (auto simp: PrepareRunTransition_def Let_def bind_result_Inr w
        split: if_splits dest!: PrepareRunEvent_Inr)
qed

lemma PrepareRunTransition_accepts:
  assumes "validRunTransition req" and "tr_run_id req = run_id r" and "trim_space (run_id r) \<noteq> []"
  shows "\<exists>res. PrepareRunTransition svc ids r req cursor now = Inr res"
proof -
  obtain k where k: "tr_event_type req = Run_event k" "k \<noteq> KRunProgress"
    using validRunTransition_kind [OF assms(1)] by blast
  have prepared: "PrepareRunEvent svc i
      (zero_event\<lparr>ev_run_id := run_id r, ev_conversation_id := run_conversation_id r,
         ev_type := Run_event j, ev_payload := p\<rparr>) n now \<noteq> Inl e"
    if "j \<noteq> KRunProgress" for i j p n e
    using PrepareRunEvent_run_kind [OF that, of
        "zero_event\<lparr>ev_run_id := run_id r, ev_conversation_id := run_conversation_id r,
         ev_type := Run_event j, ev_payload := p\<rparr>" svc i n now] assms(3)
    by (auto simp: zero_event_def)
  have "PrepareRunTransition svc ids r req cursor now \<noteq> Inl err" for err
    using assms k prepared [of KRunCreated] prepared [of k]
    by (auto simp: PrepareRunTransition_def Let_def bind_result_Inl map_error_Inl split: if_splits)
  then show ?thesis by (metis obj_sumE)
qed

end
