(* ===== verification/Keyed_Items.thy ===== *)
theory Keyed_Items
  imports Prelude
begin

text \<open>
  Slices used as ordered maps. Go code in the domain package keeps its collections in slices
  and looks elements up by an identifier: an \<open>upsert\<close> that overwrites the first element with
  the same identifier or appends, and a \<open>remove\<close> that deletes the first match or fails. The
  same contract is implemented several times (tasks, constraints, blockers), so its laws and
  their consequences are stated once, in the locale \<open>keyed_items\<close>, and each implementation is
  an interpretation of it.
\<close>

text \<open>The map a keyed slice stands for: the first element with the identifier wins.\<close>

fun lookup_by :: "('a \<Rightarrow> 'k) \<Rightarrow> 'a list \<Rightarrow> 'k \<Rightarrow> 'a option" where
  "lookup_by key [] k = None"
| "lookup_by key (x # xs) k = (if key x = k then Some x else lookup_by key xs k)"

lemma lookup_by_None: "lookup_by key xs k = None \<longleftrightarrow> k \<notin> key ` set xs"
  by (induction xs) auto

lemma lookup_by_Some: "lookup_by key xs k = Some x \<Longrightarrow> x \<in> set xs \<and> key x = k"
  by (induction xs) (auto split: if_splits)

lemma lookup_by_distinct:
  "distinct (map key xs) \<Longrightarrow> x \<in> set xs \<Longrightarrow> lookup_by key xs (key x) = Some x"
  by (induction xs) (auto simp: image_iff)

lemma lookup_by_append:
  "lookup_by key (xs @ ys) k =
     (case lookup_by key xs k of Some x \<Rightarrow> Some x | None \<Rightarrow> lookup_by key ys k)"
  by (induction xs) auto

lemma lookup_by_snoc:
  "lookup_by key xs (key x) = None \<Longrightarrow> lookup_by key (xs @ [x]) = (lookup_by key xs)(key x \<mapsto> x)"
  by (auto simp: lookup_by_append fun_eq_iff split: option.split)

locale keyed_items =
  fixes key :: "'a \<Rightarrow> 'k"
    and upsert :: "'a list \<Rightarrow> 'a \<Rightarrow> 'a list"
    and remove :: "'a list \<Rightarrow> 'k \<Rightarrow> 'e + 'a list"
  assumes upsert_absent: "key v \<notin> key ` set xs \<Longrightarrow> upsert xs v = xs @ [v]"
    and upsert_present:
      "key x = key v \<Longrightarrow> key v \<notin> key ` set xs \<Longrightarrow> upsert (xs @ x # ys) v = xs @ v # ys"
    and remove_present:
      "key x = k \<Longrightarrow> k \<notin> key ` set xs \<Longrightarrow> remove (xs @ x # ys) k = Inr (xs @ ys)"
    and remove_absent: "k \<notin> key ` set xs \<Longrightarrow> \<exists>e. remove xs k = Inl e"
begin

lemma split_key:
  assumes "k \<in> key ` set xs"
  obtains us x vs where "xs = us @ x # vs" "key x = k" "k \<notin> key ` set us"
proof -
  from assms have "\<exists>x \<in> set xs. key x = k" by auto
  then obtain us x vs where "xs = us @ x # vs" "key x = k" "\<forall>u \<in> set us. key u \<noteq> k"
    using split_list_first_prop [of xs "\<lambda>x. key x = k"] by auto
  then show thesis using that by (metis imageE)
qed

lemma upsert_keys:
  "map key (upsert xs v) = (if key v \<in> key ` set xs then map key xs else map key xs @ [key v])"
proof (cases "key v \<in> key ` set xs")
  case True
  then obtain us x vs where "xs = us @ x # vs" "key x = key v" "key v \<notin> key ` set us"
    by (rule split_key)
  then show ?thesis using True by (simp add: upsert_present)
qed (simp add: upsert_absent)

lemma upsert_distinct: "distinct (map key xs) \<Longrightarrow> distinct (map key (upsert xs v))"
  by (simp add: upsert_keys)

lemma upsert_set: "set (upsert xs v) \<subseteq> insert v (set xs)"
proof (cases "key v \<in> key ` set xs")
  case True
  then obtain us x vs where "xs = us @ x # vs" "key x = key v" "key v \<notin> key ` set us"
    by (rule split_key)
  then show ?thesis by (auto simp: upsert_present)
qed (simp add: upsert_absent)

lemma upsert_lookup: "lookup_by key (upsert xs v) = (lookup_by key xs)(key v \<mapsto> v)"
proof
  fix k
  show "lookup_by key (upsert xs v) k = ((lookup_by key xs)(key v \<mapsto> v)) k"
  proof (cases "key v \<in> key ` set xs")
    case True
    then obtain us x vs where s: "xs = us @ x # vs" "key x = key v" "key v \<notin> key ` set us"
      by (rule split_key)
    then have "lookup_by key us (key v) = None" by (simp add: lookup_by_None)
    with s show ?thesis by (auto simp: upsert_present lookup_by_append split: option.splits)
  next
    case False
    then have "lookup_by key xs (key v) = None" by (simp add: lookup_by_None)
    with False show ?thesis by (auto simp: upsert_absent lookup_by_append split: option.splits)
  qed
qed

lemma remove_Inr_iff: "(\<exists>ys. remove xs k = Inr ys) \<longleftrightarrow> k \<in> key ` set xs"
proof
  assume "\<exists>ys. remove xs k = Inr ys"
  then show "k \<in> key ` set xs" using remove_absent by (metis sum.simps(4))
next
  assume "k \<in> key ` set xs"
  then obtain us x vs where "xs = us @ x # vs" "key x = k" "k \<notin> key ` set us"
    by (rule split_key)
  then show "\<exists>ys. remove xs k = Inr ys" by (auto simp: remove_present)
qed

lemma remove_split:
  assumes "remove xs k = Inr ys"
  obtains us x vs where "xs = us @ x # vs" "key x = k" "k \<notin> key ` set us" "ys = us @ vs"
proof -
  from assms have "k \<in> key ` set xs" using remove_Inr_iff by blast
  then obtain us x vs where s: "xs = us @ x # vs" "key x = k" "k \<notin> key ` set us"
    by (rule split_key)
  then have "ys = us @ vs" using assms by (simp add: remove_present)
  with s that show thesis by blast
qed

lemma remove_set: "remove xs k = Inr ys \<Longrightarrow> set ys \<subseteq> set xs"
  by (erule remove_split) auto

lemma remove_distinct:
  "remove xs k = Inr ys \<Longrightarrow> distinct (map key xs) \<Longrightarrow> distinct (map key ys)"
  by (erule remove_split) auto

lemma remove_lookup:
  assumes "remove xs k = Inr ys" and "distinct (map key xs)"
  shows "lookup_by key ys = (lookup_by key xs)(k := None)"
proof
  fix j
  from assms obtain us x vs where s: "xs = us @ x # vs" "key x = k" "k \<notin> key ` set us"
    "ys = us @ vs" "k \<notin> key ` set vs"
    by (auto elim!: remove_split)
  then have "lookup_by key us k = None" "lookup_by key vs k = None"
    by (simp_all add: lookup_by_None)
  with s show "lookup_by key ys j = ((lookup_by key xs)(k := None)) j"
    by (auto simp: lookup_by_append split: option.splits)
qed

text \<open>A removal fails on an absent key and otherwise deletes its entry from the map.\<close>

lemma remove_cases:
  assumes "distinct (map key xs)"
  obtains (absent) e where "lookup_by key xs k = None" "remove xs k = Inl e"
  | (present) ys where "lookup_by key xs k \<noteq> None" "remove xs k = Inr ys"
      "lookup_by key ys = (lookup_by key xs)(k := None)"
proof (cases "remove xs k")
  case (Inl e)
  then show thesis using absent remove_Inr_iff [of xs k] by (auto simp: lookup_by_None)
next
  case (Inr ys)
  then show thesis
    using present remove_Inr_iff [of xs k] remove_lookup [OF Inr assms] by (auto simp: lookup_by_None)
qed

end

end
