(* ===== verification/Run_Store.thy ===== *)
theory Run_Store
  imports Run_Lifecycle Keyed_Items
begin

text \<open>
  The Run tables of the Postgres store (\<open>internal/store/postgres_runs.go\<close>,
  \<open>postgres_run_transition.go\<close>, \<open>postgres_traces.go\<close>). A table is the list of its rows in
  insertion order. Every operation runs in one transaction that takes the Run's advisory lock
  first, so an operation is a function from tables to a result and new tables; a failing
  operation rolls back. The constraints the code relies on are modelled: primary keys and the
  foreign key from events to Runs. Connection failures, and the JSON encoding of stored payloads
  and snapshots, are not.
\<close>

section \<open>Tables\<close>

record run_store =
  rs_runs :: "run list"
  rs_events :: "run_event list"
  rs_steps :: "collaboration_step list"
  rs_effects :: "tool_effect list"
  rs_checkpoints :: "stage_checkpoint list"

definition empty_store :: run_store where
  "empty_store = \<lparr>rs_runs = [], rs_events = [], rs_steps = [], rs_effects = [], rs_checkpoints = []\<rparr>"

datatype store_error =
    NotFound string
  | Rejected string
  | TransitionRejected transition_error
  | EventRejected prepare_error
  | DuplicateKey
  | ForeignKeyMissing

text \<open>\<open>UPDATE ... SET f WHERE p\<close>\<close>

definition update_rows :: "('a \<Rightarrow> bool) \<Rightarrow> ('a \<Rightarrow> 'a) \<Rightarrow> 'a list \<Rightarrow> 'a list" where
  "update_rows p f rows = map (\<lambda>x. if p x then f x else x) rows"

definition get_run :: "run_store \<Rightarrow> string \<Rightarrow> run option" where
  "get_run st i = lookup_by run_id (rs_runs st) i"

definition put_run :: "run \<Rightarrow> run_store \<Rightarrow> run_store" where
  "put_run r st = st\<lparr>rs_runs := update_rows (\<lambda>x. run_id x = run_id r) (\<lambda>_. r) (rs_runs st)\<rparr>"

definition run_log :: "run_store \<Rightarrow> string \<Rightarrow> run_event list" where
  "run_log st i = filter (\<lambda>e. ev_run_id e = i) (rs_events st)"

text \<open>\<open>SELECT COALESCE(MAX(sequence), 0) FROM run_events WHERE run_id = $1\<close>\<close>

definition max_sequence :: "run_store \<Rightarrow> string \<Rightarrow> int" where
  "max_sequence st i = (let es = run_log st i in if es = [] then 0 else Max (ev_sequence ` set es))"

text \<open>\<open>ListRunEvents\<close>\<close>

definition ListRunEvents :: "run_store \<Rightarrow> string \<Rightarrow> run_event list" where
  "ListRunEvents st i = sort_key ev_sequence (run_log st i)"

definition insert_event :: "run_event \<Rightarrow> run_store \<Rightarrow> store_error + run_store" where
  "insert_event e st =
     (if ev_id e \<in> ev_id ` set (rs_events st) then Inl DuplicateKey
      else if get_run st (ev_run_id e) = None then Inl ForeignKeyMissing
      else Inr (st\<lparr>rs_events := rs_events st @ [e]\<rparr>))"

definition insert_events :: "run_event list \<Rightarrow> run_store \<Rightarrow> store_error + run_store" where
  "insert_events es st = fold_result (\<lambda>_. insert_event) 0 es st"

section \<open>Creating and updating Runs\<close>

text \<open>
  \<open>createRun\<close> checks the request and builds the row, then inserts it; between the two,
  \<open>CreateInputRun\<close> consumes a queued input (\<open>Conversation_Inbox\<close>). The conversation and agent tables
  are looked up through \<open>workspace_of\<close> and \<open>agent_archived\<close>; \<open>metadata_clean\<close> is the redaction check of
  the snapshot's metadata, \<open>plan_run_id\<close> the hash in \<open>planning.ExecutionRunID\<close>.
\<close>

definition CurrentRuntimeSnapshotVersion :: int where "CurrentRuntimeSnapshotVersion = 18"

definition new_run ::
  "(string \<rightharpoonup> string) \<Rightarrow> (string \<Rightarrow> string \<rightharpoonup> bool) \<Rightarrow> (runtime_snapshot \<Rightarrow> bool) \<Rightarrow> (string \<Rightarrow> string)
    \<Rightarrow> string \<Rightarrow> time \<Rightarrow> string \<Rightarrow> string \<Rightarrow> runtime_snapshot \<Rightarrow> completion_contract option
    \<Rightarrow> store_error + run" where
  "new_run workspace_of agent_archived metadata_clean plan_run_id new_id now agent conversation snapshot contract =
     (case workspace_of conversation of
        None \<Rightarrow> Inl (Rejected ''conversation not found'')
      | Some ws \<Rightarrow>
          if agent_archived ws agent \<noteq> Some False then Inl (NotFound ''agent'')
          else if snap_schema_version snapshot \<noteq> CurrentRuntimeSnapshotVersion
               \<or> snap_run_budget snapshot = None
          then Inl (Rejected ''runtime snapshot is required'')
          else if \<not> metadata_clean snapshot then Inl (Rejected ''sensitive metadata'')
          else
            (let r = \<lparr>run_id = new_id, run_workspace_id = ws, run_agent_id = agent,
                   run_conversation_id = conversation, run_status = RunQueued,
                   run_snapshot = Some snapshot, run_contract = contract,
                   run_verification_status =
                     (if contract = None then VerificationNotRequired else VerificationPending),
                   run_error = [], run_started_at = None, run_execution_started_at = None,
                   run_active_runtime_ms = 0, run_heartbeat_at = None, run_completed_at = None,
                   run_created_at = now, run_updated_at = now\<rparr>
             in case snap_plan_origin snapshot of
                  None \<Rightarrow> Inr r
                | Some origin \<Rightarrow>
                    if origin_run_id origin = [] \<or> origin_hash origin = []
                       \<or> snap_execution_constraint snapshot \<noteq> []
                    then Inl (Rejected ''invalid plan execution origin'')
                    else Inr (r\<lparr>run_id := plan_run_id (origin_run_id origin)\<rparr>)))"

definition insert_run :: "runtime_snapshot \<Rightarrow> run \<Rightarrow> run_store \<Rightarrow> store_error + run_store" where
  "insert_run snapshot r st =
     (if get_run st (run_id r) \<noteq> None
      then Inl (if snap_plan_origin snapshot \<noteq> None
                then Rejected ''plan execution already started''
                else Rejected ''run identity already exists'')
      else Inr (st\<lparr>rs_runs := rs_runs st @ [r]\<rparr>))"

definition CreateRunWithContract ::
  "(string \<rightharpoonup> string) \<Rightarrow> (string \<Rightarrow> string \<rightharpoonup> bool) \<Rightarrow> (runtime_snapshot \<Rightarrow> bool) \<Rightarrow> (string \<Rightarrow> string)
    \<Rightarrow> string \<Rightarrow> time \<Rightarrow> string \<Rightarrow> string \<Rightarrow> runtime_snapshot \<Rightarrow> completion_contract option
    \<Rightarrow> run_store \<Rightarrow> store_error + run \<times> run_store" where
  "CreateRunWithContract workspace_of agent_archived metadata_clean plan_run_id
     new_id now agent conversation snapshot contract st =
     bind_result (new_run workspace_of agent_archived metadata_clean plan_run_id
                    new_id now agent conversation snapshot contract)
       (\<lambda>r. bind_result (insert_run snapshot r st) (\<lambda>st'. Inr (r, st')))"

text \<open>The single-row updates; each returns the new row, or fails when there is none.\<close>

definition update_run ::
  "string \<Rightarrow> (run \<Rightarrow> run) \<Rightarrow> run_store \<Rightarrow> store_error + run \<times> run_store" where
  "update_run i f st =
     (case get_run st i of
        None \<Rightarrow> Inl (NotFound ''run'')
      | Some r \<Rightarrow> Inr (f r, put_run (f r) st))"

definition UpdateRunHeartbeat :: "time \<Rightarrow> string \<Rightarrow> run_store \<Rightarrow> store_error + run \<times> run_store" where
  "UpdateRunHeartbeat now i =
     update_run i (\<lambda>r. r\<lparr>run_heartbeat_at := Some now, run_updated_at := now\<rparr>)"

definition UpdateRunAgent ::
  "(string \<Rightarrow> string \<rightharpoonup> bool) \<Rightarrow> time \<Rightarrow> string \<Rightarrow> string \<Rightarrow> run_store \<Rightarrow> store_error + run \<times> run_store" where
  "UpdateRunAgent agent_archived now i agent st =
     (case get_run st i of
        None \<Rightarrow> Inl (NotFound ''run'')
      | Some r \<Rightarrow>
          if agent_archived (run_workspace_id r) agent \<noteq> Some False then Inl (NotFound ''agent'')
          else update_run i (\<lambda>r. r\<lparr>run_agent_id := agent, run_updated_at := now\<rparr>) st)"

definition UpdateRunVerificationStatus ::
  "time \<Rightarrow> string \<Rightarrow> verification_status \<Rightarrow> run_store \<Rightarrow> store_error + run \<times> run_store" where
  "UpdateRunVerificationStatus now i v =
     update_run i (\<lambda>r. r\<lparr>run_verification_status := v, run_updated_at := now\<rparr>)"

text \<open>
  The milliseconds that the SQL statements add: PostgreSQL's \<open>FLOOR\<close> of the interval, clipped
  at zero. \<open>bigint\<close> arithmetic does not wrap; an overflow fails the statement.
\<close>

definition sql_elapsed_ms :: "time \<Rightarrow> time option \<Rightarrow> int" where
  "sql_elapsed_ms now started =
     (case started of None \<Rightarrow> 0 | Some t \<Rightarrow> max 0 ((now - t) div 1000000))"

text \<open>The CASE expressions of \<open>UpdateRunStatus\<close>; all read the row before the update.\<close>

definition sql_run_status :: "run_status \<Rightarrow> string \<Rightarrow> time \<Rightarrow> run \<Rightarrow> run" where
  "sql_run_status s err now r =
     r\<lparr>run_status := s,
       run_error := err,
       run_started_at := (if s = RunRunning \<and> run_started_at r = None then Some now else run_started_at r),
       run_active_runtime_ms := run_active_runtime_ms r +
         (if run_status r = RunRunning \<and> s \<noteq> RunRunning
          then sql_elapsed_ms now (run_execution_started_at r) else 0),
       run_execution_started_at :=
         (if run_status r \<noteq> RunRunning \<and> s = RunRunning then Some now
          else if run_status r = RunRunning \<and> s \<noteq> RunRunning then None
          else run_execution_started_at r),
       run_heartbeat_at := (if s = RunRunning then Some now else run_heartbeat_at r),
       run_completed_at :=
         (if s = RunWaitingForUser then None
          else if s = RunRunning then None
          else if s = RunCompleted \<or> s = RunFailed \<or> s = RunFailedRecoverable \<or> s = RunCanceled
          then Some now
          else run_completed_at r),
       run_updated_at := now\<rparr>"

definition UpdateRunStatus ::
  "services \<Rightarrow> time \<Rightarrow> string \<Rightarrow> run_status \<Rightarrow> string \<Rightarrow> run_store
    \<Rightarrow> store_error + run \<times> run_store" where
  "UpdateRunStatus svc now i s err =
     update_run i (sql_run_status s (redact_text svc (trim_space err)) now)"

definition ListStaleRunningRuns :: "time \<Rightarrow> run_store \<Rightarrow> run list" where
  "ListStaleRunningRuns cutoff st =
     sort_key run_created_at
       (filter (\<lambda>r. (run_status r = RunRunning \<or> run_status r = RunCanceling)
          \<and> (case run_heartbeat_at r of None \<Rightarrow> True | Some t \<Rightarrow> t < cutoff)) (rs_runs st))"

section \<open>Events and transitions\<close>

definition preparePostgresRunEvent ::
  "services \<Rightarrow> string \<Rightarrow> run_event \<Rightarrow> time \<Rightarrow> prepare_error + run_event" where
  "preparePostgresRunEvent svc new_id event now =
     (let i = trim_space (ev_id event);
          event = event\<lparr>ev_id := if i = [] then new_id else i\<rparr>
      in if ev_type event = Unregistered_event [] then Inl EventTypeRequired
         else
           (let event = event\<lparr>ev_schema_version :=
                  if ev_schema_version event = 0 then CurrentRunEventSchemaVersion
                  else ev_schema_version event,
                ev_payload := redact_map svc (ev_payload event),
                ev_timestamp := if ev_timestamp event = 0 then now else ev_timestamp event\<rparr>
            in case ValidateDurableFact (check_payload svc) event of
                 Some e \<Rightarrow> Inl (EnvelopeRejected e)
               | None \<Rightarrow> Inr event))"

definition CreateRunEvent ::
  "services \<Rightarrow> string \<Rightarrow> time \<Rightarrow> run_event \<Rightarrow> run_store
    \<Rightarrow> store_error + run_event \<times> run_store" where
  "CreateRunEvent svc new_id now event st =
     bind_result (map_error EventRejected (preparePostgresRunEvent svc new_id event now))
       (\<lambda>event.
          (let event = event\<lparr>ev_sequence := max_sequence st (ev_run_id event) + 1\<rparr>
           in bind_result (insert_event event st) (\<lambda>st'. Inr (event, st'))))"

text \<open>The columns that \<open>TransitionRun\<close> writes back to the Run row.\<close>

definition store_transition :: "run \<Rightarrow> run \<Rightarrow> run" where
  "store_transition next r =
     r\<lparr>run_status := run_status next, run_error := run_error next,
       run_started_at := run_started_at next,
       run_execution_started_at := run_execution_started_at next,
       run_active_runtime_ms := run_active_runtime_ms next,
       run_heartbeat_at := run_heartbeat_at next, run_completed_at := run_completed_at next,
       run_updated_at := run_updated_at next\<rparr>"

definition TransitionRun ::
  "services \<Rightarrow> (nat \<Rightarrow> string) \<Rightarrow> time \<Rightarrow> run_transition \<Rightarrow> run_store
    \<Rightarrow> store_error + run_transition_result \<times> run_store" where
  "TransitionRun svc ids now request st =
     (case get_run st (tr_run_id request) of
        None \<Rightarrow> Inl (NotFound ''run'')
      | Some r \<Rightarrow>
          bind_result
            (map_error TransitionRejected
              (PrepareRunTransition svc ids r request (max_sequence st (run_id r)) now))
            (\<lambda>result.
               if \<not> res_applied result then Inr (result, st)
               else bind_result (insert_events (res_events result) st)
                 (\<lambda>st'. Inr (result, put_run (store_transition (res_run result) r) st'))))"

section \<open>The invariant of the tables\<close>

definition numbered :: "run_event list \<Rightarrow> bool" where
  "numbered es \<longleftrightarrow> (\<forall>i < length es. ev_sequence (es ! i) = int i + 1)"

definition store_wf :: "run_store \<Rightarrow> bool" where
  "store_wf st \<longleftrightarrow>
     distinct (map run_id (rs_runs st)) \<and> (\<forall>r \<in> set (rs_runs st). run_wf r)
     \<and> distinct (map ev_id (rs_events st))
     \<and> (\<forall>e \<in> set (rs_events st). get_run st (ev_run_id e) \<noteq> None \<and> scoped e)
     \<and> (\<forall>i. numbered (run_log st i))"

lemma numbered_Nil [simp]: "numbered []"
  by (simp add: numbered_def)

lemma numbered_append:
  "numbered (es @ [e]) \<longleftrightarrow> numbered es \<and> ev_sequence e = int (length es) + 1"
  by (auto simp: numbered_def nth_append less_Suc_eq all_conj_distrib)

lemma numbered_sequences: "numbered es \<Longrightarrow> ev_sequence ` set es = {1 .. int (length es)}"
proof (induction es rule: rev_induct)
  case (snoc e es)
  then have "numbered es" "ev_sequence e = int (length es) + 1" by (simp_all add: numbered_append)
  with snoc.IH show ?case by (auto simp: image_iff)
qed simp

lemma numbered_sorted: "numbered es \<Longrightarrow> sorted (map ev_sequence es)"
  by (auto simp: numbered_def sorted_iff_nth_mono)

lemma max_sequence_numbered:
  "numbered (run_log st i) \<Longrightarrow> max_sequence st i = int (length (run_log st i))"
  by (auto simp: max_sequence_def Let_def numbered_sequences intro!: Max_eqI) (simp add: Suc_leI)

lemma ListRunEvents_numbered: "numbered (run_log st i) \<Longrightarrow> ListRunEvents st i = run_log st i"
  by (simp add: ListRunEvents_def numbered_sorted sort_key_id_if_sorted)

lemma get_run_update [simp]:
  "get_run (st\<lparr>rs_events := x\<rparr>) i = get_run st i" "get_run (st\<lparr>rs_steps := y\<rparr>) i = get_run st i"
  "get_run (st\<lparr>rs_effects := z\<rparr>) i = get_run st i"
  by (simp_all add: get_run_def)

lemma run_log_update [simp]:
  "run_log (st\<lparr>rs_runs := x\<rparr>) i = run_log st i" "run_log (st\<lparr>rs_steps := y\<rparr>) i = run_log st i"
  "run_log (st\<lparr>rs_effects := z\<rparr>) i = run_log st i" "run_log (put_run r st) i = run_log st i"
  by (simp_all add: run_log_def put_run_def)

lemma get_run_Some: "get_run st i = Some r \<Longrightarrow> r \<in> set (rs_runs st) \<and> run_id r = i"
  unfolding get_run_def by (rule lookup_by_Some)

lemma lookup_update_rows:
  "key v = k \<Longrightarrow> lookup_by key (update_rows (\<lambda>x. key x = k) (\<lambda>_. v) xs) j =
     (if j = k \<and> lookup_by key xs k \<noteq> None then Some v else lookup_by key xs j)"
  by (induction xs) (auto simp: update_rows_def)

lemma get_put_run:
  "get_run (put_run r st) i =
     (if i = run_id r \<and> get_run st i \<noteq> None then Some r else get_run st i)"
  by (simp add: get_run_def put_run_def lookup_update_rows)

lemma put_run_fields [simp]:
  "rs_events (put_run r st) = rs_events st" "rs_steps (put_run r st) = rs_steps st"
  "rs_effects (put_run r st) = rs_effects st" "rs_checkpoints (put_run r st) = rs_checkpoints st"
  by (simp_all add: put_run_def)

lemma put_run_ids: "map run_id (rs_runs (put_run r st)) = map run_id (rs_runs st)"
  by (simp add: put_run_def update_rows_def)

lemma put_run_set: "set (rs_runs (put_run r st)) \<subseteq> insert r (set (rs_runs st))"
  by (auto simp: put_run_def update_rows_def)

lemma put_run_wf: "store_wf st \<Longrightarrow> run_wf r \<Longrightarrow> store_wf (put_run r st)"
  using put_run_set [of r st] by (auto simp: store_wf_def put_run_ids get_put_run)

lemma insert_event_wf:
  assumes "insert_event e st = Inr st'" and "store_wf st"
    and "ev_sequence e = max_sequence st (ev_run_id e) + 1" and "scoped e"
  shows "store_wf st'"
proof -
  have st': "st' = st\<lparr>rs_events := rs_events st @ [e]\<rparr>" "ev_id e \<notin> ev_id ` set (rs_events st)"
    "get_run st (ev_run_id e) \<noteq> None"
    using assms(1) by (auto simp: insert_event_def split: if_splits)
  have "numbered (run_log st' i)" for i
    using assms(2,3) st'(1) by (auto simp: store_wf_def run_log_def numbered_append
        max_sequence_numbered [unfolded run_log_def])
  then show ?thesis using assms(2,4) st' by (auto simp: store_wf_def)
qed

lemma insert_event_fields:
  "insert_event e st = Inr st' \<Longrightarrow>
     st' = st\<lparr>rs_events := rs_events st @ [e]\<rparr> \<and> get_run st (ev_run_id e) \<noteq> None"
  by (auto simp: insert_event_def split: if_splits)

lemma insert_events_simps [simp]:
  "insert_events [] st = Inr st"
  "insert_events (e # es) st = bind_result (insert_event e st) (insert_events es)"
proof -
  have "fold_result (\<lambda>_. insert_event) i es st = fold_result (\<lambda>_. insert_event) j es st" for i j es st
    by (induction es arbitrary: i j st) (auto split: sum.splits)
  then show "insert_events (e # es) st = bind_result (insert_event e st) (insert_events es)"
    by (auto simp: insert_events_def bind_result_def split: sum.splits)
qed (simp add: insert_events_def)

lemma insert_events_fields:
  "insert_events es st = Inr st' \<Longrightarrow> st' = st\<lparr>rs_events := rs_events st @ es\<rparr>"
  by (induction es arbitrary: st) (fastforce simp: bind_result_Inr dest: insert_event_fields)+

text \<open>Events of one Run that continue its numbering may be inserted together.\<close>

lemma insert_events_wf:
  assumes "insert_events es st = Inr st'" and "store_wf st"
    and "\<forall>e \<in> set es. ev_run_id e = i \<and> scoped e"
    and "map ev_sequence es = map (\<lambda>j. max_sequence st i + 1 + int j) [0 ..< length es]"
  shows "store_wf st'"
  using assms
proof (induction es arbitrary: st)
  case (Cons e es)
  then obtain u where u: "insert_event e st = Inr u" "insert_events es u = Inr st'"
    by (auto simp: bind_result_Inr)
  have seqs: "ev_sequence e = max_sequence st i + 1"
    "map ev_sequence es = map (\<lambda>j. max_sequence st i + 2 + int j) [0 ..< length es]"
    using Cons.prems(4) by (auto simp: map_upt_Suc simp del: upt_Suc)
  have wf: "store_wf u" using insert_event_wf [OF u(1) Cons.prems(2)] Cons.prems(3) seqs by simp
  have "run_log u i = run_log st i @ [e]"
    using insert_event_fields [OF u(1)] Cons.prems(3) by (simp add: run_log_def)
  then have "max_sequence u i = max_sequence st i + 1"
  proof -
    have "numbered (run_log u i)" "numbered (run_log st i)"
      using wf Cons.prems(2) unfolding store_wf_def by blast+
    then show ?thesis using \<open>run_log u i = run_log st i @ [e]\<close> by (simp add: max_sequence_numbered)
  qed
  then show ?case using Cons.IH [OF u(2) wf] Cons.prems(3) seqs(2) by (simp add: add.assoc)
qed simp

section \<open>Every operation preserves the invariant\<close>

lemma update_run_Inr:
  "update_run i f st = Inr (r', st') \<longleftrightarrow>
     (\<exists>r. get_run st i = Some r \<and> r' = f r \<and> st' = put_run (f r) st)"
  by (auto simp: update_run_def split: option.splits)

lemma store_wf_run: "store_wf st \<Longrightarrow> get_run st i = Some r \<Longrightarrow> run_wf r"
  by (auto simp: store_wf_def dest: get_run_Some)

lemma run_wf_other_fields:
  "run_wf r \<Longrightarrow> run_wf (r\<lparr>run_heartbeat_at := Some t, run_updated_at := t\<rparr>)"
  "run_wf r \<Longrightarrow> run_wf (r\<lparr>run_verification_status := v, run_updated_at := t\<rparr>)"
  "run_wf r \<Longrightarrow> run_wf (r\<lparr>run_agent_id := a, run_updated_at := t\<rparr>)"
  by (simp_all add: run_wf_def)

lemma UpdateRunHeartbeat_wf:
  "UpdateRunHeartbeat now i st = Inr (r, st') \<Longrightarrow> store_wf st \<Longrightarrow> store_wf st'"
  by (auto simp: UpdateRunHeartbeat_def update_run_Inr
      intro!: put_run_wf run_wf_other_fields store_wf_run)

lemma UpdateRunAgent_wf:
  "UpdateRunAgent a now i ag st = Inr (r, st') \<Longrightarrow> store_wf st \<Longrightarrow> store_wf st'"
  by (auto simp: UpdateRunAgent_def update_run_Inr split: option.splits if_splits
      intro!: put_run_wf run_wf_other_fields store_wf_run)

lemma UpdateRunVerificationStatus_wf:
  "UpdateRunVerificationStatus now i v st = Inr (r, st') \<Longrightarrow> store_wf st \<Longrightarrow> store_wf st'"
  by (auto simp: UpdateRunVerificationStatus_def update_run_Inr
      intro!: put_run_wf run_wf_other_fields store_wf_run)

lemma trim_Nil: "trim_space [] = []"
  by code_simp

lemma new_run_Inr:
  assumes "new_run w a m p n now ag c snap k = Inr r"
  shows "run_wf r" and "run_status r = RunQueued" and "run_conversation_id r = c"
    and "w c = Some (run_workspace_id r)" and "run_created_at r = now"
    and "snap_plan_origin snap = None \<longrightarrow> run_id r = n"
  using assms
  by (auto simp: new_run_def Let_def run_wf_def knownRunStatus_def
      settled_def trim_Nil split: option.splits if_splits)

lemma insert_run_Inr:
  "insert_run snap r st = Inr st' \<longleftrightarrow> get_run st (run_id r) = None \<and> st' = st\<lparr>rs_runs := rs_runs st @ [r]\<rparr>"
  by (auto simp: insert_run_def split: if_splits)

lemma CreateRun_Inr:
  assumes "CreateRunWithContract w a m p n now ag c snap k st = Inr (r, st')"
  shows "st' = st\<lparr>rs_runs := rs_runs st @ [r]\<rparr>" and "get_run st (run_id r) = None"
    and "run_wf r" and "run_status r = RunQueued"
  using assms new_run_Inr
  by (auto simp: CreateRunWithContract_def bind_result_Inr insert_run_Inr)

lemma get_run_append:
  "get_run (st\<lparr>rs_runs := rs_runs st @ [r]\<rparr>) i =
     (case get_run st i of Some x \<Rightarrow> Some x | None \<Rightarrow> if run_id r = i then Some r else None)"
  by (simp add: get_run_def lookup_by_append split: option.splits)

lemma CreateRun_wf:
  assumes "CreateRunWithContract w a m p n now ag c snap k st = Inr (r, st')" and "store_wf st"
  shows "store_wf st'"
  using CreateRun_Inr [OF assms(1)] assms(2)
  by (auto simp: store_wf_def get_run_append get_run_def lookup_by_None image_iff
      split: option.splits)

lemma preparePostgresRunEvent_Inr:
  "preparePostgresRunEvent svc i event now = Inr e \<Longrightarrow>
     ValidateDurableFact (check_payload svc) e = None \<and> ev_type e = ev_type event
     \<and> ev_run_id e = ev_run_id event \<and> ev_stage_id e = ev_stage_id event
     \<and> ev_turn_id e = ev_turn_id event \<and> ev_payload e = redact_map svc (ev_payload event)"
  by (auto simp: preparePostgresRunEvent_def Let_def split: if_splits option.splits)

lemma scoped_sequence: "scoped e \<Longrightarrow> scoped (e\<lparr>ev_sequence := n\<rparr>)"
  by (simp add: scoped_def scope_satisfied_def)

lemma CreateRunEvent_Inr:
  assumes "CreateRunEvent svc i now event st = Inr (e, st')"
  shows "insert_event e st = Inr st'" and "ev_sequence e = max_sequence st (ev_run_id e) + 1"
    and "ev_type e = ev_type event" and "ev_run_id e = ev_run_id event" and "scoped e"
  using assms
  by (auto simp: CreateRunEvent_def Let_def bind_result_Inr dest!: preparePostgresRunEvent_Inr)
    (auto dest!: ValidateDurableFact_scoped intro: scoped_sequence)

lemma CreateRunEvent_wf:
  "CreateRunEvent svc i now event st = Inr (e, st') \<Longrightarrow> store_wf st \<Longrightarrow> store_wf st'"
  by (rule insert_event_wf [OF CreateRunEvent_Inr(1) _ CreateRunEvent_Inr(2,5)])

lemma store_transition_same:
  "store_transition (ApplyRunStatus r s e now) r = ApplyRunStatus r s e now"
  by (rule run.equality)
    (simp_all add: store_transition_def, simp_all add: ApplyRunStatus_def Let_def split: option.splits)

lemma TransitionRun_Inr:
  assumes "TransitionRun svc ids now req st = Inr (res, st')"
  obtains r where "get_run st (tr_run_id req) = Some r" "run_id r = tr_run_id req"
    "PrepareRunTransition svc ids r req (max_sequence st (run_id r)) now = Inr res"
    "\<not> res_applied res \<longrightarrow> st' = st"
    "res_applied res \<longrightarrow> (\<exists>u. insert_events (res_events res) st = Inr u \<and> st' = put_run (res_run res) u)"
proof -
  obtain r where r: "get_run st (tr_run_id req) = Some r"
    using assms by (auto simp: TransitionRun_def split: option.splits)
  have "PrepareRunTransition svc ids r req (max_sequence st (run_id r)) now = Inr res
    \<and> (\<not> res_applied res \<longrightarrow> st' = st)
    \<and> (res_applied res \<longrightarrow> (\<exists>u. insert_events (res_events res) st = Inr u \<and> st' = put_run (res_run res) u))"
    using assms r
    by (auto simp: TransitionRun_def bind_result_Inr store_transition_same
        dest: PrepareRunTransition_applied(5) split: if_splits)
  then show thesis using that r get_run_Some [OF r] by blast
qed

lemma insert_events_Inr:
  assumes "distinct (map ev_id es)" and "ev_id ` set es \<inter> ev_id ` set (rs_events st) = {}"
    and "\<forall>e \<in> set es. get_run st (ev_run_id e) \<noteq> None"
  shows "insert_events es st = Inr (st\<lparr>rs_events := rs_events st @ es\<rparr>)"
  using assms
proof (induction es arbitrary: st)
  case (Cons e es)
  then have "insert_event e st = Inr (st\<lparr>rs_events := rs_events st @ [e]\<rparr>)"
    by (auto simp: insert_event_def)
  moreover have "insert_events es (st\<lparr>rs_events := rs_events st @ [e]\<rparr>) =
      Inr (st\<lparr>rs_events := rs_events st @ [e], rs_events := (rs_events st @ [e]) @ es\<rparr>)"
    using Cons.prems Cons.IH [of "st\<lparr>rs_events := rs_events st @ [e]\<rparr>"] by auto
  ultimately show ?case by simp
qed simp

lemma PrepareRunTransition_sequences:
  assumes "PrepareRunTransition svc ids r req (int n) now = Inr res" and "res_applied res"
    and "int n + 2 \<le> max_int64"
  shows "map ev_sequence (res_events res) = map (\<lambda>j. int n + 1 + int j) [0 ..< length (res_events res)]"
proof -
  have s: "map ev_sequence (res_events res) = (if int n = 0 then [1, 2] else [int n + 1])"
    using PrepareRunTransition_events(1) [OF assms(1,2)] assms(3) by simp
  then have "length (res_events res) = (if int n = 0 then 2 else 1)"
    by (metis length_map length_Cons list.size(3) One_nat_def Suc_1)
  with s show ?thesis by (auto simp: upt_rec [of 0] numeral_2_eq_2)
qed

lemma TransitionRun_wf:
  assumes "TransitionRun svc ids now req st = Inr (res, st')" and "store_wf st"
    and "int (length (run_log st (tr_run_id req))) + 2 \<le> max_int64"
  shows "store_wf st'"
  using assms(1)
proof (rule TransitionRun_Inr)
  fix r
  assume r: "get_run st (tr_run_id req) = Some r" "run_id r = tr_run_id req"
    and p: "PrepareRunTransition svc ids r req (max_sequence st (run_id r)) now = Inr res"
    and st': "\<not> res_applied res \<longrightarrow> st' = st"
      "res_applied res \<longrightarrow> (\<exists>u. insert_events (res_events res) st = Inr u \<and> st' = put_run (res_run res) u)"
  have n: "max_sequence st (run_id r) = int (length (run_log st (run_id r)))"
    using assms(2) by (simp add: store_wf_def max_sequence_numbered)
  show ?thesis
  proof (cases "res_applied res")
    case True
    then obtain u where u: "insert_events (res_events res) st = Inr u" "st' = put_run (res_run res) u"
      using st' by blast
    note applied = PrepareRunTransition_applied [OF p True]
    have "run_wf (res_run res)"
      using validRunTransition_wf [OF applied(1) store_wf_run [OF assms(2) r(1)] applied(3)]
        applied(5) by simp
    moreover have "store_wf u"
    proof (rule insert_events_wf [OF u(1) assms(2)])
      show "\<forall>e \<in> set (res_events res). ev_run_id e = run_id r \<and> scoped e"
        using PrepareRunTransition_events(3) [OF p True] n assms(3) r(2)
        by (auto dest: ValidateDurableFact_scoped)
      show "map ev_sequence (res_events res) =
          map (\<lambda>j. max_sequence st (run_id r) + 1 + int j) [0 ..< length (res_events res)]"
        using PrepareRunTransition_sequences [of svc ids r req _ now res] p True n assms(3) r(2)
        by simp
    qed
    ultimately show ?thesis by (simp add: u(2) put_run_wf)
  next
    case False
    then show ?thesis using st' assms(2) by simp
  qed
qed

lemma put_run_log: "run_log (put_run r st) i = run_log st i"
  by (simp add: run_log_def)

section \<open>Example store\<close>

definition example_services :: services where
  "example_services = \<lparr>redact_text = id, redact_map = id, check_payload = (\<lambda>_. None)\<rparr>"

definition example_run :: run where
  "example_run = \<lparr>run_id = ''run'', run_workspace_id = ''workspace'', run_agent_id = ''agent'',
     run_conversation_id = ''conversation'', run_status = RunQueued, run_snapshot = None,
     run_contract = None, run_verification_status = VerificationNotRequired, run_error = [],
     run_started_at = None, run_execution_started_at = None, run_active_runtime_ms = 0,
     run_heartbeat_at = None, run_completed_at = None, run_created_at = 1, run_updated_at = 1\<rparr>"

definition example_store :: run_store where
  "example_store = empty_store\<lparr>rs_runs := [example_run]\<rparr>"

definition example_transition :: "run_status \<Rightarrow> run_status \<Rightarrow> run_event_type \<Rightarrow> run_transition" where
  "example_transition a b t = \<lparr>tr_run_id = ''run'', tr_from = a, tr_to = b, tr_error = [],
     tr_event_type = t, tr_payload = Map.empty\<rparr>"

definition example_ids :: "nat \<Rightarrow> string" where
  "example_ids n = replicate (Suc n) CHR ''e''"

lemma example_store_wf: "store_wf example_store"
  by (auto simp: store_wf_def example_store_def empty_store_def example_run_def run_wf_def
      knownRunStatus_def settled_def trim_Nil run_log_def)

lemma example_get_run: "get_run example_store ''run'' = Some example_run"
  by (simp add: get_run_def example_store_def example_run_def)

section \<open>Properties\<close>

text \<open>
  C2: A legal transition from the durable status always succeeds and commits status and
  lifecycle fact together: the Run row becomes \<open>ApplyRunStatus\<close> of the old row, and exactly the
  transition's event (preceded by \<open>run.created\<close> in an empty log) is appended to the Run's log,
  with the next sequence numbers.
\<close>

theorem TransitionRun_commits:
  assumes "store_wf st" and "get_run st i = Some r" and "trim_space i \<noteq> []"
    and "validRunTransition req" and "tr_run_id req = i" and "run_status r = tr_from req"
    and "if tr_event_type req = EventRunStarted then run_log st i = [] else tr_from req \<noteq> tr_to req"
    and "ids 0 \<noteq> ids 1"
    and "ids 0 \<notin> ev_id ` set (rs_events st)" and "ids 1 \<notin> ev_id ` set (rs_events st)"
    and "int (length (run_log st i)) + 2 \<le> max_int64"
  shows "\<exists>res st' es. TransitionRun svc ids now req st = Inr (res, st')
    \<and> get_run st' i =
        Some (ApplyRunStatus r (tr_to req) (redact_text svc (trim_space (tr_error req))) now)
    \<and> run_log st' i = run_log st i @ es
    \<and> map ev_type es =
        (if run_log st i = [] then [EventRunCreated] else []) @ [tr_event_type req]
    \<and> store_wf st'"
proof -
  let ?r' = "ApplyRunStatus r (tr_to req) (redact_text svc (trim_space (tr_error req))) now"
  have ri: "run_id r = i" using get_run_Some [OF assms(2)] by simp
  have n: "max_sequence st i = int (length (run_log st i))"
    using assms(1) by (simp add: store_wf_def max_sequence_numbered)
  obtain res where res: "PrepareRunTransition svc ids r req (max_sequence st i) now = Inr res"
    using PrepareRunTransition_accepts [OF assms(4), of r svc ids "max_sequence st i" now] assms(3,5) ri
    by auto
  have applied: "res_applied res" "ev_id ` set (res_events res) \<subseteq> {ids 0, ids 1}"
      "distinct (map ev_id (res_events res))"
    using res assms n ri
    by (auto simp: PrepareRunTransition_def Let_def bind_result_Inr PrepareRunEvent_def zero_event_def trim_Nil
        split: if_splits option.splits)
  have es: "map ev_type (res_events res) =
      (if run_log st i = [] then [EventRunCreated] else []) @ [tr_event_type req]"
    "\<forall>e \<in> set (res_events res). ev_run_id e = i"
    using PrepareRunTransition_events [OF res applied(1)] assms(11) n ri by auto
  let ?u = "st\<lparr>rs_events := rs_events st @ res_events res\<rparr>"
  have ins: "insert_events (res_events res) st = Inr ?u"
    using applied es(2) assms(2,9,10) by (intro insert_events_Inr) auto
  have t: "TransitionRun svc ids now req st = Inr (res, put_run ?r' ?u)"
    using res ins applied(1) PrepareRunTransition_applied(5) [OF res applied(1)]
    by (simp add: TransitionRun_def assms ri store_transition_same)
  moreover have "get_run (put_run ?r' ?u) i = Some ?r'"
    using assms(2) ri by (simp add: get_put_run)
  moreover have "run_log (put_run ?r' ?u) i = run_log st i @ res_events res"
    using es(2) by (simp add: run_log_def)
  moreover have "store_wf (put_run ?r' ?u)"
    using TransitionRun_wf [OF t assms(1)] assms(5,11) by simp
  ultimately show ?thesis using es(1) by blast
qed

theorem TransitionRun_commits_witness:
  "\<exists>res st' es. TransitionRun example_services example_ids 5
       (example_transition RunQueued RunRunning EventRunStarted) example_store = Inr (res, st')
    \<and> run_log st' ''run'' = es \<and> map ev_type es = [EventRunCreated, EventRunStarted]"
proof -
  have "trim_space ''run'' \<noteq> []" by code_simp
  moreover have "run_log example_store ''run'' = []" "rs_events example_store = []"
    by (simp_all add: run_log_def example_store_def empty_store_def)
  ultimately show ?thesis
    using TransitionRun_commits [OF example_store_wf example_get_run,
        of "example_transition RunQueued RunRunning EventRunStarted" example_ids example_services 5]
    by (auto simp: example_transition_def example_run_def validRunTransition_def example_ids_def
        max_int64_def)
qed

text \<open>
  Transitions are compare-and-set: once a transition that changes the status has been
  committed, a competing request for the same Run with the same expected status is not applied
  and leaves the store unchanged, whatever it asks for.
\<close>

theorem TransitionRun_race:
  assumes "TransitionRun svc ids now req st = Inr (res, st')" and "res_applied res"
    and "tr_to req \<noteq> tr_from req"
    and "tr_run_id req' = tr_run_id req" and "tr_from req' = tr_from req"
    and "TransitionRun svc ids' now' req' st' = Inr (res', st'')"
  shows "\<not> res_applied res' \<and> st'' = st' \<and> res_events res' = []"
proof -
  obtain r u where "get_run st (tr_run_id req) = Some r"
    and p: "PrepareRunTransition svc ids r req (max_sequence st (run_id r)) now = Inr res"
    and u: "insert_events (res_events res) st = Inr u" "st' = put_run (res_run res) u"
    and r: "run_id r = tr_run_id req"
    using TransitionRun_Inr [OF assms(1)] assms(2) by metis
  have next_run: "run_status (res_run res) = tr_to req" "run_id (res_run res) = tr_run_id req"
    using PrepareRunTransition_applied(5) [OF p assms(2)] r by simp_all
  obtain r' where r': "get_run st' (tr_run_id req) = Some r'"
    and p': "PrepareRunTransition svc ids' r' req' (max_sequence st' (run_id r')) now' = Inr res'"
    and same: "\<not> res_applied res' \<longrightarrow> st'' = st'"
    using TransitionRun_Inr [OF assms(6)] assms(4) by metis
  have "r' = res_run res"
    using r' u next_run by (simp add: get_put_run split: if_splits)
  then have "\<not> res_applied res'"
    using PrepareRunTransition_applied(3) [OF p'] next_run assms(3,5) by auto
  then show ?thesis using same PrepareRunTransition_not_applied [OF p'] by blast
qed

theorem TransitionRun_race_witness:
  "\<exists>res st' res' st''. TransitionRun example_services example_ids 5
       (example_transition RunQueued RunRunning EventRunStarted) example_store = Inr (res, st')
    \<and> res_applied res
    \<and> TransitionRun example_services example_ids 6
       (example_transition RunQueued RunCanceled EventRunCanceled) st' = Inr (res', st'')
    \<and> \<not> res_applied res' \<and> st'' = st'"
proof -
  let ?start = "example_transition RunQueued RunRunning EventRunStarted"
  let ?cancel = "example_transition RunQueued RunCanceled EventRunCanceled"
  have "trim_space ''run'' \<noteq> []" by code_simp
  moreover have "run_log example_store ''run'' = []" "rs_events example_store = []"
    by (simp_all add: run_log_def example_store_def empty_store_def)
  ultimately obtain res st' where t: "TransitionRun example_services example_ids 5 ?start example_store = Inr (res, st')"
    and g: "get_run st' ''run'' = Some (ApplyRunStatus example_run RunRunning [] 5)"
    using TransitionRun_commits [OF example_store_wf example_get_run, of ?start example_ids example_services 5]
    by (auto simp: example_transition_def example_run_def validRunTransition_def example_ids_def
        max_int64_def example_services_def trim_Nil)
  have neq: "ApplyRunStatus example_run RunRunning [] 5 \<noteq> example_run"
    using ApplyRunStatus_fields(1) [of example_run RunRunning "[]" 5]
    by (metis example_run_def run.select_convs(5) run_status.distinct(1))
  have applied: "res_applied res"
    by (rule TransitionRun_Inr [OF t]) (use g neq example_get_run in auto)
  have "\<exists>res'. TransitionRun example_services example_ids 6 ?cancel st' = Inr (res', st')"
    using g by (auto simp: TransitionRun_def PrepareRunTransition_def example_transition_def
        validRunTransition_def knownRunStatus_def example_run_def Let_def)
  then show ?thesis
    using t applied TransitionRun_race [OF t applied, of ?cancel]
    by (auto simp: example_transition_def)
qed

end
