(* ===== verification/Recovery.thy ===== *)
theory Recovery
  imports Run_Store
begin

text \<open>
  Recovery of Runs whose worker died (\<open>internal/recovery/recovery.go\<close>, \<open>cold_start.go\<close>,
  \<open>store/postgres_recovery.go\<close>): the atomic store mutation that closes a stale Run, the planner
  that prepares it from the Run's log, and the loops that apply it at start-up. Identifiers for
  the \<open>n\<close>-th terminal event of a Run are supplied by a function.
\<close>

section \<open>The store mutation\<close>

record repair_request =
  rq_run_id :: string
  rq_expected_status :: run_status
  rq_stale_before :: time
  rq_expected_cursor :: int
  rq_terminals :: "run_event list"
  rq_error :: string

record repair_result =
  rr_run :: run
  rr_appended :: "run_event list"
  rr_applied :: bool

text \<open>The loop over the terminal events: prepare, number, redact.\<close>

fun prepare_terminals ::
  "services \<Rightarrow> (nat \<Rightarrow> string) \<Rightarrow> time \<Rightarrow> string \<Rightarrow> nat \<Rightarrow> int \<Rightarrow> run_event list
    \<Rightarrow> prepare_error + run_event list" where
  "prepare_terminals svc ids now rid n cursor [] = Inr []"
| "prepare_terminals svc ids now rid n cursor (item # items) =
     bind_result (PrepareRunEvent svc (ids n) (item\<lparr>ev_run_id := rid\<rparr>) (cursor + 1) now)
       (\<lambda>prepared. bind_result (prepare_terminals svc ids now rid (Suc n) (cursor + 1) items)
          (\<lambda>rest. Inr (prepared\<lparr>ev_payload := redact_map svc (ev_payload prepared)\<rparr> # rest)))"

definition fail_steps :: "string \<Rightarrow> string \<Rightarrow> time \<Rightarrow> run_store \<Rightarrow> run_store" where
  "fail_steps rid err now st = st\<lparr>rs_steps :=
     update_rows (\<lambda>s. step_run_id s = rid \<and> step_status s = CollaborationStepRunning)
       (\<lambda>s. s\<lparr>step_status := CollaborationStepFailed, step_error := err, step_updated_at := now\<rparr>)
       (rs_steps st)\<rparr>"

definition suspend_effects :: "string \<Rightarrow> string \<Rightarrow> time \<Rightarrow> run_store \<Rightarrow> run_store" where
  "suspend_effects rid err now st = st\<lparr>rs_effects :=
     update_rows (\<lambda>e. eff_run_id e = rid \<and> eff_status e = ToolEffectExecuting)
       (\<lambda>e. e\<lparr>eff_status := ToolEffectNeedsReconciliation, eff_version := eff_version e + 1,
          eff_error := err, eff_updated_at := now\<rparr>)
       (rs_effects st)\<rparr>"

definition repaired_run :: "string \<Rightarrow> time \<Rightarrow> run \<Rightarrow> run" where
  "repaired_run err now r =
     r\<lparr>run_status := (if run_status r = RunCanceling then RunCanceled else RunFailedRecoverable),
       run_error := err,
       run_active_runtime_ms :=
         run_active_runtime_ms r + sql_elapsed_ms now (run_execution_started_at r),
       run_execution_started_at := None, run_completed_at := Some now, run_updated_at := now\<rparr>"

definition repair_refused :: "repair_request \<Rightarrow> run \<Rightarrow> bool" where
  "repair_refused req r \<longleftrightarrow> run_status r \<noteq> rq_expected_status req
     \<or> run_status r \<noteq> RunRunning \<and> run_status r \<noteq> RunCanceling
     \<or> (case run_heartbeat_at r of None \<Rightarrow> False | Some t \<Rightarrow> \<not> t < rq_stale_before req)"

definition RepairInterruptedRun ::
  "services \<Rightarrow> (nat \<Rightarrow> string) \<Rightarrow> time \<Rightarrow> repair_request \<Rightarrow> run_store
    \<Rightarrow> store_error + repair_result \<times> run_store" where
  "RepairInterruptedRun svc ids now req st =
     (case get_run st (rq_run_id req) of
        None \<Rightarrow> Inl (NotFound ''run'')
      | Some r \<Rightarrow>
          (let skipped = (\<lparr>rr_run = r, rr_appended = [], rr_applied = False\<rparr>, st);
               cursor = max_sequence st (rq_run_id req);
               err = redact_text svc (trim_space (rq_error req))
           in if repair_refused req r then Inr skipped
              else if cursor \<noteq> rq_expected_cursor req then Inr skipped
              else
                bind_result
                  (map_error EventRejected
                    (prepare_terminals svc ids now (rq_run_id req) 0 cursor (rq_terminals req)))
                  (\<lambda>appended. bind_result (insert_events appended st)
                     (\<lambda>st'.
                        (let next = repaired_run err now r
                         in Inr (\<lparr>rr_run = next, rr_appended = appended, rr_applied = True\<rparr>,
                              put_run next
                                (suspend_effects (rq_run_id req) err now
                                  (fail_steps (rq_run_id req) err now st'))))))))"

section \<open>Planning the repair of one Run\<close>

definition InterruptedWorkerReason :: string where
  "InterruptedWorkerReason = ''worker_interrupted''"

definition staleRunMessage :: string where
  "staleRunMessage = ''run heartbeat expired; previous worker may have crashed''"

text \<open>\<open>openRunLifecycle\<close>: the last start of a Run that no terminal has answered.\<close>

definition run_opens :: "run_event_type \<Rightarrow> bool" where
  "run_opens t \<longleftrightarrow> t = EventRunCreated \<or> t = EventRunStarted \<or> t = EventRunResumed"

definition run_closes :: "run_event_type \<Rightarrow> bool" where
  "run_closes t \<longleftrightarrow> t = EventRunCompleted \<or> t = EventRunFailed \<or> t = EventRunCanceled"

definition track_run :: "run_event \<Rightarrow> run_event option \<Rightarrow> run_event option" where
  "track_run item opened =
     (if run_opens (ev_type item) then Some item
      else if run_closes (ev_type item) then None else opened)"

definition openRunLifecycle :: "run_event list \<Rightarrow> run_event option" where
  "openRunLifecycle events = fold track_run events None"

definition run_terminal :: "run \<Rightarrow> run_event \<Rightarrow> run_event" where
  "run_terminal r opened =
     (let canceled = run_status r = RunCanceling
      in zero_event\<lparr>ev_type := if canceled then EventRunCanceled else EventRunFailed,
           ev_run_id := run_id r, ev_conversation_id := run_conversation_id r,
           ev_parent_event_id := ev_id opened,
           ev_payload :=
             [''status'' \<mapsto> VString (run_status_text (if canceled then RunCanceled else RunFailedRecoverable)),
              ''error'' \<mapsto> VString staleRunMessage, ''synthetic'' \<mapsto> VBool True,
              ''reason'' \<mapsto> VString InterruptedWorkerReason,
              ''repaired_from_event_id'' \<mapsto> VString (ev_id opened)]\<rparr>)"

definition plan_request ::
  "run \<Rightarrow> run_event list \<Rightarrow> time \<Rightarrow> lifecycle_error + repair_request" where
  "plan_request r events cutoff =
     bind_result (PlanInterruptedLifecycleRepair events InterruptedWorkerReason)
       (\<lambda>plan.
          Inr \<lparr>rq_run_id = run_id r, rq_expected_status = run_status r, rq_stale_before = cutoff,
            rq_expected_cursor = last_sequence events,
            rq_terminals = plan @ (case openRunLifecycle events of
               None \<Rightarrow> [] | Some opened \<Rightarrow> [run_terminal r opened]),
            rq_error = staleRunMessage\<rparr>)"

section \<open>The recovery loops\<close>

datatype recovery_error =
    PlanFailed lifecycle_error
  | StoreFailed store_error
  | RepairedRunInvalid lifecycle_error

text \<open>
  \<open>repairRuns\<close> returns the number of repaired Runs together with the first error. \<open>ids\<close> gives the
  event identifiers of a Run.
\<close>

fun repairRuns ::
  "services \<Rightarrow> (string \<Rightarrow> nat \<Rightarrow> string) \<Rightarrow> time \<Rightarrow> time \<Rightarrow> run list \<Rightarrow> run_store
    \<Rightarrow> nat \<times> recovery_error option \<times> run_store" where
  "repairRuns svc ids now cutoff [] st = (0, None, st)"
| "repairRuns svc ids now cutoff (r # rs) st =
     (if (case run_heartbeat_at r of None \<Rightarrow> False | Some t \<Rightarrow> \<not> t < cutoff)
      then repairRuns svc ids now cutoff rs st
      else
        (let events = ListRunEvents st (run_id r)
         in case plan_request r events cutoff of
              Inl e \<Rightarrow> (0, Some (PlanFailed e), st)
            | Inr req \<Rightarrow>
                (case RepairInterruptedRun svc (ids (run_id r)) now req st of
                   Inl e \<Rightarrow> (0, Some (StoreFailed e), st)
                 | Inr (result, st') \<Rightarrow>
                     if \<not> rr_applied result then repairRuns svc ids now cutoff rs st'
                     else
                       (case ValidateLifecycle (events @ rr_appended result) of
                          Some e \<Rightarrow> (0, Some (RepairedRunInvalid e), st')
                        | None \<Rightarrow>
                            (let (n, e, st'') = repairRuns svc ids now cutoff rs st'
                             in (Suc n, e, st''))))))"

definition MarkStaleRunningRuns ::
  "services \<Rightarrow> (string \<Rightarrow> nat \<Rightarrow> string) \<Rightarrow> time \<Rightarrow> int \<Rightarrow> run_store
    \<Rightarrow> nat \<times> recovery_error option \<times> run_store" where
  "MarkStaleRunningRuns svc ids now staleTimeout st =
     (if staleTimeout \<le> 0 then (0, None, st)
      else
        (let cutoff = now - staleTimeout
         in repairRuns svc ids now cutoff (ListStaleRunningRuns cutoff st) st))"

text \<open>
  \<open>ColdStart\<close>: the snapshot of Run identifiers taken at start-up, and the bounded recheck when
  their heartbeats are due.
\<close>

record cold_start =
  cs_cutoff :: time
  cs_due :: time
  cs_ids :: "string list"

definition PrepareColdStart ::
  "services \<Rightarrow> (string \<Rightarrow> nat \<Rightarrow> string) \<Rightarrow> time \<Rightarrow> int \<Rightarrow> run_store
    \<Rightarrow> (recovery_error + cold_start option) \<times> run_store" where
  "PrepareColdStart svc ids now timeout st =
     (if timeout \<le> 0 then (Inr None, st)
      else
        (let runs = ListStaleRunningRuns now st
         in case repairRuns svc ids now (now - timeout) runs st of
              (n, Some e, st') \<Rightarrow> (Inl e, st')
            | (n, None, st') \<Rightarrow>
                (Inr (Some \<lparr>cs_cutoff = now, cs_due = now + timeout, cs_ids = map run_id runs\<rparr>), st')))"

fun recheck_attempts ::
  "services \<Rightarrow> (nat \<Rightarrow> string \<Rightarrow> nat \<Rightarrow> string) \<Rightarrow> time \<Rightarrow> cold_start \<Rightarrow> nat \<Rightarrow> run_store
    \<Rightarrow> recovery_error option \<times> run_store" where
  "recheck_attempts svc ids now cs 0 st = (None, st)"
| "recheck_attempts svc ids now cs (Suc attempts) st =
     (let runs = ListStaleRunningRuns (cs_cutoff cs) st;
          pending = filter (\<lambda>r. run_id r \<in> set (cs_ids cs)) runs
      in case repairRuns svc (ids attempts) now (cs_cutoff cs) pending st of
           (n, Some e, st') \<Rightarrow> (Some e, st')
         | (n, None, st') \<Rightarrow>
             if n = length pending then (None, st')
             else recheck_attempts svc ids now cs attempts st')"

definition recheck ::
  "services \<Rightarrow> (nat \<Rightarrow> string \<Rightarrow> nat \<Rightarrow> string) \<Rightarrow> time \<Rightarrow> cold_start \<Rightarrow> run_store
    \<Rightarrow> recovery_error option \<times> run_store" where
  "recheck svc ids now cs st = recheck_attempts svc ids now cs 2 st"

section \<open>Terminals keep their meaning through preparation and redaction\<close>

definition same_scope :: "run_event \<Rightarrow> run_event \<Rightarrow> bool" where
  "same_scope e e' \<longleftrightarrow> ev_type e = ev_type e' \<and> ev_schema_version e = ev_schema_version e'
     \<and> ev_sequence e = ev_sequence e' \<and> ev_stage_id e = ev_stage_id e'
     \<and> ev_turn_id e = ev_turn_id e' \<and> toolCallID e = toolCallID e'"

definition starts_scope :: "run_event_type \<Rightarrow> bool" where
  "starts_scope t \<longleftrightarrow> t \<in> {EventStageStarted, EventTurnStarted, EventModelStarted, EventToolStarted}"

lemma close_scope_same:
  "close_scope x e k m = Inr m' \<Longrightarrow> close_scope x e' k m = Inr m'"
  by (auto simp: close_scope_def split: if_splits)

lemma scan_type_same:
  assumes "same_scope e e'" and "\<not> starts_scope (ev_type e)" and "scan_type strict e st = Inr st'"
  shows "scan_type strict e' st = Inr st'"
  using assms
  by (auto simp: scan_type_def same_scope_def starts_scope_def bind_result_Inr
      split: run_event_type.splits stage_kind.splits turn_kind.splits model_kind.splits
        tool_kind.splits if_splits option.splits
      dest: close_scope_same)

lemma scan_event_same:
  assumes "same_scope e e'" and "\<not> starts_scope (ev_type e)" and "scan_event strict i e st = Inr st'"
  shows "scan_event strict i e' st = Inr st'"
proof -
  have "ev_sequence e = int i + 1" "scan_type strict e st = Inr st'" "validateRegisteredEvent e = None"
    using assms(3) by (auto simp: scan_event_def split: if_splits option.splits)
  moreover have "validateRegisteredEvent e' = None"
    using assms(1) calculation(3)
    by (auto simp: validateRegisteredEvent_def same_scope_def split: option.splits if_splits)
  ultimately show ?thesis
    using assms(1) scan_type_same [OF assms(1,2)] by (simp add: scan_event_def same_scope_def)
qed

lemma scan_same:
  "list_all2 same_scope es es' \<Longrightarrow> \<forall>e \<in> set es. \<not> starts_scope (ev_type e) \<Longrightarrow>
     fold_result (scan_event strict) i es st = Inr st' \<Longrightarrow>
     fold_result (scan_event strict) i es' st = Inr st'"
  by (induction es es' arbitrary: i st rule: list_all2_induct)
    (auto split: sum.splits dest: scan_event_same)

text \<open>
  Redaction leaves the tool call of a stored event alone: its identifier passed through redaction when
  the event was stored, and is not taken for a credential now.
\<close>

definition keeps_call_id :: "services \<Rightarrow> run_event \<Rightarrow> bool" where
  "keeps_call_id svc e \<longleftrightarrow> (\<forall>p. p ''tool_call_id'' = ev_payload e ''tool_call_id'' \<longrightarrow>
     payload_string (redact_map svc p) ''tool_call_id'' = payload_string p ''tool_call_id'')"

text \<open>Terminal events that can be prepared: their scope is complete once the Run is filled in.\<close>

definition preparable :: "string \<Rightarrow> run_event \<Rightarrow> bool" where
  "preparable rid e \<longleftrightarrow> ev_id e = [] \<and> ev_schema_version e \<in> {0, 1}
     \<and> ev_type e \<in> {EventToolFailed, EventModelFailed, EventTurnFailed, EventStageFailed,
         EventRunFailed, EventRunCanceled}
     \<and> scoped (e\<lparr>ev_run_id := rid, ev_schema_version := 1\<rparr>)"

lemma PrepareRunEvent_preparable:
  assumes "preparable rid e"
  shows "\<exists>p. PrepareRunEvent svc i (e\<lparr>ev_run_id := rid\<rparr>) n now = Inr p
    \<and> ev_id p = i \<and> ev_run_id p = rid \<and> ev_type p = ev_type e \<and> ev_schema_version p = 1
    \<and> ev_sequence p = n \<and> ev_stage_id p = ev_stage_id e \<and> ev_turn_id p = ev_turn_id e
    \<and> ev_payload p = ev_payload e \<and> scoped p"
proof -
  let ?p = "prepared_event i (e\<lparr>ev_run_id := rid\<rparr>) n now"
  have v: "ev_schema_version ?p = 1" "ev_id ?p = i"
    using assms by (auto simp: preparable_def trim_Nil)
  have p: "scoped ?p"
    using assms v by (simp add: preparable_def scoped_def scope_satisfied_def)
  then have "ValidateDurableFact (check_payload svc) ?p = None"
    using assms by (auto simp: ValidateDurableFact_iff preparable_def)
  moreover have "ev_type e \<noteq> Unregistered_event []"
    using assms by (auto simp: preparable_def)
  ultimately have "PrepareRunEvent svc i (e\<lparr>ev_run_id := rid\<rparr>) n now = Inr ?p"
    by (simp add: PrepareRunEvent_def)
  then show ?thesis using p v by (intro exI [of _ ?p]) simp
qed

text \<open>What a terminal \<open>e\<close> has in common with the event \<open>p\<close> that is committed for it.\<close>

definition committed :: "services \<Rightarrow> run_event \<Rightarrow> run_event \<Rightarrow> bool" where
  "committed svc e p \<longleftrightarrow> ev_type p = ev_type e \<and> ev_schema_version p = 1
     \<and> ev_stage_id p = ev_stage_id e \<and> ev_turn_id p = ev_turn_id e
     \<and> ev_payload p = redact_map svc (ev_payload e)"

lemma prepare_terminals_Inr:
  assumes "\<forall>e \<in> set es. preparable rid e"
  shows "\<exists>ps. prepare_terminals svc ids now rid n c es = Inr ps
    \<and> length ps = length es
    \<and> map ev_id ps = map ids [n ..< n + length es]
    \<and> map ev_sequence ps = map (\<lambda>j. c + 1 + int j) [0 ..< length es]
    \<and> (\<forall>p \<in> set ps. ev_run_id p = rid \<and> scoped p)
    \<and> list_all2 (committed svc) es ps"
  using assms
proof (induction es arbitrary: n c)
  case (Cons e es)
  obtain p where p: "PrepareRunEvent svc (ids n) (e\<lparr>ev_run_id := rid\<rparr>) (c + 1) now = Inr p"
    "ev_id p = ids n" "ev_run_id p = rid" "ev_type p = ev_type e" "ev_schema_version p = 1"
    "ev_sequence p = c + 1" "ev_stage_id p = ev_stage_id e" "ev_turn_id p = ev_turn_id e"
    "ev_payload p = ev_payload e" "scoped p"
    using PrepareRunEvent_preparable [of rid e] Cons.prems by force
  obtain ps where ps: "prepare_terminals svc ids now rid (Suc n) (c + 1) es = Inr ps"
    "length ps = length es" "map ev_id ps = map ids [Suc n ..< Suc n + length es]"
    "map ev_sequence ps = map (\<lambda>j. c + 1 + 1 + int j) [0 ..< length es]"
    "\<forall>p \<in> set ps. ev_run_id p = rid \<and> scoped p"
    "list_all2 (committed svc) es ps"
    using Cons.IH [of "Suc n" "c + 1"] Cons.prems by auto
  let ?p = "p\<lparr>ev_payload := redact_map svc (ev_payload p)\<rparr>"
  have "scoped ?p" using p(10) by (simp add: scoped_def scope_satisfied_def)
  moreover have c: "committed svc e ?p" using p by (simp add: committed_def)
  moreover have "map ids [n ..< n + length (e # es)] = ids n # map ids [Suc n ..< Suc n + length es]"
    by (subst upt_conv_Cons) simp_all
  moreover have "map (\<lambda>j. c + 1 + int j) [0 ..< length (e # es)] =
      (c + 1) # map (\<lambda>j. c + 1 + 1 + int j) [0 ..< length es]"
    by (simp add: map_upt_Suc del: upt_Suc)
  ultimately show ?case
    using p ps c by (intro exI [of _ "?p # ps"]) (simp del: upt_Suc)
qed simp

section \<open>The planned terminals can be committed\<close>

lemma repair_terminals_shape:
  "t \<in> set (repair_terminals r c st) \<Longrightarrow> ev_id t = [] \<and> ev_schema_version t = 1"
  by (auto simp: repair_terminals_def Let_def synthetic_terminal_def zero_event_def
      CurrentRunEventSchemaVersion_def dest!: appendOpen_from)

lemma answers_scoped:
  assumes "answers t s" and "scoped s" and "trim_space rid \<noteq> []"
  shows "scoped (t\<lparr>ev_run_id := rid, ev_schema_version := 1\<rparr>)"
  using assms
  by (auto simp: answers_def scoped_def scope_satisfied_def registered_def scope_optional_def
      scope_stage_def scope_turn_def CurrentRunEventSchemaVersion_def)

lemma plan_preparable:
  assumes "scanLifecycle events = Inr st" and "\<forall>e \<in> set events. scoped e" and "trim_space rid \<noteq> []"
  shows "\<forall>t \<in> set (repair_terminals reason c st). preparable rid t"
proof
  fix t assume t: "t \<in> set (repair_terminals reason c st)"
  then obtain s where "s \<in> set events" "answers t s"
    using repair_terminals_answer [OF scanLifecycle_scopes [OF assms(1)]] by blast
  then show "preparable rid t"
    using repair_terminals_shape [OF t] repair_terminals_types [OF t]
      answers_scoped [of t s rid] assms(2,3)
    by (auto simp: preparable_def)
qed

lemma run_terminal_preparable:
  "trim_space rid \<noteq> [] \<Longrightarrow> preparable rid (run_terminal r e)"
  by (simp add: preparable_def run_terminal_def zero_event_def Let_def scoped_def
      scope_satisfied_def registered_def scope_optional_def CurrentRunEventSchemaVersion_def)

text \<open>The terminals of a repair request: the plan, and the Run's own terminal when one is due.\<close>

definition run_tail :: "run \<Rightarrow> run_event list \<Rightarrow> run_event list" where
  "run_tail r events =
     (case openRunLifecycle events of None \<Rightarrow> [] | Some opened \<Rightarrow> [run_terminal r opened])"

lemma plan_request_scanned:
  assumes "scanLifecycle events = Inr st"
  shows "plan_request r events cutoff =
     Inr \<lparr>rq_run_id = run_id r, rq_expected_status = run_status r, rq_stale_before = cutoff,
       rq_expected_cursor = int (length events),
       rq_terminals = repair_terminals InterruptedWorkerReason (int (length events)) st
         @ run_tail r events,
       rq_error = staleRunMessage\<rparr>"
  by (simp add: plan_request_def plan_when_scanned [OF assms] scan_last_sequence [OF assms] run_tail_def)

lemma run_tail_types:
  "e \<in> set (run_tail r events) \<Longrightarrow> ev_type e = EventRunFailed \<or> ev_type e = EventRunCanceled"
  by (auto simp: run_tail_def run_terminal_def Let_def split: option.splits)

lemma run_tail_length: "length (run_tail r events) \<le> 1"
  by (simp add: run_tail_def split: option.splits)

text \<open>A terminal has the tool call of the start it answers.\<close>

lemma plan_keeps_call_id:
  assumes "scanLifecycle events = Inr st" and "\<forall>e \<in> set events. keeps_call_id svc e"
    and "t \<in> set (repair_terminals reason c st)"
  shows "keeps_call_id svc t"
proof -
  obtain e c' ty where e: "e \<in> set events" "t = synthetic_terminal ty reason c' e"
    using assms(3) scanLifecycle_scopes [OF assms(1)]
    unfolding repair_terminals_def Let_def scopes_from_def from_starts_def
    by (fastforce dest!: appendOpen_from)
  then have "ev_payload t ''tool_call_id'' = ev_payload e ''tool_call_id''" by (simp add: synthetic_terminal_def)
  then show ?thesis using assms(2) e(1) by (simp add: keeps_call_id_def)
qed

text \<open>The log with the committed terminals is a complete stream.\<close>

lemma committed_same_scope:
  assumes "committed svc t p" and "keeps_call_id svc t" and "ev_schema_version t = 1"
    and "ev_sequence p = ev_sequence t"
  shows "same_scope t p"
  using assms by (simp add: committed_def same_scope_def toolCallID_def keeps_call_id_def)

lemma committed_plan_scan:
  assumes "scanLifecycle events = Inr st" and "\<forall>e \<in> set events. keeps_call_id svc e"
    and "list_all2 (committed svc) (repair_terminals reason (int (length events)) st) ps"
    and "\<forall>j < length ps. ev_sequence (ps ! j) = int (length events + j) + 1"
  shows "fold_result (scan_event strict) (length events) ps st = Inr empty_lifecycle"
proof -
  let ?plan = "repair_terminals reason (int (length events)) st"
  have closed: "fold_result (scan_event strict) (length events) ?plan st = Inr empty_lifecycle"
    by (rule repair_closes_everything [OF scanLifecycle_wf [OF assms(1)]])
  have "list_all2 same_scope ?plan ps"
  proof (rule list_all2_all_nthI)
    show "length ?plan = length ps" using assms(3) by (rule list_all2_lengthD)
    fix j assume j: "j < length ?plan"
    moreover have "ev_sequence (?plan ! j) = int (length events + j) + 1"
      using scan_sequences [OF closed] j by blast
    ultimately show "same_scope (?plan ! j) (ps ! j)"
      using committed_same_scope [OF list_all2_nthD [OF assms(3) j] plan_keeps_call_id [OF assms(1,2) nth_mem [OF j]]]
        assms(4) repair_terminals_shape [OF nth_mem [OF j]] list_all2_lengthD [OF assms(3)]
      by simp
  qed
  moreover have "\<forall>e \<in> set ?plan. \<not> starts_scope (ev_type e)"
    by (auto simp: starts_scope_def dest: repair_terminals_types)
  ultimately show ?thesis using closed by (blast intro: scan_same)
qed

lemma committed_tail_scan:
  assumes "list_all2 (committed svc) (run_tail r events) ps"
    and "\<forall>j < length ps. ev_sequence (ps ! j) = int (n + j) + 1"
  shows "fold_result (scan_event strict) n ps st = Inr st"
proof (cases "run_tail r events")
  case (Cons t ts)
  then have "ts = []" using run_tail_length [of r events] by simp
  with Cons assms(1) obtain p where ps: "ps = [p]" "committed svc t p"
    by (auto simp: list_all2_Cons1)
  then show ?thesis
    using Cons run_tail_types [of t r events] assms(2)
    by (auto simp: committed_def scan_event_def validateRegisteredEvent_def registered_def
        CurrentRunEventSchemaVersion_def scan_type_def)
qed (use assms in simp)

lemma committed_types:
  "list_all2 (committed svc) es ps \<Longrightarrow> ev_type ` set ps = ev_type ` set es"
  by (induction rule: list_all2_induct) (auto simp: committed_def)

lemma repaired_log_complete:
  assumes scan: "scanLifecycle events = Inr st" and keeps: "\<forall>e \<in> set events. keeps_call_id svc e"
    and ps: "list_all2 (committed svc)
       (repair_terminals reason (int (length events)) st @ run_tail r events) ps"
    and seqs: "\<forall>j < length ps. ev_sequence (ps ! j) = int (length events + j) + 1"
  shows "ValidateLifecycle (events @ ps) = None"
proof -
  let ?plan = "repair_terminals reason (int (length events)) st"
  let ?strict = "strictStagePairing events"
  obtain ps1 ps2 where split: "ps = ps1 @ ps2"
    and same: "list_all2 (committed svc) ?plan ps1" "list_all2 (committed svc) (run_tail r events) ps2"
    using ps unfolding list_all2_append1 by blast
  have "\<forall>j < length ps1. ev_sequence (ps1 ! j) = int (length events + j) + 1"
    using seqs by (metis (no_types, lifting) length_append nth_append split trans_less_add1)
  note scan1 = committed_plan_scan [OF scan keeps same(1) this, of ?strict]
  have "ev_sequence (ps2 ! j) = int (length events + length ps1 + j) + 1" if "j < length ps2" for j
    using seqs [rule_format, of "length ps1 + j"] that by (simp add: split)
  then have scan2: "fold_result (scan_event ?strict) (length events + length ps1) ps2 empty_lifecycle =
      Inr empty_lifecycle"
    by (intro committed_tail_scan [OF same(2)]) blast
  have "ev_type e \<notin> {EventCheckpointCaptured, EventCheckpointRestored, EventCheckpointStale}"
    if "e \<in> set (?plan @ run_tail r events)" for e
    using that by (auto dest: repair_terminals_types run_tail_types)
  then have "ev_type p \<notin> {EventCheckpointCaptured, EventCheckpointRestored, EventCheckpointStale}"
    if "p \<in> set ps" for p
    using that committed_types [OF ps] by (metis (no_types, lifting) imageE imageI)
  then have "strictStagePairing (events @ ps) = ?strict"
    by (auto simp: strictStagePairing_def list_ex_iff)
  then have "scanLifecycle (events @ ps) = Inr empty_lifecycle"
    using scan scan1 scan2 by (simp add: scanLifecycle_def fold_result_append split)
  then show ?thesis by (simp only: ValidateLifecycle_None_iff)
qed

section \<open>Repairing one Run\<close>

definition stale :: "time \<Rightarrow> run \<Rightarrow> bool" where
  "stale cutoff r \<longleftrightarrow> (run_status r = RunRunning \<or> run_status r = RunCanceling)
     \<and> (case run_heartbeat_at r of None \<Rightarrow> True | Some t \<Rightarrow> t < cutoff)"

lemma repaired_run_wf: "run_wf (repaired_run err now r)"
  by (simp add: run_wf_def repaired_run_def knownRunStatus_def completionSource_def settled_def)

lemma repaired_run_not_stale: "\<not> stale cutoff (repaired_run err now r)"
  by (simp add: stale_def repaired_run_def)

lemma fail_steps_fields [simp]:
  "rs_runs (fail_steps i err now st) = rs_runs st" "rs_events (fail_steps i err now st) = rs_events st"
  "rs_effects (fail_steps i err now st) = rs_effects st"
  "rs_checkpoints (fail_steps i err now st) = rs_checkpoints st"
  by (simp_all add: fail_steps_def)

lemma suspend_effects_fields [simp]:
  "rs_runs (suspend_effects i err now st) = rs_runs st"
  "rs_events (suspend_effects i err now st) = rs_events st"
  "rs_steps (suspend_effects i err now st) = rs_steps st"
  "rs_checkpoints (suspend_effects i err now st) = rs_checkpoints st"
  by (simp_all add: suspend_effects_def)

text \<open>\<open>store_wf\<close> only speaks of Runs and events.\<close>

lemma store_wf_cong:
  "rs_runs st = rs_runs st' \<Longrightarrow> rs_events st = rs_events st' \<Longrightarrow> store_wf st = store_wf st'"
  by (simp add: store_wf_def run_log_def get_run_def)

lemma get_run_cong: "rs_runs st = rs_runs st' \<Longrightarrow> get_run st = get_run st'"
  by (rule ext) (simp add: get_run_def)

lemma RepairInterruptedRun_applied:
  assumes "RepairInterruptedRun svc ids now req st = Inr (res, st')" and "rr_applied res"
  obtains r u where "get_run st (rq_run_id req) = Some r" "\<not> repair_refused req r"
    "max_sequence st (rq_run_id req) = rq_expected_cursor req"
    "prepare_terminals svc ids now (rq_run_id req) 0 (rq_expected_cursor req) (rq_terminals req) =
       Inr (rr_appended res)"
    "insert_events (rr_appended res) st = Inr u"
    "rr_run res = repaired_run (redact_text svc (trim_space (rq_error req))) now r"
    "st' = put_run (rr_run res)
       (suspend_effects (rq_run_id req) (redact_text svc (trim_space (rq_error req))) now
         (fail_steps (rq_run_id req) (redact_text svc (trim_space (rq_error req))) now u))"
  using assms
  by (auto simp: RepairInterruptedRun_def Let_def bind_result_Inr split: option.splits if_splits)

text \<open>The repair of one Run from a plan made for its present log.\<close>

lemma repair_one:
  assumes wf: "store_wf st" and keeps: "\<forall>e \<in> set (run_log st i). keeps_call_id svc e"
    and r: "get_run st i = Some r" "stale cutoff r" and i: "trim_space i \<noteq> []"
    and scan: "scanLifecycle (run_log st i) = Inr s"
    and ids: "inj ids" "range ids \<inter> ev_id ` set (rs_events st) = {}"
  shows "\<exists>req res st'. plan_request r (ListRunEvents st i) cutoff = Inr req
    \<and> RepairInterruptedRun svc ids now req st = Inr (res, st') \<and> rr_applied res
    \<and> ValidateLifecycle (ListRunEvents st i @ rr_appended res) = None
    \<and> get_run st' = (get_run st)(i \<mapsto> repaired_run (redact_text svc (trim_space staleRunMessage)) now r)
    \<and> rs_runs st' = update_rows (\<lambda>x. run_id x = i)
        (\<lambda>_. repaired_run (redact_text svc (trim_space staleRunMessage)) now r) (rs_runs st)
    \<and> run_log st' i = run_log st i @ rr_appended res
    \<and> (\<forall>j. j \<noteq> i \<longrightarrow> run_log st' j = run_log st j)
    \<and> ev_id ` set (rs_events st') \<subseteq> ev_id ` set (rs_events st) \<union> range ids
    \<and> store_wf st'"
proof -
  let ?log = "run_log st i"
  let ?items = "repair_terminals InterruptedWorkerReason (int (length ?log)) s @ run_tail r ?log"
  let ?err = "redact_text svc (trim_space staleRunMessage)"
  have log: "numbered ?log" using wf by (simp add: store_wf_def)
  have rid: "run_id r = i" using get_run_Some [OF r(1)] by simp
  have scoped_log: "\<forall>e \<in> set ?log. scoped e" using wf by (auto simp: store_wf_def run_log_def)
  obtain req where req: "plan_request r ?log cutoff = Inr req" "rq_run_id req = i"
    "rq_expected_status req = run_status r" "rq_stale_before req = cutoff"
    "rq_expected_cursor req = int (length ?log)" "rq_terminals req = ?items"
    "rq_error req = staleRunMessage"
    by (rule that [OF plan_request_scanned [OF scan, of r cutoff]]) (simp_all add: rid)
  have "\<forall>e \<in> set ?items. preparable i e"
    using plan_preparable [OF scan scoped_log i] run_terminal_preparable [OF i]
    by (auto simp: run_tail_def split: option.splits)
  then obtain ps where ps: "prepare_terminals svc ids now i 0 (int (length ?log)) ?items = Inr ps"
    and len: "length ps = length ?items"
    and psids: "map ev_id ps = map ids [0 ..< length ?items]"
    and seqs: "map ev_sequence ps = map (\<lambda>j. int (length ?log) + 1 + int j) [0 ..< length ?items]"
    and scoped: "\<forall>p \<in> set ps. ev_run_id p = i \<and> scoped p"
    and committed: "list_all2 (committed svc) ?items ps"
    using prepare_terminals_Inr [of ?items i svc ids now 0 "int (length ?log)"] by auto
  have "distinct (map ev_id ps)" "set (map ev_id ps) \<subseteq> range ids"
    using ids(1) unfolding psids by (auto simp: distinct_map inj_on_def)
  then have psids': "distinct (map ev_id ps)" "ev_id ` set ps \<subseteq> range ids" by simp_all
  then have ins: "insert_events ps st = Inr (st\<lparr>rs_events := rs_events st @ ps\<rparr>)"
    using psids' ids(2) scoped r(1) by (intro insert_events_Inr) auto
  let ?u = "st\<lparr>rs_events := rs_events st @ ps\<rparr>"
  let ?st' = "put_run (repaired_run ?err now r) (suspend_effects i ?err now (fail_steps i ?err now ?u))"
  let ?res = "\<lparr>rr_run = repaired_run ?err now r, rr_appended = ps, rr_applied = True\<rparr>"
  have "\<not> repair_refused req r"
    using r(2) req by (auto simp: repair_refused_def stale_def split: option.splits)
  then have repair: "RepairInterruptedRun svc ids now req st = Inr (?res, ?st')"
    using r(1) req ps ins max_sequence_numbered [OF log] by (simp add: RepairInterruptedRun_def Let_def)
  have "store_wf ?u"
    using insert_events_wf [OF ins wf scoped] seqs len max_sequence_numbered [OF log] by simp
  then have "store_wf (suspend_effects i ?err now (fail_steps i ?err now ?u))"
    by (subst store_wf_cong [of _ ?u]) simp_all
  then have "store_wf ?st'" by (rule put_run_wf [OF _ repaired_run_wf])
  moreover have "get_run ?st' = (get_run st)(i \<mapsto> repaired_run ?err now r)"
    using r(1) rid get_run_cong [of "suspend_effects i ?err now (fail_steps i ?err now ?u)" st]
    by (auto simp: get_put_run repaired_run_def)
  moreover have "rs_runs ?st' = update_rows (\<lambda>x. run_id x = i) (\<lambda>_. repaired_run ?err now r) (rs_runs st)"
    by (simp add: put_run_def repaired_run_def rid)
  moreover have "ValidateLifecycle (?log @ ps) = None"
  proof (rule repaired_log_complete [OF scan keeps committed])
    show "\<forall>j < length ps. ev_sequence (ps ! j) = int (length ?log + j) + 1"
      using len seqs by (metis (no_types, lifting) add.assoc add.commute length_map nth_map of_nat_add nth_upt add_0)
  qed
  moreover have "run_log ?st' i = ?log @ ps" "\<forall>j. j \<noteq> i \<longrightarrow> run_log ?st' j = run_log st j"
    using scoped by (auto simp: run_log_def filter_id_conv)
  moreover have "ev_id ` set (rs_events ?st') \<subseteq> ev_id ` set (rs_events st) \<union> range ids"
    using psids'(2) by auto
  ultimately show ?thesis
    using req(1) repair ListRunEvents_numbered [OF log]
    by (intro exI [of _ req] exI [of _ ?res] exI [of _ ?st']) simp
qed

section \<open>Repairing all stale Runs\<close>

text \<open>
  The situation at start-up: the listed Runs are rows of the store, stale, with logs that follow
  the protocol; the identifiers for their terminal events are fresh.
\<close>

definition repairable :: "services \<Rightarrow> (string \<Rightarrow> nat \<Rightarrow> string) \<Rightarrow> time \<Rightarrow> run list \<Rightarrow> run_store \<Rightarrow> bool" where
  "repairable svc ids cutoff rs st \<longleftrightarrow> distinct (map run_id rs)
     \<and> inj (case_prod ids)
     \<and> (\<forall>r \<in> set rs. get_run st (run_id r) = Some r \<and> stale cutoff r \<and> trim_space (run_id r) \<noteq> []
          \<and> (\<forall>e \<in> set (run_log st (run_id r)). keeps_call_id svc e)
          \<and> range (ids (run_id r)) \<inter> ev_id ` set (rs_events st) = {})"

abbreviation stale_error :: "services \<Rightarrow> string" where
  "stale_error svc \<equiv> redact_text svc (trim_space staleRunMessage)"

text \<open>
  The scan goes through the Runs in their order and ends at the first one whose log breaks the
  protocol: the Runs before it, and the error that it reports.
\<close>

definition follows_protocol :: "run_store \<Rightarrow> run \<Rightarrow> bool" where
  "follows_protocol st r \<longleftrightarrow> (\<exists>s. scanLifecycle (run_log st (run_id r)) = Inr s)"

definition scan_error :: "run_store \<Rightarrow> run list \<Rightarrow> recovery_error option" where
  "scan_error st rs =
     (case dropWhile (follows_protocol st) rs of
        [] \<Rightarrow> None
      | r # _ \<Rightarrow> (case scanLifecycle (run_log st (run_id r)) of
                    Inl v \<Rightarrow> Some (PlanFailed (Protocol v)) | Inr _ \<Rightarrow> None))"

text \<open>The rows of the Runs after those in \<open>done\<close> have been repaired.\<close>

definition repaired_rows :: "services \<Rightarrow> time \<Rightarrow> run list \<Rightarrow> run list \<Rightarrow> run list" where
  "repaired_rows svc now done =
     map (\<lambda>r. if run_id r \<in> run_id ` set done then repaired_run (stale_error svc) now r else r)"

lemma repaired_rows_Nil [simp]: "repaired_rows svc now [] rows = rows"
  by (simp add: repaired_rows_def)

lemma run_id_repaired [simp]: "run_id (repaired_run err now r) = run_id r"
  by (simp add: repaired_run_def)

lemma repaired_rows_Cons:
  assumes "run_id r \<notin> run_id ` set rs" and "distinct (map run_id rows)" and "r \<in> set rows"
  shows "repaired_rows svc now rs
      (update_rows (\<lambda>x. run_id x = run_id r) (\<lambda>_. repaired_run (stale_error svc) now r) rows)
    = repaired_rows svc now (r # rs) rows"
proof -
  have "x = r" if "x \<in> set rows" "run_id x = run_id r" for x
    using that assms(2,3) by (auto simp: distinct_map dest: inj_onD)
  then show ?thesis using assms(1) by (auto simp: repaired_rows_def update_rows_def)
qed

lemma follows_cong: "run_log u (run_id r) = run_log st (run_id r) \<Longrightarrow> follows_protocol u r = follows_protocol st r"
  by (simp add: follows_protocol_def)

lemma scan_error_cong:
  assumes "\<forall>r \<in> set rs. run_log u (run_id r) = run_log st (run_id r)"
  shows "takeWhile (follows_protocol u) rs = takeWhile (follows_protocol st) rs" "scan_error u rs = scan_error st rs"
proof -
  have same: "follows_protocol u r = follows_protocol st r" if "r \<in> set rs" for r
    by (rule follows_cong) (use assms that in blast)
  then show "takeWhile (follows_protocol u) rs = takeWhile (follows_protocol st) rs"
    by (intro takeWhile_cong refl same)
  have d: "dropWhile (follows_protocol u) rs = dropWhile (follows_protocol st) rs"
    by (intro dropWhile_cong refl same)
  show "scan_error u rs = scan_error st rs"
  proof (cases "dropWhile (follows_protocol st) rs")
    case (Cons r rest)
    then have "r \<in> set rs" by (metis list.set_intros(1) set_dropWhileD)
    then show ?thesis using assms d Cons by (simp add: scan_error_def)
  next
    case Nil
    then show ?thesis unfolding scan_error_def d by (simp only: list.case)
  qed
qed

lemma repairRuns_result:
  assumes "store_wf st" and "repairable svc ids cutoff rs st"
  shows "\<exists>st'. repairRuns svc ids now cutoff rs st =
        (length (takeWhile (follows_protocol st) rs), scan_error st rs, st') \<and> store_wf st'
    \<and> rs_runs st' = repaired_rows svc now (takeWhile (follows_protocol st) rs) (rs_runs st)
    \<and> (\<forall>r \<in> set (takeWhile (follows_protocol st) rs). ValidateLifecycle (run_log st' (run_id r)) = None)
    \<and> (\<forall>i. i \<notin> run_id ` set (takeWhile (follows_protocol st) rs) \<longrightarrow> run_log st' i = run_log st i)"
  using assms
proof (induction rs arbitrary: st)
  case Nil
  then show ?case by (simp add: scan_error_def)
next
  case (Cons r rs)
  let ?i = "run_id r"
  have r: "get_run st ?i = Some r" "stale cutoff r" "trim_space ?i \<noteq> []"
    "\<forall>e \<in> set (run_log st ?i). keeps_call_id svc e" "range (ids ?i) \<inter> ev_id ` set (rs_events st) = {}"
    and inj_ids: "inj (case_prod ids)" and fresh: "?i \<notin> run_id ` set rs"
    using Cons.prems(2) by (auto simp: repairable_def)
  have due: "\<not> (case run_heartbeat_at r of None \<Rightarrow> False | Some t \<Rightarrow> \<not> t < cutoff)"
    using r(2) by (auto simp: stale_def split: option.splits)
  have numbered: "numbered (run_log st ?i)" using Cons.prems(1) by (simp add: store_wf_def)
  show ?case
  proof (cases "scanLifecycle (run_log st ?i)")
    case (Inl v)
    then have "plan_request r (ListRunEvents st ?i) cutoff = Inl (Protocol v)"
      by (simp add: ListRunEvents_numbered [OF numbered] plan_request_def PlanInterruptedLifecycleRepair_def)
    then have "repairRuns svc ids now cutoff (r # rs) st = (0, Some (PlanFailed (Protocol v)), st)"
      using due by simp
    moreover have "\<not> follows_protocol st r" using Inl by (simp add: follows_protocol_def)
    ultimately show ?thesis using Inl Cons.prems(1) by (simp add: scan_error_def)
  next
    case (Inr s)
    have follows: "follows_protocol st r" using Inr by (simp add: follows_protocol_def)
    have "inj (ids ?i)" using inj_ids by (auto simp: inj_def)
    from repair_one [OF Cons.prems(1) r(4) r(1,2,3) Inr this r(5), of now]
    obtain req res u where req: "plan_request r (ListRunEvents st ?i) cutoff = Inr req"
      and rep: "RepairInterruptedRun svc (ids ?i) now req st = Inr (res, u)" "rr_applied res"
      and valid: "ValidateLifecycle (ListRunEvents st ?i @ rr_appended res) = None"
      and runs: "get_run u = (get_run st)(?i \<mapsto> repaired_run (stale_error svc) now r)"
      and rows: "rs_runs u = update_rows (\<lambda>x. run_id x = ?i) (\<lambda>_. repaired_run (stale_error svc) now r) (rs_runs st)"
      and logs: "run_log u ?i = run_log st ?i @ rr_appended res" "\<forall>j. j \<noteq> ?i \<longrightarrow> run_log u j = run_log st j"
      and evs: "ev_id ` set (rs_events u) \<subseteq> ev_id ` set (rs_events st) \<union> range (ids ?i)"
      and wf: "store_wf u"
      by blast
    have other: "run_id x \<noteq> ?i" if "x \<in> set rs" for x
      using imageI [OF that, of run_id] fresh by metis
    have "range (ids (run_id x)) \<inter> ev_id ` set (rs_events u) = {}" if x: "x \<in> set rs" for x
    proof -
      have "range (ids (run_id x)) \<inter> range (ids ?i) = {}"
        using inj_ids other [OF x] by (auto simp: inj_def)
      moreover have "range (ids (run_id x)) \<inter> ev_id ` set (rs_events st) = {}"
        using Cons.prems(2) x by (auto simp: repairable_def)
      ultimately show ?thesis using evs by (rule disjoint_cover)
    qed
    then have repairable: "repairable svc ids cutoff rs u"
      using Cons.prems(2) runs logs other by (auto simp: repairable_def)
    have same: "\<forall>x \<in> set rs. run_log u (run_id x) = run_log st (run_id x)" using logs(2) other by blast
    let ?done = "takeWhile (follows_protocol st) rs"
    obtain st' where st': "repairRuns svc ids now cutoff rs u = (length ?done, scan_error st rs, st')" "store_wf st'"
      "rs_runs st' = repaired_rows svc now ?done (rs_runs u)"
      "\<forall>x \<in> set ?done. ValidateLifecycle (run_log st' (run_id x)) = None"
      "\<forall>i. i \<notin> run_id ` set ?done \<longrightarrow> run_log st' i = run_log u i"
      using Cons.IH [OF wf repairable] unfolding scan_error_cong [OF same] by blast
    have in_done: "?i \<notin> run_id ` set ?done" using fresh by (auto dest: set_takeWhileD)
    have "distinct (map run_id (rs_runs st))" using Cons.prems(1) by (simp add: store_wf_def)
    moreover have "r \<in> set (rs_runs st)" using get_run_Some [OF r(1)] by simp
    ultimately have "rs_runs st' = repaired_rows svc now (r # ?done) (rs_runs st)"
      unfolding st'(3) rows by (rule repaired_rows_Cons [OF in_done])
    moreover have "ValidateLifecycle (run_log st' ?i) = None"
      using valid logs(1) st'(5) in_done by (simp add: ListRunEvents_numbered [OF numbered])
    moreover have "repairRuns svc ids now cutoff (r # rs) st = (Suc (length ?done), scan_error st rs, st')"
      using req rep valid st'(1) due by simp
    moreover have "scan_error st (r # rs) = scan_error st rs" using follows by (simp add: scan_error_def)
    ultimately show ?thesis
      using st' logs(2) follows by (intro exI [of _ st']) auto
  qed
qed

lemma ListStaleRunningRuns_stale: "ListStaleRunningRuns cutoff st = sort_key run_created_at (filter (stale cutoff) (rs_runs st))"
proof -
  have "stale cutoff = (\<lambda>r. (run_status r = RunRunning \<or> run_status r = RunCanceling)
     \<and> (case run_heartbeat_at r of None \<Rightarrow> True | Some t \<Rightarrow> t < cutoff))"
    by (simp add: stale_def fun_eq_iff)
  then show ?thesis by (simp only: ListStaleRunningRuns_def)
qed

lemma ListStaleRunningRuns_set:
  "set (ListStaleRunningRuns cutoff st) = {r \<in> set (rs_runs st). stale cutoff r}"
  by (auto simp: ListStaleRunningRuns_stale)

lemma ListStaleRunningRuns_distinct:
  "distinct (map run_id (rs_runs st)) \<Longrightarrow> distinct (map run_id (ListStaleRunningRuns cutoff st))"
  unfolding ListStaleRunningRuns_stale
  by (metis (no_types, lifting) distinct_map distinct_sort distinct_map_filter set_sort)

lemma get_run_member:
  "distinct (map run_id (rs_runs st)) \<Longrightarrow> r \<in> set (rs_runs st) \<Longrightarrow> get_run st (run_id r) = Some r"
  by (simp add: get_run_def lookup_by_distinct)

text \<open>What is left to do after a scan are the Runs that it did not reach.\<close>

lemma stale_after_repair:
  assumes "rs_runs st' = repaired_rows svc now done (rs_runs st)"
  shows "ListStaleRunningRuns cutoff st' =
    filter (\<lambda>r. run_id r \<notin> run_id ` set done) (ListStaleRunningRuns cutoff st)"
proof -
  have "filter (stale cutoff) (repaired_rows svc now done rows) =
      filter (\<lambda>r. run_id r \<notin> run_id ` set done) (filter (stale cutoff) rows)" for rows
    by (induction rows) (simp_all add: repaired_rows_def repaired_run_not_stale)
  then show ?thesis by (simp only: ListStaleRunningRuns_stale assms filter_sort)
qed

lemma filter_takeWhile_dropWhile:
  assumes "distinct (map f xs)"
  shows "filter (\<lambda>x. f x \<notin> f ` set (takeWhile P xs)) xs = dropWhile P xs"
proof -
  have "distinct (map f (takeWhile P xs @ dropWhile P xs))" using assms by simp
  then have "filter (\<lambda>x. f x \<notin> f ` set (takeWhile P xs)) (dropWhile P xs) = dropWhile P xs"
    unfolding map_append distinct_append by (intro filter_True) (auto dest: imageI)
  moreover have "filter (\<lambda>x. f x \<notin> f ` set (takeWhile P xs)) (takeWhile P xs) = []" by (simp add: filter_empty_conv)
  ultimately show ?thesis by (metis append_Nil filter_append takeWhile_dropWhile_id)
qed

text \<open>Runs whose heartbeat is not due are passed over.\<close>

lemma repairRuns_due:
  "\<forall>r \<in> set rs. run_status r = RunRunning \<or> run_status r = RunCanceling \<Longrightarrow>
     repairRuns svc ids now cutoff rs st = repairRuns svc ids now cutoff (filter (stale cutoff) rs) st"
proof (induction rs arbitrary: st)
  case (Cons r rs)
  have "stale cutoff r \<longleftrightarrow> \<not> (case run_heartbeat_at r of None \<Rightarrow> False | Some t \<Rightarrow> \<not> t < cutoff)"
    using Cons.prems by (auto simp: stale_def split: option.splits)
  then show ?case using Cons by (simp add: Let_def split: sum.split prod.split option.split)
qed simp

lemma stale_at_start:
  assumes "0 < timeout"
  shows "filter (stale (now - timeout)) (ListStaleRunningRuns now st) = ListStaleRunningRuns (now - timeout) st"
proof -
  have "stale (now - timeout) r \<Longrightarrow> stale now r" for r using assms by (auto simp: stale_def split: option.splits)
  then show ?thesis
    by (simp add: ListStaleRunningRuns_stale filter_sort) (metis (mono_tags, lifting) filter_cong)
qed

text \<open>The facts about a scan that its result is made of.\<close>

lemma scan_error_None: "scan_error st rs = None \<longleftrightarrow> takeWhile (follows_protocol st) rs = rs"
proof (cases "dropWhile (follows_protocol st) rs")
  case Nil
  then show ?thesis
    using takeWhile_dropWhile_id [of "follows_protocol st" rs]
    unfolding scan_error_def by (simp only: list.case append_Nil2 simp_thms)
next
  case (Cons r qs)
  then have r: "\<not> follows_protocol st r" "r \<in> set rs"
    using hd_dropWhile [of "follows_protocol st" rs] set_dropWhileD [of r "follows_protocol st" rs] by simp_all
  then have "takeWhile (follows_protocol st) rs \<noteq> rs"
    using set_takeWhileD [of r "follows_protocol st" rs] by metis
  moreover have "scan_error st rs \<noteq> None"
    using r(1) Cons by (simp add: scan_error_def follows_protocol_def split: sum.split)
  ultimately show ?thesis by (simp only: simp_thms)
qed

lemma repaired_row:
  assumes "distinct (map run_id (rs_runs st))" and "set done \<subseteq> set (rs_runs st)"
    and "rs_runs st' = repaired_rows svc now done (rs_runs st)" and "store_wf st'" and "r \<in> set (rs_runs st)"
  shows "run_id r \<in> run_id ` set done \<longleftrightarrow> r \<in> set done"
    and "get_run st' (run_id r) = Some (if r \<in> set done then repaired_run (stale_error svc) now r else r)"
proof -
  let ?r = "if r \<in> set done then repaired_run (stale_error svc) now r else r"
  have "x = r" if "x \<in> set done" "run_id x = run_id r" for x
    using that assms(1,2,5) by (auto simp: distinct_map dest: inj_onD)
  then show member: "run_id r \<in> run_id ` set done \<longleftrightarrow> r \<in> set done" by force
  have "?r \<in> set (rs_runs st')" using assms(5) member by (auto simp: assms(3) repaired_rows_def image_iff)
  moreover have "distinct (map run_id (rs_runs st'))" using assms(4) by (simp add: store_wf_def)
  ultimately show "get_run st' (run_id r) = Some ?r"
    using get_run_member [of st' ?r] by (simp split: if_splits)
qed

lemma scan_again:
  assumes "0 < timeout" and "store_wf u"
    and "ListStaleRunningRuns (now - timeout) u = dropWhile (follows_protocol st) due"
    and "\<And>r. r \<in> set due \<Longrightarrow> \<not> follows_protocol st r \<Longrightarrow>
       stale (now - timeout) r \<and> run_log u (run_id r) = run_log st (run_id r)"
  shows "MarkStaleRunningRuns svc ids now timeout u = (0, scan_error st due, u)"
proof (cases "dropWhile (follows_protocol st) due")
  case Nil
  show ?thesis unfolding MarkStaleRunningRuns_def scan_error_def Let_def assms(3) Nil using assms(1) by simp
next
  case (Cons r rs)
  have r: "\<not> follows_protocol st r" "r \<in> set due"
    using Cons hd_dropWhile [of "follows_protocol st" due] set_dropWhileD [of r "follows_protocol st" due] by simp_all
  then obtain v where v: "scanLifecycle (run_log st (run_id r)) = Inl v"
    by (cases "scanLifecycle (run_log st (run_id r))") (auto simp: follows_protocol_def)
  have "numbered (run_log u (run_id r))" using assms(2) by (simp add: store_wf_def)
  then have "plan_request r (ListRunEvents u (run_id r)) (now - timeout) = Inl (Protocol v)"
    using assms(4) [OF r(2,1)] v by (simp add: ListRunEvents_numbered plan_request_def PlanInterruptedLifecycleRepair_def)
  moreover have "\<not> (case run_heartbeat_at r of None \<Rightarrow> False | Some t \<Rightarrow> \<not> t < now - timeout)"
    using assms(4) [OF r(2,1)] by (auto simp: stale_def split: option.splits)
  ultimately show ?thesis
    using assms(1,3) Cons v by (simp add: MarkStaleRunningRuns_def scan_error_def)
qed

section \<open>What a repair leaves alone\<close>

lemma prepare_terminals_run:
  "prepare_terminals svc ids now rid n c es = Inr ps \<Longrightarrow> \<forall>p \<in> set ps. ev_run_id p = rid"
  by (induction es arbitrary: n c ps) (auto simp: bind_result_Inr dest!: PrepareRunEvent_Inr)

lemma RepairInterruptedRun_not_applied:
  "RepairInterruptedRun svc ids now req st = Inr (res, st') \<Longrightarrow> \<not> rr_applied res \<Longrightarrow>
     st' = st \<and> rr_appended res = []"
  by (auto simp: RepairInterruptedRun_def Let_def bind_result_Inr split: option.splits if_splits)

lemma not_refused_stale: "\<not> repair_refused req r \<longleftrightarrow>
    run_status r = rq_expected_status req \<and> stale (rq_stale_before req) r"
  by (auto simp: repair_refused_def stale_def split: option.splits)

lemma RepairInterruptedRun_other:
  assumes "RepairInterruptedRun svc ids now req st = Inr (res, st')"
    and "get_run st i = Some r" and "i \<noteq> rq_run_id req \<or> \<not> stale (rq_stale_before req) r"
  shows "get_run st' i = Some r \<and> run_log st' i = run_log st i"
proof (cases "rr_applied res")
  case True
  obtain x u where x: "get_run st (rq_run_id req) = Some x" "\<not> repair_refused req x"
    and ps: "prepare_terminals svc ids now (rq_run_id req) 0 (rq_expected_cursor req) (rq_terminals req) =
       Inr (rr_appended res)"
    and u: "insert_events (rr_appended res) st = Inr u"
    and run: "rr_run res = repaired_run (redact_text svc (trim_space (rq_error req))) now x"
    and st': "st' = put_run (rr_run res)
       (suspend_effects (rq_run_id req) (redact_text svc (trim_space (rq_error req))) now
         (fail_steps (rq_run_id req) (redact_text svc (trim_space (rq_error req))) now u))"
    using RepairInterruptedRun_applied [OF assms(1) True] by metis
  have i: "i \<noteq> rq_run_id req" using x assms(2,3) by (auto simp: not_refused_stale)
  have "run_id (rr_run res) = rq_run_id req" using get_run_Some [OF x(1)] run by (simp add: repaired_run_def)
  then have "get_run st' i = get_run st i"
    using i st' insert_events_fields [OF u]
      get_run_cong [of "suspend_effects (rq_run_id req) (redact_text svc (trim_space (rq_error req))) now
         (fail_steps (rq_run_id req) (redact_text svc (trim_space (rq_error req))) now u)" st]
    by (simp add: get_put_run)
  moreover have "run_log st' i = run_log st i"
    using i st' insert_events_fields [OF u] prepare_terminals_run [OF ps]
    by (auto simp: run_log_def filter_empty_conv)
  ultimately show ?thesis using assms(2) by simp
next
  case False
  then show ?thesis using RepairInterruptedRun_not_applied [OF assms(1)] assms(2) by simp
qed

lemma plan_request_fields:
  "plan_request r events cutoff = Inr req \<Longrightarrow>
     rq_run_id req = run_id r \<and> rq_expected_status req = run_status r \<and> rq_stale_before req = cutoff
     \<and> rq_expected_cursor req = int (length events) \<and> (\<exists>s. scanLifecycle events = Inr s)"
  by (auto simp: plan_request_def bind_result_Inr PlanInterruptedLifecycleRepair_def
      scan_last_sequence split: sum.splits)

lemma repairRuns_other:
  assumes "repairRuns svc ids now cutoff rs st = (n, e, st')"
    and "get_run st i = Some r" and "i \<notin> run_id ` set rs \<or> \<not> stale cutoff r"
  shows "get_run st' i = Some r \<and> run_log st' i = run_log st i"
  using assms
proof (induction rs arbitrary: st n e st')
  case (Cons x rs)
  show ?case
  proof (cases "case run_heartbeat_at x of None \<Rightarrow> False | Some t \<Rightarrow> \<not> t < cutoff")
    case True
    then show ?thesis using Cons.prems by (intro Cons.IH [of st n e st']) auto
  next
    case False
    note step = False
    show ?thesis
    proof (cases "plan_request x (ListRunEvents st (run_id x)) cutoff")
      case (Inr req)
      note fields = plan_request_fields [OF Inr]
      show ?thesis
      proof (cases "RepairInterruptedRun svc (ids (run_id x)) now req st")
        case (Inl err)
        then show ?thesis using Cons.prems Inr step by auto
      next
        case rep: (Inr p)
        obtain res u where p: "p = (res, u)" by (cases p)
        have u: "get_run u i = Some r \<and> run_log u i = run_log st i"
          using RepairInterruptedRun_other [OF rep [unfolded p] Cons.prems(2)] Cons.prems(3) fields
          by auto
        have rest: "get_run v i = Some r \<and> run_log v i = run_log st i"
          if "repairRuns svc ids now cutoff rs u = (m, err, v)" for m err v
          using Cons.IH [OF that] u Cons.prems(3) by auto
        show ?thesis
          using Cons.prems(1) Inr rep p u rest step
          by (auto split: if_splits option.splits prod.splits)
      qed
    qed (use Cons.prems step in auto)
  qed
qed simp

section \<open>Example: a worker that died inside a tool call\<close>

definition crashed_run :: run where
  "crashed_run = example_run\<lparr>run_status := RunRunning, run_started_at := Some 2,
     run_execution_started_at := Some 2, run_heartbeat_at := Some 2\<rparr>"

definition crashed_events :: "run_event list" where
  "crashed_events = map (\<lambda>(n, t). example_event t n ''call''\<lparr>ev_id := replicate (nat n) CHR ''s''\<rparr>)
       [(1, EventRunCreated), (2, EventRunStarted), (3, EventTurnStarted), (4, EventToolStarted)]"

definition crashed_store :: run_store where
  "crashed_store = empty_store\<lparr>rs_runs := [crashed_run], rs_events := crashed_events\<rparr>"

definition example_effect :: tool_effect where
  "example_effect = \<lparr>eff_key = ''key'', eff_version = 1, eff_run_id = ''run'', eff_stage_id = [],
     eff_turn_id = ''turn'', eff_tool_call_id = ''call'', eff_tool_name = ''file_write'',
     eff_revision = [], eff_request_hash = ''hash'', eff_status = ToolEffectExecuting,
     eff_result = [], eff_error = [], eff_created_at = 1, eff_updated_at = 1\<rparr>"

definition crash_ids :: "string \<Rightarrow> nat \<Rightarrow> string" where
  "crash_ids r n = replicate n CHR ''t'' @ CHR ''u'' # r"

lemma crashed_log:
  "run_log crashed_store ''run'' = crashed_events"
  by (simp add: run_log_def crashed_store_def crashed_events_def example_event_def)

lemma crashed_log_other: "i \<noteq> ''run'' \<Longrightarrow> run_log crashed_store i = []"
  by (simp add: run_log_def crashed_store_def crashed_events_def example_event_def)

lemma trim_examples [simp]: "trim_space ''run'' = ''run''" "trim_space ''turn'' = ''turn''"
  by code_simp+

lemma crashed_store_wf: "store_wf crashed_store"
proof -
  have "numbered (run_log crashed_store i)" for i
    by (cases "i = ''run''")
      (auto simp: crashed_log crashed_log_other numbered_def crashed_events_def example_event_def
        nth_Cons split: nat.splits)
  moreover have "\<forall>e \<in> set (rs_events crashed_store). get_run crashed_store (ev_run_id e) \<noteq> None \<and> scoped e"
    by (simp add: crashed_store_def crashed_events_def example_event_def get_run_def crashed_run_def example_run_def
        scoped_def scope_satisfied_def registered_def scope_optional_def scope_turn_def
        CurrentRunEventSchemaVersion_def)
  ultimately show ?thesis
    by (simp add: store_wf_def)
      (simp add: crashed_store_def empty_store_def crashed_run_def example_run_def run_wf_def
        knownRunStatus_def completionSource_def settled_def crashed_events_def example_event_def
        eval_nat_numeral)
qed

lemma crashed_scan: "\<exists>s. scanLifecycle (run_log crashed_store ''run'') = Inr s"
  by (simp add: crashed_log crashed_events_def scanLifecycle_def example_event_def zero_event_def
      scan_event_def validateRegisteredEvent_def scan_type_def open_scope_def empty_lifecycle_def
      registered_def CurrentRunEventSchemaVersion_def toolCallID_def payload_string_def)

lemma crash_ids_inj: "inj (case_prod crash_ids)"
proof -
  have u: "takeWhile (\<lambda>c. c = CHR ''t'') (crash_ids r n) = replicate n CHR ''t''" for r n
    by (simp add: crash_ids_def takeWhile_append)
  have "crash_ids r n = crash_ids r' n' \<Longrightarrow> r = r' \<and> n = n'" for r r' n n'
    using u [of r n] u [of r' n'] by (auto simp: crash_ids_def)
  then show ?thesis by (auto simp: inj_def)
qed

lemma crash_ids_fresh: "crash_ids r n \<notin> ev_id ` set (rs_events crashed_store)"
proof -
  have "CHR ''u'' \<in> set (crash_ids r n)" by (simp add: crash_ids_def)
  moreover have "CHR ''u'' \<notin> set i" if "i \<in> ev_id ` set (rs_events crashed_store)" for i
    using that by (auto simp: crashed_store_def crashed_events_def example_event_def)
  ultimately show ?thesis by blast
qed

lemma example_keeps: "keeps_call_id example_services e"
  by (simp add: keeps_call_id_def example_services_def)

section \<open>Properties\<close>

text \<open>
  C5: Cold-start recovery goes through the stale Runs in the order of their creation. As long as the
  log of a Run follows the protocol, the Run is repaired: its log is then a complete stream and it
  is recoverable or canceled. The first log that breaks the protocol ends the scan with an error,
  and then the Runs from there on are left as they are. So without such a log every stale Run
  is repaired, no error is returned, and none is stale afterwards. Runs that are not stale are left
  alone. A second scan repairs nothing and answers the same error, if there was one; and
  \<open>PrepareColdStart\<close>, which lists more Runs, does the same repairs. It is assumed that redaction,
  which was applied to every stored event, does not take the tool call identifiers of the stale
  logs for credentials, that no stale Run has a blank identifier, and that new identifiers are fresh.
\<close>

theorem MarkStaleRunningRuns_complete:
  fixes st :: run_store and now :: time and timeout :: int
  defines "due \<equiv> ListStaleRunningRuns (now - timeout) st"
  defines "done \<equiv> takeWhile (follows_protocol st) due"
  assumes "store_wf st" and "0 < timeout"
    and "inj (case_prod ids)" and "\<And>i n. ids i n \<notin> ev_id ` set (rs_events st)"
    and "\<And>r e. r \<in> set due \<Longrightarrow> e \<in> set (run_log st (run_id r)) \<Longrightarrow> keeps_call_id svc e"
    and "\<And>r. r \<in> set due \<Longrightarrow> trim_space (run_id r) \<noteq> []"
  shows "\<exists>st'. MarkStaleRunningRuns svc ids now timeout st = (length done, scan_error st due, st')
    \<and> store_wf st' \<and> (scan_error st due = None \<longleftrightarrow> done = due)
    \<and> ListStaleRunningRuns (now - timeout) st' = drop (length done) due
    \<and> (\<forall>r \<in> set (rs_runs st).
         if r \<in> set done
         then get_run st' (run_id r) = Some (repaired_run (stale_error svc) now r)
            \<and> ValidateLifecycle (run_log st' (run_id r)) = None
         else get_run st' (run_id r) = Some r \<and> run_log st' (run_id r) = run_log st (run_id r))
    \<and> MarkStaleRunningRuns svc ids' now timeout st' = (0, scan_error st due, st')
    \<and> PrepareColdStart svc ids now timeout st = (case scan_error st due of
         Some e \<Rightarrow> Inl e
       | None \<Rightarrow> Inr (Some \<lparr>cs_cutoff = now, cs_due = now + timeout,
           cs_ids = map run_id (ListStaleRunningRuns now st)\<rparr>), st')"
proof -
  let ?cutoff = "now - timeout"
  have dist: "distinct (map run_id (rs_runs st))" using assms(3) by (simp add: store_wf_def)
  have due: "distinct (map run_id due)" unfolding due_def by (rule ListStaleRunningRuns_distinct [OF dist])
  have "repairable svc ids ?cutoff due st"
    using assms(5-8) due get_run_member [OF dist]
    by (auto simp: repairable_def due_def ListStaleRunningRuns_set)
  then obtain st' where st': "repairRuns svc ids now ?cutoff due st = (length done, scan_error st due, st')" "store_wf st'"
    "rs_runs st' = repaired_rows svc now done (rs_runs st)"
    "\<forall>r \<in> set done. ValidateLifecycle (run_log st' (run_id r)) = None"
    "\<forall>i. i \<notin> run_id ` set done \<longrightarrow> run_log st' i = run_log st i"
    using repairRuns_result [OF assms(3)] unfolding done_def by blast
  have dropped: "drop (length done) due = dropWhile (follows_protocol st) due"
    unfolding done_def by (rule dropWhile_eq_drop [symmetric])
  have rest: "ListStaleRunningRuns ?cutoff st' = drop (length done) due"
    using stale_after_repair [OF st'(3), of ?cutoff] filter_takeWhile_dropWhile [OF due, of "follows_protocol st"]
    by (simp only: dropped done_def [symmetric] due_def [symmetric])
  have "set done \<subseteq> set (rs_runs st)"
    by (auto simp: done_def due_def ListStaleRunningRuns_set dest!: set_takeWhileD)
  note row = repaired_row [OF dist this st'(3,2)]
  have kept: "stale ?cutoff r \<and> run_log st' (run_id r) = run_log st (run_id r)"
    if "r \<in> set due" "\<not> follows_protocol st r" for r
  proof -
    have "r \<in> set (rs_runs st)" "stale ?cutoff r" "r \<notin> set done"
      using that by (auto simp: due_def done_def ListStaleRunningRuns_set dest: set_takeWhileD)
    then show ?thesis using row(1) [of r] st'(5) by simp
  qed
  have again: "MarkStaleRunningRuns svc ids' now timeout st' = (0, scan_error st due, st')"
    by (rule scan_again [OF assms(4) st'(2) rest [unfolded dropped] kept])
  have "repairRuns svc ids now ?cutoff (ListStaleRunningRuns now st) st = (length done, scan_error st due, st')"
    using repairRuns_due [of "ListStaleRunningRuns now st"] stale_at_start [OF assms(4)] st'(1)
    by (simp add: ListStaleRunningRuns_set stale_def due_def)
  then have cold: "PrepareColdStart svc ids now timeout st = (case scan_error st due of
         Some e \<Rightarrow> Inl e
       | None \<Rightarrow> Inr (Some \<lparr>cs_cutoff = now, cs_due = now + timeout,
           cs_ids = map run_id (ListStaleRunningRuns now st)\<rparr>), st')"
    using assms(4) by (simp add: PrepareColdStart_def Let_def split: option.split)
  have error: "scan_error st due = None \<longleftrightarrow> done = due" by (simp only: scan_error_None done_def)
  show ?thesis
    by (rule exI [of _ st']) (use st'(1,2,4,5) assms(4) rest error row again cold
      in \<open>simp add: MarkStaleRunningRuns_def due_def\<close>)
qed

theorem MarkStaleRunningRuns_complete_witness:
  "\<exists>st'. MarkStaleRunningRuns example_services crash_ids 100 50 crashed_store = (1, None, st')
     \<and> ValidateLifecycle (run_log st' ''run'') = None
     \<and> map_option run_status (get_run st' ''run'') = Some RunFailedRecoverable"
proof -
  have runs: "rs_runs crashed_store = [crashed_run]" "run_id crashed_run = ''run''" "stale 50 crashed_run"
    by (simp_all add: crashed_store_def crashed_run_def example_run_def stale_def)
  then have due: "ListStaleRunningRuns (100 - 50) crashed_store = [crashed_run]"
    by (simp add: ListStaleRunningRuns_def stale_def crashed_run_def example_run_def)
  have ok: "follows_protocol crashed_store crashed_run"
    using crashed_scan runs(2) by (simp add: follows_protocol_def)
  then have none: "scan_error crashed_store [crashed_run] = None" by (simp add: scan_error_def)
  have "run_status (repaired_run err 100 crashed_run) = RunFailedRecoverable" for err
    by (simp add: repaired_run_def crashed_run_def example_run_def)
  moreover have "trim_space (run_id r) \<noteq> []"
    if "r \<in> set (ListStaleRunningRuns (100 - 50) crashed_store)" for r
    using that due runs(2) by simp
  ultimately show ?thesis
    using MarkStaleRunningRuns_complete [OF crashed_store_wf _ crash_ids_inj crash_ids_fresh example_keeps,
        of 50 100 crash_ids] due ok none runs by fastforce
qed

text \<open>
  C6: Optimistic recovery: a repair planned from an earlier reading of the log is applied only when
  the log has not grown since and the Run is still in the planned status with a stale heartbeat;
  otherwise the store is unchanged.
\<close>

theorem RepairInterruptedRun_optimistic:
  assumes "store_wf st" and "plan_request r events cutoff = Inr req"
    and "prefix events (run_log st (run_id r))"
    and "RepairInterruptedRun svc ids now req st = Inr (res, st')"
  shows "if rr_applied res
    then run_log st (run_id r) = events
      \<and> (\<exists>x. get_run st (run_id r) = Some x \<and> run_status x = run_status r \<and> stale cutoff x)
    else st' = st"
proof (cases "rr_applied res")
  case True
  note fields = plan_request_fields [OF assms(2)]
  obtain x where x: "get_run st (rq_run_id req) = Some x" "\<not> repair_refused req x"
    "max_sequence st (rq_run_id req) = rq_expected_cursor req"
    using RepairInterruptedRun_applied [OF assms(4) True] by metis
  have "length (run_log st (run_id r)) = length events"
    using x(3) fields max_sequence_numbered [of st "run_id r"] assms(1) by (simp add: store_wf_def)
  then have "run_log st (run_id r) = events"
    using assms(3) by (metis append_eq_conv_conj prefix_def take_all order_refl)
  then show ?thesis using True x fields by (auto simp: not_refused_stale)
next
  case False
  then show ?thesis using RepairInterruptedRun_not_applied [OF assms(4)] by simp
qed

text \<open>
  C7: An applied repair settles the durable state around the Run, and nothing else. The Run is
  canceled if it was being canceled and recoverable otherwise, and its log is extended by the
  appended events. Each of its running stages has failed, and every tool effect of it that was
  executing now asks for reconciliation under a new version. All other stages and effects, those of
  other Runs among them, the rows and logs of other Runs and all checkpoints are as before.
\<close>

theorem RepairInterruptedRun_settles:
  assumes "RepairInterruptedRun svc ids now req st = Inr (res, st')" and "rr_applied res"
    and "get_run st (rq_run_id req) = Some r"
  shows "(\<exists>r'. get_run st' (rq_run_id req) = Some r' \<and> run_execution_started_at r' = None
      \<and> run_status r' = (if run_status r = RunCanceling then RunCanceled else RunFailedRecoverable))
    \<and> run_log st' (rq_run_id req) = run_log st (rq_run_id req) @ rr_appended res
    \<and> (\<forall>i. i \<noteq> rq_run_id req \<longrightarrow> get_run st' i = get_run st i \<and> run_log st' i = run_log st i)
    \<and> map run_id (rs_runs st') = map run_id (rs_runs st)
    \<and> length (rs_steps st') = length (rs_steps st)
    \<and> (\<forall>k < length (rs_steps st).
        let s = rs_steps st ! k; s' = rs_steps st' ! k
        in if step_run_id s = rq_run_id req \<and> step_status s = CollaborationStepRunning
           then step_status s' = CollaborationStepFailed
              \<and> step_id s' = step_id s \<and> step_run_id s' = step_run_id s
           else s' = s)
    \<and> length (rs_effects st') = length (rs_effects st)
    \<and> (\<forall>k < length (rs_effects st).
        let e = rs_effects st ! k; e' = rs_effects st' ! k
        in if eff_run_id e = rq_run_id req \<and> eff_status e = ToolEffectExecuting
           then eff_status e' = ToolEffectNeedsReconciliation \<and> eff_version e' = eff_version e + 1
              \<and> eff_key e' = eff_key e \<and> eff_result e' = eff_result e
           else e' = e)
    \<and> rs_checkpoints st' = rs_checkpoints st"
proof -
  let ?err = "redact_text svc (trim_space (rq_error req))" and ?i = "rq_run_id req"
  obtain u where ps: "prepare_terminals svc ids now ?i 0 (rq_expected_cursor req) (rq_terminals req) =
       Inr (rr_appended res)"
    and u: "insert_events (rr_appended res) st = Inr u"
    and run: "rr_run res = repaired_run ?err now r"
    and st': "st' = put_run (rr_run res) (suspend_effects ?i ?err now (fail_steps ?i ?err now u))"
    using RepairInterruptedRun_applied [OF assms(1,2)] assms(3) by (metis option.inject)
  have u': "u = st\<lparr>rs_events := rs_events st @ rr_appended res\<rparr>" by (rule insert_events_fields [OF u])
  have rid: "run_id (rr_run res) = ?i" using get_run_Some [OF assms(3)] run by (simp add: repaired_run_def)
  have get: "get_run st' = (get_run st)(?i \<mapsto> rr_run res)"
    using assms(3) rid st' u'
      get_run_cong [of "suspend_effects ?i ?err now (fail_steps ?i ?err now u)" st]
    by (auto simp: get_put_run fun_eq_iff)
  have log: "run_log st' i = run_log st i @ (if i = ?i then rr_appended res else [])" for i
    using prepare_terminals_run [OF ps] by (auto simp: st' u' run_log_def filter_empty_conv filter_id_conv)
  have rows: "map run_id (rs_runs st') = map run_id (rs_runs st)"
    using rid by (auto simp: st' u' put_run_def update_rows_def suspend_effects_def fail_steps_def)
  have steps: "rs_steps st' = rs_steps (fail_steps ?i ?err now st)"
    and effects: "rs_effects st' = rs_effects (suspend_effects ?i ?err now st)"
    and checkpoints: "rs_checkpoints st' = rs_checkpoints st"
    by (simp_all add: st' u' suspend_effects_def fail_steps_def put_run_def)
  show ?thesis
    by (intro conjI)
      (use get log rows checkpoints in \<open>auto simp: run repaired_run_def steps effects fail_steps_def
         suspend_effects_def update_rows_def Let_def\<close>)
qed

theorem RepairInterruptedRun_optimistic_witness:
  "\<exists>req res st'. plan_request crashed_run (run_log crashed_store ''run'') 50 = Inr req
     \<and> RepairInterruptedRun example_services (crash_ids ''run'') 100 req crashed_store = Inr (res, st')
     \<and> rr_applied res
     \<and> (\<exists>x. get_run crashed_store ''run'' = Some x \<and> run_status x = RunRunning \<and> stale 50 x)"
proof -
  have r: "get_run crashed_store ''run'' = Some crashed_run" "stale 50 crashed_run" "run_id crashed_run = ''run''"
    by (simp_all add: get_run_def crashed_store_def crashed_run_def example_run_def stale_def)
  obtain s where s: "scanLifecycle (run_log crashed_store ''run'') = Inr s" using crashed_scan by blast
  have ids: "inj (crash_ids ''run'')" "range (crash_ids ''run'') \<inter> ev_id ` set (rs_events crashed_store) = {}"
    using crash_ids_inj crash_ids_fresh [of "''run''"] by (simp add: inj_def, blast)
  have trim: "trim_space ''run'' \<noteq> []" by simp
  have log: "ListRunEvents crashed_store ''run'' = run_log crashed_store ''run''"
    using crashed_store_wf by (simp add: store_wf_def ListRunEvents_numbered)
  obtain req res st' where p: "plan_request crashed_run (run_log crashed_store ''run'') 50 = Inr req"
    "RepairInterruptedRun example_services (crash_ids ''run'') 100 req crashed_store = Inr (res, st')"
    "rr_applied res"
    using repair_one [OF crashed_store_wf ballI [OF example_keeps] r(1,2) trim s ids, of 100] log by auto
  then show ?thesis
    using RepairInterruptedRun_optimistic [OF crashed_store_wf p(1) _ p(2)] r
    by (auto simp: crashed_run_def)
qed

theorem RepairInterruptedRun_settles_witness:
  "\<exists>req res st'. RepairInterruptedRun example_services (crash_ids ''run'') 100 req
       (crashed_store\<lparr>rs_effects := [example_effect]\<rparr>) = Inr (res, st')
     \<and> map eff_status (rs_effects st') = [ToolEffectNeedsReconciliation]
     \<and> map eff_version (rs_effects st') = [2]"
proof -
  let ?st = "crashed_store\<lparr>rs_effects := [example_effect]\<rparr>"
  have r: "get_run ?st ''run'' = Some crashed_run" "stale 50 crashed_run" "run_id crashed_run = ''run''"
    by (simp_all add: get_run_def crashed_store_def crashed_run_def example_run_def stale_def)
  have wf: "store_wf ?st" using crashed_store_wf by (subst store_wf_cong [of _ crashed_store]) simp_all
  obtain s where s: "scanLifecycle (run_log ?st ''run'') = Inr s" using crashed_scan by auto
  have ids: "inj (crash_ids ''run'')" "range (crash_ids ''run'') \<inter> ev_id ` set (rs_events ?st) = {}"
    using crash_ids_inj crash_ids_fresh [of "''run''"] by (simp add: inj_def, simp, blast)
  have trim: "trim_space ''run'' \<noteq> []" by simp
  obtain req res st' where p: "plan_request crashed_run (ListRunEvents ?st ''run'') 50 = Inr req"
    "RepairInterruptedRun example_services (crash_ids ''run'') 100 req ?st = Inr (res, st')" "rr_applied res"
    using repair_one [OF wf ballI [OF example_keeps] r(1,2) trim s ids, of 100] by auto
  have req: "rq_run_id req = ''run''" using plan_request_fields [OF p(1)] r(3) by simp
  obtain e' where "rs_effects st' = [e']" "eff_status e' = ToolEffectNeedsReconciliation" "eff_version e' = 2"
    using RepairInterruptedRun_settles [OF p(2,3), of crashed_run] r(1) req
    by (auto simp: example_effect_def length_Suc_conv)
  then show ?thesis using p by (intro exI [of _ req] exI [of _ res] exI [of _ st']) simp
qed

text \<open>
  The recheck that a cold start schedules only touches Runs of its start-up snapshot, and of
  these only Runs whose heartbeat is still older than start-up: a Run that has been resumed or
  renewed since, or was admitted later, keeps its row and its log.
\<close>

theorem recheck_scope:
  assumes "recheck svc ids now cs st = (e, st')" and "get_run st i = Some r"
    and "i \<notin> set (cs_ids cs) \<or> \<not> stale (cs_cutoff cs) r"
  shows "get_run st' i = Some r \<and> run_log st' i = run_log st i"
proof -
  have "get_run st' i = Some r \<and> run_log st' i = run_log st i"
    if "recheck_attempts svc ids now cs n st = (e, st')" "get_run st i = Some r" for n st
    using that
  proof (induction n arbitrary: st)
    case (Suc n)
    let ?pending = "filter (\<lambda>r. run_id r \<in> set (cs_ids cs)) (ListStaleRunningRuns (cs_cutoff cs) st)"
    obtain m err u where u: "repairRuns svc (ids n) now (cs_cutoff cs) ?pending st = (m, err, u)"
      by (cases "repairRuns svc (ids n) now (cs_cutoff cs) ?pending st") auto
    have "i \<notin> run_id ` set ?pending \<or> \<not> stale (cs_cutoff cs) r" using assms(3) by auto
    with repairRuns_other [OF u Suc.prems(2)] have same: "get_run u i = Some r \<and> run_log u i = run_log st i"
      by blast
    then show ?case using Suc u by (auto simp: Let_def split: option.splits if_splits)
  qed simp
  then show ?thesis using assms(1,2) by (simp add: recheck_def)
qed

theorem recheck_scope_witness:
  "\<exists>e st'. recheck example_services (\<lambda>_. crash_ids) 100 \<lparr>cs_cutoff = 2, cs_due = 60, cs_ids = [''run'']\<rparr>
       crashed_store = (e, st')
     \<and> get_run st' ''run'' = Some crashed_run"
proof -
  let ?cs = "\<lparr>cs_cutoff = 2, cs_due = 60, cs_ids = [''run'']\<rparr>"
  obtain e st' where r: "recheck example_services (\<lambda>_. crash_ids) 100 ?cs crashed_store = (e, st')"
    by (cases "recheck example_services (\<lambda>_. crash_ids) 100 ?cs crashed_store") auto
  have "get_run crashed_store ''run'' = Some crashed_run"
    by (simp add: get_run_def crashed_store_def crashed_run_def example_run_def)
  then show ?thesis
    using recheck_scope [OF r] r by (auto simp: stale_def crashed_run_def)
qed

end
