(* ===== verification/Budget_Ledger.thy ===== *)
theory Budget_Ledger
  imports Run_Store "HOL-Library.Multiset"
begin

text \<open>
  The usage ledger of a Run and its budget (\<open>internal/budget\<close>, \<open>domain/run_usage.go\<close>,
  \<open>store/postgres_traces.go\<close>): append-only usage entries, the totals derived from them, the
  hard limits checked before an entry is admitted, the pricing of tokens, and the tracker that
  reserves and settles model calls. Go's \<open>int\<close> arithmetic wraps, costs saturate. The iteration
  order of the reservations map is the parameter \<open>visit\<close>.
\<close>

section \<open>Entries and totals\<close>

datatype usage_purpose = UsagePurposePrimary | UsagePurposeRouter | UsagePurposeCompaction
  | UsagePurposeOther string

datatype usage_kind = UsageModelReservation | UsageModelSettlement | UsageToolExecution
  | UsageKindOther string

record usage_breakdown =
  bd_cached :: "int option"
  bd_reasoning :: "int option"
  bd_source :: string

record cost_details =
  cd_status :: string
  cd_reason :: string
  cd_pricing :: route_pricing
  cd_discount :: bool

record usage_entry =
  ue_id :: string
  ue_run_id :: string
  ue_operation_id :: string
  ue_stage_id :: string
  ue_turn_id :: string
  ue_kind :: usage_kind
  ue_purpose :: usage_purpose
  ue_model :: string
  ue_tool_name :: string
  ue_model_calls :: int
  ue_tool_calls :: int
  ue_prompt :: int
  ue_completion :: int
  ue_total :: int
  ue_cost :: int
  ue_estimated :: bool
  ue_breakdown :: "usage_breakdown option"
  ue_cost_details :: "cost_details option"
  ue_timestamp :: time

record usage_totals =
  ut_model_calls :: int
  ut_tool_calls :: int
  ut_prompt :: int
  ut_completion :: int
  ut_total :: int
  ut_cost :: int
  ut_open :: int
  ut_cost_unknown :: int

definition no_usage :: usage_totals where
  "no_usage = \<lparr>ut_model_calls = 0, ut_tool_calls = 0, ut_prompt = 0, ut_completion = 0,
     ut_total = 0, ut_cost = 0, ut_open = 0, ut_cost_unknown = 0\<rparr>"

record usage_ledger =
  ul_run_id :: string
  ul_budget :: run_budget
  ul_totals :: usage_totals
  ul_entries :: "usage_entry list"
  ul_updated_at :: "time option"

definition addCost :: "int \<Rightarrow> int \<Rightarrow> int" where
  "addCost left right = (if right > wrap64 (max_int64 - left) then max_int64 else wrap64 (left + right))"

definition cost_unknown :: "usage_entry \<Rightarrow> bool" where
  "cost_unknown e \<longleftrightarrow> ue_model_calls e > 0 \<and>
     (case ue_cost_details e of
        Some d \<Rightarrow> cd_status d = ''unknown''
      | None \<Rightarrow> ue_cost e = 0)"

definition addEntry :: "usage_entry \<Rightarrow> usage_totals \<Rightarrow> usage_totals" where
  "addEntry e t =
     t\<lparr>ut_model_calls := wrap64 (ut_model_calls t + ue_model_calls e),
       ut_tool_calls := wrap64 (ut_tool_calls t + ue_tool_calls e),
       ut_prompt := wrap64 (ut_prompt t + ue_prompt e),
       ut_completion := wrap64 (ut_completion t + ue_completion e),
       ut_total := wrap64 (ut_total t + ue_total e),
       ut_cost := addCost (ut_cost t) (ue_cost e),
       ut_cost_unknown := (if cost_unknown e then wrap64 (ut_cost_unknown t + 1) else ut_cost_unknown t)\<rparr>"

definition EntryTotals :: "usage_entry \<Rightarrow> usage_totals" where
  "EntryTotals e = addEntry e no_usage"

section \<open>Building the ledger\<close>

record ledger_scan =
  ls_reservations :: "(string \<times> usage_entry) list"
  ls_settlements :: "(string \<times> usage_entry) list"
  ls_totals :: usage_totals
  ls_updated :: "time option"

definition scan_entry :: "usage_entry \<Rightarrow> ledger_scan \<Rightarrow> ledger_scan" where
  "scan_entry e s =
     (let s = (case ue_kind e of
            UsageModelReservation \<Rightarrow>
              s\<lparr>ls_reservations := AList.update (ue_operation_id e) e (ls_reservations s)\<rparr>
          | UsageModelSettlement \<Rightarrow>
              s\<lparr>ls_settlements := AList.update (ue_operation_id e) e (ls_settlements s)\<rparr>
          | UsageToolExecution \<Rightarrow> s\<lparr>ls_totals := addEntry e (ls_totals s)\<rparr>
          | UsageKindOther k \<Rightarrow> s)
      in if (case ls_updated s of None \<Rightarrow> True | Some t \<Rightarrow> t < ue_timestamp e)
         then s\<lparr>ls_updated := Some (ue_timestamp e)\<rparr> else s)"

text \<open>The second loop: a settlement supersedes the estimate of its reservation.\<close>

definition settle_entry ::
  "(string \<times> usage_entry) list \<Rightarrow> string \<times> usage_entry \<Rightarrow> usage_totals \<Rightarrow> usage_totals" where
  "settle_entry settlements = (\<lambda>(operation, reservation) t.
     (case map_of settlements operation of
        Some settlement \<Rightarrow> addEntry settlement t
      | None \<Rightarrow>
          (let t = addEntry reservation t in t\<lparr>ut_open := wrap64 (ut_open t + 1)\<rparr>)))"

definition BuildLedger ::
  "((string \<times> usage_entry) list \<Rightarrow> (string \<times> usage_entry) list)
    \<Rightarrow> string \<Rightarrow> run_budget \<Rightarrow> usage_entry list \<Rightarrow> usage_ledger" where
  "BuildLedger visit rid limits entries =
     (let s = fold scan_entry entries
            \<lparr>ls_reservations = [], ls_settlements = [], ls_totals = no_usage, ls_updated = None\<rparr>
      in \<lparr>ul_run_id = rid, ul_budget = limits,
           ul_totals = fold (settle_entry (ls_settlements s)) (visit (ls_reservations s)) (ls_totals s),
           ul_entries = entries, ul_updated_at = ls_updated s\<rparr>)"

section \<open>Limits\<close>

datatype resource = ResourceModelCalls | ResourcePromptTokens | ResourceCompletionTokens
  | ResourceTotalTokens | ResourceToolCalls | ResourceRuntime | ResourceEstimatedCost

record exceeded =
  ex_resource :: resource
  ex_limit :: int
  ex_used :: int
  ex_requested :: int
  ex_operation_id :: string
  ex_purpose :: usage_purpose

definition budget_checks ::
  "run_budget \<Rightarrow> usage_totals \<Rightarrow> usage_totals \<Rightarrow> (resource \<times> int \<times> int \<times> int) list" where
  "budget_checks limits current requested =
     [(ResourceModelCalls, MaxModelCalls limits, ut_model_calls current, ut_model_calls requested),
      (ResourcePromptTokens, MaxPromptTokens limits, ut_prompt current, ut_prompt requested),
      (ResourceCompletionTokens, MaxCompletionTokens limits, ut_completion current, ut_completion requested),
      (ResourceTotalTokens, MaxTotalTokens limits, ut_total current, ut_total requested),
      (ResourceToolCalls, MaxToolCalls limits, ut_tool_calls current, ut_tool_calls requested),
      (ResourceEstimatedCost, MaxEstimatedCostMicros limits, ut_cost current, ut_cost requested)]"

definition check_fails :: "resource \<times> int \<times> int \<times> int \<Rightarrow> bool" where
  "check_fails = (\<lambda>(_, limit, used, request).
     limit > 0 \<and> (used > limit \<or> request > wrap64 (limit - used)))"

definition Check ::
  "run_budget \<Rightarrow> usage_totals \<Rightarrow> usage_totals \<Rightarrow> string \<Rightarrow> usage_purpose \<Rightarrow> exceeded option" where
  "Check limits current requested operation purpose =
     map_option (\<lambda>(resource, limit, used, request).
         \<lparr>ex_resource = resource, ex_limit = limit, ex_used = used, ex_requested = request,
          ex_operation_id = operation, ex_purpose = purpose\<rparr>)
       (find check_fails (budget_checks limits current requested))"

definition CheckTotals ::
  "run_budget \<Rightarrow> usage_totals \<Rightarrow> string \<Rightarrow> usage_purpose \<Rightarrow> exceeded option" where
  "CheckTotals limits totals = Check limits no_usage totals"

definition tokenCostMicros :: "int \<Rightarrow> int \<Rightarrow> int" where
  "tokenCostMicros tokens perMillion =
     (if tokens \<le> 0 \<or> perMillion \<le> 0 then 0
      else (let value = quo (tokens * perMillion + 999999) 1000000
            in if is_int64 value then value else max_int64))"

text \<open>
  \<open>maxCompletionTokens\<close>: each of the three limits tightens the bound; the result is zero when
  there is none.
\<close>

definition completion_limit :: "run_budget \<Rightarrow> usage_totals \<Rightarrow> usage_entry \<Rightarrow> int option" where
  "completion_limit limits totals r =
     (if MaxCompletionTokens limits > 0
      then Some (wrap64 (MaxCompletionTokens limits - wrap64 (ut_completion totals - ue_completion r)))
      else None)"

definition total_limit :: "run_budget \<Rightarrow> usage_totals \<Rightarrow> usage_entry \<Rightarrow> int option" where
  "total_limit limits totals r =
     (if MaxTotalTokens limits > 0
      then Some (wrap64 (wrap64 (MaxTotalTokens limits - wrap64 (ut_total totals - ue_total r)) - ue_prompt r))
      else None)"

definition cost_limit :: "run_budget \<Rightarrow> usage_totals \<Rightarrow> usage_entry \<Rightarrow> int option" where
  "cost_limit limits totals r =
     (if MaxEstimatedCostMicros limits > 0 \<and> OutputCostPerMillionTokensMicros limits > 0
      then
        (let baseCost = addCost (wrap64 (ut_cost totals - ue_cost r))
               (tokenCostMicros (ue_prompt r) (InputCostPerMillionTokensMicros limits));
             remaining = max 0 (wrap64 (MaxEstimatedCostMicros limits - baseCost));
             value = quo (remaining * 1000000) (OutputCostPerMillionTokensMicros limits)
         in Some (if is_int64 value then value else max_int64))
      else None)"

definition tighten :: "int option \<Rightarrow> int \<Rightarrow> int" where
  "tighten limit m = (case limit of None \<Rightarrow> m | Some x \<Rightarrow> min m x)"

definition maxCompletionTokens :: "run_budget \<Rightarrow> usage_totals \<Rightarrow> usage_entry \<Rightarrow> int" where
  "maxCompletionTokens limits totals r =
     (let c = completion_limit limits totals r; t = total_limit limits totals r;
          k = cost_limit limits totals r
      in if c = None \<and> t = None \<and> k = None then 0
         else max 1 (tighten k (tighten t (tighten c max_int64))))"

section \<open>Pricing\<close>

definition usageCost ::
  "route_pricing \<Rightarrow> int \<Rightarrow> int \<Rightarrow> usage_breakdown option \<Rightarrow> bool \<Rightarrow> int \<times> cost_details" where
  "usageCost price prompt completion breakdown estimated =
     (if InputPerMillionTokensMicros price = 0 \<and> OutputPerMillionTokensMicros price = 0
         \<and> CachedInputPerMillionTokensMicros price = None
      then (0, \<lparr>cd_status = ''unknown'', cd_reason = ''pricing_unknown'', cd_pricing = price, cd_discount = False\<rparr>)
      else
        (let (cached, reason) =
               (if estimated then (0, ''estimated_usage'')
                else (case Option.bind breakdown bd_cached of
                        None \<Rightarrow> (0, ''cache_usage_unknown'')
                      | Some c \<Rightarrow>
                          if CachedInputPerMillionTokensMicros price = None then (0, ''cache_price_unknown'')
                          else (c, ''provider_usage'')));
             cost = addCost (tokenCostMicros (wrap64 (prompt - cached)) (InputPerMillionTokensMicros price))
                      (tokenCostMicros completion (OutputPerMillionTokensMicros price));
             cost = (if cached > 0
                     then addCost cost (tokenCostMicros cached
                            (case CachedInputPerMillionTokensMicros price of Some c \<Rightarrow> c | None \<Rightarrow> 0))
                     else cost)
         in (cost, \<lparr>cd_status = ''estimated'', cd_reason = reason, cd_pricing = price,
                    cd_discount = cached > 0\<rparr>)))"

definition globalPricing :: "run_budget \<Rightarrow> route_pricing" where
  "globalPricing limits = \<lparr>pricing_source = ''run_budget'',
     InputPerMillionTokensMicros = InputCostPerMillionTokensMicros limits,
     OutputPerMillionTokensMicros = OutputCostPerMillionTokensMicros limits,
     CachedInputPerMillionTokensMicros = None\<rparr>"

definition pricedLimits :: "run_budget \<Rightarrow> route_pricing \<Rightarrow> run_budget" where
  "pricedLimits limits price =
     limits\<lparr>InputCostPerMillionTokensMicros := InputPerMillionTokensMicros price,
       OutputCostPerMillionTokensMicros := OutputPerMillionTokensMicros price\<rparr>"

datatype pricing_error = ModelMismatch | RouteAbsent

definition route_rates :: "run_budget \<Rightarrow> route_pricing \<Rightarrow> route_pricing" where
  "route_rates limits p =
     (if InputPerMillionTokensMicros p > 0 \<or> OutputPerMillionTokensMicros p > 0
         \<or> CachedInputPerMillionTokensMicros p \<noteq> None
      then p else globalPricing limits)"

definition modelPricing ::
  "run \<Rightarrow> run_budget \<Rightarrow> string \<Rightarrow> string \<Rightarrow> pricing_error + route_pricing" where
  "modelPricing r limits route model =
     (if route \<noteq> [] then
        (case run_snapshot r of
           None \<Rightarrow> Inl RouteAbsent
         | Some snap \<Rightarrow>
             (case find (\<lambda>x. route_id x = route) (snap_routes snap) of
                None \<Rightarrow> Inl RouteAbsent
              | Some x \<Rightarrow>
                  if route_model x \<noteq> trim_space model then Inl ModelMismatch
                  else Inr (route_rates limits (model_route.route_pricing x))))
      else Inr (globalPricing limits))"

section \<open>The usage table\<close>

datatype usage_error =
    InvalidBreakdown string
  | InvalidEntry string
  | RunMissing
  | UsageConflict
  | ReservationMissing
  | UsageDuplicateKey
  | BudgetExceeded exceeded
  | PricingFailed pricing_error

definition breakdown_error :: "usage_breakdown option \<Rightarrow> int \<Rightarrow> int \<Rightarrow> string option" where
  "breakdown_error b prompt completion =
     (case b of
        None \<Rightarrow> None
      | Some b \<Rightarrow>
          if bd_source b = ''invalid_details'' \<and> bd_cached b = None \<and> bd_reasoning b = None then None
          else if bd_source b \<noteq> ''openai_details'' \<and> bd_source b \<noteq> ''deepseek_cache''
          then Some ''invalid usage breakdown source''
          else if (case bd_cached b of None \<Rightarrow> False | Some c \<Rightarrow> c < 0 \<or> c > prompt)
          then Some ''cached input exceeds prompt usage''
          else if (case bd_reasoning b of None \<Rightarrow> False | Some c \<Rightarrow> c < 0 \<or> c > completion)
          then Some ''reasoning exceeds completion usage''
          else None)"

definition ValidateUsageEntry :: "usage_entry \<Rightarrow> usage_error option" where
  "ValidateUsageEntry e =
     (case breakdown_error (ue_breakdown e) (ue_prompt e) (ue_completion e) of
        Some m \<Rightarrow> Some (InvalidBreakdown m)
      | None \<Rightarrow>
          if trim_space (ue_id e) = [] \<or> trim_space (ue_run_id e) = [] \<or> trim_space (ue_operation_id e) = []
          then Some (InvalidEntry ''run usage requires id, run_id, and operation_id'')
          else if ue_purpose e \<noteq> UsagePurposePrimary \<and> ue_purpose e \<noteq> UsagePurposeRouter
               \<and> ue_purpose e \<noteq> UsagePurposeCompaction
          then Some (InvalidEntry ''run usage purpose is invalid'')
          else if ue_model_calls e < 0 \<or> ue_tool_calls e < 0 \<or> ue_prompt e < 0 \<or> ue_completion e < 0
               \<or> ue_total e < 0 \<or> ue_cost e < 0
          then Some (InvalidEntry ''run usage values cannot be negative'')
          else if (ue_kind e = UsageModelReservation \<or> ue_kind e = UsageModelSettlement)
               \<and> (ue_model_calls e \<noteq> 1 \<or> ue_tool_calls e \<noteq> 0
                  \<or> ue_total e < wrap64 (ue_prompt e + ue_completion e))
          then Some (InvalidEntry ''model usage entry has invalid counters'')
          else if ue_kind e = UsageToolExecution
               \<and> (ue_tool_calls e \<noteq> 1 \<or> ue_model_calls e \<noteq> 0 \<or> ue_prompt e \<noteq> 0
                  \<or> ue_completion e \<noteq> 0 \<or> ue_total e \<noteq> 0 \<or> ue_cost e \<noteq> 0)
          then Some (InvalidEntry ''tool usage entry has invalid counters'')
          else if (case ue_kind e of UsageKindOther k \<Rightarrow> True | _ \<Rightarrow> False)
          then Some (InvalidEntry ''run usage kind is invalid'')
          else if ue_timestamp e = 0 then Some (InvalidEntry ''run usage timestamp is required'')
          else None)"

definition HasUsageReservation :: "usage_entry list \<Rightarrow> string \<Rightarrow> bool" where
  "HasUsageReservation entries operation =
     list_ex (\<lambda>e. ue_operation_id e = operation \<and> ue_kind e = UsageModelReservation) entries"

text \<open>Equality up to the identifier and the time of recording.\<close>

definition SameUsageEntry :: "usage_entry \<Rightarrow> usage_entry \<Rightarrow> bool" where
  "SameUsageEntry a b \<longleftrightarrow>
     a\<lparr>ue_id := [], ue_timestamp := 0\<rparr> = b\<lparr>ue_id := [], ue_timestamp := 0\<rparr>"

definition RunBudget :: "run \<Rightarrow> run_budget" where
  "RunBudget r =
     (case run_snapshot r of
        None \<Rightarrow> no_budget
      | Some s \<Rightarrow> (case snap_run_budget s of None \<Rightarrow> no_budget | Some b \<Rightarrow> b))"

text \<open>\<open>SELECT ... WHERE run_id = $1 ORDER BY timestamp, id\<close>\<close>

definition listRunUsageEntries :: "usage_entry list \<Rightarrow> string \<Rightarrow> usage_entry list" where
  "listRunUsageEntries table rid =
     sort_key ue_timestamp (sort_key ue_id (filter (\<lambda>e. ue_run_id e = rid) table))"

definition same_operation :: "usage_entry \<Rightarrow> usage_entry \<Rightarrow> bool" where
  "same_operation e x \<longleftrightarrow> ue_operation_id x = ue_operation_id e \<and> ue_kind x = ue_kind e"

text \<open>\<open>ApplyRunUsage\<close> returns the ledger, whether the entry was recorded, and an error, which may
  accompany a recorded settlement.\<close>

record usage_reply =
  ur_ledger :: "usage_ledger option"
  ur_applied :: bool
  ur_error :: "usage_error option"

definition refused :: "usage_error \<Rightarrow> usage_reply" where
  "refused e = \<lparr>ur_ledger = None, ur_applied = False, ur_error = Some e\<rparr>"

definition ApplyRunUsage ::
  "((string \<times> usage_entry) list \<Rightarrow> (string \<times> usage_entry) list) \<Rightarrow> (string \<rightharpoonup> run)
    \<Rightarrow> usage_entry \<Rightarrow> usage_entry list \<Rightarrow> usage_reply \<times> usage_entry list" where
  "ApplyRunUsage visit runs e table =
     (case ValidateUsageEntry e of
        Some err \<Rightarrow> (refused err, table)
      | None \<Rightarrow>
     (case runs (ue_run_id e) of
        None \<Rightarrow> (refused RunMissing, table)
      | Some r \<Rightarrow>
          (let entries = listRunUsageEntries table (ue_run_id e);
               limits = RunBudget r;
               current = BuildLedger visit (ue_run_id e) limits entries
           in case find (same_operation e) entries of
                Some existing \<Rightarrow>
                  (\<lparr>ur_ledger = Some current, ur_applied = False,
                    ur_error = (if SameUsageEntry existing e then None else Some UsageConflict)\<rparr>, table)
              | None \<Rightarrow>
                  if ue_kind e = UsageModelSettlement \<and> \<not> HasUsageReservation entries (ue_operation_id e)
                  then (\<lparr>ur_ledger = Some current, ur_applied = False, ur_error = Some ReservationMissing\<rparr>, table)
                  else
                    (case (if ue_kind e \<noteq> UsageModelSettlement
                           then Check limits (ul_totals current) (EntryTotals e) (ue_operation_id e) (ue_purpose e)
                           else None) of
                       Some x \<Rightarrow>
                         (\<lparr>ur_ledger = Some current, ur_applied = False, ur_error = Some (BudgetExceeded x)\<rparr>, table)
                     | None \<Rightarrow>
                         if ue_id e \<in> ue_id ` set table then (refused UsageDuplicateKey, table)
                         else
                           (let ledger = BuildLedger visit (ue_run_id e) limits (entries @ [e])
                            in (\<lparr>ur_ledger = Some ledger, ur_applied = True,
                                 ur_error =
                                   (if ue_kind e = UsageModelSettlement
                                    then map_option BudgetExceeded
                                      (CheckTotals limits (ul_totals ledger) (ue_operation_id e) (ue_purpose e))
                                    else None)\<rparr>, table @ [e]))))))"

definition GetRunUsageLedger ::
  "((string \<times> usage_entry) list \<Rightarrow> (string \<times> usage_entry) list) \<Rightarrow> (string \<rightharpoonup> run)
    \<Rightarrow> string \<Rightarrow> usage_entry list \<Rightarrow> usage_ledger option" where
  "GetRunUsageLedger visit runs rid table =
     map_option (\<lambda>r. BuildLedger visit rid (RunBudget r) (listRunUsageEntries table rid)) (runs rid)"

section \<open>Runtime invariants of a ledger\<close>

text \<open>\<open>CheckRuntimeInvariants\<close>: the failure codes with the operation they name.\<close>

fun duplicate_failures :: "(string \<times> usage_kind) list \<Rightarrow> usage_entry list \<Rightarrow> (string \<times> string) list" where
  "duplicate_failures seen [] = []"
| "duplicate_failures seen (e # es) =
     (let key = (ue_operation_id e, ue_kind e)
      in if key \<in> set seen
         then (if ue_kind e = UsageModelSettlement then ''usage_duplicate_settlement''
               else ''usage_duplicate_entry'', ue_operation_id e) # duplicate_failures seen es
         else duplicate_failures (key # seen) es)"

definition CheckUsageInvariants :: "usage_entry list \<Rightarrow> (string \<times> string) list" where
  "CheckUsageInvariants entries =
     duplicate_failures [] entries
     @ [(''usage_settlement_without_reservation'', ue_operation_id e).
          e \<leftarrow> entries, ue_kind e = UsageModelSettlement \<and> \<not> HasUsageReservation entries (ue_operation_id e)]"

section \<open>The tracker\<close>

text \<open>
  \<open>Tracker\<close>: the Run as it was when the tracker was made, its budget, and the scope taken from
  the context. Operation and entry identifiers that the code draws at random are arguments, as
  is the clock. \<open>notice\<close> is what is published to the event sink.
\<close>

record tracker =
  tk_run :: run
  tk_budget :: run_budget
  tk_stage_id :: string
  tk_turn_id :: string

datatype notice = UsageNotice usage_entry usage_ledger | ExceededNotice exceeded

record model_estimate =
  me_route_id :: string
  me_operation_id :: string
  me_purpose :: usage_purpose
  me_model :: string
  me_prompt :: int

record model_reservation =
  mr_pricing :: route_pricing
  mr_operation_id :: string
  mr_purpose :: usage_purpose
  mr_model :: string
  mr_prompt :: int
  mr_cost :: int
  mr_max_completion :: int

record model_usage =
  mu_prompt :: int
  mu_completion :: int
  mu_total :: int
  mu_estimated :: bool
  mu_breakdown :: "usage_breakdown option"

definition NewTracker :: "run \<Rightarrow> string \<Rightarrow> string \<Rightarrow> tracker" where
  "NewTracker r stage turn = \<lparr>tk_run = r, tk_budget = RunBudget r, tk_stage_id = stage, tk_turn_id = turn\<rparr>"

definition normalizePurpose :: "usage_purpose \<Rightarrow> usage_purpose" where
  "normalizePurpose p =
     (if p = UsagePurposeRouter \<or> p = UsagePurposeCompaction then p else UsagePurposePrimary)"

definition ActiveRuntimeMS :: "run \<Rightarrow> time \<Rightarrow> int" where
  "ActiveRuntimeMS r now =
     (let used = max 0 (run_active_runtime_ms r)
      in case run_execution_started_at r of
           Some t \<Rightarrow> if run_status r = RunRunning
             then wrap64 (used + max 0 (milliseconds (time_sub now t))) else used
         | None \<Rightarrow> used)"

text \<open>\<open>RemainingRuntime\<close> in nanoseconds, when the runtime is limited.\<close>

definition RemainingRuntime :: "tracker \<Rightarrow> time \<Rightarrow> int option" where
  "RemainingRuntime t now =
     (if MaxRuntimeMS (tk_budget t) \<le> 0 then None
      else Some (wrap64 (wrap64 (MaxRuntimeMS (tk_budget t) - ActiveRuntimeMS (tk_run t) now) * 1000000)))"

definition CheckRuntime :: "tracker \<Rightarrow> time \<Rightarrow> exceeded option" where
  "CheckRuntime t now =
     (case RemainingRuntime t now of
        None \<Rightarrow> None
      | Some remaining \<Rightarrow>
          if remaining > 0 then None
          else Some \<lparr>ex_resource = ResourceRuntime, ex_limit = MaxRuntimeMS (tk_budget t),
            ex_used = ActiveRuntimeMS (tk_run t) now, ex_requested = 0, ex_operation_id = [],
            ex_purpose = UsagePurposeOther []\<rparr>)"

definition tracker_entry ::
  "tracker \<Rightarrow> string \<Rightarrow> time \<Rightarrow> usage_kind \<Rightarrow> string \<Rightarrow> usage_purpose \<Rightarrow> usage_entry" where
  "tracker_entry t new_id now kind operation purpose =
     \<lparr>ue_id = new_id, ue_run_id = run_id (tk_run t), ue_operation_id = operation,
      ue_stage_id = tk_stage_id t, ue_turn_id = tk_turn_id t, ue_kind = kind, ue_purpose = purpose,
      ue_model = [], ue_tool_name = [], ue_model_calls = 0, ue_tool_calls = 0, ue_prompt = 0,
      ue_completion = 0, ue_total = 0, ue_cost = 0, ue_estimated = False, ue_breakdown = None,
      ue_cost_details = None, ue_timestamp = now\<rparr>"

definition exceeded_notice :: "usage_error option \<Rightarrow> notice list" where
  "exceeded_notice err = (case err of Some (BudgetExceeded x) \<Rightarrow> [ExceededNotice x] | _ \<Rightarrow> [])"

definition usage_notice :: "usage_entry \<Rightarrow> usage_reply \<Rightarrow> notice list" where
  "usage_notice e reply =
     (case ur_ledger reply of
        Some l \<Rightarrow> if ur_applied reply then [UsageNotice e l] else []
      | None \<Rightarrow> [])"

definition reservation_entry ::
  "tracker \<Rightarrow> string \<Rightarrow> time \<Rightarrow> string \<Rightarrow> model_estimate \<Rightarrow> route_pricing \<Rightarrow> usage_entry" where
  "reservation_entry t new_id now operation estimate pricing =
     (let prompt = max 0 (me_prompt estimate); (cost, details) = usageCost pricing prompt 1 None True
      in (tracker_entry t new_id now UsageModelReservation operation (normalizePurpose (me_purpose estimate)))
           \<lparr>ue_model := trim_space (me_model estimate), ue_model_calls := 1, ue_prompt := prompt,
            ue_completion := 1, ue_total := wrap64 (prompt + 1), ue_cost := cost,
            ue_cost_details := Some details, ue_estimated := True\<rparr>)"

definition BeginModelCall ::
  "((string \<times> usage_entry) list \<Rightarrow> (string \<times> usage_entry) list) \<Rightarrow> (string \<rightharpoonup> run) \<Rightarrow> tracker
    \<Rightarrow> string \<Rightarrow> string \<Rightarrow> time \<Rightarrow> model_estimate \<Rightarrow> usage_entry list
    \<Rightarrow> (usage_error + model_reservation) \<times> usage_entry list \<times> notice list" where
  "BeginModelCall visit runs t new_operation new_id now estimate table =
     (case CheckRuntime t now of
        Some x \<Rightarrow> (Inl (BudgetExceeded x), table, [ExceededNotice x])
      | None \<Rightarrow>
          (let trimmed = trim_space (me_operation_id estimate);
               operation = (if trimmed = [] then new_operation else trimmed)
           in case modelPricing (tk_run t) (tk_budget t) (me_route_id estimate) (me_model estimate) of
                Inl err \<Rightarrow> (Inl (PricingFailed err), table, [])
              | Inr pricing \<Rightarrow>
                  (let e = reservation_entry t new_id now operation estimate pricing;
                       (reply, table') = ApplyRunUsage visit runs e table
                   in case ur_error reply of
                        Some err \<Rightarrow> (Inl err, table', exceeded_notice (Some err))
                      | None \<Rightarrow>
                          (Inr \<lparr>mr_pricing = pricing, mr_operation_id = operation,
                             mr_purpose = normalizePurpose (me_purpose estimate), mr_model = ue_model e,
                             mr_prompt = max 0 (me_prompt estimate), mr_cost = ue_cost e,
                             mr_max_completion =
                               (case ur_ledger reply of
                                  Some l \<Rightarrow> maxCompletionTokens (pricedLimits (tk_budget t) pricing) (ul_totals l) e
                                | None \<Rightarrow> 0)\<rparr>,
                           table', usage_notice e reply))))"

definition settlement_entry ::
  "tracker \<Rightarrow> string \<Rightarrow> time \<Rightarrow> model_reservation \<Rightarrow> model_usage \<Rightarrow> usage_entry" where
  "settlement_entry t new_id now r usage =
     (let prompt = max 0 (mu_prompt usage); completion = max 0 (mu_completion usage);
          total = (if mu_total usage \<le> 0 then wrap64 (prompt + completion) else mu_total usage);
          (cost, details) = usageCost (mr_pricing r) prompt completion (mu_breakdown usage) (mu_estimated usage)
      in (tracker_entry t new_id now UsageModelSettlement (mr_operation_id r) (normalizePurpose (mr_purpose r)))
           \<lparr>ue_model := mr_model r, ue_model_calls := 1, ue_prompt := prompt, ue_completion := completion,
            ue_total := max total (wrap64 (prompt + completion)), ue_breakdown := mu_breakdown usage,
            ue_cost := cost, ue_cost_details := Some details, ue_estimated := mu_estimated usage\<rparr>)"

definition SettleModelCall ::
  "((string \<times> usage_entry) list \<Rightarrow> (string \<times> usage_entry) list) \<Rightarrow> (string \<rightharpoonup> run) \<Rightarrow> tracker
    \<Rightarrow> string \<Rightarrow> time \<Rightarrow> model_reservation \<Rightarrow> model_usage \<Rightarrow> usage_entry list
    \<Rightarrow> usage_error option \<times> usage_entry list \<times> notice list" where
  "SettleModelCall visit runs t new_id now r usage table =
     (case breakdown_error (mu_breakdown usage) (mu_prompt usage) (mu_completion usage) of
        Some m \<Rightarrow> (Some (InvalidBreakdown m), table, [])
      | None \<Rightarrow>
          (let e = settlement_entry t new_id now r usage;
               (reply, table') = ApplyRunUsage visit runs e table
           in (ur_error reply, table', usage_notice e reply @ exceeded_notice (ur_error reply))))"

definition RecordToolCall ::
  "((string \<times> usage_entry) list \<Rightarrow> (string \<times> usage_entry) list) \<Rightarrow> (string \<rightharpoonup> run) \<Rightarrow> tracker
    \<Rightarrow> string \<Rightarrow> string \<Rightarrow> time \<Rightarrow> string \<Rightarrow> usage_purpose \<Rightarrow> string \<Rightarrow> usage_entry list
    \<Rightarrow> usage_error option \<times> usage_entry list \<times> notice list" where
  "RecordToolCall visit runs t new_operation new_id now operation purpose tool table =
     (case CheckRuntime t now of
        Some x \<Rightarrow> (Some (BudgetExceeded x), table, [ExceededNotice x])
      | None \<Rightarrow>
          (let trimmed = trim_space operation;
               e = (tracker_entry t new_id now UsageToolExecution
                     (if trimmed = [] then new_operation else trimmed) (normalizePurpose purpose))
                     \<lparr>ue_tool_name := trim_space tool, ue_tool_calls := 1\<rparr>;
               (reply, table') = ApplyRunUsage visit runs e table
           in case ur_error reply of
                Some err \<Rightarrow> (Some err, table', exceeded_notice (Some err))
              | None \<Rightarrow> (None, table', usage_notice e reply)))"

end
