(* ===== verification/Budget_Safety.thy ===== *)
theory Budget_Safety
  imports Budget_Ledger
begin

text \<open>
  What the usage ledger guarantees: totals are a function of the set of counted entries (so the
  iteration order of Go's map is irrelevant), admission keeps every limit, recording is
  idempotent, the ledger satisfies the runtime invariants, and a model call that stays within
  its grant settles within the budget.
\<close>

section \<open>Wrapping and saturating sums\<close>

lemma wrap64_add_left [simp]: "wrap64 (wrap64 a + b) = wrap64 (a + b)"
proof -
  let ?m = "18446744073709551616 :: int"
  have "((a + 9223372036854775808) mod ?m - 9223372036854775808 + b + 9223372036854775808) mod ?m =
      (a + b + 9223372036854775808) mod ?m"
    using mod_add_left_eq [of "a + 9223372036854775808" ?m b] by (simp add: algebra_simps)
  then show ?thesis by (simp add: wrap64_def)
qed

lemma wrap64_add_right [simp]: "wrap64 (a + wrap64 b) = wrap64 (a + b)"
  using wrap64_add_left [of b a] by (simp add: add.commute)

lemma wrap64_zero [simp]: "wrap64 0 = 0"
  by (simp add: wrap64_def)

lemma wrap64_idem [simp]: "wrap64 (wrap64 a) = wrap64 a"
  by (rule wrap64_id [OF wrap64_range])

text \<open>Costs are between zero and the largest \<open>int64\<close>; adding them saturates.\<close>

abbreviation is_cost :: "int \<Rightarrow> bool" where
  "is_cost c \<equiv> 0 \<le> c \<and> c \<le> max_int64"

lemma addCost_saturates:
  assumes "is_cost a" and "is_cost b"
  shows "addCost a b = min max_int64 (a + b)"
proof -
  have "wrap64 (max_int64 - a) = max_int64 - a"
    using assms by (intro wrap64_id) (auto simp: min_int64_def max_int64_def)
  moreover have "wrap64 (a + b) = a + b" if "b \<le> max_int64 - a"
    using assms that by (intro wrap64_id) (auto simp: min_int64_def)
  ultimately show ?thesis by (auto simp: addCost_def)
qed

lemma addCost_cost: "is_cost a \<Longrightarrow> is_cost b \<Longrightarrow> is_cost (addCost a b)"
  by (simp add: addCost_saturates max_int64_def)

lemma addCost_mono: "is_cost a \<Longrightarrow> is_cost b \<Longrightarrow> is_cost c \<Longrightarrow> b \<le> c \<Longrightarrow> addCost a b \<le> addCost a c"
  by (simp add: addCost_saturates)

section \<open>Totals as a function of the counted entries\<close>

definition totals_of :: "usage_entry list \<Rightarrow> usage_totals" where
  "totals_of es = \<lparr>ut_model_calls = wrap64 (sum_list (map ue_model_calls es)),
     ut_tool_calls = wrap64 (sum_list (map ue_tool_calls es)),
     ut_prompt = wrap64 (sum_list (map ue_prompt es)),
     ut_completion = wrap64 (sum_list (map ue_completion es)),
     ut_total = wrap64 (sum_list (map ue_total es)),
     ut_cost = min max_int64 (sum_list (map ue_cost es)),
     ut_open = 0,
     ut_cost_unknown = wrap64 (int (length (filter cost_unknown es)))\<rparr>"

lemma totals_of_Nil: "totals_of [] = no_usage"
  by (simp add: totals_of_def no_usage_def max_int64_def)

definition costs_ok :: "usage_entry list \<Rightarrow> bool" where
  "costs_ok es \<longleftrightarrow> (\<forall>e \<in> set es. is_cost (ue_cost e))"

lemma costs_sum: "costs_ok es \<Longrightarrow> 0 \<le> sum_list (map ue_cost es)"
  unfolding costs_ok_def by (intro sum_list_nonneg) auto

lemma addEntry_totals:
  assumes "costs_ok (e # es)"
  shows "addEntry e (totals_of es) = totals_of (e # es)"
proof -
  have "is_cost (ue_cost e)" and n: "0 \<le> sum_list (map ue_cost es)"
    using assms costs_sum [of es] by (auto simp: costs_ok_def)
  then have "addCost (min max_int64 (sum_list (map ue_cost es))) (ue_cost e) =
      min max_int64 (ue_cost e + sum_list (map ue_cost es))"
    by (subst addCost_saturates) (auto simp: max_int64_def)
  then show ?thesis by (simp add: addEntry_def totals_of_def add.commute)
qed

lemma totals_of_mset: "mset es = mset es' \<Longrightarrow> totals_of es = totals_of es'"
  unfolding totals_of_def
  by (metis (no_types, lifting) mset_filter mset_map size_mset sum_mset_sum_list)

lemma fold_addEntry:
  "costs_ok (es @ ds) \<Longrightarrow> fold addEntry es (totals_of ds) = totals_of (es @ ds)"
proof (induction es arbitrary: ds)
  case (Cons e es)
  then have "fold addEntry (e # es) (totals_of ds) = totals_of (es @ e # ds)"
    by (simp add: addEntry_totals costs_ok_def)
  also have "\<dots> = totals_of ((e # es) @ ds)" by (rule totals_of_mset) simp
  finally show ?case .
qed simp

text \<open>Open reservations are counted separately.\<close>

definition with_open :: "int \<Rightarrow> usage_totals \<Rightarrow> usage_totals" where
  "with_open n t = t\<lparr>ut_open := wrap64 n\<rparr>"

lemma addEntry_with_open: "addEntry e (with_open n t) = with_open n (addEntry e t)"
  by (simp add: addEntry_def with_open_def)

definition chosen :: "(string \<times> usage_entry) list \<Rightarrow> string \<times> usage_entry \<Rightarrow> usage_entry" where
  "chosen settlements = (\<lambda>(operation, reservation).
     case map_of settlements operation of Some s \<Rightarrow> s | None \<Rightarrow> reservation)"

definition unsettled :: "(string \<times> usage_entry) list \<Rightarrow> string \<times> usage_entry \<Rightarrow> bool" where
  "unsettled settlements p \<longleftrightarrow> map_of settlements (fst p) = None"

lemma fold_settle:
  assumes "costs_ok (map (chosen S) rs @ ds)"
  shows "fold (settle_entry S) rs (with_open n (totals_of ds)) =
    with_open (n + int (length (filter (unsettled S) rs))) (totals_of (map (chosen S) rs @ ds))"
  using assms
proof (induction rs arbitrary: n ds)
  case (Cons p rs)
  have step: "settle_entry S p (with_open n (totals_of ds)) =
      with_open (n + (if unsettled S p then 1 else 0)) (totals_of (chosen S p # ds))"
    using Cons.prems addEntry_totals [of "chosen S p" ds]
    by (cases p; cases "map_of S (fst p)")
      (auto simp: settle_entry_def chosen_def unsettled_def addEntry_with_open costs_ok_def Let_def,
       simp_all add: with_open_def)
  have "costs_ok (map (chosen S) rs @ chosen S p # ds)" using Cons.prems by (auto simp: costs_ok_def)
  note rest = Cons.IH [OF this]
  have "totals_of (map (chosen S) rs @ chosen S p # ds) = totals_of (map (chosen S) (p # rs) @ ds)"
    by (rule totals_of_mset) simp
  then show ?case using step rest by (simp add: add.assoc)
qed simp

section \<open>The ledger computes the totals of the counted entries\<close>

definition is_reservation :: "usage_entry \<Rightarrow> bool" where
  "is_reservation e \<longleftrightarrow> ue_kind e = UsageModelReservation"

definition is_settlement :: "usage_entry \<Rightarrow> bool" where
  "is_settlement e \<longleftrightarrow> ue_kind e = UsageModelSettlement"

definition is_tool :: "usage_entry \<Rightarrow> bool" where
  "is_tool e \<longleftrightarrow> ue_kind e = UsageToolExecution"

definition settled_in :: "usage_entry list \<Rightarrow> string \<Rightarrow> bool" where
  "settled_in es operation \<longleftrightarrow> (\<exists>e \<in> set es. is_settlement e \<and> ue_operation_id e = operation)"

definition reserved_in :: "usage_entry list \<Rightarrow> string \<Rightarrow> bool" where
  "reserved_in es operation \<longleftrightarrow> (\<exists>e \<in> set es. is_reservation e \<and> ue_operation_id e = operation)"

text \<open>The entries that count: tool calls, settlements, and reservations not yet settled.\<close>

definition counted :: "usage_entry list \<Rightarrow> usage_entry \<Rightarrow> bool" where
  "counted es e \<longleftrightarrow> is_tool e \<or> is_settlement e \<and> reserved_in es (ue_operation_id e)
     \<or> is_reservation e \<and> \<not> settled_in es (ue_operation_id e)"

definition open_reservations :: "usage_entry list \<Rightarrow> int" where
  "open_reservations es =
     int (length (filter (\<lambda>e. is_reservation e \<and> \<not> settled_in es (ue_operation_id e)) es))"

definition spec_totals :: "usage_entry list \<Rightarrow> usage_totals" where
  "spec_totals es = with_open (open_reservations es) (totals_of (filter (counted es) es))"

definition unique_operations :: "usage_entry list \<Rightarrow> bool" where
  "unique_operations es \<longleftrightarrow> distinct (map (\<lambda>e. (ue_operation_id e, ue_kind e)) es)"

abbreviation by_operation :: "usage_entry list \<Rightarrow> (string \<times> usage_entry) list" where
  "by_operation es \<equiv> map (\<lambda>e. (ue_operation_id e, e)) es"

lemma update_absent: "k \<notin> fst ` set m \<Longrightarrow> AList.update k v m = m @ [(k, v)]"
  by (induction m) auto

lemma unique_append:
  "unique_operations (es @ [e]) \<longleftrightarrow> unique_operations es \<and>
     (\<forall>x \<in> set es. \<not> (ue_operation_id x = ue_operation_id e \<and> ue_kind x = ue_kind e))"
  by (auto simp: unique_operations_def image_iff)

lemma fold_scan_entry:
  assumes "unique_operations es" and "ls_reservations s = []" and "ls_settlements s = []"
  shows "ls_reservations (fold scan_entry es s) = by_operation (filter is_reservation es)"
    and "ls_settlements (fold scan_entry es s) = by_operation (filter is_settlement es)"
    and "ls_totals (fold scan_entry es s) = fold addEntry (filter is_tool es) (ls_totals s)"
proof -
  have upd: "ls_reservations (scan_entry e s) =
        (if is_reservation e then AList.update (ue_operation_id e) e (ls_reservations s) else ls_reservations s)"
      "ls_settlements (scan_entry e s) =
        (if is_settlement e then AList.update (ue_operation_id e) e (ls_settlements s) else ls_settlements s)"
      "ls_totals (scan_entry e s) = (if is_tool e then addEntry e (ls_totals s) else ls_totals s)" for e s
    by (cases "ue_kind e"; simp add: scan_entry_def Let_def is_reservation_def is_settlement_def is_tool_def)+
  show "ls_reservations (fold scan_entry es s) = by_operation (filter is_reservation es)"
    using assms
    by (induction es rule: rev_induct)
      (auto simp: upd unique_append is_reservation_def intro!: update_absent)
  show "ls_settlements (fold scan_entry es s) = by_operation (filter is_settlement es)"
    using assms
    by (induction es rule: rev_induct)
      (auto simp: upd unique_append is_settlement_def intro!: update_absent)
  show "ls_totals (fold scan_entry es s) = fold addEntry (filter is_tool es) (ls_totals s)"
    by (induction es rule: rev_induct) (auto simp: upd)
qed

lemma distinct_operations:
  assumes "unique_operations es"
  shows "distinct (map ue_operation_id (filter is_reservation es))"
    and "distinct (map ue_operation_id (filter is_settlement es))"
  using assms
  by (induction es rule: rev_induct)
    (auto simp: unique_append is_reservation_def is_settlement_def unique_operations_def)

lemma map_of_by_operation:
  assumes "distinct (map ue_operation_id es)"
  shows "map_of (by_operation es) k = Some e \<longleftrightarrow> e \<in> set es \<and> ue_operation_id e = k"
  using assms by (induction es) (auto simp: image_iff)

lemma map_of_by_operation_None:
  "map_of (by_operation es) k = None \<longleftrightarrow> k \<notin> ue_operation_id ` set es"
  by (induction es) auto

lemma mset_map_chosen:
  assumes "unique_operations es"
  shows "mset (map (chosen (by_operation (filter is_settlement es))) (by_operation (filter is_reservation es))) =
    mset (filter (\<lambda>e. is_reservation e \<and> \<not> settled_in es (ue_operation_id e)) es)
    + mset (filter (\<lambda>e. is_settlement e \<and> reserved_in es (ue_operation_id e)) es)"
proof -
  let ?S = "by_operation (filter is_settlement es)"
  let ?R = "filter is_reservation es"
  define pick where "pick e = chosen ?S (ue_operation_id e, e)" for e :: usage_entry
  define settled where "settled e = settled_in es (ue_operation_id e)" for e :: usage_entry
  note S = map_of_by_operation [OF distinct_operations(2) [OF assms]]
  have none: "map_of ?S k = None \<longleftrightarrow> \<not> settled_in es k" for k
    by (auto simp: map_of_by_operation_None settled_in_def)
  have pick_open: "pick e = e" if "\<not> settled e" for e
  proof -
    have "map_of ?S (ue_operation_id e) = None" using that none by (simp add: settled_def)
    then show ?thesis by (simp add: pick_def chosen_def)
  qed
  have pick_settled: "is_settlement (pick e) \<and> pick e \<in> set es \<and> ue_operation_id (pick e) = ue_operation_id e"
    if "settled e" for e
  proof -
    have "map_of ?S (ue_operation_id e) \<noteq> None" using that none by (simp add: settled_def)
    then obtain x where x: "map_of ?S (ue_operation_id e) = Some x" by blast
    then have "pick e = x" by (simp add: pick_def chosen_def)
    then show ?thesis using S x by simp
  qed
  have op_pick: "ue_operation_id (pick e) = ue_operation_id e" for e
    using pick_open pick_settled by (cases "settled e") auto
  have "mset (map pick xs) = mset (map pick (filter (\<lambda>e. \<not> settled e) xs)) + mset (map pick (filter settled xs))"
    for xs by (induction xs) auto
  from this [of ?R] have "mset (map pick ?R) =
      mset (map pick (filter (\<lambda>e. \<not> settled e) ?R)) + mset (map pick (filter settled ?R))" .
  moreover have "map pick (filter (\<lambda>e. \<not> settled e) ?R) = filter (\<lambda>e. \<not> settled e) ?R"
    by (rule map_idI) (use pick_open in auto)
  moreover have "mset (map pick (filter settled ?R)) =
      mset (filter (\<lambda>e. is_settlement e \<and> reserved_in es (ue_operation_id e)) es)"
  proof (subst set_eq_iff_mset_eq_distinct [symmetric])
    have "distinct (map ue_operation_id (map pick (filter settled ?R)))"
      using distinct_map_filter [OF distinct_operations(1) [OF assms], of settled]
      by (simp add: comp_def op_pick)
    then show "distinct (map pick (filter settled ?R))" by (metis distinct_map)
    have "distinct es" using assms by (simp add: unique_operations_def distinct_map)
    then show "distinct (filter (\<lambda>e. is_settlement e \<and> reserved_in es (ue_operation_id e)) es)" by simp
    show "set (map pick (filter settled ?R)) =
        set (filter (\<lambda>e. is_settlement e \<and> reserved_in es (ue_operation_id e)) es)"
    proof (intro equalityI subsetI)
      fix x assume "x \<in> set (map pick (filter settled ?R))"
      then show "x \<in> set (filter (\<lambda>e. is_settlement e \<and> reserved_in es (ue_operation_id e)) es)"
        using pick_settled by (auto simp: reserved_in_def)
    next
      fix x assume x: "x \<in> set (filter (\<lambda>e. is_settlement e \<and> reserved_in es (ue_operation_id e)) es)"
      then obtain r where r: "r \<in> set es" "is_reservation r" "ue_operation_id r = ue_operation_id x"
        by (auto simp: reserved_in_def)
      then have "settled r" using x by (auto simp: settled_def settled_in_def)
      moreover have "map_of ?S (ue_operation_id r) = Some x" using S x r by auto
      then have "pick r = x" by (simp add: pick_def chosen_def)
      ultimately show "x \<in> set (map pick (filter settled ?R))" using r by force
    qed
  qed
  moreover have "filter (\<lambda>e. \<not> settled e) ?R = filter (\<lambda>e. is_reservation e \<and> \<not> settled_in es (ue_operation_id e)) es"
    by (simp add: settled_def)
  moreover have "map (chosen ?S) (by_operation ?R) = map pick ?R" by (simp add: pick_def)
  ultimately show ?thesis by (simp only:)
qed

text \<open>The totals that Go computes, in any iteration order, are the specified ones.\<close>

definition any_order :: "((string \<times> usage_entry) list \<Rightarrow> (string \<times> usage_entry) list) \<Rightarrow> bool" where
  "any_order visit \<longleftrightarrow> (\<forall>xs. mset (visit xs) = mset xs)"

lemma filter_counted_mset:
  "mset (filter (counted es) es) = mset (filter is_tool es)
     + (mset (filter (\<lambda>e. is_reservation e \<and> \<not> settled_in es (ue_operation_id e)) es)
     + mset (filter (\<lambda>e. is_settlement e \<and> reserved_in es (ue_operation_id e)) es))"
proof -
  have "mset (filter (counted es) xs) = mset (filter is_tool xs)
     + (mset (filter (\<lambda>e. is_reservation e \<and> \<not> settled_in es (ue_operation_id e)) xs)
     + mset (filter (\<lambda>e. is_settlement e \<and> reserved_in es (ue_operation_id e)) xs))" for xs
    by (induction xs)
      (auto simp: counted_def is_tool_def is_reservation_def is_settlement_def)
  then show ?thesis .
qed

lemma open_reservations_unsettled:
  "length (filter (unsettled (by_operation (filter is_settlement es))) (by_operation (filter is_reservation es))) =
     length (filter (\<lambda>e. is_reservation e \<and> \<not> settled_in es (ue_operation_id e)) es)"
proof -
  have "unsettled (by_operation (filter is_settlement es)) (ue_operation_id e, e) \<longleftrightarrow>
      \<not> settled_in es (ue_operation_id e)" for e
    by (auto simp: unsettled_def map_of_by_operation_None settled_in_def image_iff)
  then have "filter (unsettled (by_operation (filter is_settlement es))) (by_operation xs) =
      by_operation (filter (\<lambda>e. \<not> settled_in es (ue_operation_id e)) xs)" for xs
    by (induction xs) auto
  then show ?thesis by simp
qed

lemma BuildLedger_totals:
  assumes "unique_operations es" and "costs_ok es" and "any_order visit"
  shows "ul_totals (BuildLedger visit rid limits es) = spec_totals es"
proof -
  let ?s = "fold scan_entry es
      \<lparr>ls_reservations = [], ls_settlements = [], ls_totals = no_usage, ls_updated = None\<rparr>"
  let ?S = "by_operation (filter is_settlement es)"
  let ?R = "by_operation (filter is_reservation es)"
  have s: "ls_reservations ?s = ?R" "ls_settlements ?s = ?S"
    "ls_totals ?s = fold addEntry (filter is_tool es) no_usage"
    using fold_scan_entry [OF assms(1)] by auto
  have "costs_ok (filter is_tool es)" using assms(2) by (auto simp: costs_ok_def)
  then have tools: "ls_totals ?s = with_open 0 (totals_of (filter is_tool es))"
    using fold_addEntry [of "filter is_tool es" "[]"] s(3)
    by (simp add: totals_of_Nil with_open_def) (simp add: totals_of_def)
  have vm: "mset (map (chosen ?S) (visit ?R)) = mset (map (chosen ?S) ?R)"
    "mset (filter (unsettled ?S) (visit ?R)) = mset (filter (unsettled ?S) ?R)"
    using assms(3) by (simp_all only: any_order_def mset_map mset_filter)
  have m: "mset (map (chosen ?S) (visit ?R) @ filter is_tool es) = mset (filter (counted es) es)"
    unfolding mset_append vm(1) mset_map_chosen [OF assms(1)] filter_counted_mset
    by (simp add: add.commute)
  have "costs_ok (map (chosen ?S) (visit ?R) @ filter is_tool es)"
    using assms(2) mset_eq_setD [OF m] by (auto simp: costs_ok_def)
  note fold = fold_settle [OF this, of 0]
  have "length (filter (unsettled ?S) (visit ?R)) =
      length (filter (\<lambda>e. is_reservation e \<and> \<not> settled_in es (ue_operation_id e)) es)"
    using arg_cong [OF vm(2), of size] open_reservations_unsettled by (simp only: size_mset)
  then show ?thesis
    using fold totals_of_mset [OF m]
    by (simp add: BuildLedger_def Let_def s(1,2) tools spec_totals_def open_reservations_def)
qed

section \<open>The table\<close>

definition entry_ok :: "usage_entry \<Rightarrow> bool" where
  "entry_ok e \<longleftrightarrow> ValidateUsageEntry e = None \<and> ue_cost e \<le> max_int64"

definition ledger_ok :: "usage_entry list \<Rightarrow> bool" where
  "ledger_ok es \<longleftrightarrow> unique_operations es \<and> (\<forall>e \<in> set es. entry_ok e)
     \<and> (\<forall>e \<in> set es. is_settlement e \<longrightarrow> reserved_in es (ue_operation_id e))"

definition of_run :: "usage_entry list \<Rightarrow> string \<Rightarrow> usage_entry list" where
  "of_run table rid = filter (\<lambda>e. ue_run_id e = rid) table"

definition usage_wf :: "usage_entry list \<Rightarrow> bool" where
  "usage_wf table \<longleftrightarrow> (\<forall>rid. ledger_ok (of_run table rid)) \<and> distinct (map ue_id table)"

lemma ValidateUsageEntry_None:
  assumes "ValidateUsageEntry e = None"
  shows "0 \<le> ue_model_calls e \<and> 0 \<le> ue_tool_calls e \<and> 0 \<le> ue_prompt e \<and> 0 \<le> ue_completion e
    \<and> 0 \<le> ue_total e \<and> 0 \<le> ue_cost e"
    and "is_reservation e \<or> is_settlement e \<or> is_tool e"
  using assms
  by (auto simp: ValidateUsageEntry_def is_reservation_def is_settlement_def is_tool_def
      split: option.splits if_splits usage_kind.splits)

lemma ledger_ok_costs: "ledger_ok es \<Longrightarrow> costs_ok es"
  by (auto simp: ledger_ok_def costs_ok_def entry_ok_def dest: ValidateUsageEntry_None(1))

lemma listed_mset: "mset (listRunUsageEntries table rid) = mset (of_run table rid)"
  by (simp add: listRunUsageEntries_def of_run_def)

lemma ledger_ok_mset:
  assumes "mset es = mset es'" shows "ledger_ok es = ledger_ok es'"
proof -
  have "set es = set es'" using assms by (rule mset_eq_setD)
  moreover have "unique_operations es = unique_operations es'"
    unfolding unique_operations_def using assms by (metis mset_eq_imp_distinct_iff mset_map)
  ultimately show ?thesis by (simp add: ledger_ok_def reserved_in_def)
qed

lemma spec_totals_mset:
  assumes "mset es = mset es'" shows "spec_totals es = spec_totals es'"
proof -
  have s: "set es = set es'" using assms by (rule mset_eq_setD)
  then have "settled_in es = settled_in es'" "reserved_in es = reserved_in es'"
    by (auto simp: settled_in_def reserved_in_def fun_eq_iff)
  moreover from this have "counted es = counted es'" by (auto simp: counted_def fun_eq_iff)
  moreover have "mset (filter P es) = mset (filter P es')" for P using assms by simp
  then have "totals_of (filter P es) = totals_of (filter P es')" "length (filter P es) = length (filter P es')" for P
    by (blast intro: totals_of_mset mset_eq_length)+
  ultimately show ?thesis by (simp add: spec_totals_def open_reservations_def)
qed

section \<open>Admission keeps the limits\<close>

text \<open>Every limit that is set holds; zero disables a limit.\<close>

definition within_budget :: "run_budget \<Rightarrow> usage_totals \<Rightarrow> bool" where
  "within_budget limits t \<longleftrightarrow>
     (MaxModelCalls limits > 0 \<longrightarrow> ut_model_calls t \<le> MaxModelCalls limits)
     \<and> (MaxPromptTokens limits > 0 \<longrightarrow> ut_prompt t \<le> MaxPromptTokens limits)
     \<and> (MaxCompletionTokens limits > 0 \<longrightarrow> ut_completion t \<le> MaxCompletionTokens limits)
     \<and> (MaxTotalTokens limits > 0 \<longrightarrow> ut_total t \<le> MaxTotalTokens limits)
     \<and> (MaxToolCalls limits > 0 \<longrightarrow> ut_tool_calls t \<le> MaxToolCalls limits)
     \<and> (MaxEstimatedCostMicros limits > 0 \<longrightarrow> ut_cost t \<le> MaxEstimatedCostMicros limits)"

definition budget_int64 :: "run_budget \<Rightarrow> bool" where
  "budget_int64 b \<longleftrightarrow> MaxModelCalls b \<le> max_int64 \<and> MaxPromptTokens b \<le> max_int64
     \<and> MaxCompletionTokens b \<le> max_int64 \<and> MaxTotalTokens b \<le> max_int64
     \<and> MaxToolCalls b \<le> max_int64 \<and> MaxEstimatedCostMicros b \<le> max_int64"

lemma check_passes:
  assumes "\<not> check_fails (x, limit, used, request)" and "0 < limit" and "limit \<le> max_int64"
    and "is_int64 used" and "0 \<le> request"
  shows "used + request \<le> limit \<and> wrap64 (used + request) = used + request \<and> is_int64 (limit - used)"
proof (cases "is_int64 (limit - used)")
  case True
  then have "used + request \<le> limit"
    using assms by (auto simp: check_fails_def wrap64_id)
  then show ?thesis using assms True by (intro conjI wrap64_id) auto
next
  case False
  have "(limit - used + 9223372036854775808) mod 18446744073709551616 =
      (limit - used + 9223372036854775808 - 18446744073709551616) mod 18446744073709551616"
    by (rule minus_mod_self2 [symmetric])
  also have "\<dots> = limit - used + 9223372036854775808 - 18446744073709551616"
    using False assms by (intro mod_pos_pos_trivial) (auto simp: max_int64_def min_int64_def)
  finally have "wrap64 (limit - used) = limit - used - 18446744073709551616"
    by (simp add: wrap64_def)
  then show ?thesis using assms by (auto simp: check_fails_def max_int64_def min_int64_def)
qed

lemma Check_None: "Check limits cur req op p = None \<longleftrightarrow> (\<forall>c \<in> set (budget_checks limits cur req). \<not> check_fails c)"
  by (auto simp: Check_def find_None_iff)

lemma totals_int64:
  "is_int64 (ut_model_calls (with_open n (totals_of es)))" "is_int64 (ut_prompt (with_open n (totals_of es)))"
  "is_int64 (ut_completion (with_open n (totals_of es)))" "is_int64 (ut_total (with_open n (totals_of es)))"
  "is_int64 (ut_tool_calls (with_open n (totals_of es)))"
  using wrap64_range by (simp_all add: with_open_def totals_of_def)

lemma costs_total: "costs_ok es \<Longrightarrow> is_cost (ut_cost (totals_of es))"
  using costs_sum [of es] by (simp add: totals_of_def max_int64_def)

lemma EntryTotals_fields:
  assumes "entry_ok e" and "is_int64 (ue_model_calls e)" "is_int64 (ue_prompt e)" "is_int64 (ue_completion e)"
    "is_int64 (ue_total e)" "is_int64 (ue_tool_calls e)"
  shows "ut_model_calls (EntryTotals e) = ue_model_calls e" "ut_prompt (EntryTotals e) = ue_prompt e"
    "ut_completion (EntryTotals e) = ue_completion e" "ut_total (EntryTotals e) = ue_total e"
    "ut_tool_calls (EntryTotals e) = ue_tool_calls e" "ut_cost (EntryTotals e) = ue_cost e"
proof -
  have "is_cost (ue_cost e)" using assms(1) ValidateUsageEntry_None(1) [of e] by (auto simp: entry_ok_def)
  then have "addCost 0 (ue_cost e) = ue_cost e" by (subst addCost_saturates) (auto simp: max_int64_def)
  then show "ut_model_calls (EntryTotals e) = ue_model_calls e" "ut_prompt (EntryTotals e) = ue_prompt e"
    "ut_completion (EntryTotals e) = ue_completion e" "ut_total (EntryTotals e) = ue_total e"
    "ut_tool_calls (EntryTotals e) = ue_tool_calls e" "ut_cost (EntryTotals e) = ue_cost e"
    using assms by (simp_all add: EntryTotals_def addEntry_def no_usage_def wrap64_id)
qed

text \<open>The counters of an entry are Go \<open>int\<close>s.\<close>

definition entry_int64 :: "usage_entry \<Rightarrow> bool" where
  "entry_int64 e \<longleftrightarrow> is_int64 (ue_model_calls e) \<and> is_int64 (ue_prompt e) \<and> is_int64 (ue_completion e)
     \<and> is_int64 (ue_total e) \<and> is_int64 (ue_tool_calls e) \<and> is_int64 (ue_cost e)"

lemma admitted_within:
  assumes "Check limits (with_open n (totals_of es)) (EntryTotals e) op p = None"
    and "budget_int64 limits" and "entry_ok e" and "entry_int64 e" and "costs_ok (e # es)"
  shows "within_budget limits (with_open m (totals_of (e # es)))"
proof -
  have pos: "0 \<le> ue_model_calls e \<and> 0 \<le> ue_tool_calls e \<and> 0 \<le> ue_prompt e \<and> 0 \<le> ue_completion e
    \<and> 0 \<le> ue_total e \<and> 0 \<le> ue_cost e"
    using assms(3) ValidateUsageEntry_None(1) [of e] by (simp add: entry_ok_def)
  have checks: "\<forall>c \<in> set (budget_checks limits (with_open n (totals_of es)) (EntryTotals e)). \<not> check_fails c"
    using assms(1) by (simp only: Check_None)
  note f = EntryTotals_fields [OF assms(3)]
  have new: "totals_of (e # es) = addEntry e (totals_of es)" by (rule addEntry_totals [OF assms(5), symmetric])
  have c: "is_cost (ut_cost (totals_of es))" "is_cost (ue_cost e)"
    using costs_total [of es] assms(5) by (auto simp: costs_ok_def)
  have cost: "addCost (ut_cost (totals_of es)) (ue_cost e) \<le> ut_cost (totals_of es) + ue_cost e"
    using c by (simp add: addCost_saturates)
  note passes = check_passes [OF checks [rule_format]]
  show ?thesis
    using assms(2,4) pos f checks totals_int64 [of n es] c cost
      check_passes [of ResourceModelCalls "MaxModelCalls limits" "ut_model_calls (totals_of es)" "ue_model_calls e"]
      check_passes [of ResourcePromptTokens "MaxPromptTokens limits" "ut_prompt (totals_of es)" "ue_prompt e"]
      check_passes [of ResourceCompletionTokens "MaxCompletionTokens limits" "ut_completion (totals_of es)" "ue_completion e"]
      check_passes [of ResourceTotalTokens "MaxTotalTokens limits" "ut_total (totals_of es)" "ue_total e"]
      check_passes [of ResourceToolCalls "MaxToolCalls limits" "ut_tool_calls (totals_of es)" "ue_tool_calls e"]
      check_passes [of ResourceEstimatedCost "MaxEstimatedCostMicros limits" "ut_cost (totals_of es)" "ue_cost e"]
    by (auto simp: within_budget_def new addEntry_def with_open_def budget_checks_def budget_int64_def
        entry_int64_def max_int64_def min_int64_def)
qed

section \<open>Recording an entry\<close>

text \<open>A new entry has an operation of its own; a settlement needs its reservation.\<close>

definition admissible :: "usage_entry list \<Rightarrow> usage_entry \<Rightarrow> bool" where
  "admissible es e \<longleftrightarrow> entry_ok e
     \<and> (\<forall>x \<in> set es. \<not> (ue_operation_id x = ue_operation_id e \<and> ue_kind x = ue_kind e))
     \<and> (is_settlement e \<longrightarrow> reserved_in es (ue_operation_id e))"

lemma ledger_ok_append: "ledger_ok es \<Longrightarrow> admissible es e \<Longrightarrow> ledger_ok (es @ [e])"
  by (auto simp: ledger_ok_def admissible_def unique_append reserved_in_def)

lemma counted_append:
  assumes "ledger_ok es" and "admissible es e" and "\<not> is_settlement e"
  shows "counted (es @ [e]) e" and "x \<in> set es \<Longrightarrow> counted (es @ [e]) x = counted es x"
    and "settled_in (es @ [e]) = settled_in es"
proof -
  show s: "settled_in (es @ [e]) = settled_in es"
    using assms(3) by (auto simp: settled_in_def fun_eq_iff)
  have new: "\<not> settled_in es (ue_operation_id e)" if "is_reservation e"
    using that assms(1,2)
    by (fastforce simp: settled_in_def ledger_ok_def admissible_def reserved_in_def is_reservation_def)
  have "is_reservation e \<or> is_tool e"
    using assms(2,3) ValidateUsageEntry_None(2) [of e] by (auto simp: admissible_def entry_ok_def)
  then show "counted (es @ [e]) e" using new s by (auto simp: counted_def)
  show "counted (es @ [e]) x = counted es x" if "x \<in> set es"
    using that assms(1) s by (auto simp: counted_def ledger_ok_def reserved_in_def)
qed

lemma spec_totals_append:
  assumes "ledger_ok es" and "admissible es e" and "\<not> is_settlement e"
  shows "\<exists>m. spec_totals (es @ [e]) = with_open m (totals_of (e # filter (counted es) es))"
proof -
  note c = counted_append [OF assms]
  have "filter (counted (es @ [e])) es = filter (counted es) es" using c(2) by (simp cong: filter_cong)
  then have "mset (filter (counted (es @ [e])) (es @ [e])) = mset (e # filter (counted es) es)"
    using c(1) by simp
  then show ?thesis unfolding spec_totals_def by (metis totals_of_mset)
qed

lemma same_operation_find:
  "find (same_operation e) es = None \<longleftrightarrow>
     (\<forall>x \<in> set es. \<not> (ue_operation_id x = ue_operation_id e \<and> ue_kind x = ue_kind e))"
  by (auto simp: find_None_iff same_operation_def)

lemma HasUsageReservation_iff: "HasUsageReservation es op \<longleftrightarrow> reserved_in es op"
  by (auto simp: HasUsageReservation_def reserved_in_def is_reservation_def list_ex_iff)

lemma ApplyRunUsage_applied:
  assumes "ApplyRunUsage visit runs e table = (reply, table')" and "ur_applied reply"
    and "ue_cost e \<le> max_int64"
  obtains r where "runs (ue_run_id e) = Some r" "table' = table @ [e]"
    "admissible (listRunUsageEntries table (ue_run_id e)) e" "ue_id e \<notin> ue_id ` set table"
    "ur_ledger reply = Some (BuildLedger visit (ue_run_id e) (RunBudget r)
       (listRunUsageEntries table (ue_run_id e) @ [e]))"
    "\<not> is_settlement e \<longrightarrow> ur_error reply = None \<and>
       Check (RunBudget r) (ul_totals (BuildLedger visit (ue_run_id e) (RunBudget r)
         (listRunUsageEntries table (ue_run_id e)))) (EntryTotals e) (ue_operation_id e) (ue_purpose e) = None"
    "is_settlement e \<longrightarrow> ur_error reply = map_option BudgetExceeded
       (CheckTotals (RunBudget r) (ul_totals (BuildLedger visit (ue_run_id e) (RunBudget r)
         (listRunUsageEntries table (ue_run_id e) @ [e]))) (ue_operation_id e) (ue_purpose e))"
  using assms
  by (auto simp: ApplyRunUsage_def Let_def refused_def same_operation_find admissible_def entry_ok_def
      HasUsageReservation_iff is_settlement_def split: option.splits if_splits)

lemma ApplyRunUsage_not_applied:
  "ApplyRunUsage visit runs e table = (reply, table') \<Longrightarrow> \<not> ur_applied reply \<Longrightarrow> table' = table"
  by (auto simp: ApplyRunUsage_def Let_def refused_def split: option.splits if_splits)

lemma admissible_listed:
  "admissible (listRunUsageEntries table rid) e = admissible (of_run table rid) e"
  using mset_eq_setD [OF listed_mset [of table rid]] by (simp add: admissible_def reserved_in_def)

lemma ApplyRunUsage_wf:
  assumes "ApplyRunUsage visit runs e table = (reply, table')" and "usage_wf table"
    and "ue_cost e \<le> max_int64"
  shows "usage_wf table'"
proof (cases "ur_applied reply")
  case True
  obtain r where r: "table' = table @ [e]" "admissible (of_run table (ue_run_id e)) e"
    "ue_id e \<notin> ue_id ` set table"
    using ApplyRunUsage_applied [OF assms(1) True assms(3)] admissible_listed by metis
  have "ledger_ok (of_run table' rid)" for rid
    using assms(2) r(1,2) ledger_ok_append [of "of_run table rid" e]
    by (auto simp: usage_wf_def of_run_def)
  then show ?thesis using assms(2) r by (auto simp: usage_wf_def)
next
  case False
  then show ?thesis using ApplyRunUsage_not_applied [OF assms(1)] assms(2) by simp
qed

text \<open>The tables that recording produces.\<close>

inductive usage_reachable :: "((string \<times> usage_entry) list \<Rightarrow> (string \<times> usage_entry) list) \<Rightarrow> (string \<rightharpoonup> run) \<Rightarrow> usage_entry list \<Rightarrow> bool"
  for visit runs where
  usage_start: "usage_reachable visit runs []"
| usage_record: "usage_reachable visit runs table \<Longrightarrow> entry_int64 e \<Longrightarrow>
    ApplyRunUsage visit runs e table = (reply, table') \<Longrightarrow> usage_reachable visit runs table'"

lemma usage_reachable_wf: "usage_reachable visit runs table \<Longrightarrow> usage_wf table"
proof (induction rule: usage_reachable.induct)
  case usage_start
  then show ?case by (simp add: usage_wf_def of_run_def ledger_ok_def unique_operations_def)
next
  case (usage_record table e reply table')
  then show ?case using ApplyRunUsage_wf [of visit runs e table reply table'] by (simp add: entry_int64_def)
qed

lemma usage_wf_listed:
  "usage_wf table \<Longrightarrow> ledger_ok (listRunUsageEntries table rid)"
  using ledger_ok_mset [OF listed_mset] by (simp add: usage_wf_def)

lemma ledger_totals_listed:
  assumes "usage_wf table" and "any_order visit"
  shows "ul_totals (BuildLedger visit rid limits (listRunUsageEntries table rid)) =
    spec_totals (of_run table rid)"
  using BuildLedger_totals [OF _ _ assms(2)] usage_wf_listed [OF assms(1), of rid]
    spec_totals_mset [OF listed_mset, of table rid] ledger_ok_costs
  by (simp add: ledger_ok_def)

lemma no_duplicate_failures:
  "distinct (map (\<lambda>e. (ue_operation_id e, ue_kind e)) es) \<Longrightarrow>
     set seen \<inter> (\<lambda>e. (ue_operation_id e, ue_kind e)) ` set es = {} \<Longrightarrow> duplicate_failures seen es = []"
  by (induction es arbitrary: seen) (auto simp: Let_def)

lemma ledger_ok_invariants: "ledger_ok es \<Longrightarrow> CheckUsageInvariants es = []"
  by (auto simp: CheckUsageInvariants_def ledger_ok_def unique_operations_def no_duplicate_failures
      HasUsageReservation_iff is_settlement_def)

section \<open>Settling within the grant\<close>

lemma spec_totals_settled:
  assumes "ledger_ok es" and "admissible es r" and "is_reservation r"
    and "is_settlement s" and "ue_operation_id s = ue_operation_id r"
  shows "\<exists>m. spec_totals (es @ [r, s]) = with_open m (totals_of (s # filter (counted es) es))"
proof -
  let ?all = "es @ [r, s]"
  have kinds: "\<not> is_settlement r" "\<not> is_reservation s" "\<not> is_tool r" "\<not> is_tool s"
    using assms(3,4) by (auto simp: is_reservation_def is_settlement_def is_tool_def)
  have fresh: "\<not> (is_reservation x \<and> ue_operation_id x = ue_operation_id r)" if "x \<in> set es" for x
    using that assms(2,3) by (auto simp: admissible_def is_reservation_def)
  have settled: "settled_in ?all k \<longleftrightarrow> settled_in es k \<or> k = ue_operation_id r" for k
    using assms(4,5) kinds by (auto simp: settled_in_def)
  have reserved: "reserved_in ?all k \<longleftrightarrow> reserved_in es k \<or> k = ue_operation_id r" for k
    using assms(3) kinds by (auto simp: reserved_in_def)
  have "counted ?all x = counted es x" if x: "x \<in> set es" for x
  proof -
    have "is_settlement x \<Longrightarrow> reserved_in es (ue_operation_id x)"
      using assms(1) x by (auto simp: ledger_ok_def)
    then show ?thesis using fresh [OF x] by (auto simp: counted_def settled reserved)
  qed
  then have "filter (counted ?all) es = filter (counted es) es" by (simp cong: filter_cong)
  moreover have "\<not> counted ?all r" "counted ?all s"
    using assms(3,4,5) kinds by (simp_all add: counted_def settled reserved)
  ultimately have "mset (filter (counted ?all) ?all) = mset (s # filter (counted es) es)" by simp
  then show ?thesis unfolding spec_totals_def by (metis totals_of_mset)
qed

lemma CheckTotals_within:
  assumes "within_budget limits t" and "budget_int64 limits"
  shows "CheckTotals limits t op p = None"
  using assms
  by (auto simp: CheckTotals_def Check_None budget_checks_def check_fails_def no_usage_def
      within_budget_def budget_int64_def wrap64_id min_int64_def)

lemma tokenCost_eq:
  assumes "0 < n" and "0 < p"
  shows "tokenCostMicros n p = min max_int64 ((n * p + 999999) div 1000000)"
    and "0 \<le> (n * p + 999999) div 1000000"
proof -
  have nn: "0 \<le> n * p + 999999" using assms by simp
  then show pos: "0 \<le> (n * p + 999999) div 1000000" by (rule pos_imp_zdiv_nonneg_iff [THEN iffD2, rotated]) simp
  have "tokenCostMicros n p = (let v = (n * p + 999999) div 1000000 in if is_int64 v then v else max_int64)"
    using assms nn by (simp add: tokenCostMicros_def quo_nonneg)
  then show "tokenCostMicros n p = min max_int64 ((n * p + 999999) div 1000000)"
    using pos by (simp add: Let_def min_int64_def min_def)
qed

lemma tokenCost_zero: "n \<le> 0 \<or> p \<le> 0 \<Longrightarrow> tokenCostMicros n p = 0"
  by (auto simp: tokenCostMicros_def)

lemma tokenCost_cost: "is_cost (tokenCostMicros n p)"
  using tokenCost_eq [of n p] tokenCost_zero [of n p]
  by (cases "n \<le> 0 \<or> p \<le> 0") (auto simp: max_int64_def)

text \<open>The price of tokens is their rate rounded up, or the largest cost when that does not fit.\<close>

lemma tokenCost_le_iff:
  assumes "c < max_int64" and "0 < n" and "0 < p"
  shows "tokenCostMicros n p \<le> c \<longleftrightarrow> n * p \<le> c * 1000000"
proof -
  have "(n * p + 999999) div 1000000 \<le> c \<longleftrightarrow> n * p \<le> c * 1000000" by linarith
  then show ?thesis using assms tokenCost_eq(1) [of n p] by auto
qed

lemma tokenCost_mono:
  assumes "m \<le> n" shows "tokenCostMicros m p \<le> tokenCostMicros n p"
proof (cases "m \<le> 0 \<or> p \<le> 0")
  case False
  then have "m * p + 999999 \<le> n * p + 999999" using assms by (auto intro: mult_right_mono)
  then have "(m * p + 999999) div 1000000 \<le> (n * p + 999999) div 1000000" by (rule zdiv_mono1) simp
  then show ?thesis using False assms by (auto simp: tokenCost_eq)
qed (use tokenCost_cost [of n p] in \<open>auto simp: tokenCost_zero\<close>)

text \<open>The cost of a call without a cache discount.\<close>

definition plain_cost :: "route_pricing \<Rightarrow> int \<Rightarrow> int \<Rightarrow> int" where
  "plain_cost price prompt completion =
     addCost (tokenCostMicros prompt (InputPerMillionTokensMicros price))
       (tokenCostMicros completion (OutputPerMillionTokensMicros price))"

lemma usageCost_plain:
  assumes "estimated \<or> Option.bind breakdown bd_cached = None" and "is_int64 prompt"
  shows "fst (usageCost price prompt completion breakdown estimated) = plain_cost price prompt completion"
proof (cases "InputPerMillionTokensMicros price = 0 \<and> OutputPerMillionTokensMicros price = 0
    \<and> CachedInputPerMillionTokensMicros price = None")
  case True
  have "addCost 0 0 = 0" by (simp add: addCost_saturates max_int64_def)
  with True show ?thesis by (simp add: usageCost_def plain_cost_def tokenCost_zero)
next
  case False
  then show ?thesis
    using assms unfolding usageCost_def if_not_P [OF False]
    by (cases estimated) (simp_all add: plain_cost_def Let_def wrap64_id)
qed

lemma plain_cost_cost: "is_cost (plain_cost price m n)"
  unfolding plain_cost_def by (intro addCost_cost tokenCost_cost)

lemma tighten_le: "tighten limit m \<le> m"
  by (auto simp: tighten_def split: option.splits)

lemma tighten_Some_le: "tighten (Some x) m \<le> x"
  by (simp add: tighten_def)

text \<open>A positive limit bounds the grant.\<close>

lemma maxCompletionTokens_bounds:
  assumes "maxCompletionTokens limits t r \<noteq> 0 \<longrightarrow> n \<le> maxCompletionTokens limits t r"
  shows "completion_limit limits t r = Some x \<Longrightarrow> n \<le> max 1 x"
    and "total_limit limits t r = Some y \<Longrightarrow> n \<le> max 1 y"
    and "cost_limit limits t r = Some z \<Longrightarrow> n \<le> max 1 z"
proof -
  let ?c = "completion_limit limits t r" and ?t = "total_limit limits t r" and ?k = "cost_limit limits t r"
  let ?m = "tighten ?k (tighten ?t (tighten ?c max_int64))"
  have n: "n \<le> max 1 ?m" if "?c \<noteq> None \<or> ?t \<noteq> None \<or> ?k \<noteq> None"
    using assms that by (auto simp: maxCompletionTokens_def Let_def)
  have "?m \<le> tighten ?c max_int64" by (rule order_trans [OF tighten_le tighten_le])
  then show "completion_limit limits t r = Some x \<Longrightarrow> n \<le> max 1 x"
    using n tighten_Some_le [of x max_int64] by fastforce
  have "?m \<le> tighten ?t (tighten ?c max_int64)" by (rule tighten_le)
  then show "total_limit limits t r = Some y \<Longrightarrow> n \<le> max 1 y"
    using n tighten_Some_le [of y "tighten ?c max_int64"] by fastforce
  show "cost_limit limits t r = Some z \<Longrightarrow> n \<le> max 1 z"
    using n tighten_Some_le [of z "tighten ?t (tighten ?c max_int64)"] by fastforce
qed

text \<open>
  The arithmetic core. \<open>C\<close> are the entries counted before the reservation \<open>r\<close> was admitted and
  \<open>T\<close> the totals after it; the settlement \<open>s\<close> stays within the estimate and the grant.
\<close>

definition granted_call ::
  "run_budget \<Rightarrow> route_pricing \<Rightarrow> usage_entry list \<Rightarrow> usage_entry \<Rightarrow> usage_entry \<Rightarrow> usage_totals \<Rightarrow> bool" where
  "granted_call limits price C r s T \<longleftrightarrow>
     (\<forall>c \<in> set (budget_checks limits (totals_of C) (EntryTotals r)). \<not> check_fails c)
     \<and> budget_int64 limits \<and> entry_ok r \<and> entry_int64 r \<and> costs_ok C
     \<and> ue_cost r = plain_cost price (ue_prompt r) 1
     \<and> ue_model_calls r = 1 \<and> ue_tool_calls r = 0 \<and> ue_completion r = 1
     \<and> ue_total r = ue_prompt r + 1
     \<and> (\<exists>k. T = with_open k (totals_of (r # C)))
     \<and> (maxCompletionTokens (pricedLimits limits price) T r \<noteq> 0 \<longrightarrow>
          ue_completion s \<le> maxCompletionTokens (pricedLimits limits price) T r)
     \<and> ue_model_calls s = 1 \<and> ue_tool_calls s = 0 \<and> 0 \<le> ue_prompt s \<and> ue_prompt s \<le> ue_prompt r
     \<and> 0 \<le> ue_completion s \<and> ue_total s = ue_prompt s + ue_completion s
     \<and> ue_cost s = plain_cost price (ue_prompt s) (ue_completion s)"

lemma granted_check:
  assumes "granted_call limits price C r s T"
    and "(res, limit, used, request) \<in> set (budget_checks limits (totals_of C) (EntryTotals r))"
    and "0 < limit" and "0 \<le> request" and "is_int64 used"
  shows "used + request \<le> limit" "wrap64 (used + request) = used + request" "is_int64 (limit - used)"
proof -
  have "limit \<le> max_int64"
    using assms(1,2) by (auto simp: granted_call_def budget_checks_def budget_int64_def)
  moreover have "\<not> check_fails (res, limit, used, request)"
    using assms(1,2) by (simp add: granted_call_def)
  ultimately show "used + request \<le> limit" "wrap64 (used + request) = used + request"
    "is_int64 (limit - used)"
    using check_passes [of res limit used request] assms(3-5) by blast+
qed

lemma request_fields:
  assumes "granted_call limits price C r s T"
  shows "ut_model_calls (EntryTotals r) = 1" "ut_prompt (EntryTotals r) = ue_prompt r"
  "ut_completion (EntryTotals r) = 1" "ut_total (EntryTotals r) = ue_prompt r + 1"
  "ut_tool_calls (EntryTotals r) = 0" "ut_cost (EntryTotals r) = ue_cost r"
  using assms EntryTotals_fields [of r] by (simp_all add: granted_call_def entry_int64_def)

lemma current_int64:
  "is_int64 (ut_model_calls (totals_of C))" "is_int64 (ut_prompt (totals_of C))"
  "is_int64 (ut_completion (totals_of C))" "is_int64 (ut_total (totals_of C))"
  "is_int64 (ut_tool_calls (totals_of C))"
  using wrap64_range by (simp_all add: totals_of_def)

lemma totals_of_Cons:
  "is_cost (ue_cost e) \<Longrightarrow> costs_ok C \<Longrightarrow> totals_of (e # C) = addEntry e (totals_of C)"
  by (intro addEntry_totals [symmetric]) (auto simp: costs_ok_def)

lemma settled_sum:
  assumes "is_int64 used" and "used + x \<le> limit" and "limit \<le> max_int64" and "0 \<le> x"
  shows "wrap64 (used + x) \<le> limit"
  using assms by (subst wrap64_id) auto

lemma granted_totals:
  assumes "granted_call limits price C r s T"
  shows "ut_completion T = wrap64 (ut_completion (totals_of C) + 1)"
  "ut_total T = wrap64 (ut_total (totals_of C) + (ue_prompt r + 1))"
  "ut_cost T = addCost (ut_cost (totals_of C)) (ue_cost r)"
proof -
  have "is_cost (ue_cost r)" using assms plain_cost_cost by (simp add: granted_call_def)
  then show "ut_completion T = wrap64 (ut_completion (totals_of C) + 1)"
    "ut_total T = wrap64 (ut_total (totals_of C) + (ue_prompt r + 1))"
    "ut_cost T = addCost (ut_cost (totals_of C)) (ue_cost r)"
    using assms by (auto simp: granted_call_def totals_of_Cons with_open_def addEntry_def)
qed

lemma completion_settles:
  assumes g: "granted_call limits price C r s T" and pos: "0 < MaxCompletionTokens limits"
  shows "wrap64 (ut_completion (totals_of C) + ue_completion s) \<le> MaxCompletionTokens limits"
proof -
  let ?cur = "ut_completion (totals_of C)" and ?lim = "MaxCompletionTokens limits"
  have lim: "?lim \<le> max_int64" using g by (simp add: granted_call_def budget_int64_def)
  have "(ResourceCompletionTokens, ?lim, ?cur, 1) \<in> set (budget_checks limits (totals_of C) (EntryTotals r))"
    by (simp add: budget_checks_def request_fields [OF g])
  note c = granted_check [OF g this pos _ current_int64(3)]
  have "ue_completion r = 1" using g by (simp add: granted_call_def)
  then have "completion_limit (pricedLimits limits price) T r = Some (?lim - ?cur)"
    using pos c by (simp add: completion_limit_def pricedLimits_def granted_totals [OF g] wrap64_id current_int64)
  from maxCompletionTokens_bounds(1) [OF _ this, of "ue_completion s"]
  have "ue_completion s \<le> ?lim - ?cur" using c g by (simp add: granted_call_def)
  then show ?thesis using g lim by (intro settled_sum current_int64) (auto simp: granted_call_def)
qed

lemma total_settles:
  assumes g: "granted_call limits price C r s T" and pos: "0 < MaxTotalTokens limits"
  shows "wrap64 (ut_total (totals_of C) + ue_total s) \<le> MaxTotalTokens limits"
proof -
  let ?cur = "ut_total (totals_of C)" and ?lim = "MaxTotalTokens limits"
  have lim: "?lim \<le> max_int64" using g by (simp add: granted_call_def budget_int64_def)
  have p: "0 \<le> ue_prompt r" using g by (simp add: granted_call_def)
  have "(ResourceTotalTokens, ?lim, ?cur, ue_prompt r + 1) \<in> set (budget_checks limits (totals_of C) (EntryTotals r))"
    by (simp add: budget_checks_def request_fields [OF g])
  note c = granted_check [OF g this pos _ current_int64(4)]
  have c: "?cur + (ue_prompt r + 1) \<le> ?lim" "wrap64 (?cur + (ue_prompt r + 1)) = ?cur + (ue_prompt r + 1)"
    "is_int64 (?lim - ?cur)" using c p by simp_all
  have "is_int64 (?lim - ?cur - ue_prompt r)" using c p by (auto simp: min_int64_def)
  moreover have "ue_total r = ue_prompt r + 1" using g by (simp add: granted_call_def)
  ultimately have "total_limit (pricedLimits limits price) T r = Some (?lim - ?cur - ue_prompt r)"
    using pos c by (simp add: total_limit_def pricedLimits_def granted_totals [OF g] wrap64_id current_int64)
  from maxCompletionTokens_bounds(2) [OF _ this, of "ue_completion s"]
  have "ue_completion s \<le> ?lim - ?cur - ue_prompt r" using c g by (simp add: granted_call_def)
  then show ?thesis using g lim by (intro settled_sum current_int64) (auto simp: granted_call_def)
qed

lemma addCost_exact: "is_cost a \<Longrightarrow> is_cost b \<Longrightarrow> a + b \<le> max_int64 \<Longrightarrow> addCost a b = a + b"
  by (simp add: addCost_saturates)

text \<open>The tokens that the remaining money buys cost at most that money.\<close>

lemma affordable_tokens:
  assumes "0 < price" and "0 \<le> remaining" and "remaining < max_int64"
    and "n \<le> (if is_int64 (quo (remaining * 1000000) price) then quo (remaining * 1000000) price else max_int64)"
  shows "tokenCostMicros n price \<le> remaining"
proof (cases "0 < n")
  case True
  have q: "quo (remaining * 1000000) price = remaining * 1000000 div price"
    using assms(1,2) by (simp add: quo_nonneg)
  have "0 \<le> remaining * 1000000 div price"
    using assms(1,2) by (simp add: pos_imp_zdiv_nonneg_iff)
  then have "n \<le> remaining * 1000000 div price"
    using assms(4) by (auto simp: q min_int64_def split: if_splits)
  then have "n * price \<le> remaining * 1000000 div price * price"
    using assms(1) by (intro mult_right_mono) auto
  also have "\<dots> \<le> remaining * 1000000"
    using assms(1) by (simp add: minus_mod_eq_div_mult [symmetric])
  finally show ?thesis using True assms(1,3) by (simp add: tokenCost_le_iff)
qed (use assms(2) in \<open>simp add: tokenCost_zero\<close>)

lemma one_token_affordable:
  assumes "0 < price" and "tokenCostMicros 1 price \<le> remaining" and "remaining < max_int64"
  shows "1 \<le> (if is_int64 (quo (remaining * 1000000) price) then quo (remaining * 1000000) price else max_int64)"
proof -
  have "price \<le> remaining * 1000000" using assms tokenCost_le_iff [of remaining 1 price] by simp
  then have "1 \<le> remaining * 1000000 div price"
    using assms(1) zdiv_mono1 [of price "remaining * 1000000" price] by simp
  moreover have "0 \<le> remaining" using \<open>price \<le> remaining * 1000000\<close> assms(1) by linarith
  ultimately show ?thesis using assms(1) by (auto simp: quo_nonneg max_int64_def)
qed

lemma cost_settles:
  assumes g: "granted_call limits price C r s T" and pos: "0 < MaxEstimatedCostMicros limits"
  shows "addCost (ut_cost (totals_of C)) (ue_cost s) \<le> MaxEstimatedCostMicros limits"
proof (cases "MaxEstimatedCostMicros limits = max_int64")
  case True
  have "is_cost (ut_cost (totals_of C))" "is_cost (ue_cost s)"
    using g costs_total plain_cost_cost by (auto simp: granted_call_def)
  then show ?thesis using True by (simp add: addCost_saturates)
next
  case False
  let ?cur = "ut_cost (totals_of C)" and ?lim = "MaxEstimatedCostMicros limits"
  let ?in = "tokenCostMicros (ue_prompt r) (InputPerMillionTokensMicros price)"
  let ?one = "tokenCostMicros 1 (OutputPerMillionTokensMicros price)"
  let ?out = "tokenCostMicros (ue_completion s) (OutputPerMillionTokensMicros price)"
  let ?p = "tokenCostMicros (ue_prompt s) (InputPerMillionTokensMicros price)"
  have lim: "?lim < max_int64" using g False by (simp add: granted_call_def budget_int64_def)
  have costs: "is_cost ?cur" "is_cost ?in" "is_cost ?one" "is_cost ?out" "is_cost ?p"
    using g costs_total tokenCost_cost by (auto simp: granted_call_def)
  have rcost: "ue_cost r = addCost ?in ?one" and scost: "ue_cost s = addCost ?p ?out"
    using g by (simp_all add: granted_call_def plain_cost_def)
  have "(ResourceEstimatedCost, ?lim, ?cur, ue_cost r) \<in> set (budget_checks limits (totals_of C) (EntryTotals r))"
    by (simp add: budget_checks_def request_fields [OF g])
  from granted_check(1) [OF g this pos] have "?cur + ue_cost r \<le> ?lim"
    using costs addCost_cost [OF costs(2,3)] by (simp add: rcost min_int64_def)
  then have fits: "?cur + ?in + ?one \<le> ?lim" and r: "ue_cost r = ?in + ?one"
    using costs lim by (auto simp: rcost addCost_saturates)
  have "?p \<le> ?in" using g by (intro tokenCost_mono) (simp add: granted_call_def)
  moreover have "?out \<le> ?lim - ?cur - ?in"
  proof (cases "0 < OutputPerMillionTokensMicros price")
    case True
    have base: "addCost (wrap64 (ut_cost T - ue_cost r)) ?in = ?cur + ?in"
      using costs fits lim r
      by (simp add: granted_totals [OF g] addCost_exact wrap64_id min_int64_def)
    have rem: "max 0 (wrap64 (?lim - (?cur + ?in))) = ?lim - ?cur - ?in"
      using costs fits lim by (subst wrap64_id) (auto simp: min_int64_def)
    let ?n = "quo ((?lim - ?cur - ?in) * 1000000) (OutputPerMillionTokensMicros price)"
    have "cost_limit (pricedLimits limits price) T r = Some (if is_int64 ?n then ?n else max_int64)"
      using pos True by (simp add: cost_limit_def pricedLimits_def Let_def base rem)
    from maxCompletionTokens_bounds(3) [OF _ this, of "ue_completion s"]
    have "ue_completion s \<le> max 1 (if is_int64 ?n then ?n else max_int64)"
      using g by (simp add: granted_call_def)
    moreover have "1 \<le> (if is_int64 ?n then ?n else max_int64)"
      using fits lim costs by (intro one_token_affordable [OF True]) auto
    ultimately show ?thesis using fits lim costs by (intro affordable_tokens [OF True]) auto
  qed (use costs fits in \<open>simp add: tokenCost_zero\<close>)
  ultimately have "?cur + (?p + ?out) \<le> ?lim" by simp
  then show ?thesis using costs lim by (simp add: scost addCost_exact addCost_cost)
qed

lemma settlement_within:
  assumes g: "granted_call limits price C r s T"
  shows "within_budget limits (with_open k (totals_of (s # C)))"
proof -
  have lims: "budget_int64 limits" and s: "ue_model_calls s = 1" "ue_tool_calls s = 0" "0 \<le> ue_prompt s"
    "ue_prompt s \<le> ue_prompt r" and "costs_ok C" "is_cost (ue_cost s)"
    using g plain_cost_cost by (auto simp: granted_call_def)
  then have new: "totals_of (s # C) = addEntry s (totals_of C)" by (simp add: totals_of_Cons)
  have mem: "(ResourceModelCalls, MaxModelCalls limits, ut_model_calls (totals_of C), 1) \<in>
      set (budget_checks limits (totals_of C) (EntryTotals r))"
    "(ResourcePromptTokens, MaxPromptTokens limits, ut_prompt (totals_of C), ue_prompt r) \<in>
      set (budget_checks limits (totals_of C) (EntryTotals r))"
    "(ResourceToolCalls, MaxToolCalls limits, ut_tool_calls (totals_of C), 0) \<in>
      set (budget_checks limits (totals_of C) (EntryTotals r))"
    by (simp_all add: budget_checks_def request_fields [OF g])
  have "0 < MaxModelCalls limits \<Longrightarrow> wrap64 (ut_model_calls (totals_of C) + 1) \<le> MaxModelCalls limits"
    using granted_check [OF g mem(1) _ _ current_int64(1)] by simp
  moreover have "0 < MaxToolCalls limits \<Longrightarrow> wrap64 (ut_tool_calls (totals_of C)) \<le> MaxToolCalls limits"
    using granted_check [OF g mem(3) _ _ current_int64(5)] by simp
  moreover have "wrap64 (ut_prompt (totals_of C) + ue_prompt s) \<le> MaxPromptTokens limits"
    if "0 < MaxPromptTokens limits"
    using granted_check(1) [OF g mem(2) that _ current_int64(2)] s lims
    by (intro settled_sum current_int64) (auto simp: budget_int64_def)
  ultimately show ?thesis
    using completion_settles [OF g] total_settles [OF g] cost_settles [OF g] s
    by (simp add: within_budget_def with_open_def new) (simp add: addEntry_def)
qed

section \<open>From the tracker to the ledger\<close>

lemma listed_append_of_run:
  "ue_run_id e = rid \<Longrightarrow> mset (listRunUsageEntries (table @ [e]) rid) = mset (of_run table rid @ [e])"
  by (simp add: listed_mset of_run_def)

lemma BuildLedger_listed:
  assumes "ledger_ok es'" and "mset es = mset es'" and "any_order visit"
  shows "ul_totals (BuildLedger visit rid limits es) = spec_totals es'"
proof -
  have "ledger_ok es" using assms ledger_ok_mset by blast
  then show ?thesis
    using BuildLedger_totals [OF _ _ assms(3)] ledger_ok_costs spec_totals_mset [OF assms(2)]
    by (simp add: ledger_ok_def)
qed

lemma budget_checks_with_open:
  "budget_checks limits (with_open n t) u = budget_checks limits t u"
  by (simp add: budget_checks_def with_open_def)

text \<open>An admitted entry that is not a settlement: the ledger before and after.\<close>

lemma admitted_ledger:
  assumes "ApplyRunUsage visit runs e table = (reply, table')" and "ur_applied reply"
    and "usage_wf table" and "any_order visit" and "\<not> is_settlement e" and "ue_cost e \<le> max_int64"
    and "runs (ue_run_id e) = Some r"
  shows "ur_error reply = None" and "table' = table @ [e]"
    and "ledger_ok (of_run table (ue_run_id e))" and "admissible (of_run table (ue_run_id e)) e"
    and "\<exists>l m. ur_ledger reply = Some l \<and> ul_totals l =
      with_open m (totals_of (e # filter (counted (of_run table (ue_run_id e))) (of_run table (ue_run_id e))))"
    and "\<forall>c \<in> set (budget_checks (RunBudget r)
      (totals_of (filter (counted (of_run table (ue_run_id e))) (of_run table (ue_run_id e)))) (EntryTotals e)).
      \<not> check_fails c"
proof -
  let ?es = "of_run table (ue_run_id e)"
  obtain x where x: "runs (ue_run_id e) = Some x" "table' = table @ [e]"
    "admissible (listRunUsageEntries table (ue_run_id e)) e"
    "ur_ledger reply = Some (BuildLedger visit (ue_run_id e) (RunBudget x)
       (listRunUsageEntries table (ue_run_id e) @ [e]))"
    "ur_error reply = None"
    "Check (RunBudget x) (ul_totals (BuildLedger visit (ue_run_id e) (RunBudget x)
         (listRunUsageEntries table (ue_run_id e)))) (EntryTotals e) (ue_operation_id e) (ue_purpose e) = None"
    using ApplyRunUsage_applied [OF assms(1,2,6)] assms(5) by metis
  have r: "x = r" using x(1) assms(7) by simp
  show "ur_error reply = None" "table' = table @ [e]" using x by simp_all
  show ok: "ledger_ok ?es" using assms(3) by (simp add: usage_wf_def)
  show adm: "admissible ?es e" using x(3) by (simp add: admissible_listed)
  obtain m where m: "spec_totals (?es @ [e]) = with_open m (totals_of (e # filter (counted ?es) ?es))"
    using spec_totals_append [OF ok adm assms(5)] by blast
  have "mset (listRunUsageEntries table (ue_run_id e) @ [e]) = mset (?es @ [e])" by (simp add: listed_mset)
  then show "\<exists>l m. ur_ledger reply = Some l \<and> ul_totals l =
      with_open m (totals_of (e # filter (counted ?es) ?es))"
    using x(4) m BuildLedger_listed [OF ledger_ok_append [OF ok adm] _ assms(4)] by auto
  have "ul_totals (BuildLedger visit (ue_run_id e) (RunBudget x) (listRunUsageEntries table (ue_run_id e))) =
      spec_totals ?es"
    by (rule ledger_totals_listed [OF assms(3,4)])
  then show "\<forall>c \<in> set (budget_checks (RunBudget r) (totals_of (filter (counted ?es) ?es)) (EntryTotals e)).
      \<not> check_fails c"
    using x(6) r by (simp only: Check_None spec_totals_def budget_checks_with_open)
qed

lemma reservation_entry_fields:
  assumes "is_int64 (me_prompt est)"
  shows "ue_kind (reservation_entry t i now op est price) = UsageModelReservation"
    "ue_model_calls (reservation_entry t i now op est price) = 1"
    "ue_tool_calls (reservation_entry t i now op est price) = 0"
    "ue_prompt (reservation_entry t i now op est price) = max 0 (me_prompt est)"
    "ue_completion (reservation_entry t i now op est price) = 1"
    "ue_total (reservation_entry t i now op est price) = wrap64 (max 0 (me_prompt est) + 1)"
    "ue_run_id (reservation_entry t i now op est price) = run_id (tk_run t)"
    "ue_operation_id (reservation_entry t i now op est price) = op"
    "ue_cost (reservation_entry t i now op est price) = plain_cost price (max 0 (me_prompt est)) 1"
  using usageCost_plain [of True None "max 0 (me_prompt est)" price 1] assms
  by (auto simp: reservation_entry_def tracker_entry_def Let_def max_int64_def min_int64_def split: prod.splits)

lemma settlement_entry_fields:
  assumes "0 \<le> mu_prompt u" "0 \<le> mu_completion u" "mu_prompt u + mu_completion u \<le> max_int64"
    "mu_total u \<le> mu_prompt u + mu_completion u"
    "mu_estimated u \<or> Option.bind (mu_breakdown u) bd_cached = None"
  shows "ue_kind (settlement_entry t i now r u) = UsageModelSettlement"
    "ue_model_calls (settlement_entry t i now r u) = 1"
    "ue_tool_calls (settlement_entry t i now r u) = 0"
    "ue_prompt (settlement_entry t i now r u) = mu_prompt u"
    "ue_completion (settlement_entry t i now r u) = mu_completion u"
    "ue_total (settlement_entry t i now r u) = mu_prompt u + mu_completion u"
    "ue_run_id (settlement_entry t i now r u) = run_id (tk_run t)"
    "ue_operation_id (settlement_entry t i now r u) = mr_operation_id r"
    "ue_cost (settlement_entry t i now r u) = plain_cost (mr_pricing r) (mu_prompt u) (mu_completion u)"
proof -
  have w: "wrap64 (mu_prompt u + mu_completion u) = mu_prompt u + mu_completion u"
    using assms by (intro wrap64_id) (auto simp: min_int64_def)
  have p: "is_int64 (mu_prompt u)" using assms by (auto simp: min_int64_def)
  show "ue_kind (settlement_entry t i now r u) = UsageModelSettlement"
    "ue_model_calls (settlement_entry t i now r u) = 1"
    "ue_tool_calls (settlement_entry t i now r u) = 0"
    "ue_prompt (settlement_entry t i now r u) = mu_prompt u"
    "ue_completion (settlement_entry t i now r u) = mu_completion u"
    "ue_total (settlement_entry t i now r u) = mu_prompt u + mu_completion u"
    "ue_run_id (settlement_entry t i now r u) = run_id (tk_run t)"
    "ue_operation_id (settlement_entry t i now r u) = mr_operation_id r"
    "ue_cost (settlement_entry t i now r u) = plain_cost (mr_pricing r) (mu_prompt u) (mu_completion u)"
    using usageCost_plain [OF assms(5) p, of "mr_pricing r" "mu_completion u"] assms w
    by (auto simp: settlement_entry_def tracker_entry_def Let_def split: prod.splits)
qed

lemma BeginModelCall_Inr:
  assumes "BeginModelCall visit runs t new_op i now est table = (Inr res, table', ns)"
  obtains e reply where
    "e = reservation_entry t i now (mr_operation_id res) est (mr_pricing res)"
    "ApplyRunUsage visit runs e table = (reply, table')" "ur_error reply = None"
    "mr_prompt res = max 0 (me_prompt est)"
    "mr_max_completion res = (case ur_ledger reply of
       Some l \<Rightarrow> maxCompletionTokens (pricedLimits (tk_budget t) (mr_pricing res)) (ul_totals l) e
     | None \<Rightarrow> 0)"
  using assms
  by (auto simp: BeginModelCall_def Let_def split: option.splits sum.splits prod.splits)

lemma settlement_not_exceeded:
  assumes "ApplyRunUsage visit runs e table = (reply, table')" and "\<not> ur_applied reply" and "is_settlement e"
  shows "ur_error reply \<noteq> Some (BudgetExceeded x)"
  using assms
  by (auto simp: ApplyRunUsage_def Let_def refused_def is_settlement_def ValidateUsageEntry_def
      split: option.splits if_splits)

lemma granted_call_from_ledger:
  assumes "usage_wf table" and "any_order visit" and "runs (run_id (tk_run t)) = Some r0"
    and "RunBudget r0 = tk_budget t" and "budget_int64 (tk_budget t)"
    and "is_int64 (me_prompt est)" and "me_prompt est < max_int64"
    and "e = reservation_entry t i now op est price"
    and "ApplyRunUsage visit runs e table = (reply, table')" and "ur_applied reply"
    and "ur_ledger reply = Some l"
    and "ue_completion s \<le> maxCompletionTokens (pricedLimits (tk_budget t) price) (ul_totals l) e \<or>
      maxCompletionTokens (pricedLimits (tk_budget t) price) (ul_totals l) e = 0"
    and "ue_model_calls s = 1" "ue_tool_calls s = 0" "0 \<le> ue_prompt s" "ue_prompt s \<le> max 0 (me_prompt est)"
    and "0 \<le> ue_completion s" "ue_total s = ue_prompt s + ue_completion s"
    and "ue_cost s = plain_cost price (ue_prompt s) (ue_completion s)"
  shows "granted_call (tk_budget t) price
      (filter (counted (of_run table (run_id (tk_run t)))) (of_run table (run_id (tk_run t)))) e s (ul_totals l)"
proof -
  let ?es = "of_run table (run_id (tk_run t))"
  note f = reservation_entry_fields [OF assms(6), of t i now op price, folded assms(8)]
  have total: "wrap64 (max 0 (me_prompt est) + 1) = max 0 (me_prompt est) + 1"
    using assms(7) by (intro wrap64_id) (auto simp: min_int64_def max_int64_def)
  have kind: "\<not> is_settlement e" using f(1) by (simp add: is_settlement_def)
  have cost: "ue_cost e \<le> max_int64" using f(9) plain_cost_cost by simp
  note a = admitted_ledger [where runs = runs and r = r0, OF assms(9,10,1,2) kind cost, unfolded f(7), OF assms(3)]
  have "entry_ok e" using a(4) by (simp add: admissible_def)
  moreover have "entry_int64 e"
    using f total assms(6,7) plain_cost_cost [of price "max 0 (me_prompt est)" 1]
    by (auto simp: entry_int64_def max_int64_def min_int64_def)
  moreover have "costs_ok (filter (counted ?es) ?es)"
    using ledger_ok_costs [OF a(3)] by (auto simp: costs_ok_def)
  moreover have "\<exists>m. ul_totals l = with_open m (totals_of (e # filter (counted ?es) ?es))"
    using a(5) assms(11) by auto
  ultimately show ?thesis
    using a(6) f total assms(4,5,12-19) by (auto simp: granted_call_def)
qed

end
