(* ===== verification/Budget_Guarantees.thy ===== *)
theory Budget_Guarantees
  imports Budget_Safety
begin

text \<open>
  What the budget promises to the operator of a Run, over the lemmas of \<open>Budget_Safety\<close>: the hard
  limits hold at every admission and through the settlement of a call that stays within its grant,
  the ledger means what its entries say, recording is idempotent, and the runtime check of the
  table never fires.
\<close>

section \<open>Example: one call under a completion budget\<close>

definition example_budget :: run_budget where
  "example_budget = no_budget\<lparr>MaxCompletionTokens := 100, MaxEstimatedCostMicros := 5000,
     InputCostPerMillionTokensMicros := 1000000, OutputCostPerMillionTokensMicros := 2000000\<rparr>"

definition budgeted_run :: run where
  "budgeted_run = example_run\<lparr>run_snapshot := Some \<lparr>snap_execution_constraint = [],
     snap_plan_origin = None, snap_schema_version = 18, snap_routes = [],
     snap_run_budget = Some example_budget, snap_rest = []\<rparr>\<rparr>"

definition example_runs :: "string \<rightharpoonup> run" where
  "example_runs = [''run'' \<mapsto> budgeted_run]"

definition example_tracker :: tracker where
  "example_tracker = NewTracker budgeted_run [] ''turn''"

definition example_estimate :: model_estimate where
  "example_estimate = \<lparr>me_route_id = [], me_operation_id = ''call'', me_purpose = UsagePurposePrimary,
     me_model = ''model'', me_prompt = 10\<rparr>"


lemma example_budget_int64: "budget_int64 example_budget"
  by (simp add: budget_int64_def example_budget_def no_budget_def max_int64_def)

lemma usage_wf_Nil: "usage_wf []"
  by (simp add: usage_wf_def of_run_def ledger_ok_def unique_operations_def)

lemma any_order_id: "any_order id" "any_order rev"
  by (simp_all add: any_order_def)

lemma trim_more [simp]: "trim_space ''run'' = ''run''" "trim_space ''call'' = ''call''" "trim_space ''model'' = ''model''"
  "trim_space ''u1'' = ''u1''" "trim_space ''u2'' = ''u2''"
  by code_simp+

definition example_reservation :: usage_entry where
  "example_reservation = reservation_entry example_tracker ''u1'' 5 ''call'' example_estimate (globalPricing example_budget)"

lemma example_pricing: "globalPricing example_budget = \<lparr>pricing_source = ''run_budget'',
    InputPerMillionTokensMicros = 1000000, OutputPerMillionTokensMicros = 2000000,
    CachedInputPerMillionTokensMicros = None\<rparr>"
  by (simp add: globalPricing_def example_budget_def no_budget_def)

lemma example_cost: "usageCost (globalPricing example_budget) 10 1 None True =
    (12, \<lparr>cd_status = ''estimated'', cd_reason = ''estimated_usage'',
        cd_pricing = globalPricing example_budget, cd_discount = False\<rparr>)"
  unfolding example_pricing by code_simp

lemma example_tracker_fields:
  "run_id (tk_run example_tracker) = ''run''" "tk_stage_id example_tracker = []"
  "tk_turn_id example_tracker = ''turn''" "tk_budget example_tracker = example_budget"
  "tk_run example_tracker = budgeted_run" "RunBudget budgeted_run = example_budget"
  "run_id budgeted_run = ''run''"
  by (simp_all add: example_tracker_def NewTracker_def RunBudget_def budgeted_run_def example_run_def)

lemma example_reservation_eq:
  "example_reservation = \<lparr>ue_id = ''u1'', ue_run_id = ''run'', ue_operation_id = ''call'',
      ue_stage_id = [], ue_turn_id = ''turn'', ue_kind = UsageModelReservation,
      ue_purpose = UsagePurposePrimary, ue_model = ''model'', ue_tool_name = [], ue_model_calls = 1,
      ue_tool_calls = 0, ue_prompt = 10, ue_completion = 1, ue_total = 11, ue_cost = 12,
      ue_estimated = True, ue_breakdown = None,
      ue_cost_details = Some \<lparr>cd_status = ''estimated'', cd_reason = ''estimated_usage'',
        cd_pricing = globalPricing example_budget, cd_discount = False\<rparr>,
      ue_timestamp = 5\<rparr>"
proof -
  have "wrap64 11 = 11" by code_simp
  then show ?thesis
    unfolding example_reservation_def reservation_entry_def
    by (simp add: example_estimate_def example_cost example_tracker_fields tracker_entry_def
        normalizePurpose_def del: wrap64_def)
qed

lemma example_reservation_applies:
  "\<exists>reply. ApplyRunUsage id example_runs example_reservation [] = (reply, [example_reservation])
     \<and> ur_applied reply \<and> ur_error reply = None
     \<and> (\<exists>l. ur_ledger reply = Some l \<and> ut_completion (ul_totals l) = 1 \<and> ut_total (ul_totals l) = 11
         \<and> ut_cost (ul_totals l) = 12)"
  by (simp add: ApplyRunUsage_def ValidateUsageEntry_def breakdown_error_def example_reservation_eq
      example_runs_def Let_def listRunUsageEntries_def BuildLedger_def scan_entry_def settle_entry_def
      Check_def budget_checks_def check_fails_def EntryTotals_def addEntry_def no_usage_def RunBudget_def
      budgeted_run_def example_budget_def no_budget_def wrap64_def max_int64_def addCost_def
      cost_unknown_def CheckTotals_def)

section \<open>Properties\<close>



text \<open>
  C9: Admission enforces every hard limit: when \<open>ApplyRunUsage\<close> records a reservation or a tool call,
  no error is reported and the resulting totals are within all configured limits; the table keeps
  its invariant.
\<close>

theorem ApplyRunUsage_admits_within:
  assumes "usage_reachable visit runs table" and "any_order visit" and "runs (ue_run_id e) = Some r"
    and "budget_int64 (RunBudget r)" and "entry_int64 e" and "ue_kind e \<noteq> UsageModelSettlement"
    and "ApplyRunUsage visit runs e table = (reply, table')" and "ur_applied reply"
  shows "ur_error reply = None \<and> usage_wf table'
    \<and> (\<exists>l. ur_ledger reply = Some l \<and> within_budget (RunBudget r) (ul_totals l))"
proof -
  let ?es = "of_run table (ue_run_id e)"
  have wf: "usage_wf table" by (rule usage_reachable_wf [OF assms(1)])
  have e: "\<not> is_settlement e" "ue_cost e \<le> max_int64"
    using assms(5,6) by (simp_all add: is_settlement_def entry_int64_def)
  note a = admitted_ledger [OF assms(7,8) wf assms(2) e assms(3)]
  obtain l m where l: "ur_ledger reply = Some l"
    "ul_totals l = with_open m (totals_of (e # filter (counted ?es) ?es))"
    using a(5) by blast
  have "entry_ok e" using a(4) by (simp add: admissible_def)
  moreover have "costs_ok (e # filter (counted ?es) ?es)"
    using ledger_ok_costs [OF a(3)] \<open>entry_ok e\<close> ValidateUsageEntry_None(1) [of e]
    by (auto simp: costs_ok_def entry_ok_def)
  moreover have "Check (RunBudget r) (with_open 0 (totals_of (filter (counted ?es) ?es))) (EntryTotals e)
      (ue_operation_id e) (ue_purpose e) = None"
    using a(6) by (simp only: Check_None budget_checks_with_open)
  ultimately have "within_budget (RunBudget r) (ul_totals l)"
    using l(2) admitted_within [OF _ assms(4) _ assms(5)] by simp
  then show ?thesis using l a(1) ApplyRunUsage_wf [OF assms(7) wf e(2)] by blast
qed

theorem ApplyRunUsage_admits_within_witness:
  "\<exists>reply. ApplyRunUsage id example_runs example_reservation [] = (reply, [example_reservation])
     \<and> (\<exists>l. ur_ledger reply = Some l \<and> within_budget example_budget (ul_totals l))"
proof -
  obtain reply where reply: "ApplyRunUsage id example_runs example_reservation [] = (reply, [example_reservation])"
    "ur_applied reply"
    using example_reservation_applies by blast
  have r: "RunBudget budgeted_run = example_budget" by (simp add: RunBudget_def budgeted_run_def)
  have "entry_int64 example_reservation" "ue_kind example_reservation \<noteq> UsageModelSettlement"
    "example_runs (ue_run_id example_reservation) = Some budgeted_run"
    by (simp_all add: entry_int64_def example_reservation_eq example_runs_def max_int64_def min_int64_def)
  from ApplyRunUsage_admits_within [OF usage_start any_order_id(1) this(3) _ this(1,2) reply]
  show ?thesis using reply r example_budget_int64 by auto
qed

text \<open>
  C10: The totals do not depend on the order in which Go iterates over the map of reservations, and
  they are what the ledger means: the sum over the tool calls, the settlements, and the
  reservations that have no settlement yet, with the number of the latter.
\<close>

theorem BuildLedger_reference:
  assumes "usage_reachable visit runs table" and "any_order order"
  shows "ul_totals (BuildLedger order rid limits (listRunUsageEntries table rid)) =
    with_open (open_reservations (of_run table rid))
      (totals_of (filter (counted (of_run table rid)) (of_run table rid)))"
  using ledger_totals_listed [OF usage_reachable_wf [OF assms(1)] assms(2)] by (simp add: spec_totals_def)

theorem BuildLedger_reference_witness:
  "ul_totals (BuildLedger rev ''run'' example_budget (listRunUsageEntries [example_reservation] ''run'')) =
     with_open 1 (totals_of [example_reservation])"
proof -
  obtain reply where "ApplyRunUsage id example_runs example_reservation [] = (reply, [example_reservation])"
    using example_reservation_applies by blast
  then have "usage_reachable id example_runs [example_reservation]"
    by (rule usage_record [OF usage_start, rotated])
      (simp add: entry_int64_def example_reservation_eq max_int64_def min_int64_def)
  from BuildLedger_reference [OF this any_order_id(2), of "''run''" example_budget]
  show ?thesis
    by (simp add: of_run_def counted_def open_reservations_def settled_in_def reserved_in_def is_tool_def
        is_settlement_def is_reservation_def example_reservation_eq)
qed

text \<open>
  Recording is idempotent: recording an entry again, under a new identifier and at a later time
  but otherwise the same, reports success without applying it and leaves table and ledger as they
  are.
\<close>

theorem ApplyRunUsage_idempotent:
  assumes "usage_wf table" and "ApplyRunUsage visit runs e table = (reply, table')" and "ur_applied reply"
    and "ue_cost e \<le> max_int64" and "trim_space i \<noteq> []" and "t \<noteq> 0"
  shows "\<exists>reply'. ApplyRunUsage visit runs (e\<lparr>ue_id := i, ue_timestamp := t\<rparr>) table' = (reply', table')
    \<and> \<not> ur_applied reply' \<and> ur_error reply' = None
    \<and> ur_ledger reply' = GetRunUsageLedger visit runs (ue_run_id e) table'"
proof -
  let ?e = "e\<lparr>ue_id := i, ue_timestamp := t\<rparr>"
  obtain r where r: "runs (ue_run_id e) = Some r" "table' = table @ [e]"
    "admissible (listRunUsageEntries table (ue_run_id e)) e"
    using ApplyRunUsage_applied [OF assms(2,3,4)] by metis
  have valid: "ValidateUsageEntry ?e = None"
    using r(3) assms(5,6)
    by (auto simp: admissible_def entry_ok_def ValidateUsageEntry_def split: option.splits if_splits)
  have wf: "ledger_ok (listRunUsageEntries table' (ue_run_id e))"
    using usage_wf_listed [OF ApplyRunUsage_wf [OF assms(2,1,4)]] by blast
  have mem: "e \<in> set (listRunUsageEntries table' (ue_run_id e))"
    using mset_eq_setD [OF listed_mset [of table' "ue_run_id e"]] r(2) by (simp add: of_run_def)
  have "find (same_operation ?e) (listRunUsageEntries table' (ue_run_id e)) \<noteq> None"
    using mem by (auto simp: same_operation_find)
  then obtain x where x: "find (same_operation ?e) (listRunUsageEntries table' (ue_run_id e)) = Some x" by blast
  then have "x \<in> set (listRunUsageEntries table' (ue_run_id e))" "same_operation ?e x"
    by (auto simp: find_Some_iff)
  then have "x = e"
    using wf mem by (auto simp: ledger_ok_def unique_operations_def same_operation_def distinct_map inj_on_def)
  then have "SameUsageEntry x ?e" by (simp add: SameUsageEntry_def)
  then show ?thesis
    using valid r(1) x by (simp add: ApplyRunUsage_def GetRunUsageLedger_def Let_def)
qed

theorem ApplyRunUsage_idempotent_witness:
  "\<exists>reply'. ApplyRunUsage id example_runs (example_reservation\<lparr>ue_id := ''u2'', ue_timestamp := 9\<rparr>)
       [example_reservation] = (reply', [example_reservation])
     \<and> \<not> ur_applied reply' \<and> ur_error reply' = None"
proof -
  obtain reply where reply: "ApplyRunUsage id example_runs example_reservation [] = (reply, [example_reservation])"
    "ur_applied reply"
    using example_reservation_applies by blast
  have "ue_cost example_reservation \<le> max_int64" by (simp add: example_reservation_eq max_int64_def)
  from ApplyRunUsage_idempotent [OF usage_wf_Nil reply this, of "''u2''" 9] show ?thesis by auto
qed

text \<open>The runtime check of the usage ledger never reports a failure for recorded tables.\<close>

theorem recorded_usage_passes_invariants:
  assumes "usage_reachable visit runs table"
  shows "CheckUsageInvariants (listRunUsageEntries table rid) = []"
  by (rule ledger_ok_invariants [OF usage_wf_listed [OF usage_reachable_wf [OF assms]]])

theorem recorded_usage_passes_invariants_witness:
  "CheckUsageInvariants (listRunUsageEntries [] ''run'') = []"
  by (rule recorded_usage_passes_invariants [OF usage_start])

end
