(* ===== verification/Go_Json.thy ===== *)
theory Go_Json
  imports Domain
begin

text \<open>
  The text that \<open>encoding/json\<close> produces for strings, integers, times and the objects and arrays
  built from them, as far as the program measures or stores it. Decoding what was encoded yields
  the sanitised string (\<open>sanitize_utf8\<close>); the layout of a time is a parameter. Decoding a value
  of unknown type turns every number into a \<open>float64\<close>.
\<close>

section \<open>Strings\<close>

definition hex_digit :: "nat \<Rightarrow> char" where
  "hex_digit n = ''0123456789abcdef'' ! n"

definition json_rune :: "string \<Rightarrow> string" where
  "json_rune r =
     (if rune_width r = 0 then (CHR 0x5C # ''ufffd'')
      else case r of
        [c] \<Rightarrow>
          if c = CHR 0x22 \<or> c = CHR 0x5C then [CHR 0x5C, c]
          else if c = CHR 0x08 then (CHR 0x5C # ''b'')
          else if c = CHR 0x0C then (CHR 0x5C # ''f'')
          else if c = CHR 0x0A then (CHR 0x5C # ''n'')
          else if c = CHR 0x0D then (CHR 0x5C # ''r'')
          else if c = CHR 0x09 then (CHR 0x5C # ''t'')
          else if byte c < 32 \<or> c = CHR 0x3C \<or> c = CHR 0x3E \<or> c = CHR 0x26
          then (CHR 0x5C # ''u00'') @ [hex_digit (byte c div 16), hex_digit (byte c mod 16)]
          else r
      | _ \<Rightarrow> if r = [CHR 0xE2, CHR 0x80, CHR 0xA8] then (CHR 0x5C # ''u2028'')
             else if r = [CHR 0xE2, CHR 0x80, CHR 0xA9] then (CHR 0x5C # ''u2029'')
             else r)"

definition json_string :: "string \<Rightarrow> string" where
  "json_string s = CHR 0x22 # concat (map json_rune (runes s)) @ [CHR 0x22]"

lemma json_string_nonempty [simp]: "json_string s \<noteq> []"
  by (simp add: json_string_def)

section \<open>Integers\<close>

fun decimal_nat :: "nat \<Rightarrow> string" where
  "decimal_nat n = (if n < 10 then [hex_digit n] else decimal_nat (n div 10) @ [hex_digit (n mod 10)])"

declare decimal_nat.simps [simp del]

definition json_int :: "int \<Rightarrow> string" where
  "json_int n = (if n < 0 then CHR 0x2D # decimal_nat (nat (- n)) else decimal_nat (nat n))"

section \<open>Times\<close>

text \<open>
  A time is encoded when its year has four digits: it lies between the starts of the years 0 and
  10000, in nanoseconds since the start of the year 1.
\<close>

definition json_time :: "(int \<Rightarrow> string) \<Rightarrow> int \<Rightarrow> string option" where
  "json_time layout t =
     (if - 31622400000000000 \<le> t \<and> t < 315537897600000000000
      then Some (CHR 0x22 # layout t @ [CHR 0x22]) else None)"

section \<open>Objects and arrays\<close>

fun separated :: "string \<Rightarrow> string list \<Rightarrow> string" where
  "separated sep [] = []"
| "separated sep [x] = x"
| "separated sep (x # y # xs) = x @ sep @ separated sep (y # xs)"

definition json_array :: "string list \<Rightarrow> string" where
  "json_array xs = ''['' @ separated '','' xs @ '']''"

text \<open>The fields of a struct; a field with \<open>omitempty\<close> that is empty has no entry.\<close>

definition json_object :: "(string \<times> string) option list \<Rightarrow> string" where
  "json_object entries =
     ''{'' @ separated '','' (map (\<lambda>(k, v). json_string k @ '':'' @ v) (List.map_filter id entries)) @ ''}''"

abbreviation (input) json_field :: "string \<Rightarrow> string \<Rightarrow> (string \<times> string) option" where
  "json_field k v \<equiv> Some (k, v)"

definition omit_field :: "string \<Rightarrow> string \<Rightarrow> (string \<times> string) option" where
  "omit_field k s = (if s = [] then None else Some (k, json_string s))"

definition omit_array :: "string \<Rightarrow> string list \<Rightarrow> (string \<times> string) option" where
  "omit_array k xs = (if xs = [] then None else Some (k, json_array xs))"

section \<open>Values of unknown type\<close>

text \<open>
  What decoding the stored JSON of a payload value yields. Numbers come back as \<open>float64\<close>; a float
  has 53 significant bits and rounds to nearest, ties to even.
\<close>

definition round_half_even :: "int \<Rightarrow> int \<Rightarrow> int" where
  "round_half_even a d =
     (let q = a div d; r = a mod d
      in if 2 * r < d \<or> 2 * r = d \<and> even q then q else q + 1)"

fun float_shift :: "nat \<Rightarrow> int \<Rightarrow> nat" where
  "float_shift 0 a = 0"
| "float_shift (Suc n) a = (if a < 2 ^ 53 then 0 else Suc (float_shift n (a div 2)))"

definition float64_of_int :: "int \<Rightarrow> rat" where
  "float64_of_int n =
     (let d = 2 ^ float_shift 64 \<bar>n\<bar> in of_int (sgn n * (round_half_even \<bar>n\<bar> d * d)))"

fun json_any :: "any_value \<Rightarrow> any_value" where
  "json_any VNil = VNil"
| "json_any (VBool b) = VBool b"
| "json_any (VString s) = VString (sanitize_utf8 s)"
| "json_any (VInt n) = VFloat64 (float64_of_int n)"
| "json_any (VInt64 n) = VFloat64 (float64_of_int n)"
| "json_any (VFloat64 q) = VFloat64 q"
| "json_any (VRunStatus s) = VString (sanitize_utf8 (run_status_text s))"
| "json_any (VList xs) = VList (map json_any xs)"
| "json_any (VMap kvs) = VMap (map (\<lambda>(k, v). (sanitize_utf8 k, json_any v)) kvs)"

definition stored_payload :: "payload \<Rightarrow> payload" where
  "stored_payload p k = map_option json_any (p k)"

end
