(* ===== verification/Tool_Effects.thy ===== *)
theory Tool_Effects
  imports Recovery Go_Json
begin

text \<open>
  The journal of external side effects (\<open>store/postgres_checkpoints.go\<close>,
  \<open>store/postgres_effect_intent.go\<close>, \<open>store/tool_effect_reconciliation.go\<close>,
  \<open>store/checkpoint_records.go\<close>): one row per idempotency key, created when an executor begins an
  effect, settled by the executor, suspended by recovery, and moved on by reconciliation commands
  that check the row's version. As for the other tables, every operation is one transaction.
\<close>

section \<open>Operations\<close>

datatype effect_error =
    EffectStore store_error
  | VersionConflict int int
  | StateConflict effect_status
  | IdentityConflict
  | ComparisonPanic

abbreviation effect_rejected :: "string \<Rightarrow> effect_error + 'a" where
  "effect_rejected m \<equiv> Inl (EffectStore (Rejected m))"

definition getToolEffect :: "run_store \<Rightarrow> string \<Rightarrow> tool_effect option" where
  "getToolEffect st key = lookup_by eff_key (rs_effects st) key"

definition put_effect :: "tool_effect \<Rightarrow> run_store \<Rightarrow> run_store" where
  "put_effect e st =
     st\<lparr>rs_effects := update_rows (\<lambda>x. eff_key x = eff_key e) (\<lambda>_. e) (rs_effects st)\<rparr>"

definition ValidateToolEffect :: "tool_effect \<Rightarrow> bool" where
  "ValidateToolEffect e \<longleftrightarrow>
     (let missingOwner = trim_space (eff_stage_id e) = [] \<and> trim_space (eff_turn_id e) = []
      in \<not> (trim_space (eff_key e) = [] \<or> trim_space (eff_run_id e) = [] \<or> missingOwner
            \<or> trim_space (eff_tool_call_id e) = [] \<or> trim_space (eff_tool_name e) = []
            \<or> trim_space (eff_request_hash e) = []))"

text \<open>The row, and whether the caller may execute the effect.\<close>

definition BeginToolEffect ::
  "time \<Rightarrow> tool_effect \<Rightarrow> run_store \<Rightarrow> effect_error + (tool_effect \<times> bool) \<times> run_store" where
  "BeginToolEffect now e st =
     (if \<not> ValidateToolEffect e
      then effect_rejected ''tool effect requires idempotency, execution identity, and request hash''
      else
        (case getToolEffect st (eff_key e) of
           Some x \<Rightarrow>
             if eff_request_hash x \<noteq> eff_request_hash e \<or> eff_tool_name x \<noteq> eff_tool_name e
                \<or> eff_run_id x \<noteq> eff_run_id e
             then effect_rejected ''idempotency key was already used for a different tool request''
             else Inr ((x, False), st)
         | None \<Rightarrow>
             if get_run st (eff_run_id e) = None then Inl (EffectStore ForeignKeyMissing)
             else
               (let stored = e\<lparr>eff_status := ToolEffectExecuting, eff_version := 1, eff_result := [],
                      eff_created_at := now, eff_updated_at := now\<rparr>
                in Inr ((stored, True), st\<lparr>rs_effects := rs_effects st @ [stored]\<rparr>))))"

text \<open>A mutation reads the row and yields the new status, result and error.\<close>

type_synonym effect_mutation = "tool_effect \<Rightarrow> string + effect_status \<times> string \<times> string"

definition updateToolEffect ::
  "effect_mutation \<Rightarrow> time \<Rightarrow> string \<Rightarrow> run_store \<Rightarrow> effect_error + tool_effect \<times> run_store" where
  "updateToolEffect mutate now key st =
     (case getToolEffect st key of
        None \<Rightarrow> Inl (EffectStore (NotFound ''tool effect''))
      | Some e \<Rightarrow>
          (case mutate e of
             Inl m \<Rightarrow> effect_rejected m
           | Inr (status, result, message) \<Rightarrow>
               (let stored = e\<lparr>eff_version := eff_version e + 1, eff_status := status,
                      eff_result := result, eff_error := message, eff_updated_at := now\<rparr>
                in Inr (stored, put_effect stored st))))"

definition complete_mutation :: "string \<Rightarrow> effect_mutation" where
  "complete_mutation result e =
     (if eff_status e = ToolEffectCommitted then
        if eff_result e \<noteq> result then Inl ''committed tool effect result differs''
        else Inr (eff_status e, eff_result e, eff_error e)
      else if eff_status e \<noteq> ToolEffectExecuting then Inl ''tool effect is not executing''
      else Inr (ToolEffectCommitted, result, []))"

definition CompleteToolEffect ::
  "string \<Rightarrow> time \<Rightarrow> string \<Rightarrow> run_store \<Rightarrow> effect_error + tool_effect \<times> run_store" where
  "CompleteToolEffect result = updateToolEffect (complete_mutation result)"

definition suspend_mutation :: "string \<Rightarrow> effect_mutation" where
  "suspend_mutation message e =
     (if eff_status e \<noteq> ToolEffectExecuting \<and> eff_status e \<noteq> ToolEffectPrepared
         \<and> eff_status e \<noteq> ToolEffectNeedsReconciliation
      then Inl ''tool effect cannot accept a late execution failure''
      else Inr (ToolEffectNeedsReconciliation, eff_result e, trim_space message))"

definition MarkToolEffectNeedsReconciliation ::
  "string \<Rightarrow> time \<Rightarrow> string \<Rightarrow> run_store \<Rightarrow> effect_error + tool_effect \<times> run_store" where
  "MarkToolEffectNeedsReconciliation message = updateToolEffect (suspend_mutation message)"

text \<open>
  \<open>SaveToolEffectIntent\<close>: JSON validity and the redaction of JSON are parameters of the store.
\<close>

definition intent_mutation :: "string \<Rightarrow> effect_mutation" where
  "intent_mutation safe e =
     (if eff_status e \<noteq> ToolEffectExecuting \<or> eff_result e \<noteq> []
      then Inl ''Tool effect cannot replace prepared evidence''
      else Inr (eff_status e, safe, eff_error e))"

definition SaveToolEffectIntent ::
  "(string \<Rightarrow> string option) \<Rightarrow> string \<Rightarrow> time \<Rightarrow> string \<Rightarrow> run_store
    \<Rightarrow> effect_error + tool_effect \<times> run_store" where
  "SaveToolEffectIntent redact_json intent now key st =
     (if intent = [] \<or> length intent > 12000
      then effect_rejected ''invalid bounded Tool effect intent''
      else
        (case redact_json intent of
           None \<Rightarrow> effect_rejected ''invalid bounded Tool effect intent''
         | Some safe \<Rightarrow> updateToolEffect (intent_mutation safe) now key st))"

definition fail_mutation :: "string \<Rightarrow> effect_mutation" where
  "fail_mutation message e =
     (if eff_status e \<noteq> ToolEffectExecuting then Inl ''Tool effect execution ownership was lost''
      else Inr (ToolEffectFailed, eff_result e, message))"

definition FailToolEffect ::
  "services \<Rightarrow> string \<Rightarrow> time \<Rightarrow> string \<Rightarrow> run_store \<Rightarrow> effect_error + tool_effect \<times> run_store" where
  "FailToolEffect svc message = updateToolEffect (fail_mutation (redact_text svc (trim_space message)))"

text \<open>\<open>SELECT ... WHERE run_id = $1 ORDER BY created_at, idempotency_key\<close>\<close>

definition ListToolEffects :: "run_store \<Rightarrow> string \<Rightarrow> tool_effect list" where
  "ListToolEffects st rid =
     sort_key eff_created_at (sort_key eff_key (filter (\<lambda>e. eff_run_id e = rid) (rs_effects st)))"

section \<open>Reconciliation\<close>

datatype reconciliation_action =
    ToolEffectConfirmCommitted
  | ToolEffectConfirmFailed
  | ToolEffectRetrySameKey
  | ToolEffectCompensate
  | ToolEffectVerifyCompensation
  | ToolEffectActionOther string

fun action_text :: "reconciliation_action \<Rightarrow> string" where
  "action_text ToolEffectConfirmCommitted = ''confirm_committed''"
| "action_text ToolEffectConfirmFailed = ''confirm_failed''"
| "action_text ToolEffectRetrySameKey = ''retry_with_same_key''"
| "action_text ToolEffectCompensate = ''compensate''"
| "action_text ToolEffectVerifyCompensation = ''verify_compensation''"
| "action_text (ToolEffectActionOther s) = s"

record reconciliation =
  rec_command_id :: string
  rec_key :: string
  rec_expected_version :: int
  rec_action :: reconciliation_action
  rec_next_status :: effect_status
  rec_result :: string
  rec_error :: string
  rec_event :: run_event

text \<open>
  \<open>payload[k]\<close> of a missing key is a nil interface. The comparison of two interface values panics
  when both hold a slice or both hold a map.
\<close>

definition payload_value :: "payload \<Rightarrow> string \<Rightarrow> any_value" where
  "payload_value p k = (case p k of Some v \<Rightarrow> v | None \<Rightarrow> VNil)"

fun compare_panics :: "any_value \<Rightarrow> any_value \<Rightarrow> bool" where
  "compare_panics (VList xs) (VList ys) = True"
| "compare_panics (VMap xs) (VMap ys) = True"
| "compare_panics _ _ = False"

text \<open>The four keys that identify a command, compared in the order of the loop.\<close>

definition identity_keys :: "string list" where
  "identity_keys = [''command_id'', ''idempotency_key'', ''action'', ''command_hash'']"

fun same_identity :: "payload \<Rightarrow> payload \<Rightarrow> string list \<Rightarrow> effect_error option" where
  "same_identity p q [] = None"
| "same_identity p q (k # ks) =
     (if compare_panics (payload_value p k) (payload_value q k) then Some ComparisonPanic
      else if payload_value p k \<noteq> payload_value q k then Some IdentityConflict
      else same_identity p q ks)"

definition ValidateReconciliationDuplicate :: "payload \<Rightarrow> reconciliation \<Rightarrow> effect_error option" where
  "ValidateReconciliationDuplicate previous m =
     same_identity previous (ev_payload (rec_event m)) identity_keys"

text \<open>
  \<open>payloadInt64\<close>. The conversion of a \<open>float64\<close> outside the range of \<open>int64\<close> is left to the
  platform by Go; on amd64 it yields the least integer.
\<close>

fun payloadInt64 :: "any_value \<Rightarrow> int option" where
  "payloadInt64 (VInt n) = Some n"
| "payloadInt64 (VInt64 n) = Some n"
| "payloadInt64 (VFloat64 q) = (if q = of_int \<lfloor>q\<rfloor> \<and> is_int64 \<lfloor>q\<rfloor> then Some \<lfloor>q\<rfloor> else None)"
| "payloadInt64 _ = None"

definition validToolEffectSettlement :: "reconciliation \<Rightarrow> bool" where
  "validToolEffectSettlement m =
     (let t = ev_type (rec_event m); p = ev_payload (rec_event m)
      in if t = EventToolEffectReconciliationStarted then
           rec_next_status m = ToolEffectReconciling \<and> rec_result m = []
           \<and> (rec_action m = ToolEffectRetrySameKey \<or> rec_action m = ToolEffectCompensate)
           \<and> payload_value p ''outcome'' = VString ''pending''
           \<and> payload_value p ''command_hash'' \<noteq> VNil \<and> payload_value p ''command_hash'' \<noteq> VString []
         else if t = EventToolEffectReconciliationFailed then
           rec_action m = ToolEffectCompensate \<and> rec_next_status m = ToolEffectCommitted \<and> rec_result m \<noteq> []
           \<or> (rec_next_status m = ToolEffectNeedsReconciliation \<or> rec_next_status m = ToolEffectReconciling)
             \<and> rec_result m = []
         else if t \<noteq> EventToolEffectReconciled then False
         else
           (case rec_action m of
              ToolEffectConfirmCommitted \<Rightarrow> rec_next_status m = ToolEffectCommitted \<and> rec_result m \<noteq> []
            | ToolEffectRetrySameKey \<Rightarrow> rec_next_status m = ToolEffectCommitted \<and> rec_result m \<noteq> []
            | ToolEffectConfirmFailed \<Rightarrow> rec_next_status m = ToolEffectFailed \<and> rec_result m = []
            | ToolEffectCompensate \<Rightarrow> rec_next_status m = ToolEffectCompensated \<and> rec_result m = []
            | ToolEffectVerifyCompensation \<Rightarrow> rec_next_status m = ToolEffectCompensated \<and> rec_result m = []
            | ToolEffectActionOther s \<Rightarrow> False))"

definition committed_undo :: "tool_effect \<Rightarrow> reconciliation \<Rightarrow> bool" where
  "committed_undo e m \<longleftrightarrow> eff_status e = ToolEffectCommitted \<and> rec_action m = ToolEffectCompensate
     \<and> ev_type (rec_event m) = EventToolEffectReconciliationStarted"

text \<open>The checks of the command against the effect, in the order of the code.\<close>

definition reconciliation_error :: "tool_effect \<Rightarrow> reconciliation \<Rightarrow> effect_error option" where
  "reconciliation_error existing m =
     (let e = rec_event m; p = ev_payload e; version = max (eff_version existing) 1;
          started = ev_type e = EventToolEffectReconciliationStarted;
          undo = committed_undo existing m; status = eff_status existing
      in if trim_space (rec_command_id m) = [] \<or> trim_space (rec_key m) = [] \<or> rec_expected_version m \<le> 0
         then Some (EffectStore (Rejected
           ''tool effect reconciliation requires command, effect, and expected version''))
         else if rec_key m \<noteq> eff_key existing \<or> ev_run_id e \<noteq> eff_run_id existing
            \<or> ev_stage_id e \<noteq> eff_stage_id existing \<or> trim_space (ev_id e) = []
         then Some (EffectStore (Rejected ''tool effect reconciliation event does not match effect''))
         else if payload_value p ''command_id'' \<noteq> VString (rec_command_id m)
            \<or> payload_value p ''idempotency_key'' \<noteq> VString (rec_key m)
            \<or> payload_value p ''action'' \<noteq> VString (action_text (rec_action m))
            \<or> payloadInt64 (payload_value p ''expected_version'') \<noteq> Some (rec_expected_version m)
         then Some (EffectStore (Rejected
           ''tool effect reconciliation audit payload does not match command''))
         else if rec_expected_version m \<noteq> version
         then Some (VersionConflict (rec_expected_version m) version)
         else if \<not> undo \<and> status \<noteq> ToolEffectNeedsReconciliation \<and> status \<noteq> ToolEffectReconciling
         then Some (StateConflict status)
         else if started \<and> \<not> undo \<and> status \<noteq> ToolEffectNeedsReconciliation
         then Some (StateConflict status)
         else if \<not> started \<and> (rec_action m = ToolEffectRetrySameKey \<or> rec_action m = ToolEffectCompensate)
            \<and> status \<noteq> ToolEffectReconciling
         then Some (StateConflict status)
         else if \<not> validToolEffectSettlement m
         then Some (EffectStore (Rejected ''invalid tool effect reconciliation settlement''))
         else None)"

definition PrepareToolEffectReconciliation ::
  "tool_effect \<Rightarrow> reconciliation \<Rightarrow> effect_error + reconciliation" where
  "PrepareToolEffectReconciliation existing m =
     (case reconciliation_error existing m of
        Some err \<Rightarrow> Inl err
      | None \<Rightarrow>
          Inr (m\<lparr>rec_event := (rec_event m)\<lparr>ev_payload :=
            (ev_payload (rec_event m))(''result_version'' \<mapsto> VInt64 (max (eff_version existing) 1 + 1))\<rparr>\<rparr>))"

text \<open>The event row with identifier \<open>i\<close>.\<close>

definition find_event :: "run_store \<Rightarrow> string \<Rightarrow> run_event option" where
  "find_event st i = lookup_by ev_id (rs_events st) i"

definition kept_result :: "tool_effect \<Rightarrow> reconciliation \<Rightarrow> string" where
  "kept_result current m =
     (if rec_result m = [] \<and> (rec_next_status m = ToolEffectReconciling
         \<or> rec_next_status m = ToolEffectNeedsReconciliation)
      then eff_result current else rec_result m)"

definition reconciled_effect :: "time \<Rightarrow> reconciliation \<Rightarrow> tool_effect \<Rightarrow> tool_effect" where
  "reconciled_effect now m current =
     current\<lparr>eff_version := eff_version current + 1, eff_status := rec_next_status m,
       eff_result := kept_result current m, eff_error := trim_space (rec_error m), eff_updated_at := now\<rparr>"

text \<open>
  The effect, the appended event and whether the command was applied. The advisory lock and the
  row lock serialise commands, so the version in the \<open>UPDATE\<close>'s condition is the one just read.
\<close>

definition CommitToolEffectReconciliation ::
  "services \<Rightarrow> string \<Rightarrow> time \<Rightarrow> reconciliation \<Rightarrow> run_store
    \<Rightarrow> effect_error + (tool_effect \<times> run_event option) \<times> run_store" where
  "CommitToolEffectReconciliation svc new_id now m st =
     (case find_event st (ev_id (rec_event m)) of
        Some previous \<Rightarrow>
          (case ValidateReconciliationDuplicate (stored_payload (ev_payload previous)) m of
             Some err \<Rightarrow> Inl err
           | None \<Rightarrow>
               (case getToolEffect st (rec_key m) of
                  None \<Rightarrow> Inl (EffectStore (NotFound ''tool effect''))
                | Some current \<Rightarrow> Inr ((current, None), st)))
      | None \<Rightarrow>
          (case getToolEffect st (rec_key m) of
             None \<Rightarrow> Inl (EffectStore (NotFound ''tool effect''))
           | Some current \<Rightarrow>
               bind_result (PrepareToolEffectReconciliation current m)
                 (\<lambda>prepared.
                    bind_result (map_error (\<lambda>e. EffectStore (EventRejected e))
                        (preparePostgresRunEvent svc new_id
                          ((rec_event prepared)\<lparr>ev_timestamp := now\<rparr>) now))
                      (\<lambda>event.
                        (let stored = reconciled_effect now prepared current;
                             event = event\<lparr>ev_sequence := max_sequence st (ev_run_id event) + 1\<rparr>
                         in bind_result (map_error EffectStore (insert_event event (put_effect stored st)))
                              (\<lambda>st'. Inr ((stored, Some event), st')))))))"

end
