(* ===== verification/Effect_Journal.thy ===== *)
theory Effect_Journal
  imports Tool_Effects
begin

text \<open>
  What the journal of \<open>Tool_Effects\<close> guarantees. The life cycle of one row is the relation
  \<open>effect_moves\<close>; every operation is shown to move rows along it under a new version. From the
  traces of operations follow the promises the executor and the operators rely on: an effect is
  handed out for execution at most once, a committed result is stable, confirmed failures and
  compensations are final, and a version identifies the row's contents.
\<close>

section \<open>The life cycle of one effect\<close>

fun effect_moves :: "effect_status \<Rightarrow> effect_status \<Rightarrow> bool" where
  "effect_moves ToolEffectPrepared s = (s = ToolEffectNeedsReconciliation)"
| "effect_moves ToolEffectExecuting s =
     (s \<in> {ToolEffectExecuting, ToolEffectCommitted, ToolEffectFailed, ToolEffectNeedsReconciliation})"
| "effect_moves ToolEffectCommitted s = (s \<in> {ToolEffectCommitted, ToolEffectReconciling})"
| "effect_moves ToolEffectNeedsReconciliation s =
     (s \<in> {ToolEffectNeedsReconciliation, ToolEffectReconciling, ToolEffectCommitted, ToolEffectFailed,
        ToolEffectCompensated})"
| "effect_moves ToolEffectReconciling s =
     (s \<in> {ToolEffectNeedsReconciliation, ToolEffectReconciling, ToolEffectCommitted, ToolEffectFailed,
        ToolEffectCompensated})"
| "effect_moves _ s = False"

definition same_request :: "tool_effect \<Rightarrow> tool_effect \<Rightarrow> bool" where
  "same_request e e' \<longleftrightarrow> eff_key e' = eff_key e \<and> eff_run_id e' = eff_run_id e
     \<and> eff_stage_id e' = eff_stage_id e \<and> eff_turn_id e' = eff_turn_id e
     \<and> eff_tool_call_id e' = eff_tool_call_id e \<and> eff_tool_name e' = eff_tool_name e
     \<and> eff_revision e' = eff_revision e \<and> eff_request_hash e' = eff_request_hash e
     \<and> eff_created_at e' = eff_created_at e"

definition effect_moved :: "tool_effect \<Rightarrow> tool_effect \<Rightarrow> bool" where
  "effect_moved e e' \<longleftrightarrow> same_request e e' \<and> eff_version e' = eff_version e + 1
     \<and> effect_moves (eff_status e) (eff_status e')
     \<and> (eff_status e = ToolEffectCommitted \<and> eff_status e' = ToolEffectCommitted \<longrightarrow>
          eff_result e' = eff_result e)"

definition effect_advances :: "tool_effect \<Rightarrow> tool_effect \<Rightarrow> bool" where
  "effect_advances e e' \<longleftrightarrow> e' = e \<or> effect_moved e e'"

section \<open>Rows after an update\<close>

lemma lookup_map_same_key:
  assumes "\<And>x. key (f x) = key x"
  shows "lookup_by key (map f xs) k = map_option f (lookup_by key xs k)"
  by (induction xs) (simp_all add: assms)

lemma getToolEffect_Some: "getToolEffect st k = Some e \<Longrightarrow> e \<in> set (rs_effects st) \<and> eff_key e = k"
  unfolding getToolEffect_def by (rule lookup_by_Some)

lemma getToolEffect_put:
  "getToolEffect (put_effect e st) k =
     (if k = eff_key e \<and> getToolEffect st k \<noteq> None then Some e else getToolEffect st k)"
  by (simp add: getToolEffect_def put_effect_def lookup_update_rows)

lemma getToolEffect_suspend:
  "getToolEffect (suspend_effects rid err now st) k =
     map_option (\<lambda>e. if eff_run_id e = rid \<and> eff_status e = ToolEffectExecuting
       then e\<lparr>eff_status := ToolEffectNeedsReconciliation, eff_version := eff_version e + 1,
          eff_error := err, eff_updated_at := now\<rparr> else e) (getToolEffect st k)"
  by (simp add: getToolEffect_def suspend_effects_def update_rows_def lookup_map_same_key)

lemma getToolEffect_cong: "rs_effects st' = rs_effects st \<Longrightarrow> getToolEffect st' k = getToolEffect st k"
  by (simp add: getToolEffect_def)

section \<open>Mutations of one row\<close>

text \<open>
  The contract of the mutations that the executor side passes to \<open>updateToolEffect\<close>. It is stated
  once and met by completion, suspension, saved intents and confirmed rejections.
\<close>

locale journal_mutation =
  fixes mutate :: effect_mutation
  assumes moves: "mutate e = Inr (s, r, m) \<Longrightarrow> effect_moves (eff_status e) s"
    and not_reopened: "mutate e = Inr (s, r, m) \<Longrightarrow> eff_status e = ToolEffectCommitted \<Longrightarrow>
      s = ToolEffectCommitted \<and> r = eff_result e"
begin

lemma updated:
  assumes "updateToolEffect mutate now k st = Inr (x, st')"
  shows "\<exists>e. getToolEffect st k = Some e \<and> effect_moved e x \<and> st' = put_effect x st"
  using assms
  by (auto simp: updateToolEffect_def effect_moved_def same_request_def Let_def
      split: option.splits sum.splits prod.splits dest: moves not_reopened)

lemma moves_one:
  assumes "updateToolEffect mutate now k st = Inr (x, st')"
  shows "(\<exists>e. getToolEffect st k = Some e \<and> effect_moved e x \<and> getToolEffect st' k = Some x)
    \<and> (\<forall>j. j \<noteq> k \<longrightarrow> getToolEffect st' j = getToolEffect st j)"
proof -
  obtain e where e: "getToolEffect st k = Some e" "effect_moved e x" "st' = put_effect x st"
    using updated [OF assms] by blast
  moreover have "eff_key x = k"
    using e(2) getToolEffect_Some [OF e(1)] by (simp add: effect_moved_def same_request_def)
  ultimately show ?thesis by (auto simp: getToolEffect_put)
qed

lemma advances:
  assumes "updateToolEffect mutate now k st = Inr (x, st')"
  shows "getToolEffect st j = None \<longleftrightarrow> getToolEffect st' j = None"
    and "getToolEffect st j = Some e \<Longrightarrow> \<exists>e'. getToolEffect st' j = Some e' \<and> effect_advances e e'"
    and "getToolEffect st j = Some e \<Longrightarrow> eff_status e = ToolEffectCommitted \<Longrightarrow>
      \<exists>e'. getToolEffect st' j = Some e' \<and> eff_status e' = ToolEffectCommitted \<and> eff_result e' = eff_result e"
proof -
  note m = moves_one [OF assms]
  show "getToolEffect st j = None \<longleftrightarrow> getToolEffect st' j = None"
    using m by (cases "j = k") auto
  show "\<exists>e'. getToolEffect st' j = Some e' \<and> effect_advances e e'" if "getToolEffect st j = Some e"
    using m that by (cases "j = k") (auto simp: effect_advances_def)
  show "\<exists>e'. getToolEffect st' j = Some e' \<and> eff_status e' = ToolEffectCommitted \<and> eff_result e' = eff_result e"
    if e: "getToolEffect st j = Some e" "eff_status e = ToolEffectCommitted"
  proof (cases "j = k")
    case True
    obtain s r msg where "mutate e = Inr (s, r, msg)" "eff_status x = s" "eff_result x = r"
      using assms e True
      by (auto simp: updateToolEffect_def Let_def split: sum.splits prod.splits)
    then show ?thesis using m True not_reopened e by auto
  qed (use m e in auto)
qed

end

interpretation completion: journal_mutation "complete_mutation result" for result
  by unfold_locales (auto simp: complete_mutation_def split: if_splits)

interpretation suspension: journal_mutation "suspend_mutation message" for message
  by unfold_locales (auto simp: suspend_mutation_def split: if_splits)

interpretation intent: journal_mutation "intent_mutation safe" for safe
  by unfold_locales (auto simp: intent_mutation_def split: if_splits)

interpretation rejection: journal_mutation "fail_mutation message" for message
  by unfold_locales (auto simp: fail_mutation_def split: if_splits)


section \<open>Reconciliation commands\<close>

lemma Prepare_Inr:
  assumes "PrepareToolEffectReconciliation e m = Inr m'"
  shows "reconciliation_error e m = None \<and> rec_key m' = rec_key m \<and> rec_next_status m' = rec_next_status m
    \<and> rec_result m' = rec_result m \<and> rec_error m' = rec_error m \<and> rec_action m' = rec_action m
    \<and> rec_command_id m' = rec_command_id m \<and> rec_expected_version m' = rec_expected_version m
    \<and> ev_id (rec_event m') = ev_id (rec_event m) \<and> ev_type (rec_event m') = ev_type (rec_event m)
    \<and> ev_run_id (rec_event m') = ev_run_id (rec_event m)
    \<and> (\<forall>k. k \<noteq> ''result_version'' \<longrightarrow> ev_payload (rec_event m') k = ev_payload (rec_event m) k)"
  using assms by (auto simp: PrepareToolEffectReconciliation_def split: option.splits)

lemma accepted_command:
  assumes "reconciliation_error e m = None"
  shows "rec_key m = eff_key e" and "rec_expected_version m = max (eff_version e) 1"
    and "effect_moves (eff_status e) (rec_next_status m)"
    and "eff_status e = ToolEffectCommitted \<Longrightarrow> rec_next_status m = ToolEffectReconciling"
    and "ev_type (rec_event m) = EventToolEffectReconciliationStarted \<Longrightarrow>
      rec_next_status m = ToolEffectReconciling \<and> eff_status e \<noteq> ToolEffectReconciling"
    and "eff_status e \<in> {ToolEffectCommitted, ToolEffectNeedsReconciliation, ToolEffectReconciling}"
    and "trim_space (ev_id (rec_event m)) \<noteq> []" and "ev_run_id (rec_event m) = eff_run_id e"
  using assms
  by (auto simp: reconciliation_error_def Let_def committed_undo_def validToolEffectSettlement_def
      split: if_splits reconciliation_action.splits)

lemma Commit_duplicate:
  assumes "CommitToolEffectReconciliation svc i now m st = Inr ((x, None), st')"
  shows "st' = st \<and> getToolEffect st (rec_key m) = Some x"
  using assms
  by (auto simp: CommitToolEffectReconciliation_def bind_result_Inr Let_def split: option.splits)

lemma Commit_applied:
  assumes "CommitToolEffectReconciliation svc i now m st = Inr ((x, Some ev), st')"
  obtains e where "getToolEffect st (rec_key m) = Some e" "reconciliation_error e m = None"
    "find_event st (ev_id (rec_event m)) = None"
    "x = reconciled_effect now m e" "effect_moved e x"
    "st' = (put_effect x st)\<lparr>rs_events := rs_events st @ [ev]\<rparr>"
    "ev_id ev = trim_space (ev_id (rec_event m))" "ev_type ev = ev_type (rec_event m)"
    "ev_run_id ev = eff_run_id e" "ev_sequence ev = max_sequence st (eff_run_id e) + 1"
    "\<exists>p. (\<forall>k. k \<noteq> ''result_version'' \<longrightarrow> p k = ev_payload (rec_event m) k) \<and> ev_payload ev = redact_map svc p"
proof -
  obtain e p q where e: "find_event st (ev_id (rec_event m)) = None" "getToolEffect st (rec_key m) = Some e"
    and p: "PrepareToolEffectReconciliation e m = Inr p"
    and q: "preparePostgresRunEvent svc i ((rec_event p)\<lparr>ev_timestamp := now\<rparr>) now = Inr q"
    and x: "x = reconciled_effect now p e"
    and ev: "ev = q\<lparr>ev_sequence := max_sequence st (ev_run_id q) + 1\<rparr>"
    and ins: "insert_event ev (put_effect x st) = Inr st'"
    using assms
    by (auto simp: CommitToolEffectReconciliation_def bind_result_Inr Let_def split: option.splits)
  note pr = Prepare_Inr [OF p]
  note ok = accepted_command [OF pr [THEN conjunct1]]
  have x': "x = reconciled_effect now m e"
    using x pr by (auto simp: reconciled_effect_def kept_result_def)
  have "effect_moved e x"
    using ok(3,4) by (auto simp: x' effect_moved_def same_request_def reconciled_effect_def kept_result_def)
  moreover have "st' = (put_effect x st)\<lparr>rs_events := rs_events st @ [ev]\<rparr>"
    using insert_event_fields [OF ins] by (simp add: put_effect_def)
  moreover have "ev_id q = trim_space (ev_id (rec_event m))"
    using q pr ok(7) by (auto simp: preparePostgresRunEvent_def Let_def split: if_splits option.splits)
  moreover have "ev_type q = ev_type (rec_event m)" "ev_run_id q = eff_run_id e"
    "ev_payload q = redact_map svc (ev_payload (rec_event p))"
    using preparePostgresRunEvent_Inr [OF q] pr ok(8) by simp_all
  ultimately show thesis using that [of e] e pr x' ev by auto
qed

lemma Commit_advances:
  assumes "CommitToolEffectReconciliation svc i now m st = Inr ((x, evs), st')"
  shows "getToolEffect st j = None \<longleftrightarrow> getToolEffect st' j = None"
    and "getToolEffect st j = Some e \<Longrightarrow> \<exists>e'. getToolEffect st' j = Some e' \<and> effect_advances e e'"
proof -
  have "(getToolEffect st j = None \<longleftrightarrow> getToolEffect st' j = None) \<and>
    (\<forall>e. getToolEffect st j = Some e \<longrightarrow> (\<exists>e'. getToolEffect st' j = Some e' \<and> effect_advances e e'))"
  proof (cases evs)
    case None
    then show ?thesis using Commit_duplicate [of svc i now m st x st'] assms by (auto simp: effect_advances_def)
  next
    case (Some ev)
    then obtain e where e: "getToolEffect st (rec_key m) = Some e" "effect_moved e x"
      "st' = (put_effect x st)\<lparr>rs_events := rs_events st @ [ev]\<rparr>"
      using Commit_applied [of svc i now m st x ev st'] assms by blast
    have "eff_key x = rec_key m"
      using e(2) getToolEffect_Some [OF e(1)] by (simp add: effect_moved_def same_request_def)
    moreover have "getToolEffect st' j = getToolEffect (put_effect x st) j"
      by (rule getToolEffect_cong) (simp add: e(3))
    ultimately show ?thesis using e(1,2) by (auto simp: getToolEffect_put effect_advances_def)
  qed
  then show "getToolEffect st j = None \<longleftrightarrow> getToolEffect st' j = None"
    "getToolEffect st j = Some e \<Longrightarrow> \<exists>e'. getToolEffect st' j = Some e' \<and> effect_advances e e'"
    by blast+
qed

section \<open>Traces of the journal\<close>

text \<open>
  A step of the journal. Its label says when an executor is told to execute the effect of a key,
  and when a committed effect is reopened for compensation. Operations on other tables are any
  step that leaves the journal alone.
\<close>

datatype journal_label = Executes string | Reopens string | Internal

inductive journal_step :: "services \<Rightarrow> run_store \<Rightarrow> journal_label \<Rightarrow> run_store \<Rightarrow> bool"
  for svc :: services
  where
    step_begin: "BeginToolEffect now e st = Inr ((x, execute), st') \<Longrightarrow>
      journal_step svc st (if execute then Executes (eff_key e) else Internal) st'"
  | step_complete: "CompleteToolEffect result now k st = Inr (x, st') \<Longrightarrow> journal_step svc st Internal st'"
  | step_suspend: "MarkToolEffectNeedsReconciliation message now k st = Inr (x, st') \<Longrightarrow>
      journal_step svc st Internal st'"
  | step_intent: "SaveToolEffectIntent redact_json evidence now k st = Inr (x, st') \<Longrightarrow>
      journal_step svc st Internal st'"
  | step_fail: "FailToolEffect svc message now k st = Inr (x, st') \<Longrightarrow> journal_step svc st Internal st'"
  | step_reconcile: "CommitToolEffectReconciliation svc i now m st = Inr ((x, ev), st') \<Longrightarrow>
      getToolEffect st (rec_key m) = Some e \<Longrightarrow>
      journal_step svc st
        (if ev \<noteq> None \<and> eff_status e = ToolEffectCommitted then Reopens (rec_key m) else Internal) st'"
  | step_repair: "RepairInterruptedRun svc ids now req st = Inr (res, st') \<Longrightarrow>
      journal_step svc st Internal st'"
  | step_other: "rs_effects st' = rs_effects st \<Longrightarrow> journal_step svc st Internal st'"

inductive journal_trace :: "services \<Rightarrow> run_store \<Rightarrow> journal_label list \<Rightarrow> run_store \<Rightarrow> bool"
  for svc :: services
  where
    trace_nil: "journal_trace svc st [] st"
  | trace_step: "journal_step svc st l u \<Longrightarrow> journal_trace svc u ls st' \<Longrightarrow>
      journal_trace svc st (l # ls) st'"

inductive_cases journal_nilE: "journal_trace svc st [] st'"
inductive_cases journal_consE: "journal_trace svc st (l # ls) st'"

text \<open>What one step does to the row of one key.\<close>

definition row_step :: "journal_label \<Rightarrow> string \<Rightarrow> tool_effect option \<Rightarrow> tool_effect option \<Rightarrow> bool" where
  "row_step l k before after =
     (case before of
        None \<Rightarrow> (case after of
            None \<Rightarrow> l \<noteq> Executes k
          | Some e \<Rightarrow> l = Executes k \<and> eff_version e = 1 \<and> eff_status e = ToolEffectExecuting)
      | Some e \<Rightarrow> l \<noteq> Executes k \<and> (\<exists>e'. after = Some e' \<and> effect_advances e e'
            \<and> (l \<noteq> Reopens k \<and> eff_status e = ToolEffectCommitted \<longrightarrow>
                 eff_status e' = ToolEffectCommitted \<and> eff_result e' = eff_result e)))"

lemma row_step_unchanged: "getToolEffect st' k = getToolEffect st k \<Longrightarrow> l \<noteq> Executes k \<Longrightarrow>
    row_step l k (getToolEffect st k) (getToolEffect st' k)"
  by (auto simp: row_step_def effect_advances_def split: option.splits)

lemma row_step_mutated:
  assumes "getToolEffect st k = None \<longleftrightarrow> getToolEffect st' k = None"
    and "\<And>e. getToolEffect st k = Some e \<Longrightarrow> \<exists>e'. getToolEffect st' k = Some e' \<and> effect_advances e e'"
    and "\<And>e. getToolEffect st k = Some e \<Longrightarrow> eff_status e = ToolEffectCommitted \<Longrightarrow>
      \<exists>e'. getToolEffect st' k = Some e' \<and> eff_status e' = ToolEffectCommitted \<and> eff_result e' = eff_result e"
  shows "row_step Internal k (getToolEffect st k) (getToolEffect st' k)"
  using assms by (cases "getToolEffect st k") (fastforce simp: row_step_def split: option.splits)+

context journal_mutation
begin

lemma mutation_row_step:
  assumes "updateToolEffect mutate now k st = Inr (x, st')"
  shows "row_step Internal j (getToolEffect st j) (getToolEffect st' j)"
proof (rule row_step_mutated)
  show "getToolEffect st j = None \<longleftrightarrow> getToolEffect st' j = None" by (rule advances(1) [OF assms])
  show "\<exists>e'. getToolEffect st' j = Some e' \<and> effect_advances e e'" if "getToolEffect st j = Some e" for e
    by (rule advances(2) [OF assms that])
  show "\<exists>e'. getToolEffect st' j = Some e' \<and> eff_status e' = ToolEffectCommitted \<and> eff_result e' = eff_result e"
    if "getToolEffect st j = Some e" "eff_status e = ToolEffectCommitted" for e
    by (rule advances(3) [OF assms that])
qed

end

lemma begin_row_step:
  assumes "BeginToolEffect now e st = Inr ((x, execute), st')"
  shows "row_step (if execute then Executes (eff_key e) else Internal) k
      (getToolEffect st k) (getToolEffect st' k)"
proof (cases execute)
  case True
  then have "getToolEffect st (eff_key e) = None" "eff_key x = eff_key e" "eff_version x = 1"
    "eff_status x = ToolEffectExecuting" "st' = st\<lparr>rs_effects := rs_effects st @ [x]\<rparr>"
    using assms by (auto simp: BeginToolEffect_def Let_def split: if_splits option.splits)
  then show ?thesis
    using True
    by (auto simp: row_step_def getToolEffect_def lookup_by_append effect_advances_def split: option.splits)
next
  case False
  then have "st' = st"
    using assms by (auto simp: BeginToolEffect_def Let_def split: if_splits option.splits)
  then show ?thesis using False by (simp add: row_step_unchanged)
qed

lemma repair_row_step:
  assumes "RepairInterruptedRun svc ids now req st = Inr (res, st')"
  shows "row_step Internal k (getToolEffect st k) (getToolEffect st' k)"
proof (cases "rr_applied res")
  case True
  let ?err = "redact_text svc (trim_space (rq_error req))"
  obtain r u where u: "insert_events (rr_appended res) st = Inr u"
    and st': "st' = put_run (rr_run res)
       (suspend_effects (rq_run_id req) ?err now (fail_steps (rq_run_id req) ?err now u))"
    using RepairInterruptedRun_applied [OF assms True] by metis
  have "rs_effects st' = rs_effects (suspend_effects (rq_run_id req) ?err now st)"
    using insert_events_fields [OF u] by (simp add: st' suspend_effects_def fail_steps_def)
  then have "getToolEffect st' k = getToolEffect (suspend_effects (rq_run_id req) ?err now st) k"
    by (rule getToolEffect_cong)
  then show ?thesis
    by (auto simp: getToolEffect_suspend row_step_def effect_advances_def effect_moved_def same_request_def
        split: option.splits)
next
  case False
  then have "st' = st" using RepairInterruptedRun_not_applied [OF assms] by simp
  then show ?thesis by (simp add: row_step_unchanged)
qed

lemma reconcile_row_step:
  assumes "CommitToolEffectReconciliation svc i now m st = Inr ((x, ev), st')"
    and "getToolEffect st (rec_key m) = Some e"
  shows "row_step (if ev \<noteq> None \<and> eff_status e = ToolEffectCommitted then Reopens (rec_key m) else Internal) k
      (getToolEffect st k) (getToolEffect st' k)"
proof (cases ev)
  case None
  then show ?thesis using Commit_duplicate [of svc i now m st x st'] assms(1) by (simp add: row_step_unchanged)
next
  case (Some v)
  obtain e' where e': "getToolEffect st (rec_key m) = Some e'"
    "st' = (put_effect x st)\<lparr>rs_events := rs_events st @ [v]\<rparr>" "effect_moved e' x"
    by (rule Commit_applied [OF assms(1) [unfolded Some]]) blast
  have key: "eff_key x = rec_key m" "e' = e"
    using e' assms(2) getToolEffect_Some [OF e'(1)] by (simp_all add: effect_moved_def same_request_def)
  have "getToolEffect st' k = getToolEffect (put_effect x st) k"
    by (rule getToolEffect_cong) (simp add: e'(2))
  then show ?thesis
    using key e' Some by (auto simp: getToolEffect_put row_step_def effect_advances_def split: option.splits)
qed

lemma journal_step_row:
  "journal_step svc st l st' \<Longrightarrow> row_step l k (getToolEffect st k) (getToolEffect st' k)"
proof (induction rule: journal_step.induct)
  case (step_complete result now k' st x st')
  then show ?case unfolding CompleteToolEffect_def by (rule completion.mutation_row_step)
next
  case (step_suspend message now k' st x st')
  then show ?case unfolding MarkToolEffectNeedsReconciliation_def by (rule suspension.mutation_row_step)
next
  case (step_intent redact_json evidence now k' st x st')
  then obtain safe where "updateToolEffect (intent_mutation safe) now k' st = Inr (x, st')"
    by (auto simp: SaveToolEffectIntent_def split: if_splits option.splits)
  then show ?case by (rule intent.mutation_row_step)
next
  case (step_fail message now k' st x st')
  then show ?case unfolding FailToolEffect_def by (rule rejection.mutation_row_step)
next
  case (step_other st' st)
  then show ?case by (intro row_step_unchanged getToolEffect_cong) simp_all
next
  case (step_begin now e st x execute st')
  then show ?case by (rule begin_row_step)
next
  case (step_reconcile i now m st x ev st' e)
  then show ?case by (rule reconcile_row_step)
next
  case (step_repair ids now req st res st')
  then show ?case by (rule repair_row_step)
qed


section \<open>What a trace preserves\<close>

lemma effect_advances_request: "effect_advances e e' \<Longrightarrow> same_request e e'"
  by (auto simp: effect_advances_def effect_moved_def same_request_def)

lemma same_request_trans: "same_request a b \<Longrightarrow> same_request b c \<Longrightarrow> same_request a c"
  by (simp add: same_request_def)

lemma effect_advances_version:
  "effect_advances e e' \<Longrightarrow> e' = e \<or> eff_version e' = eff_version e + 1"
  by (auto simp: effect_advances_def effect_moved_def)

definition row_trace :: "journal_label list \<Rightarrow> string \<Rightarrow> tool_effect \<Rightarrow> tool_effect \<Rightarrow> bool" where
  "row_trace ls k e e' \<longleftrightarrow> same_request e e' \<and> Executes k \<notin> set ls
     \<and> (e' = e \<or> eff_version e < eff_version e')
     \<and> (eff_status e \<in> {ToolEffectFailed, ToolEffectCompensated} \<longrightarrow> e' = e)
     \<and> (Reopens k \<notin> set ls \<and> eff_status e = ToolEffectCommitted \<longrightarrow>
          eff_status e' = ToolEffectCommitted \<and> eff_result e' = eff_result e)"

lemma row_trace_step:
  assumes "row_step l k (Some e) (Some u)" and "row_trace ls k u e'"
  shows "row_trace (l # ls) k e e'"
proof -
  have adv: "effect_advances e u" using assms(1) by (simp add: row_step_def)
  have "u = e" if "eff_status e \<in> {ToolEffectFailed, ToolEffectCompensated}"
    using adv that by (auto simp: effect_advances_def effect_moved_def)
  moreover have "e' = e \<or> eff_version e < eff_version e'"
    using effect_advances_version [OF adv] assms(2) by (auto simp: row_trace_def)
  ultimately show ?thesis
    using assms same_request_trans [OF effect_advances_request [OF adv]]
    by (auto simp: row_trace_def row_step_def)
qed

lemma journal_trace_row:
  "journal_trace svc st ls st' \<Longrightarrow> getToolEffect st k = Some e \<Longrightarrow>
     \<exists>e'. getToolEffect st' k = Some e' \<and> row_trace ls k e e'"
proof (induction arbitrary: e rule: journal_trace.induct)
  case (trace_nil st)
  then show ?case by (auto simp: row_trace_def same_request_def)
next
  case (trace_step st l u ls st')
  then obtain x where x: "getToolEffect u k = Some x" "row_step l k (Some e) (Some x)"
    using journal_step_row [OF trace_step.hyps(1), of k] by (auto simp: row_step_def)
  then show ?case using trace_step.IH [OF x(1)] row_trace_step by blast
qed

lemma journal_trace_absent:
  "journal_trace svc st ls st' \<Longrightarrow> getToolEffect st k = None \<Longrightarrow> count_list ls (Executes k) \<le> 1"
proof (induction rule: journal_trace.induct)
  case (trace_step st l u ls st')
  note r = journal_step_row [OF trace_step.hyps(1), of k]
  show ?case
  proof (cases "getToolEffect u k")
    case None
    then show ?thesis using r trace_step by (simp add: row_step_def)
  next
    case (Some x)
    then have "Executes k \<notin> set ls"
      using journal_trace_row [OF trace_step.hyps(2) Some] by (auto simp: row_trace_def)
    then show ?thesis by (simp add: count_list_0_iff)
  qed
qed simp

lemma journal_trace_append:
  "journal_trace svc st ls u \<Longrightarrow> journal_trace svc u ms st' \<Longrightarrow> journal_trace svc st (ls @ ms) st'"
  by (induction rule: journal_trace.induct) (auto intro: journal_trace.intros)

end
