(* ===== verification/Effect_Guarantees.thy ===== *)
theory Effect_Guarantees
  imports Effect_Journal
begin

text \<open>
  The promises of the effect journal, over the traces of \<open>Effect_Journal\<close>: execution at most once,
  replay of committed results, finality, versions that identify a row's contents, and
  reconciliation commands that apply at most once.
\<close>

section \<open>Example: one file write and its reconciliation\<close>

definition open_effects :: run_store where
  "open_effects = crashed_store\<lparr>rs_effects := [example_effect]\<rparr>"

definition uncertain_effect :: tool_effect where
  "uncertain_effect = example_effect\<lparr>eff_status := ToolEffectNeedsReconciliation, eff_version := 2\<rparr>"

definition uncertain_effects :: run_store where
  "uncertain_effects = crashed_store\<lparr>rs_effects := [uncertain_effect]\<rparr>"

definition confirm_failed :: "string \<Rightarrow> string \<Rightarrow> reconciliation" where
  "confirm_failed event_id command =
     \<lparr>rec_command_id = command, rec_key = ''key'', rec_expected_version = 2,
      rec_action = ToolEffectConfirmFailed, rec_next_status = ToolEffectFailed, rec_result = [],
      rec_error = [],
      rec_event = zero_event\<lparr>ev_id := event_id, ev_type := EventToolEffectReconciled,
        ev_run_id := ''run'', ev_turn_id := ''turn'',
        ev_payload := [''command_id'' \<mapsto> VString command, ''idempotency_key'' \<mapsto> VString ''key'',
          ''action'' \<mapsto> VString ''confirm_failed'', ''command_hash'' \<mapsto> VString ''h'',
          ''expected_version'' \<mapsto> VInt64 2]\<rparr>\<rparr>"

lemma trim_effect [simp]:
  "trim_space ''key'' = ''key''" "trim_space ''call'' = ''call''" "trim_space ''hash'' = ''hash''"
  "trim_space ''file_write'' = ''file_write''" "trim_space ''r1'' = ''r1''" "trim_space ''r2'' = ''r2''"
  "trim_space [] = []"
  by code_simp+

lemma example_effect_valid: "ValidateToolEffect example_effect"
  by (simp add: ValidateToolEffect_def example_effect_def)

lemma example_begin:
  "BeginToolEffect 1 example_effect (crashed_store\<lparr>rs_effects := []\<rparr>) = Inr ((example_effect, True), open_effects)"
  "BeginToolEffect 9 example_effect open_effects = Inr ((example_effect, False), open_effects)"
  using example_effect_valid
  by (simp_all add: BeginToolEffect_def open_effects_def getToolEffect_def get_run_def crashed_store_def
      crashed_run_def example_run_def empty_store_def Let_def) (simp_all add: example_effect_def)

lemma example_audit:
  assumes "i \<in> {''r1'', ''r2''}"
  shows "preparePostgresRunEvent example_services [] ((rec_event (confirm_failed i i))\<lparr>ev_payload := p, ev_timestamp := 9\<rparr>) 9
      = Inr ((rec_event (confirm_failed i i))\<lparr>ev_payload := p, ev_schema_version := 1, ev_timestamp := 9\<rparr>)"
proof -
  let ?e = "(rec_event (confirm_failed i i))\<lparr>ev_payload := p, ev_schema_version := 1, ev_timestamp := 9\<rparr>"
  have "ValidateDurableFact (check_payload example_services) ?e = None"
    unfolding ValidateDurableFact_iff
    by (simp add: scoped_def scope_satisfied_def registered_def scope_owner_def scope_optional_def
      CurrentRunEventSchemaVersion_def confirm_failed_def)
  moreover have "trim_space i = i" "i \<noteq> []" "redact_map example_services p = p"
    using assms by (auto simp: example_services_def)
  ultimately show ?thesis
    by (simp add: preparePostgresRunEvent_def Let_def CurrentRunEventSchemaVersion_def confirm_failed_def
        zero_event_def)
qed

lemma example_prepare: "i \<in> {''r1'', ''r2''} \<Longrightarrow> PrepareToolEffectReconciliation uncertain_effect (confirm_failed i i)
    = Inr ((confirm_failed i i)\<lparr>rec_event := (rec_event (confirm_failed i i))\<lparr>ev_payload :=
        (ev_payload (rec_event (confirm_failed i i)))(''result_version'' \<mapsto> VInt64 3)\<rparr>\<rparr>)"
  by (auto simp: PrepareToolEffectReconciliation_def reconciliation_error_def uncertain_effect_def
      example_effect_def confirm_failed_def zero_event_def Let_def payload_value_def
      validToolEffectSettlement_def committed_undo_def)

lemma example_confirm:
  assumes "i \<in> {''r1'', ''r2''}"
  shows "\<exists>x ev st'. CommitToolEffectReconciliation example_services [] 9 (confirm_failed i i) uncertain_effects
      = Inr ((x, Some ev), st') \<and> eff_status x = ToolEffectFailed"
proof -
  have "find_event uncertain_effects i = None" "get_run (put_effect e uncertain_effects) ''run'' \<noteq> None"
    "i \<notin> ev_id ` set (rs_events (put_effect e uncertain_effects))" for e
    using assms
    by (auto simp: find_event_def uncertain_effects_def crashed_store_def crashed_events_def example_event_def
        get_run_def put_effect_def crashed_run_def example_run_def eval_nat_numeral)
  moreover have "getToolEffect uncertain_effects ''key'' = Some uncertain_effect"
    by (simp add: getToolEffect_def uncertain_effects_def uncertain_effect_def example_effect_def)
  moreover have "rec_key (confirm_failed i i) = ''key''" "ev_id (rec_event (confirm_failed i i)) = i"
    "ev_run_id (rec_event (confirm_failed i i)) = ''run''" "rec_next_status (confirm_failed i i) = ToolEffectFailed"
    by (simp_all add: confirm_failed_def)
  ultimately show ?thesis
    using example_prepare [OF assms] example_audit [OF assms]
    by (simp add: CommitToolEffectReconciliation_def Let_def insert_event_def reconciled_effect_def)
qed

section \<open>Properties\<close>

text \<open>
  C11: At most once: in any sequence of journal operations - begun effects, completions, failures,
  reconciliations and recoveries in any order - an executor is told to execute the effect of an
  idempotency key at most once, and never when the key is already in the journal.
\<close>

theorem effect_executed_at_most_once:
  assumes "journal_trace svc st ls st'"
  shows "count_list ls (Executes k) \<le> (if getToolEffect st k = None then 1 else 0)"
proof (cases "getToolEffect st k")
  case None
  then show ?thesis using journal_trace_absent [OF assms] by simp
next
  case (Some e)
  then have "Executes k \<notin> set ls"
    using journal_trace_row [OF assms Some] by (auto simp: row_trace_def)
  then show ?thesis using Some by (simp add: count_list_0_iff)
qed

theorem effect_executed_at_most_once_witness:
  "\<exists>ls st'. journal_trace example_services (crashed_store\<lparr>rs_effects := []\<rparr>) ls st'
     \<and> ls = [Executes ''key'', Internal] \<and> count_list ls (Executes ''key'') \<le> 1"
proof -
  have "eff_key example_effect = ''key''" by (simp add: example_effect_def)
  then have "journal_trace example_services (crashed_store\<lparr>rs_effects := []\<rparr>) [Executes ''key'', Internal] open_effects"
    using step_begin [OF example_begin(1), of example_services] step_begin [OF example_begin(2), of example_services]
    by (auto intro: journal_trace.intros)
  then show ?thesis using effect_executed_at_most_once by force
qed

text \<open>
  Replay: once an effect is committed, every later request for the same key, tool, Run and
  request hash is answered with the committed result and without executing again, as long as no
  operator has reopened the effect for compensation.
\<close>

theorem committed_effect_replayed:
  assumes "journal_trace svc st ls st'" and "getToolEffect st (eff_key q) = Some e"
    and "eff_status e = ToolEffectCommitted" and "Reopens (eff_key q) \<notin> set ls"
    and "ValidateToolEffect q" and "eff_request_hash q = eff_request_hash e"
    and "eff_tool_name q = eff_tool_name e" and "eff_run_id q = eff_run_id e"
  shows "\<exists>x. BeginToolEffect now q st' = Inr ((x, False), st')
    \<and> eff_status x = ToolEffectCommitted \<and> eff_result x = eff_result e"
proof -
  obtain x where "getToolEffect st' (eff_key q) = Some x" "row_trace ls (eff_key q) e x"
    using journal_trace_row [OF assms(1,2)] by blast
  then show ?thesis
    using assms(3-) by (auto simp: BeginToolEffect_def row_trace_def same_request_def)
qed

theorem committed_effect_replayed_witness:
  "\<exists>x. BeginToolEffect 9 example_effect (crashed_store\<lparr>rs_effects := [example_effect\<lparr>eff_status := ToolEffectCommitted,
       eff_result := ''done''\<rparr>]\<rparr>) = Inr ((x, False), crashed_store\<lparr>rs_effects := [example_effect\<lparr>eff_status :=
       ToolEffectCommitted, eff_result := ''done''\<rparr>]\<rparr>) \<and> eff_result x = ''done''"
proof -
  let ?e = "example_effect\<lparr>eff_status := ToolEffectCommitted, eff_result := ''done''\<rparr>"
  have "getToolEffect (crashed_store\<lparr>rs_effects := [?e]\<rparr>) (eff_key example_effect) = Some ?e"
    by (simp add: getToolEffect_def example_effect_def)
  from committed_effect_replayed [where now = 9, OF trace_nil [of example_services] this _ _ example_effect_valid]
  show ?thesis by auto
qed

text \<open>
  Finality: a confirmed failure or a compensation is never overwritten by any later operation, late
  completions and recoveries included.
\<close>

theorem settled_effect_final:
  assumes "journal_trace svc st ls st'" and "getToolEffect st k = Some e"
    and "eff_status e = ToolEffectFailed \<or> eff_status e = ToolEffectCompensated"
  shows "getToolEffect st' k = Some e"
  using journal_trace_row [OF assms(1,2)] assms(3) by (auto simp: row_trace_def)

theorem settled_effect_final_witness:
  "\<exists>x st'. CompleteToolEffect ''late'' 9 ''other'' (crashed_store\<lparr>rs_effects :=
       [example_effect\<lparr>eff_status := ToolEffectFailed\<rparr>, example_effect\<lparr>eff_key := ''other''\<rparr>]\<rparr>) = Inr (x, st')
     \<and> getToolEffect st' ''key'' = Some (example_effect\<lparr>eff_status := ToolEffectFailed\<rparr>)"
proof -
  let ?st = "crashed_store\<lparr>rs_effects :=
       [example_effect\<lparr>eff_status := ToolEffectFailed\<rparr>, example_effect\<lparr>eff_key := ''other''\<rparr>]\<rparr>"
  have get: "getToolEffect ?st ''other'' = Some (example_effect\<lparr>eff_key := ''other''\<rparr>)"
    "getToolEffect ?st ''key'' = Some (example_effect\<lparr>eff_status := ToolEffectFailed\<rparr>)"
    by (simp_all add: getToolEffect_def example_effect_def)
  then obtain x st' where c: "CompleteToolEffect ''late'' 9 ''other'' ?st = Inr (x, st')"
    by (auto simp: CompleteToolEffect_def updateToolEffect_def complete_mutation_def Let_def example_effect_def)
  have "journal_trace example_services ?st [Internal] st'"
    using step_complete [OF c, of example_services] by (auto intro: journal_trace.intros)
  from settled_effect_final [OF this get(2)] show ?thesis using c by simp
qed

text \<open>
  A version identifies the contents of a row: whatever happens in between, the version of a key
  never decreases, and equal versions mean that the row has not changed. An operator's expected
  version is therefore a sound guard.
\<close>

theorem effect_version_identifies:
  assumes "journal_trace svc st ls st'" and "getToolEffect st k = Some e"
  shows "\<exists>e'. getToolEffect st' k = Some e' \<and> eff_version e \<le> eff_version e'
    \<and> (eff_version e' = eff_version e \<longleftrightarrow> e' = e)"
  using journal_trace_row [OF assms] by (auto simp: row_trace_def)

theorem effect_version_identifies_witness:
  "\<exists>x st' e'. FailToolEffect example_services [] 9 ''key'' open_effects = Inr (x, st')
     \<and> getToolEffect st' ''key'' = Some e' \<and> e' \<noteq> example_effect \<and> eff_version e' \<noteq> eff_version example_effect"
proof -
  have get: "getToolEffect open_effects ''key'' = Some example_effect"
    by (simp add: getToolEffect_def open_effects_def example_effect_def)
  then obtain x st' where f: "FailToolEffect example_services [] 9 ''key'' open_effects = Inr (x, st')"
    by (auto simp: FailToolEffect_def updateToolEffect_def fail_mutation_def Let_def example_effect_def)
  have "eff_status x = ToolEffectFailed" "getToolEffect st' ''key'' = Some x"
    using f get rejection.moves_one [OF f [unfolded FailToolEffect_def]]
    by (auto simp: FailToolEffect_def updateToolEffect_def fail_mutation_def Let_def example_effect_def)
  moreover have "journal_trace example_services open_effects [Internal] st'"
    using step_fail [OF f] by (auto intro: journal_trace.intros)
  ultimately show ?thesis
    using effect_version_identifies [OF _ get] f by (fastforce simp: example_effect_def)
qed

text \<open>
  C14: Refinement: every operation moves every row along the life cycle \<open>effect_moves\<close> under the next
  version, keeping the identity of the request; a new row appears only as the executing effect
  that its step hands out.
\<close>

theorem journal_refines_life_cycle:
  assumes "journal_step svc st l st'"
  shows "case getToolEffect st k of
      Some e \<Rightarrow> \<exists>e'. getToolEffect st' k = Some e' \<and> (e' = e \<or> same_request e e'
        \<and> eff_version e' = eff_version e + 1 \<and> effect_moves (eff_status e) (eff_status e'))
    | None \<Rightarrow> (case getToolEffect st' k of
        None \<Rightarrow> True
      | Some e \<Rightarrow> l = Executes k \<and> eff_version e = 1 \<and> eff_status e = ToolEffectExecuting)"
  using journal_step_row [OF assms, of k]
  by (auto simp: row_step_def effect_advances_def effect_moved_def split: option.splits)

theorem journal_refines_life_cycle_witness:
  "\<exists>x st'. MarkToolEffectNeedsReconciliation ''timeout'' 9 ''key'' open_effects = Inr (x, st')
     \<and> eff_version x = 2 \<and> effect_moves ToolEffectExecuting (eff_status x)"
proof -
  have get: "getToolEffect open_effects ''key'' = Some example_effect"
    by (simp add: getToolEffect_def open_effects_def example_effect_def)
  then obtain x st' where m: "MarkToolEffectNeedsReconciliation ''timeout'' 9 ''key'' open_effects = Inr (x, st')"
    by (auto simp: MarkToolEffectNeedsReconciliation_def updateToolEffect_def suspend_mutation_def Let_def
        example_effect_def)
  have x: "getToolEffect st' ''key'' = Some x" "x \<noteq> example_effect"
    using suspension.moves_one [OF m [unfolded MarkToolEffectNeedsReconciliation_def]] get
    by (auto simp: effect_moved_def)
  show ?thesis
    using journal_refines_life_cycle [OF step_suspend [OF m, of example_services], of "''key''"] get x m
    by (auto simp: example_effect_def)
qed

text \<open>
  Of several reconciliation commands for the same effect and the same expected version at most one
  is applied, whatever happens between them; every other one leaves the journal as it is.
\<close>

theorem reconciliation_race:
  assumes "CommitToolEffectReconciliation svc i now m st = Inr ((x, Some ev), u)"
    and "getToolEffect st (rec_key m) = Some e" and "1 \<le> eff_version e"
    and "journal_trace svc u ls st'" and "rec_key m' = rec_key m"
    and "rec_expected_version m' = rec_expected_version m"
    and "CommitToolEffectReconciliation svc i' now' m' st' = Inr ((x', ev'), st'')"
  shows "ev' = None \<and> st'' = st'"
proof (cases ev')
  case None
  then show ?thesis using Commit_duplicate assms(7) by blast
next
  case (Some v)
  obtain e0 where e0: "getToolEffect st (rec_key m) = Some e0" "reconciliation_error e0 m = None"
    "effect_moved e0 x" "u = (put_effect x st)\<lparr>rs_events := rs_events st @ [ev]\<rparr>"
    by (rule Commit_applied [OF assms(1)]) blast
  have key: "eff_key x = rec_key m" "e0 = e"
    using e0 assms(2) getToolEffect_Some [OF e0(1)] by (simp_all add: effect_moved_def same_request_def)
  have "getToolEffect u (rec_key m) = getToolEffect (put_effect x st) (rec_key m)"
    by (rule getToolEffect_cong) (simp add: e0(4))
  then have "getToolEffect u (rec_key m) = Some x" using key e0(1) by (simp add: getToolEffect_put)
  from journal_trace_row [OF assms(4) this] obtain y where
    y: "getToolEffect st' (rec_key m) = Some y" "eff_version x \<le> eff_version y"
    by (auto simp: row_trace_def)
  obtain y' where "getToolEffect st' (rec_key m') = Some y'" "reconciliation_error y' m' = None"
    by (rule Commit_applied [OF assms(7) [unfolded Some]]) blast
  then have "rec_expected_version m = max (eff_version y) 1"
    using y(1) assms(5,6) accepted_command(2) [of y' m'] by simp
  then show ?thesis
    using accepted_command(2) [OF e0(2)] e0(3) key y(2) assms(3) by (simp add: effect_moved_def)
qed

theorem reconciliation_race_witness:
  "\<exists>x ev u. CommitToolEffectReconciliation example_services [] 9 (confirm_failed ''r1'' ''r1'') uncertain_effects
       = Inr ((x, Some ev), u)
     \<and> (\<forall>i' now' x' ev' st''.
          CommitToolEffectReconciliation example_services i' now' (confirm_failed ''r2'' ''r2'') u
            = Inr ((x', ev'), st'') \<longrightarrow> st'' = u)"
proof -
  obtain x ev u where c: "CommitToolEffectReconciliation example_services [] 9 (confirm_failed ''r1'' ''r1'')
      uncertain_effects = Inr ((x, Some ev), u)"
    using example_confirm [of "''r1''"] by blast
  have "getToolEffect uncertain_effects (rec_key (confirm_failed ''r1'' ''r1'')) = Some uncertain_effect"
    by (simp add: getToolEffect_def uncertain_effects_def uncertain_effect_def example_effect_def confirm_failed_def)
  moreover have "1 \<le> eff_version uncertain_effect" by (simp add: uncertain_effect_def)
  moreover have "rec_key (confirm_failed ''r2'' ''r2'') = rec_key (confirm_failed ''r1'' ''r1'')"
    "rec_expected_version (confirm_failed ''r2'' ''r2'') = rec_expected_version (confirm_failed ''r1'' ''r1'')"
    by (simp_all add: confirm_failed_def)
  ultimately show ?thesis using reconciliation_race [OF c _ _ trace_nil] c by blast
qed

text \<open>
  A reconciliation command may be sent again: when redaction and storage keep the text of the four
  identifying payload entries, repeating an applied command reports the current row, appends no
  event and leaves the store as it is.
\<close>

theorem reconciliation_retry:
  assumes "CommitToolEffectReconciliation svc i now m st = Inr ((x, Some ev), st')"
    and "trim_space (ev_id (rec_event m)) = ev_id (rec_event m)"
    and "\<And>p k. k \<in> set identity_keys \<Longrightarrow> p k = ev_payload (rec_event m) k \<Longrightarrow>
      redact_map svc p k = p k"
    and "\<And>k. k \<in> set identity_keys \<Longrightarrow>
      \<exists>s. ev_payload (rec_event m) k = Some (VString s) \<and> sanitize_utf8 s = s"
  shows "CommitToolEffectReconciliation svc i' now' m st' = Inr ((x, None), st')"
proof -
  obtain e p where e: "getToolEffect st (rec_key m) = Some e" "effect_moved e x"
    "st' = (put_effect x st)\<lparr>rs_events := rs_events st @ [ev]\<rparr>"
    "ev_id ev = trim_space (ev_id (rec_event m))" "find_event st (ev_id (rec_event m)) = None"
    "\<forall>k. k \<noteq> ''result_version'' \<longrightarrow> p k = ev_payload (rec_event m) k" "ev_payload ev = redact_map svc p"
    by (rule Commit_applied [OF assms(1)]) blast
  have "eff_key x = rec_key m"
    using e(2) getToolEffect_Some [OF e(1)] by (simp add: effect_moved_def same_request_def)
  moreover have "getToolEffect st' (rec_key m) = getToolEffect (put_effect x st) (rec_key m)"
    by (rule getToolEffect_cong) (simp add: e(3))
  ultimately have get: "getToolEffect st' (rec_key m) = Some x" using e(1) by (simp add: getToolEffect_put)
  have ev: "find_event st' (ev_id (rec_event m)) = Some ev"
    using assms(2) e(3,4,5) by (simp add: find_event_def lookup_by_append)
  have same: "payload_value (stored_payload (ev_payload ev)) k = payload_value (ev_payload (rec_event m)) k
      \<and> \<not> compare_panics (payload_value (stored_payload (ev_payload ev)) k)
          (payload_value (ev_payload (rec_event m)) k)"
    if k: "k \<in> set identity_keys" for k
  proof -
    obtain s where s: "ev_payload (rec_event m) k = Some (VString s)" "sanitize_utf8 s = s"
      using assms(4) [OF k] by blast
    have "k \<noteq> ''result_version''" using k by (auto simp: identity_keys_def)
    then have "redact_map svc p k = Some (VString s)" using assms(3) [OF k, of p] e(6) s(1) by simp
    then show ?thesis by (simp add: payload_value_def stored_payload_def e(7) s)
  qed
  have "\<forall>k \<in> set identity_keys. payload_value (stored_payload (ev_payload ev)) k = payload_value (ev_payload (rec_event m)) k
      \<and> \<not> compare_panics (payload_value (ev_payload (rec_event m)) k) (payload_value (ev_payload (rec_event m)) k)"
    using same by fastforce
  then have "ValidateReconciliationDuplicate (stored_payload (ev_payload ev)) m = None"
    by (simp add: ValidateReconciliationDuplicate_def identity_keys_def)
  then show ?thesis using ev get by (simp add: CommitToolEffectReconciliation_def)
qed

theorem reconciliation_retry_witness:
  "\<exists>x ev st'. CommitToolEffectReconciliation example_services [] 9 (confirm_failed ''r1'' ''r1'') uncertain_effects
       = Inr ((x, Some ev), st')
     \<and> CommitToolEffectReconciliation example_services [] 10 (confirm_failed ''r1'' ''r1'') st'
       = Inr ((x, None), st')"
proof -
  obtain x ev st' where c: "CommitToolEffectReconciliation example_services [] 9 (confirm_failed ''r1'' ''r1'')
      uncertain_effects = Inr ((x, Some ev), st')"
    using example_confirm [of "''r1''"] by blast
  have "sanitize_utf8 ''r1'' = ''r1''" "sanitize_utf8 ''key'' = ''key''"
    "sanitize_utf8 ''confirm_failed'' = ''confirm_failed''" "sanitize_utf8 ''h'' = ''h''"
    by code_simp+
  then have keys: "\<exists>s. ev_payload (rec_event (confirm_failed ''r1'' ''r1'')) k = Some (VString s) \<and> sanitize_utf8 s = s"
    if "k \<in> set identity_keys" for k
    using that by (auto simp: identity_keys_def confirm_failed_def)
  show ?thesis
    using reconciliation_retry [OF c _ _ keys, of "[]" 10] c
    by (force simp: confirm_failed_def example_services_def)
qed

end
