(* ===== verification/Tool_Policy.thy ===== *)
theory Tool_Policy
  imports Go_String "HOL-Library.Product_Lexorder" "HOL-Library.Multiset"
begin

text \<open>
  The tool security policy (\<open>internal/tool/policy\<close>, \<open>domain/tool_snapshot_values.go\<close>): capabilities
  as trusted declarations of a tool's maximum authority, operator rules, and the evaluation of one
  call. The enumerations of this package are open Go strings whose empty value means a default,
  so they are strings here too.
\<close>

section \<open>Capabilities and rules\<close>

abbreviation (input) SourceLocal :: string where "SourceLocal \<equiv> ''local''"
abbreviation (input) SourceRemote :: string where "SourceRemote \<equiv> ''remote''"
abbreviation (input) ResourceRun :: string where "ResourceRun \<equiv> ''run''"
abbreviation (input) ResourceConversation :: string where "ResourceConversation \<equiv> ''conversation''"
abbreviation (input) ResourceWorkspace :: string where "ResourceWorkspace \<equiv> ''workspace''"
abbreviation (input) ResourceFilesystem :: string where "ResourceFilesystem \<equiv> ''filesystem''"
abbreviation (input) ResourceExternal :: string where "ResourceExternal \<equiv> ''external_service''"
abbreviation (input) AccessRead :: string where "AccessRead \<equiv> ''read''"
abbreviation (input) AccessWrite :: string where "AccessWrite \<equiv> ''write''"
abbreviation (input) NetworkNone :: string where "NetworkNone \<equiv> ''none''"
abbreviation (input) NetworkInternal :: string where "NetworkInternal \<equiv> ''internal''"
abbreviation (input) NetworkExternal :: string where "NetworkExternal \<equiv> ''external''"
abbreviation (input) SideEffectNone :: string where "SideEffectNone \<equiv> ''none''"
abbreviation (input) SideEffectInternalWrite :: string where "SideEffectInternalWrite \<equiv> ''internal_write''"
abbreviation (input) SideEffectExternalWrite :: string where "SideEffectExternalWrite \<equiv> ''external_write''"
abbreviation (input) SideEffectDestructive :: string where "SideEffectDestructive \<equiv> ''destructive''"
abbreviation (input) RateBounded :: string where "RateBounded \<equiv> ''run_budgeted''"
abbreviation (input) RateElevated :: string where "RateElevated \<equiv> ''elevated''"
abbreviation (input) Reversible :: string where "Reversible \<equiv> ''reversible''"
abbreviation (input) Compensatable :: string where "Compensatable \<equiv> ''compensatable''"
abbreviation (input) Irreversible :: string where "Irreversible \<equiv> ''irreversible''"
abbreviation (input) VisibilityRun :: string where "VisibilityRun \<equiv> ''run''"
abbreviation (input) VisibilityUser :: string where "VisibilityUser \<equiv> ''user''"
abbreviation (input) VisibilityOperator :: string where "VisibilityOperator \<equiv> ''operator''"
abbreviation (input) ApprovalNone :: string where "ApprovalNone \<equiv> ''none''"
abbreviation (input) ApprovalAsk :: string where "ApprovalAsk \<equiv> ''ask''"
abbreviation (input) ApprovalHumanOnly :: string where "ApprovalHumanOnly \<equiv> ''human_only''"
abbreviation (input) AuditBasic :: string where "AuditBasic \<equiv> ''basic''"
abbreviation (input) AuditFull :: string where "AuditFull \<equiv> ''full''"
abbreviation (input) ActionAllow :: string where "ActionAllow \<equiv> ''allow''"
abbreviation (input) ActionAllowAndLog :: string where "ActionAllowAndLog \<equiv> ''allow_and_log''"
abbreviation (input) ActionAsk :: string where "ActionAsk \<equiv> ''ask''"
abbreviation (input) ActionDeny :: string where "ActionDeny \<equiv> ''deny''"
abbreviation (input) ActionHumanOnly :: string where "ActionHumanOnly \<equiv> ''human_only''"

record resource_scope =
  res_kind :: string
  res_name :: string
  res_access :: string

record network_scope =
  net_mode :: string
  net_targets :: "string list"

record tool_scope =
  ts_resources :: "resource_scope list"
  ts_network :: network_scope
  ts_credentials :: "string list"

record capability =
  cap_source :: string
  cap_scope :: tool_scope
  cap_side_effect :: string
  cap_rate :: string
  cap_reversibility :: string
  cap_visibility :: string
  cap_approval :: string
  cap_audit :: string

record security_rule =
  sr_id :: string
  sr_tool :: string
  sr_action :: string
  sr_capability :: capability

record security_policy =
  sp_version :: string
  sp_default_action :: string
  sp_rules :: "security_rule list"

definition CurrentVersion :: string where "CurrentVersion = ''tool-security-policy-v1''"

section \<open>Normalization\<close>

text \<open>Adjacent duplicates are dropped; on a sorted slice these are all duplicates.\<close>

fun deduplicate :: "'a list \<Rightarrow> 'a list" where
  "deduplicate [] = []"
| "deduplicate [x] = [x]"
| "deduplicate (x # y # zs) = (if x = y then deduplicate (y # zs) else x # deduplicate (y # zs))"

definition normalizeStrings :: "string list \<Rightarrow> string list" where
  "normalizeStrings values = deduplicate (sort (filter (\<lambda>v. v \<noteq> []) (map trim_space values)))"

definition resource_key :: "resource_scope \<Rightarrow> string \<times> string \<times> string" where
  "resource_key r = (res_kind r, res_name r, res_access r)"

definition normalizeResources :: "resource_scope list \<Rightarrow> resource_scope list" where
  "normalizeResources rs =
     deduplicate (sort_key resource_key (map (\<lambda>r. r\<lparr>res_name := trim_space (res_name r)\<rparr>) rs))"

definition default_to :: "string \<Rightarrow> string \<Rightarrow> string" where
  "default_to d v = (if v = [] then d else v)"

definition NormalizeScope :: "tool_scope \<Rightarrow> tool_scope" where
  "NormalizeScope s =
     \<lparr>ts_resources = normalizeResources (ts_resources s),
      ts_network = \<lparr>net_mode = default_to NetworkNone (net_mode (ts_network s)),
        net_targets = normalizeStrings (net_targets (ts_network s))\<rparr>,
      ts_credentials = normalizeStrings (ts_credentials s)\<rparr>"

definition NormalizeCapability :: "capability \<Rightarrow> capability" where
  "NormalizeCapability c =
     \<lparr>cap_source = default_to SourceLocal (cap_source c), cap_scope = NormalizeScope (cap_scope c),
      cap_side_effect = default_to SideEffectNone (cap_side_effect c),
      cap_rate = default_to RateBounded (cap_rate c),
      cap_reversibility = default_to Reversible (cap_reversibility c),
      cap_visibility = default_to VisibilityRun (cap_visibility c),
      cap_approval = default_to ApprovalNone (cap_approval c),
      cap_audit = default_to AuditBasic (cap_audit c)\<rparr>"

definition normalize_rule :: "security_rule \<Rightarrow> security_rule" where
  "normalize_rule r = r\<lparr>sr_id := trim_space (sr_id r), sr_tool := trim_space (sr_tool r),
     sr_capability := NormalizeCapability (sr_capability r)\<rparr>"

text \<open>
  \<open>sort.Slice\<close> leaves the order of rules with the same identifier open; such a policy is rejected
  by \<open>ValidatePolicy\<close> whatever their order.
\<close>

definition NormalizePolicy :: "security_policy \<Rightarrow> security_policy" where
  "NormalizePolicy p =
     \<lparr>sp_version = default_to CurrentVersion (trim_space (sp_version p)),
      sp_default_action = default_to ActionDeny (sp_default_action p),
      sp_rules = sort_key sr_id (map normalize_rule (sp_rules p))\<rparr>"

section \<open>Validation\<close>

definition ValidateScope :: "tool_scope \<Rightarrow> string option" where
  "ValidateScope scope =
     (let s = NormalizeScope scope; mode = net_mode (ts_network s); targets = net_targets (ts_network s)
      in if mode \<notin> {NetworkNone, NetworkInternal, NetworkExternal} then Some ''unsupported network mode''
         else if mode = NetworkNone \<and> targets \<noteq> []
         then Some ''network targets require internal or external network mode''
         else if mode \<noteq> NetworkNone \<and> targets = [] then Some ''network mode requires explicit targets''
         else
           (case find (\<lambda>r. res_kind r \<notin> {ResourceRun, ResourceConversation, ResourceWorkspace,
                ResourceFilesystem, ResourceExternal} \<or> trim_space (res_name r) = []
                \<or> res_access r \<notin> {AccessRead, AccessWrite}) (ts_resources s) of
              None \<Rightarrow> None
            | Some r \<Rightarrow>
                if res_kind r \<notin> {ResourceRun, ResourceConversation, ResourceWorkspace,
                  ResourceFilesystem, ResourceExternal} then Some ''unsupported resource kind''
                else if trim_space (res_name r) = [] then Some ''resource scope name is required''
                else Some ''unsupported resource access''))"

definition ValidateCapability :: "capability \<Rightarrow> string option" where
  "ValidateCapability capability =
     (let c = NormalizeCapability capability
      in if cap_source c \<notin> {SourceLocal, SourceRemote} then Some ''unsupported Tool source''
         else if cap_side_effect c \<notin> {SideEffectNone, SideEffectInternalWrite, SideEffectExternalWrite,
            SideEffectDestructive} then Some ''unsupported side-effect class''
         else if cap_rate c \<notin> {RateBounded, RateElevated} then Some ''unsupported rate class''
         else if cap_reversibility c \<notin> {Reversible, Compensatable, Irreversible}
         then Some ''unsupported reversibility''
         else if cap_visibility c \<notin> {VisibilityRun, VisibilityUser, VisibilityOperator}
         then Some ''unsupported visibility''
         else if cap_approval c \<notin> {ApprovalNone, ApprovalAsk, ApprovalHumanOnly}
         then Some ''unsupported approval mode''
         else if cap_audit c \<notin> {AuditBasic, AuditFull} then Some ''unsupported audit level''
         else ValidateScope (cap_scope c))"

definition validAction :: "string \<Rightarrow> bool" where
  "validAction a \<longleftrightarrow> a \<in> {ActionAllow, ActionAllowAndLog, ActionAsk, ActionDeny, ActionHumanOnly}"

text \<open>The loop over the rules, with the identifiers and tools seen so far.\<close>

fun validate_rules :: "string list \<Rightarrow> string list \<Rightarrow> security_rule list \<Rightarrow> string option" where
  "validate_rules ids tools [] = None"
| "validate_rules ids tools (r # rs) =
     (if sr_id r = [] \<or> sr_tool r = [] then Some ''Tool security rule ID and Tool are required''
      else if sr_id r \<in> set ids \<or> sr_tool r \<in> set tools
      then Some ''Tool security rules require unique IDs and Tool names''
      else if \<not> validAction (sr_action r) then Some ''rule has unsupported action''
      else case ValidateCapability (sr_capability r) of
             Some e \<Rightarrow> Some e
           | None \<Rightarrow> validate_rules (sr_id r # ids) (sr_tool r # tools) rs)"

definition ValidatePolicy :: "security_policy \<Rightarrow> string option" where
  "ValidatePolicy policy =
     (if trim_space (sp_version policy) = [] then Some ''Tool security policy version is required''
      else
        (let p = NormalizePolicy policy
         in if \<not> validAction (sp_default_action p) then Some ''unsupported default action''
            else validate_rules [] [] (sp_rules p)))"

section \<open>Evaluation\<close>

definition containsStrings :: "string list \<Rightarrow> string list \<Rightarrow> bool" where
  "containsStrings maximum requested \<longleftrightarrow> list_all (\<lambda>v. v \<in> set maximum) requested"

definition scopeContains :: "tool_scope \<Rightarrow> tool_scope \<Rightarrow> bool" where
  "scopeContains maximum requested =
     (let m = NormalizeScope maximum; r = NormalizeScope requested
      in net_mode (ts_network m) = net_mode (ts_network r)
         \<and> containsStrings (net_targets (ts_network m)) (net_targets (ts_network r))
         \<and> containsStrings (ts_credentials m) (ts_credentials r)
         \<and> list_all (\<lambda>x. x \<in> set (ts_resources m)) (ts_resources r))"

definition capabilityContains :: "capability \<Rightarrow> capability \<Rightarrow> bool" where
  "capabilityContains maximum requested =
     (let m = NormalizeCapability maximum; r = NormalizeCapability requested
      in cap_source m = cap_source r \<and> cap_side_effect m = cap_side_effect r \<and> cap_rate m = cap_rate r
         \<and> cap_reversibility m = cap_reversibility r \<and> cap_visibility m = cap_visibility r
         \<and> cap_approval m = cap_approval r \<and> cap_audit m = cap_audit r
         \<and> scopeContains (cap_scope m) (cap_scope r))"

definition sensitive :: "capability \<Rightarrow> bool" where
  "sensitive c \<longleftrightarrow> cap_side_effect c \<noteq> SideEffectNone \<or> net_mode (ts_network (cap_scope c)) \<noteq> NetworkNone
     \<or> ts_credentials (cap_scope c) \<noteq> [] \<or> cap_rate c \<noteq> RateBounded
     \<or> list_ex (\<lambda>r. res_access r = AccessWrite \<or> res_kind r = ResourceFilesystem
          \<or> res_kind r = ResourceExternal) (ts_resources (cap_scope c))"

record policy_request =
  pr_tool :: string
  pr_declared :: capability
  pr_scope :: tool_scope
  pr_credentials :: "string list"

record decision =
  dec_action :: string
  dec_allowed :: bool
  dec_version :: string
  dec_rule_id :: string
  dec_reason :: string
  dec_capability :: capability

definition decisionForAction :: "decision \<Rightarrow> string \<Rightarrow> capability \<Rightarrow> decision" where
  "decisionForAction d action c =
     (if action = ActionAllow \<or> action = ActionAllowAndLog then
        if cap_approval c \<noteq> ApprovalNone
        then d\<lparr>dec_action := ActionDeny, dec_reason := ''approval_policy_not_satisfied''\<rparr>
        else if cap_reversibility c = Irreversible \<and> action \<noteq> ActionAllowAndLog
        then d\<lparr>dec_action := ActionDeny, dec_reason := ''irreversible_action_requires_logged_authorization''\<rparr>
        else d\<lparr>dec_action := action, dec_allowed := True, dec_reason := ''policy_allowed''\<rparr>
      else if action = ActionAsk \<or> action = ActionHumanOnly
      then d\<lparr>dec_action := action, dec_reason := ''human_approval_required''\<rparr>
      else d\<lparr>dec_action := ActionDeny, dec_reason := ''policy_denied''\<rparr>)"

definition requested_capability :: "policy_request \<Rightarrow> capability" where
  "requested_capability q =
     (NormalizeCapability (pr_declared q))\<lparr>cap_scope := NormalizeScope (pr_scope q)\<rparr>"

definition Evaluate :: "security_policy \<Rightarrow> policy_request \<Rightarrow> decision" where
  "Evaluate policy q =
     (let p = NormalizePolicy policy; declared = NormalizeCapability (pr_declared q);
          requested = requested_capability q;
          d = \<lparr>dec_action = ActionDeny, dec_allowed = False, dec_version = sp_version p, dec_rule_id = [],
               dec_reason = ''policy_invalid'', dec_capability = requested\<rparr>
      in if ValidatePolicy p \<noteq> None then d
         else if trim_space (pr_tool q) = [] \<or> ValidateCapability declared \<noteq> None
            \<or> ValidateScope (cap_scope requested) \<noteq> None
         then d\<lparr>dec_reason := ''capability_invalid''\<rparr>
         else if \<not> scopeContains (cap_scope declared) (cap_scope requested)
         then d\<lparr>dec_reason := ''binding_scope_expansion''\<rparr>
         else if \<not> containsStrings (normalizeStrings (pr_credentials q)) (ts_credentials (cap_scope requested))
         then d\<lparr>dec_reason := ''credential_scope_unavailable''\<rparr>
         else
           (case find (\<lambda>r. sr_tool r = trim_space (pr_tool q)) (sp_rules p) of
              Some r \<Rightarrow>
                (let d = d\<lparr>dec_rule_id := sr_id r\<rparr>
                 in if \<not> capabilityContains (sr_capability r) requested
                    then d\<lparr>dec_reason := ''rule_scope_mismatch''\<rparr>
                    else decisionForAction d (sr_action r) requested)
            | None \<Rightarrow>
                if cap_source declared = SourceRemote then d\<lparr>dec_reason := ''remote_tool_requires_rule''\<rparr>
                else if sensitive requested then d\<lparr>dec_reason := ''sensitive_scope_requires_rule''\<rparr>
                else decisionForAction d (sp_default_action p) requested))"

definition AuditRequired :: "decision \<Rightarrow> bool" where
  "AuditRequired d \<longleftrightarrow> dec_allowed d \<and> dec_action d = ActionAllowAndLog"

section \<open>Data boundary and planning\<close>

definition TransmitsData :: "capability \<Rightarrow> bool" where
  "TransmitsData capability =
     (let c = NormalizeCapability capability
      in cap_source c = SourceRemote \<or> net_mode (ts_network (cap_scope c)) \<noteq> NetworkNone
         \<or> list_ex (\<lambda>r. res_kind r = ResourceExternal) (ts_resources (cap_scope c)))"

definition UsesPrivateResources :: "capability \<Rightarrow> bool" where
  "UsesPrivateResources c \<longleftrightarrow> list_ex (\<lambda>r. res_kind r \<in> {ResourceRun, ResourceConversation,
     ResourceWorkspace, ResourceFilesystem}) (ts_resources (cap_scope c))"

definition AllowsPlanning :: "capability \<Rightarrow> bool" where
  "AllowsPlanning capability =
     (let c = NormalizeCapability capability
      in cap_source c = SourceLocal \<and> cap_side_effect c = SideEffectNone
         \<and> list_all (\<lambda>r. res_access r = AccessRead) (ts_resources (cap_scope c)))"

definition DefaultPolicy :: security_policy where
  "DefaultPolicy = \<lparr>sp_version = CurrentVersion, sp_default_action = ActionAllow,
     sp_rules = [\<lparr>sr_id = ''builtin-task-state-write'', sr_tool = ''update_task_state'',
       sr_action = ActionAllowAndLog,
       sr_capability = NormalizeCapability \<lparr>cap_source = [],
         cap_scope = \<lparr>ts_resources = [\<lparr>res_kind = ResourceConversation, res_name = ''task_state'',
             res_access = AccessWrite\<rparr>],
           ts_network = \<lparr>net_mode = [], net_targets = []\<rparr>, ts_credentials = []\<rparr>,
         cap_side_effect = SideEffectInternalWrite, cap_rate = [], cap_reversibility = Compensatable,
         cap_visibility = VisibilityUser, cap_approval = [], cap_audit = AuditFull\<rparr>\<rparr>]\<rparr>"

section \<open>The executor's check of one call\<close>

text \<open>
  \<open>evaluateSecurity\<close> (\<open>tool/executor_security.go\<close>). What it reads of the executor, the binding and
  the request: \<open>sec_resolved\<close> is the answer of the binding's scope resolver, when it has one (a
  panic is an error), \<open>sec_private\<close> the executor's private-data flag, \<open>sec_clean\<close> whether the
  arguments hold no credential, and \<open>sec_authorize\<close> the Workspace authorization, when there is
  one: its refusal may carry an availability reason.
\<close>

datatype security_code = ErrorSecurityPolicyDenied | ErrorCredentialScope | ErrorSecurityScopeInvalid
  | ErrorApprovalRequired

datatype authorization = Authorized | Unavailable string | Unauthorized

record security_call =
  sec_policy :: security_policy
  sec_tool :: string
  sec_declared :: capability
  sec_resolved :: "(string + tool_scope) option"
  sec_credentials :: "string list"
  sec_private :: bool
  sec_clean :: bool
  sec_authorize :: "(tool_scope \<Rightarrow> authorization) option"

definition security_request :: "security_call \<Rightarrow> tool_scope \<Rightarrow> policy_request" where
  "security_request x scope = \<lparr>pr_tool = sec_tool x, pr_declared = sec_declared x, pr_scope = scope,
     pr_credentials = sec_credentials x\<rparr>"

definition denied :: "string \<Rightarrow> decision \<Rightarrow> decision" where
  "denied reason d = d\<lparr>dec_allowed := False, dec_action := ActionDeny, dec_reason := reason\<rparr>"

definition guard_egress :: "security_call \<Rightarrow> decision \<Rightarrow> decision" where
  "guard_egress x d =
     (let d = (if dec_allowed d \<and> TransmitsData (dec_capability d)
                  \<and> (sec_private x \<or> UsesPrivateResources (sec_declared x))
               then denied ''private_context_egress_denied'' d else d)
      in if dec_allowed d \<and> TransmitsData (dec_capability d) \<and> \<not> sec_clean x
         then denied ''credential_content_egress_denied'' d else d)"

definition denial_code :: "string \<Rightarrow> security_code" where
  "denial_code reason =
     (if reason = ''credential_scope_unavailable'' then ErrorCredentialScope
      else if reason = ''binding_scope_expansion'' \<or> reason = ''capability_invalid''
         \<or> reason = ''scope_resolution_failed'' then ErrorSecurityScopeInvalid
      else if reason = ''human_approval_required'' \<or> reason = ''approval_policy_not_satisfied''
      then ErrorApprovalRequired
      else ErrorSecurityPolicyDenied)"

text \<open>The check once the scope is known: policy, data boundary, authorization.\<close>

definition check_scope :: "security_call \<Rightarrow> tool_scope \<Rightarrow> decision \<times> security_code option" where
  "check_scope x scope =
     (let d = guard_egress x (Evaluate (sec_policy x) (security_request x scope))
      in if dec_allowed d then
           (case sec_authorize x of
              None \<Rightarrow> (d, None)
            | Some authorize \<Rightarrow>
                (case authorize scope of
                   Authorized \<Rightarrow> (d, None)
                 | Unavailable reason \<Rightarrow> (denied reason d, Some ErrorSecurityPolicyDenied)
                 | Unauthorized \<Rightarrow>
                     (denied ''workspace_authorization_denied'' d, Some ErrorSecurityPolicyDenied)))
         else (d, Some (denial_code (dec_reason d))))"

definition evaluateSecurity :: "security_call \<Rightarrow> decision \<times> security_code option" where
  "evaluateSecurity x =
     (case sec_resolved x of
        None \<Rightarrow> check_scope x (cap_scope (sec_declared x))
      | Some (Inl e) \<Rightarrow>
          (\<lparr>dec_action = ActionDeny, dec_allowed = False, dec_version = sp_version (sec_policy x),
            dec_rule_id = [], dec_reason = ''scope_resolution_failed'', dec_capability = sec_declared x\<rparr>,
           Some ErrorSecurityScopeInvalid)
      | Some (Inr scope) \<Rightarrow> check_scope x scope)"

end
