(* ===== verification/Policy_Guarantees.thy ===== *)
theory Policy_Guarantees
  imports Tool_Policy
begin

text \<open>
  What the tool security policy guarantees: normalization is canonical, containment of scopes is a
  preorder, evaluation fails closed, narrowing a request never loses a grant, and the order of an
  operator's rules is irrelevant.
\<close>

section \<open>Normal forms\<close>

lemma deduplicate_set [simp]: "set (deduplicate xs) = set xs"
  by (induction xs rule: deduplicate.induct) auto

lemma deduplicate_distinct_id: "distinct xs \<Longrightarrow> deduplicate xs = xs"
  by (induction xs rule: deduplicate.induct) auto

lemma deduplicate_sorted: "sorted (map f xs) \<Longrightarrow> sorted (map f (deduplicate xs))"
  by (induction xs rule: deduplicate.induct) auto

lemma deduplicate_distinct:
  "sorted (map f xs) \<Longrightarrow> inj f \<Longrightarrow> distinct (deduplicate xs)"
proof (induction xs rule: deduplicate.induct)
  case (3 x y zs)
  then show ?case by (auto simp: inj_def)
qed simp_all

lemma deduplicate_canonical:
  assumes "inj f"
  shows "deduplicate (sort_key f (deduplicate (sort_key f xs))) = deduplicate (sort_key f xs)"
proof -
  have "sorted (map f (deduplicate (sort_key f xs)))" by (rule deduplicate_sorted) simp
  then have "sort_key f (deduplicate (sort_key f xs)) = deduplicate (sort_key f xs)"
    by (simp add: sort_key_id_if_sorted)
  moreover have "distinct (deduplicate (sort_key f xs))"
    by (rule deduplicate_distinct [where f = f]) (simp_all add: assms)
  ultimately show ?thesis by (simp add: deduplicate_distinct_id)
qed

lemma resource_key_inj: "inj resource_key"
  by (auto simp: inj_def resource_key_def)

lemma normalizeStrings_set: "set (normalizeStrings vs) = trim_space ` set vs - {[]}"
  by (auto simp: normalizeStrings_def)

lemma normalizeStrings_idem [simp]: "normalizeStrings (normalizeStrings vs) = normalizeStrings vs"
proof -
  have "map trim_space (normalizeStrings vs) = normalizeStrings vs"
    by (rule map_idI) (auto simp: normalizeStrings_set trim_space_idem)
  moreover have "filter (\<lambda>v. v \<noteq> []) (normalizeStrings vs) = normalizeStrings vs"
    by (simp add: filter_id_conv normalizeStrings_set)
  ultimately have "normalizeStrings (normalizeStrings vs) = deduplicate (sort (normalizeStrings vs))"
    by (simp add: normalizeStrings_def)
  then show ?thesis
    using deduplicate_canonical [of "\<lambda>x. x"] by (simp add: normalizeStrings_def)
qed

lemma normalizeResources_set:
  "set (normalizeResources rs) = (\<lambda>r. r\<lparr>res_name := trim_space (res_name r)\<rparr>) ` set rs"
  by (simp add: normalizeResources_def)

lemma normalizeResources_idem [simp]: "normalizeResources (normalizeResources rs) = normalizeResources rs"
proof -
  have "map (\<lambda>r. r\<lparr>res_name := trim_space (res_name r)\<rparr>) (normalizeResources rs) = normalizeResources rs"
    by (rule map_idI) (auto simp: normalizeResources_set trim_space_idem)
  then show ?thesis
    using deduplicate_canonical [OF resource_key_inj] by (simp add: normalizeResources_def)
qed

lemma default_to_idem [simp]: "d \<noteq> [] \<Longrightarrow> default_to d (default_to d v) = default_to d v"
  by (simp add: default_to_def)

lemma NormalizeScope_idem [simp]: "NormalizeScope (NormalizeScope s) = NormalizeScope s"
  by (simp add: NormalizeScope_def)

lemma NormalizeCapability_idem [simp]: "NormalizeCapability (NormalizeCapability c) = NormalizeCapability c"
  by (simp add: NormalizeCapability_def)

lemma NormalizeCapability_scope [simp]: "cap_scope (NormalizeCapability c) = NormalizeScope (cap_scope c)"
  by (simp add: NormalizeCapability_def)

lemma NormalizePolicy_idem [simp]: "NormalizePolicy (NormalizePolicy p) = NormalizePolicy p"
proof -
  have "map normalize_rule (sp_rules (NormalizePolicy p)) = sp_rules (NormalizePolicy p)"
    by (rule map_idI) (auto simp: NormalizePolicy_def normalize_rule_def trim_space_idem)
  moreover have "sorted (map sr_id (sp_rules (NormalizePolicy p)))" by (simp add: NormalizePolicy_def)
  ultimately have "sp_rules (NormalizePolicy (NormalizePolicy p)) = sp_rules (NormalizePolicy p)"
    by (simp add: NormalizePolicy_def sort_key_id_if_sorted)
  moreover have "trim_space (default_to CurrentVersion (trim_space v)) = default_to CurrentVersion (trim_space v)" for v
  proof -
    have "trim_space CurrentVersion = CurrentVersion" by code_simp
    then show ?thesis by (simp add: default_to_def trim_space_idem)
  qed
  ultimately show ?thesis by (simp add: NormalizePolicy_def CurrentVersion_def)
qed

section \<open>Containment\<close>

lemma ValidateScope_normalized [simp]: "ValidateScope (NormalizeScope s) = ValidateScope s"
  by (simp add: ValidateScope_def)

lemma ValidateCapability_normalized [simp]: "ValidateCapability (NormalizeCapability c) = ValidateCapability c"
  by (simp add: ValidateCapability_def)

lemma scopeContains_iff:
  "scopeContains m r \<longleftrightarrow>
     net_mode (ts_network (NormalizeScope m)) = net_mode (ts_network (NormalizeScope r))
     \<and> set (net_targets (ts_network (NormalizeScope r))) \<subseteq> set (net_targets (ts_network (NormalizeScope m)))
     \<and> set (ts_credentials (NormalizeScope r)) \<subseteq> set (ts_credentials (NormalizeScope m))
     \<and> set (ts_resources (NormalizeScope r)) \<subseteq> set (ts_resources (NormalizeScope m))"
  by (auto simp: scopeContains_def containsStrings_def list_all_iff Let_def)

lemma scopeContains_normalized [simp]:
  "scopeContains (NormalizeScope m) r = scopeContains m r"
  "scopeContains m (NormalizeScope r) = scopeContains m r"
  by (simp_all add: scopeContains_iff)

lemma scopeContains_refl: "scopeContains s s"
  by (simp add: scopeContains_iff)

lemma scopeContains_trans: "scopeContains a b \<Longrightarrow> scopeContains b c \<Longrightarrow> scopeContains a c"
  by (auto simp: scopeContains_iff)

section \<open>Evaluation\<close>

lemma validate_rules_None:
  "validate_rules ids tools rs = None \<Longrightarrow>
     distinct (map sr_id rs) \<and> distinct (map sr_tool rs)
     \<and> set (map sr_id rs) \<inter> set ids = {} \<and> set (map sr_tool rs) \<inter> set tools = {}
     \<and> (\<forall>r \<in> set rs. sr_id r \<noteq> [] \<and> sr_tool r \<noteq> [] \<and> validAction (sr_action r)
          \<and> ValidateCapability (sr_capability r) = None)"
proof (induction ids tools rs rule: validate_rules.induct)
  case (2 ids tools r rs)
  have r: "sr_id r \<noteq> []" "sr_tool r \<noteq> []" "sr_id r \<notin> set ids" "sr_tool r \<notin> set tools" "validAction (sr_action r)"
    "ValidateCapability (sr_capability r) = None" "validate_rules (sr_id r # ids) (sr_tool r # tools) rs = None"
    using 2(2) by (simp_all split: if_split_asm option.split_asm)
  show ?case using 2(1) r by force
qed simp

lemma ValidatePolicy_None:
  "ValidatePolicy p = None \<Longrightarrow> validate_rules [] [] (sp_rules (NormalizePolicy p)) = None
     \<and> validAction (sp_default_action (NormalizePolicy p))"
  by (simp add: ValidatePolicy_def Let_def split: if_splits)

text \<open>Everything about an evaluation that does not depend on the requested scope alone.\<close>

definition decides :: "decision \<Rightarrow> string \<Rightarrow> capability \<Rightarrow> bool" where
  "decides d action c \<longleftrightarrow> dec_allowed d \<and> dec_action d = action \<and> action \<in> {ActionAllow, ActionAllowAndLog}
     \<and> cap_approval c = ApprovalNone \<and> (cap_reversibility c = Irreversible \<longrightarrow> action = ActionAllowAndLog)"

lemma decisionForAction_allowed:
  "\<not> dec_allowed d \<Longrightarrow> dec_allowed (decisionForAction d action c) \<longleftrightarrow>
     action \<in> {ActionAllow, ActionAllowAndLog} \<and> cap_approval c = ApprovalNone
     \<and> (cap_reversibility c = Irreversible \<longrightarrow> action = ActionAllowAndLog)"
  "dec_allowed (decisionForAction d action c) \<Longrightarrow> \<not> dec_allowed d \<Longrightarrow>
     dec_action (decisionForAction d action c) = action"
   apply (simp add: decisionForAction_def)
  apply (simp add: decisionForAction_def split: if_split_asm)
  apply blast
  done

definition matching_rule :: "security_policy \<Rightarrow> policy_request \<Rightarrow> security_rule option" where
  "matching_rule p q = find (\<lambda>r. sr_tool r = trim_space (pr_tool q)) (sp_rules (NormalizePolicy p))"

text \<open>The action that applies to a request: the rule's, or the default for local harmless calls.\<close>

definition applicable_action :: "security_policy \<Rightarrow> policy_request \<Rightarrow> string option" where
  "applicable_action p q =
     (case matching_rule p q of
        Some r \<Rightarrow>
          if capabilityContains (sr_capability r) (requested_capability q) then Some (sr_action r) else None
      | None \<Rightarrow>
          if cap_source (NormalizeCapability (pr_declared q)) \<noteq> SourceRemote \<and> \<not> sensitive (requested_capability q)
          then Some (sp_default_action (NormalizePolicy p)) else None)"

definition grantable :: "policy_request \<Rightarrow> bool" where
  "grantable q \<longleftrightarrow> trim_space (pr_tool q) \<noteq> [] \<and> ValidateCapability (pr_declared q) = None
     \<and> ValidateScope (pr_scope q) = None \<and> scopeContains (cap_scope (pr_declared q)) (pr_scope q)
     \<and> set (ts_credentials (NormalizeScope (pr_scope q))) \<subseteq> set (normalizeStrings (pr_credentials q))"

lemma Evaluate_allowed_iff:
  "dec_allowed (Evaluate p q) \<longleftrightarrow>
     ValidatePolicy (NormalizePolicy p) = None \<and> grantable q
     \<and> (\<exists>a. applicable_action p q = Some a \<and> a \<in> {ActionAllow, ActionAllowAndLog}
          \<and> cap_approval (NormalizeCapability (pr_declared q)) = ApprovalNone
          \<and> (cap_reversibility (NormalizeCapability (pr_declared q)) = Irreversible \<longrightarrow> a = ActionAllowAndLog))"
  by (simp add: Evaluate_def Let_def grantable_def applicable_action_def matching_rule_def
      requested_capability_def containsStrings_def list_all_iff decisionForAction_allowed subset_iff
      split: option.splits) auto

lemma Evaluate_action:
  "dec_allowed (Evaluate p q) \<Longrightarrow> applicable_action p q = Some (dec_action (Evaluate p q))"
  by (auto simp: Evaluate_def Let_def applicable_action_def matching_rule_def decisionForAction_allowed(2)
      split: option.splits if_splits)

section \<open>Narrowing and rule order\<close>

lemma requested_fields [simp]:
  "cap_scope (requested_capability q) = NormalizeScope (pr_scope q)"
  "NormalizeCapability (requested_capability q) = requested_capability q"
  by (simp_all add: requested_capability_def NormalizeCapability_def)

lemma capabilityContains_narrower:
  assumes "capabilityContains m (requested_capability q)" and "scopeContains (pr_scope q) s"
  shows "capabilityContains m (requested_capability (q\<lparr>pr_scope := s\<rparr>))"
  using assms scopeContains_trans [of "cap_scope m" "pr_scope q" s]
  by (simp add: capabilityContains_def Let_def) (simp add: requested_capability_def)

lemma sensitive_narrower:
  assumes "\<not> sensitive (requested_capability q)" and "scopeContains (pr_scope q) s"
  shows "\<not> sensitive (requested_capability (q\<lparr>pr_scope := s\<rparr>))"
proof -
  have fields: "cap_side_effect (requested_capability (q\<lparr>pr_scope := s\<rparr>)) = cap_side_effect (requested_capability q)"
    "cap_rate (requested_capability (q\<lparr>pr_scope := s\<rparr>)) = cap_rate (requested_capability q)"
    by (simp_all add: requested_capability_def)
  show ?thesis
    using assms unfolding sensitive_def fields requested_fields scopeContains_iff list_ex_iff
    by auto
qed

lemma applicable_narrower:
  assumes "applicable_action p q = Some a" and "scopeContains (pr_scope q) s"
  shows "applicable_action p (q\<lparr>pr_scope := s\<rparr>) = Some a"
proof -
  have same: "matching_rule p (q\<lparr>pr_scope := s\<rparr>) = matching_rule p q"
    "pr_declared (q\<lparr>pr_scope := s\<rparr>) = pr_declared q"
    by (simp_all add: matching_rule_def)
  show ?thesis
    using assms capabilityContains_narrower sensitive_narrower
    unfolding applicable_action_def same
    by (auto split: option.splits if_split_asm)
qed

lemma NormalizePolicy_order:
  assumes "mset (sp_rules p) = mset (sp_rules p')" and "sp_version p = sp_version p'"
    and "sp_default_action p = sp_default_action p'" and "ValidatePolicy (NormalizePolicy p) = None"
  shows "NormalizePolicy p' = NormalizePolicy p"
proof -
  let ?xs = "map normalize_rule (sp_rules p)" and ?ys = "map normalize_rule (sp_rules p')"
  have "validate_rules [] [] (sp_rules (NormalizePolicy p)) = None"
    using ValidatePolicy_None [OF assms(4)] by simp
  then have "distinct (map sr_id (sp_rules (NormalizePolicy p)))" by (blast dest: validate_rules_None)
  then have "distinct (map sr_id (sort_key sr_id ?xs))" by (simp add: NormalizePolicy_def)
  then have "inj_on sr_id (set ?xs)" by (simp add: distinct_map)
  moreover have "mset ?ys = mset ?xs" using assms(1) by simp
  then have "mset ?ys = mset (sort_key sr_id ?xs)" "set ?ys = set ?xs" by (simp, metis set_mset_mset)
  ultimately have "sort_key sr_id ?ys = sort_key sr_id ?xs"
    by (intro sort_key_inj_key_eq) simp_all
  then show ?thesis using assms(2,3) by (simp add: NormalizePolicy_def)
qed

section \<open>Example: an operator rule for a web tool\<close>

definition web_scope :: "string list \<Rightarrow> tool_scope" where
  "web_scope targets = \<lparr>ts_resources = [], ts_network = \<lparr>net_mode = NetworkExternal, net_targets = targets\<rparr>,
     ts_credentials = [''search'']\<rparr>"

definition web_capability :: capability where
  "web_capability = \<lparr>cap_source = [], cap_scope = web_scope [''a.org'', ''b.org''], cap_side_effect = [],
     cap_rate = [], cap_reversibility = [], cap_visibility = [], cap_approval = [], cap_audit = []\<rparr>"

definition web_rule :: security_rule where
  "web_rule = \<lparr>sr_id = ''r'', sr_tool = ''web'', sr_action = ActionAllow, sr_capability = web_capability\<rparr>"

definition web_policy :: "security_rule list \<Rightarrow> security_policy" where
  "web_policy rules = \<lparr>sp_version = [], sp_default_action = [], sp_rules = rules\<rparr>"

definition web_request :: "string list \<Rightarrow> policy_request" where
  "web_request targets = \<lparr>pr_tool = ''web'', pr_declared = web_capability, pr_scope = web_scope targets,
     pr_credentials = [''search'']\<rparr>"

lemma web_allowed: "dec_allowed (Evaluate (web_policy [web_rule]) (web_request [''b.org'', ''a.org'']))"
  by code_simp

lemma web_request_narrower: "scopeContains (web_scope [''b.org'', ''a.org'']) (web_scope [''a.org''])"
    "ValidateScope (web_scope [''a.org'']) = None"
  by code_simp+

lemma remote_denied: "\<not> dec_allowed (Evaluate (web_policy []) (web_request [''a.org'']))"
  by code_simp

text \<open>The check of a call whose scope is known.\<close>

definition within_boundary :: "security_call \<Rightarrow> tool_scope \<Rightarrow> bool" where
  "within_boundary x scope \<longleftrightarrow> (TransmitsData (requested_capability (security_request x scope)) \<longrightarrow>
     \<not> sec_private x \<and> \<not> UsesPrivateResources (sec_declared x) \<and> sec_clean x)"

lemma denied_allowed [simp]: "\<not> dec_allowed (denied reason d)"
  by (simp add: denied_def)

lemma decisionForAction_capability [simp]: "dec_capability (decisionForAction d a c) = dec_capability d"
  by (simp add: decisionForAction_def)

lemma Evaluate_capability [simp]: "dec_capability (Evaluate p q) = requested_capability q"
  by (simp add: Evaluate_def Let_def split: option.split)

lemma guard_egress_allowed:
  "dec_allowed (guard_egress x (Evaluate p (security_request x scope))) \<longleftrightarrow>
     dec_allowed (Evaluate p (security_request x scope)) \<and> within_boundary x scope"
  "dec_capability (guard_egress x d) = dec_capability d"
  by (auto simp: guard_egress_def Let_def within_boundary_def denied_def)

lemma check_scope_boundary:
  assumes "check_scope x scope = (d, err)"
  shows "(err = None \<longleftrightarrow> dec_allowed d) \<and>
    (err = None \<longrightarrow> dec_allowed (Evaluate (sec_policy x) (security_request x scope))
       \<and> dec_capability d = requested_capability (security_request x scope)
       \<and> (\<forall>authorize. sec_authorize x = Some authorize \<longrightarrow> authorize scope = Authorized)
       \<and> within_boundary x scope)"
proof (cases "dec_allowed (guard_egress x (Evaluate (sec_policy x) (security_request x scope)))")
  case True
  then show ?thesis
    using assms guard_egress_allowed(1) [of x "sec_policy x" scope]
    by (auto simp: check_scope_def Let_def guard_egress_allowed(2) split: option.splits authorization.splits)
next
  case False
  then show ?thesis using assms by (auto simp: check_scope_def Let_def)
qed

section \<open>Properties\<close>

text \<open>
  C13: Fail closed: a call is allowed only when the policy and the declared capability are valid, the
  requested scope is valid and within the declared one, the needed credentials are available, no
  human approval is required, irreversible effects are logged, and the authority comes either
  from a rule for this tool whose capability contains the request, or from the default action for
  a local call that is not sensitive.
\<close>

theorem Evaluate_fail_closed:
  assumes "dec_allowed (Evaluate p q)"
  shows "ValidatePolicy (NormalizePolicy p) = None \<and> ValidateCapability (pr_declared q) = None
    \<and> ValidateScope (pr_scope q) = None \<and> scopeContains (cap_scope (pr_declared q)) (pr_scope q)
    \<and> set (ts_credentials (NormalizeScope (pr_scope q))) \<subseteq> set (normalizeStrings (pr_credentials q))
    \<and> cap_approval (NormalizeCapability (pr_declared q)) = ApprovalNone
    \<and> (cap_reversibility (NormalizeCapability (pr_declared q)) = Irreversible \<longrightarrow> AuditRequired (Evaluate p q))
    \<and> (case matching_rule p q of
         Some r \<Rightarrow> sr_action r \<in> {ActionAllow, ActionAllowAndLog}
           \<and> capabilityContains (sr_capability r) (requested_capability q)
       | None \<Rightarrow> sp_default_action (NormalizePolicy p) \<in> {ActionAllow, ActionAllowAndLog}
           \<and> cap_source (NormalizeCapability (pr_declared q)) = SourceLocal
           \<and> \<not> sensitive (requested_capability q))"
proof -
  obtain a where a: "applicable_action p q = Some a" "a \<in> {ActionAllow, ActionAllowAndLog}"
    "cap_approval (NormalizeCapability (pr_declared q)) = ApprovalNone"
    "cap_reversibility (NormalizeCapability (pr_declared q)) = Irreversible \<longrightarrow> a = ActionAllowAndLog"
    and ok: "ValidatePolicy (NormalizePolicy p) = None" "grantable q"
    using assms unfolding Evaluate_allowed_iff by blast
  have "dec_action (Evaluate p q) = a" using Evaluate_action [OF assms] a(1) by simp
  moreover have "cap_source (NormalizeCapability (pr_declared q)) \<in> {SourceLocal, SourceRemote}"
    using ok(2) by (simp add: grantable_def ValidateCapability_def Let_def split: if_split_asm)
  ultimately show ?thesis
    using a ok assms
    by (auto simp: grantable_def AuditRequired_def applicable_action_def split: option.splits if_split_asm)
qed

theorem Evaluate_fail_closed_witness:
  "scopeContains (cap_scope web_capability) (web_scope [''b.org'', ''a.org''])
   \<and> matching_rule (web_policy [web_rule]) (web_request [''b.org'', ''a.org'']) \<noteq> None"
proof -
  have "matching_rule (web_policy [web_rule]) (web_request [''b.org'', ''a.org'']) \<noteq> None" by code_simp
  then show ?thesis using Evaluate_fail_closed [OF web_allowed] by (simp add: web_request_def)
qed

text \<open>
  Least authority is never punished: when a call is allowed, the same call with any valid scope
  contained in the one it asked for is allowed too, with the same action.
\<close>

theorem Evaluate_narrowing:
  assumes "dec_allowed (Evaluate p q)" and "scopeContains (pr_scope q) s" and "ValidateScope s = None"
  shows "dec_allowed (Evaluate p (q\<lparr>pr_scope := s\<rparr>))
    \<and> dec_action (Evaluate p (q\<lparr>pr_scope := s\<rparr>)) = dec_action (Evaluate p q)"
proof -
  note act = applicable_narrower [OF Evaluate_action [OF assms(1)] assms(2)]
  have "grantable q" using assms(1) unfolding Evaluate_allowed_iff by blast
  then have "grantable (q\<lparr>pr_scope := s\<rparr>)"
    using assms(2,3) scopeContains_trans [of "cap_scope (pr_declared q)" "pr_scope q" s]
    by (auto simp: grantable_def scopeContains_iff [of "pr_scope q" s])
  then have "dec_allowed (Evaluate p (q\<lparr>pr_scope := s\<rparr>))"
    using assms(1) act Evaluate_action [OF assms(1)] unfolding Evaluate_allowed_iff by simp
  then show ?thesis using act Evaluate_action by fastforce
qed

theorem Evaluate_narrowing_witness:
  "dec_allowed (Evaluate (web_policy [web_rule]) (web_request [''a.org'']))"
  using Evaluate_narrowing [OF web_allowed, of "web_scope [''a.org'']"] web_request_narrower
  by (simp add: web_request_def)

text \<open>
  The order in which an operator lists the rules is irrelevant: two policies with the same rules in
  any order decide every request alike.
\<close>

theorem Evaluate_rule_order:
  assumes "mset (sp_rules p) = mset (sp_rules p')" and "sp_version p = sp_version p'"
    and "sp_default_action p = sp_default_action p'"
  shows "Evaluate p q = Evaluate p' q"
proof (cases "ValidatePolicy (NormalizePolicy p) = None")
  case True
  then have "NormalizePolicy p' = NormalizePolicy p" by (rule NormalizePolicy_order [OF assms])
  then show ?thesis by (simp add: Evaluate_def)
next
  case invalid: False
  have "ValidatePolicy (NormalizePolicy p') \<noteq> None"
  proof
    assume v: "ValidatePolicy (NormalizePolicy p') = None"
    have "NormalizePolicy p = NormalizePolicy p'"
      by (rule NormalizePolicy_order [OF assms(1) [symmetric] assms(2,3) [symmetric] v])
    then show False using v invalid by simp
  qed
  then show ?thesis using invalid assms(2) by (simp add: Evaluate_def NormalizePolicy_def [of p] NormalizePolicy_def [of p'])
qed

theorem Evaluate_rule_order_witness:
  "Evaluate (web_policy [web_rule, web_rule\<lparr>sr_id := ''s'', sr_tool := ''t''\<rparr>]) (web_request [''a.org''])
   = Evaluate (web_policy [web_rule\<lparr>sr_id := ''s'', sr_tool := ''t''\<rparr>, web_rule]) (web_request [''a.org''])"
  by (rule Evaluate_rule_order) (simp_all add: web_policy_def)

text \<open>
  C15: The executor adds the data boundary: a call passes its check exactly when no error is returned,
  and then the policy has allowed it, the Workspace has authorized the resolved scope, and a call
  that transmits data runs without private context, without private resources and without
  credentials in its arguments.
\<close>

theorem evaluateSecurity_boundary:
  assumes "evaluateSecurity x = (d, err)"
  shows "(err = None \<longleftrightarrow> dec_allowed d) \<and>
    (err = None \<longrightarrow> (\<exists>scope. dec_allowed (Evaluate (sec_policy x) (security_request x scope))
       \<and> dec_capability d = requested_capability (security_request x scope)
       \<and> (\<forall>authorize. sec_authorize x = Some authorize \<longrightarrow> authorize scope = Authorized)
       \<and> within_boundary x scope))"
proof (cases "\<exists>scope. evaluateSecurity x = check_scope x scope")
  case True
  then show ?thesis using assms check_scope_boundary by metis
next
  case False
  then obtain e where "sec_resolved x = Some (Inl e)"
    by (cases "sec_resolved x"; cases "the (sec_resolved x)") (simp_all add: evaluateSecurity_def, blast+)
  then show ?thesis using assms by (auto simp: evaluateSecurity_def)
qed

definition web_call :: security_call where
  "web_call = \<lparr>sec_policy = web_policy [web_rule], sec_tool = ''web'', sec_declared = web_capability,
     sec_resolved = Some (Inr (web_scope [''a.org''])), sec_credentials = [''search''], sec_private = False,
     sec_clean = True, sec_authorize = None\<rparr>"

lemma web_call_allowed: "snd (evaluateSecurity web_call) = None"
    "TransmitsData (dec_capability (fst (evaluateSecurity web_call)))"
  by code_simp+

theorem evaluateSecurity_boundary_witness:
  "dec_allowed (fst (evaluateSecurity web_call)) \<and> \<not> sec_private web_call
   \<and> \<not> UsesPrivateResources (sec_declared web_call)"
proof -
  obtain d err where e: "evaluateSecurity web_call = (d, err)" by (cases "evaluateSecurity web_call")
  obtain scope where "dec_capability d = requested_capability (security_request web_call scope)"
    "within_boundary web_call scope" "dec_allowed d"
    using evaluateSecurity_boundary [OF e] web_call_allowed(1) e by auto
  then show ?thesis using web_call_allowed(2) e by (simp add: within_boundary_def)
qed

end
