(* ===== verification/Reconciliation.thy ===== *)
theory Reconciliation
  imports Effect_Journal Tool_Policy
begin

text \<open>
  The reconciliation of uncertain tool effects (\<open>internal/tool/reconciliation\<close>): an operator's
  command is validated, recognised when it is sent again, checked against the effect's state and
  version, claimed durably before an external callback may run, and settled with an audit event.
  Hashing, JSON and redaction are services; the callbacks of a tool are described by what they
  return; \<open>between\<close> stands for what other transactions do to the store between two accesses.
\<close>

section \<open>Commands and outcomes\<close>

record recon_command =
  rc_id :: string
  rc_action :: reconciliation_action
  rc_expected_version :: int
  rc_actor :: string
  rc_reason :: string
  rc_result :: string

record effect_summary =
  sum_key :: string
  sum_version :: int
  sum_run_id :: string
  sum_stage_id :: string
  sum_turn_id :: string
  sum_tool_call_id :: string
  sum_tool_name :: string
  sum_revision :: string
  sum_request_hash :: string
  sum_status :: effect_status
  sum_has_result :: bool
  sum_error :: string
  sum_created_at :: time
  sum_updated_at :: time

definition summarize_effect :: "tool_effect \<Rightarrow> effect_summary" where
  "summarize_effect e =
     \<lparr>sum_key = eff_key e, sum_version = max (eff_version e) 1, sum_run_id = eff_run_id e,
      sum_stage_id = eff_stage_id e, sum_turn_id = eff_turn_id e,
      sum_tool_call_id = eff_tool_call_id e, sum_tool_name = eff_tool_name e,
      sum_revision = eff_revision e, sum_request_hash = eff_request_hash e,
      sum_status = eff_status e, sum_has_result = (eff_result e \<noteq> []), sum_error = eff_error e,
      sum_created_at = eff_created_at e, sum_updated_at = eff_updated_at e\<rparr>"

definition SummarizeToolEffects :: "tool_effect list \<Rightarrow> effect_summary list" where
  "SummarizeToolEffects = map summarize_effect"

record recon_outcome =
  out_command_id :: string
  out_outcome :: string
  out_applied :: bool
  out_effect :: effect_summary
  out_actions :: "reconciliation_action list"

datatype recon_error =
    ReconInvalid string
  | ReconNotFound
  | ReconConflict string
  | ReconUnavailable string
  | ReconMismatch string
  | ReconCanceled
  | ReconFailed string
  | ReconStore effect_error
  | ReconAudit

section \<open>Bindings\<close>

record recon_binding =
  rb_capability :: capability
  rb_revision :: string
  rb_unavailable :: string
  rb_declares_retry :: bool
  rb_declares_compensate :: bool
  rb_retry :: bool
  rb_compensate :: bool
  rb_preview :: bool
  rb_verify :: bool
  rb_max_result :: int

text \<open>A catalog resolves the enabled bindings and holds the security policy.\<close>

record catalog =
  cat_resolve :: "string \<rightharpoonup> recon_binding"
  cat_policy :: security_policy

definition journal_external :: "capability \<Rightarrow> bool" where
  "journal_external c \<longleftrightarrow> cap_side_effect c = SideEffectExternalWrite \<or> cap_side_effect c = SideEffectDestructive"

definition reconciliationBinding ::
  "catalog option \<Rightarrow> string \<Rightarrow> string \<Rightarrow> recon_error + recon_binding" where
  "reconciliationBinding catalog tool revision =
     (case catalog of
        None \<Rightarrow> Inl (ReconUnavailable ''tool catalog is unavailable'')
      | Some c \<Rightarrow>
          (case cat_resolve c tool of
             None \<Rightarrow> Inl (ReconUnavailable ''tool reconciliation binding is unavailable'')
           | Some b \<Rightarrow>
               if \<not> journal_external (rb_capability b)
               then Inl (ReconUnavailable ''tool reconciliation binding is unavailable'')
               else if revision = [] \<or> rb_revision b \<noteq> revision
               then Inl (ReconMismatch ''tool definition revision does not match the uncertain effect'')
               else Inr b))"

definition callback_missing :: "reconciliation_action \<Rightarrow> recon_binding \<Rightarrow> bool" where
  "callback_missing action b \<longleftrightarrow> action = ToolEffectRetrySameKey \<and> \<not> rb_retry b
     \<or> action = ToolEffectVerifyCompensation \<and> \<not> rb_verify b
     \<or> action = ToolEffectCompensate
       \<and> (\<not> rb_compensate b \<or> cap_reversibility (rb_capability b) = Irreversible)"

definition authorizedReconciliationBinding ::
  "catalog option \<Rightarrow> string \<Rightarrow> string \<Rightarrow> reconciliation_action \<Rightarrow> recon_error + recon_binding" where
  "authorizedReconciliationBinding catalog tool revision action =
     bind_result (reconciliationBinding catalog tool revision)
       (\<lambda>b.
          if rb_unavailable b \<noteq> []
          then Inl (ReconUnavailable (''reconciliation prerequisites are unavailable: '' @ rb_unavailable b))
          else if callback_missing action b
          then Inl (ReconUnavailable ''tool does not support this reconciliation action'')
          else
            (let d = Evaluate (NormalizePolicy (cat_policy (the catalog)))
                   \<lparr>pr_tool = tool, pr_declared = rb_capability b, pr_scope = cap_scope (rb_capability b),
                    pr_credentials = []\<rparr>
             in if \<not> dec_allowed d
                then Inl (ReconUnavailable (''reconciliation denied by tool policy: '' @ dec_reason d))
                else Inr b))"

definition permitted :: "catalog option \<Rightarrow> effect_summary \<Rightarrow> reconciliation_action \<Rightarrow> bool" where
  "permitted catalog e action =
     (case authorizedReconciliationBinding catalog (sum_tool_name e) (sum_revision e) action of
        Inl _ \<Rightarrow> False | Inr _ \<Rightarrow> True)"

definition undoable :: "catalog option \<Rightarrow> effect_summary \<Rightarrow> bool" where
  "undoable catalog e =
     (case authorizedReconciliationBinding catalog (sum_tool_name e) (sum_revision e) ToolEffectCompensate of
        Inl _ \<Rightarrow> False | Inr b \<Rightarrow> rb_preview b)"

definition availableReconciliationActions ::
  "catalog option \<Rightarrow> effect_summary \<Rightarrow> reconciliation_action list" where
  "availableReconciliationActions catalog e =
     (if sum_status e = ToolEffectCommitted \<and> undoable catalog e then [ToolEffectCompensate]
      else if sum_status e \<noteq> ToolEffectNeedsReconciliation \<and> sum_status e \<noteq> ToolEffectReconciling then []
      else
        [ToolEffectConfirmCommitted, ToolEffectConfirmFailed]
        @ filter (permitted catalog e) [ToolEffectVerifyCompensation]
        @ (if sum_status e = ToolEffectReconciling then []
           else filter (permitted catalog e) [ToolEffectRetrySameKey, ToolEffectCompensate]))"

section \<open>Services and callbacks\<close>

text \<open>
  \<open>rx_credential\<close> says whether redaction finds a credential in a text; \<open>rx_unmarshal\<close> and
  \<open>rx_marshal\<close> are the JSON decoding of a confirmed result and the encoding of the replay envelope.
\<close>

record 'v recon_services =
  rx_svc :: services
  rx_hash :: "string list \<Rightarrow> string"
  rx_encode_command :: "recon_command \<Rightarrow> string"
  rx_credential :: "string \<Rightarrow> bool"
  rx_json_valid :: "string \<Rightarrow> bool"
  rx_unmarshal :: "string \<Rightarrow> 'v option"
  rx_marshal :: "tool_effect \<Rightarrow> 'v \<Rightarrow> string option"
  rx_redact_json :: "string \<Rightarrow> string option"

text \<open>
  What a callback does: it returns a value, fails, rejects the compensation before any effect, or
  panics; or the deadline passes, before it has started or while it may be running.
\<close>

datatype 'v callback =
    Returns 'v
  | Fails string
  | Rejects string
  | Panics
  | Expires_before string
  | Expires_during string

fun invoked :: "'v callback \<Rightarrow> bool" where
  "invoked (Expires_before m) = False"
| "invoked _ = True"

record 'v recon_world =
  w_canceled :: bool
  w_expired :: "string option"
  w_preview :: "string + bool \<times> string"
  w_retry :: "'v callback"
  w_compensate :: "unit callback"
  w_verify :: "unit callback"

definition DefaultMaxResultBytes :: nat where "DefaultMaxResultBytes = 20000"

definition encodeReconciledResult ::
  "'v recon_services \<Rightarrow> tool_effect \<Rightarrow> 'v \<Rightarrow> string + string" where
  "encodeReconciledResult rx e v =
     (case rx_marshal rx e v of
        None \<Rightarrow> Inl ''reconciled Tool result is invalid or exceeds 20000 bytes''
      | Some encoded \<Rightarrow>
          if length encoded > DefaultMaxResultBytes
          then Inl ''reconciled Tool result is invalid or exceeds 20000 bytes''
          else
            (case rx_redact_json rx encoded of
               None \<Rightarrow> Inl ''reconciled Tool result cannot be safely persisted''
             | Some safe \<Rightarrow>
                 if length safe > DefaultMaxResultBytes
                 then Inl ''reconciled Tool result cannot be safely persisted'' else Inr safe))"

datatype op_error = OpFailed string | OpExpired string | OpRejected string

text \<open>The result of a callback, and what becomes of the value it returns.\<close>

fun settle_callback ::
  "'v callback \<Rightarrow> ('v \<Rightarrow> op_error + effect_status \<times> string) \<Rightarrow> op_error + effect_status \<times> string" where
  "settle_callback (Returns v) f = f v"
| "settle_callback (Fails m) f = Inl (OpFailed m)"
| "settle_callback (Rejects m) f = Inl (OpRejected m)"
| "settle_callback Panics f = Inl (OpFailed ''panicked'')"
| "settle_callback (Expires_before m) f = Inl (OpExpired m)"
| "settle_callback (Expires_during m) f = Inl (OpExpired m)"

text \<open>
  \<open>boundedReconciliationAction\<close> and \<open>executeReconciliationAction\<close>: the next status and result, or the
  error of the operation, and whether a callback was invoked.
\<close>

definition recon_error_text :: "recon_error \<Rightarrow> string" where
  "recon_error_text e =
     (case e of ReconInvalid m \<Rightarrow> m | ReconConflict m \<Rightarrow> m | ReconUnavailable m \<Rightarrow> m | ReconMismatch m \<Rightarrow> m
      | ReconFailed m \<Rightarrow> m | _ \<Rightarrow> [])"

definition executeReconciliationAction ::
  "'v recon_services \<Rightarrow> catalog option \<Rightarrow> 'v recon_world \<Rightarrow> tool_effect \<Rightarrow> recon_command
    \<Rightarrow> (op_error + effect_status \<times> string) \<times> bool" where
  "executeReconciliationAction rx catalog w e c =
     (let authorized = authorizedReconciliationBinding catalog (eff_tool_name e) (eff_revision e) (rc_action c)
      in case rc_action c of
           ToolEffectConfirmCommitted \<Rightarrow>
             (case rx_unmarshal rx (rc_result c) of
                None \<Rightarrow> (Inl (OpFailed ''confirm_committed requires a valid JSON result''), False)
              | Some v \<Rightarrow>
                  (case encodeReconciledResult rx e v of
                     Inl m \<Rightarrow> (Inl (OpFailed m), False)
                   | Inr encoded \<Rightarrow> (Inr (ToolEffectCommitted, encoded), False)))
         | ToolEffectConfirmFailed \<Rightarrow> (Inr (ToolEffectFailed, []), False)
         | ToolEffectVerifyCompensation \<Rightarrow>
             (case authorized of
                Inl err \<Rightarrow> (Inl (OpFailed (recon_error_text err)), False)
              | Inr b \<Rightarrow> (settle_callback (w_verify w) (\<lambda>_. Inr (ToolEffectCompensated, [])), invoked (w_verify w)))
         | ToolEffectRetrySameKey \<Rightarrow>
             (case authorized of
                Inl err \<Rightarrow> (Inl (OpFailed (recon_error_text err)), False)
              | Inr b \<Rightarrow>
                  if \<not> rb_declares_retry b \<or> \<not> rb_retry b
                  then (Inl (OpFailed ''tool does not support retry_with_same_key''), False)
                  else (settle_callback (w_retry w)
                         (\<lambda>v. case encodeReconciledResult rx e v of
                                Inl m \<Rightarrow> Inl (OpFailed m)
                              | Inr encoded \<Rightarrow>
                                  if rb_max_result b > 0 \<and> int (length encoded) > rb_max_result b
                                  then Inl (OpFailed ''reconciled Tool result exceeds Binding result limit'')
                                  else Inr (ToolEffectCommitted, encoded)),
                        invoked (w_retry w)))
         | ToolEffectCompensate \<Rightarrow>
             (case authorized of
                Inl err \<Rightarrow> (Inl (OpFailed (recon_error_text err)), False)
              | Inr b \<Rightarrow>
                  if \<not> rb_declares_compensate b \<or> \<not> rb_compensate b
                     \<or> cap_reversibility (rb_capability b) = Irreversible
                  then (Inl (OpFailed ''tool does not support compensation''), False)
                  else (settle_callback (w_compensate w) (\<lambda>_. Inr (ToolEffectCompensated, [])),
                        invoked (w_compensate w)))
         | ToolEffectActionOther s \<Rightarrow> (Inl (OpFailed ''unsupported reconciliation action''), False))"

text \<open>
  \<open>boundedReconciliationAction\<close>: \<open>w_expired\<close> is the context's error when the action is reached. A
  success after the deadline is an \<open>Expires_during\<close> of its callback.
\<close>

definition boundedReconciliationAction ::
  "'v recon_services \<Rightarrow> catalog option \<Rightarrow> 'v recon_world \<Rightarrow> tool_effect \<Rightarrow> recon_command
    \<Rightarrow> (op_error + effect_status \<times> string) \<times> bool" where
  "boundedReconciliationAction rx catalog w e c =
     (case w_expired w of
        Some m \<Rightarrow> (Inl (OpExpired m), False)
      | None \<Rightarrow> executeReconciliationAction rx catalog w e c)"

definition PreviewCompensation ::
  "catalog option \<Rightarrow> 'v recon_world \<Rightarrow> tool_effect \<Rightarrow> recon_error + bool \<times> string" where
  "PreviewCompensation catalog w e =
     bind_result (authorizedReconciliationBinding catalog (eff_tool_name e) (eff_revision e) ToolEffectCompensate)
       (\<lambda>b.
          if eff_status e \<noteq> ToolEffectCommitted \<or> \<not> rb_preview b
          then Inl (ReconUnavailable ''This effect has no committed-change preview'')
          else (case w_preview w of Inl m \<Rightarrow> Inl (ReconFailed m) | Inr r \<Rightarrow> Inr r))"

section \<open>The command handler\<close>

definition normalizeReconciliationCommand :: "recon_command \<Rightarrow> recon_command" where
  "normalizeReconciliationCommand c =
     c\<lparr>rc_id := trim_space (rc_id c), rc_actor := trim_space (rc_actor c),
       rc_reason := trim_space (rc_reason c), rc_result := trim_space (rc_result c)\<rparr>"

definition validateReconciliationCommand ::
  "'v recon_services \<Rightarrow> string \<Rightarrow> recon_command \<Rightarrow> recon_error option" where
  "validateReconciliationCommand rx key c =
     (if trim_space key = [] \<or> rc_id c = [] \<or> rc_actor c = [] \<or> rc_reason c = [] \<or> rc_expected_version c \<le> 0
      then Some (ReconInvalid
        ''reconciliation requires effect, command_id, expected_version, actor, and reason'')
      else if length (rc_id c) > 128 \<or> length (rc_actor c) > 128 \<or> length (rc_reason c) > 512
      then Some (ReconInvalid ''reconciliation command metadata is too large'')
      else if rx_credential rx (rc_id c)
      then Some (ReconInvalid ''command_id must be an opaque identifier without credentials'')
      else if rc_action c = ToolEffectConfirmCommitted
        \<and> (rc_result c = [] \<or> length (rc_result c) > DefaultMaxResultBytes \<or> \<not> rx_json_valid rx (rc_result c))
      then Some (ReconInvalid ''confirm_committed requires a bounded JSON result'')
      else if rc_action c \<noteq> ToolEffectConfirmCommitted \<and> rc_result c \<noteq> []
      then Some (ReconInvalid ''result is only valid for confirm_committed'')
      else case rc_action c of
             ToolEffectActionOther s \<Rightarrow> Some (ReconInvalid ''unsupported reconciliation action'')
           | _ \<Rightarrow> None)"

definition findToolEffect :: "tool_effect list \<Rightarrow> string \<Rightarrow> tool_effect option" where
  "findToolEffect records key = find (\<lambda>e. eff_key e = key) records"

fun drop_invalid :: "nat \<Rightarrow> string \<Rightarrow> string" where
  "drop_invalid 0 s = s"
| "drop_invalid (Suc n) s = (if s = [] \<or> utf8_valid s then s else drop_invalid n (butlast s))"

definition boundedReconciliationText :: "services \<Rightarrow> string \<Rightarrow> nat \<Rightarrow> string" where
  "boundedReconciliationText svc v limit =
     (let v = trim_space (redact_text svc v)
      in if length v \<le> limit then v else drop_invalid limit (take limit v))"

text \<open>A command that was seen before: the last of its audit events decides.\<close>

definition audit_type :: "run_event_type \<Rightarrow> bool" where
  "audit_type t \<longleftrightarrow> t = EventToolEffectReconciliationStarted \<or> t = EventToolEffectReconciled
     \<or> t = EventToolEffectReconciliationFailed"

definition command_event :: "string \<Rightarrow> string \<Rightarrow> run_event \<Rightarrow> bool" where
  "command_event command key e \<longleftrightarrow> audit_type (ev_type e)
     \<and> payload_value (stored_payload (ev_payload e)) ''command_id'' = VString command
     \<and> payload_value (stored_payload (ev_payload e)) ''idempotency_key'' = VString key"

definition reconciliationCommandOutcome ::
  "run_store \<Rightarrow> run_store \<Rightarrow> catalog option \<Rightarrow> string \<Rightarrow> string \<Rightarrow> string \<Rightarrow> string
    \<Rightarrow> recon_error + recon_outcome option" where
  "reconciliationCommandOutcome events_st effects_st catalog rid key command command_hash =
     (case find (command_event command key) (rev (ListRunEvents events_st rid)) of
        None \<Rightarrow> Inr None
      | Some item \<Rightarrow>
          if payload_value (stored_payload (ev_payload item)) ''command_hash'' \<noteq> VString command_hash
          then Inl (ReconConflict ''command_id is already bound to a different or unverifiable command'')
          else
            (case findToolEffect (ListToolEffects effects_st rid) key of
               None \<Rightarrow> Inl ReconNotFound
             | Some current \<Rightarrow>
                 (let s = summarize_effect current
                  in Inr (Some \<lparr>out_command_id = command,
                       out_outcome = payload_string (stored_payload (ev_payload item)) ''outcome'',
                       out_applied = False, out_effect = s,
                       out_actions = availableReconciliationActions catalog s\<rparr>))))"

record settlement =
  se_type :: run_event_type
  se_outcome :: string
  se_status :: effect_status
  se_result :: string
  se_message :: string

definition omit_empty :: "string \<Rightarrow> any_value option" where
  "omit_empty s = (if s = [] then None else Some (VString s))"

fun effect_status_text :: "effect_status \<Rightarrow> string" where
  "effect_status_text ToolEffectPrepared = ''prepared''"
| "effect_status_text ToolEffectExecuting = ''executing''"
| "effect_status_text ToolEffectCommitted = ''committed''"
| "effect_status_text ToolEffectFailed = ''failed''"
| "effect_status_text ToolEffectCompensated = ''compensated''"
| "effect_status_text ToolEffectNeedsReconciliation = ''needs_reconciliation''"
| "effect_status_text ToolEffectReconciling = ''reconciling''"
| "effect_status_text (ToolEffectOther s) = s"

text \<open>The payload after \<open>event.Payload\<close> has passed the struct through JSON.\<close>

definition audit_payload ::
  "services \<Rightarrow> tool_effect \<Rightarrow> recon_command \<Rightarrow> string \<Rightarrow> settlement \<Rightarrow> payload" where
  "audit_payload svc e c h s = stored_payload
     (Map.empty(''command_hash'' := omit_empty h, ''command_id'' \<mapsto> VString (rc_id c),
       ''idempotency_key'' \<mapsto> VString (eff_key e), ''tool_call_id'' \<mapsto> VString (eff_tool_call_id e),
       ''tool_name'' \<mapsto> VString (eff_tool_name e), ''action'' \<mapsto> VString (action_text (rc_action c)),
       ''actor'' \<mapsto> VString (boundedReconciliationText svc (rc_actor c) 128),
       ''reason'' \<mapsto> VString (boundedReconciliationText svc (rc_reason c) 512),
       ''expected_version'' \<mapsto> VInt64 (eff_version e), ''outcome'' \<mapsto> VString (se_outcome s),
       ''status'' \<mapsto> VString (effect_status_text (se_status s)),
       ''error'' := omit_empty (boundedReconciliationText svc (se_message s) 512)))"

definition audit_id :: "'v recon_services \<Rightarrow> run \<Rightarrow> tool_effect \<Rightarrow> recon_command \<Rightarrow> settlement \<Rightarrow> string" where
  "audit_id rx r e c s =
     ''event_tool_effect_reconciliation_'' @ rx_hash rx [run_id r, eff_key e, rc_id c]
     @ (if se_type s = EventToolEffectReconciliationStarted then ''_claim'' else [])"

definition audit_event ::
  "'v recon_services \<Rightarrow> time \<Rightarrow> run \<Rightarrow> tool_effect \<Rightarrow> recon_command \<Rightarrow> string \<Rightarrow> settlement \<Rightarrow> run_event" where
  "audit_event rx now r e c h s =
     zero_event\<lparr>ev_type := se_type s, ev_schema_version := CurrentRunEventSchemaVersion,
       ev_conversation_id := run_conversation_id r, ev_run_id := run_id r,
       ev_stage_id := eff_stage_id e, ev_turn_id := eff_turn_id e,
       ev_payload := audit_payload (rx_svc rx) e c h s, ev_timestamp := now\<rparr>"

definition reconciliation_mutation ::
  "'v recon_services \<Rightarrow> time \<Rightarrow> run \<Rightarrow> tool_effect \<Rightarrow> recon_command \<Rightarrow> string \<Rightarrow> settlement \<Rightarrow> reconciliation" where
  "reconciliation_mutation rx now r e c h s =
     \<lparr>rec_command_id = rc_id c, rec_key = eff_key e, rec_expected_version = eff_version e,
      rec_action = rc_action c, rec_next_status = se_status s, rec_result = se_result s,
      rec_error = boundedReconciliationText (rx_svc rx) (se_message s) 512,
      rec_event = (audit_event rx now r e c h s)\<lparr>ev_id := audit_id rx r e c s\<rparr>\<rparr>"

definition commitReconciliation ::
  "'v recon_services \<Rightarrow> time \<Rightarrow> run \<Rightarrow> tool_effect \<Rightarrow> recon_command \<Rightarrow> string \<Rightarrow> settlement \<Rightarrow> run_store
    \<Rightarrow> recon_error + recon_outcome \<times> run_store" where
  "commitReconciliation rx now r e c h s st =
     (if ValidateEnvelope (check_payload (rx_svc rx)) (audit_event rx now r e c h s) \<noteq> None then Inl ReconAudit
      else
        (case CommitToolEffectReconciliation (rx_svc rx) [] now (reconciliation_mutation rx now r e c h s) st of
           Inl err \<Rightarrow> Inl (ReconStore err)
         | Inr ((updated, ev), st') \<Rightarrow>
             (let sum = summarize_effect updated
              in Inr (\<lparr>out_command_id = rc_id c, out_outcome = se_outcome s, out_applied = (ev \<noteq> None),
                   out_effect = sum, out_actions = availableReconciliationActions None sum\<rparr>, st'))))"

text \<open>The settlement that follows from the action's result.\<close>

fun op_message :: "op_error \<Rightarrow> string" where
  "op_message (OpFailed m) = m"
| "op_message (OpExpired m) = m"
| "op_message (OpRejected m) = m"

definition external_action :: "reconciliation_action \<Rightarrow> bool" where
  "external_action a \<longleftrightarrow> a = ToolEffectRetrySameKey \<or> a = ToolEffectCompensate"

definition settlement_of ::
  "services \<Rightarrow> bool \<Rightarrow> tool_effect \<Rightarrow> recon_command \<Rightarrow> op_error + effect_status \<times> string \<Rightarrow> settlement" where
  "settlement_of svc undo e c result =
     (case result of
        Inr (status, res) \<Rightarrow>
          \<lparr>se_type = EventToolEffectReconciled, se_outcome = ''completed'', se_status = status, se_result = res,
           se_message = if rc_action c = ToolEffectConfirmFailed then rc_reason c else []\<rparr>
      | Inl err \<Rightarrow>
          (let base = \<lparr>se_type = EventToolEffectReconciliationFailed, se_outcome = ''failed'',
                 se_status = (if \<not> external_action (rc_action c) then eff_status e
                   else case err of OpExpired m \<Rightarrow> ToolEffectReconciling | _ \<Rightarrow> ToolEffectNeedsReconciliation),
                 se_result = [], se_message = boundedReconciliationText svc (op_message err) 512\<rparr>
           in case err of
                OpRejected m \<Rightarrow>
                  if undo then base\<lparr>se_status := ToolEffectCommitted, se_result := eff_result e\<rparr> else base
              | _ \<Rightarrow> base))"

type_synonym recon_answer = "(recon_error + recon_outcome) \<times> run_store \<times> bool"

definition settle_reconciliation ::
  "'v recon_services \<Rightarrow> catalog option \<Rightarrow> 'v recon_world \<Rightarrow> time \<Rightarrow> run \<Rightarrow> (run_store \<Rightarrow> run_store)
    \<Rightarrow> bool \<Rightarrow> tool_effect \<Rightarrow> recon_command \<Rightarrow> string \<Rightarrow> run_store \<Rightarrow> recon_answer" where
  "settle_reconciliation rx catalog w now r during undo e c h st =
     (let (result, called) = boundedReconciliationAction rx catalog w e c; st = during st
      in case commitReconciliation rx now r e c h (settlement_of (rx_svc rx) undo e c result) st of
           Inl err \<Rightarrow> (Inl err, st, called)
         | Inr (answer, st') \<Rightarrow>
             (Inr (answer\<lparr>out_actions := availableReconciliationActions catalog (out_effect answer)\<rparr>),
              st', called))"

definition claim_settlement :: settlement where
  "claim_settlement = \<lparr>se_type = EventToolEffectReconciliationStarted, se_outcome = ''pending'',
     se_status = ToolEffectReconciling, se_result = [], se_message = []\<rparr>"

definition claim_and_settle ::
  "'v recon_services \<Rightarrow> catalog option \<Rightarrow> 'v recon_world \<Rightarrow> time \<Rightarrow> run \<Rightarrow> (nat \<Rightarrow> run_store \<Rightarrow> run_store)
    \<Rightarrow> bool \<Rightarrow> tool_effect \<Rightarrow> recon_command \<Rightarrow> string \<Rightarrow> run_store \<Rightarrow> recon_answer" where
  "claim_and_settle rx catalog w now r between undo e c h st =
     (case authorizedReconciliationBinding catalog (eff_tool_name e) (eff_revision e) (rc_action c) of
        Inl err \<Rightarrow> (Inl err, st, False)
      | Inr b \<Rightarrow>
          (case commitReconciliation rx now r e c h claim_settlement st of
             Inl err \<Rightarrow> (Inl err, st, False)
           | Inr (claimed, st') \<Rightarrow>
               if \<not> out_applied claimed then
                 (let events_st = between 4 st'; effects_st = between 5 events_st
                  in case reconciliationCommandOutcome events_st effects_st catalog (run_id r) (eff_key e) (rc_id c) h of
                       Inl err \<Rightarrow> (Inl err, effects_st, False)
                     | Inr (Some out) \<Rightarrow> (Inr out, effects_st, False)
                     | Inr None \<Rightarrow> (Inr claimed, effects_st, False))
               else
                 settle_reconciliation rx catalog w now r (between 6) undo
                   (e\<lparr>eff_version := sum_version (out_effect claimed), eff_status := ToolEffectReconciling\<rparr>)
                   c h st'))"

definition awaiting :: "bool \<Rightarrow> tool_effect \<Rightarrow> reconciliation_action \<Rightarrow> bool" where
  "awaiting undo e a \<longleftrightarrow> undo \<or> eff_status e = ToolEffectNeedsReconciliation
     \<or> eff_status e = ToolEffectReconciling \<and> \<not> external_action a"

text \<open>
  The answer, the store, and whether a callback of the tool was invoked. \<open>between i\<close> is the effect of
  other transactions before the \<open>i\<close>-th access.
\<close>

definition ReconcileToolEffect ::
  "'v recon_services \<Rightarrow> catalog option \<Rightarrow> 'v recon_world \<Rightarrow> (nat \<Rightarrow> run_store \<Rightarrow> run_store) \<Rightarrow> time \<Rightarrow> run
    \<Rightarrow> string \<Rightarrow> recon_command \<Rightarrow> run_store \<Rightarrow> recon_answer" where
  "ReconcileToolEffect rx catalog w between now r key command st =
     (let c = normalizeReconciliationCommand command in
      case validateReconciliationCommand rx key c of
        Some err \<Rightarrow> (Inl err, st, False)
      | None \<Rightarrow>
          if w_canceled w then (Inl ReconCanceled, st, False)
          else
            (let h = rx_hash rx [rx_encode_command rx c]; st = between 0 st in
             case findToolEffect (ListToolEffects st (run_id r)) key of
               None \<Rightarrow> (Inl ReconNotFound, st, False)
             | Some found \<Rightarrow>
                 (let events_st = between 1 st; effects_st = between 2 events_st in
                  case reconciliationCommandOutcome events_st effects_st catalog (run_id r) (eff_key found) (rc_id c) h of
                    Inl err \<Rightarrow> (Inl err, effects_st, False)
                  | Inr (Some out) \<Rightarrow> (Inr out, effects_st, False)
                  | Inr None \<Rightarrow>
                      (let e = found\<lparr>eff_version := max (eff_version found) 1\<rparr>;
                           undo = eff_status e = ToolEffectCommitted \<and> rc_action c = ToolEffectCompensate;
                           st = effects_st
                       in if \<not> awaiting undo e (rc_action c)
                          then (Inl (ReconConflict ''tool effect is not awaiting reconciliation''), st, False)
                          else if rc_expected_version c \<noteq> eff_version e
                          then (Inl (ReconConflict ''tool effect version conflict''), st, False)
                          else
                            (case (if undo then PreviewCompensation catalog w e else Inr (True, [])) of
                               Inl err \<Rightarrow> (Inl err, st, False)
                             | Inr (available, reason) \<Rightarrow>
                                 if \<not> available then (Inl (ReconConflict reason), st, False)
                                 else
                                   (case (if rc_action c = ToolEffectVerifyCompensation
                                          then map_sum id (\<lambda>_. ()) (authorizedReconciliationBinding catalog
                                            (eff_tool_name e) (eff_revision e) (rc_action c))
                                          else Inr ()) of
                                      Inl err \<Rightarrow> (Inl err, st, False)
                                    | Inr _ \<Rightarrow>
                                        (let st = between 3 st in
                                         if external_action (rc_action c)
                                         then claim_and_settle rx catalog w now r between undo e c h st
                                         else settle_reconciliation rx catalog w now r (between 6) undo e c h st)))))))"

end
