(* ===== verification/Reconciliation_Guarantees.thy ===== *)
theory Reconciliation_Guarantees
  imports Reconciliation Effect_Guarantees Policy_Guarantees
begin

text \<open>
  What operators may rely on when they reconcile an effect: an external callback runs only under a
  durable claim and at most once per command, errors never hide a settlement, and an outcome that
  is not known stays claimed until it is confirmed by hand.
\<close>

section \<open>Claims\<close>

lemma commitReconciliation_Inr:
  assumes "commitReconciliation rx now r e c h s st = Inr (out, st')"
  obtains x ev where
    "CommitToolEffectReconciliation (rx_svc rx) [] now (reconciliation_mutation rx now r e c h s) st = Inr ((x, ev), st')"
    "out_effect out = summarize_effect x" "out_applied out \<longleftrightarrow> ev \<noteq> None" "out_command_id out = rc_id c"
  using assms
  by (auto simp: commitReconciliation_def Let_def split: if_split_asm sum.split_asm prod.split_asm)

lemma reconciliation_mutation_fields [simp]:
  "rec_key (reconciliation_mutation rx now r e c h s) = eff_key e"
  "rec_command_id (reconciliation_mutation rx now r e c h s) = rc_id c"
  "rec_action (reconciliation_mutation rx now r e c h s) = rc_action c"
  "rec_next_status (reconciliation_mutation rx now r e c h s) = se_status s"
  "rec_result (reconciliation_mutation rx now r e c h s) = se_result s"
  "rec_expected_version (reconciliation_mutation rx now r e c h s) = eff_version e"
  "ev_type (rec_event (reconciliation_mutation rx now r e c h s)) = se_type s"
  "ev_run_id (rec_event (reconciliation_mutation rx now r e c h s)) = run_id r"
  "ev_payload (rec_event (reconciliation_mutation rx now r e c h s)) = audit_payload (rx_svc rx) e c h s"
  by (simp_all add: reconciliation_mutation_def audit_event_def)

text \<open>The states a handler passes through when it invokes a callback for an external action.\<close>

lemma claim_and_settle_called:
  assumes "claim_and_settle rx catalog w now r between undo e c h st = (res, st', True)"
  obtains claimed u where
    "commitReconciliation rx now r e c h claim_settlement st = Inr (claimed, u)" "out_applied claimed"
    "settle_reconciliation rx catalog w now r (between 6) undo
       (e\<lparr>eff_version := sum_version (out_effect claimed), eff_status := ToolEffectReconciling\<rparr>) c h u
       = (res, st', True)"
  using assms
  by (auto simp: claim_and_settle_def Let_def split: sum.split_asm prod.split_asm if_split_asm option.split_asm)

lemma normalize_fields [simp]:
  "rc_action (normalizeReconciliationCommand c) = rc_action c"
  "rc_expected_version (normalizeReconciliationCommand c) = rc_expected_version c"
  "rc_id (normalizeReconciliationCommand c) = trim_space (rc_id c)"
  by (simp_all add: normalizeReconciliationCommand_def)

lemma findToolEffect_Some:
  "findToolEffect (ListToolEffects st rid) key = Some e \<Longrightarrow> e \<in> set (rs_effects st) \<and> eff_key e = key
     \<and> eff_run_id e = rid"
proof -
  assume "findToolEffect (ListToolEffects st rid) key = Some e"
  then obtain i where "i < length (ListToolEffects st rid)" "e = ListToolEffects st rid ! i" "eff_key e = key"
    unfolding findToolEffect_def find_Some_iff by blast
  then have "e \<in> set (ListToolEffects st rid)" "eff_key e = key" by simp_all
  then show ?thesis by (simp add: ListToolEffects_def)
qed

text \<open>Every run of the handler that invokes a callback for an external action has no recorded outcome and is claimed.\<close>

lemma Reconcile_external_called:
  assumes "ReconcileToolEffect rx catalog w between now r key command st = (res, st', True)"
    and "external_action (rc_action command)"
  obtains found st3 undo where
    "reconciliationCommandOutcome (between 1 (between 0 st)) (between 2 (between 1 (between 0 st))) catalog (run_id r) key
       (trim_space (rc_id command)) (rx_hash rx [rx_encode_command rx (normalizeReconciliationCommand command)]) = Inr None"
    "st3 = between 3 (between 2 (between 1 (between 0 st)))" "eff_key found = key"
    "\<exists>e. findToolEffect (ListToolEffects (between 0 st) (run_id r)) key = Some e
       \<and> found = e\<lparr>eff_version := max (eff_version e) 1\<rparr>"
    "claim_and_settle rx catalog w now r between undo found (normalizeReconciliationCommand command)
       (rx_hash rx [rx_encode_command rx (normalizeReconciliationCommand command)]) st3 = (res, st', True)"
proof -
  let ?c = "normalizeReconciliationCommand command"
  have ext: "external_action (rc_action ?c)" "rc_action ?c \<noteq> ToolEffectVerifyCompensation"
    using assms(2) by (auto simp: external_action_def)
  obtain found where f: "findToolEffect (ListToolEffects (between 0 st) (run_id r)) key = Some found"
    using assms(1) by (simp add: ReconcileToolEffect_def Let_def split: option.split_asm if_split_asm)
  have key: "eff_key found = key" using findToolEffect_Some [OF f] by simp
  let ?h = "rx_hash rx [rx_encode_command rx ?c]" and ?e = "found\<lparr>eff_version := max (eff_version found) 1\<rparr>"
  let ?undo = "eff_status found = ToolEffectCommitted \<and> rc_action ?c = ToolEffectCompensate"
  have none: "reconciliationCommandOutcome (between 1 (between 0 st)) (between 2 (between 1 (between 0 st))) catalog
      (run_id r) key (trim_space (rc_id command)) ?h = Inr None"
    using assms(1) f key
    by (simp add: ReconcileToolEffect_def Let_def split: option.split_asm if_split_asm sum.split_asm)
  have called: "claim_and_settle rx catalog w now r between ?undo ?e ?c ?h
      (between 3 (between 2 (between 1 (between 0 st)))) = (res, st', True)"
    using assms(1) f key none ext
    by (simp add: ReconcileToolEffect_def Let_def
        split: option.split_asm if_split_asm sum.split_asm prod.split_asm del: normalize_fields(1))
  show thesis by (rule that [OF none refl _ _ called]) (use key f in simp_all)
qed

section \<open>A claim excludes every other claim\<close>

lemma claimed_excludes:
  assumes "getToolEffect st (rec_key m) = Some e" and "eff_status e = ToolEffectReconciling"
    and "ev_type (rec_event m) = EventToolEffectReconciliationStarted"
    and "CommitToolEffectReconciliation svc i now m st = Inr ((x, ev), st')"
  shows "ev = None \<and> st' = st"
proof (cases ev)
  case None
  then show ?thesis using Commit_duplicate assms(4) by blast
next
  case (Some v)
  obtain e' where "getToolEffect st (rec_key m) = Some e'" "reconciliation_error e' m = None"
    by (rule Commit_applied [OF assms(4) [unfolded Some]]) blast
  then show ?thesis using accepted_command(5) [of e' m] assms(1-3) by simp
qed

lemma claim_applied:
  assumes "commitReconciliation rx now r e c h claim_settlement st = Inr (claimed, u)" and "out_applied claimed"
  obtains x ev where
    "CommitToolEffectReconciliation (rx_svc rx) [] now (reconciliation_mutation rx now r e c h claim_settlement) st
       = Inr ((x, Some ev), u)"
    "getToolEffect u (eff_key e) = Some x" "eff_status x = ToolEffectReconciling" "out_effect claimed = summarize_effect x"
    "ev \<in> set (rs_events u)" "ev_run_id ev = run_id r" "ev_type ev = EventToolEffectReconciliationStarted"
    "\<exists>p. (\<forall>k. k \<noteq> ''result_version'' \<longrightarrow> p k = audit_payload (rx_svc rx) e c h claim_settlement k)
       \<and> ev_payload ev = redact_map (rx_svc rx) p"
proof -
  let ?m = "reconciliation_mutation rx now r e c h claim_settlement"
  obtain x ev where c: "CommitToolEffectReconciliation (rx_svc rx) [] now ?m st = Inr ((x, Some ev), u)"
    "out_effect claimed = summarize_effect x"
    using commitReconciliation_Inr [OF assms(1)] assms(2) by (metis option.exhaust)
  obtain e0 where a: "getToolEffect st (rec_key ?m) = Some e0" "x = reconciled_effect now ?m e0" "effect_moved e0 x"
    "u = (put_effect x st)\<lparr>rs_events := rs_events st @ [ev]\<rparr>" "ev_type ev = ev_type (rec_event ?m)"
    "ev_run_id ev = eff_run_id e0" "reconciliation_error e0 ?m = None"
    "\<exists>p. (\<forall>k. k \<noteq> ''result_version'' \<longrightarrow> p k = ev_payload (rec_event ?m) k) \<and> ev_payload ev = redact_map (rx_svc rx) p"
    by (rule Commit_applied [OF c(1)]) blast
  have key: "eff_key x = eff_key e"
    using a(1,3) getToolEffect_Some [OF a(1)] by (simp add: effect_moved_def same_request_def)
  have "getToolEffect u (eff_key e) = getToolEffect (put_effect x st) (eff_key e)"
    by (rule getToolEffect_cong) (simp add: a(4))
  then have "getToolEffect u (eff_key e) = Some x" using key a(1) by (simp add: getToolEffect_put)
  moreover have "ev_run_id ev = run_id r" using a(6) accepted_command(8) [OF a(7)] by simp
  moreover have "eff_status x = ToolEffectReconciling" by (simp add: a(2) reconciled_effect_def claim_settlement_def)
  ultimately show thesis using that c a by (simp add: claim_settlement_def)
qed

section \<open>The claims of one command\<close>

text \<open>A run of the handler, and the position of its claim transaction in the history of the database.\<close>

record 'v handler_run =
  hr_recon :: "'v recon_services"
  hr_catalog :: "catalog option"
  hr_world :: "'v recon_world"
  hr_between :: "nat \<Rightarrow> run_store \<Rightarrow> run_store"
  hr_now :: time
  hr_run :: run
  hr_key :: string
  hr_command :: recon_command
  hr_start :: run_store
  hr_instant :: nat

definition invokes :: "'v handler_run \<Rightarrow> bool" where
  "invokes x \<longleftrightarrow> snd (snd (ReconcileToolEffect (hr_recon x) (hr_catalog x) (hr_world x) (hr_between x) (hr_now x)
     (hr_run x) (hr_key x) (hr_command x) (hr_start x)))"

text \<open>The store in which a run of the handler claims its effect, and what its claim makes of it.\<close>

definition at_claim :: "'v handler_run \<Rightarrow> run_store" where
  "at_claim x = hr_between x 3 (hr_between x 2 (hr_between x 1 (hr_between x 0 (hr_start x))))"

definition after_claim :: "'v handler_run \<Rightarrow> run_store" where
  "after_claim x =
     (let c = normalizeReconciliationCommand (hr_command x); rx = hr_recon x in
      case findToolEffect (ListToolEffects (hr_between x 0 (hr_start x)) (run_id (hr_run x))) (hr_key x) of
        None \<Rightarrow> at_claim x
      | Some e \<Rightarrow>
          (case commitReconciliation rx (hr_now x) (hr_run x) (e\<lparr>eff_version := max (eff_version e) 1\<rparr>) c
                  (rx_hash rx [rx_encode_command rx c]) claim_settlement (at_claim x) of
             Inl _ \<Rightarrow> at_claim x | Inr (_, st) \<Rightarrow> st))"

text \<open>The identifier of the claim's audit event.\<close>

definition claim_id :: "(string list \<Rightarrow> string) \<Rightarrow> string \<Rightarrow> string \<Rightarrow> string \<Rightarrow> string" where
  "claim_id h rid key command = ''event_tool_effect_reconciliation_'' @ h [rid, key, command] @ ''_claim''"

lemma trim_claim_id: "trim_space (claim_id h rid key command) = claim_id h rid key command"
proof -
  have "trim_space (CHR ''e'' # s @ ''_claim'') = CHR ''e'' # s @ ''_claim''" for s
    by (simp add: trim_space_def trim_right_def trim_left_def space_runes_def strip_words_fixed)
  from this [of "tl ''event_tool_effect_reconciliation_'' @ h [rid, key, command]"]
  show ?thesis by (simp add: claim_id_def)
qed

lemma find_event_None: "find_event st i = None \<longleftrightarrow> i \<notin> ev_id ` set (rs_events st)"
  by (auto simp: find_event_def lookup_by_None)

lemma claim_recorded:
  assumes "commitReconciliation rx now r e c h claim_settlement st = Inr (claimed, u)" and "out_applied claimed"
  shows "claim_id (rx_hash rx) (run_id r) (eff_key e) (rc_id c) \<notin> ev_id ` set (rs_events st)"
    and "claim_id (rx_hash rx) (run_id r) (eff_key e) (rc_id c) \<in> ev_id ` set (rs_events u)"
proof -
  let ?m = "reconciliation_mutation rx now r e c h claim_settlement"
  obtain x ev where c: "CommitToolEffectReconciliation (rx_svc rx) [] now ?m st = Inr ((x, Some ev), u)"
    using commitReconciliation_Inr [OF assms(1)] assms(2) by (metis option.exhaust)
  have i: "ev_id (rec_event ?m) = claim_id (rx_hash rx) (run_id r) (eff_key e) (rc_id c)"
    by (simp add: reconciliation_mutation_def audit_id_def claim_id_def claim_settlement_def)
  obtain y where "find_event st (ev_id (rec_event ?m)) = None" "ev_id ev = trim_space (ev_id (rec_event ?m))"
    "u = (put_effect y st)\<lparr>rs_events := rs_events st @ [ev]\<rparr>"
    by (rule Commit_applied [OF c]) blast
  then show "claim_id (rx_hash rx) (run_id r) (eff_key e) (rc_id c) \<notin> ev_id ` set (rs_events st)"
    "claim_id (rx_hash rx) (run_id r) (eff_key e) (rc_id c) \<in> ev_id ` set (rs_events u)"
    unfolding i by (simp_all add: find_event_None trim_claim_id)
qed

text \<open>A run that invokes its callback has recorded its claim, which was not there before.\<close>

lemma invokes_claims:
  assumes "invokes x" and "external_action (rc_action (hr_command x))"
    and "i = claim_id (rx_hash (hr_recon x)) (run_id (hr_run x)) (hr_key x) (trim_space (rc_id (hr_command x)))"
  shows "i \<notin> ev_id ` set (rs_events (at_claim x)) \<and> i \<in> ev_id ` set (rs_events (after_claim x))"
proof -
  let ?c = "normalizeReconciliationCommand (hr_command x)"
  let ?h = "rx_hash (hr_recon x) [rx_encode_command (hr_recon x) ?c]"
  obtain res st' where run: "ReconcileToolEffect (hr_recon x) (hr_catalog x) (hr_world x) (hr_between x) (hr_now x)
      (hr_run x) (hr_key x) (hr_command x) (hr_start x) = (res, st', True)"
    using assms(1) by (auto simp: invokes_def prod_eq_iff)
  obtain found e undo where f: "eff_key found = hr_key x"
    "findToolEffect (ListToolEffects (hr_between x 0 (hr_start x)) (run_id (hr_run x))) (hr_key x) = Some e"
    "found = e\<lparr>eff_version := max (eff_version e) 1\<rparr>"
    "claim_and_settle (hr_recon x) (hr_catalog x) (hr_world x) (hr_now x) (hr_run x) (hr_between x) undo found ?c ?h
       (at_claim x) = (res, st', True)"
    by (rule Reconcile_external_called [OF run assms(2)]) (auto simp: at_claim_def)
  obtain claimed u where c: "commitReconciliation (hr_recon x) (hr_now x) (hr_run x) found ?c ?h claim_settlement
      (at_claim x) = Inr (claimed, u)" "out_applied claimed"
    by (rule claim_and_settle_called [OF f(4)])
  have "after_claim x = u" using f(2) c(1) by (simp add: after_claim_def f(3) Let_def)
  then show ?thesis using claim_recorded [OF c] by (simp add: assms(3) f(1))
qed

lemma commit_keeps_log:
  assumes "commitReconciliation rx now r e c h s st = Inr (out, st')"
  shows "set (rs_events st) \<subseteq> set (rs_events st')"
proof -
  obtain x ev where c: "CommitToolEffectReconciliation (rx_svc rx) [] now (reconciliation_mutation rx now r e c h s) st
      = Inr ((x, ev), st')"
    using commitReconciliation_Inr [OF assms] by blast
  show ?thesis
  proof (cases ev)
    case None
    then show ?thesis using Commit_duplicate c by blast
  next
    case (Some v)
    then have "\<exists>x. st' = (put_effect x st)\<lparr>rs_events := rs_events st @ [v]\<rparr>"
      using Commit_applied [OF c [unfolded Some]] by metis
    then show ?thesis by auto
  qed
qed

lemma after_claim_grows: "set (rs_events (at_claim x)) \<subseteq> set (rs_events (after_claim x))"
  by (auto simp: after_claim_def Let_def dest: subsetD [OF commit_keeps_log] split: option.splits sum.splits)

section \<open>A command that retries an uncertain write\<close>

definition write_capability :: capability where
  "write_capability = \<lparr>cap_source = [], cap_scope = (web_scope [''a.org''])\<lparr>ts_credentials := []\<rparr>, cap_side_effect = SideEffectExternalWrite,
     cap_rate = [], cap_reversibility = [], cap_visibility = [], cap_approval = [], cap_audit = []\<rparr>"

definition write_binding :: recon_binding where
  "write_binding = \<lparr>rb_capability = write_capability, rb_revision = ''rev'', rb_unavailable = [], rb_declares_retry = True,
     rb_declares_compensate = False, rb_retry = True, rb_compensate = False, rb_preview = False, rb_verify = False,
     rb_max_result = 0\<rparr>"

definition write_catalog :: catalog where
  "write_catalog = \<lparr>cat_resolve = Map.empty(''file_write'' \<mapsto> write_binding),
     cat_policy = web_policy [\<lparr>sr_id = ''r'', sr_tool = ''file_write'', sr_action = ActionAllow,
       sr_capability = write_capability\<rparr>]\<rparr>"

definition write_recon :: "string recon_services" where
  "write_recon = \<lparr>rx_svc = example_services, rx_hash = concat, rx_encode_command = rc_id, rx_credential = (\<lambda>_. False),
     rx_json_valid = (\<lambda>_. True), rx_unmarshal = Some, rx_marshal = (\<lambda>_ v. Some v), rx_redact_json = Some\<rparr>"

definition write_world :: "string recon_world" where
  "write_world = \<lparr>w_canceled = False, w_expired = None, w_preview = Inl [], w_retry = Returns ''done'', w_compensate = Panics,
     w_verify = Panics\<rparr>"

definition write_retry :: recon_command where
  "write_retry = \<lparr>rc_id = ''r1'', rc_action = ToolEffectRetrySameKey, rc_expected_version = 2, rc_actor = ''op'',
     rc_reason = ''check'', rc_result = []\<rparr>"

definition write_effect :: tool_effect where
  "write_effect = uncertain_effect\<lparr>eff_revision := ''rev''\<rparr>"

definition write_effects :: run_store where
  "write_effects = crashed_store\<lparr>rs_effects := [write_effect]\<rparr>"


lemma write_retry_checks:
  "validateReconciliationCommand write_recon ''key'' write_retry = None"
  "normalizeReconciliationCommand write_retry = write_retry"
  "authorizedReconciliationBinding (Some write_catalog) ''file_write'' ''rev'' ToolEffectRetrySameKey = Inr write_binding"
  "reconciliationCommandOutcome write_effects write_effects (Some write_catalog) ''run'' ''key'' ''r1'' ''r1'' = Inr None"
  by code_simp+

lemma write_claim_applied:
  "case commitReconciliation write_recon 9 crashed_run write_effect write_retry ''r1''
     claim_settlement write_effects of Inl _ \<Rightarrow> False | Inr (claimed, _) \<Rightarrow> out_applied claimed"
  by code_simp

lemma write_retry_calls:
  "\<exists>res st'. ReconcileToolEffect write_recon (Some write_catalog) write_world (\<lambda>_. id) 9 crashed_run ''key'' write_retry
     write_effects = (res, st', True)"
proof -
  obtain claimed u where c: "commitReconciliation write_recon 9 crashed_run write_effect write_retry ''r1''
     claim_settlement write_effects = Inr (claimed, u)" "out_applied claimed"
    using write_claim_applied by (auto split: sum.split_asm)
  have f: "findToolEffect (ListToolEffects write_effects ''run'') ''key'' = Some write_effect"
    by (simp add: findToolEffect_def ListToolEffects_def write_effects_def write_effect_def uncertain_effect_def example_effect_def)
  have e: "eff_version write_effect = 2" "write_effect\<lparr>eff_version := 2\<rparr> = write_effect" "eff_revision write_effect = ''rev''"
    "eff_status write_effect = ToolEffectNeedsReconciliation"
    "eff_key write_effect = ''key''" "eff_tool_name write_effect = ''file_write''"
    "run_id crashed_run = ''run''"
    by (simp_all add: write_effect_def uncertain_effect_def example_effect_def crashed_run_def example_run_def)
  have w: "rc_id write_retry = ''r1''" "rc_action write_retry = ToolEffectRetrySameKey" "rc_expected_version write_retry = 2"
    "rx_hash write_recon [rx_encode_command write_recon write_retry] = ''r1''" "w_canceled write_world = False"
    "external_action ToolEffectRetrySameKey"
    by (simp_all add: write_retry_def write_recon_def write_world_def external_action_def)
  have s: "\<exists>res st'. settle_reconciliation write_recon (Some write_catalog) write_world 9 crashed_run d undo
      (write_effect\<lparr>eff_version := v, eff_status := ToolEffectReconciling\<rparr>) write_retry ''r1'' u = (res, st', True)" for d undo v
    using write_retry_checks(3)
    by (simp add: settle_reconciliation_def boundedReconciliationAction_def executeReconciliationAction_def write_world_def
        Let_def write_binding_def e w split: sum.split prod.split)
  then show ?thesis
    using write_retry_checks f s c
    by (simp add: ReconcileToolEffect_def claim_and_settle_def Let_def awaiting_def e w)
qed

section \<open>Properties\<close>

text \<open>
  An external callback (a retry or a compensation) runs only under a durable claim: when the handler
  has invoked one, it had committed the claim of this command, the effect was then marked as being
  reconciled, and from that state no other claim for the effect can be applied.
\<close>

theorem external_callback_claimed:
  assumes "ReconcileToolEffect rx catalog w between now r key command st = (res, st', True)"
    and "external_action (rc_action command)"
  shows "\<exists>m x ev u0 u. CommitToolEffectReconciliation (rx_svc rx) [] now m u0 = Inr ((x, Some ev), u)
    \<and> rec_key m = key \<and> rec_command_id m = trim_space (rc_id command)
    \<and> ev_type ev = EventToolEffectReconciliationStarted
    \<and> getToolEffect u key = Some x \<and> eff_status x = ToolEffectReconciling
    \<and> (\<forall>svc' i now' m' y ev' u'. rec_key m' = key
         \<and> ev_type (rec_event m') = EventToolEffectReconciliationStarted
         \<and> CommitToolEffectReconciliation svc' i now' m' u = Inr ((y, ev'), u') \<longrightarrow> ev' = None \<and> u' = u)"
proof -
  obtain found st3 undo where f: "eff_key found = key"
    "claim_and_settle rx catalog w now r between undo found (normalizeReconciliationCommand command)
       (rx_hash rx [rx_encode_command rx (normalizeReconciliationCommand command)]) st3 = (res, st', True)"
    by (rule Reconcile_external_called [OF assms])
  obtain claimed u where c: "commitReconciliation rx now r found (normalizeReconciliationCommand command)
      (rx_hash rx [rx_encode_command rx (normalizeReconciliationCommand command)]) claim_settlement st3
        = Inr (claimed, u)" "out_applied claimed"
    by (rule claim_and_settle_called [OF f(2)])
  obtain x ev where x: "CommitToolEffectReconciliation (rx_svc rx) [] now (reconciliation_mutation rx now r found
        (normalizeReconciliationCommand command)
        (rx_hash rx [rx_encode_command rx (normalizeReconciliationCommand command)]) claim_settlement) st3
       = Inr ((x, Some ev), u)"
    "getToolEffect u (eff_key found) = Some x" "eff_status x = ToolEffectReconciling"
    "ev_type ev = EventToolEffectReconciliationStarted"
    by (rule claim_applied [OF c])
  have excl: "ev' = None \<and> u' = u"
    if "rec_key m' = key" "ev_type (rec_event m') = EventToolEffectReconciliationStarted"
      "CommitToolEffectReconciliation svc' i now' m' u = Inr ((y, ev'), u')" for svc' i now' m' y ev' u'
    by (rule claimed_excludes [OF _ x(3) that(2,3)]) (simp add: that(1) x(2) [unfolded f(1)])
  show ?thesis
    by (intro exI conjI, rule x(1)) (use x(2,3,4) f(1) excl in auto)
qed

theorem external_callback_claimed_witness:
  "\<exists>m x ev u0 u. CommitToolEffectReconciliation example_services [] 9 m u0 = Inr ((x, Some ev), u)
     \<and> rec_command_id m = ''r1'' \<and> getToolEffect u ''key'' = Some x \<and> eff_status x = ToolEffectReconciling"
proof -
  obtain res st' where r: "ReconcileToolEffect write_recon (Some write_catalog) write_world (\<lambda>_. id) 9 crashed_run ''key''
      write_retry write_effects = (res, st', True)"
    using write_retry_calls by blast
  have "external_action (rc_action write_retry)" "rx_svc write_recon = example_services" "trim_space (rc_id write_retry) = ''r1''"
    by (simp_all add: external_action_def write_retry_def write_recon_def)
  then show ?thesis using external_callback_claimed [OF r] by metis
qed

text \<open>
  C12: At most once per command: of all runs of the handler that carry the same command identifier for
  the same effect of a Run and ask for a retry or a compensation - from whatever worker, with
  whatever tool callbacks, one after another or overlapping in any way - at most one invokes a
  callback. The claims are transactions of one history of the database, in which events are
  never deleted, and all workers use the same hash function.
\<close>

theorem callback_once_per_command:
  fixes h :: "nat \<Rightarrow> run_store" and C :: "'v handler_run set"
  assumes "\<And>i. set (rs_events (h i)) \<subseteq> set (rs_events (h (Suc i)))"
    and "\<And>x. x \<in> C \<Longrightarrow> invokes x \<Longrightarrow>
      at_claim x = h (hr_instant x) \<and> after_claim x = h (Suc (hr_instant x))"
    and "inj_on hr_instant C"
    and "\<And>x. x \<in> C \<Longrightarrow> external_action (rc_action (hr_command x)) \<and> run_id (hr_run x) = rid \<and> hr_key x = key
      \<and> trim_space (rc_id (hr_command x)) = command \<and> rx_hash (hr_recon x) = hash"
    and "x \<in> C" "y \<in> C" "invokes x" "invokes y"
  shows "x = y"
proof -
  have grows: "set (rs_events (h i)) \<subseteq> set (rs_events (h j))" if "i \<le> j" for i j
    using that assms(1) by (rule lift_Suc_mono_le [rotated])
  have order: "\<not> hr_instant a < hr_instant b" if "a \<in> C" "b \<in> C" "invokes a" "invokes b" for a b
  proof
    assume less: "hr_instant a < hr_instant b"
    let ?i = "claim_id hash rid key command"
    have "?i \<in> ev_id ` set (rs_events (h (Suc (hr_instant a))))"
      using invokes_claims [of a ?i] assms(2,4) that by auto
    then have "?i \<in> ev_id ` set (rs_events (h (hr_instant b)))"
      using grows [of "Suc (hr_instant a)" "hr_instant b"] less by auto
    then show False using invokes_claims [of b ?i] assms(2,4) that by auto
  qed
  then have "hr_instant x = hr_instant y" using assms(5-8) by (metis linorder_neqE_nat)
  then show ?thesis using assms(3,5,6) by (auto dest: inj_onD)
qed

text \<open>Two workers get the same command; the second claims while the first is at work.\<close>

definition first_worker :: "string handler_run" where
  "first_worker = \<lparr>hr_recon = write_recon, hr_catalog = Some write_catalog, hr_world = write_world,
     hr_between = (\<lambda>_. id), hr_now = 9, hr_run = crashed_run, hr_key = ''key'', hr_command = write_retry,
     hr_start = write_effects, hr_instant = 0\<rparr>"

definition second_worker :: "string handler_run" where
  "second_worker = first_worker\<lparr>hr_between := (\<lambda>i st. if i = 3 then after_claim first_worker else st),
     hr_now := 10, hr_instant := 1\<rparr>"

theorem callback_once_per_command_witness:
  "invokes first_worker \<and> \<not> invokes second_worker"
proof -
  let ?h = "\<lambda>i. if i = 0 then write_effects else if i = 1 then after_claim first_worker else after_claim second_worker"
  have claims: "at_claim first_worker = write_effects" "at_claim second_worker = after_claim first_worker"
    by (simp_all add: at_claim_def first_worker_def second_worker_def)
  have first: "invokes first_worker"
    using write_retry_calls by (auto simp: invokes_def first_worker_def)
  have fields: "\<forall>x \<in> {first_worker, second_worker}. external_action (rc_action (hr_command x))
      \<and> run_id (hr_run x) = run_id crashed_run \<and> hr_key x = ''key''
      \<and> trim_space (rc_id (hr_command x)) = trim_space (rc_id write_retry) \<and> rx_hash (hr_recon x) = concat"
    by (simp add: first_worker_def second_worker_def external_action_def write_retry_def write_recon_def)
  have instants: "hr_instant first_worker = 0" "hr_instant second_worker = 1" "first_worker \<noteq> second_worker"
    by (simp_all add: first_worker_def second_worker_def)
  have "\<not> invokes second_worker"
  proof
    assume "invokes second_worker"
    then have "first_worker = second_worker"
      using first fields instants claims after_claim_grows [of first_worker] after_claim_grows [of second_worker]
      by (intro callback_once_per_command [where h = ?h and C = "{first_worker, second_worker}"])
        (auto simp: inj_on_def)
    then show False using instants by simp
  qed
  with first show ?thesis by blast
qed

text \<open>
  An error answer never hides a settlement: when no other transaction interferes and the handler
  answers with an error, the store is unchanged, or the command is external and its effect is left
  claimed as being reconciled, to be settled by hand.
\<close>

theorem Reconcile_error_settles_nothing:
  assumes "ReconcileToolEffect rx catalog w (\<lambda>_. id) now r key command st = (Inl err, st', called)"
  shows "st' = st \<or> external_action (rc_action command)
    \<and> (\<exists>x. getToolEffect st' key = Some x \<and> eff_status x = ToolEffectReconciling)"
proof -
  have settle: "u' = u" if "settle_reconciliation rx catalog w now r id undo e c h u = (Inl err', u', b)"
    for undo e c h u u' err' b
    using that by (simp add: settle_reconciliation_def Let_def split: prod.split_asm sum.split_asm)
  show ?thesis
  proof (cases "st' = st")
    case changed: False
    let ?c = "normalizeReconciliationCommand command"
    let ?h = "rx_hash rx [rx_encode_command rx ?c]"
    obtain found where f: "findToolEffect (ListToolEffects st (run_id r)) key = Some found"
      using assms changed by (simp add: ReconcileToolEffect_def Let_def split: option.split_asm if_split_asm)
    have key: "eff_key found = key" using findToolEffect_Some [OF f] by simp
    let ?e = "found\<lparr>eff_version := max (eff_version found) 1\<rparr>"
    obtain undo where e: "external_action (rc_action command)"
      "claim_and_settle rx catalog w now r (\<lambda>_. id) undo ?e ?c ?h st = (Inl err, st', called)"
      using assms changed f settle
      by (simp add: ReconcileToolEffect_def Let_def split: option.split_asm if_split_asm sum.split_asm prod.split_asm)
    obtain claimed u where c: "commitReconciliation rx now r ?e ?c ?h claim_settlement st = Inr (claimed, u)"
      using e(2) changed by (simp add: claim_and_settle_def split: sum.split_asm prod.split_asm)
    show ?thesis
    proof (cases "out_applied claimed")
      case True
      then have "st' = u"
        using e(2) c settle changed
        by (simp add: claim_and_settle_def split: sum.split_asm prod.split_asm) 
      moreover obtain x where "getToolEffect u (eff_key ?e) = Some x" "eff_status x = ToolEffectReconciling"
        using claim_applied [OF c True] by blast
      ultimately show ?thesis using e(1) key by simp
    next
      case unapplied: False
      obtain x ev where "CommitToolEffectReconciliation (rx_svc rx) [] now
          (reconciliation_mutation rx now r ?e ?c ?h claim_settlement) st = Inr ((x, ev), u)" "ev = None"
        using commitReconciliation_Inr [OF c] unapplied by metis
      then have "u = st" using Commit_duplicate by blast
      then show ?thesis
        using e(2) c unapplied changed
        by (simp add: claim_and_settle_def Let_def split: sum.split_asm option.split_asm)
    qed
  qed simp
qed

theorem Reconcile_error_settles_nothing_witness:
  "fst (ReconcileToolEffect write_recon (Some write_catalog) write_world (\<lambda>_. id) 9 crashed_run ''key''
      (write_retry\<lparr>rc_expected_version := 3\<rparr>) write_effects) = Inl (ReconConflict ''tool effect version conflict'')
   \<and> fst (snd (ReconcileToolEffect write_recon (Some write_catalog) write_world (\<lambda>_. id) 9 crashed_run ''key''
      (write_retry\<lparr>rc_expected_version := 3\<rparr>) write_effects)) = write_effects"
  (is "fst ?r = ?err \<and> _")
proof -
  have f: "findToolEffect (ListToolEffects write_effects ''run'') ''key'' = Some write_effect"
    by (simp add: findToolEffect_def ListToolEffects_def write_effects_def write_effect_def uncertain_effect_def
        example_effect_def)
  have e: "eff_version write_effect = 2" "eff_status write_effect = ToolEffectNeedsReconciliation"
    "eff_key write_effect = ''key''" "run_id crashed_run = ''run''"
    by (simp_all add: write_effect_def uncertain_effect_def example_effect_def crashed_run_def example_run_def)
  have n: "normalizeReconciliationCommand (write_retry\<lparr>rc_expected_version := 3\<rparr>) = write_retry\<lparr>rc_expected_version := 3\<rparr>"
    "validateReconciliationCommand write_recon ''key'' (write_retry\<lparr>rc_expected_version := 3\<rparr>) = None"
    by code_simp+
  have w: "rc_id write_retry = ''r1''" "rc_action write_retry = ToolEffectRetrySameKey"
    "rx_hash write_recon [rx_encode_command write_recon (write_retry\<lparr>rc_expected_version := 3\<rparr>)] = ''r1''"
    "w_canceled write_world = False"
    by (simp_all add: write_retry_def write_recon_def write_world_def)
  have r: "fst ?r = ?err"
    using f n write_retry_checks(4) by (simp add: ReconcileToolEffect_def Let_def awaiting_def e w)
  obtain st' called where s: "?r = (?err, st', called)" using r by (metis prod.collapse)
  moreover have "getToolEffect st' ''key'' = Some x \<Longrightarrow> eff_status x = ToolEffectReconciling \<Longrightarrow> st' = write_effects" for x
    using s f n write_retry_checks(4) by (simp add: ReconcileToolEffect_def Let_def awaiting_def e w)
  ultimately show ?thesis using Reconcile_error_settles_nothing [OF s] by auto
qed

end
