(* ===== verification/Task_State.thy ===== *)
theory Task_State
  imports Domain Keyed_Items Go_Json
begin

text \<open>
  The structured task state of a conversation (\<open>internal/domain/task_state.go\<close>): a closed set of
  patch operations on the goal, tasks, decisions, constraints, blockers and artifact references,
  applied all or nothing under an expected version. The three slices that are updated by
  identifier are interpretations of \<open>keyed_items\<close>.
\<close>

section \<open>Data\<close>

abbreviation (input) TaskItemPending :: string where "TaskItemPending \<equiv> ''pending''"
abbreviation (input) TaskItemInProgress :: string where "TaskItemInProgress \<equiv> ''in_progress''"
abbreviation (input) TaskItemCompleted :: string where "TaskItemCompleted \<equiv> ''completed''"
abbreviation (input) TaskItemCanceled :: string where "TaskItemCanceled \<equiv> ''canceled''"
abbreviation (input) TaskBlockerOpen :: string where "TaskBlockerOpen \<equiv> ''open''"
abbreviation (input) TaskBlockerResolved :: string where "TaskBlockerResolved \<equiv> ''resolved''"

record task_item =
  ti_id :: string
  ti_title :: string
  ti_details :: string
  ti_status :: string
  ti_artifact_refs :: "string list"

record task_decision =
  td_id :: string
  td_statement :: string
  td_rationale :: string
  td_supersedes_id :: string

record task_constraint =
  tc_id :: string
  tc_statement :: string

record task_blocker =
  tb_id :: string
  tb_description :: string
  tb_status :: string

record task_state =
  ts_schema_version :: int
  ts_workspace_id :: string
  ts_conversation_id :: string
  ts_version :: int
  ts_goal :: string
  ts_tasks :: "task_item list"
  ts_decisions :: "task_decision list"
  ts_constraints :: "task_constraint list"
  ts_blockers :: "task_blocker list"
  ts_artifact_refs :: "string list"
  ts_updated_at :: time

datatype task_operation_type =
    TaskStateSetGoal
  | TaskStateClearGoal
  | TaskStateUpsertTask
  | TaskStateSetTaskStatus
  | TaskStateRemoveTask
  | TaskStateAddDecision
  | TaskStateUpsertConstraint
  | TaskStateRemoveConstraint
  | TaskStateUpsertBlocker
  | TaskStateResolveBlocker
  | TaskStateRemoveBlocker
  | TaskStateAddArtifactRef
  | TaskStateRemoveArtifactRef
  | TaskStateOther string

record task_operation =
  op_type :: task_operation_type
  op_goal :: string
  op_task :: "task_item option"
  op_task_id :: string
  op_task_status :: string
  op_decision :: "task_decision option"
  op_constraint :: "task_constraint option"
  op_constraint_id :: string
  op_blocker :: "task_blocker option"
  op_blocker_id :: string
  op_artifact_ref :: string

record task_patch =
  tp_expected_version :: int
  tp_operations :: "task_operation list"

datatype task_error =
    TaskRequired string
  | TaskTooLong string nat
  | TaskTooMany string nat
  | TaskInvalid string string
  | TaskMissing string
  | TaskNotFound string string
  | TaskExists string string
  | TaskUnsupported task_operation_type
  | TaskAt nat task_error
  | TaskNegativeVersion
  | TaskVersionMismatch int int
  | TaskEmptyPatch
  | TaskPatchTooLong
  | TaskEncode
  | TaskTooLarge

definition CurrentTaskStateSchemaVersion :: int where "CurrentTaskStateSchemaVersion = 1"

definition MaxTaskStateBytes :: nat where "MaxTaskStateBytes = 16000"

definition EmptyTaskState :: "string \<Rightarrow> string \<Rightarrow> task_state" where
  "EmptyTaskState workspace conversation =
     \<lparr>ts_schema_version = CurrentTaskStateSchemaVersion, ts_workspace_id = NormalizeWorkspaceID workspace,
      ts_conversation_id = trim_space conversation, ts_version = 0, ts_goal = [], ts_tasks = [],
      ts_decisions = [], ts_constraints = [], ts_blockers = [], ts_artifact_refs = [], ts_updated_at = 0\<rparr>"

section \<open>Slices\<close>

fun upsertTaskItem :: "task_item list \<Rightarrow> task_item \<Rightarrow> task_item list" where
  "upsertTaskItem [] v = [v]"
| "upsertTaskItem (x # xs) v = (if ti_id x = ti_id v then v # xs else x # upsertTaskItem xs v)"

fun removeTaskItem :: "task_item list \<Rightarrow> string \<Rightarrow> task_error + task_item list" where
  "removeTaskItem [] i = Inl (TaskNotFound ''task'' i)"
| "removeTaskItem (x # xs) i = (if ti_id x = i then Inr xs else map_sum id (Cons x) (removeTaskItem xs i))"

fun upsertConstraint :: "task_constraint list \<Rightarrow> task_constraint \<Rightarrow> task_constraint list" where
  "upsertConstraint [] v = [v]"
| "upsertConstraint (x # xs) v = (if tc_id x = tc_id v then v # xs else x # upsertConstraint xs v)"

fun removeConstraint :: "task_constraint list \<Rightarrow> string \<Rightarrow> task_error + task_constraint list" where
  "removeConstraint [] i = Inl (TaskNotFound ''constraint'' i)"
| "removeConstraint (x # xs) i = (if tc_id x = i then Inr xs else map_sum id (Cons x) (removeConstraint xs i))"

fun upsertBlocker :: "task_blocker list \<Rightarrow> task_blocker \<Rightarrow> task_blocker list" where
  "upsertBlocker [] v = [v]"
| "upsertBlocker (x # xs) v = (if tb_id x = tb_id v then v # xs else x # upsertBlocker xs v)"

fun removeBlocker :: "task_blocker list \<Rightarrow> string \<Rightarrow> task_error + task_blocker list" where
  "removeBlocker [] i = Inl (TaskNotFound ''blocker'' i)"
| "removeBlocker (x # xs) i = (if tb_id x = i then Inr xs else map_sum id (Cons x) (removeBlocker xs i))"

definition containsDecision :: "task_decision list \<Rightarrow> string \<Rightarrow> bool" where
  "containsDecision items i \<longleftrightarrow> i \<in> td_id ` set items"

definition appendUnique :: "string list \<Rightarrow> string \<Rightarrow> string list" where
  "appendUnique items v = (if v \<in> set items then items else items @ [v])"

definition removeString :: "string list \<Rightarrow> string \<Rightarrow> string list" where
  "removeString items v = remove1 v items"

text \<open>The status loops: the first element with the identifier, if there is one.\<close>

fun set_task_status :: "task_item list \<Rightarrow> string \<Rightarrow> string \<Rightarrow> task_item list option" where
  "set_task_status [] i status = None"
| "set_task_status (x # xs) i status =
     (if ti_id x = i then Some (x\<lparr>ti_status := status\<rparr> # xs)
      else map_option (Cons x) (set_task_status xs i status))"

fun resolve_blocker :: "task_blocker list \<Rightarrow> string \<Rightarrow> task_blocker list option" where
  "resolve_blocker [] i = None"
| "resolve_blocker (x # xs) i =
     (if tb_id x = i then Some (x\<lparr>tb_status := TaskBlockerResolved\<rparr> # xs)
      else map_option (Cons x) (resolve_blocker xs i))"

section \<open>Normalisation\<close>

definition normalizeTaskText :: "string \<Rightarrow> string \<Rightarrow> nat \<Rightarrow> bool \<Rightarrow> task_error + string" where
  "normalizeTaskText name v maxRunes required =
     (let v = trim_space v
      in if required \<and> v = [] then Inl (TaskRequired name)
         else if rune_count v > maxRunes then Inl (TaskTooLong name maxRunes)
         else Inr v)"

definition normalizeTaskID :: "string \<Rightarrow> string \<Rightarrow> task_error + string" where
  "normalizeTaskID name v = normalizeTaskText name v 128 True"

fun normalize_strings :: "string \<Rightarrow> nat \<Rightarrow> string list \<Rightarrow> string list \<Rightarrow> task_error + string list" where
  "normalize_strings name maxRunes [] acc = Inr acc"
| "normalize_strings name maxRunes (v # vs) acc =
     bind_result (normalizeTaskText name v maxRunes True)
       (\<lambda>n. normalize_strings name maxRunes vs (appendUnique acc n))"

definition normalizeTaskStrings :: "string \<Rightarrow> string list \<Rightarrow> nat \<Rightarrow> nat \<Rightarrow> task_error + string list" where
  "normalizeTaskStrings name vs maxItems maxRunes =
     (if length vs > maxItems then Inl (TaskTooMany name maxItems)
      else normalize_strings name maxRunes vs [])"

definition validTaskItemStatus :: "string \<Rightarrow> bool" where
  "validTaskItemStatus s \<longleftrightarrow>
     s \<in> {TaskItemPending, TaskItemInProgress, TaskItemCompleted, TaskItemCanceled}"

definition normalizeTaskItem :: "task_item \<Rightarrow> task_error + task_item" where
  "normalizeTaskItem item =
     bind_result (normalizeTaskID ''task.id'' (ti_id item)) (\<lambda>i.
     bind_result (normalizeTaskText ''task.title'' (ti_title item) 500 True) (\<lambda>title.
     bind_result (normalizeTaskText ''task.details'' (ti_details item) 2000 False) (\<lambda>details.
       (let status = (if ti_status item = [] then TaskItemPending else ti_status item)
        in if \<not> validTaskItemStatus status then Inl (TaskInvalid ''task status'' status)
           else bind_result (normalizeTaskStrings ''task.artifact_refs'' (ti_artifact_refs item) 20 500) (\<lambda>refs.
             Inr \<lparr>ti_id = i, ti_title = title, ti_details = details, ti_status = status,
                  ti_artifact_refs = refs\<rparr>)))))"

definition normalizeTaskDecision :: "task_decision \<Rightarrow> task_error + task_decision" where
  "normalizeTaskDecision item =
     bind_result (normalizeTaskID ''decision.id'' (td_id item)) (\<lambda>i.
     bind_result (normalizeTaskText ''decision.statement'' (td_statement item) 1000 True) (\<lambda>statement.
     bind_result (normalizeTaskText ''decision.rationale'' (td_rationale item) 2000 False) (\<lambda>rationale.
     bind_result (if td_supersedes_id item \<noteq> []
                  then normalizeTaskID ''decision.supersedes_id'' (td_supersedes_id item)
                  else Inr []) (\<lambda>supersedes.
       Inr \<lparr>td_id = i, td_statement = statement, td_rationale = rationale, td_supersedes_id = supersedes\<rparr>))))"

definition normalizeTaskConstraint :: "task_constraint \<Rightarrow> task_error + task_constraint" where
  "normalizeTaskConstraint item =
     bind_result (normalizeTaskID ''constraint.id'' (tc_id item)) (\<lambda>i.
     bind_result (normalizeTaskText ''constraint.statement'' (tc_statement item) 1000 True) (\<lambda>statement.
       Inr \<lparr>tc_id = i, tc_statement = statement\<rparr>))"

definition normalizeTaskBlocker :: "task_blocker \<Rightarrow> task_error + task_blocker" where
  "normalizeTaskBlocker item =
     bind_result (normalizeTaskID ''blocker.id'' (tb_id item)) (\<lambda>i.
     bind_result (normalizeTaskText ''blocker.description'' (tb_description item) 1000 True) (\<lambda>description.
       (let status = (if tb_status item = [] then TaskBlockerOpen else tb_status item)
        in if status \<noteq> TaskBlockerOpen \<and> status \<noteq> TaskBlockerResolved
           then Inl (TaskInvalid ''blocker status'' status)
           else Inr \<lparr>tb_id = i, tb_description = description, tb_status = status\<rparr>)))"

section \<open>Operations\<close>

definition require :: "string \<Rightarrow> 'a option \<Rightarrow> task_error + 'a" where
  "require what x = (case x of None \<Rightarrow> Inl (TaskMissing what) | Some v \<Rightarrow> Inr v)"

definition add_decision :: "task_decision list \<Rightarrow> task_decision \<Rightarrow> task_error + task_decision list" where
  "add_decision items item =
     (if containsDecision items (td_id item) then Inl (TaskExists ''decision'' (td_id item))
      else if td_supersedes_id item \<noteq> [] \<and> \<not> containsDecision items (td_supersedes_id item)
      then Inl (TaskNotFound ''superseded decision'' (td_supersedes_id item))
      else Inr (items @ [item]))"

definition applyTaskStateOperation :: "task_operation \<Rightarrow> task_state \<Rightarrow> task_error + task_state" where
  "applyTaskStateOperation op st =
     (case op_type op of
        TaskStateSetGoal \<Rightarrow>
          bind_result (normalizeTaskText ''goal'' (op_goal op) 2000 True) (\<lambda>goal. Inr (st\<lparr>ts_goal := goal\<rparr>))
      | TaskStateClearGoal \<Rightarrow> Inr (st\<lparr>ts_goal := []\<rparr>)
      | TaskStateUpsertTask \<Rightarrow>
          bind_result (require ''upsert_task requires task'' (op_task op)) (\<lambda>task.
          bind_result (normalizeTaskItem task) (\<lambda>item.
            Inr (st\<lparr>ts_tasks := upsertTaskItem (ts_tasks st) item\<rparr>)))
      | TaskStateSetTaskStatus \<Rightarrow>
          bind_result (normalizeTaskID ''task_id'' (op_task_id op)) (\<lambda>i.
            if \<not> validTaskItemStatus (op_task_status op)
            then Inl (TaskMissing ''set_task_status requires a valid task_status'')
            else (case set_task_status (ts_tasks st) i (op_task_status op) of
                    None \<Rightarrow> Inl (TaskNotFound ''task'' i)
                  | Some items \<Rightarrow> Inr (st\<lparr>ts_tasks := items\<rparr>)))
      | TaskStateRemoveTask \<Rightarrow>
          bind_result (normalizeTaskID ''task_id'' (op_task_id op)) (\<lambda>i.
          bind_result (removeTaskItem (ts_tasks st) i) (\<lambda>items. Inr (st\<lparr>ts_tasks := items\<rparr>)))
      | TaskStateAddDecision \<Rightarrow>
          bind_result (require ''add_decision requires decision'' (op_decision op)) (\<lambda>decision.
          bind_result (normalizeTaskDecision decision) (\<lambda>item.
          bind_result (add_decision (ts_decisions st) item) (\<lambda>items. Inr (st\<lparr>ts_decisions := items\<rparr>))))
      | TaskStateUpsertConstraint \<Rightarrow>
          bind_result (require ''upsert_constraint requires constraint'' (op_constraint op)) (\<lambda>c.
          bind_result (normalizeTaskConstraint c) (\<lambda>item.
            Inr (st\<lparr>ts_constraints := upsertConstraint (ts_constraints st) item\<rparr>)))
      | TaskStateRemoveConstraint \<Rightarrow>
          bind_result (normalizeTaskID ''constraint_id'' (op_constraint_id op)) (\<lambda>i.
          bind_result (removeConstraint (ts_constraints st) i) (\<lambda>items. Inr (st\<lparr>ts_constraints := items\<rparr>)))
      | TaskStateUpsertBlocker \<Rightarrow>
          bind_result (require ''upsert_blocker requires blocker'' (op_blocker op)) (\<lambda>b.
          bind_result (normalizeTaskBlocker b) (\<lambda>item.
            Inr (st\<lparr>ts_blockers := upsertBlocker (ts_blockers st) item\<rparr>)))
      | TaskStateResolveBlocker \<Rightarrow>
          bind_result (normalizeTaskID ''blocker_id'' (op_blocker_id op)) (\<lambda>i.
            (case resolve_blocker (ts_blockers st) i of
               None \<Rightarrow> Inl (TaskNotFound ''blocker'' i)
             | Some items \<Rightarrow> Inr (st\<lparr>ts_blockers := items\<rparr>)))
      | TaskStateRemoveBlocker \<Rightarrow>
          bind_result (normalizeTaskID ''blocker_id'' (op_blocker_id op)) (\<lambda>i.
          bind_result (removeBlocker (ts_blockers st) i) (\<lambda>items. Inr (st\<lparr>ts_blockers := items\<rparr>)))
      | TaskStateAddArtifactRef \<Rightarrow>
          bind_result (normalizeTaskText ''artifact_ref'' (op_artifact_ref op) 500 True) (\<lambda>v.
            Inr (st\<lparr>ts_artifact_refs := appendUnique (ts_artifact_refs st) v\<rparr>))
      | TaskStateRemoveArtifactRef \<Rightarrow>
          bind_result (normalizeTaskText ''artifact_ref'' (op_artifact_ref op) 500 True) (\<lambda>v.
            Inr (st\<lparr>ts_artifact_refs := removeString (ts_artifact_refs st) v\<rparr>))
      | TaskStateOther s \<Rightarrow> Inl (TaskUnsupported (op_type op)))"

section \<open>Patches\<close>

text \<open>What a text becomes when it is encoded as JSON and decoded again.\<close>

definition clone_item :: "task_item \<Rightarrow> task_item" where
  "clone_item x = \<lparr>ti_id = sanitize_utf8 (ti_id x), ti_title = sanitize_utf8 (ti_title x),
     ti_details = sanitize_utf8 (ti_details x), ti_status = sanitize_utf8 (ti_status x),
     ti_artifact_refs = map sanitize_utf8 (ti_artifact_refs x)\<rparr>"

definition clone_decision :: "task_decision \<Rightarrow> task_decision" where
  "clone_decision x = \<lparr>td_id = sanitize_utf8 (td_id x), td_statement = sanitize_utf8 (td_statement x),
     td_rationale = sanitize_utf8 (td_rationale x), td_supersedes_id = sanitize_utf8 (td_supersedes_id x)\<rparr>"

definition clone_constraint :: "task_constraint \<Rightarrow> task_constraint" where
  "clone_constraint x = \<lparr>tc_id = sanitize_utf8 (tc_id x), tc_statement = sanitize_utf8 (tc_statement x)\<rparr>"

definition clone_blocker :: "task_blocker \<Rightarrow> task_blocker" where
  "clone_blocker x = \<lparr>tb_id = sanitize_utf8 (tb_id x), tb_description = sanitize_utf8 (tb_description x),
     tb_status = sanitize_utf8 (tb_status x)\<rparr>"

definition encode_item :: "task_item \<Rightarrow> string" where
  "encode_item x = json_object
     [json_field ''id'' (json_string (ti_id x)), json_field ''title'' (json_string (ti_title x)),
      omit_field ''details'' (ti_details x), json_field ''status'' (json_string (ti_status x)),
      omit_array ''artifact_refs'' (map json_string (ti_artifact_refs x))]"

definition encode_decision :: "task_decision \<Rightarrow> string" where
  "encode_decision x = json_object
     [json_field ''id'' (json_string (td_id x)), json_field ''statement'' (json_string (td_statement x)),
      omit_field ''rationale'' (td_rationale x), omit_field ''supersedes_id'' (td_supersedes_id x)]"

definition encode_constraint :: "task_constraint \<Rightarrow> string" where
  "encode_constraint x = json_object
     [json_field ''id'' (json_string (tc_id x)), json_field ''statement'' (json_string (tc_statement x))]"

definition encode_blocker :: "task_blocker \<Rightarrow> string" where
  "encode_blocker x = json_object
     [json_field ''id'' (json_string (tb_id x)), json_field ''description'' (json_string (tb_description x)),
      json_field ''status'' (json_string (tb_status x))]"

text \<open>\<open>json.Marshal\<close> of a task state; it fails on a time outside the years 0 to 9999.\<close>

definition encode_task_state :: "(time \<Rightarrow> string) \<Rightarrow> task_state \<Rightarrow> string option" where
  "encode_task_state layout st =
     map_option (\<lambda>updated. json_object
       [json_field ''schema_version'' (json_int (ts_schema_version st)),
        json_field ''workspace_id'' (json_string (ts_workspace_id st)),
        json_field ''conversation_id'' (json_string (ts_conversation_id st)),
        json_field ''version'' (json_int (ts_version st)),
        omit_field ''goal'' (ts_goal st),
        json_field ''tasks'' (json_array (map encode_item (ts_tasks st))),
        json_field ''decisions'' (json_array (map encode_decision (ts_decisions st))),
        json_field ''constraints'' (json_array (map encode_constraint (ts_constraints st))),
        json_field ''blockers'' (json_array (map encode_blocker (ts_blockers st))),
        json_field ''artifact_refs'' (json_array (map json_string (ts_artifact_refs st))),
        json_field ''updated_at'' updated])
       (json_time layout (ts_updated_at st))"

text \<open>The state that decoding an encoded state yields.\<close>

definition decoded_task_state :: "task_state \<Rightarrow> task_state" where
  "decoded_task_state st = st\<lparr>ts_workspace_id := sanitize_utf8 (ts_workspace_id st),
     ts_conversation_id := sanitize_utf8 (ts_conversation_id st), ts_goal := sanitize_utf8 (ts_goal st),
     ts_tasks := map clone_item (ts_tasks st), ts_decisions := map clone_decision (ts_decisions st),
     ts_constraints := map clone_constraint (ts_constraints st),
     ts_blockers := map clone_blocker (ts_blockers st),
     ts_artifact_refs := map sanitize_utf8 (ts_artifact_refs st)\<rparr>"

text \<open>\<open>cloneTaskState\<close> ignores an encoding error and then yields the zero state with empty slices.\<close>

definition cloneTaskState :: "(time \<Rightarrow> string) \<Rightarrow> task_state \<Rightarrow> task_state" where
  "cloneTaskState layout st =
     (case encode_task_state layout st of
        Some _ \<Rightarrow> decoded_task_state st
      | None \<Rightarrow>
          \<lparr>ts_schema_version = 0, ts_workspace_id = [], ts_conversation_id = [], ts_version = 0, ts_goal = [],
           ts_tasks = [], ts_decisions = [], ts_constraints = [], ts_blockers = [], ts_artifact_refs = [],
           ts_updated_at = 0\<rparr>)"

definition apply_operation_at :: "nat \<Rightarrow> task_operation \<Rightarrow> task_state \<Rightarrow> task_error + task_state" where
  "apply_operation_at i op st = map_error (TaskAt (Suc i)) (applyTaskStateOperation op st)"

text \<open>\<open>clock\<close> is the time read when the caller passes none.\<close>

definition ApplyTaskStatePatch ::
  "(time \<Rightarrow> string) \<Rightarrow> time \<Rightarrow> task_state \<Rightarrow> task_patch \<Rightarrow> time \<Rightarrow> task_error + task_state" where
  "ApplyTaskStatePatch layout clock current patch updated_at =
     (if tp_expected_version patch < 0 then Inl TaskNegativeVersion
      else if tp_expected_version patch \<noteq> ts_version current
      then Inl (TaskVersionMismatch (tp_expected_version patch) (ts_version current))
      else if tp_operations patch = [] then Inl TaskEmptyPatch
      else if length (tp_operations patch) > 50 then Inl TaskPatchTooLong
      else
        (let cloned = cloneTaskState layout current;
             start = (if ts_schema_version cloned = 0
                      then cloned\<lparr>ts_schema_version := CurrentTaskStateSchemaVersion\<rparr> else cloned)
         in bind_result (fold_result apply_operation_at 0 (tp_operations patch) start)
              (\<lambda>st.
                 (let next = st\<lparr>ts_version := wrap64 (ts_version current + 1),
                        ts_updated_at := (if updated_at = 0 then clock else updated_at)\<rparr>
                  in case encode_task_state layout next of
                       None \<Rightarrow> Inl TaskEncode
                     | Some encoded \<Rightarrow>
                         if length encoded > MaxTaskStateBytes then Inl TaskTooLarge else Inr next))))"

section \<open>The slices are keyed items\<close>

interpretation task_items: keyed_items ti_id upsertTaskItem removeTaskItem
proof
  show "upsertTaskItem xs v = xs @ [v]" if "ti_id v \<notin> ti_id ` set xs" for xs v
    using that by (induction xs) auto
  show "upsertTaskItem (xs @ x # ys) v = xs @ v # ys"
    if "ti_id x = ti_id v" "ti_id v \<notin> ti_id ` set xs" for xs x ys v
    using that by (induction xs) auto
  show "removeTaskItem (xs @ x # ys) k = Inr (xs @ ys)" if "ti_id x = k" "k \<notin> ti_id ` set xs" for xs x ys k
    using that by (induction xs) auto
  show "\<exists>e. removeTaskItem xs k = Inl e" if "k \<notin> ti_id ` set xs" for xs k
    using that by (induction xs) auto
qed

interpretation constraints: keyed_items tc_id upsertConstraint removeConstraint
proof
  show "upsertConstraint xs v = xs @ [v]" if "tc_id v \<notin> tc_id ` set xs" for xs v
    using that by (induction xs) auto
  show "upsertConstraint (xs @ x # ys) v = xs @ v # ys"
    if "tc_id x = tc_id v" "tc_id v \<notin> tc_id ` set xs" for xs x ys v
    using that by (induction xs) auto
  show "removeConstraint (xs @ x # ys) k = Inr (xs @ ys)" if "tc_id x = k" "k \<notin> tc_id ` set xs" for xs x ys k
    using that by (induction xs) auto
  show "\<exists>e. removeConstraint xs k = Inl e" if "k \<notin> tc_id ` set xs" for xs k
    using that by (induction xs) auto
qed

interpretation blockers: keyed_items tb_id upsertBlocker removeBlocker
proof
  show "upsertBlocker xs v = xs @ [v]" if "tb_id v \<notin> tb_id ` set xs" for xs v
    using that by (induction xs) auto
  show "upsertBlocker (xs @ x # ys) v = xs @ v # ys"
    if "tb_id x = tb_id v" "tb_id v \<notin> tb_id ` set xs" for xs x ys v
    using that by (induction xs) auto
  show "removeBlocker (xs @ x # ys) k = Inr (xs @ ys)" if "tb_id x = k" "k \<notin> tb_id ` set xs" for xs x ys k
    using that by (induction xs) auto
  show "\<exists>e. removeBlocker xs k = Inl e" if "k \<notin> tb_id ` set xs" for xs k
    using that by (induction xs) auto
qed

end
