(* ===== verification/Task_History.thy ===== *)
theory Task_History
  imports Task_State
begin

text \<open>
  The revisions of a conversation's task state: the PostgreSQL table
  (\<open>internal/store/postgres_task_states.go\<close>) that stores every applied patch with the state it
  produced, and the service over it (\<open>internal/taskstate/service.go\<close>). A transaction locks the
  conversation, so patches of one conversation are serial.
\<close>

section \<open>Rows\<close>

record task_source =
  src_actor_type :: string
  src_actor_id :: string
  src_run_id :: string
  src_stage_id :: string
  src_turn_id :: string
  src_message_id :: string

record task_revision =
  tr_id :: string
  tr_workspace_id :: string
  tr_conversation_id :: string
  tr_version :: int
  tr_previous_version :: int
  tr_patch :: task_patch
  tr_state :: task_state
  tr_source :: task_source
  tr_created_at :: time

text \<open>The tables the operations read: conversations with their Workspace, Runs and messages with their conversation.\<close>

record task_store =
  tx_conversations :: "(string \<times> string) list"
  tx_runs :: "(string \<times> string) list"
  tx_messages :: "(string \<times> string) list"
  tx_revisions :: "task_revision list"

datatype task_store_error =
    TaskConversationMissing
  | TaskSourceInvalid string
  | TaskVersionConflict int int
  | TaskPatchRejected task_error
  | TaskRowRejected
  | TaskCredential

section \<open>Reading\<close>

definition latest_revision :: "task_store \<Rightarrow> string \<Rightarrow> task_revision option" where
  "latest_revision st conversation =
     (case filter (\<lambda>r. tr_conversation_id r = conversation) (tx_revisions st) of
        [] \<Rightarrow> None
      | r # rs \<Rightarrow> Some (fold (\<lambda>x best. if tr_version best < tr_version x then x else best) rs r))"

definition known_conversation :: "task_store \<Rightarrow> string \<Rightarrow> bool" where
  "known_conversation st conversation \<longleftrightarrow> conversation \<in> fst ` set (tx_conversations st)"

definition GetTaskState :: "task_store \<Rightarrow> string \<Rightarrow> task_store_error + task_state option" where
  "GetTaskState st conversation =
     (case latest_revision st conversation of
        Some r \<Rightarrow> Inr (Some (tr_state r))
      | None \<Rightarrow> if known_conversation st conversation then Inr None else Inl TaskConversationMissing)"

definition GetTaskStateRevision ::
  "task_store \<Rightarrow> string \<Rightarrow> int \<Rightarrow> task_store_error + task_revision option" where
  "GetTaskStateRevision st conversation v =
     (case find (\<lambda>r. tr_conversation_id r = conversation \<and> tr_version r = v) (tx_revisions st) of
        Some r \<Rightarrow> Inr (Some r)
      | None \<Rightarrow> if known_conversation st conversation then Inr None else Inl TaskConversationMissing)"

definition ListTaskStateRevisions :: "task_store \<Rightarrow> string \<Rightarrow> task_store_error + task_revision list" where
  "ListTaskStateRevisions st conversation =
     (if \<not> known_conversation st conversation then Inl TaskConversationMissing
      else Inr (sort_key tr_version (filter (\<lambda>r. tr_conversation_id r = conversation) (tx_revisions st))))"

section \<open>Sources\<close>

definition validatePostgresTaskStateSource ::
  "task_store \<Rightarrow> string \<Rightarrow> task_source \<Rightarrow> task_store_error option" where
  "validatePostgresTaskStateSource st conversation src =
     (let rid = trim_space (src_run_id src); mid = trim_space (src_message_id src)
      in if rid \<noteq> [] \<and> (rid, conversation) \<notin> set (tx_runs st)
         then Some (TaskSourceInvalid ''task state source run does not belong to conversation'')
         else if mid \<noteq> [] \<and> (mid, conversation) \<notin> set (tx_messages st)
         then Some (TaskSourceInvalid ''task state source message does not belong to conversation'')
         else None)"

definition NormalizeTaskStateSource :: "task_source \<Rightarrow> task_source" where
  "NormalizeTaskStateSource src =
     \<lparr>src_actor_type = (if trim_space (src_actor_type src) = [] then ''system'' else trim_space (src_actor_type src)),
      src_actor_id = trim_space (src_actor_id src), src_run_id = trim_space (src_run_id src),
      src_stage_id = trim_space (src_stage_id src), src_turn_id = trim_space (src_turn_id src),
      src_message_id = trim_space (src_message_id src)\<rparr>"

section \<open>Stored documents\<close>

text \<open>A \<open>jsonb\<close> column cannot hold a text with a NUL character.\<close>

definition item_texts :: "task_item \<Rightarrow> string list" where
  "item_texts x = [ti_id x, ti_title x, ti_details x, ti_status x] @ ti_artifact_refs x"

definition decision_texts :: "task_decision \<Rightarrow> string list" where
  "decision_texts x = [td_id x, td_statement x, td_rationale x, td_supersedes_id x]"

definition constraint_texts :: "task_constraint \<Rightarrow> string list" where
  "constraint_texts x = [tc_id x, tc_statement x]"

definition blocker_texts :: "task_blocker \<Rightarrow> string list" where
  "blocker_texts x = [tb_id x, tb_description x, tb_status x]"

definition state_texts :: "task_state \<Rightarrow> string list" where
  "state_texts st = [ts_workspace_id st, ts_conversation_id st, ts_goal st]
     @ concat (map item_texts (ts_tasks st)) @ concat (map decision_texts (ts_decisions st))
     @ concat (map constraint_texts (ts_constraints st)) @ concat (map blocker_texts (ts_blockers st))
     @ ts_artifact_refs st"

fun type_texts :: "task_operation_type \<Rightarrow> string list" where
  "type_texts (TaskStateOther s) = [s]"
| "type_texts _ = []"

definition option_texts :: "('a \<Rightarrow> string list) \<Rightarrow> 'a option \<Rightarrow> string list" where
  "option_texts f x = (case x of None \<Rightarrow> [] | Some v \<Rightarrow> f v)"

definition operation_texts :: "task_operation \<Rightarrow> string list" where
  "operation_texts op = type_texts (op_type op)
     @ [op_goal op, op_task_id op, op_task_status op, op_constraint_id op, op_blocker_id op, op_artifact_ref op]
     @ option_texts item_texts (op_task op) @ option_texts decision_texts (op_decision op)
     @ option_texts constraint_texts (op_constraint op) @ option_texts blocker_texts (op_blocker op)"

definition patch_texts :: "task_patch \<Rightarrow> string list" where
  "patch_texts p = concat (map operation_texts (tp_operations p))"

definition source_texts :: "task_source \<Rightarrow> string list" where
  "source_texts s = [src_actor_type s, src_actor_id s, src_run_id s, src_stage_id s, src_turn_id s, src_message_id s]"

definition storable :: "string list \<Rightarrow> bool" where
  "storable ts \<longleftrightarrow> (\<forall>s \<in> set ts. CHR 0x00 \<notin> set s)"

fun clone_type :: "task_operation_type \<Rightarrow> task_operation_type" where
  "clone_type (TaskStateOther s) = TaskStateOther (sanitize_utf8 s)"
| "clone_type t = t"

definition clone_operation :: "task_operation \<Rightarrow> task_operation" where
  "clone_operation op =
     \<lparr>op_type = clone_type (op_type op), op_goal = sanitize_utf8 (op_goal op),
      op_task = map_option clone_item (op_task op), op_task_id = sanitize_utf8 (op_task_id op),
      op_task_status = sanitize_utf8 (op_task_status op), op_decision = map_option clone_decision (op_decision op),
      op_constraint = map_option clone_constraint (op_constraint op),
      op_constraint_id = sanitize_utf8 (op_constraint_id op), op_blocker = map_option clone_blocker (op_blocker op),
      op_blocker_id = sanitize_utf8 (op_blocker_id op), op_artifact_ref = sanitize_utf8 (op_artifact_ref op)\<rparr>"

definition clone_patch :: "task_patch \<Rightarrow> task_patch" where
  "clone_patch p = p\<lparr>tp_operations := map clone_operation (tp_operations p)\<rparr>"

definition clone_source :: "task_source \<Rightarrow> task_source" where
  "clone_source s =
     \<lparr>src_actor_type = sanitize_utf8 (src_actor_type s), src_actor_id = sanitize_utf8 (src_actor_id s),
      src_run_id = sanitize_utf8 (src_run_id s), src_stage_id = sanitize_utf8 (src_stage_id s),
      src_turn_id = sanitize_utf8 (src_turn_id s), src_message_id = sanitize_utf8 (src_message_id s)\<rparr>"

text \<open>
  A \<open>timestamptz\<close> column keeps microseconds; the driver drops the nanoseconds below. The instants inside
  of a \<open>jsonb\<close> document keep them.
\<close>

definition timestamptz :: "time \<Rightarrow> time" where
  "timestamptz t = t - t mod 1000"

text \<open>
  The row as it is read back, after its three documents have passed through JSON and its instant
  through the column \<open>created_at\<close>.
\<close>

definition stored_revision :: "task_revision \<Rightarrow> task_revision" where
  "stored_revision r = r\<lparr>tr_patch := clone_patch (tr_patch r), tr_state := decoded_task_state (tr_state r),
     tr_source := clone_source (tr_source r), tr_created_at := timestamptz (tr_created_at r)\<rparr>"

definition insert_revision :: "task_revision \<Rightarrow> task_store \<Rightarrow> task_store_error + task_store" where
  "insert_revision r st =
     (if \<not> storable (patch_texts (tr_patch r) @ state_texts (tr_state r) @ source_texts (tr_source r))
         \<or> tr_id r \<in> tr_id ` set (tx_revisions st)
         \<or> (\<exists>x \<in> set (tx_revisions st). tr_conversation_id x = tr_conversation_id r \<and> tr_version x = tr_version r)
      then Inl TaskRowRejected
      else Inr (st\<lparr>tx_revisions := tx_revisions st @ [stored_revision r]\<rparr>))"

section \<open>Applying a patch\<close>

text \<open>
  The state column is decoded over the empty state, so every field of the row replaces the empty
  one; \<open>goal\<close> is omitted when empty and then stays empty.
\<close>

definition current_task_state :: "task_store \<Rightarrow> string \<Rightarrow> string \<Rightarrow> task_state" where
  "current_task_state st workspace conversation =
     (case latest_revision st conversation of
        Some r \<Rightarrow> tr_state r | None \<Rightarrow> EmptyTaskState workspace conversation)"

definition apply_task_patch ::
  "(time \<Rightarrow> string) \<Rightarrow> string \<Rightarrow> time \<Rightarrow> string \<Rightarrow> task_patch \<Rightarrow> task_source \<Rightarrow> task_store
    \<Rightarrow> task_store_error + task_revision \<times> task_store" where
  "apply_task_patch layout new_id now conversation patch src st =
     (case map_of (tx_conversations st) conversation of
        None \<Rightarrow> Inl TaskConversationMissing
      | Some workspace \<Rightarrow>
          (case validatePostgresTaskStateSource st conversation src of
             Some e \<Rightarrow> Inl e
           | None \<Rightarrow>
               (let current = current_task_state st workspace conversation in
                if tp_expected_version patch \<noteq> ts_version current
                then Inl (TaskVersionConflict (tp_expected_version patch) (ts_version current))
                else
                  bind_result (map_error TaskPatchRejected (ApplyTaskStatePatch layout now current patch now))
                    (\<lambda>next.
                       (let r = \<lparr>tr_id = new_id, tr_workspace_id = NormalizeWorkspaceID workspace,
                              tr_conversation_id = conversation, tr_version = ts_version next,
                              tr_previous_version = ts_version current, tr_patch = patch, tr_state = next,
                              tr_source = NormalizeTaskStateSource src, tr_created_at = now\<rparr>
                        in bind_result (insert_revision r st) (\<lambda>st'. Inr (r, st')))))))"

section \<open>The service\<close>

text \<open>
  \<open>clean\<close> is the credential check on the patch and \<open>agent\<close> the lookup of a Run's agent. The third
  component is the event that is published, when there is a sink and a Run to publish it for.
\<close>

fun operation_type_text :: "task_operation_type \<Rightarrow> string" where
  "operation_type_text TaskStateSetGoal = ''set_goal''"
| "operation_type_text TaskStateClearGoal = ''clear_goal''"
| "operation_type_text TaskStateUpsertTask = ''upsert_task''"
| "operation_type_text TaskStateSetTaskStatus = ''set_task_status''"
| "operation_type_text TaskStateRemoveTask = ''remove_task''"
| "operation_type_text TaskStateAddDecision = ''add_decision''"
| "operation_type_text TaskStateUpsertConstraint = ''upsert_constraint''"
| "operation_type_text TaskStateRemoveConstraint = ''remove_constraint''"
| "operation_type_text TaskStateUpsertBlocker = ''upsert_blocker''"
| "operation_type_text TaskStateResolveBlocker = ''resolve_blocker''"
| "operation_type_text TaskStateRemoveBlocker = ''remove_blocker''"
| "operation_type_text TaskStateAddArtifactRef = ''add_artifact_ref''"
| "operation_type_text TaskStateRemoveArtifactRef = ''remove_artifact_ref''"
| "operation_type_text (TaskStateOther s) = s"

definition task_event :: "string \<Rightarrow> task_source \<Rightarrow> task_patch \<Rightarrow> task_revision \<Rightarrow> run_event" where
  "task_event conversation src patch r =
     zero_event\<lparr>ev_type := EventTaskStateUpdated, ev_run_id := src_run_id src,
       ev_conversation_id := conversation, ev_stage_id := src_stage_id src, ev_turn_id := src_turn_id src,
       ev_payload := stored_payload [''revision_id'' \<mapsto> VString (tr_id r), ''version'' \<mapsto> VInt64 (tr_version r),
         ''previous_version'' \<mapsto> VInt64 (tr_previous_version r),
         ''operation_types'' \<mapsto> VList (map (VString \<circ> operation_type_text \<circ> op_type) (tp_operations patch)),
         ''actor_type'' \<mapsto> VString (src_actor_type (tr_source r))],
       ev_timestamp := tr_created_at r\<rparr>"

definition with_actor :: "(string \<Rightarrow> string option) \<Rightarrow> task_source \<Rightarrow> task_source" where
  "with_actor agent src =
     (if src_run_id src \<noteq> [] \<and> src_actor_id src = []
      then (case agent (src_run_id src) of None \<Rightarrow> src | Some a \<Rightarrow> src\<lparr>src_actor_id := a\<rparr>)
      else src)"

definition service_apply ::
  "(time \<Rightarrow> string) \<Rightarrow> (task_patch \<Rightarrow> bool) \<Rightarrow> (string \<Rightarrow> string option) \<Rightarrow> bool \<Rightarrow> string \<Rightarrow> time
    \<Rightarrow> string \<Rightarrow> task_patch \<Rightarrow> task_source \<Rightarrow> task_store
    \<Rightarrow> task_store_error + task_revision \<times> task_store \<times> run_event option" where
  "service_apply layout clean agent sink new_id now conversation patch src st =
     (let conversation = trim_space conversation; src' = with_actor agent src in
      if \<not> clean patch then Inl TaskCredential
      else
        bind_result (apply_task_patch layout new_id now conversation patch src' st)
          (\<lambda>(r, st'). Inr (r, st',
             if sink \<and> src_run_id src' \<noteq> [] then Some (task_event conversation src' patch r) else None)))"

end
