(* ===== verification/Task_Wellformed.thy ===== *)
theory Task_Wellformed
  imports Task_History
begin

text \<open>
  Well-formed task states: texts trimmed and bounded, identifiers unique, decisions that supersede
  an earlier one. Every patch operation preserves them.
\<close>

section \<open>Well-formed states\<close>

definition text_ok :: "bool \<Rightarrow> nat \<Rightarrow> string \<Rightarrow> bool" where
  "text_ok required n s \<longleftrightarrow> (required \<longrightarrow> s \<noteq> []) \<and> trim_space s = s \<and> rune_count s \<le> n \<and> utf8_valid s"

definition refs_ok :: "string list \<Rightarrow> bool" where
  "refs_ok xs \<longleftrightarrow> distinct xs \<and> (\<forall>s \<in> set xs. text_ok True 500 s)"

definition item_wf :: "task_item \<Rightarrow> bool" where
  "item_wf x \<longleftrightarrow> text_ok True 128 (ti_id x) \<and> text_ok True 500 (ti_title x) \<and> text_ok False 2000 (ti_details x)
     \<and> validTaskItemStatus (ti_status x) \<and> refs_ok (ti_artifact_refs x) \<and> length (ti_artifact_refs x) \<le> 20"

definition decision_wf :: "task_decision \<Rightarrow> bool" where
  "decision_wf x \<longleftrightarrow> text_ok True 128 (td_id x) \<and> text_ok True 1000 (td_statement x)
     \<and> text_ok False 2000 (td_rationale x) \<and> text_ok False 128 (td_supersedes_id x)"

definition constraint_wf :: "task_constraint \<Rightarrow> bool" where
  "constraint_wf x \<longleftrightarrow> text_ok True 128 (tc_id x) \<and> text_ok True 1000 (tc_statement x)"

definition blocker_wf :: "task_blocker \<Rightarrow> bool" where
  "blocker_wf x \<longleftrightarrow> text_ok True 128 (tb_id x) \<and> text_ok True 1000 (tb_description x)
     \<and> tb_status x \<in> {TaskBlockerOpen, TaskBlockerResolved}"

text \<open>A decision supersedes none or an earlier one.\<close>

definition earlier_decisions :: "task_decision list \<Rightarrow> bool" where
  "earlier_decisions ds \<longleftrightarrow> (\<forall>i < length ds. td_supersedes_id (ds ! i) = []
     \<or> (\<exists>j < i. td_id (ds ! j) = td_supersedes_id (ds ! i)))"

definition task_state_wf :: "task_state \<Rightarrow> bool" where
  "task_state_wf st \<longleftrightarrow> text_ok False 2000 (ts_goal st)
     \<and> (\<forall>x \<in> set (ts_tasks st). item_wf x) \<and> distinct (map ti_id (ts_tasks st))
     \<and> (\<forall>x \<in> set (ts_decisions st). decision_wf x) \<and> distinct (map td_id (ts_decisions st))
     \<and> earlier_decisions (ts_decisions st)
     \<and> (\<forall>x \<in> set (ts_constraints st). constraint_wf x) \<and> distinct (map tc_id (ts_constraints st))
     \<and> (\<forall>x \<in> set (ts_blockers st). blocker_wf x) \<and> distinct (map tb_id (ts_blockers st))
     \<and> refs_ok (ts_artifact_refs st)
     \<and> utf8_valid (ts_workspace_id st) \<and> utf8_valid (ts_conversation_id st)"

text \<open>The texts of a decoded command are valid UTF-8.\<close>

definition operation_utf8 :: "task_operation \<Rightarrow> bool" where
  "operation_utf8 op \<longleftrightarrow> (\<forall>s \<in> set (operation_texts op). utf8_valid s)"

lemma earlier_decisions_Nil [simp]: "earlier_decisions []"
  by (simp add: earlier_decisions_def)

lemma earlier_decisions_snoc:
  "earlier_decisions (ds @ [d]) \<longleftrightarrow>
     earlier_decisions ds \<and> (td_supersedes_id d = [] \<or> td_supersedes_id d \<in> td_id ` set ds)"
proof -
  have old: "(ds @ [d]) ! i = ds ! i" if "i < length ds" for i using that by (simp add: nth_append)
  have "(\<exists>j < i. td_id ((ds @ [d]) ! j) = k) \<longleftrightarrow> (\<exists>j < i. td_id (ds ! j) = k)" if "i \<le> length ds" for i k
    using that old by (metis less_le_trans)
  then have "earlier_decisions (ds @ [d]) \<longleftrightarrow> earlier_decisions ds
      \<and> (td_supersedes_id d = [] \<or> (\<exists>j < length ds. td_id (ds ! j) = td_supersedes_id d))"
    unfolding earlier_decisions_def length_append_singleton All_less_Suc using old by auto
  moreover have "(\<exists>j < length ds. td_id (ds ! j) = td_supersedes_id d) \<longleftrightarrow> td_supersedes_id d \<in> td_id ` set ds"
    unfolding in_set_conv_nth image_iff by (metis nth_mem in_set_conv_nth)
  ultimately show ?thesis by blast
qed

section \<open>Normalisation yields well-formed texts\<close>

lemma normalizeTaskText_ok:
  "normalizeTaskText name v n required = Inr s \<Longrightarrow> utf8_valid v \<Longrightarrow> text_ok required n s"
  by (auto simp: normalizeTaskText_def text_ok_def Let_def split: if_splits)

lemma normalizeTaskID_ok: "normalizeTaskID name v = Inr s \<Longrightarrow> utf8_valid v \<Longrightarrow> text_ok True 128 s"
  unfolding normalizeTaskID_def by (rule normalizeTaskText_ok)

lemma normalize_strings_ok:
  "normalize_strings name 500 vs acc = Inr xs \<Longrightarrow> (\<forall>v \<in> set vs. utf8_valid v) \<Longrightarrow> refs_ok acc
    \<Longrightarrow> refs_ok xs \<and> length xs \<le> length acc + length vs"
proof (induction vs arbitrary: acc)
  case (Cons v vs)
  obtain n where n: "normalizeTaskText name v 500 True = Inr n" "normalize_strings name 500 vs (appendUnique acc n) = Inr xs"
    using Cons.prems(1) by (auto simp: bind_result_Inr)
  have "refs_ok (appendUnique acc n)"
    using normalizeTaskText_ok [OF n(1)] Cons.prems by (auto simp: refs_ok_def appendUnique_def)
  moreover have "length (appendUnique acc n) \<le> Suc (length acc)" by (simp add: appendUnique_def)
  ultimately show ?case using Cons.IH [OF n(2)] Cons.prems(2) by auto
qed simp

lemma normalizeTaskStrings_ok:
  assumes "normalizeTaskStrings name vs 20 500 = Inr xs" and "\<forall>v \<in> set vs. utf8_valid v"
  shows "refs_ok xs \<and> length xs \<le> 20"
  using assms normalize_strings_ok [of name vs "[]" xs]
  by (auto simp: normalizeTaskStrings_def refs_ok_def split: if_splits)

lemma normalizeTaskItem_wf:
  "normalizeTaskItem x = Inr y \<Longrightarrow> (\<forall>s \<in> set (item_texts x). utf8_valid s) \<Longrightarrow> item_wf y"
  unfolding normalizeTaskItem_def item_texts_def
  by (auto simp: bind_result_Inr Let_def item_wf_def split: if_split_asm
      intro: normalizeTaskID_ok normalizeTaskText_ok dest: normalizeTaskStrings_ok)

lemma text_ok_optional: "text_ok True n s \<Longrightarrow> text_ok False n s"
  by (simp add: text_ok_def)

lemma text_ok_Nil [simp]: "text_ok False n []"
  by (simp add: text_ok_def rune_count_def trim_space_def trim_left_def trim_right_def) code_simp

lemma normalizeTaskDecision_wf:
  "normalizeTaskDecision x = Inr y \<Longrightarrow> (\<forall>s \<in> set (decision_texts x). utf8_valid s) \<Longrightarrow> decision_wf y"
  unfolding normalizeTaskDecision_def decision_texts_def
  by (auto simp: bind_result_Inr decision_wf_def split: if_split_asm
      intro: normalizeTaskID_ok normalizeTaskText_ok dest: normalizeTaskID_ok [THEN text_ok_optional])

lemma normalizeTaskConstraint_wf:
  "normalizeTaskConstraint x = Inr y \<Longrightarrow> (\<forall>s \<in> set (constraint_texts x). utf8_valid s) \<Longrightarrow> constraint_wf y"
  unfolding normalizeTaskConstraint_def constraint_texts_def
  by (auto simp: bind_result_Inr constraint_wf_def intro: normalizeTaskID_ok normalizeTaskText_ok)

lemma normalizeTaskBlocker_wf:
  "normalizeTaskBlocker x = Inr y \<Longrightarrow> (\<forall>s \<in> set (blocker_texts x). utf8_valid s) \<Longrightarrow> blocker_wf y"
  unfolding normalizeTaskBlocker_def blocker_texts_def
  by (auto simp: bind_result_Inr Let_def blocker_wf_def split: if_split_asm
      intro: normalizeTaskID_ok normalizeTaskText_ok)

section \<open>The status loops\<close>

lemma set_task_status_None: "set_task_status xs i s = None \<longleftrightarrow> i \<notin> ti_id ` set xs"
  by (induction xs) auto

lemma set_task_status_keys: "set_task_status xs i s = Some ys \<Longrightarrow> map ti_id ys = map ti_id xs"
  by (induction xs arbitrary: ys) (auto split: if_split_asm)

lemma set_task_status_elements:
  "set_task_status xs i s = Some ys \<Longrightarrow> y \<in> set ys \<Longrightarrow> y \<in> set xs \<or> (\<exists>x \<in> set xs. y = x\<lparr>ti_status := s\<rparr>)"
  by (induction xs arbitrary: ys) (auto split: if_split_asm)

lemma set_task_status_lookup:
  "set_task_status xs i s = Some ys \<Longrightarrow> lookup_by ti_id ys
    = (lookup_by ti_id xs)(i := map_option (ti_status_update (\<lambda>_. s)) (lookup_by ti_id xs i))"
proof (induction xs arbitrary: ys)
  case (Cons x xs)
  then show ?case by (cases "ti_id x = i") (auto simp: fun_upd_def intro!: ext)
qed simp

lemma resolve_blocker_None: "resolve_blocker xs i = None \<longleftrightarrow> i \<notin> tb_id ` set xs"
  by (induction xs) auto

lemma resolve_blocker_keys: "resolve_blocker xs i = Some ys \<Longrightarrow> map tb_id ys = map tb_id xs"
  by (induction xs arbitrary: ys) (auto split: if_split_asm)

lemma resolve_blocker_elements:
  "resolve_blocker xs i = Some ys \<Longrightarrow> y \<in> set ys \<Longrightarrow> y \<in> set xs \<or> (\<exists>x \<in> set xs. y = x\<lparr>tb_status := TaskBlockerResolved\<rparr>)"
  by (induction xs arbitrary: ys) (auto split: if_split_asm)

lemma resolve_blocker_lookup:
  "resolve_blocker xs i = Some ys \<Longrightarrow> lookup_by tb_id ys
    = (lookup_by tb_id xs)(i := map_option (tb_status_update (\<lambda>_. TaskBlockerResolved)) (lookup_by tb_id xs i))"
proof (induction xs arbitrary: ys)
  case (Cons x xs)
  then show ?case by (cases "tb_id x = i") (auto simp: fun_upd_def intro!: ext)
qed simp

lemma remove_missing [simp]:
  "i \<notin> ti_id ` set xs \<Longrightarrow> removeTaskItem xs i = Inl (TaskNotFound ''task'' i)"
  "i \<notin> tc_id ` set cs \<Longrightarrow> removeConstraint cs i = Inl (TaskNotFound ''constraint'' i)"
  "i \<notin> tb_id ` set bs \<Longrightarrow> removeBlocker bs i = Inl (TaskNotFound ''blocker'' i)"
proof -
  show "i \<notin> ti_id ` set xs \<Longrightarrow> removeTaskItem xs i = Inl (TaskNotFound ''task'' i)" by (induction xs) auto
  show "i \<notin> tc_id ` set cs \<Longrightarrow> removeConstraint cs i = Inl (TaskNotFound ''constraint'' i)" by (induction cs) auto
  show "i \<notin> tb_id ` set bs \<Longrightarrow> removeBlocker bs i = Inl (TaskNotFound ''blocker'' i)" by (induction bs) auto
qed

section \<open>One operation\<close>

lemma utf8_operation:
  assumes "operation_utf8 op"
  shows "utf8_valid (op_goal op)" "utf8_valid (op_task_id op)" "utf8_valid (op_constraint_id op)"
    "utf8_valid (op_blocker_id op)" "utf8_valid (op_artifact_ref op)"
    "op_task op = Some x \<Longrightarrow> \<forall>s \<in> set (item_texts x). utf8_valid s"
    "op_decision op = Some d \<Longrightarrow> \<forall>s \<in> set (decision_texts d). utf8_valid s"
    "op_constraint op = Some c \<Longrightarrow> \<forall>s \<in> set (constraint_texts c). utf8_valid s"
    "op_blocker op = Some b \<Longrightarrow> \<forall>s \<in> set (blocker_texts b). utf8_valid s"
  using assms by (simp_all add: operation_utf8_def operation_texts_def option_texts_def)

lemma require_simps [simp]: "require w (Some v) = Inr v" "require w None = Inl (TaskMissing w)"
  by (simp_all add: require_def)

lemma require_Inr [simp]: "require w x = Inr v \<longleftrightarrow> x = Some v"
  by (simp add: require_def split: option.split)

lemma add_decision_wf:
  assumes "add_decision ds d = Inr ds'" and "decision_wf d" and "\<forall>x \<in> set ds. decision_wf x"
    and "distinct (map td_id ds)" and "earlier_decisions ds"
  shows "(\<forall>x \<in> set ds'. decision_wf x) \<and> distinct (map td_id ds') \<and> earlier_decisions ds'"
  using assms by (auto simp: add_decision_def containsDecision_def earlier_decisions_snoc split: if_split_asm)

lemma operation_wf:
  assumes "applyTaskStateOperation op st = Inr st'" and "task_state_wf st" and "operation_utf8 op"
  shows "task_state_wf st'"
proof -
  note u = utf8_operation [OF assms(3)]
  have wf: "\<forall>x \<in> set (ts_tasks st). item_wf x" "\<forall>x \<in> set (ts_blockers st). blocker_wf x"
    "\<forall>x \<in> set (ts_constraints st). constraint_wf x" "\<forall>x \<in> set (ts_decisions st). decision_wf x"
    using assms(2) by (simp_all add: task_state_wf_def)
  show ?thesis
  proof (cases "op_type op")
    case TaskStateSetGoal
    then show ?thesis
      using assms(1,2) text_ok_optional [OF normalizeTaskText_ok [OF _ u(1)]]
      by (auto simp: applyTaskStateOperation_def bind_result_Inr task_state_wf_def)
  next
    case TaskStateUpsertTask
    then obtain x y where x: "op_task op = Some x" "normalizeTaskItem x = Inr y"
      "st' = st\<lparr>ts_tasks := upsertTaskItem (ts_tasks st) y\<rparr>"
      using assms(1) by (auto simp: applyTaskStateOperation_def bind_result_Inr)
    then have "item_wf y" using normalizeTaskItem_wf u(6) by blast
    then show ?thesis
      using assms(2) x(3) task_items.upsert_set [of "ts_tasks st" y] task_items.upsert_distinct wf(1)
      by (auto simp: task_state_wf_def)
  next
    case TaskStateSetTaskStatus
    then obtain i items where "validTaskItemStatus (op_task_status op)"
      "set_task_status (ts_tasks st) i (op_task_status op) = Some items" "st' = st\<lparr>ts_tasks := items\<rparr>"
      using assms(1) by (auto simp: applyTaskStateOperation_def bind_result_Inr split: if_split_asm option.split_asm)
    moreover from this have "\<forall>x \<in> set items. item_wf x"
      using set_task_status_elements wf(1) by (fastforce simp: item_wf_def)
    ultimately show ?thesis
      using assms(2) set_task_status_keys by (simp add: task_state_wf_def)
  next
    case TaskStateRemoveTask
    then obtain i items where "removeTaskItem (ts_tasks st) i = Inr items" "st' = st\<lparr>ts_tasks := items\<rparr>"
      using assms(1) by (auto simp: applyTaskStateOperation_def bind_result_Inr)
    then show ?thesis
      using assms(2) task_items.remove_set [of "ts_tasks st" i items]
        task_items.remove_distinct [of "ts_tasks st" i items]
      by (auto simp: task_state_wf_def)
  next
    case TaskStateAddDecision
    then obtain x y ds where x: "op_decision op = Some x" "normalizeTaskDecision x = Inr y"
      "add_decision (ts_decisions st) y = Inr ds" "st' = st\<lparr>ts_decisions := ds\<rparr>"
      using assms(1) by (auto simp: applyTaskStateOperation_def bind_result_Inr)
    then have "decision_wf y" using normalizeTaskDecision_wf u(7) by blast
    then show ?thesis
      using add_decision_wf [OF x(3) _ wf(4)] assms(2) x(4) by (simp add: task_state_wf_def)
  next
    case TaskStateUpsertConstraint
    then obtain x y where x: "op_constraint op = Some x" "normalizeTaskConstraint x = Inr y"
      "st' = st\<lparr>ts_constraints := upsertConstraint (ts_constraints st) y\<rparr>"
      using assms(1) by (auto simp: applyTaskStateOperation_def bind_result_Inr)
    then have "constraint_wf y" using normalizeTaskConstraint_wf u(8) by blast
    then show ?thesis
      using assms(2) x(3) constraints.upsert_set [of "ts_constraints st" y] constraints.upsert_distinct wf(3)
      by (auto simp: task_state_wf_def)
  next
    case TaskStateRemoveConstraint
    then obtain i items where "removeConstraint (ts_constraints st) i = Inr items" "st' = st\<lparr>ts_constraints := items\<rparr>"
      using assms(1) by (auto simp: applyTaskStateOperation_def bind_result_Inr)
    then show ?thesis
      using assms(2) constraints.remove_set [of "ts_constraints st" i items]
        constraints.remove_distinct [of "ts_constraints st" i items]
      by (auto simp: task_state_wf_def)
  next
    case TaskStateUpsertBlocker
    then obtain x y where x: "op_blocker op = Some x" "normalizeTaskBlocker x = Inr y"
      "st' = st\<lparr>ts_blockers := upsertBlocker (ts_blockers st) y\<rparr>"
      using assms(1) by (auto simp: applyTaskStateOperation_def bind_result_Inr)
    then have "blocker_wf y" using normalizeTaskBlocker_wf u(9) by blast
    then show ?thesis
      using assms(2) x(3) blockers.upsert_set [of "ts_blockers st" y] blockers.upsert_distinct wf(2)
      by (auto simp: task_state_wf_def)
  next
    case TaskStateResolveBlocker
    then obtain i items where "resolve_blocker (ts_blockers st) i = Some items" "st' = st\<lparr>ts_blockers := items\<rparr>"
      using assms(1) by (auto simp: applyTaskStateOperation_def bind_result_Inr split: option.split_asm)
    moreover from this have "\<forall>x \<in> set items. blocker_wf x"
      using resolve_blocker_elements wf(2) by (fastforce simp: blocker_wf_def)
    ultimately show ?thesis
      using assms(2) resolve_blocker_keys by (simp add: task_state_wf_def)
  next
    case TaskStateRemoveBlocker
    then obtain i items where "removeBlocker (ts_blockers st) i = Inr items" "st' = st\<lparr>ts_blockers := items\<rparr>"
      using assms(1) by (auto simp: applyTaskStateOperation_def bind_result_Inr)
    then show ?thesis
      using assms(2) blockers.remove_set [of "ts_blockers st" i items]
        blockers.remove_distinct [of "ts_blockers st" i items]
      by (auto simp: task_state_wf_def)
  next
    case TaskStateAddArtifactRef
    then show ?thesis
      using assms(1,2) u(5) normalizeTaskText_ok [of "''artifact_ref''" "op_artifact_ref op" 500 True]
      by (auto simp: applyTaskStateOperation_def bind_result_Inr task_state_wf_def refs_ok_def appendUnique_def
          split: if_split_asm)
  next
    case TaskStateRemoveArtifactRef
    then show ?thesis
      using assms(1,2)
      by (auto simp: applyTaskStateOperation_def bind_result_Inr task_state_wf_def refs_ok_def removeString_def
          dest: notin_set_remove1)
  qed (use assms in \<open>auto simp: applyTaskStateOperation_def task_state_wf_def\<close>)
qed

end
