(* ===== verification/Task_Guarantees.thy ===== *)
theory Task_Guarantees
  imports Task_Wellformed
begin

text \<open>
  What the task state guarantees: a patch keeps the state well formed, the operations implement
  updates of finite maps, and the stored history replays to every state in it, with at most one
  patch applied per expected version.
\<close>

section \<open>Whole patches\<close>

lemma sanitized_text: "text_ok r n s \<Longrightarrow> sanitize_utf8 s = s"
  by (simp add: text_ok_def sanitize_valid)

lemmas sanitized_texts = sanitized_text [of True 128] sanitized_text [of True 500] sanitized_text [of True 1000]
  sanitized_text [of False 2000] sanitized_text [of False 128]

lemma sanitized_refs: "refs_ok xs \<Longrightarrow> map sanitize_utf8 xs = xs"
  by (auto simp: refs_ok_def sanitized_texts intro!: map_idI)

lemma sanitized_status:
  "validTaskItemStatus s \<Longrightarrow> sanitize_utf8 s = s"
  "s \<in> {TaskBlockerOpen, TaskBlockerResolved} \<Longrightarrow> sanitize_utf8 s = s"
proof -
  have "sanitize_utf8 TaskItemPending = TaskItemPending" "sanitize_utf8 TaskItemInProgress = TaskItemInProgress"
    "sanitize_utf8 TaskItemCompleted = TaskItemCompleted" "sanitize_utf8 TaskItemCanceled = TaskItemCanceled"
    by code_simp+
  then show "validTaskItemStatus s \<Longrightarrow> sanitize_utf8 s = s" by (auto simp: validTaskItemStatus_def)
  have "sanitize_utf8 TaskBlockerOpen = TaskBlockerOpen" "sanitize_utf8 TaskBlockerResolved = TaskBlockerResolved"
    by code_simp+
  then show "s \<in> {TaskBlockerOpen, TaskBlockerResolved} \<Longrightarrow> sanitize_utf8 s = s" by auto
qed

lemma cloned_elements:
  "item_wf x \<Longrightarrow> clone_item x = x" "decision_wf d \<Longrightarrow> clone_decision d = d"
  "constraint_wf c \<Longrightarrow> clone_constraint c = c" "blocker_wf b \<Longrightarrow> clone_blocker b = b"
  by (simp_all add: item_wf_def clone_item_def decision_wf_def clone_decision_def constraint_wf_def clone_constraint_def
      blocker_wf_def clone_blocker_def sanitized_texts sanitized_refs sanitized_status)

lemma decoded_wf: "task_state_wf st \<Longrightarrow> decoded_task_state st = st"
  by (simp add: task_state_wf_def decoded_task_state_def sanitized_texts sanitized_refs sanitize_valid map_idI
      cloned_elements)

text \<open>A state that has been decoded or produced by a patch can be encoded.\<close>

definition encodable :: "(time \<Rightarrow> string) \<Rightarrow> task_state \<Rightarrow> bool" where
  "encodable layout st \<longleftrightarrow> encode_task_state layout st \<noteq> None"

lemma cloned_wf: "task_state_wf st \<Longrightarrow> encodable layout st \<Longrightarrow> cloneTaskState layout st = st"
  by (auto simp: cloneTaskState_def encodable_def decoded_wf)

lemma operation_at_wf:
  "apply_operation_at i op st = Inr st' \<Longrightarrow> task_state_wf st \<Longrightarrow> operation_utf8 op \<Longrightarrow> task_state_wf st'"
  by (simp add: apply_operation_at_def operation_wf)

lemma operation_frame:
  "applyTaskStateOperation op st = Inr st' \<Longrightarrow> ts_workspace_id st' = ts_workspace_id st
     \<and> ts_conversation_id st' = ts_conversation_id st \<and> ts_schema_version st' = ts_schema_version st"
  by (cases "op_type op") (auto simp: applyTaskStateOperation_def bind_result_Inr split: if_split_asm option.split_asm)

lemma operations_frame:
  "fold_result apply_operation_at i ops st = Inr st' \<Longrightarrow> ts_workspace_id st' = ts_workspace_id st
     \<and> ts_conversation_id st' = ts_conversation_id st \<and> ts_schema_version st' = ts_schema_version st"
  by (erule fold_result_invariant [where P = "\<lambda>s. ts_workspace_id s = ts_workspace_id st
     \<and> ts_conversation_id s = ts_conversation_id st \<and> ts_schema_version s = ts_schema_version st"])
    (auto simp: apply_operation_at_def dest: operation_frame)

lemma patch_applied:
  assumes "ApplyTaskStatePatch layout clock st p t = Inr next"
  obtains start u where
    "start = (if ts_schema_version (cloneTaskState layout st) = 0
       then (cloneTaskState layout st)\<lparr>ts_schema_version := CurrentTaskStateSchemaVersion\<rparr> else cloneTaskState layout st)"
    "fold_result apply_operation_at 0 (tp_operations p) start = Inr u"
    "next = u\<lparr>ts_version := wrap64 (ts_version st + 1), ts_updated_at := (if t = 0 then clock else t)\<rparr>"
    "encodable layout next" "length (the (encode_task_state layout next)) \<le> MaxTaskStateBytes"
    "tp_expected_version p = ts_version st" "0 \<le> ts_version st" "tp_operations p \<noteq> []"
  using assms
  by (auto simp: ApplyTaskStatePatch_def Let_def bind_result_Inr encodable_def split: if_split_asm option.split_asm)

lemma patch_wf:
  assumes "ApplyTaskStatePatch layout clock st p t = Inr next" and "task_state_wf st" and "encodable layout st"
    and "\<forall>op \<in> set (tp_operations p). operation_utf8 op"
  shows "task_state_wf next" "encodable layout next" "ts_version next = wrap64 (ts_version st + 1)"
    "tp_expected_version p = ts_version st" "0 \<le> ts_version st"
    "length (the (encode_task_state layout next)) \<le> MaxTaskStateBytes"
    "ts_conversation_id next = ts_conversation_id st" "ts_workspace_id next = ts_workspace_id st"
proof -
  obtain start u where p: "start = (if ts_schema_version (cloneTaskState layout st) = 0
       then (cloneTaskState layout st)\<lparr>ts_schema_version := CurrentTaskStateSchemaVersion\<rparr> else cloneTaskState layout st)"
    "fold_result apply_operation_at 0 (tp_operations p) start = Inr u"
    "next = u\<lparr>ts_version := wrap64 (ts_version st + 1), ts_updated_at := (if t = 0 then clock else t)\<rparr>"
    "encodable layout next" "length (the (encode_task_state layout next)) \<le> MaxTaskStateBytes"
    "tp_expected_version p = ts_version st" "0 \<le> ts_version st"
    by (rule patch_applied [OF assms(1)])
  have "task_state_wf start"
    using assms(2) p(1) cloned_wf [OF assms(2,3)] by (simp add: task_state_wf_def split: if_split_asm)
  then have "task_state_wf u"
    using fold_result_invariant [OF p(2), of task_state_wf] operation_at_wf assms(4) by blast
  then show "task_state_wf next" by (simp add: p(3) task_state_wf_def)
  show "ts_conversation_id next = ts_conversation_id st" "ts_workspace_id next = ts_workspace_id st"
    using operations_frame [OF p(2)] p(1,3) cloned_wf [OF assms(2,3)] by (simp_all split: if_split_asm)
  show "ts_version next = wrap64 (ts_version st + 1)" by (simp add: p(3))
qed (use assms(1) in \<open>auto elim: patch_applied\<close>)

section \<open>The specification over maps\<close>

record task_facts =
  tf_goal :: string
  tf_tasks :: "string \<rightharpoonup> task_item"
  tf_decisions :: "string \<rightharpoonup> task_decision"
  tf_constraints :: "string \<rightharpoonup> task_constraint"
  tf_blockers :: "string \<rightharpoonup> task_blocker"
  tf_refs :: "string set"

definition facts_of :: "task_state \<Rightarrow> task_facts" where
  "facts_of st = \<lparr>tf_goal = ts_goal st, tf_tasks = lookup_by ti_id (ts_tasks st),
     tf_decisions = lookup_by td_id (ts_decisions st), tf_constraints = lookup_by tc_id (ts_constraints st),
     tf_blockers = lookup_by tb_id (ts_blockers st), tf_refs = set (ts_artifact_refs st)\<rparr>"

text \<open>An update or removal of a present entry.\<close>

definition present :: "string \<Rightarrow> ('k \<rightharpoonup> 'a) \<Rightarrow> 'k \<Rightarrow> ('k \<Rightarrow> string) \<Rightarrow> 'b \<Rightarrow> task_error + 'b" where
  "present what m k text v = (if m k = None then Inl (TaskNotFound what (text k)) else Inr v)"

definition spec_operation :: "task_operation \<Rightarrow> task_facts \<Rightarrow> task_error + task_facts" where
  "spec_operation op f =
     (case op_type op of
        TaskStateSetGoal \<Rightarrow>
          bind_result (normalizeTaskText ''goal'' (op_goal op) 2000 True) (\<lambda>goal. Inr (f\<lparr>tf_goal := goal\<rparr>))
      | TaskStateClearGoal \<Rightarrow> Inr (f\<lparr>tf_goal := []\<rparr>)
      | TaskStateUpsertTask \<Rightarrow>
          bind_result (require ''upsert_task requires task'' (op_task op)) (\<lambda>task.
          bind_result (normalizeTaskItem task) (\<lambda>x. Inr (f\<lparr>tf_tasks := (tf_tasks f)(ti_id x \<mapsto> x)\<rparr>)))
      | TaskStateSetTaskStatus \<Rightarrow>
          bind_result (normalizeTaskID ''task_id'' (op_task_id op)) (\<lambda>i.
            if \<not> validTaskItemStatus (op_task_status op)
            then Inl (TaskMissing ''set_task_status requires a valid task_status'')
            else present ''task'' (tf_tasks f) i id (f\<lparr>tf_tasks := (tf_tasks f)(i :=
              map_option (ti_status_update (\<lambda>_. op_task_status op)) (tf_tasks f i))\<rparr>))
      | TaskStateRemoveTask \<Rightarrow>
          bind_result (normalizeTaskID ''task_id'' (op_task_id op)) (\<lambda>i.
            present ''task'' (tf_tasks f) i id (f\<lparr>tf_tasks := (tf_tasks f)(i := None)\<rparr>))
      | TaskStateAddDecision \<Rightarrow>
          bind_result (require ''add_decision requires decision'' (op_decision op)) (\<lambda>d.
          bind_result (normalizeTaskDecision d) (\<lambda>x.
            if tf_decisions f (td_id x) \<noteq> None then Inl (TaskExists ''decision'' (td_id x))
            else if td_supersedes_id x \<noteq> [] \<and> tf_decisions f (td_supersedes_id x) = None
            then Inl (TaskNotFound ''superseded decision'' (td_supersedes_id x))
            else Inr (f\<lparr>tf_decisions := (tf_decisions f)(td_id x \<mapsto> x)\<rparr>)))
      | TaskStateUpsertConstraint \<Rightarrow>
          bind_result (require ''upsert_constraint requires constraint'' (op_constraint op)) (\<lambda>c.
          bind_result (normalizeTaskConstraint c) (\<lambda>x. Inr (f\<lparr>tf_constraints := (tf_constraints f)(tc_id x \<mapsto> x)\<rparr>)))
      | TaskStateRemoveConstraint \<Rightarrow>
          bind_result (normalizeTaskID ''constraint_id'' (op_constraint_id op)) (\<lambda>i.
            present ''constraint'' (tf_constraints f) i id (f\<lparr>tf_constraints := (tf_constraints f)(i := None)\<rparr>))
      | TaskStateUpsertBlocker \<Rightarrow>
          bind_result (require ''upsert_blocker requires blocker'' (op_blocker op)) (\<lambda>b.
          bind_result (normalizeTaskBlocker b) (\<lambda>x. Inr (f\<lparr>tf_blockers := (tf_blockers f)(tb_id x \<mapsto> x)\<rparr>)))
      | TaskStateResolveBlocker \<Rightarrow>
          bind_result (normalizeTaskID ''blocker_id'' (op_blocker_id op)) (\<lambda>i.
            present ''blocker'' (tf_blockers f) i id (f\<lparr>tf_blockers := (tf_blockers f)(i :=
              map_option (tb_status_update (\<lambda>_. TaskBlockerResolved)) (tf_blockers f i))\<rparr>))
      | TaskStateRemoveBlocker \<Rightarrow>
          bind_result (normalizeTaskID ''blocker_id'' (op_blocker_id op)) (\<lambda>i.
            present ''blocker'' (tf_blockers f) i id (f\<lparr>tf_blockers := (tf_blockers f)(i := None)\<rparr>))
      | TaskStateAddArtifactRef \<Rightarrow>
          bind_result (normalizeTaskText ''artifact_ref'' (op_artifact_ref op) 500 True) (\<lambda>v.
            Inr (f\<lparr>tf_refs := insert v (tf_refs f)\<rparr>))
      | TaskStateRemoveArtifactRef \<Rightarrow>
          bind_result (normalizeTaskText ''artifact_ref'' (op_artifact_ref op) 500 True) (\<lambda>v.
            Inr (f\<lparr>tf_refs := tf_refs f - {v}\<rparr>))
      | TaskStateOther s \<Rightarrow> Inl (TaskUnsupported (op_type op)))"

lemma facts_of_fields [simp]:
  "tf_goal (facts_of st) = ts_goal st" "tf_tasks (facts_of st) = lookup_by ti_id (ts_tasks st)"
  "tf_decisions (facts_of st) = lookup_by td_id (ts_decisions st)"
  "tf_constraints (facts_of st) = lookup_by tc_id (ts_constraints st)"
  "tf_blockers (facts_of st) = lookup_by tb_id (ts_blockers st)" "tf_refs (facts_of st) = set (ts_artifact_refs st)"
  by (simp_all add: facts_of_def)

lemma containsDecision_lookup: "containsDecision ds i \<longleftrightarrow> lookup_by td_id ds i \<noteq> None"
  by (simp add: containsDecision_def lookup_by_None)

lemma operation_refines:
  assumes "task_state_wf st"
  shows "map_sum id facts_of (applyTaskStateOperation op st) = spec_operation op (facts_of st)"
proof -
  have d: "distinct (map ti_id (ts_tasks st))" "distinct (map tc_id (ts_constraints st))"
    "distinct (map tb_id (ts_blockers st))" "distinct (ts_artifact_refs st)"
    using assms by (simp_all add: task_state_wf_def refs_ok_def)
  note defs = applyTaskStateOperation_def spec_operation_def present_def
  show ?thesis
  proof (cases "op_type op")
    case TaskStateUpsertTask
    then show ?thesis
      by (cases "op_task op") (simp_all add: defs bind_result_def facts_of_def task_items.upsert_lookup split: sum.split)
  next
    case TaskStateSetTaskStatus
    show ?thesis
    proof (cases "normalizeTaskID ''task_id'' (op_task_id op)")
      case (Inr i)
      then show ?thesis
        using TaskStateSetTaskStatus set_task_status_None [of "ts_tasks st" i "op_task_status op"]
        by (cases "set_task_status (ts_tasks st) i (op_task_status op)")
          (simp_all add: defs lookup_by_None facts_of_def set_task_status_lookup)
    qed (simp add: defs TaskStateSetTaskStatus)
  next
    case TaskStateRemoveTask
    show ?thesis
    proof (cases "normalizeTaskID ''task_id'' (op_task_id op)")
      case (Inr i)
      from d(1) show ?thesis
        by (cases rule: task_items.remove_cases [where k = i])
          (simp_all add: defs TaskStateRemoveTask Inr facts_of_def lookup_by_None)
    qed (simp add: defs TaskStateRemoveTask)
  next
    case TaskStateAddDecision
    then show ?thesis
      by (cases "op_decision op") (simp_all add: defs bind_result_def facts_of_def add_decision_def containsDecision_lookup
          lookup_by_snoc split: sum.split)
  next
    case TaskStateUpsertConstraint
    then show ?thesis
      by (cases "op_constraint op") (simp_all add: defs bind_result_def facts_of_def constraints.upsert_lookup split: sum.split)
  next
    case TaskStateRemoveConstraint
    show ?thesis
    proof (cases "normalizeTaskID ''constraint_id'' (op_constraint_id op)")
      case (Inr i)
      from d(2) show ?thesis
        by (cases rule: constraints.remove_cases [where k = i])
          (simp_all add: defs TaskStateRemoveConstraint Inr facts_of_def lookup_by_None)
    qed (simp add: defs TaskStateRemoveConstraint)
  next
    case TaskStateUpsertBlocker
    then show ?thesis
      by (cases "op_blocker op") (simp_all add: defs bind_result_def facts_of_def blockers.upsert_lookup split: sum.split)
  next
    case TaskStateResolveBlocker
    show ?thesis
    proof (cases "normalizeTaskID ''blocker_id'' (op_blocker_id op)")
      case (Inr i)
      then show ?thesis
        using TaskStateResolveBlocker resolve_blocker_None [of "ts_blockers st" i]
        by (cases "resolve_blocker (ts_blockers st) i")
          (simp_all add: defs lookup_by_None facts_of_def resolve_blocker_lookup)
    qed (simp add: defs TaskStateResolveBlocker)
  next
    case TaskStateRemoveBlocker
    show ?thesis
    proof (cases "normalizeTaskID ''blocker_id'' (op_blocker_id op)")
      case (Inr i)
      from d(3) show ?thesis
        by (cases rule: blockers.remove_cases [where k = i])
          (simp_all add: defs TaskStateRemoveBlocker Inr facts_of_def lookup_by_None)
    qed (simp add: defs TaskStateRemoveBlocker)
  next
    case TaskStateAddArtifactRef
    then show ?thesis
      by (auto simp: defs bind_result_def facts_of_def appendUnique_def split: sum.split)
  next
    case TaskStateRemoveArtifactRef
    then show ?thesis
      using d(4) by (auto simp: defs bind_result_def facts_of_def removeString_def split: sum.split)
  qed (simp_all add: defs bind_result_def facts_of_def split: sum.split)
qed

definition spec_at :: "nat \<Rightarrow> task_operation \<Rightarrow> task_facts \<Rightarrow> task_error + task_facts" where
  "spec_at i op f = map_error (TaskAt (Suc i)) (spec_operation op f)"

lemma operation_at_refines:
  "task_state_wf st \<Longrightarrow> map_sum id facts_of (apply_operation_at i op st) = spec_at i op (facts_of st)"
  using operation_refines [of st op]
  by (cases "applyTaskStateOperation op st") (simp_all add: apply_operation_at_def spec_at_def flip: operation_refines)

lemma operations_refine:
  "task_state_wf st \<Longrightarrow> \<forall>op \<in> set ops. operation_utf8 op \<Longrightarrow>
     map_sum id facts_of (fold_result apply_operation_at i ops st) = fold_result spec_at i ops (facts_of st)"
proof (induction ops arbitrary: i st)
  case (Cons op ops)
  note one = operation_at_refines [OF Cons.prems(1), of i op]
  show ?case
  proof (cases "apply_operation_at i op st")
    case (Inr u)
    then have "task_state_wf u" using operation_at_wf Cons.prems by simp
    then show ?thesis using Cons.IH [of u "Suc i"] Cons.prems(2) one Inr by (simp flip: one)
  qed (simp flip: one)
qed simp

section \<open>Histories\<close>

text \<open>
  The revisions of a conversation, each the result of applying its patch to the state before it.
\<close>

fun history :: "(time \<Rightarrow> string) \<Rightarrow> task_state \<Rightarrow> task_revision list \<Rightarrow> bool" where
  "history layout st [] = True"
| "history layout st (r # rs) \<longleftrightarrow>
     ApplyTaskStatePatch layout (ts_updated_at (tr_state r)) st (tr_patch r) (ts_updated_at (tr_state r))
       = Inr (tr_state r) \<and> tr_created_at r = timestamptz (ts_updated_at (tr_state r))
     \<and> tr_version r = ts_version st + 1 \<and> tr_previous_version r = ts_version st
     \<and> ts_version (tr_state r) = tr_version r \<and> task_state_wf (tr_state r) \<and> encodable layout (tr_state r)
     \<and> history layout (tr_state r) rs"

fun final_state :: "task_state \<Rightarrow> task_revision list \<Rightarrow> task_state" where
  "final_state st [] = st"
| "final_state st (r # rs) = final_state (tr_state r) rs"

lemma final_state_append [simp]: "final_state st (rs @ qs) = final_state (final_state st rs) qs"
  by (induction rs arbitrary: st) simp_all

lemma history_append:
  "history layout st (rs @ qs) \<longleftrightarrow> history layout st rs \<and> history layout (final_state st rs) qs"
  by (induction rs arbitrary: st) auto

lemma history_final:
  "history layout st rs \<Longrightarrow> task_state_wf st \<Longrightarrow> encodable layout st \<Longrightarrow>
     task_state_wf (final_state st rs) \<and> encodable layout (final_state st rs)
     \<and> ts_version (final_state st rs) = ts_version st + int (length rs)"
  by (induction rs arbitrary: st) auto

lemma history_versions:
  "history layout st rs \<Longrightarrow> r \<in> set rs \<Longrightarrow> ts_version st < tr_version r \<and> tr_version r \<le> ts_version st + int (length rs)"
  by (induction rs arbitrary: st) fastforce+

lemma history_increasing: "history layout st rs \<Longrightarrow> sorted (map tr_version rs) \<and> distinct (map tr_version rs)"
  by (induction rs arbitrary: st) (auto dest: history_versions)

lemma fold_latest:
  "history layout (tr_state r) rs \<Longrightarrow> ts_version (tr_state r) = tr_version r \<Longrightarrow>
     fold (\<lambda>x best. if tr_version best < tr_version x then x else best) rs r = last (r # rs)"
  by (induction rs arbitrary: r) auto

lemma final_state_last: "rs \<noteq> [] \<Longrightarrow> final_state st rs = tr_state (last rs)"
  by (induction rs arbitrary: st) auto

text \<open>The revisions of a conversation in the table.\<close>

definition revisions_of :: "task_store \<Rightarrow> string \<Rightarrow> task_revision list" where
  "revisions_of st c = filter (\<lambda>r. tr_conversation_id r = c) (tx_revisions st)"

lemma latest_revision_history:
  assumes "history layout st0 (revisions_of st c)"
  shows "latest_revision st c = (if revisions_of st c = [] then None else Some (last (revisions_of st c)))"
proof (cases "revisions_of st c")
  case (Cons r rs)
  then have "fold (\<lambda>x best. if tr_version best < tr_version x then x else best) rs r = last (r # rs)"
    using assms by (intro fold_latest [of layout]) simp_all
  then show ?thesis using Cons by (simp add: latest_revision_def revisions_of_def)
qed (simp add: latest_revision_def revisions_of_def)

lemma current_state_history:
  assumes "history layout (EmptyTaskState w c) (revisions_of st c)"
  shows "current_task_state st w c = final_state (EmptyTaskState w c) (revisions_of st c)"
  using latest_revision_history [OF assms] by (simp add: current_task_state_def final_state_last)

section \<open>The table\<close>

definition names_utf8 :: "task_store \<Rightarrow> bool" where
  "names_utf8 st \<longleftrightarrow> (\<forall>(c, w) \<in> set (tx_conversations st). utf8_valid c \<and> utf8_valid w)
     \<and> distinct (map fst (tx_conversations st))"

definition task_store_wf :: "(time \<Rightarrow> string) \<Rightarrow> task_store \<Rightarrow> bool" where
  "task_store_wf layout st \<longleftrightarrow> names_utf8 st \<and> (\<forall>(c, w) \<in> set (tx_conversations st).
     history layout (EmptyTaskState w c) (revisions_of st c))"

text \<open>
  Patches applied one after the other, from a table without revisions. The versions stay below
  \<open>2 ^ 63\<close>, and the texts of a decoded patch and of a source are valid UTF-8.
\<close>

definition patch_utf8 :: "task_patch \<Rightarrow> bool" where
  "patch_utf8 p \<longleftrightarrow> (\<forall>op \<in> set (tp_operations p). operation_utf8 op)"

inductive task_steps :: "(time \<Rightarrow> string) \<Rightarrow> task_store \<Rightarrow> task_store \<Rightarrow> bool" for layout where
  no_step: "task_steps layout st st"
| patch_step: "task_steps layout st st' \<Longrightarrow> patch_utf8 p \<Longrightarrow> tp_expected_version p < max_int64
    \<Longrightarrow> apply_task_patch layout i now c p src st' = Inr (r, st'') \<Longrightarrow> task_steps layout st st''"

lemma NormalizeWorkspaceID_utf8: "utf8_valid w \<Longrightarrow> utf8_valid (NormalizeWorkspaceID w)"
proof -
  have "utf8_valid DefaultWorkspaceID" by code_simp
  then show "utf8_valid w \<Longrightarrow> utf8_valid (NormalizeWorkspaceID w)"
    by (simp add: NormalizeWorkspaceID_def Let_def trim_space_valid)
qed

lemma EmptyTaskState_wf:
  assumes "utf8_valid w" and "utf8_valid c"
  shows "task_state_wf (EmptyTaskState w c)" "encodable layout (EmptyTaskState w c)"
  using assms
  by (simp_all add: task_state_wf_def EmptyTaskState_def refs_ok_def NormalizeWorkspaceID_utf8 trim_space_valid
      encodable_def encode_task_state_def json_time_def)

lemma clone_patch_utf8: "patch_utf8 p \<Longrightarrow> clone_patch p = p"
proof -
  have elements: "\<forall>s \<in> set (item_texts x). utf8_valid s \<Longrightarrow> clone_item x = x"
    "\<forall>s \<in> set (decision_texts d). utf8_valid s \<Longrightarrow> clone_decision d = d"
    "\<forall>s \<in> set (constraint_texts k). utf8_valid s \<Longrightarrow> clone_constraint k = k"
    "\<forall>s \<in> set (blocker_texts b). utf8_valid s \<Longrightarrow> clone_blocker b = b" for x d k b
    by (simp_all add: item_texts_def clone_item_def decision_texts_def clone_decision_def constraint_texts_def
        clone_constraint_def blocker_texts_def clone_blocker_def sanitize_valid map_idI)
  have "clone_operation op = op" if "operation_utf8 op" for op
  proof -
    have "\<forall>s \<in> set (type_texts (op_type op)). utf8_valid s" "utf8_valid (op_task_status op)"
      using that by (simp_all add: operation_utf8_def operation_texts_def)
    then have "clone_type (op_type op) = op_type op" "sanitize_utf8 (op_task_status op) = op_task_status op"
      by (cases "op_type op"; simp add: sanitize_valid)+
    then show ?thesis
      using utf8_operation [OF that] elements
      by (cases "op_task op"; cases "op_decision op"; cases "op_constraint op"; cases "op_blocker op")
        (simp_all add: clone_operation_def sanitize_valid)
  qed
  then show "patch_utf8 p \<Longrightarrow> clone_patch p = p" by (simp add: patch_utf8_def clone_patch_def map_idI)
qed

lemma apply_task_patch_Inr:
  assumes "apply_task_patch layout i now c p src st = Inr (r, st')"
  obtains w u where "map_of (tx_conversations st) c = Some w"
    "tp_expected_version p = ts_version (current_task_state st w c)"
    "ApplyTaskStatePatch layout now (current_task_state st w c) p now = Inr u"
    "tr_conversation_id r = c" "tr_version r = ts_version u" "tr_previous_version r = tp_expected_version p"
    "tr_patch r = p" "tr_state r = u" "tr_created_at r = now"
    "st' = st\<lparr>tx_revisions := tx_revisions st @ [stored_revision r]\<rparr>"
  using assms
  by (auto simp: apply_task_patch_def Let_def bind_result_Inr insert_revision_def
      split: option.split_asm if_split_asm)

lemma apply_task_patch_wf:
  assumes "apply_task_patch layout i now c p src st = Inr (r, st')" and "task_store_wf layout st"
    and "patch_utf8 p" and "tp_expected_version p < max_int64"
  shows "task_store_wf layout st'" "tx_conversations st' = tx_conversations st"
    "revisions_of st' d = revisions_of st d @ (if d = c then [stored_revision r] else [])"
    "tr_state (stored_revision r) = tr_state r" "tr_patch (stored_revision r) = p"
    "tr_version r = tp_expected_version p + 1"
proof -
  obtain w u where r: "map_of (tx_conversations st) c = Some w"
    "tp_expected_version p = ts_version (current_task_state st w c)"
    "ApplyTaskStatePatch layout now (current_task_state st w c) p now = Inr u"
    "tr_conversation_id r = c" "tr_version r = ts_version u" "tr_previous_version r = tp_expected_version p"
    "tr_patch r = p" "tr_state r = u" "tr_created_at r = now"
    "st' = st\<lparr>tx_revisions := tx_revisions st @ [stored_revision r]\<rparr>"
    by (rule apply_task_patch_Inr [OF assms(1)])
  let ?e = "EmptyTaskState w c"
  have cw: "(c, w) \<in> set (tx_conversations st)" using r(1) by (rule map_of_SomeD)
  have h: "history layout ?e (revisions_of st c)" and names: "utf8_valid w" "utf8_valid c"
    using assms(2) cw by (auto simp: task_store_wf_def names_utf8_def)
  have cur: "current_task_state st w c = final_state ?e (revisions_of st c)" by (rule current_state_history [OF h])
  have fin: "task_state_wf (final_state ?e (revisions_of st c))" "encodable layout (final_state ?e (revisions_of st c))"
    using history_final [OF h EmptyTaskState_wf [OF names]] by simp_all
  have at: "ts_updated_at u = now" by (rule patch_applied [OF r(3)]) simp
  note applied = patch_wf [OF r(3) [unfolded cur] fin]
  have v: "ts_version u = tp_expected_version p + 1"
    using applied(3,5) assms(3,4) r(2) cur wrap64_succ [of "ts_version (final_state ?e (revisions_of st c))"]
    by (simp add: patch_utf8_def min_int64_def)
  then show "tr_version r = tp_expected_version p + 1" by (simp add: r(5))
  have nwf: "task_state_wf u" "encodable layout u" using applied(1,2) assms(3) by (simp_all add: patch_utf8_def)
  show st: "tr_state (stored_revision r) = tr_state r" "tr_patch (stored_revision r) = p"
    by (simp_all add: stored_revision_def r(7,8) clone_patch_utf8 [OF assms(3)] decoded_wf [OF nwf(1)])
  show rev: "revisions_of st' d = revisions_of st d @ (if d = c then [stored_revision r] else [])" for d
    by (simp add: revisions_of_def r(4,10) stored_revision_def)
  show conv: "tx_conversations st' = tx_conversations st" by (simp add: r(10))
  have "history layout ?e (revisions_of st' c)"
    using h r(2,3,5,6,8,9) nwf st cur v at
    by (simp add: rev history_append stored_revision_def)
  moreover have "w' = w" if "(c, w') \<in> set (tx_conversations st)" for w'
    using that cw assms(2) by (auto simp: task_store_wf_def names_utf8_def dest: eq_key_imp_eq_value)
  ultimately show "task_store_wf layout st'"
    using assms(2) by (auto simp: task_store_wf_def conv rev names_utf8_def)
qed

lemma task_steps_wf:
  assumes "task_steps layout st st'" and "task_store_wf layout st"
  shows "task_store_wf layout st' \<and> tx_conversations st' = tx_conversations st
    \<and> (\<forall>c. \<exists>rs. revisions_of st' c = revisions_of st c @ rs)"
  using assms
proof (induction rule: task_steps.induct)
  case (patch_step st st' p i now c src r st'')
  then have wf: "task_store_wf layout st'" by simp
  note step = apply_task_patch_wf [OF patch_step.hyps(4) wf patch_step.hyps(2,3)]
  show ?case using patch_step.IH patch_step.prems step(1,2,3) by (metis append.assoc)
qed simp

lemma initial_store_wf:
  "names_utf8 st \<Longrightarrow> tx_revisions st = [] \<Longrightarrow> task_store_wf layout st"
  by (auto simp: task_store_wf_def revisions_of_def)

text \<open>
  Replaying the patches of a list of revisions, each at the instant that its stored state records:
  the column \<open>created_at\<close> has that instant without its nanoseconds.
\<close>

fun replay :: "(time \<Rightarrow> string) \<Rightarrow> task_state \<Rightarrow> task_revision list \<Rightarrow> task_error + task_state" where
  "replay layout st [] = Inr st"
| "replay layout st (r # rs) =
     bind_result (ApplyTaskStatePatch layout (ts_updated_at (tr_state r)) st (tr_patch r) (ts_updated_at (tr_state r)))
       (\<lambda>next. replay layout next rs)"

lemma replay_history: "history layout st rs \<Longrightarrow> replay layout st rs = Inr (final_state st rs)"
  by (induction rs arbitrary: st) simp_all

lemma replay_prefix:
  assumes "history layout st rs" and "n \<le> length rs"
  shows "replay layout st (take n rs) = Inr (if n = 0 then st else tr_state (rs ! (n - 1)))"
proof -
  have "history layout st (take n rs)"
    using assms(1) history_append [of layout st "take n rs" "drop n rs"] by simp
  then have "replay layout st (take n rs) = Inr (final_state st (take n rs))" by (rule replay_history)
  moreover have "final_state st (take n rs) = tr_state (rs ! (n - 1))" if "n \<noteq> 0"
    using that assms(2) final_state_last [of "take n rs" st] last_conv_nth [of "take n rs"]
    by (cases rs) simp_all
  ultimately show ?thesis by simp
qed

lemma history_version_list:
  "history layout st rs \<Longrightarrow> map tr_version rs = [ts_version st + 1..ts_version st + int (length rs)]"
proof (induction rs arbitrary: st)
  case (Cons r rs)
  have "map tr_version rs = [ts_version st + 1 + 1..ts_version st + int (length (r # rs))]"
    using Cons.IH [of "tr_state r"] Cons.prems by (simp add: add.assoc)
  then show ?case
    using upto_rec1 [of "ts_version st + 1" "ts_version st + int (length (r # rs))"] Cons.prems by simp
qed simp

text \<open>Numbered revisions are found by their number.\<close>

lemma revision_numbered:
  assumes "map tr_version (revisions_of st c) = [1..int (length (revisions_of st c))]" and "n < length (revisions_of st c)"
  shows "GetTaskStateRevision st c (int n + 1) = Inr (Some (revisions_of st c ! n))"
proof -
  let ?rs = "revisions_of st c"
  have v: "tr_version (?rs ! i) = int i + 1" if "i < length ?rs" for i
    using that assms(1) nth_map [of i ?rs tr_version] by simp
  have found: "find (\<lambda>r. tr_version r = int n + 1) ?rs = Some (?rs ! n)"
    using assms(2) v by (auto simp: find_Some_iff intro!: exI [of _ n])
  have "find (\<lambda>r. tr_conversation_id r = c \<and> tr_version r = v) xs
      = find (\<lambda>r. tr_version r = v) (filter (\<lambda>r. tr_conversation_id r = c) xs)" for v and xs :: "task_revision list"
    by (induction xs) auto
  then show ?thesis using found by (simp only: GetTaskStateRevision_def revisions_of_def option.case)
qed

lemma history_created:
  "history layout st rs \<Longrightarrow> n < length rs \<Longrightarrow> tr_created_at (rs ! n) = timestamptz (ts_updated_at (tr_state (rs ! n)))"
  by (induction rs arbitrary: st n) (auto simp: nth_Cons split: nat.split)

lemma listed_history:
  assumes "task_store_wf layout st" and "(c, w) \<in> set (tx_conversations st)"
  shows "history layout (EmptyTaskState w c) (revisions_of st c)"
    "ListTaskStateRevisions st c = Inr (revisions_of st c)"
    "GetTaskState st c = Inr (if revisions_of st c = [] then None
       else Some (final_state (EmptyTaskState w c) (revisions_of st c)))"
proof -
  show h: "history layout (EmptyTaskState w c) (revisions_of st c)"
    using assms by (auto simp: task_store_wf_def)
  have known: "known_conversation st c" using assms(2) by (force simp: known_conversation_def)
  show "ListTaskStateRevisions st c = Inr (revisions_of st c)"
    using known history_increasing [OF h] by (simp add: ListTaskStateRevisions_def revisions_of_def sort_key_id_if_sorted)
  show "GetTaskState st c = Inr (if revisions_of st c = [] then None
       else Some (final_state (EmptyTaskState w c) (revisions_of st c)))"
    using known latest_revision_history [OF h] by (simp add: GetTaskState_def final_state_last)
qed

section \<open>An example\<close>

definition blank_operation :: task_operation where
  "blank_operation = \<lparr>op_type = TaskStateClearGoal, op_goal = [], op_task = None, op_task_id = [],
     op_task_status = [], op_decision = None, op_constraint = None, op_constraint_id = [], op_blocker = None,
     op_blocker_id = [], op_artifact_ref = []\<rparr>"

definition goal_patch :: "int \<Rightarrow> task_patch" where
  "goal_patch v = \<lparr>tp_expected_version = v,
     tp_operations = [blank_operation\<lparr>op_type := TaskStateSetGoal, op_goal := '' ship ''\<rparr>,
       blank_operation\<lparr>op_type := TaskStateUpsertTask,
         op_task := Some \<lparr>ti_id = ''t'', ti_title = ''test'', ti_details = [], ti_status = [],
           ti_artifact_refs = [''r'', '' r'']\<rparr>\<rparr>]\<rparr>"

definition no_source :: task_source where
  "no_source = \<lparr>src_actor_type = [], src_actor_id = [], src_run_id = [], src_stage_id = [], src_turn_id = [],
     src_message_id = []\<rparr>"

definition task_tables :: task_store where
  "task_tables = \<lparr>tx_conversations = [(''c'', ''w'')], tx_runs = [], tx_messages = [], tx_revisions = []\<rparr>"

abbreviation no_layout :: "time \<Rightarrow> string" where "no_layout \<equiv> (\<lambda>_. [])"

lemma goal_patch_utf8: "patch_utf8 (goal_patch v)"
proof -
  have "\<forall>s \<in> set (patch_texts (goal_patch 0)). utf8_valid s" by code_simp
  then show ?thesis by (simp add: patch_utf8_def operation_utf8_def patch_texts_def goal_patch_def)
qed

lemma task_tables_names: "names_utf8 task_tables" "tx_revisions task_tables = []"
proof -
  have "utf8_valid ''c''" "utf8_valid ''w''" by code_simp+
  then show "names_utf8 task_tables" "tx_revisions task_tables = []"
    by (simp_all add: names_utf8_def task_tables_def)
qed

lemma goal_patch_applies:
  "\<exists>r st'. apply_task_patch no_layout ''r1'' 5 ''c'' (goal_patch 0) no_source task_tables = Inr (r, st')
     \<and> ts_goal (tr_state r) = ''ship''"
proof -
  have "case apply_task_patch no_layout ''r1'' 5 ''c'' (goal_patch 0) no_source task_tables of
      Inl _ \<Rightarrow> False | Inr (r, _) \<Rightarrow> ts_goal (tr_state r) = ''ship''"
    by code_simp
  then show ?thesis by (auto split: sum.split_asm)
qed

section \<open>Properties\<close>

text \<open>
  C17: A patch to a well-formed state is applied all or nothing: when it is accepted, the new state is
  well formed, at most 16000 bytes long and numbered by the next version, and its facts are what
  the specification over finite maps yields; when it is rejected, the specification fails with the
  same error, or the result could not be encoded within the limit.
\<close>

theorem ApplyTaskStatePatch_refines:
  assumes "task_state_wf st" and "encodable layout st" and "ts_schema_version st = CurrentTaskStateSchemaVersion"
    and "patch_utf8 p" and "tp_expected_version p = ts_version st" and "is_int64 (ts_version st)"
    and "0 \<le> ts_version st" and "ts_version st < max_int64"
    and "tp_operations p \<noteq> []" and "length (tp_operations p) \<le> 50"
  shows "case ApplyTaskStatePatch layout clock st p t of
      Inr st' \<Rightarrow> fold_result spec_at 0 (tp_operations p) (facts_of st) = Inr (facts_of st') \<and> task_state_wf st'
        \<and> ts_version st' = ts_version st + 1 \<and> ts_schema_version st' = CurrentTaskStateSchemaVersion
        \<and> (\<exists>text. encode_task_state layout st' = Some text \<and> length text \<le> MaxTaskStateBytes)
    | Inl e \<Rightarrow> fold_result spec_at 0 (tp_operations p) (facts_of st) = Inl e \<or> e = TaskEncode \<or> e = TaskTooLarge"
proof -
  have clone: "cloneTaskState layout st = st" by (rule cloned_wf [OF assms(1,2)])
  have fold: "map_sum id facts_of (fold_result apply_operation_at 0 (tp_operations p) st)
      = fold_result spec_at 0 (tp_operations p) (facts_of st)"
    using operations_refine [OF assms(1)] assms(4) by (simp add: patch_utf8_def)
  show ?thesis
  proof (cases "ApplyTaskStatePatch layout clock st p t")
    case (Inl e)
    then have "fold_result apply_operation_at 0 (tp_operations p) st = Inl e \<or> e = TaskEncode \<or> e = TaskTooLarge"
      using assms clone
      by (simp add: ApplyTaskStatePatch_def Let_def CurrentTaskStateSchemaVersion_def bind_result_Inl
          split: if_split_asm option.split_asm) auto
    then show ?thesis using fold Inl by (auto simp flip: fold)
  next
    case (Inr st')
    obtain start u where u: "start = (if ts_schema_version (cloneTaskState layout st) = 0
       then (cloneTaskState layout st)\<lparr>ts_schema_version := CurrentTaskStateSchemaVersion\<rparr> else cloneTaskState layout st)"
      "fold_result apply_operation_at 0 (tp_operations p) start = Inr u"
      "st' = u\<lparr>ts_version := wrap64 (ts_version st + 1), ts_updated_at := (if t = 0 then clock else t)\<rparr>"
      by (rule patch_applied [OF Inr])
    have start: "start = st" using u(1) clone by (simp add: CurrentTaskStateSchemaVersion_def assms(3))
    have "fold_result spec_at 0 (tp_operations p) (facts_of st) = Inr (facts_of st')"
      using fold u(2,3) by (simp add: start facts_of_def flip: fold)
    moreover have "ts_schema_version st' = CurrentTaskStateSchemaVersion"
      using operations_frame [OF u(2)] by (simp add: u(3) start assms(3))
    ultimately show ?thesis
      using patch_wf [OF Inr assms(1,2)] assms(4,6,8) wrap64_succ [of "ts_version st"] Inr
      by (auto simp: patch_utf8_def encodable_def)
  qed
qed

theorem ApplyTaskStatePatch_refines_witness:
  "\<exists>st'. ApplyTaskStatePatch no_layout 5 (EmptyTaskState ''w'' ''c'') (goal_patch 0) 5 = Inr st'
     \<and> tf_tasks (facts_of st') = [''t'' \<mapsto> \<lparr>ti_id = ''t'', ti_title = ''test'', ti_details = [],
         ti_status = TaskItemPending, ti_artifact_refs = [''r'']\<rparr>]
     \<and> task_state_wf st' \<and> ts_version st' = 1"
proof -
  let ?e = "EmptyTaskState ''w'' ''c''"
  have "utf8_valid ''c''" "utf8_valid ''w''" by code_simp+
  note wf = EmptyTaskState_wf [OF this(2,1)]
  have e: "ts_version ?e = 0" "ts_schema_version ?e = CurrentTaskStateSchemaVersion"
    by (simp_all add: EmptyTaskState_def)
  have "case ApplyTaskStatePatch no_layout 5 ?e (goal_patch 0) 5 of Inl _ \<Rightarrow> False
      | Inr s \<Rightarrow> ts_tasks s = [\<lparr>ti_id = ''t'', ti_title = ''test'', ti_details = [],
         ti_status = TaskItemPending, ti_artifact_refs = [''r'']\<rparr>]"
    by code_simp
  then obtain st' where s: "ApplyTaskStatePatch no_layout 5 ?e (goal_patch 0) 5 = Inr st'"
    "ts_tasks st' = [\<lparr>ti_id = ''t'', ti_title = ''test'', ti_details = [],
         ti_status = TaskItemPending, ti_artifact_refs = [''r'']\<rparr>]"
    by (auto split: sum.split_asm)
  have "task_state_wf st' \<and> ts_version st' = 1"
    using ApplyTaskStatePatch_refines [where clock = 5 and t = 5, OF wf(1) wf(2) [of no_layout] e(2) goal_patch_utf8 [of 0]] s(1)
    by (simp add: e goal_patch_def min_int64_def max_int64_def)
  moreover have "lookup_by ti_id (ts_tasks st') = [''t'' \<mapsto> \<lparr>ti_id = ''t'', ti_title = ''test'', ti_details = [],
         ti_status = TaskItemPending, ti_artifact_refs = [''r'']\<rparr>]"
    by (simp add: s(2) fun_eq_iff)
  ultimately show ?thesis using s(1) by simp
qed

text \<open>
  C18: The history is the state: whatever patches have been applied to the conversations of a Workspace,
  the revisions of each conversation are numbered 1, 2, ... without a gap and can be fetched by
  these numbers, replaying the first \<open>n\<close> patches from the empty state yields exactly the state that
  revision \<open>n\<close> stores, for every \<open>n\<close>, and the current state is the one of the last revision. A patch is
  replayed at the instant that its stored state records; \<open>created_at\<close> has it in microseconds only.
\<close>

theorem task_history_replays:
  assumes "names_utf8 st0" and "tx_revisions st0 = []" and "task_steps layout st0 st"
    and "(c, w) \<in> set (tx_conversations st0)"
  shows "\<exists>rs. ListTaskStateRevisions st c = Inr rs \<and> map tr_version rs = [1..int (length rs)]
    \<and> (\<forall>n < length rs. GetTaskStateRevision st c (int n + 1) = Inr (Some (rs ! n))
         \<and> replay layout (EmptyTaskState w c) (take (Suc n) rs) = Inr (tr_state (rs ! n))
         \<and> tr_created_at (rs ! n) = timestamptz (ts_updated_at (tr_state (rs ! n))))
    \<and> GetTaskState st c = Inr (if rs = [] then None else Some (tr_state (last rs)))"
proof -
  let ?e = "EmptyTaskState w c"
  have wf: "task_store_wf layout st" "(c, w) \<in> set (tx_conversations st)"
    using task_steps_wf [OF assms(3) initial_store_wf [OF assms(1,2)]] assms(4) by simp_all
  note l = listed_history [OF wf]
  let ?rs = "revisions_of st c"
  have versions: "map tr_version ?rs = [1..int (length ?rs)]"
    using history_version_list [OF l(1)] by (simp add: EmptyTaskState_def)
  have "GetTaskStateRevision st c (int n + 1) = Inr (Some (?rs ! n))
      \<and> replay layout ?e (take (Suc n) ?rs) = Inr (tr_state (?rs ! n))
      \<and> tr_created_at (?rs ! n) = timestamptz (ts_updated_at (tr_state (?rs ! n)))" if "n < length ?rs" for n
    using that revision_numbered [OF versions] replay_prefix [OF l(1), of "Suc n"] history_created [OF l(1)]
    by simp
  then show ?thesis using l(2,3) versions by (auto simp: final_state_last)
qed

theorem task_history_replays_witness:
  "\<exists>st rs. task_steps no_layout task_tables st \<and> ListTaskStateRevisions st ''c'' = Inr rs \<and> length rs = 1
     \<and> replay no_layout (EmptyTaskState ''w'' ''c'') (take 1 rs) = Inr (tr_state (rs ! 0))
     \<and> ts_goal (tr_state (rs ! 0)) = ''ship''"
proof -
  obtain r st where s: "apply_task_patch no_layout ''r1'' 5 ''c'' (goal_patch 0) no_source task_tables = Inr (r, st)"
    "ts_goal (tr_state r) = ''ship''"
    using goal_patch_applies by blast
  have v: "tp_expected_version (goal_patch 0) < max_int64" by (simp add: goal_patch_def max_int64_def)
  have t: "task_steps no_layout task_tables st" by (rule patch_step [OF no_step goal_patch_utf8 [of 0] v s(1)])
  note wf = apply_task_patch_wf [OF s(1) initial_store_wf [OF task_tables_names] goal_patch_utf8 v]
  have c: "(''c'', ''w'') \<in> set (tx_conversations task_tables)" by (simp add: task_tables_def)
  have "revisions_of st ''c'' = [stored_revision r]" "tr_state (stored_revision r) = tr_state r"
    using wf(3) [of "''c''"] wf(4) by (simp_all add: revisions_of_def task_tables_def)
  moreover have "ListTaskStateRevisions st ''c'' = Inr (revisions_of st ''c'')"
    by (rule listed_history(2) [OF wf(1)]) (use c wf(2) in simp)
  ultimately show ?thesis
    using task_history_replays [OF task_tables_names t c] t s(2) by fastforce
qed

text \<open>
  Optimistic concurrency: once a patch has been applied, no other patch of the conversation with
  the same expected version is, whatever else has happened in between.
\<close>

theorem task_patch_race:
  assumes "names_utf8 st0" and "tx_revisions st0 = []" and "task_steps layout st0 st"
    and "patch_utf8 p" and "tp_expected_version p < max_int64"
    and "apply_task_patch layout i now c p src st = Inr (r, st1)" and "task_steps layout st1 st2"
    and "tp_expected_version p' = tp_expected_version p"
  shows "\<exists>e. apply_task_patch layout i' now' c p' src' st2 = Inl e"
proof (cases "apply_task_patch layout i' now' c p' src' st2")
  case (Inr rs)
  obtain r' st3 where s: "apply_task_patch layout i' now' c p' src' st2 = Inr (r', st3)" using Inr by (metis prod.exhaust)
  have wf: "task_store_wf layout st"
    using task_steps_wf [OF assms(3) initial_store_wf [OF assms(1,2)]] by simp
  note one = apply_task_patch_wf [OF assms(6) wf assms(4,5)]
  have wf2: "task_store_wf layout st2" "tx_conversations st2 = tx_conversations st"
    using task_steps_wf [OF assms(7) one(1)] one(2) by simp_all
  obtain qs where qs: "revisions_of st2 c = revisions_of st1 c @ qs"
    using task_steps_wf [OF assms(7) one(1)] by blast
  obtain w where w: "map_of (tx_conversations st) c = Some w"
    "tp_expected_version p = ts_version (current_task_state st w c)"
    by (rule apply_task_patch_Inr [OF assms(6)])
  then have w2: "map_of (tx_conversations st2) c = Some w" "(c, w) \<in> set (tx_conversations st)"
    using wf2(2) by (auto dest: map_of_SomeD)
  have v2: "tp_expected_version p' = ts_version (current_task_state st2 w c)"
    using apply_task_patch_Inr [OF s] w2(1) by (metis option.inject)
  have h: "history layout (EmptyTaskState w c) (revisions_of st c)"
    "history layout (EmptyTaskState w c) (revisions_of st2 c)"
    using listed_history(1) wf wf2 w2(2) by simp_all
  have "utf8_valid w" "utf8_valid c" using wf w2(2) by (auto simp: task_store_wf_def names_utf8_def)
  note e = EmptyTaskState_wf [OF this]
  have "ts_version (current_task_state st w c) = ts_version (EmptyTaskState w c) + int (length (revisions_of st c))"
    "ts_version (current_task_state st2 w c) = ts_version (EmptyTaskState w c) + int (length (revisions_of st2 c))"
    using history_final [OF h(1) e] history_final [OF h(2) e] current_state_history [OF h(1)] current_state_history [OF h(2)]
    by simp_all
  then show ?thesis using v2 w(2) assms(8) qs one(3) [of c] by simp
qed simp

theorem task_patch_race_witness:
  "\<exists>r st1. apply_task_patch no_layout ''r1'' 5 ''c'' (goal_patch 0) no_source task_tables = Inr (r, st1)
     \<and> (\<exists>e. apply_task_patch no_layout ''r2'' 6 ''c'' (goal_patch 0) no_source st1 = Inl e)"
proof -
  obtain r st where s: "apply_task_patch no_layout ''r1'' 5 ''c'' (goal_patch 0) no_source task_tables = Inr (r, st)"
    using goal_patch_applies by blast
  have "tp_expected_version (goal_patch 0) < max_int64" by (simp add: goal_patch_def max_int64_def)
  from task_patch_race [OF task_tables_names no_step goal_patch_utf8 this s no_step refl] s show ?thesis by blast
qed

end
