(* ===== verification/Transactions.thy ===== *)
theory Transactions
  imports Prelude
begin

text \<open>
  Handlers that make several store transactions. Such a handler may fail after some of them have
  been committed, so its outcome is a result together with the store it leaves behind.
\<close>

type_synonym ('e, 'a, 's) handler = "'s \<Rightarrow> ('e + 'a) \<times> 's"

text \<open>One transaction: it commits or leaves the store as it is.\<close>

definition transaction :: "('s \<Rightarrow> 'e + 'a \<times> 's) \<Rightarrow> ('e, 'a, 's) handler" where
  "transaction f st = (case f st of Inl e \<Rightarrow> (Inl e, st) | Inr (x, st') \<Rightarrow> (Inr x, st'))"

definition answer :: "'a \<Rightarrow> ('e, 'a, 's) handler" where
  "answer x st = (Inr x, st)"

definition fail :: "'e \<Rightarrow> ('e, 'a, 's) handler" where
  "fail e st = (Inl e, st)"

definition from_result :: "'e + 'a \<Rightarrow> ('e, 'a, 's) handler" where
  "from_result r st = (r, st)"

definition and_then :: "('e, 'a, 's) handler \<Rightarrow> ('a \<Rightarrow> ('e, 'b, 's) handler) \<Rightarrow> ('e, 'b, 's) handler" where
  "and_then m f st = (case m st of (Inl e, st') \<Rightarrow> (Inl e, st') | (Inr x, st') \<Rightarrow> f x st')"

text \<open>A step whose error is dropped.\<close>

definition ignoring :: "('e, 'a, 's) handler \<Rightarrow> ('e, unit, 's) handler" where
  "ignoring m st = (Inr (), snd (m st))"

text \<open>What is done before an error is returned.\<close>

definition on_error :: "('e, 'a, 's) handler \<Rightarrow> ('e \<Rightarrow> ('e, unit, 's) handler) \<Rightarrow> ('e, 'a, 's) handler" where
  "on_error m h st = (case m st of (Inl e, st') \<Rightarrow> (Inl e, snd (h e st')) | (Inr x, st') \<Rightarrow> (Inr x, st'))"

lemma transaction_Inr [simp]: "transaction f st = (Inr x, st') \<longleftrightarrow> f st = Inr (x, st')"
  by (auto simp: transaction_def split: sum.splits)

lemma transaction_Inl: "transaction f st = (Inl e, st') \<longleftrightarrow> f st = Inl e \<and> st' = st"
  by (auto simp: transaction_def split: sum.splits)

lemma answer_simps [simp]: "answer x st = (Inr y, st') \<longleftrightarrow> y = x \<and> st' = st" "answer x st \<noteq> (Inl e, st')"
  by (auto simp: answer_def)

lemma fail_simps [simp]: "fail e st \<noteq> (Inr y, st')" "fail e st = (Inl d, st') \<longleftrightarrow> d = e \<and> st' = st"
  by (auto simp: fail_def)

lemma from_result_simps [simp]: "from_result r st = (q, st') \<longleftrightarrow> q = r \<and> st' = st"
  by (auto simp: from_result_def)

lemma and_then_Inr:
  "and_then m f st = (Inr y, st') \<longleftrightarrow> (\<exists>x u. m st = (Inr x, u) \<and> f x u = (Inr y, st'))"
  by (auto simp: and_then_def split: prod.splits sum.splits)

lemma and_then_run: "m st = (Inr x, u) \<Longrightarrow> f x u = (Inr y, v) \<Longrightarrow> and_then m f st = (Inr y, v)"
  by (simp add: and_then_def)

lemma on_error_Inr [simp]: "on_error m h st = (Inr x, st') \<longleftrightarrow> m st = (Inr x, st')"
  by (auto simp: on_error_def split: prod.splits sum.splits)

text \<open>A handler that keeps \<open>P\<close> whether it succeeds or fails.\<close>

definition keeps :: "('s \<Rightarrow> bool) \<Rightarrow> ('e, 'a, 's) handler \<Rightarrow> bool" where
  "keeps P m \<longleftrightarrow> (\<forall>st. P st \<longrightarrow> P (snd (m st)))"

lemma keeps_transaction: "(\<And>st x st'. P st \<Longrightarrow> f st = Inr (x, st') \<Longrightarrow> P st') \<Longrightarrow> keeps P (transaction f)"
  by (auto simp: keeps_def transaction_def split: sum.splits)

lemma keeps_answer [simp]: "keeps P (answer x)" and keeps_fail [simp]: "keeps P (fail e)"
  and keeps_from_result [simp]: "keeps P (from_result r)"
  by (simp_all add: keeps_def answer_def fail_def from_result_def)

lemma keeps_and_then: "keeps P m \<Longrightarrow> (\<And>x. keeps P (f x)) \<Longrightarrow> keeps P (and_then m f)"
  unfolding keeps_def and_then_def by (force split: prod.splits sum.splits)

lemma keeps_on_error: "keeps P m \<Longrightarrow> (\<And>e. keeps P (h e)) \<Longrightarrow> keeps P (on_error m h)"
  unfolding keeps_def on_error_def by (force split: prod.splits sum.splits)

lemma keeps_ignoring: "keeps P m \<Longrightarrow> keeps P (ignoring m)"
  by (simp add: keeps_def ignoring_def)

lemma keeps_if: "keeps P m \<Longrightarrow> keeps P n \<Longrightarrow> keeps P (if b then m else n)"
  by simp

text \<open>
  Pre- and postconditions: from \<open>P\<close> the handler ends in \<open>Q\<close> with its answer, or in \<open>I\<close> with an error.
\<close>

definition triple ::
  "('s \<Rightarrow> bool) \<Rightarrow> ('e, 'a, 's) handler \<Rightarrow> ('a \<Rightarrow> 's \<Rightarrow> bool) \<Rightarrow> ('s \<Rightarrow> bool) \<Rightarrow> bool" where
  "triple P m Q I \<longleftrightarrow> (\<forall>st. P st \<longrightarrow> (case m st of (Inr x, u) \<Rightarrow> Q x u | (Inl e, u) \<Rightarrow> I u))"

lemma triple_transaction:
  assumes "\<And>st x st'. P st \<Longrightarrow> f st = Inr (x, st') \<Longrightarrow> Q x st'" and "\<And>st. P st \<Longrightarrow> I st"
  shows "triple P (transaction f) Q I"
  using assms by (auto simp: triple_def transaction_def split: sum.splits)

lemma triple_answer: "(\<And>st. P st \<Longrightarrow> Q x st) \<Longrightarrow> triple P (answer x) Q I"
  by (simp add: triple_def answer_def)

lemma triple_fail: "(\<And>st. P st \<Longrightarrow> I st) \<Longrightarrow> triple P (fail e) Q I"
  by (simp add: triple_def fail_def)

lemma triple_and_then: "triple P m Q I \<Longrightarrow> (\<And>x. triple (Q x) (f x) R I) \<Longrightarrow> triple P (and_then m f) R I"
  unfolding triple_def and_then_def by (fastforce split: prod.splits sum.splits)

lemma triple_keeps: "keeps P m \<Longrightarrow> triple P m (\<lambda>_. P) P"
  by (auto simp: triple_def keeps_def split: prod.splits sum.splits)

lemma triple_weaken: "triple P m Q I \<Longrightarrow> (\<And>st. P' st \<Longrightarrow> P st) \<Longrightarrow> (\<And>x st. Q x st \<Longrightarrow> Q' x st) \<Longrightarrow> triple P' m Q' I"
  unfolding triple_def by (fastforce split: prod.splits sum.splits)

lemma triple_run: "triple P m (\<lambda>_. I) I \<Longrightarrow> P st \<Longrightarrow> I (snd (m st))"
  unfolding triple_def by (fastforce split: prod.splits sum.splits)

end
