(* ===== verification/Checkpoints.thy ===== *)
theory Checkpoints
  imports Tool_Effects Transactions
begin

text \<open>
  Stage checkpoints: the rows (\<open>store/postgres_checkpoints.go\<close>, \<open>store/checkpoint_records.go\<close>), the
  provider that records stage transitions and restores an interrupted Run
  (\<open>checkpoint/provider.go\<close>) and its plan (\<open>checkpoint/restore_plan.go\<close>). Hashes and the JSON of
  the frozen snapshot are parameters. Every store call is one transaction; \<open>ids\<close> are the new
  identifiers in the order of the calls, \<open>now\<close> is the clock.
\<close>

section \<open>Rows\<close>

datatype checkpoint_error =
    CheckpointRejected string
  | CheckpointStore store_error
  | SnapshotMissing
  | SnapshotEncoding
  | CheckpointRunMissing
  | CheckpointExists string
  | CheckpointEvent run_event_type
  | CheckpointStale string
  | NeedsReconciliation string string
  | UnknownCheckpointStatus checkpoint_status

definition ValidateStageCheckpoint :: "stage_checkpoint \<Rightarrow> checkpoint_error option" where
  "ValidateStageCheckpoint c =
     (if trim_space (cp_provider c) = [] \<or> trim_space (cp_run_id c) = [] \<or> trim_space (cp_stage_id c) = []
      then Some (CheckpointRejected ''checkpoint requires provider, run_id, and stage_id'')
      else if cp_status c = CheckpointOther [] \<or> cp_input_hash c = [] \<or> cp_snapshot_hash c = [] \<or> cp_tools_hash c = []
      then Some (CheckpointRejected ''checkpoint requires status and state hashes'')
      else None)"

fun checkpointTransitionAllowed :: "checkpoint_status \<Rightarrow> checkpoint_status \<Rightarrow> bool" where
  "checkpointTransitionAllowed current next \<longleftrightarrow> current = next
     \<or> (case current of
          CheckpointPrepared \<Rightarrow> next = CheckpointExecuting \<or> next = CheckpointNeedsReconciliation
        | CheckpointExecuting \<Rightarrow> next = CheckpointCommitted \<or> next = CheckpointNeedsReconciliation
        | CheckpointNeedsReconciliation \<Rightarrow> next = CheckpointCompensated
        | _ \<Rightarrow> False)"

definition ValidateCheckpointUpdate :: "stage_checkpoint \<Rightarrow> stage_checkpoint \<Rightarrow> checkpoint_error option" where
  "ValidateCheckpointUpdate existing next =
     (if cp_provider existing \<noteq> cp_provider next \<or> cp_input_hash existing \<noteq> cp_input_hash next
         \<or> cp_snapshot_hash existing \<noteq> cp_snapshot_hash next \<or> cp_tools_hash existing \<noteq> cp_tools_hash next
      then Some (CheckpointRejected ''checkpoint immutable state changed'')
      else if cp_event_cursor next < cp_event_cursor existing
      then Some (CheckpointRejected ''checkpoint event cursor cannot move backwards'')
      else if \<not> checkpointTransitionAllowed (cp_status existing) (cp_status next)
      then Some (CheckpointRejected ''invalid checkpoint status transition'')
      else None)"

definition checkpoint_key :: "stage_checkpoint \<Rightarrow> string \<times> string" where
  "checkpoint_key c = (cp_run_id c, cp_stage_id c)"

definition getStageCheckpoint :: "run_store \<Rightarrow> string \<Rightarrow> string \<Rightarrow> stage_checkpoint option" where
  "getStageCheckpoint st rid stage = lookup_by checkpoint_key (rs_checkpoints st) (rid, stage)"

definition ListStageCheckpoints :: "run_store \<Rightarrow> string \<Rightarrow> stage_checkpoint list" where
  "ListStageCheckpoints st rid =
     sort_key cp_event_cursor (sort_key cp_stage_id (filter (\<lambda>c. cp_run_id c = rid) (rs_checkpoints st)))"

text \<open>The row after \<open>ON CONFLICT (run_id, stage_id) DO UPDATE\<close>.\<close>

definition updated_checkpoint :: "time \<Rightarrow> stage_checkpoint \<Rightarrow> stage_checkpoint \<Rightarrow> stage_checkpoint" where
  "updated_checkpoint now existing c =
     existing\<lparr>cp_status := cp_status c, cp_output_hash := cp_output_hash c, cp_event_cursor := cp_event_cursor c,
       cp_error := cp_error c, cp_updated_at := now\<rparr>"

definition put_checkpoint :: "stage_checkpoint \<Rightarrow> run_store \<Rightarrow> run_store" where
  "put_checkpoint c st =
     st\<lparr>rs_checkpoints := update_rows (\<lambda>x. checkpoint_key x = checkpoint_key c) (\<lambda>_. c) (rs_checkpoints st)\<rparr>"

definition SaveStageCheckpoint ::
  "string \<Rightarrow> time \<Rightarrow> stage_checkpoint \<Rightarrow> run_store \<Rightarrow> checkpoint_error + stage_checkpoint \<times> run_store" where
  "SaveStageCheckpoint new_id now c st =
     (case ValidateStageCheckpoint c of
        Some e \<Rightarrow> Inl e
      | None \<Rightarrow>
          (case getStageCheckpoint st (cp_run_id c) (cp_stage_id c) of
             Some existing \<Rightarrow>
               (case ValidateCheckpointUpdate existing c of
                  Some e \<Rightarrow> Inl e
                | None \<Rightarrow>
                    (let stored = updated_checkpoint now existing c in Inr (stored, put_checkpoint stored st)))
           | None \<Rightarrow>
               (let stored = c\<lparr>cp_id := if cp_id c = [] then new_id else cp_id c, cp_created_at := now,
                      cp_updated_at := now\<rparr>
                in if cp_id stored \<in> cp_id ` set (rs_checkpoints st) then Inl (CheckpointStore DuplicateKey)
                   else if get_run st (cp_run_id c) = None then Inl (CheckpointStore ForeignKeyMissing)
                   else Inr (stored, st\<lparr>rs_checkpoints := rs_checkpoints st @ [stored]\<rparr>))))"

section \<open>The provider\<close>

definition InternalStateProvider :: string where "InternalStateProvider = ''internal_state_v1''"

record checkpoint_services =
  ck_svc :: services
  ck_hash :: "string \<Rightarrow> string"
  ck_snapshot :: "runtime_snapshot \<Rightarrow> string option"
  ck_tools :: "runtime_snapshot \<Rightarrow> string option"

definition RuntimeHashes ::
  "checkpoint_services \<Rightarrow> runtime_snapshot option \<Rightarrow> checkpoint_error + string \<times> string" where
  "RuntimeHashes ck snapshot =
     (case snapshot of
        None \<Rightarrow> Inl SnapshotMissing
      | Some s \<Rightarrow>
          (case (ck_snapshot ck s, ck_tools ck s) of
             (Some encoded, Some tools) \<Rightarrow> Inr (ck_hash ck encoded, ck_hash ck tools)
           | _ \<Rightarrow> Inl SnapshotEncoding))"

definition isStageTransition :: "run_event_type \<Rightarrow> bool" where
  "isStageTransition t \<longleftrightarrow> t \<in> {EventStageStarted, EventStageCompleted, EventStageFailed, EventStageCanceled}"

definition stage_terminal :: "run_event_type \<Rightarrow> bool" where
  "stage_terminal t \<longleftrightarrow> t \<in> {EventStageCompleted, EventStageFailed, EventStageCanceled}"

definition stageRunEvent :: "collaboration_step \<Rightarrow> run_event_type \<Rightarrow> run_event" where
  "stageRunEvent step t =
     zero_event\<lparr>ev_type := t, ev_run_id := step_run_id step, ev_conversation_id := step_conversation_id step,
       ev_stage_id := step_id step,
       ev_payload := [''name'' \<mapsto> VString (step_role step), ''agent_id'' \<mapsto> VString (step_agent_id step),
         ''iteration'' \<mapsto> VInt (step_iteration step), ''input'' \<mapsto> VString (step_input step),
         ''output'' \<mapsto> VString (step_output step), ''error'' \<mapsto> VString (step_error step)]\<rparr>"

fun checkpoint_status_text :: "checkpoint_status \<Rightarrow> string" where
  "checkpoint_status_text CheckpointPrepared = ''prepared''"
| "checkpoint_status_text CheckpointExecuting = ''executing''"
| "checkpoint_status_text CheckpointCommitted = ''committed''"
| "checkpoint_status_text CheckpointCompensated = ''compensated''"
| "checkpoint_status_text CheckpointNeedsReconciliation = ''needs_reconciliation''"
| "checkpoint_status_text (CheckpointOther s) = s"

definition checkpointPayload :: "stage_checkpoint \<Rightarrow> payload" where
  "checkpointPayload c =
     [''checkpoint_id'' \<mapsto> VString (cp_id c), ''provider'' \<mapsto> VString (cp_provider c),
      ''status'' \<mapsto> VString (checkpoint_status_text (cp_status c)), ''input_hash'' \<mapsto> VString (cp_input_hash c),
      ''output_hash'' \<mapsto> VString (cp_output_hash c), ''runtime_snapshot_hash'' \<mapsto> VString (cp_snapshot_hash c),
      ''tool_definitions_hash'' \<mapsto> VString (cp_tools_hash c), ''event_cursor'' \<mapsto> VInt64 (cp_event_cursor c)]"

definition eventCursor :: "run_event list \<Rightarrow> int" where
  "eventCursor events = (if events = [] then 0 else ev_sequence (last events))"

definition hasUncertainEffect :: "tool_effect list \<Rightarrow> bool" where
  "hasUncertainEffect effects \<longleftrightarrow>
     (\<exists>e \<in> set effects. eff_status e \<noteq> ToolEffectCommitted \<and> eff_status e \<noteq> ToolEffectCompensated)"

definition stageTerminalAfter :: "run_event list \<Rightarrow> string \<Rightarrow> int \<Rightarrow> run_event option" where
  "stageTerminalAfter events stage cursor =
     find (\<lambda>e. cursor < ev_sequence e \<and> ev_stage_id e = stage \<and> stage_terminal (ev_type e)) events"

definition open_start :: "string \<Rightarrow> run_event \<Rightarrow> run_event option \<Rightarrow> run_event option" where
  "open_start stage e started =
     (if ev_stage_id e \<noteq> stage then started
      else if ev_type e = EventStageStarted then Some e
      else if stage_terminal (ev_type e) then None else started)"

definition openStageStart :: "run_event list \<Rightarrow> string \<Rightarrow> run_event option" where
  "openStageStart events stage = fold (open_start stage) events None"

section \<open>Recording a stage transition\<close>

type_synonym 'a checkpoint_handler = "(checkpoint_error, 'a, run_store) handler"

definition save :: "string \<Rightarrow> time \<Rightarrow> stage_checkpoint \<Rightarrow> stage_checkpoint checkpoint_handler" where
  "save new_id now c = transaction (SaveStageCheckpoint new_id now c)"

definition create_event :: "checkpoint_services \<Rightarrow> string \<Rightarrow> time \<Rightarrow> run_event \<Rightarrow> run_event checkpoint_handler" where
  "create_event ck new_id now e =
     transaction (\<lambda>st. map_error CheckpointStore (CreateRunEvent (ck_svc ck) new_id now e st))"

text \<open>The checkpoint that a first terminal event finds missing is created as it would have been.\<close>

definition late_checkpoint ::
  "checkpoint_services \<Rightarrow> (nat \<Rightarrow> string) \<Rightarrow> time \<Rightarrow> collaboration_step \<Rightarrow> run_event list \<Rightarrow> stage_checkpoint
    \<Rightarrow> stage_checkpoint checkpoint_handler" where
  "late_checkpoint ck ids now step events base =
     (let started = openStageStart events (step_id step);
          base = base\<lparr>cp_event_cursor := (case started of Some e \<Rightarrow> ev_sequence e | None \<Rightarrow> cp_event_cursor base),
            cp_status := CheckpointPrepared\<rparr>
      in and_then (save (ids 0) now base) (\<lambda>_.
         and_then (case started of
                     Some _ \<Rightarrow> answer (cp_event_cursor base)
                   | None \<Rightarrow> and_then (create_event ck (ids 1) now (stageRunEvent step EventStageStarted))
                               (\<lambda>e. answer (ev_sequence e))) (\<lambda>cursor.
           save (ids 2) now (base\<lparr>cp_event_cursor := cursor, cp_status := CheckpointExecuting\<rparr>))))"

definition transition_checkpoint ::
  "checkpoint_services \<Rightarrow> collaboration_step \<Rightarrow> run_event_type \<Rightarrow> int \<Rightarrow> stage_checkpoint \<Rightarrow> stage_checkpoint" where
  "transition_checkpoint ck step t cursor base =
     (let base = base\<lparr>cp_event_cursor := cursor\<rparr> in
      if t = EventStageStarted then base\<lparr>cp_status := CheckpointExecuting\<rparr>
      else if t = EventStageCompleted
      then base\<lparr>cp_status := CheckpointCommitted, cp_output_hash := ck_hash ck (step_output step)\<rparr>
      else base\<lparr>cp_status := CheckpointNeedsReconciliation, cp_error := trim_space (step_error step)\<rparr>)"

definition base_checkpoint ::
  "checkpoint_services \<Rightarrow> collaboration_step \<Rightarrow> string \<times> string \<Rightarrow> int \<Rightarrow> stage_checkpoint" where
  "base_checkpoint ck step hashes cursor =
     \<lparr>cp_id = [], cp_provider = InternalStateProvider, cp_run_id = step_run_id step,
      cp_conversation_id = step_conversation_id step, cp_stage_id = step_id step, cp_status = CheckpointOther [],
      cp_input_hash = ck_hash ck (step_input step), cp_output_hash = [], cp_snapshot_hash = fst hashes,
      cp_tools_hash = snd hashes, cp_event_cursor = cursor, cp_error = [], cp_created_at = 0, cp_updated_at = 0\<rparr>"

definition prepare_transition ::
  "checkpoint_services \<Rightarrow> (nat \<Rightarrow> string) \<Rightarrow> time \<Rightarrow> collaboration_step \<Rightarrow> run_event_type \<Rightarrow> run_event list
    \<Rightarrow> stage_checkpoint \<Rightarrow> stage_checkpoint option \<Rightarrow> stage_checkpoint checkpoint_handler" where
  "prepare_transition ck ids now step t events base existing =
     (if t = EventStageStarted then
        (case existing of
           Some _ \<Rightarrow> fail (CheckpointExists (step_id step))
         | None \<Rightarrow> and_then (save (ids 0) now (base\<lparr>cp_status := CheckpointPrepared\<rparr>)) (\<lambda>_. answer base))
      else
        (case existing of
           Some c \<Rightarrow> answer (base\<lparr>cp_id := cp_id c\<rparr>)
         | None \<Rightarrow> and_then (late_checkpoint ck ids now step events base) (\<lambda>c. answer (base\<lparr>cp_id := cp_id c\<rparr>))))"

definition RecordStageTransition ::
  "checkpoint_services \<Rightarrow> (nat \<Rightarrow> string) \<Rightarrow> time \<Rightarrow> collaboration_step \<Rightarrow> run_event_type
    \<Rightarrow> run_event checkpoint_handler" where
  "RecordStageTransition ck ids now step t st =
     (if \<not> isStageTransition t then (Inl (CheckpointEvent t), st)
      else
        (case get_run st (step_run_id step) of
           None \<Rightarrow> (Inl CheckpointRunMissing, st)
         | Some r \<Rightarrow>
             and_then (from_result (RuntimeHashes ck (run_snapshot r))) (\<lambda>hashes.
               (let events = ListRunEvents st (step_run_id step);
                    base = base_checkpoint ck step hashes (eventCursor events)
                in and_then (prepare_transition ck ids now step t events base
                       (getStageCheckpoint st (step_run_id step) (step_id step))) (\<lambda>base.
                   and_then (create_event ck (ids 3) now (stageRunEvent step t)) (\<lambda>e.
                   and_then (save (ids 4) now (transition_checkpoint ck step t (ev_sequence e) base)) (\<lambda>stored.
                   and_then (create_event ck (ids 5) now
                       (zero_event\<lparr>ev_type := EventCheckpointCaptured, ev_run_id := step_run_id step,
                          ev_conversation_id := step_conversation_id step, ev_stage_id := step_id step,
                          ev_parent_event_id := ev_id e, ev_payload := checkpointPayload stored\<rparr>)) (\<lambda>_.
                     answer e)))))) st))"

section \<open>Restoring a Run\<close>

record stage_restore =
  sr_checkpoint :: stage_checkpoint
  sr_terminal :: "run_event option"

definition planned_terminal :: "stage_checkpoint \<Rightarrow> run_event list \<Rightarrow> run_event option" where
  "planned_terminal c events =
     (if cp_status c = CheckpointPrepared \<or> cp_status c = CheckpointExecuting
      then stageTerminalAfter events (cp_stage_id c) (cp_event_cursor c) else None)"

definition planned_status :: "stage_checkpoint \<Rightarrow> run_event option \<Rightarrow> checkpoint_status" where
  "planned_status c terminal =
     (case terminal of
        None \<Rightarrow> cp_status c
      | Some e \<Rightarrow> if ev_type e = EventStageCompleted then CheckpointCommitted else CheckpointNeedsReconciliation)"

definition planStageRestore ::
  "stage_checkpoint \<Rightarrow> run_event list \<Rightarrow> tool_effect list \<Rightarrow> checkpoint_error + stage_restore" where
  "planStageRestore c events effects =
     (let terminal = planned_terminal c events; status = planned_status c terminal;
          action = \<lparr>sr_checkpoint = c, sr_terminal = terminal\<rparr>
      in if terminal \<noteq> None \<and> status = CheckpointCommitted \<and> hasUncertainEffect effects
         then Inl (NeedsReconciliation (cp_stage_id c) ''completed with an uncertain tool effect'')
         else if status \<noteq> CheckpointCommitted \<and> (\<exists>e \<in> set effects. eff_status e = ToolEffectCommitted)
         then Inl (NeedsReconciliation (cp_stage_id c) ''has a committed external effect'')
         else if status = CheckpointCommitted \<or> status = CheckpointCompensated then Inr action
         else if status = CheckpointPrepared \<or> status = CheckpointExecuting \<or> status = CheckpointNeedsReconciliation
         then if hasUncertainEffect effects
              then Inl (NeedsReconciliation (cp_stage_id c) ''has an uncertain tool effect'') else Inr action
         else Inl (UnknownCheckpointStatus status))"

definition plan_one ::
  "string \<times> string \<Rightarrow> run_event list \<Rightarrow> tool_effect list \<Rightarrow> stage_checkpoint \<Rightarrow> checkpoint_error + stage_restore" where
  "plan_one hashes events effects c =
     (if cp_provider c \<noteq> InternalStateProvider \<or> cp_snapshot_hash c \<noteq> fst hashes \<or> cp_tools_hash c \<noteq> snd hashes
      then Inl (CheckpointStale (cp_stage_id c))
      else planStageRestore c events (filter (\<lambda>e. eff_stage_id e = cp_stage_id c) effects))"

fun plan_all :: "('a \<Rightarrow> 'e + 'b) \<Rightarrow> 'a list \<Rightarrow> 'e + 'b list" where
  "plan_all f [] = Inr []"
| "plan_all f (x # xs) = bind_result (f x) (\<lambda>y. bind_result (plan_all f xs) (\<lambda>ys. Inr (y # ys)))"

definition planRestore :: "checkpoint_services \<Rightarrow> run \<Rightarrow> run_store \<Rightarrow> checkpoint_error + stage_restore list" where
  "planRestore ck r st =
     bind_result (RuntimeHashes ck (run_snapshot r)) (\<lambda>hashes.
       plan_all (plan_one hashes (ListRunEvents st (run_id r)) (ListToolEffects st (run_id r)))
         (ListStageCheckpoints st (run_id r)))"

definition ValidateResume :: "checkpoint_services \<Rightarrow> run \<Rightarrow> run_store \<Rightarrow> checkpoint_error option" where
  "ValidateResume ck r st = (case planRestore ck r st of Inl e \<Rightarrow> Some e | Inr _ \<Rightarrow> None)"

definition publish_event ::
  "checkpoint_services \<Rightarrow> string \<Rightarrow> time \<Rightarrow> run \<Rightarrow> string \<Rightarrow> run_event_type \<Rightarrow> payload \<Rightarrow> unit checkpoint_handler" where
  "publish_event ck new_id now r stage t p =
     and_then (create_event ck new_id now
       (zero_event\<lparr>ev_type := t, ev_run_id := run_id r, ev_conversation_id := run_conversation_id r,
          ev_stage_id := stage, ev_payload := p\<rparr>)) (\<lambda>_. answer ())"

definition reconcileStageTerminal ::
  "checkpoint_services \<Rightarrow> time \<Rightarrow> stage_checkpoint \<Rightarrow> run_event \<Rightarrow> stage_checkpoint checkpoint_handler" where
  "reconcileStageTerminal ck now c terminal =
     (let next = c\<lparr>cp_event_cursor := ev_sequence terminal\<rparr>; p = stored_payload (ev_payload terminal) in
      if ev_type terminal = EventStageCompleted then
        and_then (if cp_status c = CheckpointPrepared
                  then save [] now (next\<lparr>cp_status := CheckpointExecuting\<rparr>) else answer next) (\<lambda>next.
          save [] now (next\<lparr>cp_status := CheckpointCommitted,
            cp_output_hash := ck_hash ck (payload_string p ''output''), cp_error := []\<rparr>))
      else if stage_terminal (ev_type terminal) then
        save [] now (next\<lparr>cp_status := CheckpointNeedsReconciliation, cp_error := payload_string p ''error''\<rparr>)
      else fail (CheckpointEvent (ev_type terminal)))"

definition interrupted_stage :: string where
  "interrupted_stage = ''interrupted stage abandoned during resume''"

text \<open>\<open>err_text\<close> renders an error for the payload of \<open>compensation.failed\<close>.\<close>

definition compensateInternalState ::
  "checkpoint_services \<Rightarrow> (checkpoint_error \<Rightarrow> string) \<Rightarrow> (nat \<Rightarrow> string) \<Rightarrow> time \<Rightarrow> run \<Rightarrow> stage_checkpoint
    \<Rightarrow> stage_checkpoint checkpoint_handler" where
  "compensateInternalState ck err_text ids now r c =
     (let failed = (\<lambda>e. ignoring (publish_event ck (ids 1) now r (cp_stage_id c) EventCompensationFailed
            [''error'' \<mapsto> VString (err_text e)]))
      in and_then (publish_event ck (ids 0) now r (cp_stage_id c) EventCompensationStarted (checkpointPayload c)) (\<lambda>_.
         and_then (if cp_status c = CheckpointNeedsReconciliation then answer c
                   else on_error (save [] now (c\<lparr>cp_status := CheckpointNeedsReconciliation,
                     cp_error := interrupted_stage\<rparr>)) failed) (\<lambda>c.
         and_then (on_error (save [] now (c\<lparr>cp_status := CheckpointCompensated\<rparr>)) failed) (\<lambda>stored.
         and_then (publish_event ck (ids 2) now r (cp_stage_id c) EventCompensationCompleted (checkpointPayload stored)) (\<lambda>_.
           answer stored)))))"

record restore_report =
  committed_stages :: "string list"
  compensated_stages :: "string list"

type_synonym restore_outcome = "(restore_report \<times> checkpoint_error option) \<times> run_store"

definition restore_stage ::
  "checkpoint_services \<Rightarrow> (checkpoint_error \<Rightarrow> string) \<Rightarrow> (nat \<Rightarrow> string) \<Rightarrow> time \<Rightarrow> run \<Rightarrow> stage_checkpoint
    \<Rightarrow> restore_report \<Rightarrow> run_store \<Rightarrow> restore_outcome" where
  "restore_stage ck err_text ids now r c report st =
     (if cp_status c = CheckpointCommitted then
        (let report = report\<lparr>committed_stages := committed_stages report @ [cp_stage_id c]\<rparr>
         in case publish_event ck (ids 0) now r (cp_stage_id c) EventCheckpointRestored (checkpointPayload c) st of
              (Inl e, st) \<Rightarrow> ((report, Some e), st)
            | (Inr _, st) \<Rightarrow> ((report, None), st))
      else if cp_status c = CheckpointCompensated then
        ((report\<lparr>compensated_stages := compensated_stages report @ [cp_stage_id c]\<rparr>, None), st)
      else if cp_status c = CheckpointPrepared \<or> cp_status c = CheckpointExecuting
        \<or> cp_status c = CheckpointNeedsReconciliation then
        (case compensateInternalState ck err_text ids now r c st of
           (Inl e, st) \<Rightarrow> ((report, Some e), st)
         | (Inr stored, st) \<Rightarrow>
             ((report\<lparr>compensated_stages := compensated_stages report @ [cp_stage_id stored]\<rparr>, None), st))
      else ((report, Some (UnknownCheckpointStatus (cp_status c))), st))"

definition restore_action ::
  "checkpoint_services \<Rightarrow> (checkpoint_error \<Rightarrow> string) \<Rightarrow> (nat \<Rightarrow> string) \<Rightarrow> time \<Rightarrow> run \<Rightarrow> stage_restore
    \<Rightarrow> restore_report \<Rightarrow> run_store \<Rightarrow> restore_outcome" where
  "restore_action ck err_text ids now r action report st =
     (case sr_terminal action of
        None \<Rightarrow> restore_stage ck err_text ids now r (sr_checkpoint action) report st
      | Some e \<Rightarrow>
          (case reconcileStageTerminal ck now (sr_checkpoint action) e st of
             (Inl e, st) \<Rightarrow> ((report, Some e), st)
           | (Inr c, st) \<Rightarrow> restore_stage ck err_text ids now r c report st))"

fun restore_actions ::
  "checkpoint_services \<Rightarrow> (checkpoint_error \<Rightarrow> string) \<Rightarrow> (nat \<Rightarrow> nat \<Rightarrow> string) \<Rightarrow> time \<Rightarrow> run \<Rightarrow> nat
    \<Rightarrow> stage_restore list \<Rightarrow> restore_report \<Rightarrow> run_store \<Rightarrow> restore_outcome" where
  "restore_actions ck err_text ids now r i [] report st = ((report, None), st)"
| "restore_actions ck err_text ids now r i (action # rest) report st =
     (case restore_action ck err_text (ids i) now r action report st of
        ((report, Some e), st) \<Rightarrow> ((report, Some e), st)
      | ((report, None), st) \<Rightarrow> restore_actions ck err_text ids now r (Suc i) rest report st)"

definition RestoreRun ::
  "checkpoint_services \<Rightarrow> (checkpoint_error \<Rightarrow> string) \<Rightarrow> (nat \<Rightarrow> nat \<Rightarrow> string) \<Rightarrow> time \<Rightarrow> run \<Rightarrow> run_store
    \<Rightarrow> restore_outcome" where
  "RestoreRun ck err_text ids now r st =
     (let report = \<lparr>committed_stages = [], compensated_stages = []\<rparr> in
      case planRestore ck r st of
        Inl e \<Rightarrow> ((report, Some e), st)
      | Inr plan \<Rightarrow> restore_actions ck err_text ids now r 0 plan report st)"

end
