(* ===== verification/Checkpoint_Rows.thy ===== *)
theory Checkpoint_Rows
  imports Checkpoints Effect_Journal
begin

text \<open>
  Checkpoint rows under the operations: a saved row keeps its identity and advances along the life
  cycle, and so does every row under the handlers, whether they succeed or fail half-way.
\<close>

section \<open>Saving a row\<close>

definition same_stage :: "stage_checkpoint \<Rightarrow> stage_checkpoint \<Rightarrow> bool" where
  "same_stage c c' \<longleftrightarrow> cp_id c' = cp_id c \<and> cp_provider c' = cp_provider c \<and> cp_run_id c' = cp_run_id c
     \<and> cp_conversation_id c' = cp_conversation_id c \<and> cp_stage_id c' = cp_stage_id c
     \<and> cp_input_hash c' = cp_input_hash c \<and> cp_snapshot_hash c' = cp_snapshot_hash c
     \<and> cp_tools_hash c' = cp_tools_hash c \<and> cp_created_at c' = cp_created_at c"

lemma getStageCheckpoint_put:
  "getStageCheckpoint (put_checkpoint c st) rid stage =
     (if (rid, stage) = checkpoint_key c \<and> getStageCheckpoint st rid stage \<noteq> None then Some c
      else getStageCheckpoint st rid stage)"
  by (auto simp: getStageCheckpoint_def put_checkpoint_def lookup_update_rows)

lemma getStageCheckpoint_Some:
  "getStageCheckpoint st rid stage = Some c \<Longrightarrow> c \<in> set (rs_checkpoints st) \<and> cp_run_id c = rid \<and> cp_stage_id c = stage"
  unfolding getStageCheckpoint_def by (auto simp: checkpoint_key_def dest: lookup_by_Some)

lemma getStageCheckpoint_events [simp]:
  "getStageCheckpoint (st\<lparr>rs_events := x\<rparr>) rid stage = getStageCheckpoint st rid stage"
  by (simp add: getStageCheckpoint_def)

lemma put_checkpoint_fields [simp]:
  "rs_runs (put_checkpoint c st) = rs_runs st" "rs_events (put_checkpoint c st) = rs_events st"
  "rs_effects (put_checkpoint c st) = rs_effects st" "rs_steps (put_checkpoint c st) = rs_steps st"
  by (simp_all add: put_checkpoint_def)

lemma updated_checkpoint_fields [simp]:
  "cp_status (updated_checkpoint now e c) = cp_status c" "cp_output_hash (updated_checkpoint now e c) = cp_output_hash c"
  "cp_event_cursor (updated_checkpoint now e c) = cp_event_cursor c" "cp_error (updated_checkpoint now e c) = cp_error c"
  "cp_run_id (updated_checkpoint now e c) = cp_run_id e" "cp_stage_id (updated_checkpoint now e c) = cp_stage_id e"
  "same_stage e (updated_checkpoint now e c)" "checkpoint_key (updated_checkpoint now e c) = checkpoint_key e"
  by (simp_all add: updated_checkpoint_def same_stage_def checkpoint_key_def)

lemma SaveStageCheckpoint_Inr:
  assumes "SaveStageCheckpoint i now c st = Inr (s, st')"
  shows "cp_run_id s = cp_run_id c" "cp_stage_id s = cp_stage_id c" "cp_status s = cp_status c"
    "cp_event_cursor s = cp_event_cursor c"
    "rs_runs st' = rs_runs st" "rs_events st' = rs_events st" "rs_effects st' = rs_effects st"
    "getStageCheckpoint st' rid stage = (if rid = cp_run_id c \<and> stage = cp_stage_id c then Some s
       else getStageCheckpoint st rid stage)"
    "set (rs_checkpoints st') \<subseteq> insert s (set (rs_checkpoints st))"
    "getStageCheckpoint st (cp_run_id c) (cp_stage_id c) = Some e \<Longrightarrow>
       ValidateCheckpointUpdate e c = None \<and> s = updated_checkpoint now e c"
proof -
  have "(cp_run_id s = cp_run_id c \<and> cp_stage_id s = cp_stage_id c \<and> cp_status s = cp_status c
      \<and> cp_event_cursor s = cp_event_cursor c)
    \<and> (rs_runs st' = rs_runs st \<and> rs_events st' = rs_events st \<and> rs_effects st' = rs_effects st)
    \<and> (\<forall>rid stage. getStageCheckpoint st' rid stage = (if rid = cp_run_id c \<and> stage = cp_stage_id c then Some s
       else getStageCheckpoint st rid stage))
    \<and> set (rs_checkpoints st') \<subseteq> insert s (set (rs_checkpoints st))
    \<and> (\<forall>e. getStageCheckpoint st (cp_run_id c) (cp_stage_id c) = Some e \<longrightarrow>
         ValidateCheckpointUpdate e c = None \<and> s = updated_checkpoint now e c)"
  proof (cases "getStageCheckpoint st (cp_run_id c) (cp_stage_id c)")
    case None
    have new: "s = c\<lparr>cp_id := if cp_id c = [] then i else cp_id c, cp_created_at := now, cp_updated_at := now\<rparr>"
      "st' = st\<lparr>rs_checkpoints := rs_checkpoints st @ [s]\<rparr>"
      using assms None by (auto simp: SaveStageCheckpoint_def Let_def split: option.split_asm if_split_asm)
    have "getStageCheckpoint st' rid stage = (if rid = cp_run_id c \<and> stage = cp_stage_id c then Some s
        else getStageCheckpoint st rid stage)" for rid stage
      using None new by (auto simp: getStageCheckpoint_def lookup_by_append checkpoint_key_def split: option.split)
    then show ?thesis using None new by simp
  next
    case (Some e)
    have upd: "s = updated_checkpoint now e c" "st' = put_checkpoint s st" "ValidateCheckpointUpdate e c = None"
      using assms Some by (auto simp: SaveStageCheckpoint_def Let_def split: option.split_asm)
    have k: "cp_run_id e = cp_run_id c" "cp_stage_id e = cp_stage_id c" using getStageCheckpoint_Some [OF Some] by simp_all
    have "getStageCheckpoint st' rid stage = (if rid = cp_run_id c \<and> stage = cp_stage_id c then Some s
        else getStageCheckpoint st rid stage)" for rid stage
      using Some k upd by (auto simp: getStageCheckpoint_put checkpoint_key_def)
    moreover have "set (rs_checkpoints st') \<subseteq> insert s (set (rs_checkpoints st))"
      by (auto simp: upd(2) put_checkpoint_def update_rows_def)
    moreover have "cp_run_id s = cp_run_id c" "cp_stage_id s = cp_stage_id c"
      using k by (simp_all add: upd(1) updated_checkpoint_def)
    ultimately show ?thesis using Some upd by simp
  qed
  then show "cp_run_id s = cp_run_id c" "cp_stage_id s = cp_stage_id c" "cp_status s = cp_status c"
    "cp_event_cursor s = cp_event_cursor c" "rs_runs st' = rs_runs st" "rs_events st' = rs_events st"
    "rs_effects st' = rs_effects st"
    "getStageCheckpoint st' rid stage = (if rid = cp_run_id c \<and> stage = cp_stage_id c then Some s
       else getStageCheckpoint st rid stage)"
    "set (rs_checkpoints st') \<subseteq> insert s (set (rs_checkpoints st))"
    "getStageCheckpoint st (cp_run_id c) (cp_stage_id c) = Some e \<Longrightarrow>
       ValidateCheckpointUpdate e c = None \<and> s = updated_checkpoint now e c"
    by simp_all
qed

lemma create_event_Inr:
  assumes "create_event ck i now e st = (Inr x, st')"
  shows "st' = st\<lparr>rs_events := rs_events st @ [x]\<rparr>" "ev_type x = ev_type e" "ev_run_id x = ev_run_id e"
    "ev_stage_id x = ev_stage_id e"
proof -
  have c: "CreateRunEvent (ck_svc ck) i now e st = Inr (x, st')" using assms by (simp add: create_event_def)
  then show "st' = st\<lparr>rs_events := rs_events st @ [x]\<rparr>" "ev_type x = ev_type e" "ev_run_id x = ev_run_id e"
    using CreateRunEvent_Inr [OF c] insert_event_fields by simp_all
  show "ev_stage_id x = ev_stage_id e"
    using c by (auto simp: CreateRunEvent_def Let_def bind_result_Inr dest: preparePostgresRunEvent_Inr)
qed

section \<open>The life cycle of a row\<close>

fun checkpoint_reaches :: "checkpoint_status \<Rightarrow> checkpoint_status \<Rightarrow> bool" where
  "checkpoint_reaches CheckpointPrepared s = (\<forall>t. s \<noteq> CheckpointOther t)"
| "checkpoint_reaches CheckpointExecuting s = (s \<in> {CheckpointExecuting, CheckpointCommitted,
     CheckpointNeedsReconciliation, CheckpointCompensated})"
| "checkpoint_reaches CheckpointNeedsReconciliation s = (s \<in> {CheckpointNeedsReconciliation, CheckpointCompensated})"
| "checkpoint_reaches c s = (s = c)"

definition checkpoint_advances :: "stage_checkpoint \<Rightarrow> stage_checkpoint \<Rightarrow> bool" where
  "checkpoint_advances c c' \<longleftrightarrow> same_stage c c' \<and> cp_event_cursor c \<le> cp_event_cursor c'
     \<and> checkpoint_reaches (cp_status c) (cp_status c')"

lemma checkpoint_reaches_refl [simp]: "checkpoint_reaches s s"
  by (cases s) auto

lemma checkpoint_reaches_trans: "checkpoint_reaches s t \<Longrightarrow> checkpoint_reaches t u \<Longrightarrow> checkpoint_reaches s u"
  by (cases s; cases t) auto

lemma checkpoint_advances_refl [simp]: "checkpoint_advances c c"
  by (simp add: checkpoint_advances_def same_stage_def)

lemma checkpoint_advances_trans:
  "checkpoint_advances c d \<Longrightarrow> checkpoint_advances d e \<Longrightarrow> checkpoint_advances c e"
  using checkpoint_reaches_trans by (auto simp: checkpoint_advances_def same_stage_def)

lemma updated_checkpoint_advances:
  "ValidateCheckpointUpdate e c = None \<Longrightarrow> checkpoint_advances e (updated_checkpoint now e c)"
  by (cases "cp_status e")
    (auto simp: checkpoint_advances_def ValidateCheckpointUpdate_def split: if_split_asm)

definition rows_advance :: "run_store \<Rightarrow> run_store \<Rightarrow> bool" where
  "rows_advance st st' \<longleftrightarrow> (\<forall>rid stage c. getStageCheckpoint st rid stage = Some c \<longrightarrow>
     (\<exists>c'. getStageCheckpoint st' rid stage = Some c' \<and> checkpoint_advances c c'))"

lemma rows_advance_refl [simp]: "rows_advance st st"
  by (auto simp: rows_advance_def)

lemma save_advances: "keeps (rows_advance st0) (save i now c)"
  unfolding save_def
proof (rule keeps_transaction)
  fix st s st'
  assume adv: "rows_advance st0 st" and s: "SaveStageCheckpoint i now c st = Inr (s, st')"
  show "rows_advance st0 st'"
    unfolding rows_advance_def
  proof (intro allI impI)
    fix rid stage d
    assume "getStageCheckpoint st0 rid stage = Some d"
    then obtain d' where d: "getStageCheckpoint st rid stage = Some d'" "checkpoint_advances d d'"
      using adv unfolding rows_advance_def by blast
    show "\<exists>c'. getStageCheckpoint st' rid stage = Some c' \<and> checkpoint_advances d c'"
    proof (cases "rid = cp_run_id c \<and> stage = cp_stage_id c")
      case True
      then have "ValidateCheckpointUpdate d' c = None" "s = updated_checkpoint now d' c"
        using SaveStageCheckpoint_Inr(10) [OF s, of d'] d(1) by simp_all
      then have "checkpoint_advances d s"
        using updated_checkpoint_advances checkpoint_advances_trans [OF d(2)] by simp
      then show ?thesis using SaveStageCheckpoint_Inr(8) [OF s, of rid stage] True by simp
    next
      case False
      then show ?thesis using SaveStageCheckpoint_Inr(8) [OF s, of rid stage] d by auto
    qed
  qed
qed

lemma create_event_advances: "keeps (rows_advance st0) (create_event ck i now e)"
  unfolding create_event_def
  by (rule keeps_transaction) (auto simp: rows_advance_def dest!: CreateRunEvent_Inr(1) insert_event_fields)

lemmas keeps_intros = keeps_and_then keeps_answer keeps_fail keeps_from_result keeps_on_error keeps_ignoring

lemma late_checkpoint_advances: "keeps (rows_advance st0) (late_checkpoint ck ids now step events base)"
  unfolding late_checkpoint_def Let_def
  by (intro keeps_intros save_advances create_event_advances)
    (auto split: option.split intro!: keeps_intros create_event_advances)

lemma prepare_transition_advances:
  "keeps (rows_advance st0) (prepare_transition ck ids now step t events base existing)"
  unfolding prepare_transition_def
  by (auto split: option.split intro!: keeps_intros save_advances late_checkpoint_advances)

lemma RecordStageTransition_advances: "rows_advance st (snd (RecordStageTransition ck ids now step t st))"
proof -
  have body: "keeps (rows_advance st) (and_then (prepare_transition ck ids now step t events base existing) (\<lambda>base.
      and_then (create_event ck (ids 3) now (stageRunEvent step t)) (\<lambda>e.
      and_then (save (ids 4) now (transition_checkpoint ck step t (ev_sequence e) base)) (\<lambda>stored.
      and_then (create_event ck (ids 5) now (captured e stored)) (\<lambda>_. answer e)))))" for events base existing captured
    by (intro keeps_intros prepare_transition_advances create_event_advances save_advances)
  show ?thesis
    unfolding RecordStageTransition_def Let_def
    using body by (auto simp: keeps_def and_then_def from_result_def split: option.split sum.split)
qed

lemma publish_event_advances: "keeps (rows_advance st0) (publish_event ck i now r stage t p)"
  unfolding publish_event_def by (intro keeps_intros create_event_advances)

lemma reconcileStageTerminal_advances: "keeps (rows_advance st0) (reconcileStageTerminal ck now c e)"
  unfolding reconcileStageTerminal_def Let_def by (auto intro!: keeps_intros save_advances)

lemma compensateInternalState_advances: "keeps (rows_advance st0) (compensateInternalState ck err ids now r c)"
  unfolding compensateInternalState_def Let_def
  by (intro keeps_intros publish_event_advances) (auto intro!: keeps_intros publish_event_advances save_advances)

lemma restore_stage_advances:
  assumes "rows_advance st0 st"
  shows "rows_advance st0 (snd (restore_stage ck err ids now r c report st))"
proof -
  obtain x u where x: "publish_event ck (ids 0) now r (cp_stage_id c) EventCheckpointRestored (checkpointPayload c) st = (x, u)"
    by (metis prod.exhaust)
  obtain y v where y: "compensateInternalState ck err ids now r c st = (y, v)" by (metis prod.exhaust)
  have "rows_advance st0 u" "rows_advance st0 v"
    using publish_event_advances compensateInternalState_advances assms x y by (metis keeps_def snd_conv)+
  then show ?thesis
    using assms by (cases x; cases y) (simp_all add: restore_stage_def Let_def x y)
qed

lemma restore_action_advances:
  assumes "rows_advance st0 st"
  shows "rows_advance st0 (snd (restore_action ck err ids now r action report st))"
proof (cases "sr_terminal action")
  case (Some e)
  obtain x u where x: "reconcileStageTerminal ck now (sr_checkpoint action) e st = (x, u)" by (metis prod.exhaust)
  have "rows_advance st0 u" using reconcileStageTerminal_advances assms x by (metis keeps_def snd_conv)
  then show ?thesis by (cases x) (simp_all add: restore_action_def Some x restore_stage_advances)
qed (simp add: restore_action_def restore_stage_advances assms)

lemma restore_actions_advances:
  "rows_advance st0 st \<Longrightarrow> rows_advance st0 (snd (restore_actions ck err ids now r i plan report st))"
proof (induction plan arbitrary: i report st)
  case (Cons action plan)
  obtain rep e u where a: "restore_action ck err (ids i) now r action report st = ((rep, e), u)" by (metis prod.exhaust)
  then have "rows_advance st0 u" using restore_action_advances [OF Cons.prems, of ck err "ids i" now r action report] by simp
  then show ?case using Cons.IH a by (cases e) simp_all
qed simp

lemma RestoreRun_advances: "rows_advance st (snd (RestoreRun ck err ids now r st))"
  by (auto simp: RestoreRun_def Let_def restore_actions_advances split: sum.split)

end
