(* ===== verification/Checkpoint_Guarantees.thy ===== *)
theory Checkpoint_Guarantees
  imports Checkpoint_Rows
begin

text \<open>
  What stage checkpoints guarantee: rows only advance along their life cycle, a committed row is
  backed by a durable \<open>stage.completed\<close>, and restoring a Run settles every stage without touching
  one whose external effects are not certain.
\<close>

section \<open>Committed rows are backed by the log\<close>

definition backed :: "run_store \<Rightarrow> stage_checkpoint \<Rightarrow> bool" where
  "backed st c \<longleftrightarrow> (cp_status c = CheckpointCommitted \<longrightarrow> (\<exists>e \<in> set (rs_events st).
     ev_run_id e = cp_run_id c \<and> ev_stage_id e = cp_stage_id c \<and> ev_type e = EventStageCompleted
     \<and> ev_sequence e = cp_event_cursor c))"

definition committed_backed :: "run_store \<Rightarrow> bool" where
  "committed_backed st \<longleftrightarrow> (\<forall>c \<in> set (rs_checkpoints st). backed st c)"

text \<open>The invariant together with events that have been seen in the log.\<close>

definition backed_log :: "run_event set \<Rightarrow> run_store \<Rightarrow> bool" where
  "backed_log E st \<longleftrightarrow> committed_backed st \<and> E \<subseteq> set (rs_events st)"

lemma save_backed:
  assumes "\<And>st. P st \<Longrightarrow> backed_log E st \<and> backed st c"
  shows "triple P (save i now c) (\<lambda>s st. backed_log E st \<and> cp_run_id s = cp_run_id c \<and> cp_stage_id s = cp_stage_id c
    \<and> cp_status s = cp_status c) (backed_log E)"
  unfolding save_def
proof (rule triple_transaction)
  fix st s st'
  assume P: "P st" and s: "SaveStageCheckpoint i now c st = Inr (s, st')"
  note f = SaveStageCheckpoint_Inr [OF s]
  have "backed st s" using assms [OF P] f(1-4) by (simp add: backed_def)
  then have "\<forall>x \<in> set (rs_checkpoints st'). backed st x"
    using assms [OF P] f(9) by (auto simp: backed_log_def committed_backed_def)
  then show "backed_log E st' \<and> cp_run_id s = cp_run_id c \<and> cp_stage_id s = cp_stage_id c \<and> cp_status s = cp_status c"
    using assms [OF P] f(1-3,6) by (simp add: backed_log_def committed_backed_def backed_def)
qed (use assms in blast)

lemma save_keeps_backed:
  "cp_status c \<noteq> CheckpointCommitted \<Longrightarrow> keeps (backed_log E) (save i now c)"
  using save_backed [of "backed_log E" E c i now]
  by (auto simp: keeps_def triple_def backed_def split: prod.split_asm sum.split_asm) (metis prod.collapse sum.exhaust)

lemma create_event_backed:
  "triple (backed_log E) (create_event ck i now e) (\<lambda>x st. backed_log (insert x E) st \<and> ev_type x = ev_type e
     \<and> ev_run_id x = ev_run_id e \<and> ev_stage_id x = ev_stage_id e) (backed_log E)"
proof -
  have "case create_event ck i now e st of (Inr x, u) \<Rightarrow> backed_log (insert x E) u \<and> ev_type x = ev_type e
      \<and> ev_run_id x = ev_run_id e \<and> ev_stage_id x = ev_stage_id e | (Inl _, u) \<Rightarrow> backed_log E u"
    if st: "backed_log E st" for st
  proof (cases "create_event ck i now e st")
    case (Pair r u)
    show ?thesis
    proof (cases r)
      case (Inl err)
      then have "u = st" using Pair by (simp add: create_event_def transaction_Inl)
      then show ?thesis using Pair Inl st by simp
    next
      case (Inr x)
      note f = create_event_Inr [OF Pair [unfolded Inr]]
      have "committed_backed u" using st f(1) by (fastforce simp: backed_log_def committed_backed_def backed_def)
      then show ?thesis using Pair Inr f st by (auto simp: backed_log_def)
    qed
  qed
  then show ?thesis by (simp add: triple_def)
qed

lemma create_event_keeps_backed: "keeps (backed_log E) (create_event ck i now e)"
  unfolding create_event_def
proof (rule keeps_transaction)
  fix st x st'
  assume "backed_log E st" "map_error CheckpointStore (CreateRunEvent (ck_svc ck) i now e st) = Inr (x, st')"
  then show "backed_log E st'"
    using insert_event_fields [OF CreateRunEvent_Inr(1), of "ck_svc ck" i now e st x st']
    by (fastforce simp: backed_log_def committed_backed_def backed_def)
qed

lemma late_checkpoint_backed: "keeps (backed_log E) (late_checkpoint ck ids now step events base)"
  unfolding late_checkpoint_def Let_def
  by (intro keeps_intros save_keeps_backed create_event_keeps_backed)
    (auto split: option.split intro!: keeps_intros create_event_keeps_backed)

lemma prepare_transition_keeps:
  "keeps (backed_log E) (prepare_transition ck ids now step t events base existing)"
  unfolding prepare_transition_def
  by (auto split: option.split intro!: keeps_intros save_keeps_backed late_checkpoint_backed)

lemma prepare_transition_base:
  "prepare_transition ck ids now step t events base existing st = (Inr b, u) \<Longrightarrow>
     cp_run_id b = cp_run_id base \<and> cp_stage_id b = cp_stage_id base"
  unfolding prepare_transition_def
  by (auto simp: and_then_Inr split: if_split_asm option.split_asm)

lemma prepare_transition_backed:
  "triple (backed_log E) (prepare_transition ck ids now step t events base existing)
     (\<lambda>b st. backed_log E st \<and> cp_run_id b = cp_run_id base \<and> cp_stage_id b = cp_stage_id base) (backed_log E)"
proof -
  have "case prepare_transition ck ids now step t events base existing st of
      (Inr b, u) \<Rightarrow> backed_log E u \<and> cp_run_id b = cp_run_id base \<and> cp_stage_id b = cp_stage_id base
    | (Inl _, u) \<Rightarrow> backed_log E u" if "backed_log E st" for st
  proof (cases "prepare_transition ck ids now step t events base existing st")
    case (Pair r u)
    have "backed_log E u" using prepare_transition_keeps that Pair by (metis keeps_def snd_conv)
    then show ?thesis using Pair prepare_transition_base by (cases r) auto
  qed
  then show ?thesis by (simp add: triple_def)
qed

lemma RecordStageTransition_backed:
  assumes "committed_backed st"
  shows "committed_backed (snd (RecordStageTransition ck ids now step t st))"
proof -
  have final: "triple (\<lambda>st. backed_log E st \<and> e \<in> set (rs_events st) \<and> ev_type e = t \<and> ev_run_id e = step_run_id step
       \<and> ev_stage_id e = step_id step)
      (and_then (save (ids 4) now (transition_checkpoint ck step t (ev_sequence e) b)) (\<lambda>stored.
         and_then (create_event ck (ids 5) now (captured e stored)) (\<lambda>_. answer e))) (\<lambda>_. backed_log E) (backed_log E)"
    if b: "cp_run_id b = step_run_id step" "cp_stage_id b = step_id step" for E e b captured
  proof (rule triple_and_then)
    show "triple (\<lambda>st. backed_log E st \<and> e \<in> set (rs_events st) \<and> ev_type e = t \<and> ev_run_id e = step_run_id step
        \<and> ev_stage_id e = step_id step) (save (ids 4) now (transition_checkpoint ck step t (ev_sequence e) b))
        (\<lambda>_. backed_log E) (backed_log E)"
      by (rule triple_weaken [OF save_backed [where P = "\<lambda>st. backed_log E st \<and> e \<in> set (rs_events st) \<and> ev_type e = t
            \<and> ev_run_id e = step_run_id step \<and> ev_stage_id e = step_id step"]])
        (use b in \<open>auto simp: backed_def transition_checkpoint_def Let_def\<close>)
    show "triple (backed_log E) (and_then (create_event ck (ids 5) now (captured e stored)) (\<lambda>_. answer e))
        (\<lambda>_. backed_log E) (backed_log E)" for stored
      by (rule triple_keeps) (intro keeps_intros create_event_keeps_backed)
  qed
  have body: "triple (backed_log {}) (and_then (prepare_transition ck ids now step t events base existing) (\<lambda>b.
      and_then (create_event ck (ids 3) now (stageRunEvent step t)) (\<lambda>e.
      and_then (save (ids 4) now (transition_checkpoint ck step t (ev_sequence e) b)) (\<lambda>stored.
      and_then (create_event ck (ids 5) now (captured e stored)) (\<lambda>_. answer e))))) (\<lambda>_. backed_log {}) (backed_log {})"
    if base: "cp_run_id base = step_run_id step" "cp_stage_id base = step_id step" for events base existing captured
  proof (rule triple_and_then [OF prepare_transition_backed])
    fix b
    show "triple (\<lambda>st. backed_log {} st \<and> cp_run_id b = cp_run_id base \<and> cp_stage_id b = cp_stage_id base)
      (and_then (create_event ck (ids 3) now (stageRunEvent step t)) (\<lambda>e.
       and_then (save (ids 4) now (transition_checkpoint ck step t (ev_sequence e) b)) (\<lambda>stored.
       and_then (create_event ck (ids 5) now (captured e stored)) (\<lambda>_. answer e)))) (\<lambda>_. backed_log {}) (backed_log {})"
    proof (cases "cp_run_id b = cp_run_id base \<and> cp_stage_id b = cp_stage_id base")
      case True
      have "triple (backed_log {}) (and_then (create_event ck (ids 3) now (stageRunEvent step t)) (\<lambda>e.
         and_then (save (ids 4) now (transition_checkpoint ck step t (ev_sequence e) b)) (\<lambda>stored.
         and_then (create_event ck (ids 5) now (captured e stored)) (\<lambda>_. answer e)))) (\<lambda>_. backed_log {}) (backed_log {})"
        by (rule triple_and_then [OF create_event_backed triple_weaken [OF final]])
          (use True base in \<open>auto simp: backed_log_def stageRunEvent_def\<close>)
      then show ?thesis using True by simp
    qed (auto simp: triple_def)
  qed
  have run: "backed_log {} (snd (and_then (prepare_transition ck ids now step t events base existing) (\<lambda>b.
      and_then (create_event ck (ids 3) now (stageRunEvent step t)) (\<lambda>e.
      and_then (save (ids 4) now (transition_checkpoint ck step t (ev_sequence e) b)) (\<lambda>stored.
      and_then (create_event ck (ids 5) now (captured e stored)) (\<lambda>_. answer e)))) st))"
    if "cp_run_id base = step_run_id step" "cp_stage_id base = step_id step" for events base existing captured
    by (rule triple_run [OF body [OF that]]) (simp add: backed_log_def assms)
  have base: "cp_run_id (base_checkpoint ck step h n) = step_run_id step"
    "cp_stage_id (base_checkpoint ck step h n) = step_id step" for h n
    by (simp_all add: base_checkpoint_def)
  show ?thesis
    using assms run [OF base, unfolded backed_log_def]
    by (auto simp: RecordStageTransition_def Let_def and_then_def [of "from_result r" for r] from_result_def
        split: option.split sum.split)
qed

section \<open>Restoring keeps committed rows backed\<close>

lemma publish_event_backed: "keeps (backed_log E) (publish_event ck i now r stage t p)"
  unfolding publish_event_def by (intro keeps_intros create_event_keeps_backed)

lemma compensateInternalState_backed: "keeps (backed_log E) (compensateInternalState ck err ids now r c)"
  unfolding compensateInternalState_def Let_def
  by (intro keeps_intros publish_event_backed)
    (auto intro!: keeps_intros publish_event_backed save_keeps_backed)

lemma restore_stage_backed:
  assumes "backed_log E st"
  shows "backed_log E (snd (restore_stage ck err ids now r c report st))"
proof -
  obtain x u where x: "publish_event ck (ids 0) now r (cp_stage_id c) EventCheckpointRestored (checkpointPayload c) st = (x, u)"
    by (metis prod.exhaust)
  obtain y v where y: "compensateInternalState ck err ids now r c st = (y, v)" by (metis prod.exhaust)
  have "backed_log E u" "backed_log E v"
    using publish_event_backed compensateInternalState_backed assms x y by (metis keeps_def snd_conv)+
  then show ?thesis
    using assms by (cases x; cases y) (simp_all add: restore_stage_def Let_def x y)
qed

text \<open>A planned action reconciles a row with a terminal of its own stage that is in the log.\<close>

definition terminal_of :: "run_event set \<Rightarrow> stage_restore \<Rightarrow> bool" where
  "terminal_of E a \<longleftrightarrow> (\<forall>e. sr_terminal a = Some e \<longrightarrow> e \<in> E \<and> ev_run_id e = cp_run_id (sr_checkpoint a)
     \<and> ev_stage_id e = cp_stage_id (sr_checkpoint a) \<and> stage_terminal (ev_type e)
     \<and> cp_event_cursor (sr_checkpoint a) < ev_sequence e
     \<and> cp_status (sr_checkpoint a) \<in> {CheckpointPrepared, CheckpointExecuting})"

lemma reconcileStageTerminal_backed:
  assumes "e \<in> E" and "ev_run_id e = cp_run_id c" and "ev_stage_id e = cp_stage_id c"
  shows "keeps (backed_log E) (reconcileStageTerminal ck now c e)"
proof -
  have save: "keeps (backed_log E) (save i now d)"
    if "cp_status d = CheckpointCommitted \<longrightarrow> cp_event_cursor d = ev_sequence e \<and> ev_type e = EventStageCompleted
      \<and> cp_run_id d = cp_run_id c \<and> cp_stage_id d = cp_stage_id c" for i d
  proof -
    have "triple (backed_log E) (save i now d) (\<lambda>s st. backed_log E st \<and> cp_run_id s = cp_run_id d
        \<and> cp_stage_id s = cp_stage_id d \<and> cp_status s = cp_status d) (backed_log E)"
      by (rule save_backed) (use that assms in \<open>auto simp: backed_log_def backed_def\<close>)
    then show ?thesis unfolding triple_def keeps_def by (fastforce split: prod.splits sum.splits)
  qed
  show ?thesis
  proof (cases "ev_type e = EventStageCompleted")
    case True
    let ?next = "c\<lparr>cp_event_cursor := ev_sequence e\<rparr>"
    have "triple (backed_log E) (if cp_status c = CheckpointPrepared then save [] now (?next\<lparr>cp_status := CheckpointExecuting\<rparr>)
        else answer ?next) (\<lambda>n st. backed_log E st \<and> cp_run_id n = cp_run_id c \<and> cp_stage_id n = cp_stage_id c
          \<and> cp_event_cursor n = ev_sequence e) (backed_log E)"
    proof (cases "cp_status c = CheckpointPrepared")
      case prepared: True
      have "triple (backed_log E) (save [] now (?next\<lparr>cp_status := CheckpointExecuting\<rparr>))
        (\<lambda>n st. backed_log E st \<and> cp_run_id n = cp_run_id c \<and> cp_stage_id n = cp_stage_id c
          \<and> cp_event_cursor n = ev_sequence e) (backed_log E)"
        unfolding save_def
      proof (rule triple_transaction)
        fix st s st'
        assume "backed_log E st" and s: "SaveStageCheckpoint [] now (?next\<lparr>cp_status := CheckpointExecuting\<rparr>) st = Inr (s, st')"
        moreover have "keeps (backed_log E) (save [] now (?next\<lparr>cp_status := CheckpointExecuting\<rparr>))" by (rule save) simp
        ultimately have "backed_log E st'" by (force simp: keeps_def save_def transaction_def)
        then show "backed_log E st' \<and> cp_run_id s = cp_run_id c \<and> cp_stage_id s = cp_stage_id c
            \<and> cp_event_cursor s = ev_sequence e"
          using SaveStageCheckpoint_Inr(1,2,4) [OF s] by simp
      qed
      then show ?thesis using prepared by simp
    qed (auto intro!: triple_answer)
    moreover have "triple (\<lambda>st. backed_log E st \<and> cp_run_id n = cp_run_id c \<and> cp_stage_id n = cp_stage_id c
          \<and> cp_event_cursor n = ev_sequence e)
        (save [] now (n\<lparr>cp_status := CheckpointCommitted, cp_output_hash := h, cp_error := []\<rparr>)) (\<lambda>_. backed_log E) (backed_log E)"
      for n h
    proof (cases "cp_run_id n = cp_run_id c \<and> cp_stage_id n = cp_stage_id c \<and> cp_event_cursor n = ev_sequence e")
      case n: True
      have "keeps (backed_log E) (save [] now (n\<lparr>cp_status := CheckpointCommitted, cp_output_hash := h, cp_error := []\<rparr>))"
        by (rule save) (simp add: n True)
      then show ?thesis using n triple_keeps by fastforce
    qed (auto simp: triple_def)
    ultimately have "triple (backed_log E) (reconcileStageTerminal ck now c e) (\<lambda>_. backed_log E) (backed_log E)"
      unfolding reconcileStageTerminal_def Let_def using True by (auto intro!: triple_and_then)
    then show ?thesis by (simp add: keeps_def triple_run)
  next
    case False
    then show ?thesis
      unfolding reconcileStageTerminal_def Let_def by (auto intro!: keeps_intros save)
  qed
qed

lemma restore_actions_backed:
  "backed_log E st \<Longrightarrow> \<forall>a \<in> set plan. terminal_of E a \<Longrightarrow>
     backed_log E (snd (restore_actions ck err ids now r i plan report st))"
proof (induction plan arbitrary: i report st)
  case (Cons a plan)
  have "backed_log E (snd (restore_action ck err (ids i) now r a report st))"
  proof (cases "sr_terminal a")
    case (Some e)
    obtain x u where x: "reconcileStageTerminal ck now (sr_checkpoint a) e st = (x, u)" by (metis prod.exhaust)
    have "keeps (backed_log E) (reconcileStageTerminal ck now (sr_checkpoint a) e)"
      using reconcileStageTerminal_backed [of e E "sr_checkpoint a" ck now] Cons.prems(2) Some by (simp add: terminal_of_def)
    then have "backed_log E u" using Cons.prems(1) x by (metis keeps_def snd_conv)
    then show ?thesis by (cases x) (simp_all add: restore_action_def Some x restore_stage_backed)
  qed (simp add: restore_action_def restore_stage_backed Cons.prems)
  then show ?case
    using Cons.IH Cons.prems(2) by (auto split: prod.split option.split)
qed simp

section \<open>Plans\<close>

lemma plan_all_Inr:
  "plan_all f xs = Inr ys \<longleftrightarrow> length ys = length xs \<and> (\<forall>i < length xs. f (xs ! i) = Inr (ys ! i))"
proof (induction xs arbitrary: ys)
  case (Cons x xs)
  then show ?case by (cases ys) (auto simp: bind_result_Inr nth_Cons split: nat.split)
qed auto

lemma stageTerminalAfter_Some:
  "stageTerminalAfter events stage cursor = Some e \<Longrightarrow> e \<in> set events \<and> cursor < ev_sequence e
     \<and> ev_stage_id e = stage \<and> stage_terminal (ev_type e)"
  by (auto simp: stageTerminalAfter_def find_Some_iff)

text \<open>What a planned action says of its row and of the effects of the stage.\<close>

definition certain :: "checkpoint_status \<Rightarrow> tool_effect list \<Rightarrow> bool" where
  "certain s effects \<longleftrightarrow> (s \<noteq> CheckpointCommitted \<longrightarrow> (\<forall>e \<in> set effects. eff_status e \<noteq> ToolEffectCommitted))
     \<and> (s \<noteq> CheckpointCommitted \<and> s \<noteq> CheckpointCompensated \<longrightarrow> (\<forall>e \<in> set effects. eff_status e = ToolEffectCompensated))"

lemma plan_one_Inr:
  assumes "plan_one hashes events effects c = Inr a"
  shows "sr_checkpoint a = c" "sr_terminal a = planned_terminal c events" "cp_provider c = InternalStateProvider"
    "planned_status c (sr_terminal a) \<in> {CheckpointCommitted, CheckpointCompensated, CheckpointPrepared,
       CheckpointExecuting, CheckpointNeedsReconciliation}"
    "certain (planned_status c (sr_terminal a)) (filter (\<lambda>e. eff_stage_id e = cp_stage_id c) effects)"
    "sr_terminal a \<noteq> None \<Longrightarrow> planned_status c (sr_terminal a) = CheckpointCommitted \<Longrightarrow>
       \<forall>e \<in> set effects. eff_stage_id e = cp_stage_id c \<longrightarrow> eff_status e \<in> {ToolEffectCommitted, ToolEffectCompensated}"
  using assms
  by (auto simp: plan_one_def planStageRestore_def Let_def certain_def hasUncertainEffect_def split: if_split_asm)

lemma planned_terminal_of:
  assumes "plan_one hashes (ListRunEvents st rid) effects c = Inr a" and "cp_run_id c = rid"
  shows "terminal_of (set (rs_events st)) a"
  using plan_one_Inr(1,2) [OF assms(1)] assms(2)
  by (auto simp: terminal_of_def planned_terminal_def ListRunEvents_def run_log_def
      dest!: stageTerminalAfter_Some split: if_split_asm)

lemma planRestore_Inr:
  assumes "planRestore ck r st = Inr plan"
  obtains hashes where "RuntimeHashes ck (run_snapshot r) = Inr hashes"
    "plan_all (plan_one hashes (ListRunEvents st (run_id r)) (ListToolEffects st (run_id r)))
       (ListStageCheckpoints st (run_id r)) = Inr plan"
  using assms by (auto simp: planRestore_def bind_result_Inr)

lemma ListStageCheckpoints_set: "set (ListStageCheckpoints st rid) = {c \<in> set (rs_checkpoints st). cp_run_id c = rid}"
  by (auto simp: ListStageCheckpoints_def)

lemma RestoreRun_backed:
  assumes "committed_backed st"
  shows "committed_backed (snd (RestoreRun ck err ids now r st))"
proof (cases "planRestore ck r st")
  case (Inr plan)
  obtain hashes where p: "plan_all (plan_one hashes (ListRunEvents st (run_id r)) (ListToolEffects st (run_id r)))
       (ListStageCheckpoints st (run_id r)) = Inr plan"
    by (rule planRestore_Inr [OF Inr])
  have "\<forall>a \<in> set plan. terminal_of (set (rs_events st)) a"
  proof
    fix a
    assume "a \<in> set plan"
    then obtain i where i: "i < length plan" "a = plan ! i" by (metis in_set_conv_nth)
    then have "plan_one hashes (ListRunEvents st (run_id r)) (ListToolEffects st (run_id r))
        (ListStageCheckpoints st (run_id r) ! i) = Inr a" "ListStageCheckpoints st (run_id r) ! i \<in> set (ListStageCheckpoints st (run_id r))"
      using p by (simp_all add: plan_all_Inr)
    then show "terminal_of (set (rs_events st)) a"
      using planned_terminal_of by (simp add: ListStageCheckpoints_set)
  qed
  then have "backed_log (set (rs_events st)) (snd (RestoreRun ck err ids now r st))"
    using restore_actions_backed [of "set (rs_events st)" st plan] assms
    by (simp add: RestoreRun_def Let_def Inr backed_log_def)
  then show ?thesis by (simp add: backed_log_def)
qed (simp add: RestoreRun_def assms)

end
