(* ===== verification/Restore_Run.thy ===== *)
theory Restore_Run
  imports Checkpoint_Guarantees
begin

text \<open>
  A planned restore succeeds: with fresh event identifiers every action of the plan settles its
  row and leaves everything else but the Run's log alone.
\<close>

section \<open>Single transactions that succeed\<close>

text \<open>The change to one row, with new events whose identifiers are in \<open>I\<close>.\<close>

definition only_row :: "string \<Rightarrow> string \<Rightarrow> string set \<Rightarrow> run_store \<Rightarrow> run_store \<Rightarrow> bool" where
  "only_row rid stage I st st' \<longleftrightarrow> rs_runs st' = rs_runs st \<and> rs_effects st' = rs_effects st \<and> store_wf st'
     \<and> (\<exists>es. rs_events st' = rs_events st @ es \<and> ev_id ` set es \<subseteq> I \<and> (\<forall>e \<in> set es. ev_run_id e = rid))
     \<and> (\<forall>r s. (r, s) \<noteq> (rid, stage) \<longrightarrow> getStageCheckpoint st' r s = getStageCheckpoint st r s)"

lemma only_row_refl: "store_wf st \<Longrightarrow> only_row rid stage I st st"
  by (simp add: only_row_def)

lemma only_row_trans:
  assumes "only_row rid stage I st st'" and "only_row rid stage J st' st''" and "I \<union> J \<subseteq> K"
  shows "only_row rid stage K st st''"
proof -
  obtain es es' where "rs_events st' = rs_events st @ es" "rs_events st'' = rs_events st' @ es'"
    "ev_id ` set es \<subseteq> I" "ev_id ` set es' \<subseteq> J" "\<forall>e \<in> set es. ev_run_id e = rid" "\<forall>e \<in> set es'. ev_run_id e = rid"
    using assms(1,2) by (auto simp: only_row_def)
  then have "rs_events st'' = rs_events st @ (es @ es')" "ev_id ` set (es @ es') \<subseteq> K" "\<forall>e \<in> set (es @ es'). ev_run_id e = rid"
    using assms(3) by (simp_all add: image_Un) blast+
  then show ?thesis using assms(1,2) unfolding only_row_def by (metis (no_types, lifting))
qed

lemma only_row_fresh:
  "only_row rid stage I st st' \<Longrightarrow> i \<notin> I \<Longrightarrow> i \<notin> ev_id ` set (rs_events st) \<Longrightarrow> i \<notin> ev_id ` set (rs_events st')"
  by (auto simp: only_row_def image_subset_iff)

lemma only_row_run: "only_row rid stage I st st' \<Longrightarrow> get_run st' i = get_run st i"
  by (simp add: only_row_def get_run_def)

text \<open>Where a restore of one stage runs: the Run exists and its names are not blank.\<close>

definition restorable :: "run_store \<Rightarrow> string \<Rightarrow> string \<Rightarrow> bool" where
  "restorable st rid stage \<longleftrightarrow> store_wf st \<and> get_run st rid \<noteq> None \<and> trim_space rid \<noteq> [] \<and> trim_space stage \<noteq> []"

lemma restorable_step: "only_row rid stage I st st' \<Longrightarrow> restorable st rid stage \<Longrightarrow> restorable st' rid stage"
  by (auto simp: restorable_def only_row_run) (simp add: only_row_def)

lemma save_succeeds:
  assumes "restorable st rid stage" and "getStageCheckpoint st rid stage = Some e"
    and "cp_run_id c = rid" and "cp_stage_id c = stage"
    and "ValidateStageCheckpoint c = None" and "ValidateCheckpointUpdate e c = None"
  obtains s st' where "save i now c st = (Inr s, st')" "s = updated_checkpoint now e c"
    "only_row rid stage I st st'" "getStageCheckpoint st' rid stage = Some s"
proof -
  let ?s = "updated_checkpoint now e c" and ?st = "put_checkpoint (updated_checkpoint now e c) st"
  have s: "SaveStageCheckpoint i now c st = Inr (?s, ?st)"
    using assms by (simp add: SaveStageCheckpoint_def Let_def)
  have wf: "store_wf ?st" using assms(1) store_wf_cong [of ?st st] by (simp add: restorable_def)
  have "getStageCheckpoint ?st r t = (if r = rid \<and> t = stage then Some ?s else getStageCheckpoint st r t)" for r t
    using SaveStageCheckpoint_Inr(8) [OF s, of r t] assms(3,4) by simp
  then have "only_row rid stage I st ?st" "getStageCheckpoint ?st rid stage = Some ?s"
    using wf by (auto simp: only_row_def)
  then show thesis using that [of ?s ?st] s by (simp add: save_def)
qed

lemma checkpoint_event_scoped:
  assumes "ev_type e = Checkpoint_event k" and "trim_space (ev_run_id e) \<noteq> []" and "trim_space (ev_stage_id e) \<noteq> []"
    and "ev_schema_version e = 1"
  shows "scoped e"
  using assms by (cases k) (simp_all add: scoped_def scope_satisfied_def registered_def scope_stage_def
      scope_optional_def CurrentRunEventSchemaVersion_def)

lemma publish_succeeds:
  assumes "restorable st rid stage" and "run_id r = rid" and "i \<notin> ev_id ` set (rs_events st)"
  obtains st' where "publish_event ck i now r stage (Checkpoint_event k) p st = (Inr (), st')"
    "only_row rid stage {i} st st'" "getStageCheckpoint st' rid stage = getStageCheckpoint st rid stage"
proof -
  let ?e = "zero_event\<lparr>ev_type := Checkpoint_event k, ev_run_id := run_id r, ev_conversation_id := run_conversation_id r,
          ev_stage_id := stage, ev_payload := p\<rparr>"
  let ?x = "?e\<lparr>ev_id := i, ev_schema_version := 1, ev_payload := redact_map (ck_svc ck) p, ev_timestamp := now\<rparr>"
  let ?y = "?x\<lparr>ev_sequence := max_sequence st (run_id r) + 1\<rparr>"
  have sc: "scoped ?x" using assms by (intro checkpoint_event_scoped) (simp_all add: restorable_def)
  then have "ValidateDurableFact (check_payload (ck_svc ck)) ?x = None" by (simp add: ValidateDurableFact_iff)
  then have prep: "preparePostgresRunEvent (ck_svc ck) i ?e now = Inr ?x"
    by (simp add: preparePostgresRunEvent_def Let_def zero_event_def CurrentRunEventSchemaVersion_def trim_Nil)
  have ins: "insert_event ?y st = Inr (st\<lparr>rs_events := rs_events st @ [?y]\<rparr>)"
    using assms by (simp add: insert_event_def restorable_def)
  have "create_event ck i now ?e st = (Inr ?y, st\<lparr>rs_events := rs_events st @ [?y]\<rparr>)"
    using prep ins by (simp add: create_event_def CreateRunEvent_def Let_def)
  then have pub: "publish_event ck i now r stage (Checkpoint_event k) p st = (Inr (), st\<lparr>rs_events := rs_events st @ [?y]\<rparr>)"
    by (simp add: publish_event_def and_then_def answer_def)
  have "store_wf (st\<lparr>rs_events := rs_events st @ [?y]\<rparr>)"
    using insert_event_wf [OF ins] assms(1) scoped_sequence [OF sc] by (simp add: restorable_def)
  then have "only_row rid stage {i} st (st\<lparr>rs_events := rs_events st @ [?y]\<rparr>)"
    using assms(2) by (auto simp: only_row_def)
  then show thesis using that [OF pub] by simp
qed

section \<open>One stage\<close>

lemma ValidateStageCheckpoint_None:
  "ValidateStageCheckpoint c = None \<longleftrightarrow> trim_space (cp_provider c) \<noteq> [] \<and> trim_space (cp_run_id c) \<noteq> []
     \<and> trim_space (cp_stage_id c) \<noteq> [] \<and> cp_status c \<noteq> CheckpointOther [] \<and> cp_input_hash c \<noteq> []
     \<and> cp_snapshot_hash c \<noteq> [] \<and> cp_tools_hash c \<noteq> []"
  by (auto simp: ValidateStageCheckpoint_def)

lemma ValidateStageCheckpoint_status:
  "ValidateStageCheckpoint c = None \<Longrightarrow> s \<noteq> CheckpointOther [] \<Longrightarrow>
     ValidateStageCheckpoint (c\<lparr>cp_status := s, cp_error := e\<rparr>) = None
     \<and> ValidateStageCheckpoint (c\<lparr>cp_status := s\<rparr>) = None"
  by (simp add: ValidateStageCheckpoint_None split: if_split_asm)

lemma updated_validate:
  "ValidateStageCheckpoint c = None \<Longrightarrow> checkpoint_key e = checkpoint_key c \<Longrightarrow> ValidateCheckpointUpdate e c = None
    \<Longrightarrow> ValidateStageCheckpoint (updated_checkpoint now e c) = None"
  by (simp add: ValidateStageCheckpoint_None updated_checkpoint_def ValidateCheckpointUpdate_def checkpoint_key_def
      split: if_split_asm)

lemma compensate_succeeds:
  assumes "restorable st rid stage" and "run_id r = rid" and "getStageCheckpoint st rid stage = Some c"
    and "ValidateStageCheckpoint c = None"
    and "cp_status c \<in> {CheckpointPrepared, CheckpointExecuting, CheckpointNeedsReconciliation}"
    and "ids 0 \<noteq> ids 2" and "ids 0 \<notin> ev_id ` set (rs_events st)" and "ids 2 \<notin> ev_id ` set (rs_events st)"
  obtains s st' where "compensateInternalState ck err ids now r c st = (Inr s, st')"
    "only_row rid stage {ids 0, ids 2} st st'" "getStageCheckpoint st' rid stage = Some s"
    "cp_status s = CheckpointCompensated" "cp_stage_id s = stage"
proof -
  have key: "cp_run_id c = rid" "cp_stage_id c = stage" using getStageCheckpoint_Some [OF assms(3)] by simp_all
  obtain st1 where p1: "publish_event ck (ids 0) now r stage EventCompensationStarted (checkpointPayload c) st = (Inr (), st1)"
    "only_row rid stage {ids 0} st st1" "getStageCheckpoint st1 rid stage = Some c"
    by (rule publish_succeeds [OF assms(1,2,7)]) (use assms(3) in auto)
  note r1 = restorable_step [OF p1(2) assms(1)]
  let ?m = "if cp_status c = CheckpointNeedsReconciliation then answer c
     else on_error (save [] now (c\<lparr>cp_status := CheckpointNeedsReconciliation, cp_error := interrupted_stage\<rparr>))
       (\<lambda>e. ignoring (publish_event ck (ids 1) now r (cp_stage_id c) EventCompensationFailed [''error'' \<mapsto> VString (err e)]))"
  obtain d st2 where d: "?m st1 = (Inr d, st2)" "only_row rid stage {ids 0} st st2"
    "getStageCheckpoint st2 rid stage = Some d" "cp_status d = CheckpointNeedsReconciliation"
    "ValidateStageCheckpoint d = None"
  proof (cases "cp_status c = CheckpointNeedsReconciliation")
    case True
    then show thesis using that [of c st1] p1 assms(4) by (simp add: answer_def)
  next
    case False
    let ?c = "c\<lparr>cp_status := CheckpointNeedsReconciliation, cp_error := interrupted_stage\<rparr>"
    have v: "ValidateStageCheckpoint ?c = None" "ValidateCheckpointUpdate c ?c = None"
      using assms(4,5) False by (auto simp: ValidateStageCheckpoint_status ValidateCheckpointUpdate_def)
    obtain s st2 where "save [] now ?c st1 = (Inr s, st2)" "s = updated_checkpoint now c ?c"
      "only_row rid stage {} st1 st2" "getStageCheckpoint st2 rid stage = Some s"
      by (rule save_succeeds [OF r1 p1(3) _ _ v]) (use key in auto)
    then show thesis
      using that [of s st2] False only_row_trans [OF p1(2), of "{}" st2 "{ids 0}"] updated_validate [OF v(1) _ v(2)]
      by (simp add: on_error_def checkpoint_key_def)
  qed
  note r2 = restorable_step [OF d(2) assms(1)]
  have dkey: "cp_run_id d = rid" "cp_stage_id d = stage" using getStageCheckpoint_Some [OF d(3)] by simp_all
  have v: "ValidateStageCheckpoint (d\<lparr>cp_status := CheckpointCompensated\<rparr>) = None"
    "ValidateCheckpointUpdate d (d\<lparr>cp_status := CheckpointCompensated\<rparr>) = None"
    using d(4,5) by (auto simp: ValidateStageCheckpoint_status ValidateCheckpointUpdate_def)
  obtain s st3 where s: "save [] now (d\<lparr>cp_status := CheckpointCompensated\<rparr>) st2 = (Inr s, st3)"
    "s = updated_checkpoint now d (d\<lparr>cp_status := CheckpointCompensated\<rparr>)"
    "only_row rid stage {} st2 st3" "getStageCheckpoint st3 rid stage = Some s"
    by (rule save_succeeds [OF r2 d(3) _ _ v]) (use dkey in auto)
  have o3: "only_row rid stage {ids 0} st st3" by (rule only_row_trans [OF d(2) s(3)]) simp
  have f: "ids 2 \<notin> ev_id ` set (rs_events st3)" by (rule only_row_fresh [OF o3 _ assms(8)]) (use assms(6) in auto)
  obtain st4 where p4: "publish_event ck (ids 2) now r stage EventCompensationCompleted (checkpointPayload s) st3 = (Inr (), st4)"
    "only_row rid stage {ids 2} st3 st4" "getStageCheckpoint st4 rid stage = Some s"
    by (rule publish_succeeds [OF restorable_step [OF o3 assms(1)] assms(2) f]) (use s(4) in auto)
  have p1': "publish_event ck (ids 0) now r (cp_stage_id c) EventCompensationStarted (checkpointPayload c) st = (Inr (), st1)"
    and p4': "publish_event ck (ids 2) now r (cp_stage_id d) EventCompensationCompleted (checkpointPayload s) st3 = (Inr (), st4)"
    using p1(1) p4(1) key dkey by simp_all
  have s': "on_error (save [] now (d\<lparr>cp_status := CheckpointCompensated\<rparr>)) h st2 = (Inr s, st3)" for h
    using s(1) by simp
  have "compensateInternalState ck err ids now r c st = (Inr s, st4)"
    unfolding compensateInternalState_def Let_def
    by (rule and_then_run, rule p1', rule and_then_run, rule d(1), rule and_then_run, rule s', rule and_then_run, rule p4')
      (simp add: answer_def)
  moreover have "only_row rid stage {ids 0, ids 2} st st4" by (rule only_row_trans [OF o3 p4(2)]) auto
  ultimately show thesis using that [of s st4] p4(3) s(2) dkey by simp
qed

text \<open>A terminal that the row has missed is applied to it.\<close>

lemma reconcile_succeeds:
  assumes "restorable st rid stage" and "getStageCheckpoint st rid stage = Some c"
    and "ValidateStageCheckpoint c = None" and "cp_status c \<in> {CheckpointPrepared, CheckpointExecuting}"
    and "stage_terminal (ev_type e)" and "cp_event_cursor c < ev_sequence e"
  obtains s st' where "reconcileStageTerminal ck now c e st = (Inr s, st')" "only_row rid stage {} st st'"
    "getStageCheckpoint st' rid stage = Some s" "cp_status s = planned_status c (Some e)"
    "ValidateStageCheckpoint s = None"
proof -
  have key: "cp_run_id c = rid" "cp_stage_id c = stage" using getStageCheckpoint_Some [OF assms(2)] by simp_all
  let ?next = "c\<lparr>cp_event_cursor := ev_sequence e\<rparr>" and ?p = "stored_payload (ev_payload e)"
  have same: "ValidateStageCheckpoint ?next = None" using assms(3) by (simp add: ValidateStageCheckpoint_None)
  show thesis
  proof (cases "ev_type e = EventStageCompleted")
    case True
    let ?m = "if cp_status c = CheckpointPrepared then save [] now (?next\<lparr>cp_status := CheckpointExecuting\<rparr>) else answer ?next"
    obtain d st1 f where d: "?m st = (Inr d, st1)" "only_row rid stage {} st st1" "getStageCheckpoint st1 rid stage = Some f"
      "same_stage f d" "cp_status f = CheckpointExecuting" "cp_event_cursor f \<le> ev_sequence e"
      "cp_event_cursor d = ev_sequence e" "ValidateStageCheckpoint d = None"
    proof (cases "cp_status c = CheckpointPrepared")
      case prepared: True
      let ?c = "?next\<lparr>cp_status := CheckpointExecuting\<rparr>"
      have v: "ValidateStageCheckpoint ?c = None" "ValidateCheckpointUpdate c ?c = None"
        using same assms(6) prepared by (auto simp: ValidateStageCheckpoint_status ValidateCheckpointUpdate_def)
      obtain s st1 where "save [] now ?c st = (Inr s, st1)" "s = updated_checkpoint now c ?c"
        "only_row rid stage {} st st1" "getStageCheckpoint st1 rid stage = Some s"
        by (rule save_succeeds [OF assms(1,2) _ _ v]) (use key in auto)
      then show thesis
        using that [of s st1 s] prepared updated_validate [OF v(1) _ v(2)] by (simp add: same_stage_def checkpoint_key_def)
    next
      case False
      then have "cp_status c = CheckpointExecuting" using assms(4) by simp
      moreover have "only_row rid stage {} st st" using assms(1) by (simp add: only_row_refl restorable_def)
      moreover have "?m st = (Inr ?next, st)" using False by (simp add: answer_def)
      ultimately show thesis
        using that [OF _ _ assms(2), of ?next] assms(6) same by (simp add: same_stage_def)
    qed
    have dkey: "cp_run_id d = rid" "cp_stage_id d = stage"
      using getStageCheckpoint_Some [OF d(3)] d(4) by (simp_all add: same_stage_def)
    let ?c = "d\<lparr>cp_status := CheckpointCommitted, cp_output_hash := ck_hash ck (payload_string ?p ''output''), cp_error := []\<rparr>"
    have v: "ValidateStageCheckpoint ?c = None" "ValidateCheckpointUpdate f ?c = None"
      using d(4-8) by (simp_all add: ValidateStageCheckpoint_None ValidateCheckpointUpdate_def same_stage_def split: if_split_asm)
    obtain s st2 where s: "save [] now ?c st1 = (Inr s, st2)" "s = updated_checkpoint now f ?c"
      "only_row rid stage {} st1 st2" "getStageCheckpoint st2 rid stage = Some s"
      by (rule save_succeeds [OF restorable_step [OF d(2) assms(1)] d(3) _ _ v]) (use dkey in auto)
    have "reconcileStageTerminal ck now c e st = (Inr s, st2)"
      using True d(1) s(1) by (simp add: reconcileStageTerminal_def Let_def and_then_def [of ?m])
    moreover have "only_row rid stage {} st st2" by (rule only_row_trans [OF d(2) s(3)]) simp
    moreover have "ValidateStageCheckpoint s = None"
      using updated_validate [OF v(1) _ v(2)] s(2) d(4) by (simp add: checkpoint_key_def same_stage_def)
    ultimately show thesis using that [of s st2] s(2,4) True by (simp add: planned_status_def)
  next
    case False
    let ?c = "?next\<lparr>cp_status := CheckpointNeedsReconciliation, cp_error := payload_string ?p ''error''\<rparr>"
    have v: "ValidateStageCheckpoint ?c = None" "ValidateCheckpointUpdate c ?c = None"
      using same assms(4,6) by (auto simp: ValidateStageCheckpoint_status ValidateCheckpointUpdate_def)
    obtain s st1 where s: "save [] now ?c st = (Inr s, st1)" "s = updated_checkpoint now c ?c"
      "only_row rid stage {} st st1" "getStageCheckpoint st1 rid stage = Some s"
      by (rule save_succeeds [OF assms(1,2) _ _ v]) (use key in auto)
    have "ValidateStageCheckpoint s = None"
      using updated_validate [OF v(1) _ v(2)] s(2) by (simp add: checkpoint_key_def)
    then show thesis
      using that [of s st1] s False assms(5) by (simp add: reconcileStageTerminal_def Let_def planned_status_def)
  qed
qed

definition settled_status :: "checkpoint_status \<Rightarrow> checkpoint_status" where
  "settled_status s = (if s = CheckpointCommitted then CheckpointCommitted else CheckpointCompensated)"

definition add_stage :: "checkpoint_status \<Rightarrow> string \<Rightarrow> restore_report \<Rightarrow> restore_report" where
  "add_stage s stage report =
     (if s = CheckpointCommitted then report\<lparr>committed_stages := committed_stages report @ [stage]\<rparr>
      else report\<lparr>compensated_stages := compensated_stages report @ [stage]\<rparr>)"

definition fresh_ids :: "(nat \<Rightarrow> string) \<Rightarrow> run_store \<Rightarrow> bool" where
  "fresh_ids ids st \<longleftrightarrow> ids 0 \<noteq> ids 2 \<and> ids 0 \<notin> ev_id ` set (rs_events st) \<and> ids 2 \<notin> ev_id ` set (rs_events st)"

lemma restore_stage_succeeds:
  assumes "restorable st rid stage" and "run_id r = rid" and "getStageCheckpoint st rid stage = Some c"
    and "ValidateStageCheckpoint c = None" and "fresh_ids ids st"
    and "cp_status c \<in> {CheckpointCommitted, CheckpointCompensated, CheckpointPrepared, CheckpointExecuting,
       CheckpointNeedsReconciliation}"
  obtains s st' where "restore_stage ck err ids now r c report st = ((add_stage (cp_status c) stage report, None), st')"
    "only_row rid stage {ids 0, ids 2} st st'" "getStageCheckpoint st' rid stage = Some s"
    "cp_status s = settled_status (cp_status c)"
proof -
  have key: "cp_stage_id c = stage" using getStageCheckpoint_Some [OF assms(3)] by simp
  have ids: "ids 0 \<noteq> ids 2" "ids 0 \<notin> ev_id ` set (rs_events st)" "ids 2 \<notin> ev_id ` set (rs_events st)"
    using assms(5) by (simp_all add: fresh_ids_def)
  consider (committed) "cp_status c = CheckpointCommitted" | (compensated) "cp_status c = CheckpointCompensated"
    | (open_row) "cp_status c \<in> {CheckpointPrepared, CheckpointExecuting, CheckpointNeedsReconciliation}"
    using assms(6) by auto
  then show thesis
  proof cases
    case committed
    obtain st1 where p: "publish_event ck (ids 0) now r stage EventCheckpointRestored (checkpointPayload c) st = (Inr (), st1)"
      "only_row rid stage {ids 0} st st1" "getStageCheckpoint st1 rid stage = Some c"
      by (rule publish_succeeds [OF assms(1,2) ids(2)]) (use assms(3) in auto)
    have "only_row rid stage {ids 0, ids 2} st st1"
      by (rule only_row_trans [OF p(2) only_row_refl, where J = "{}"]) (use p(2) in \<open>auto simp: only_row_def\<close>)
    then show thesis
      using that [of st1 c] committed p key by (simp add: restore_stage_def Let_def add_stage_def settled_status_def)
  next
    case compensated
    have "only_row rid stage {ids 0, ids 2} st st" using assms(1) by (simp add: only_row_refl restorable_def)
    then show thesis
      using that [of st c] compensated key assms(3) by (simp add: restore_stage_def add_stage_def settled_status_def)
  next
    case open_row
    obtain s st1 where s: "compensateInternalState ck err ids now r c st = (Inr s, st1)"
      "only_row rid stage {ids 0, ids 2} st st1" "getStageCheckpoint st1 rid stage = Some s"
      "cp_status s = CheckpointCompensated" "cp_stage_id s = stage"
      by (rule compensate_succeeds [OF assms(1-4) open_row ids])
    then show thesis
      using that [of st1 s] open_row by (auto simp: restore_stage_def add_stage_def settled_status_def)
  qed
qed

section \<open>The whole plan\<close>

lemma restore_action_succeeds:
  assumes "restorable st rid stage" and "run_id r = rid" and "getStageCheckpoint st rid stage = Some (sr_checkpoint a)"
    and "ValidateStageCheckpoint (sr_checkpoint a) = None" and "fresh_ids ids st" and "terminal_of E a"
    and "planned_status (sr_checkpoint a) (sr_terminal a) \<in> {CheckpointCommitted, CheckpointCompensated,
       CheckpointPrepared, CheckpointExecuting, CheckpointNeedsReconciliation}"
  obtains s st' where "restore_action ck err ids now r a report st
      = ((add_stage (planned_status (sr_checkpoint a) (sr_terminal a)) stage report, None), st')"
    "only_row rid stage {ids 0, ids 2} st st'" "getStageCheckpoint st' rid stage = Some s"
    "cp_status s = settled_status (planned_status (sr_checkpoint a) (sr_terminal a))"
proof (cases "sr_terminal a")
  case None
  then have st: "planned_status (sr_checkpoint a) (sr_terminal a) = cp_status (sr_checkpoint a)" by (simp add: planned_status_def)
  obtain s st' where "restore_stage ck err ids now r (sr_checkpoint a) report st
      = ((add_stage (cp_status (sr_checkpoint a)) stage report, None), st')"
    "only_row rid stage {ids 0, ids 2} st st'" "getStageCheckpoint st' rid stage = Some s"
    "cp_status s = settled_status (cp_status (sr_checkpoint a))"
    by (rule restore_stage_succeeds [OF assms(1-5)]) (use assms(7) st in auto)
  then show thesis using that [of st' s] None st by (simp add: restore_action_def)
next
  case (Some e)
  have e: "cp_status (sr_checkpoint a) \<in> {CheckpointPrepared, CheckpointExecuting}" "stage_terminal (ev_type e)"
    "cp_event_cursor (sr_checkpoint a) < ev_sequence e"
    using assms(6) Some by (simp_all add: terminal_of_def)
  obtain c st1 where c: "reconcileStageTerminal ck now (sr_checkpoint a) e st = (Inr c, st1)" "only_row rid stage {} st st1"
    "getStageCheckpoint st1 rid stage = Some c" "cp_status c = planned_status (sr_checkpoint a) (Some e)"
    "ValidateStageCheckpoint c = None"
    by (rule reconcile_succeeds [OF assms(1,3,4) e])
  have f: "fresh_ids ids st1" using assms(5) c(2) by (auto simp: fresh_ids_def only_row_def)
  obtain s st' where s: "restore_stage ck err ids now r c report st1 = ((add_stage (cp_status c) stage report, None), st')"
    "only_row rid stage {ids 0, ids 2} st1 st'" "getStageCheckpoint st' rid stage = Some s"
    "cp_status s = settled_status (cp_status c)"
    by (rule restore_stage_succeeds [OF restorable_step [OF c(2) assms(1)] assms(2) c(3,5) f]) (use assms(7) Some c(4) in auto)
  have "only_row rid stage {ids 0, ids 2} st st'" by (rule only_row_trans [OF c(2) s(2)]) simp
  then show thesis using that [of st' s] Some c s by (simp add: restore_action_def)
qed

text \<open>The report of a plan.\<close>

definition report_of :: "stage_restore list \<Rightarrow> restore_report \<Rightarrow> restore_report" where
  "report_of plan = fold (\<lambda>a. add_stage (planned_status (sr_checkpoint a) (sr_terminal a)) (cp_stage_id (sr_checkpoint a))) plan"

lemma report_of_stages:
  "committed_stages (report_of plan rep) = committed_stages rep @ map (cp_stage_id \<circ> sr_checkpoint)
     (filter (\<lambda>a. planned_status (sr_checkpoint a) (sr_terminal a) = CheckpointCommitted) plan)"
  "compensated_stages (report_of plan rep) = compensated_stages rep @ map (cp_stage_id \<circ> sr_checkpoint)
     (filter (\<lambda>a. planned_status (sr_checkpoint a) (sr_terminal a) \<noteq> CheckpointCommitted) plan)"
  by (induction plan arbitrary: rep) (simp_all add: report_of_def add_stage_def)

definition plan_ready :: "run_store \<Rightarrow> string \<Rightarrow> stage_restore list \<Rightarrow> bool" where
  "plan_ready st rid plan \<longleftrightarrow> (\<forall>a \<in> set plan.
     getStageCheckpoint st rid (cp_stage_id (sr_checkpoint a)) = Some (sr_checkpoint a)
     \<and> ValidateStageCheckpoint (sr_checkpoint a) = None \<and> (\<exists>E. terminal_of E a)
     \<and> planned_status (sr_checkpoint a) (sr_terminal a) \<in> {CheckpointCommitted, CheckpointCompensated,
       CheckpointPrepared, CheckpointExecuting, CheckpointNeedsReconciliation})"

lemma restore_actions_succeed:
  assumes "store_wf st" and "get_run st rid \<noteq> None" and "trim_space rid \<noteq> []" and "run_id r = rid"
    and "distinct (map (cp_stage_id \<circ> sr_checkpoint) plan)" and "plan_ready st rid plan"
    and "inj (case_prod ids)" and "\<And>j k. i \<le> j \<Longrightarrow> ids j k \<notin> ev_id ` set (rs_events st)"
  shows "\<exists>st'. restore_actions ck err ids now r i plan report st = ((report_of plan report, None), st')
    \<and> rs_runs st' = rs_runs st \<and> rs_effects st' = rs_effects st \<and> store_wf st'
    \<and> (\<exists>es. rs_events st' = rs_events st @ es \<and> (\<forall>e \<in> set es. ev_run_id e = rid))
    \<and> (\<forall>a \<in> set plan. \<exists>s. getStageCheckpoint st' rid (cp_stage_id (sr_checkpoint a)) = Some s
         \<and> cp_status s = settled_status (planned_status (sr_checkpoint a) (sr_terminal a)))
    \<and> (\<forall>r s. r \<noteq> rid \<or> s \<notin> (cp_stage_id \<circ> sr_checkpoint) ` set plan \<longrightarrow>
         getStageCheckpoint st' r s = getStageCheckpoint st r s)"
  using assms(1,2,5,6,8)
proof (induction plan arbitrary: i report st)
  case Nil
  then show ?case by (simp add: report_of_def)
next
  case (Cons a plan)
  let ?stage = "cp_stage_id (sr_checkpoint a)" and ?status = "planned_status (sr_checkpoint a) (sr_terminal a)"
  have a: "getStageCheckpoint st rid ?stage = Some (sr_checkpoint a)" "ValidateStageCheckpoint (sr_checkpoint a) = None"
    "?status \<in> {CheckpointCommitted, CheckpointCompensated,
       CheckpointPrepared, CheckpointExecuting, CheckpointNeedsReconciliation}"
    using Cons.prems(4) by (simp_all add: plan_ready_def)
  obtain E where E: "terminal_of E a" using Cons.prems(4) by (auto simp: plan_ready_def)
  have stage: "trim_space ?stage \<noteq> []" using a(2) by (auto simp: ValidateStageCheckpoint_None split: if_split_asm)
  have ids: "ids j k = ids j' k' \<longleftrightarrow> j = j' \<and> k = k'" for j k j' k' using assms(7) by (auto simp: inj_def)
  have fresh: "fresh_ids (ids i) st" using Cons.prems(5) [of i] by (simp add: fresh_ids_def ids)
  have now: "restorable st rid ?stage" using Cons.prems assms(3) stage by (simp add: restorable_def)
  obtain s u where s: "restore_action ck err (ids i) now r a report st = ((add_stage ?status ?stage report, None), u)"
    "only_row rid ?stage {ids i 0, ids i 2} st u" "getStageCheckpoint u rid ?stage = Some s"
    "cp_status s = settled_status ?status"
    by (rule restore_action_succeeds [OF now assms(4) a(1,2) fresh E a(3)])
  have u: "store_wf u" "get_run u rid \<noteq> None" using s(2) Cons.prems(2) by (simp_all add: only_row_def get_run_def)
  have "cp_stage_id (sr_checkpoint x) \<noteq> ?stage" if "x \<in> set plan" for x
    using Cons.prems(3) that by (auto simp: image_iff)
  then have ready: "plan_ready u rid plan"
    using Cons.prems(4) s(2) unfolding plan_ready_def only_row_def by simp
  have later: "ids j k \<notin> ev_id ` set (rs_events u)" if "Suc i \<le> j" for j k
    by (rule only_row_fresh [OF s(2)]) (use that Cons.prems(5) in \<open>auto simp: ids\<close>)
  have distinct: "distinct (map (cp_stage_id \<circ> sr_checkpoint) plan)"
    using Cons.prems(3) unfolding list.map distinct.simps by (rule conjunct2)
  note rest = Cons.IH [where i = "Suc i" and report = "add_stage ?status ?stage report", OF u distinct ready later]
  obtain st' where st': "restore_actions ck err ids now r (Suc i) plan (add_stage ?status ?stage report) u
      = ((report_of plan (add_stage ?status ?stage report), None), st')"
    "rs_runs st' = rs_runs u \<and> rs_effects st' = rs_effects u \<and> store_wf st'"
    "\<exists>es. rs_events st' = rs_events u @ es \<and> (\<forall>e \<in> set es. ev_run_id e = rid)"
    "\<forall>a \<in> set plan. \<exists>s. getStageCheckpoint st' rid (cp_stage_id (sr_checkpoint a)) = Some s
         \<and> cp_status s = settled_status (planned_status (sr_checkpoint a) (sr_terminal a))"
    "\<forall>r s. r \<noteq> rid \<or> s \<notin> (cp_stage_id \<circ> sr_checkpoint) ` set plan \<longrightarrow> getStageCheckpoint st' r s = getStageCheckpoint u r s"
    using rest by auto
  have "getStageCheckpoint st' rid ?stage = Some s" using st'(5) s(3) Cons.prems(3) by auto
  moreover have "\<exists>es. rs_events st' = rs_events st @ es \<and> (\<forall>e \<in> set es. ev_run_id e = rid)"
    using st'(3) s(2) by (auto simp: only_row_def)
  ultimately show ?case
    using st' s by (auto simp: report_of_def only_row_def)
qed

end
