(* ===== verification/Restore_Guarantees.thy ===== *)
theory Restore_Guarantees
  imports Restore_Run Effect_Journal
begin

text \<open>
  What stage checkpoints guarantee: rows only advance along their life cycle, a committed row is
  backed by a durable \<open>stage.completed\<close>, restoring a Run settles every stage without touching one
  whose external effects are not certain, and a failed effect keeps its Run from being resumed.
\<close>

section \<open>Plans of a store\<close>

text \<open>One row for each stage, each row valid: what the table's constraints keep.\<close>

definition checkpoints_wf :: "run_store \<Rightarrow> bool" where
  "checkpoints_wf st \<longleftrightarrow> distinct (map checkpoint_key (rs_checkpoints st))
     \<and> (\<forall>c \<in> set (rs_checkpoints st). ValidateStageCheckpoint c = None)"

lemma plan_rows:
  assumes "planRestore ck r st = Inr plan"
  shows "map sr_checkpoint plan = ListStageCheckpoints st (run_id r)"
    "\<exists>hashes. \<forall>a \<in> set plan. plan_one hashes (ListRunEvents st (run_id r)) (ListToolEffects st (run_id r)) (sr_checkpoint a) = Inr a"
proof -
  obtain hashes where p: "plan_all (plan_one hashes (ListRunEvents st (run_id r)) (ListToolEffects st (run_id r)))
       (ListStageCheckpoints st (run_id r)) = Inr plan"
    by (rule planRestore_Inr [OF assms])
  let ?cs = "ListStageCheckpoints st (run_id r)"
  have one: "plan_one hashes (ListRunEvents st (run_id r)) (ListToolEffects st (run_id r)) (?cs ! i) = Inr (plan ! i)"
    "sr_checkpoint (plan ! i) = ?cs ! i" if "i < length plan" for i
  proof -
    show one: "plan_one hashes (ListRunEvents st (run_id r)) (ListToolEffects st (run_id r)) (?cs ! i) = Inr (plan ! i)"
      using p that by (simp add: plan_all_Inr)
    show "sr_checkpoint (plan ! i) = ?cs ! i" by (rule plan_one_Inr(1) [OF one])
  qed
  show "map sr_checkpoint plan = ?cs"
    using p one(2) by (auto simp: plan_all_Inr intro: nth_equalityI)
  have "plan_one hashes (ListRunEvents st (run_id r)) (ListToolEffects st (run_id r)) (sr_checkpoint a) = Inr a"
    if "a \<in> set plan" for a
    using that one by (metis in_set_conv_nth)
  then show "\<exists>hashes. \<forall>a \<in> set plan. plan_one hashes (ListRunEvents st (run_id r)) (ListToolEffects st (run_id r)) (sr_checkpoint a) = Inr a"
    by blast
qed

lemma run_stages_distinct:
  assumes "distinct (map checkpoint_key (rs_checkpoints st))"
  shows "distinct (map cp_stage_id (ListStageCheckpoints st rid))"
proof -
  have "inj_on cp_stage_id (set (ListStageCheckpoints st rid))"
  proof (rule inj_onI)
    fix c d
    assume "c \<in> set (ListStageCheckpoints st rid)" "d \<in> set (ListStageCheckpoints st rid)" "cp_stage_id c = cp_stage_id d"
    then have "c \<in> set (rs_checkpoints st)" "d \<in> set (rs_checkpoints st)" "checkpoint_key c = checkpoint_key d"
      by (simp_all add: ListStageCheckpoints_set checkpoint_key_def)
    then show "c = d" using assms by (metis distinct_map inj_onD)
  qed
  moreover have "distinct (ListStageCheckpoints st rid)"
    using assms by (simp add: ListStageCheckpoints_def distinct_map)
  ultimately show ?thesis by (simp add: distinct_map)
qed

lemma planned_rows_ready:
  assumes "planRestore ck r st = Inr plan" and "checkpoints_wf st"
  shows "plan_ready st (run_id r) plan" "distinct (map (cp_stage_id \<circ> sr_checkpoint) plan)"
    "sr_checkpoint ` set plan = {c \<in> set (rs_checkpoints st). cp_run_id c = run_id r}"
proof -
  obtain hashes where one: "plan_one hashes (ListRunEvents st (run_id r)) (ListToolEffects st (run_id r)) (sr_checkpoint a) = Inr a"
    if "a \<in> set plan" for a
    using plan_rows(2) [OF assms(1)] by blast
  note rows = plan_rows(1) [OF assms(1)]
  show set: "sr_checkpoint ` set plan = {c \<in> set (rs_checkpoints st). cp_run_id c = run_id r}"
    using arg_cong [OF rows, of set] by (simp add: ListStageCheckpoints_set)
  show "distinct (map (cp_stage_id \<circ> sr_checkpoint) plan)"
    using run_stages_distinct [of st "run_id r"] assms(2)
    by (simp add: checkpoints_wf_def rows [symmetric] del: map_map add: map_map [symmetric])
  show "plan_ready st (run_id r) plan"
    unfolding plan_ready_def
  proof
    fix a
    assume a: "a \<in> set plan"
    then have c: "sr_checkpoint a \<in> set (rs_checkpoints st)" "cp_run_id (sr_checkpoint a) = run_id r"
      using set by blast+
    then have "getStageCheckpoint st (run_id r) (cp_stage_id (sr_checkpoint a)) = Some (sr_checkpoint a)"
      using lookup_by_distinct [of checkpoint_key "rs_checkpoints st" "sr_checkpoint a"] assms(2)
      by (simp add: getStageCheckpoint_def checkpoints_wf_def checkpoint_key_def)
    moreover have "ValidateStageCheckpoint (sr_checkpoint a) = None" using c assms(2) by (simp add: checkpoints_wf_def)
    moreover have "terminal_of (set (rs_events st)) a" by (rule planned_terminal_of [OF one [OF a] c(2)])
    ultimately show "getStageCheckpoint st (run_id r) (cp_stage_id (sr_checkpoint a)) = Some (sr_checkpoint a)
      \<and> ValidateStageCheckpoint (sr_checkpoint a) = None \<and> (\<exists>E. terminal_of E a)
      \<and> planned_status (sr_checkpoint a) (sr_terminal a) \<in> {CheckpointCommitted, CheckpointCompensated,
       CheckpointPrepared, CheckpointExecuting, CheckpointNeedsReconciliation}"
      using plan_one_Inr(4) [OF one [OF a]] by blast
  qed
qed

lemma planned_effects:
  assumes "planRestore ck r st = Inr plan" and "a \<in> set plan"
    and "e \<in> set (rs_effects st)" and "eff_run_id e = run_id r" and "eff_stage_id e = cp_stage_id (sr_checkpoint a)"
  shows "planned_status (sr_checkpoint a) (sr_terminal a) \<noteq> CheckpointCommitted \<Longrightarrow> eff_status e \<noteq> ToolEffectCommitted"
    "cp_status (sr_checkpoint a) \<notin> {CheckpointCommitted, CheckpointCompensated} \<Longrightarrow>
       eff_status e \<in> {ToolEffectCommitted, ToolEffectCompensated}"
proof -
  obtain hashes where one: "plan_one hashes (ListRunEvents st (run_id r)) (ListToolEffects st (run_id r)) (sr_checkpoint a) = Inr a"
    using plan_rows(2) [OF assms(1)] assms(2) by blast
  have e: "e \<in> set (ListToolEffects st (run_id r))" using assms(3,4) by (simp add: ListToolEffects_def)
  note f = plan_one_Inr [OF one]
  show "planned_status (sr_checkpoint a) (sr_terminal a) \<noteq> CheckpointCommitted \<Longrightarrow> eff_status e \<noteq> ToolEffectCommitted"
    using f(5) e assms(5) by (auto simp: certain_def)
  assume s: "cp_status (sr_checkpoint a) \<notin> {CheckpointCommitted, CheckpointCompensated}"
  show "eff_status e \<in> {ToolEffectCommitted, ToolEffectCompensated}"
  proof (cases "planned_status (sr_checkpoint a) (sr_terminal a) = CheckpointCommitted")
    case True
    then have "sr_terminal a \<noteq> None" using s by (auto simp: planned_status_def split: option.split_asm)
    then show ?thesis using f(6) True e assms(5) by simp
  next
    case False
    then have "planned_status (sr_checkpoint a) (sr_terminal a) \<noteq> CheckpointCompensated"
      using s by (auto simp: planned_status_def split: option.split_asm)
    then show ?thesis using f(5) False e assms(5) by (auto simp: certain_def)
  qed
qed

section \<open>Example: a stage whose completion was recorded before the crash\<close>

definition staged_run :: run where
  "staged_run = crashed_run\<lparr>run_snapshot := Some \<lparr>snap_execution_constraint = [], snap_plan_origin = None,
     snap_schema_version = 1, snap_routes = [], snap_run_budget = None, snap_rest = []\<rparr>\<rparr>"

definition stage_row :: "string \<Rightarrow> checkpoint_status \<Rightarrow> stage_checkpoint" where
  "stage_row stage s = \<lparr>cp_id = stage, cp_provider = InternalStateProvider, cp_run_id = ''run'',
     cp_conversation_id = ''conversation'', cp_stage_id = stage, cp_status = s, cp_input_hash = ''input'',
     cp_output_hash = [], cp_snapshot_hash = ''snapshot'', cp_tools_hash = ''tools'', cp_event_cursor = 1,
     cp_error = [], cp_created_at = 1, cp_updated_at = 1\<rparr>"

definition staged_events :: "run_event list" where
  "staged_events = map (\<lambda>(n, t). example_event t n []\<lparr>ev_id := replicate (nat n) CHR ''s''\<rparr>)
     [(1, EventStageStarted), (2, EventStageCompleted)]"

definition staged_store :: run_store where
  "staged_store = empty_store\<lparr>rs_runs := [staged_run], rs_events := staged_events,
     rs_checkpoints := [stage_row ''stage'' CheckpointExecuting, stage_row ''call'' CheckpointPrepared]\<rparr>"

definition stage_services :: checkpoint_services where
  "stage_services = \<lparr>ck_svc = example_services, ck_hash = id, ck_snapshot = (\<lambda>_. Some ''snapshot''),
     ck_tools = (\<lambda>_. Some ''tools'')\<rparr>"

lemma trim_stage [simp]: "trim_space ''stage'' = ''stage''" "trim_space ''call'' = ''call''"
  "trim_space InternalStateProvider = InternalStateProvider" "InternalStateProvider \<noteq> []"
  by code_simp+

lemma stage_row_valid: "s \<noteq> CheckpointOther [] \<Longrightarrow> ValidateStageCheckpoint (stage_row ''stage'' s) = None"
  "s \<noteq> CheckpointOther [] \<Longrightarrow> ValidateStageCheckpoint (stage_row ''call'' s) = None"
  by (simp_all add: ValidateStageCheckpoint_None stage_row_def)

lemma staged_checkpoints_wf: "checkpoints_wf staged_store"
  by (simp add: checkpoints_wf_def staged_store_def stage_row_valid) (simp add: stage_row_def checkpoint_key_def)

lemma staged_log: "run_log staged_store i = (if i = ''run'' then staged_events else [])"
  by (simp add: run_log_def staged_store_def staged_events_def example_event_def)

lemma staged_store_wf: "store_wf staged_store"
proof -
  have "numbered (run_log staged_store i)" for i
    by (auto simp: staged_log numbered_def staged_events_def example_event_def nth_Cons split: nat.splits)
  moreover have "\<forall>e \<in> set (rs_events staged_store). get_run staged_store (ev_run_id e) \<noteq> None \<and> scoped e"
    by (simp add: staged_store_def staged_events_def example_event_def get_run_def staged_run_def crashed_run_def example_run_def
        scoped_def scope_satisfied_def registered_def scope_optional_def scope_stage_def
        CurrentRunEventSchemaVersion_def)
  ultimately show ?thesis
    by (simp add: store_wf_def)
      (simp add: staged_store_def empty_store_def staged_run_def crashed_run_def example_run_def run_wf_def
        knownRunStatus_def completionSource_def settled_def staged_events_def example_event_def eval_nat_numeral)
qed

lemma staged_get_run: "get_run staged_store ''run'' = Some staged_run" "run_id staged_run = ''run''"
  by (simp_all add: staged_store_def get_run_def staged_run_def crashed_run_def example_run_def)

lemma staged_plan: "ValidateResume stage_services staged_run staged_store = None"
proof -
  have "ListRunEvents staged_store ''run'' = staged_events"
    by (simp add: ListRunEvents_def staged_log) (simp add: staged_events_def example_event_def)
  moreover have "ListToolEffects staged_store ''run'' = []"
    by (simp add: ListToolEffects_def staged_store_def empty_store_def)
  moreover have "set (ListStageCheckpoints staged_store ''run'')
      = {stage_row ''stage'' CheckpointExecuting, stage_row ''call'' CheckpointPrepared}"
    by (auto simp: ListStageCheckpoints_set staged_store_def) (simp_all add: stage_row_def)
  moreover have "RuntimeHashes stage_services (run_snapshot staged_run) = Inr (''snapshot'', ''tools'')"
    by (simp add: RuntimeHashes_def stage_services_def staged_run_def)
  moreover have "\<exists>a. plan_one (''snapshot'', ''tools'') staged_events [] (stage_row s t) = Inr a"
    if "t \<in> {CheckpointExecuting, CheckpointPrepared}" for s t
    using that by (auto simp: plan_one_def planStageRestore_def Let_def stage_row_def hasUncertainEffect_def planned_status_def
        split: option.split)
  moreover have "(\<And>x. x \<in> set xs \<Longrightarrow> \<exists>y. f x = Inr y) \<Longrightarrow> \<exists>ys. plan_all f xs = Inr ys"
    for f :: "stage_checkpoint \<Rightarrow> checkpoint_error + stage_restore" and xs
    by (induction xs) (simp, fastforce simp: bind_result_Inr)
  ultimately obtain plan where "planRestore stage_services staged_run staged_store = Inr plan"
    by (fastforce simp: planRestore_def staged_get_run bind_result_Inr)
  then show ?thesis by (simp add: ValidateResume_def)
qed

lemma staged_ids: "crash_ids r n \<notin> ev_id ` set (rs_events staged_store)"
proof -
  have "CHR ''u'' \<in> set (crash_ids r n)" by (simp add: crash_ids_def)
  moreover have "CHR ''u'' \<notin> set i" if "i \<in> ev_id ` set (rs_events staged_store)" for i
    using that by (auto simp: staged_store_def staged_events_def example_event_def)
  ultimately show ?thesis by blast
qed

text \<open>Identifiers for the events of the actions of a plan.\<close>

definition restore_ids :: "nat \<Rightarrow> nat \<Rightarrow> string" where
  "restore_ids i = crash_ids (replicate i CHR ''v'')"

lemma restore_ids_inj: "inj (case_prod restore_ids)"
proof -
  have "crash_ids (replicate i CHR ''v'') k = crash_ids (replicate j CHR ''v'') m \<Longrightarrow> i = j \<and> k = m" for i j k m
  proof -
    assume "crash_ids (replicate i CHR ''v'') k = crash_ids (replicate j CHR ''v'') m"
    then have "replicate i CHR ''v'' = replicate j CHR ''v'' \<and> k = m"
      using injD [OF crash_ids_inj, of "(replicate i CHR ''v'', k)" "(replicate j CHR ''v'', m)"] by simp
    then show ?thesis by (metis length_replicate)
  qed
  then show ?thesis by (auto simp: inj_def restore_ids_def)
qed

section \<open>Properties\<close>

text \<open>
  Recording a stage transition and restoring a Run, whatever their outcome, leave every stage
  checkpoint that was there in place: its identity, hashes and creation time are unchanged, its
  event cursor never moves back and its status only moves forward along the life cycle.
\<close>

theorem checkpoint_rows_advance:
  "rows_advance st (snd (RecordStageTransition ck ids now step t st))
   \<and> rows_advance st (snd (RestoreRun ck err rids now r st))"
  using RecordStageTransition_advances RestoreRun_advances by blast

text \<open>
  C19: A committed checkpoint is always backed by a durable \<open>stage.completed\<close> of its Run and stage at
  its event cursor: recording a transition and restoring a Run keep this, whether they succeed or
  fail part-way.
\<close>

theorem committed_stage_backed:
  assumes "committed_backed st"
  shows "committed_backed (snd (RecordStageTransition ck ids now step t st))
    \<and> committed_backed (snd (RestoreRun ck err rids now r st))"
  using assms RecordStageTransition_backed RestoreRun_backed by blast

definition completed_store :: run_store where
  "completed_store = staged_store\<lparr>rs_checkpoints :=
     [(stage_row ''stage'' CheckpointCommitted)\<lparr>cp_event_cursor := 2\<rparr>]\<rparr>"

lemma completed_store_backed: "committed_backed completed_store"
  by (simp add: committed_backed_def backed_def completed_store_def staged_store_def stage_row_def
      staged_events_def example_event_def)

lemma committed_stage_backed_witness:
  "committed_backed completed_store \<and>
   committed_backed (snd (RestoreRun stage_services (\<lambda>_. []) restore_ids 9 staged_run completed_store))"
  using completed_store_backed
    committed_stage_backed [OF completed_store_backed, of stage_services "\<lambda>_. []" 9 undefined EventStageStarted
      "\<lambda>_. []" restore_ids staged_run]
  by blast

text \<open>
  C16: Once validation lets a Run be resumed, restoring it succeeds and settles every one of its stages:
  each row ends committed, and reported so, or compensated, and reported so, and no stage is
  compensated that has a committed external effect. Runs, effects and the checkpoints of other
  Runs are unchanged, and only this Run's log grows.
\<close>

theorem RestoreRun_settles:
  assumes "store_wf st" and "checkpoints_wf st" and "get_run st (run_id r) \<noteq> None" and "trim_space (run_id r) \<noteq> []"
    and "ValidateResume ck r st = None"
    and "inj (case_prod ids)" and "\<And>j k. ids j k \<notin> ev_id ` set (rs_events st)"
  shows "\<exists>report st'. RestoreRun ck err ids now r st = ((report, None), st')
    \<and> (\<forall>stage. getStageCheckpoint st (run_id r) stage \<noteq> None \<longrightarrow>
         (\<exists>c. getStageCheckpoint st' (run_id r) stage = Some c
            \<and> (if stage \<in> set (committed_stages report) then cp_status c = CheckpointCommitted
               else stage \<in> set (compensated_stages report) \<and> cp_status c = CheckpointCompensated
                 \<and> (\<forall>e \<in> set (rs_effects st). eff_run_id e = run_id r \<and> eff_stage_id e = stage \<longrightarrow>
                      eff_status e \<noteq> ToolEffectCommitted))))
    \<and> rs_runs st' = rs_runs st \<and> rs_effects st' = rs_effects st
    \<and> (\<exists>es. rs_events st' = rs_events st @ es \<and> (\<forall>e \<in> set es. ev_run_id e = run_id r))
    \<and> (\<forall>rid stage. rid \<noteq> run_id r \<longrightarrow> getStageCheckpoint st' rid stage = getStageCheckpoint st rid stage)"
proof -
  obtain plan where plan: "planRestore ck r st = Inr plan"
    using assms(5) by (auto simp: ValidateResume_def split: sum.split_asm)
  note ready = planned_rows_ready [OF plan assms(2)]
  let ?rep = "\<lparr>committed_stages = [], compensated_stages = []\<rparr>"
  obtain st' where run: "restore_actions ck err ids now r 0 plan ?rep st = ((report_of plan ?rep, None), st')"
    and frame: "rs_runs st' = rs_runs st" "rs_effects st' = rs_effects st"
      "\<exists>es. rs_events st' = rs_events st @ es \<and> (\<forall>e \<in> set es. ev_run_id e = run_id r)"
      "\<forall>rid s. rid \<noteq> run_id r \<or> s \<notin> (cp_stage_id \<circ> sr_checkpoint) ` set plan \<longrightarrow>
         getStageCheckpoint st' rid s = getStageCheckpoint st rid s"
    and rows: "\<forall>a \<in> set plan. \<exists>s. getStageCheckpoint st' (run_id r) (cp_stage_id (sr_checkpoint a)) = Some s
         \<and> cp_status s = settled_status (planned_status (sr_checkpoint a) (sr_terminal a))"
    using restore_actions_succeed [OF assms(1,3,4) refl ready(2,1) assms(6,7), of ck err now 0 ?rep] by blast
  have stage: "\<exists>c. getStageCheckpoint st' (run_id r) stage = Some c
      \<and> (if stage \<in> set (committed_stages (report_of plan ?rep)) then cp_status c = CheckpointCommitted
         else stage \<in> set (compensated_stages (report_of plan ?rep)) \<and> cp_status c = CheckpointCompensated
           \<and> (\<forall>e \<in> set (rs_effects st). eff_run_id e = run_id r \<and> eff_stage_id e = stage \<longrightarrow>
                eff_status e \<noteq> ToolEffectCommitted))"
    if row: "getStageCheckpoint st (run_id r) stage \<noteq> None" for stage
  proof -
    obtain c where c: "c \<in> set (rs_checkpoints st)" "cp_run_id c = run_id r" "cp_stage_id c = stage"
      using row getStageCheckpoint_Some by blast
    then have "c \<in> sr_checkpoint ` set plan" using ready(3) by simp
    then obtain a where a: "a \<in> set plan" "cp_stage_id (sr_checkpoint a) = stage" using c(3) by blast
    have only: "b = a" if "b \<in> set plan" "cp_stage_id (sr_checkpoint b) = stage" for b
      using inj_onD [OF conjunct2 [OF ready(2) [unfolded distinct_map]], of b a] that a by simp
    show ?thesis
    proof (cases "planned_status (sr_checkpoint a) (sr_terminal a) = CheckpointCommitted")
      case True
      then show ?thesis using rows a by (fastforce simp: report_of_stages settled_status_def)
    next
      case False
      then have "stage \<notin> set (committed_stages (report_of plan ?rep))"
        using only by (auto simp: report_of_stages)
      then show ?thesis
        using rows a False planned_effects(1) [OF plan a(1)] by (fastforce simp: report_of_stages settled_status_def)
    qed
  qed
  show ?thesis
    using run frame stage by (intro exI [of _ "report_of plan ?rep"] exI [of _ st']) (simp add: RestoreRun_def Let_def plan)
qed

lemma staged_run_exists: "get_run staged_store (run_id staged_run) \<noteq> None" "trim_space (run_id staged_run) \<noteq> []"
  by (simp_all add: staged_get_run)

lemma restore_ids_fresh: "restore_ids i k \<notin> ev_id ` set (rs_events staged_store)"
  by (simp add: restore_ids_def staged_ids)

lemma RestoreRun_settles_witness:
  "\<exists>report st'. RestoreRun stage_services (\<lambda>_. []) restore_ids 9 staged_run staged_store = ((report, None), st')
    \<and> getStageCheckpoint st' ''run'' ''stage'' \<noteq> None \<and> rs_runs st' = rs_runs staged_store"
proof -
  have "getStageCheckpoint staged_store (run_id staged_run) ''stage'' \<noteq> None"
    by (simp add: staged_store_def getStageCheckpoint_def stage_row_def checkpoint_key_def staged_get_run)
  then show ?thesis
    using RestoreRun_settles [OF staged_store_wf staged_checkpoints_wf staged_run_exists(1,2) staged_plan restore_ids_inj
        restore_ids_fresh, of "\<lambda>_. []" 9]
    unfolding staged_get_run by (metis option.distinct(1))
qed

text \<open>
  C20: A tool effect that was confirmed not to have happened is final, and it keeps its Run from being
  resumed for ever: as long as the checkpoint of its stage is open, every later validation of a
  resume is refused.
\<close>

theorem failed_effect_blocks_resume:
  assumes "journal_trace svc st ls st'" and "getToolEffect st k = Some e" and "eff_status e = ToolEffectFailed"
    and "eff_run_id e = run_id r" and "getStageCheckpoint st' (run_id r) (eff_stage_id e) = Some c"
    and "cp_status c \<notin> {CheckpointCommitted, CheckpointCompensated}"
  shows "ValidateResume ck r st' \<noteq> None"
proof
  assume "ValidateResume ck r st' = None"
  then obtain plan where plan: "planRestore ck r st' = Inr plan" by (auto simp: ValidateResume_def split: sum.split_asm)
  have e: "getToolEffect st' k = Some e"
    using journal_trace_row [OF assms(1,2)] assms(3) by (auto simp: row_trace_def)
  have row: "c \<in> set (rs_checkpoints st')" "cp_run_id c = run_id r" "cp_stage_id c = eff_stage_id e"
    using getStageCheckpoint_Some [OF assms(5)] by simp_all
  then have "c \<in> set (map sr_checkpoint plan)"
    using plan_rows(1) [OF plan] by (simp add: ListStageCheckpoints_set del: set_map)
  then obtain a where a: "a \<in> set plan" "sr_checkpoint a = c" by auto
  show False
    using planned_effects(2) [OF plan a(1), of e] getToolEffect_Some [OF e] assms(3,4,6) row a(2) by simp
qed

definition failed_effect_store :: run_store where
  "failed_effect_store = staged_store\<lparr>rs_effects := [example_effect\<lparr>eff_stage_id := ''stage'', eff_status := ToolEffectFailed\<rparr>]\<rparr>"

lemma failed_effect_blocks_resume_witness: "ValidateResume stage_services staged_run failed_effect_store \<noteq> None"
proof (rule failed_effect_blocks_resume [OF trace_nil])
  let ?e = "example_effect\<lparr>eff_stage_id := ''stage'', eff_status := ToolEffectFailed\<rparr>"
  show "getToolEffect failed_effect_store ''key'' = Some ?e"
    by (simp add: getToolEffect_def failed_effect_store_def example_effect_def)
  show "eff_status ?e = ToolEffectFailed" by simp
  show "eff_run_id ?e = run_id staged_run" by (simp add: example_effect_def staged_get_run)
  show "getStageCheckpoint failed_effect_store (run_id staged_run) (eff_stage_id ?e)
      = Some (stage_row ''stage'' CheckpointExecuting)"
    by (simp add: failed_effect_store_def staged_store_def getStageCheckpoint_def stage_row_def checkpoint_key_def staged_get_run)
  show "cp_status (stage_row ''stage'' CheckpointExecuting) \<notin> {CheckpointCommitted, CheckpointCompensated}"
    by (simp add: stage_row_def)
qed

end
