(* ===== verification/Progress_Guard.thy ===== *)
theory Progress_Guard
  imports Go_Json
begin

text \<open>
  The tool progress guard (\<open>tool/progress/guard.go\<close>), its use by the tool executor
  (\<open>tool/progress_guard.go\<close>) and its reconstruction from durable tool events
  (\<open>agent/tool_progress.go\<close>, \<open>event/tool_tracer.go\<close>). The SHA-256 hex digest is the parameter
  \<open>digest\<close>. A nil guard is \<open>None\<close>. Counters are at most the number of calls made, so they are
  not wrapped; the thresholds of a configuration are.
\<close>

section \<open>Configuration\<close>

record guard_config =
  gc_version :: string
  gc_enabled :: bool
  gc_warn_after :: int
  gc_block_after :: int
  gc_halt_after :: int
  gc_history_max :: int

abbreviation (input) GuardVersion :: string where "GuardVersion \<equiv> ''tool-progress-guard-v1''"

definition DefaultConfig :: guard_config where
  "DefaultConfig = \<lparr>gc_version = GuardVersion, gc_enabled = True, gc_warn_after = 2, gc_block_after = 4,
     gc_halt_after = 5, gc_history_max = 8\<rparr>"

definition DisabledConfig :: guard_config where
  "DisabledConfig = DefaultConfig\<lparr>gc_enabled := False\<rparr>"

definition NormalizeConfig :: "guard_config \<Rightarrow> guard_config" where
  "NormalizeConfig c =
     (let version = (if trim_space (gc_version c) = [] then GuardVersion else gc_version c);
          warn = (if gc_warn_after c \<le> 0 then 2 else gc_warn_after c);
          block = (if gc_block_after c \<le> warn then wrap64 (warn + 2) else gc_block_after c);
          halt = (if gc_halt_after c \<le> block then wrap64 (block + 1) else gc_halt_after c);
          history = (if gc_history_max c < 4 then 8 else gc_history_max c)
      in \<lparr>gc_version = version, gc_enabled = gc_enabled c, gc_warn_after = warn, gc_block_after = block,
          gc_halt_after = halt, gc_history_max = history\<rparr>)"

definition ValidateConfig :: "guard_config \<Rightarrow> bool" where
  "ValidateConfig c \<longleftrightarrow> gc_version c = GuardVersion \<and> gc_warn_after c > 0
     \<and> gc_block_after c > gc_warn_after c \<and> gc_halt_after c > gc_block_after c \<and> gc_history_max c \<ge> 4"

section \<open>State\<close>

datatype progress_action = GuardAllow | GuardWarn | GuardBlockCall | GuardHaltTurn | GuardOther string

datatype progress_rule = NoRule | RuleRepeatedFailure | RuleRepeatedResult | RuleAlternatingLoop | RuleOther string

record progress_call =
  pc_source :: string
  pc_tool :: string
  pc_revision :: string
  pc_arguments_hash :: string

record progress_outcome =
  po_error_code :: string
  po_error_category :: string
  po_result :: string
  po_read_only :: bool
  po_successful_write :: bool

record guard_decision =
  gd_version :: string
  gd_rule :: progress_rule
  gd_action :: progress_action
  gd_count :: int
  gd_reason :: string
  gd_signature :: string
  gd_outcome :: string
  gd_trackable :: bool
  gd_executed :: bool

record observation =
  ob_signature :: string
  ob_fingerprint :: string
  ob_rule :: progress_rule

record guard =
  g_config :: guard_config
  g_history :: "observation list"
  g_blocked :: "string \<rightharpoonup> int"

definition observation_key :: "observation \<Rightarrow> string" where
  "observation_key o1 = ob_signature o1 @ '':'' @ ob_fingerprint o1"

definition hash_parts :: "(string \<Rightarrow> string) \<Rightarrow> string list \<Rightarrow> string" where
  "hash_parts digest parts = digest (concat (map (\<lambda>p. p @ [CHR 0x00]) parts))"

definition Signature :: "(string \<Rightarrow> string) \<Rightarrow> progress_call \<Rightarrow> string" where
  "Signature digest c = hash_parts digest [trim_space (pc_source c), trim_space (pc_tool c),
     trim_space (pc_revision c), trim_space (pc_arguments_hash c)]"

definition observed :: "(string \<Rightarrow> string) \<Rightarrow> progress_call \<Rightarrow> progress_outcome \<Rightarrow> observation option" where
  "observed digest c out =
     (if po_error_code out \<noteq> [] \<and> po_error_category out \<noteq> [] then
        Some \<lparr>ob_signature = Signature digest c,
          ob_fingerprint = hash_parts digest [''error'', po_error_code out, po_error_category out],
          ob_rule = RuleRepeatedFailure\<rparr>
      else if po_read_only out \<and> po_result out \<noteq> [] then
        Some \<lparr>ob_signature = Signature digest c, ob_fingerprint = hash_parts digest [''result'', po_result out],
          ob_rule = RuleRepeatedResult\<rparr>
      else None)"

definition rule_reason :: "progress_rule \<Rightarrow> string" where
  "rule_reason r =
     (if r = RuleRepeatedFailure then ''same Tool call produced the same typed failure without progress''
      else if r = RuleRepeatedResult then ''same read-only Tool call produced an unchanged result''
      else if r = RuleAlternatingLoop
      then ''Tool calls are alternating between the same outcomes without progress''
      else [])"

definition guard_decision_of ::
  "string \<Rightarrow> observation \<Rightarrow> progress_rule \<Rightarrow> progress_action \<Rightarrow> int \<Rightarrow> bool \<Rightarrow> guard_decision" where
  "guard_decision_of version item rule action count executed =
     \<lparr>gd_version = version, gd_rule = rule, gd_action = action, gd_count = count, gd_reason = rule_reason rule,
      gd_signature = ob_signature item, gd_outcome = ob_fingerprint item, gd_trackable = True, gd_executed = executed\<rparr>"

definition untracked :: "string \<Rightarrow> bool \<Rightarrow> guard_decision" where
  "untracked version executed =
     \<lparr>gd_version = version, gd_rule = NoRule, gd_action = GuardAllow, gd_count = 0, gd_reason = [],
      gd_signature = [], gd_outcome = [], gd_trackable = False, gd_executed = executed\<rparr>"

text \<open>The history is scanned from its end; \<open>hs\<close> is the history, newest observation first.\<close>

definition repeatedTail :: "observation list \<Rightarrow> string \<Rightarrow> int" where
  "repeatedTail history key = int (length (takeWhile (\<lambda>x. observation_key x = key) (rev history)))"

fun alternating :: "observation list \<Rightarrow> int" where
  "alternating (x # y # z # hs) =
     (if observation_key x \<noteq> observation_key z \<or> observation_key x = observation_key y then 0
      else 1 + alternating (y # z # hs))"
| "alternating hs = 0"

definition alternatingTail :: "observation list \<Rightarrow> int" where
  "alternatingTail history = alternating (rev history)"

definition predict ::
  "(string \<Rightarrow> string) \<Rightarrow> guard \<Rightarrow> progress_call \<Rightarrow> (observation \<times> progress_rule \<times> int) option" where
  "predict digest g c =
     (case rev (g_history g) of
        [] \<Rightarrow> None
      | final # earlier \<Rightarrow>
          if ob_signature final = Signature digest c
          then Some (final, ob_rule final, repeatedTail (g_history g) (observation_key final) + 1)
          else
            (case earlier of
               [] \<Rightarrow> None
             | twoBack # _ \<Rightarrow>
                 if ob_signature twoBack = Signature digest c \<and> observation_key twoBack \<noteq> observation_key final
                 then Some (twoBack, RuleAlternatingLoop, alternatingTail (g_history g) + 1)
                 else None))"

definition currentPattern :: "observation list \<Rightarrow> progress_rule \<times> int" where
  "currentPattern history =
     (let final = last history; direct = repeatedTail history (observation_key final); alt = alternatingTail history
      in if alt > direct then (RuleAlternatingLoop, alt) else (ob_rule final, direct))"

definition reset_guard :: "guard \<Rightarrow> guard" where
  "reset_guard g = g\<lparr>g_history := [], g_blocked := Map.empty\<rparr>"

definition push_observation :: "observation \<Rightarrow> guard \<Rightarrow> guard" where
  "push_observation item g =
     (let history = g_history g @ [item]; overflow = int (length history) - gc_history_max (g_config g)
      in g\<lparr>g_history := (if overflow > 0 then drop (nat overflow) history else history),
           g_blocked := (g_blocked g)(observation_key item := None)\<rparr>)"

definition blocked_count :: "(string \<rightharpoonup> int) \<Rightarrow> string \<Rightarrow> int" where
  "blocked_count m k = (case m k of Some n \<Rightarrow> n | None \<Rightarrow> 0)"

definition count_blocked :: "string \<Rightarrow> guard \<Rightarrow> guard" where
  "count_blocked k g = g\<lparr>g_blocked := (g_blocked g)(k \<mapsto> blocked_count (g_blocked g) k + 1)\<rparr>"

section \<open>Operations\<close>

definition NewGuard :: "guard_config \<Rightarrow> guard" where
  "NewGuard c = \<lparr>g_config = NormalizeConfig c, g_history = [], g_blocked = Map.empty\<rparr>"

definition before_call :: "(string \<Rightarrow> string) \<Rightarrow> guard \<Rightarrow> progress_call \<Rightarrow> guard_decision \<times> guard" where
  "before_call digest g c =
     (if \<not> gc_enabled (g_config g) then (untracked GuardVersion False, g)
      else
        (case predict digest g c of
           None \<Rightarrow> (untracked (gc_version (g_config g)) False, g)
         | Some (predicted, rule, count) \<Rightarrow>
             if count < gc_block_after (g_config g) then (untracked (gc_version (g_config g)) False, g)
             else
               (let key = observation_key predicted; count = count + blocked_count (g_blocked g) key;
                    action = (if count \<ge> gc_halt_after (g_config g) then GuardHaltTurn else GuardBlockCall)
                in (guard_decision_of (gc_version (g_config g)) predicted rule action count False, count_blocked key g))))"

definition observe_call ::
  "(string \<Rightarrow> string) \<Rightarrow> guard \<Rightarrow> progress_call \<Rightarrow> progress_outcome \<Rightarrow> guard_decision \<times> guard" where
  "observe_call digest g c out =
     (if \<not> gc_enabled (g_config g) then (untracked GuardVersion True, g)
      else if po_successful_write out then (untracked (gc_version (g_config g)) True, reset_guard g)
      else
        (case observed digest c out of
           None \<Rightarrow> (untracked (gc_version (g_config g)) True, reset_guard g)
         | Some item \<Rightarrow>
             (let g = push_observation item g; (rule, count) = currentPattern (g_history g);
                  action = (if count \<ge> gc_warn_after (g_config g) then GuardWarn else GuardAllow)
              in (guard_decision_of (gc_version (g_config g)) item rule action count True, g))))"

definition restore_record :: "guard_decision \<Rightarrow> guard \<Rightarrow> guard" where
  "restore_record d g =
     (if gd_version d \<noteq> gc_version (g_config g) \<or> \<not> gd_trackable d \<or> gd_signature d = [] \<or> gd_outcome d = []
      then if gd_executed d then reset_guard g else g
      else
        (let item = \<lparr>ob_signature = gd_signature d, ob_fingerprint = gd_outcome d, ob_rule = gd_rule d\<rparr>
         in if gd_executed d then push_observation item g
            else if gd_action d = GuardBlockCall \<or> gd_action d = GuardHaltTurn
            then count_blocked (observation_key item) g else g))"

definition restore_guard :: "guard_decision list \<Rightarrow> guard \<Rightarrow> guard" where
  "restore_guard records g = fold restore_record records (reset_guard g)"

text \<open>The exported methods accept a nil guard.\<close>

definition Before :: "(string \<Rightarrow> string) \<Rightarrow> guard option \<Rightarrow> progress_call \<Rightarrow> guard_decision \<times> guard option" where
  "Before digest g c =
     (case g of None \<Rightarrow> (untracked GuardVersion False, None)
      | Some g \<Rightarrow> (let (d, g') = before_call digest g c in (d, Some g')))"

definition Observe ::
  "(string \<Rightarrow> string) \<Rightarrow> guard option \<Rightarrow> progress_call \<Rightarrow> progress_outcome \<Rightarrow> guard_decision \<times> guard option" where
  "Observe digest g c out =
     (case g of None \<Rightarrow> (untracked GuardVersion True, None)
      | Some g \<Rightarrow> (let (d, g') = observe_call digest g c out in (d, Some g')))"

definition Config :: "guard option \<Rightarrow> guard_config" where
  "Config g = (case g of None \<Rightarrow> DisabledConfig | Some g \<Rightarrow> g_config g)"

definition Restore :: "guard_decision list \<Rightarrow> guard option \<Rightarrow> guard option" where
  "Restore records = map_option (restore_guard records)"

definition Reset :: "guard option \<Rightarrow> guard option" where
  "Reset = map_option reset_guard"

section \<open>The executor's use of the guard\<close>

text \<open>
  One call attempt: \<open>applyProgressBefore\<close> refuses it or the call runs and \<open>observeProgress\<close> records
  what it did. The result is the decision kept in the terminal event.
\<close>

definition attempt ::
  "(string \<Rightarrow> string) \<Rightarrow> progress_call \<Rightarrow> progress_outcome \<Rightarrow> guard \<Rightarrow> guard_decision \<times> guard" where
  "attempt digest c out g =
     (let (d, g') = before_call digest g c
      in if gd_action d = GuardBlockCall \<or> gd_action d = GuardHaltTurn then (d, g')
         else observe_call digest g' c out)"

section \<open>Durable records\<close>

fun action_text :: "progress_action \<Rightarrow> string" where
  "action_text GuardAllow = ''allow''"
| "action_text GuardWarn = ''warn''"
| "action_text GuardBlockCall = ''block_call''"
| "action_text GuardHaltTurn = ''halt_turn''"
| "action_text (GuardOther s) = s"

definition text_action :: "string \<Rightarrow> progress_action" where
  "text_action s = (if s = ''allow'' then GuardAllow else if s = ''warn'' then GuardWarn
     else if s = ''block_call'' then GuardBlockCall else if s = ''halt_turn'' then GuardHaltTurn else GuardOther s)"

fun rule_text :: "progress_rule \<Rightarrow> string" where
  "rule_text NoRule = []"
| "rule_text RuleRepeatedFailure = ''repeated_typed_failure''"
| "rule_text RuleRepeatedResult = ''repeated_read_only_result''"
| "rule_text RuleAlternatingLoop = ''alternating_loop''"
| "rule_text (RuleOther s) = s"

definition text_rule :: "string \<Rightarrow> progress_rule" where
  "text_rule s = (if s = [] then NoRule else if s = ''repeated_typed_failure'' then RuleRepeatedFailure
     else if s = ''repeated_read_only_result'' then RuleRepeatedResult
     else if s = ''alternating_loop'' then RuleAlternatingLoop else RuleOther s)"

definition guard_payload :: "guard_decision \<Rightarrow> payload" where
  "guard_payload d =
     [''progress_guard_version'' \<mapsto> VString (gd_version d), ''progress_guard_rule'' \<mapsto> VString (rule_text (gd_rule d)),
      ''progress_guard_action'' \<mapsto> VString (action_text (gd_action d)), ''progress_guard_count'' \<mapsto> VInt (gd_count d),
      ''progress_guard_reason'' \<mapsto> VString (gd_reason d), ''progress_guard_signature'' \<mapsto> VString (gd_signature d),
      ''progress_guard_outcome'' \<mapsto> VString (gd_outcome d), ''progress_guard_trackable'' \<mapsto> VBool (gd_trackable d),
      ''progress_guard_executed'' \<mapsto> VBool (gd_executed d)]"

definition intValue :: "any_value option \<Rightarrow> int" where
  "intValue v = (case v of Some (VInt n) \<Rightarrow> n | Some (VInt64 n) \<Rightarrow> n
     | Some (VFloat64 q) \<Rightarrow> if q \<ge> 0 then \<lfloor>q\<rfloor> else \<lceil>q\<rceil> | _ \<Rightarrow> 0)"

definition boolValue :: "any_value option \<Rightarrow> bool" where
  "boolValue v = (case v of Some (VBool b) \<Rightarrow> b | _ \<Rightarrow> False)"

definition progressDecisionFromPayload :: "payload \<Rightarrow> guard_decision option" where
  "progressDecisionFromPayload p =
     (let version = payload_string p ''progress_guard_version''; action = payload_string p ''progress_guard_action''
      in if version = [] \<or> action = [] then None
         else Some \<lparr>gd_version = version, gd_rule = text_rule (payload_string p ''progress_guard_rule''),
           gd_action = text_action action, gd_count = intValue (p ''progress_guard_count''),
           gd_reason = payload_string p ''progress_guard_reason'', gd_signature = payload_string p ''progress_guard_signature'',
           gd_outcome = payload_string p ''progress_guard_outcome'',
           gd_trackable = boolValue (p ''progress_guard_trackable''),
           gd_executed = boolValue (p ''progress_guard_executed'')\<rparr>)"

definition guard_records :: "run_event list \<Rightarrow> guard_decision list" where
  "guard_records events =
     List.map_filter (\<lambda>e. progressDecisionFromPayload (ev_payload e))
       (filter (\<lambda>e. ev_type e = EventToolCompleted \<or> ev_type e = EventToolFailed) events)"

text \<open>\<open>progressGuardForRun\<close> when the process holds no guard of the Run yet.\<close>

definition progressGuardForRun :: "guard_config \<Rightarrow> run_event list \<Rightarrow> guard" where
  "progressGuardForRun config events = restore_guard (guard_records events) (NewGuard config)"

end
