(* ===== verification/Progress_Guarantees.thy ===== *)
theory Progress_Guarantees
  imports Progress_Guard
begin

text \<open>
  What the progress guard guarantees: a call that keeps failing the same way is stopped, and a
  guard rebuilt from the durable tool events decides exactly as the one it replaces, unless that one
  had been reset and nothing has cleared its history since.
\<close>

section \<open>Patterns depend on keys only\<close>

lemma repeatedTail_keys:
  "repeatedTail h k = int (length (takeWhile (\<lambda>x. x = k) (rev (map observation_key h))))"
  by (simp add: repeatedTail_def takeWhile_map rev_map comp_def)

lemma alternating_keys: "map observation_key xs = map observation_key ys \<Longrightarrow> alternating xs = alternating ys"
proof (induction xs arbitrary: ys rule: alternating.induct)
  case (1 x y z hs)
  then obtain x' y' z' hs' where "ys = x' # y' # z' # hs'" by (auto simp: Cons_eq_map_conv)
  then show ?case using 1 by simp
qed (auto simp: Cons_eq_map_conv)

lemma alternatingTail_keys: "map observation_key g = map observation_key h \<Longrightarrow> alternatingTail g = alternatingTail h"
  unfolding alternatingTail_def by (rule alternating_keys) (simp flip: rev_map)

lemma repeatedTail_cong: "map observation_key g = map observation_key h \<Longrightarrow> repeatedTail g k = repeatedTail h k"
  by (simp add: repeatedTail_keys)

lemma repeatedTail_snoc:
  "repeatedTail (h @ [x]) k = (if observation_key x = k then 1 + repeatedTail h k else 0)"
  by (simp add: repeatedTail_def)

lemma repeatedTail_bounds: "0 \<le> repeatedTail h k" "repeatedTail h k \<le> int (length h)"
  unfolding repeatedTail_def by (simp, metis length_rev length_takeWhile_le of_nat_le_iff)

lemma alternating_bounds: "0 \<le> alternating h" "h \<noteq> [] \<Longrightarrow> alternating h < int (length h)"
  by (induction h rule: alternating.induct) auto

lemma alternating_direct: "alternating h > 0 \<Longrightarrow> repeatedTail (rev h) (observation_key (hd h)) = 1"
  by (induction h rule: alternating.induct) (auto simp: repeatedTail_def split: if_split_asm)

lemma repeatedTail_drop:
  "repeatedTail (drop n h) k = min (repeatedTail h k) (int (length h - n))"
proof -
  have "rev (drop n h) = take (length h - n) (rev h)" by (simp add: rev_drop)
  moreover have "length (takeWhile P (take m xs)) = min (length (takeWhile P xs)) m" for P :: "observation \<Rightarrow> bool" and m xs
    by (induction xs arbitrary: m) (auto simp: take_Cons split: nat.split)
  ultimately show ?thesis by (simp add: repeatedTail_def min_def)
qed

section \<open>Sequences of operations\<close>

text \<open>New user input resets the guard; a reset makes no decision, and no event records it.\<close>

datatype guard_op = OpBefore progress_call | OpObserve progress_call progress_outcome | OpReset

fun op_step :: "(string \<Rightarrow> string) \<Rightarrow> guard_op \<Rightarrow> guard \<Rightarrow> guard_decision option \<times> guard" where
  "op_step digest (OpBefore c) g = map_prod Some id (before_call digest g c)"
| "op_step digest (OpObserve c out) g = map_prod Some id (observe_call digest g c out)"
| "op_step digest OpReset g = (None, reset_guard g)"

fun run_ops :: "(string \<Rightarrow> string) \<Rightarrow> guard_op list \<Rightarrow> guard \<Rightarrow> (guard_op \<times> guard_decision) list \<times> guard" where
  "run_ops digest [] g = ([], g)"
| "run_ops digest (op # ops) g =
     (let (d, g') = op_step digest op g; (ds, g'') = run_ops digest ops g'
      in ((case d of None \<Rightarrow> [] | Some d \<Rightarrow> [(op, d)]) @ ds, g''))"

text \<open>The decisions that terminal tool events carry: refusals and observations.\<close>

fun in_terminal :: "guard_op \<times> guard_decision \<Rightarrow> bool" where
  "in_terminal (OpBefore c, d) = (gd_action d = GuardBlockCall \<or> gd_action d = GuardHaltTurn)"
| "in_terminal (OpObserve c out, d) = True"
| "in_terminal (OpReset, d) = False"

definition terminal_decisions :: "(guard_op \<times> guard_decision) list \<Rightarrow> guard_decision list" where
  "terminal_decisions ds = map snd (filter in_terminal ds)"

text \<open>
  A reset is pending as long as no outcome has cleared the history since: only an outcome that is not
  a progress signal, such as a successful write, leaves a record that clears a restored guard, too.
\<close>

definition clears :: "(string \<Rightarrow> string) \<Rightarrow> progress_call \<Rightarrow> progress_outcome \<Rightarrow> bool" where
  "clears digest c out \<longleftrightarrow> po_successful_write out \<or> observed digest c out = None"

fun reset_pending :: "(string \<Rightarrow> string) \<Rightarrow> bool \<Rightarrow> guard_op list \<Rightarrow> bool" where
  "reset_pending digest p [] = p"
| "reset_pending digest p (OpReset # ops) = reset_pending digest True ops"
| "reset_pending digest p (OpBefore c # ops) = reset_pending digest p ops"
| "reset_pending digest p (OpObserve c out # ops) = reset_pending digest (p \<and> \<not> clears digest c out) ops"

lemma no_reset_pending: "OpReset \<notin> set ops \<Longrightarrow> \<not> reset_pending digest False ops"
  by (induction digest False ops rule: reset_pending.induct) simp_all

definition carries_guard :: "run_event \<Rightarrow> bool" where
  "carries_guard e \<longleftrightarrow> ev_type e \<in> {EventToolCompleted, EventToolFailed} \<and> ev_payload e ''progress_guard_version'' \<noteq> None"

text \<open>The guard's fields of a stored event are those of the decision, as JSON brings them back.\<close>

definition stores_decision :: "run_event \<Rightarrow> guard_decision \<Rightarrow> bool" where
  "stores_decision e d \<longleftrightarrow> (\<forall>k \<in> dom (guard_payload d). ev_payload e k = stored_payload (guard_payload d) k)"

section \<open>Durable decisions come back\<close>

definition restored_decision :: "guard_decision \<Rightarrow> guard_decision" where
  "restored_decision d = d\<lparr>gd_count := intValue (Some (VFloat64 (float64_of_int (gd_count d))))\<rparr>"

lemma text_action_text: "a \<in> {GuardAllow, GuardWarn, GuardBlockCall, GuardHaltTurn} \<Longrightarrow> text_action (action_text a) = a"
  by (auto simp: text_action_def)

lemma text_rule_text:
  "r \<in> {NoRule, RuleRepeatedFailure, RuleRepeatedResult, RuleAlternatingLoop} \<Longrightarrow> text_rule (rule_text r) = r"
  by (auto simp: text_rule_def)

text \<open>The decisions the guard makes: texts that survive JSON, and one of its own actions and rules.\<close>

definition plain_decision :: "guard_decision \<Rightarrow> bool" where
  "plain_decision d \<longleftrightarrow> gd_version d \<noteq> [] \<and> utf8_valid (gd_version d) \<and> utf8_valid (gd_signature d)
     \<and> utf8_valid (gd_outcome d) \<and> gd_reason d = rule_reason (gd_rule d)
     \<and> gd_action d \<in> {GuardAllow, GuardWarn, GuardBlockCall, GuardHaltTurn}
     \<and> gd_rule d \<in> {NoRule, RuleRepeatedFailure, RuleRepeatedResult, RuleAlternatingLoop}"

lemma utf8_texts:
  "a \<in> {GuardAllow, GuardWarn, GuardBlockCall, GuardHaltTurn} \<Longrightarrow> sanitize_utf8 (action_text a) = action_text a"
  "r \<in> {NoRule, RuleRepeatedFailure, RuleRepeatedResult, RuleAlternatingLoop} \<Longrightarrow> sanitize_utf8 (rule_text r) = rule_text r"
  "r \<in> {NoRule, RuleRepeatedFailure, RuleRepeatedResult, RuleAlternatingLoop} \<Longrightarrow>
     sanitize_utf8 (rule_reason r) = rule_reason r"
  by (elim insertE emptyE; simp add: rule_reason_def; code_simp)+

lemma guard_payload_fields:
  "guard_payload d ''progress_guard_version'' = Some (VString (gd_version d))"
  "guard_payload d ''progress_guard_rule'' = Some (VString (rule_text (gd_rule d)))"
  "guard_payload d ''progress_guard_action'' = Some (VString (action_text (gd_action d)))"
  "guard_payload d ''progress_guard_count'' = Some (VInt (gd_count d))"
  "guard_payload d ''progress_guard_reason'' = Some (VString (gd_reason d))"
  "guard_payload d ''progress_guard_signature'' = Some (VString (gd_signature d))"
  "guard_payload d ''progress_guard_outcome'' = Some (VString (gd_outcome d))"
  "guard_payload d ''progress_guard_trackable'' = Some (VBool (gd_trackable d))"
  "guard_payload d ''progress_guard_executed'' = Some (VBool (gd_executed d))"
  unfolding guard_payload_def by simp_all

lemma decision_from_payload:
  assumes "plain_decision d" and "stores_decision e d"
  shows "progressDecisionFromPayload (ev_payload e) = Some (restored_decision d)"
proof -
  have stored: "ev_payload e k = stored_payload (guard_payload d) k" if "guard_payload d k \<noteq> None" for k
    using assms(2) that by (simp add: stores_decision_def dom_def)
  have texts: "sanitize_utf8 (gd_version d) = gd_version d" "sanitize_utf8 (gd_signature d) = gd_signature d"
    "sanitize_utf8 (gd_outcome d) = gd_outcome d" "sanitize_utf8 (gd_reason d) = gd_reason d"
    "sanitize_utf8 (action_text (gd_action d)) = action_text (gd_action d)"
    "sanitize_utf8 (rule_text (gd_rule d)) = rule_text (gd_rule d)"
    using assms(1) sanitize_valid utf8_texts(1) [of "gd_action d"] utf8_texts(2,3) [of "gd_rule d"]
    unfolding plain_decision_def by metis+
  have p: "ev_payload e ''progress_guard_version'' = Some (VString (gd_version d))"
    "ev_payload e ''progress_guard_rule'' = Some (VString (rule_text (gd_rule d)))"
    "ev_payload e ''progress_guard_action'' = Some (VString (action_text (gd_action d)))"
    "ev_payload e ''progress_guard_count'' = Some (VFloat64 (float64_of_int (gd_count d)))"
    "ev_payload e ''progress_guard_reason'' = Some (VString (gd_reason d))"
    "ev_payload e ''progress_guard_signature'' = Some (VString (gd_signature d))"
    "ev_payload e ''progress_guard_outcome'' = Some (VString (gd_outcome d))"
    "ev_payload e ''progress_guard_trackable'' = Some (VBool (gd_trackable d))"
    "ev_payload e ''progress_guard_executed'' = Some (VBool (gd_executed d))"
    using texts by (simp_all add: stored guard_payload_fields stored_payload_def)
  have "action_text (gd_action d) \<noteq> []" "text_action (action_text (gd_action d)) = gd_action d"
    "text_rule (rule_text (gd_rule d)) = gd_rule d"
    using assms(1) text_action_text [of "gd_action d"] text_rule_text [of "gd_rule d"]
    unfolding plain_decision_def by (elim conjE, cases "gd_action d"; simp)+
  moreover have "gd_version d \<noteq> []" using assms(1) by (simp add: plain_decision_def)
  ultimately show ?thesis
    by (simp add: progressDecisionFromPayload_def payload_string_def p)
      (simp add: restored_decision_def boolValue_def guard_decision.equality)
qed

lemma no_guard_payload: "ev_payload e ''progress_guard_version'' = None \<Longrightarrow> progressDecisionFromPayload (ev_payload e) = None"
  by (simp add: progressDecisionFromPayload_def payload_string_def)

lemma guard_records_stored:
  assumes "list_all2 stores_decision (filter carries_guard events) ds" and "\<forall>d \<in> set ds. plain_decision d"
  shows "guard_records events = map restored_decision ds"
  using assms
proof (induction events arbitrary: ds)
  case (Cons e events)
  show ?case
  proof (cases "carries_guard e")
    case True
    then obtain d ds' where ds: "ds = d # ds'" "stores_decision e d" "list_all2 stores_decision (filter carries_guard events) ds'"
      using Cons.prems(1) by (auto simp: list_all2_Cons1)
    then have "guard_records events = map restored_decision ds'" using Cons by simp
    moreover have "progressDecisionFromPayload (ev_payload e) = Some (restored_decision d)"
      by (rule decision_from_payload) (use ds Cons.prems(2) in auto)
    ultimately show ?thesis using True ds(1) by (auto simp: guard_records_def carries_guard_def List.map_filter_simps)
  next
    case False
    then have "guard_records (e # events) = guard_records events"
      using no_guard_payload [of e] by (auto simp: guard_records_def carries_guard_def List.map_filter_simps)
    then show ?thesis using Cons False by simp
  qed
qed (simp add: guard_records_def List.map_filter_simps)

section \<open>Guards that decide alike\<close>

abbreviation traits :: "observation \<Rightarrow> string \<times> string" where
  "traits x \<equiv> (ob_signature x, ob_fingerprint x)"

text \<open>
  A restored guard may have a different rule for an observation, namely that of the pattern that was
  running when it was made; but then the observation does not repeat the one before it.
\<close>

definition same_guard :: "guard \<Rightarrow> guard \<Rightarrow> bool" where
  "same_guard g h \<longleftrightarrow> g_config h = g_config g \<and> g_blocked h = g_blocked g
     \<and> map traits (g_history h) = map traits (g_history g)
     \<and> (g_history g \<noteq> [] \<longrightarrow> ob_rule (last (g_history h)) = ob_rule (last (g_history g))
          \<or> repeatedTail (g_history g) (observation_key (last (g_history g))) \<le> 1)"

lemma traits_keys: "map traits xs = map traits ys \<Longrightarrow> map observation_key xs = map observation_key ys"
proof -
  have keys: "map observation_key zs = map (\<lambda>(s, f). s @ '':'' @ f) (map traits zs)" for zs
    by (simp add: observation_key_def)
  show "map traits xs = map traits ys \<Longrightarrow> map observation_key xs = map observation_key ys"
    unfolding keys by (rule arg_cong)
qed

lemma same_guard_refl: "same_guard g g"
  by (simp add: same_guard_def)

lemma push_traits:
  assumes "map traits (g_history h) = map traits (g_history g)" and "g_config h = g_config g" and "traits y = traits x"
  shows "map traits (g_history (push_observation y h)) = map traits (g_history (push_observation x g))"
proof -
  have "length (g_history h) = length (g_history g)" using assms(1) by (metis length_map)
  then show ?thesis
    using assms by (simp add: push_observation_def Let_def flip: drop_map)
qed

lemma push_last:
  assumes "gc_history_max (g_config g) > 0"
  shows "g_history (push_observation x g) \<noteq> []" "last (g_history (push_observation x g)) = x"
  using assms by (auto simp: push_observation_def Let_def)

lemma push_direct:
  assumes "gc_history_max (g_config g) > 1"
  shows "repeatedTail (g_history (push_observation x g)) k = min (repeatedTail (g_history g @ [x]) k) (gc_history_max (g_config g))"
proof -
  let ?h = "g_history g @ [x]" and ?m = "gc_history_max (g_config g)"
  have b: "repeatedTail ?h k \<le> int (length ?h)" by (rule repeatedTail_bounds)
  have h: "g_history (push_observation x g) = drop (nat (int (length ?h) - ?m)) ?h"
    by (simp add: push_observation_def Let_def)
  show ?thesis unfolding h repeatedTail_drop using b assms by (simp del: length_append)
qed

lemma predict_same:
  assumes "same_guard g h"
  shows "predict digest g c = None \<Longrightarrow> predict digest h c = None"
    "predict digest g c = Some (x, rule, n) \<Longrightarrow>
       \<exists>y rule'. predict digest h c = Some (y, rule', n) \<and> traits y = traits x \<and> (n \<ge> 3 \<longrightarrow> rule' = rule)"
proof -
  have tr: "map traits (g_history h) = map traits (g_history g)" using assms by (simp add: same_guard_def)
  note keys = traits_keys [OF tr]
  have rep: "repeatedTail (g_history h) k = repeatedTail (g_history g) k" for k by (rule repeatedTail_cong [OF keys])
  have alt: "alternatingTail (g_history h) = alternatingTail (g_history g)" by (rule alternatingTail_keys [OF keys])
  have both: "(predict digest g c = None \<longrightarrow> predict digest h c = None)
    \<and> (\<forall>x rule n. predict digest g c = Some (x, rule, n) \<longrightarrow>
       (\<exists>y rule'. predict digest h c = Some (y, rule', n) \<and> traits y = traits x \<and> (n \<ge> 3 \<longrightarrow> rule' = rule)))"
  proof (cases "rev (g_history g)")
    case Nil
    then show ?thesis using tr by (simp add: predict_def)
  next
    case (Cons x xs)
    have "map traits (rev (g_history h)) = map traits (x # xs)" using tr Cons by (simp flip: rev_map)
    then obtain y ys where ys: "rev (g_history h) = y # ys" "traits y = traits x" "map traits ys = map traits xs"
      by (auto simp: map_eq_Cons_conv)
    have k: "observation_key y = observation_key x" using ys(2) by (simp add: observation_key_def)
    have lasts: "last (g_history g) = x" "last (g_history h) = y" "g_history g \<noteq> []"
      using Cons ys(1) by (metis hd_rev list.sel(1) rev_is_Nil_conv list.distinct(1))+
    then have label: "ob_rule y = ob_rule x \<or> repeatedTail (g_history g) (observation_key x) \<le> 1"
      using assms by (auto simp: same_guard_def)
    show ?thesis
    proof (cases "ob_signature x = Signature digest c")
      case True
      then show ?thesis using label ys(2) k by (auto simp: predict_def Cons ys(1) rep)
    next
      case False
      show ?thesis
      proof (cases xs)
        case Nil
        then show ?thesis using False ys by (auto simp: predict_def Cons)
      next
        case (Cons z zs)
        then obtain w ws where w: "ys = w # ws" "traits w = traits z" using ys(3) by (auto simp: map_eq_Cons_conv)
        then have "observation_key w = observation_key z" by (simp add: observation_key_def)
        then show ?thesis
          using False ys(2) k w(2) by (simp add: predict_def \<open>rev (g_history g) = x # xs\<close> ys(1) Cons w(1) alt)
      qed
    qed
  qed
  show "predict digest g c = None \<Longrightarrow> predict digest h c = None" using both by blast
  show "predict digest g c = Some (x, rule, n) \<Longrightarrow>
       \<exists>y rule'. predict digest h c = Some (y, rule', n) \<and> traits y = traits x \<and> (n \<ge> 3 \<longrightarrow> rule' = rule)"
    using both by blast
qed

lemma count_blocked_same: "same_guard g h \<Longrightarrow> same_guard (count_blocked k g) (count_blocked k h)"
  by (simp add: same_guard_def count_blocked_def)

lemma before_same:
  assumes "same_guard g h" and "gc_block_after (g_config g) \<ge> 3"
  shows "fst (before_call digest h c) = fst (before_call digest g c)"
    "same_guard (snd (before_call digest g c)) (snd (before_call digest h c))"
proof -
  have cfg: "g_config h = g_config g" and blocked: "g_blocked h = g_blocked g"
    using assms(1) by (simp_all add: same_guard_def)
  have both: "fst (before_call digest h c) = fst (before_call digest g c)
    \<and> same_guard (snd (before_call digest g c)) (snd (before_call digest h c))"
  proof (cases "predict digest g c")
    case None
    then show ?thesis using predict_same(1) [OF assms(1)] assms(1) by (simp add: before_call_def cfg)
  next
    case (Some p)
    obtain x rule n where p: "predict digest g c = Some (x, rule, n)" using Some by (metis prod_cases3)
    obtain y rule' where y: "predict digest h c = Some (y, rule', n)" "traits y = traits x" "n \<ge> 3 \<longrightarrow> rule' = rule"
      using predict_same(2) [OF assms(1) p] by blast
    have k: "observation_key y = observation_key x" using y(2) by (simp add: observation_key_def)
    show ?thesis
      using assms y k count_blocked_same [OF assms(1)]
      by (auto simp: before_call_def cfg blocked p Let_def guard_decision_of_def)
  qed
  then show "fst (before_call digest h c) = fst (before_call digest g c)"
    "same_guard (snd (before_call digest g c)) (snd (before_call digest h c))"
    by simp_all
qed

lemma reset_same: "same_guard g h \<Longrightarrow> same_guard (reset_guard g) (reset_guard h)"
  by (simp add: same_guard_def reset_guard_def)

lemma push_same:
  assumes "same_guard g h" and "gc_history_max (g_config g) > 1" and "traits y = traits x"
    and "ob_rule y = ob_rule x \<or> repeatedTail (g_history (push_observation x g)) (observation_key x) \<le> 1"
  shows "same_guard (push_observation x g) (push_observation y h)"
proof -
  have cfg: "g_config h = g_config g" "g_blocked h = g_blocked g" using assms(1) by (simp_all add: same_guard_def)
  have "map traits (g_history (push_observation y h)) = map traits (g_history (push_observation x g))"
    by (rule push_traits) (use assms in \<open>simp_all add: same_guard_def\<close>)
  moreover have "observation_key y = observation_key x" using assms(3) by (simp add: observation_key_def)
  moreover have "last (g_history (push_observation x g)) = x" "last (g_history (push_observation y h)) = y"
    using push_last(2) assms(2) cfg by simp_all
  ultimately show ?thesis
    using assms(4) cfg by (simp add: same_guard_def) (simp add: push_observation_def Let_def)
qed

lemma observe_same:
  assumes "same_guard g h" and "gc_history_max (g_config g) > 1"
  shows "fst (observe_call digest h c out) = fst (observe_call digest g c out)"
    "same_guard (snd (observe_call digest g c out)) (snd (observe_call digest h c out))"
proof -
  have cfg: "g_config h = g_config g" using assms(1) by (simp add: same_guard_def)
  have pattern: "currentPattern (g_history (push_observation x h)) = currentPattern (g_history (push_observation x g))" for x
  proof -
    have keys: "map observation_key (g_history (push_observation x h)) = map observation_key (g_history (push_observation x g))"
      by (rule traits_keys, rule push_traits) (use assms(1) in \<open>simp_all add: same_guard_def\<close>)
    show ?thesis
      using push_last(2) [of g x] push_last(2) [of h x] assms(2) cfg repeatedTail_cong [OF keys] alternatingTail_keys [OF keys]
      by (simp add: currentPattern_def)
  qed
  have push: "same_guard (push_observation x g) (push_observation x h)" for x
    by (rule push_same) (use assms in auto)
  have pcfg: "g_config (push_observation x u) = g_config u" for x u by (simp add: push_observation_def Let_def)
  show "fst (observe_call digest h c out) = fst (observe_call digest g c out)"
    by (simp add: observe_call_def cfg pattern Let_def pcfg split: option.split prod.split)
  show "same_guard (snd (observe_call digest g c out)) (snd (observe_call digest h c out))"
    using assms(1) reset_same [OF assms(1)] push
    by (simp add: observe_call_def cfg Let_def split: option.split prod.split)
qed

section \<open>Restoring follows the live guard\<close>

text \<open>Digests are not empty and survive JSON, and so does the version of the configuration.\<close>

definition proper_digest :: "(string \<Rightarrow> string) \<Rightarrow> bool" where
  "proper_digest digest \<longleftrightarrow> (\<forall>s. digest s \<noteq> [] \<and> utf8_valid (digest s))"

definition guard_plain :: "guard \<Rightarrow> bool" where
  "guard_plain g \<longleftrightarrow> gc_version (g_config g) \<noteq> [] \<and> utf8_valid (gc_version (g_config g))
     \<and> (\<forall>x \<in> set (g_history g). ob_fingerprint x \<noteq> [] \<and> utf8_valid (ob_fingerprint x)
          \<and> ob_rule x \<in> {RuleRepeatedFailure, RuleRepeatedResult})"

lemma op_step_config [simp]:
  "g_config (snd (before_call digest g c)) = g_config g" "g_config (snd (observe_call digest g c out)) = g_config g"
  "g_config (snd (op_step digest op g)) = g_config g" "g_config (reset_guard g) = g_config g"
  "g_config (push_observation x g) = g_config g" "g_config (count_blocked k g) = g_config g"
proof -
  show r: "g_config (reset_guard g) = g_config g" "g_config (push_observation x g) = g_config g"
    "g_config (count_blocked k g) = g_config g" for g k x
    by (simp_all add: reset_guard_def push_observation_def count_blocked_def Let_def)
  show b: "g_config (snd (before_call digest g c)) = g_config g" for c
    by (auto simp: before_call_def Let_def r split: option.split)
  show o: "g_config (snd (observe_call digest g c out)) = g_config g" for c out
    by (auto simp: observe_call_def Let_def r split: option.split prod.split)
  show "g_config (snd (op_step digest op g)) = g_config g" by (cases op) (simp_all add: b o r)
qed

lemma predict_signature:
  assumes "predict digest g c = Some (x, rule, n)"
  shows "x \<in> set (g_history g)" "ob_signature x = Signature digest c" "rule = ob_rule x \<or> rule = RuleAlternatingLoop"
proof -
  have "x \<in> set (rev (g_history g)) \<and> ob_signature x = Signature digest c \<and> (rule = ob_rule x \<or> rule = RuleAlternatingLoop)"
    using assms by (auto simp: predict_def split: list.split_asm if_split_asm)
  then show "x \<in> set (g_history g)" "ob_signature x = Signature digest c" "rule = ob_rule x \<or> rule = RuleAlternatingLoop"
    by simp_all
qed

lemma observed_Some:
  assumes "observed digest c out = Some x" and "proper_digest digest"
  shows "ob_signature x \<noteq> []" "utf8_valid (ob_signature x)" "ob_fingerprint x \<noteq> []" "utf8_valid (ob_fingerprint x)"
    "ob_rule x \<in> {RuleRepeatedFailure, RuleRepeatedResult}"
  using assms by (auto simp: observed_def proper_digest_def Signature_def hash_parts_def split: if_split_asm)

lemma currentPattern_rule: "fst (currentPattern h) = ob_rule (last h) \<or> fst (currentPattern h) = RuleAlternatingLoop"
  by (simp add: currentPattern_def Let_def)

lemma plain_untracked: "v \<noteq> [] \<Longrightarrow> utf8_valid v \<Longrightarrow> plain_decision (untracked v b)"
  by (simp add: plain_decision_def untracked_def rule_reason_def)

lemma untracked_trackable [simp]: "\<not> gd_trackable (untracked v b)" "gd_version (untracked v b) = v"
  "gd_executed (untracked v b) = b" "gd_action (untracked v b) = GuardAllow"
  by (simp_all add: untracked_def)

lemma utf8_GuardVersion: "utf8_valid GuardVersion"
  by code_simp

lemma set_push: "set (g_history (push_observation x g)) \<subseteq> insert x (set (g_history g))"
  by (auto simp: push_observation_def Let_def dest!: in_set_dropD split: if_split_asm)

lemma before_plain:
  assumes "guard_plain g" and "proper_digest digest"
  shows "guard_plain (snd (before_call digest g c))" "plain_decision (fst (before_call digest g c))"
    "gd_trackable (fst (before_call digest g c)) \<Longrightarrow> gd_signature (fst (before_call digest g c)) \<noteq> []
      \<and> gd_outcome (fst (before_call digest g c)) \<noteq> []"
proof -
  have d: "Signature digest c \<noteq> []" "utf8_valid (Signature digest c)"
    using assms(2) by (simp_all add: Signature_def hash_parts_def proper_digest_def)
  have v: "gc_version (g_config g) \<noteq> []" "utf8_valid (gc_version (g_config g))" using assms(1) by (simp_all add: guard_plain_def)
  note u = plain_untracked [OF v] plain_untracked [OF _ utf8_GuardVersion]
  have "guard_plain (snd (before_call digest g c)) \<and> plain_decision (fst (before_call digest g c))
    \<and> (gd_trackable (fst (before_call digest g c)) \<longrightarrow> gd_signature (fst (before_call digest g c)) \<noteq> []
      \<and> gd_outcome (fst (before_call digest g c)) \<noteq> [])"
  proof (cases "gc_enabled (g_config g) \<and> predict digest g c \<noteq> None")
    case True
    then obtain x rule n where p: "predict digest g c = Some (x, rule, n)" by (metis option.exhaust prod_cases3)
    have x: "ob_fingerprint x \<noteq> []" "utf8_valid (ob_fingerprint x)" "ob_rule x \<in> {RuleRepeatedFailure, RuleRepeatedResult}"
      using predict_signature(1) [OF p] assms(1) by (simp_all add: guard_plain_def)
    have "rule \<in> {RuleRepeatedFailure, RuleRepeatedResult, RuleAlternatingLoop}"
      using predict_signature(3) [OF p] x(3) by auto
    then show ?thesis
      using assms(1) u v d x predict_signature(2) [OF p]
      by (auto simp: before_call_def p Let_def guard_plain_def count_blocked_def guard_decision_of_def plain_decision_def)
  next
    case False
    then show ?thesis using assms(1) u by (auto simp: before_call_def split: option.split)
  qed
  then show "guard_plain (snd (before_call digest g c))" "plain_decision (fst (before_call digest g c))"
    "gd_trackable (fst (before_call digest g c)) \<Longrightarrow> gd_signature (fst (before_call digest g c)) \<noteq> []
      \<and> gd_outcome (fst (before_call digest g c)) \<noteq> []"
    by simp_all
qed

lemma observe_plain:
  assumes "guard_plain g" and "proper_digest digest" and "gc_history_max (g_config g) > 1"
  shows "guard_plain (snd (observe_call digest g c out))" "plain_decision (fst (observe_call digest g c out))"
    "gd_trackable (fst (observe_call digest g c out)) \<Longrightarrow> gd_signature (fst (observe_call digest g c out)) \<noteq> []
      \<and> gd_outcome (fst (observe_call digest g c out)) \<noteq> []"
proof -
  have v: "gc_version (g_config g) \<noteq> []" "utf8_valid (gc_version (g_config g))" using assms(1) by (simp_all add: guard_plain_def)
  note u = plain_untracked [OF v] plain_untracked [OF _ utf8_GuardVersion]
  have reset: "guard_plain (reset_guard g)" using assms(1) by (simp add: guard_plain_def) (simp add: reset_guard_def)
  have "guard_plain (snd (observe_call digest g c out)) \<and> plain_decision (fst (observe_call digest g c out))
    \<and> (gd_trackable (fst (observe_call digest g c out)) \<longrightarrow> gd_signature (fst (observe_call digest g c out)) \<noteq> []
      \<and> gd_outcome (fst (observe_call digest g c out)) \<noteq> [])"
  proof (cases "gc_enabled (g_config g) \<and> \<not> po_successful_write out \<and> observed digest c out \<noteq> None")
    case True
    then obtain x where x: "observed digest c out = Some x" by blast
    note o = observed_Some [OF x assms(2)]
    obtain rule n where r: "currentPattern (g_history (push_observation x g)) = (rule, n)" by (metis prod.exhaust)
    have "rule \<in> {RuleRepeatedFailure, RuleRepeatedResult, RuleAlternatingLoop}"
      using currentPattern_rule [of "g_history (push_observation x g)"] push_last(2) [of g x] assms(3) o(5) r by auto
    moreover have "guard_plain (push_observation x g)"
      using assms(1) o set_push [of x g] by (auto simp: guard_plain_def)
    ultimately show ?thesis
      using True o v r by (auto simp: observe_call_def x Let_def guard_decision_of_def plain_decision_def)
  next
    case False
    then show ?thesis using assms(1) u reset by (auto simp: observe_call_def split: option.split)
  qed
  then show "guard_plain (snd (observe_call digest g c out))" "plain_decision (fst (observe_call digest g c out))"
    "gd_trackable (fst (observe_call digest g c out)) \<Longrightarrow> gd_signature (fst (observe_call digest g c out)) \<noteq> []
      \<and> gd_outcome (fst (observe_call digest g c out)) \<noteq> []"
    by simp_all
qed

lemma restored_fields [simp]:
  "gd_version (restored_decision d) = gd_version d" "gd_trackable (restored_decision d) = gd_trackable d"
  "gd_signature (restored_decision d) = gd_signature d" "gd_outcome (restored_decision d) = gd_outcome d"
  "gd_rule (restored_decision d) = gd_rule d" "gd_action (restored_decision d) = gd_action d"
  "gd_executed (restored_decision d) = gd_executed d"
  by (simp_all add: restored_decision_def)

text \<open>A call that is let through leaves the guard as it was; a refusal only counts.\<close>

lemma before_follows:
  assumes "guard_plain g" and "proper_digest digest" and "gc_enabled (g_config g)" and "same_guard g h"
    and "before_call digest g c = (d, g')"
  shows "if in_terminal (OpBefore c, d) then same_guard g' (restore_record (restored_decision d) h) else g' = g"
proof (cases "predict digest g c")
  case None
  then show ?thesis using assms(3,5) by (auto simp: before_call_def)
next
  case (Some p)
  obtain x rule n where p: "predict digest g c = Some (x, rule, n)" using Some by (metis prod_cases3)
  show ?thesis
  proof (cases "n < gc_block_after (g_config g)")
    case True
    then show ?thesis using assms(3,5) p by (auto simp: before_call_def)
  next
    case False
    have cfg: "g_config h = g_config g" using assms(4) by (simp add: same_guard_def)
    have t: "gd_trackable d \<Longrightarrow> gd_signature d \<noteq> [] \<and> gd_outcome d \<noteq> []"
      using before_plain(3) [OF assms(1,2), of c] assms(5) by simp
    have "same_guard g' (count_blocked (observation_key x) h)"
      using count_blocked_same [OF assms(4)] assms(3,5) p False by (auto simp: before_call_def Let_def)
    then show ?thesis
      using assms(3,5) p False t cfg
      by (auto simp: before_call_def Let_def restore_record_def guard_decision_of_def observation_key_def split: if_split_asm)
  qed
qed

lemma observe_follows:
  assumes "guard_plain g" and "proper_digest digest" and "gc_enabled (g_config g)" and "same_guard g h"
    and "gc_history_max (g_config g) > 1" and "observe_call digest g c out = (d, g')"
  shows "same_guard g' (restore_record (restored_decision d) h)"
proof (cases "\<not> po_successful_write out \<and> observed digest c out \<noteq> None")
  case True
  then obtain x where x: "observed digest c out = Some x" by blast
  have cfg: "g_config h = g_config g" using assms(4) by (simp add: same_guard_def)
  let ?g = "push_observation x g"
  obtain rule n where r: "currentPattern (g_history ?g) = (rule, n)" by (metis prod.exhaust)
  let ?y = "\<lparr>ob_signature = ob_signature x, ob_fingerprint = ob_fingerprint x, ob_rule = rule\<rparr>"
  have l: "last (g_history ?g) = x" "g_history ?g \<noteq> []" using push_last [of g x] assms(5) by simp_all
  have "ob_rule ?y = ob_rule x \<or> repeatedTail (g_history ?g) (observation_key x) \<le> 1"
  proof (cases "alternatingTail (g_history ?g) > repeatedTail (g_history ?g) (observation_key x)")
    case True
    then have "alternating (rev (g_history ?g)) > 0"
      using repeatedTail_bounds(1) [of "g_history ?g" "observation_key x"] by (simp add: alternatingTail_def)
    then show ?thesis using alternating_direct [of "rev (g_history ?g)"] l by (simp add: hd_rev)
  next
    case False
    then show ?thesis using r l by (simp add: currentPattern_def Let_def)
  qed
  then have "same_guard ?g (push_observation ?y h)" by (intro push_same) (use assms(4,5) in simp_all)
  moreover have "gd_signature d \<noteq> []" "gd_outcome d \<noteq> []" "d = guard_decision_of (gc_version (g_config g)) x rule
      (if n \<ge> gc_warn_after (g_config g) then GuardWarn else GuardAllow) n True" "g' = ?g"
    using observed_Some [OF x assms(2)] assms(3,6) True x r by (auto simp: observe_call_def Let_def guard_decision_of_def)
  ultimately show ?thesis using cfg by (simp add: restore_record_def guard_decision_of_def)
next
  case False
  then have "d = untracked (gc_version (g_config g)) True" "g' = reset_guard g"
    using assms(3,6) by (auto simp: observe_call_def split: if_split_asm)
  then show ?thesis using reset_same [OF assms(4)] by (simp add: restore_record_def)
qed

lemma restore_record_config [simp]: "g_config (restore_record d g) = g_config g"
  by (simp add: restore_record_def Let_def)

text \<open>Whatever a restored guard had, a clearing outcome and its record empty both guards.\<close>

lemma clears_follows:
  assumes "gc_enabled (g_config g)" and "g_config h = g_config g" and "clears digest c out"
    and "observe_call digest g c out = (d, g')"
  shows "same_guard g' (restore_record (restored_decision d) h)"
proof -
  have "d = untracked (gc_version (g_config g)) True" "g' = reset_guard g"
    using assms(1,3,4) by (auto simp: observe_call_def clears_def split: if_split_asm)
  then show ?thesis using assms(2) by (simp add: restore_record_def same_guard_def reset_guard_def)
qed

lemma run_follows:
  assumes "proper_digest digest" and "gc_enabled (g_config g)" and "gc_history_max (g_config g) > 1"
    and "guard_plain g" and "g_config h = g_config g" and "\<not> p \<Longrightarrow> same_guard g h" and "run_ops digest ops g = (ds, g')"
  shows "\<not> reset_pending digest p ops \<Longrightarrow>
      same_guard g' (fold restore_record (map restored_decision (terminal_decisions ds)) h)"
    "\<forall>d \<in> set (terminal_decisions ds). plain_decision d" "g_config g' = g_config g"
proof -
  have "(\<not> reset_pending digest p ops \<longrightarrow>
        same_guard g' (fold restore_record (map restored_decision (terminal_decisions ds)) h))
    \<and> (\<forall>d \<in> set (terminal_decisions ds). plain_decision d) \<and> g_config g' = g_config g"
    using assms(2-7)
  proof (induction ops arbitrary: g h p ds)
    case Nil
    then show ?case by (simp add: terminal_decisions_def)
  next
    case (Cons op ops)
    note plain = Cons.prems(3)
    show ?case
    proof (cases op)
      case OpReset
      have "guard_plain (reset_guard g)" using plain by (simp add: guard_plain_def) (simp add: reset_guard_def)
      then show ?thesis
        using Cons.IH [of "reset_guard g" h True ds] Cons.prems OpReset by (simp add: Let_def split: prod.split_asm)
    next
      case (OpBefore call)
      obtain d u where b: "before_call digest g call = (d, u)" by (metis prod.exhaust)
      obtain es where es: "run_ops digest ops u = (es, g')" "ds = (op, d) # es"
        using Cons.prems(6) b OpBefore by (auto simp: Let_def split: prod.split_asm)
      let ?h = "if in_terminal (op, d) then restore_record (restored_decision d) h else h"
      have u: "guard_plain u" "plain_decision d" "g_config u = g_config g"
        using before_plain(1,2) [OF plain assms(1), of call] op_step_config(1) [of digest g call] b by simp_all
      have "same_guard u ?h" if "\<not> p"
        using before_follows [OF plain assms(1) Cons.prems(1) Cons.prems(5) [OF that] b] Cons.prems(5) [OF that]
          OpBefore by auto
      then show ?thesis
        using Cons.IH [of u ?h p es] Cons.prems(1,2,4) u es OpBefore by (auto simp: terminal_decisions_def)
    next
      case (OpObserve call out)
      obtain d u where b: "observe_call digest g call out = (d, u)" by (metis prod.exhaust)
      obtain es where es: "run_ops digest ops u = (es, g')" "ds = (op, d) # es"
        using Cons.prems(6) b OpObserve by (auto simp: Let_def split: prod.split_asm)
      let ?h = "restore_record (restored_decision d) h"
      have u: "guard_plain u" "plain_decision d" "g_config u = g_config g"
        using observe_plain(1,2) [OF plain assms(1) Cons.prems(2), of call out] op_step_config(2) [of digest g call out] b
        by simp_all
      have "same_guard u ?h" if "\<not> (p \<and> \<not> clears digest call out)"
        using that observe_follows [OF plain assms(1) Cons.prems(1) _ Cons.prems(2) b] Cons.prems(5)
          clears_follows [OF Cons.prems(1,4) _ b] by blast
      then show ?thesis
        using Cons.IH [of u ?h "p \<and> \<not> clears digest call out" es] Cons.prems(1,2,4) u es OpObserve
        by (auto simp: terminal_decisions_def)
    qed
  qed
  then show "\<not> reset_pending digest p ops \<Longrightarrow>
      same_guard g' (fold restore_record (map restored_decision (terminal_decisions ds)) h)"
    "\<forall>d \<in> set (terminal_decisions ds). plain_decision d" "g_config g' = g_config g" by simp_all
qed

lemma run_same:
  assumes "same_guard g h" and "gc_block_after (g_config g) \<ge> 3" and "gc_history_max (g_config g) > 1"
  shows "fst (run_ops digest ops h) = fst (run_ops digest ops g)"
  using assms
proof (induction ops arbitrary: g h)
  case (Cons op ops)
  have s: "fst (op_step digest op h) = fst (op_step digest op g)" "same_guard (snd (op_step digest op g)) (snd (op_step digest op h))"
    using before_same [OF Cons.prems(1,2)] observe_same [OF Cons.prems(1,3)] reset_same [OF Cons.prems(1)]
    by (cases op; simp)+
  have "fst (run_ops digest ops (snd (op_step digest op h))) = fst (run_ops digest ops (snd (op_step digest op g)))"
    by (rule Cons.IH [OF s(2)]) (use Cons.prems in simp_all)
  then show ?case using s(1) by (simp add: case_prod_unfold Let_def)
qed simp

lemma trim_blank: "trim_space [] = []"
  by code_simp

lemma NormalizeConfig_version: "gc_version (NormalizeConfig c) \<noteq> []" "utf8_valid (gc_version c) \<Longrightarrow> utf8_valid (gc_version (NormalizeConfig c))"
  "gc_history_max (NormalizeConfig c) \<ge> 4" "gc_enabled (NormalizeConfig c) = gc_enabled c"
  using utf8_GuardVersion by (auto simp: NormalizeConfig_def Let_def trim_blank)

lemma run_disabled:
  "\<not> gc_enabled (g_config g) \<Longrightarrow> \<not> gc_enabled (g_config h) \<Longrightarrow> fst (run_ops digest ops h) = fst (run_ops digest ops g)"
proof (induction ops arbitrary: g h)
  case (Cons op ops)
  have "fst (op_step digest op h) = fst (op_step digest op g)"
    using Cons.prems by (cases op; simp add: before_call_def observe_call_def)
  moreover have "fst (run_ops digest ops (snd (op_step digest op h))) = fst (run_ops digest ops (snd (op_step digest op g)))"
    by (rule Cons.IH) (use Cons.prems in simp_all)
  ultimately show ?case by (simp add: case_prod_unfold Let_def)
qed simp

lemma restore_config [simp]: "g_config (restore_guard ds g) = g_config g"
proof -
  have "g_config (fold restore_record ds u) = g_config u" for u by (induction ds arbitrary: u) simp_all
  then show ?thesis by (simp add: restore_guard_def)
qed

text \<open>The guard that is rebuilt from the decisions of a lost guard.\<close>

lemma rebuilt_guard:
  assumes "proper_digest digest" and "utf8_valid (gc_version config)" and "gc_enabled config"
    and "run_ops digest ops (NewGuard config) = (ds, g)" and "\<not> reset_pending digest False ops"
    and "list_all2 stores_decision (filter carries_guard events) (terminal_decisions ds)"
  shows "same_guard g (progressGuardForRun config events)" "g_config g = g_config (NewGuard config)"
proof -
  have new: "gc_enabled (g_config (NewGuard config))" "gc_history_max (g_config (NewGuard config)) > 1"
    "guard_plain (NewGuard config)"
    using assms(2,3) NormalizeConfig_version [of config] by (simp_all add: NewGuard_def guard_plain_def)
  note f = run_follows [where p = False, OF assms(1) new refl same_guard_refl assms(4)]
  have "guard_records events = map restored_decision (terminal_decisions ds)"
    by (rule guard_records_stored [OF assms(6) f(2)])
  moreover have "reset_guard (NewGuard config) = NewGuard config" by (simp add: reset_guard_def NewGuard_def)
  ultimately show "same_guard g (progressGuardForRun config events)"
    using f(1) [OF assms(5)] by (simp add: progressGuardForRun_def restore_guard_def)
  show "g_config g = g_config (NewGuard config)" by (rule f(3))
qed

section \<open>A repeated call\<close>

definition guard_ok :: "guard \<Rightarrow> bool" where
  "guard_ok g \<longleftrightarrow> gc_enabled (g_config g) \<and> ValidateConfig (g_config g)
     \<and> int (length (g_history g)) \<le> gc_history_max (g_config g) \<and> (\<forall>k. 0 \<le> blocked_count (g_blocked g) k)"

lemma push_ok: "guard_ok g \<Longrightarrow> guard_ok (push_observation x g)"
  by (auto simp: guard_ok_def push_observation_def Let_def blocked_count_def ValidateConfig_def)

lemma reset_ok: "guard_ok g \<Longrightarrow> guard_ok (reset_guard g)"
  by (auto simp: guard_ok_def reset_guard_def blocked_count_def ValidateConfig_def)

lemma op_step_ok: "guard_ok g \<Longrightarrow> guard_ok (snd (op_step digest op g))"
proof (cases op)
  case OpReset
  then show "guard_ok g \<Longrightarrow> guard_ok (snd (op_step digest op g))" by (simp add: reset_ok)
next
  case (OpBefore c)
  assume "guard_ok g"
  then have "guard_ok (count_blocked k g)" for k by (auto simp: guard_ok_def count_blocked_def blocked_count_def)
  then show ?thesis using \<open>guard_ok g\<close> OpBefore by (auto simp: before_call_def Let_def split: option.split)
next
  case (OpObserve c out)
  assume "guard_ok g"
  then show ?thesis
    using OpObserve push_ok reset_ok by (auto simp: observe_call_def Let_def split: option.split prod.split)
qed

lemma run_ops_ok: "guard_ok g \<Longrightarrow> guard_ok (snd (run_ops digest ops g))"
  by (induction ops arbitrary: g) (simp_all add: case_prod_unfold Let_def op_step_ok)

lemma attempt_ok: "guard_ok g \<Longrightarrow> guard_ok (snd (attempt digest c out g))"
  using op_step_ok [of g digest "OpBefore c"] op_step_ok [of "snd (before_call digest g c)" digest "OpObserve c out"]
  by (simp add: attempt_def case_prod_unfold Let_def)

text \<open>How far a call has been escalated: each attempt that does not halt the turn raises it.\<close>

definition level :: "(string \<Rightarrow> string) \<Rightarrow> progress_call \<Rightarrow> string \<Rightarrow> guard \<Rightarrow> int" where
  "level digest c k g =
     (case predict digest g c of
        None \<Rightarrow> 1
      | Some (x, rule, n) \<Rightarrow>
          if n \<ge> gc_block_after (g_config g) then n + blocked_count (g_blocked g) (observation_key x)
          else if ob_signature (last (g_history g)) = Signature digest c \<and> observation_key (last (g_history g)) = k then n
          else 1)"

lemma predict_bound:
  assumes "predict digest g c = Some (x, rule, n)"
  shows "n \<le> int (length (g_history g)) + 1" "1 \<le> n"
proof -
  have "alternatingTail (g_history g) \<le> int (length (g_history g))" if "g_history g \<noteq> []"
    using alternating_bounds(2) [of "rev (g_history g)"] that by (simp add: alternatingTail_def)
  moreover have "g_history g \<noteq> []" using assms by (auto simp: predict_def)
  moreover have "0 \<le> alternatingTail (g_history g)" by (simp add: alternatingTail_def alternating_bounds)
  ultimately have "n \<le> int (length (g_history g)) + 1 \<and> 1 \<le> n"
    using assms repeatedTail_bounds [of "g_history g" "observation_key x"]
    by (auto simp: predict_def split: list.split_asm if_split_asm)
  then show "n \<le> int (length (g_history g)) + 1" "1 \<le> n" by simp_all
qed

lemma predict_last:
  assumes "g_history g \<noteq> []" and "ob_signature (last (g_history g)) = Signature digest c"
  shows "predict digest g c = Some (last (g_history g), ob_rule (last (g_history g)),
     repeatedTail (g_history g) (observation_key (last (g_history g))) + 1)"
proof -
  obtain xs where r: "rev (g_history g) = last (g_history g) # xs"
    using assms(1) by (metis hd_rev list.exhaust_sel rev_is_Nil_conv)
  show ?thesis unfolding predict_def r using assms(2) by simp
qed

definition refuses :: "guard_decision \<Rightarrow> bool" where
  "refuses d \<longleftrightarrow> gd_action d = GuardBlockCall \<or> gd_action d = GuardHaltTurn"

lemma observe_never_halts: "\<not> refuses (fst (observe_call digest g c out))"
  by (auto simp: refuses_def observe_call_def Let_def guard_decision_of_def split: option.split prod.split)

lemma attempt_refused:
  assumes "guard_ok g" and "predict digest g c = Some (x, rule, n)" and "n \<ge> gc_block_after (g_config g)"
  shows "snd (attempt digest c out g) = count_blocked (observation_key x) g"
    "gd_action (fst (attempt digest c out g)) = GuardHaltTurn
       \<longleftrightarrow> n + blocked_count (g_blocked g) (observation_key x) \<ge> gc_halt_after (g_config g)"
  using assms by (auto simp: attempt_def before_call_def guard_ok_def Let_def guard_decision_of_def)

lemma attempt_executed:
  assumes "guard_ok g" and "\<And>x rule n. predict digest g c = Some (x, rule, n) \<Longrightarrow> n < gc_block_after (g_config g)"
  shows "attempt digest c out g = observe_call digest g c out"
proof (cases "predict digest g c")
  case (Some p)
  then obtain x rule n where "predict digest g c = Some (x, rule, n)" by (metis prod_cases3)
  then show ?thesis using assms by (auto simp: attempt_def before_call_def guard_ok_def)
qed (use assms(1) in \<open>simp add: attempt_def before_call_def guard_ok_def\<close>)

lemma level_executed:
  assumes "guard_ok g" and "observed digest c out = Some item" and "\<not> po_successful_write out"
    and "gc_block_after (g_config g) \<le> gc_history_max (g_config g) + 1"
    and "\<And>x rule n. predict digest g c = Some (x, rule, n) \<Longrightarrow> n < gc_block_after (g_config g)"
  shows "level digest c (observation_key item) (snd (attempt digest c out g)) > level digest c (observation_key item) g"
proof -
  let ?k = "observation_key item" and ?g = "push_observation item g" and ?r = "repeatedTail (g_history g) (observation_key item)"
  have max: "gc_history_max (g_config g) \<ge> 4" and enabled: "gc_enabled (g_config g)"
    using assms(1) by (simp_all add: guard_ok_def ValidateConfig_def)
  have g': "snd (attempt digest c out g) = ?g"
    using enabled assms(2,3) by (simp add: attempt_executed [OF assms(1,5)] observe_call_def Let_def split: prod.split)
  have l: "last (g_history ?g) = item" "g_history ?g \<noteq> []" using push_last [of g item] max by simp_all
  have sig: "ob_signature item = Signature digest c" using assms(2) by (auto simp: observed_def split: if_split_asm)
  let ?n = "min (1 + ?r) (gc_history_max (g_config g)) + 1"
  have p: "predict digest ?g c = Some (item, ob_rule item, ?n)"
    using predict_last [of ?g digest c] l sig push_direct [of g item ?k] max by (simp add: repeatedTail_snoc)
  have "0 \<le> blocked_count (g_blocked ?g) ?k" using push_ok [OF assms(1)] by (simp add: guard_ok_def)
  then have new: "level digest c ?k ?g \<ge> ?n" using l sig by (simp add: level_def p)
  have "level digest c ?k g < ?n"
  proof (cases "predict digest g c \<noteq> None \<and> ob_signature (last (g_history g)) = Signature digest c
      \<and> observation_key (last (g_history g)) = ?k")
    case True
    then have "g_history g \<noteq> []" by (auto simp: predict_def)
    then have "predict digest g c = Some (last (g_history g), ob_rule (last (g_history g)), ?r + 1)"
      using predict_last [of g digest c] True by simp
    then show ?thesis using assms(4,5) True by (fastforce simp: level_def)
  next
    case False
    then have "level digest c ?k g = 1"
    proof (cases "predict digest g c")
      case (Some q)
      then obtain x rule n where "predict digest g c = Some (x, rule, n)" by (metis prod_cases3)
      then show ?thesis using assms(5) False by (auto simp: level_def)
    qed (simp add: level_def)
    then show ?thesis using repeatedTail_bounds(1) [of "g_history g" ?k] max by simp
  qed
  then show ?thesis unfolding g' using new by (rule order.strict_trans2)
qed

lemma level_start: "guard_ok g \<Longrightarrow> level digest c k g \<ge> 1"
proof (cases "predict digest g c")
  case (Some q)
  assume "guard_ok g"
  then have "0 \<le> blocked_count (g_blocked g) k" for k by (simp add: guard_ok_def)
  moreover obtain x rule n where p: "predict digest g c = Some (x, rule, n)" using Some by (metis prod_cases3)
  ultimately show ?thesis using predict_bound(2) [OF p] by (simp add: level_def p add_increasing2)
qed (simp add: level_def)

lemma level_attempt:
  assumes "guard_ok g" and "observed digest c out = Some item" and "\<not> po_successful_write out"
    and "gc_block_after (g_config g) \<le> gc_history_max (g_config g) + 1"
  shows "gd_action (fst (attempt digest c out g)) = GuardHaltTurn
    \<or> level digest c (observation_key item) (snd (attempt digest c out g)) > level digest c (observation_key item) g
      \<and> level digest c (observation_key item) g < gc_halt_after (g_config g)"
proof (cases "\<exists>x rule n. predict digest g c = Some (x, rule, n) \<and> n \<ge> gc_block_after (g_config g)")
  case True
  then obtain x rule n where p: "predict digest g c = Some (x, rule, n)" "n \<ge> gc_block_after (g_config g)" by blast
  have h: "g_history (count_blocked k g) = g_history g" for k by (simp add: count_blocked_def)
  have "predict digest (count_blocked k g) c = predict digest g c" for k unfolding predict_def h by (rule refl)
  then show ?thesis
    using attempt_refused [OF assms(1) p, of out] p by (auto simp: level_def) (simp_all add: count_blocked_def blocked_count_def)
next
  case False
  have "level digest c (observation_key item) g < gc_halt_after (g_config g)"
    using False assms(1) by (fastforce simp: level_def guard_ok_def ValidateConfig_def split: option.split)
  then show ?thesis using level_executed [OF assms] False by (meson linorder_not_le)
qed

text \<open>The guard after a call has been attempted \<open>n\<close> times.\<close>

fun after_attempts :: "(string \<Rightarrow> string) \<Rightarrow> progress_call \<Rightarrow> progress_outcome \<Rightarrow> nat \<Rightarrow> guard \<Rightarrow> guard" where
  "after_attempts digest c out 0 g = g"
| "after_attempts digest c out (Suc n) g = snd (attempt digest c out (after_attempts digest c out n g))"

section \<open>Properties\<close>

text \<open>
  C22: A call that keeps ending the same way is stopped: whatever a guard of a valid configuration has
  seen before, a call repeated with the same trackable outcome halts the turn within \<open>halt_after\<close>
  attempts exactly if the history is long enough to reach \<open>block_after\<close>. A valid configuration
  with a shorter history never stops it.
\<close>

theorem repeated_call_halted:
  assumes "ValidateConfig config" and "gc_enabled config" and "g = snd (run_ops digest ops (NewGuard config))"
    and "observed digest c out \<noteq> None" and "\<not> po_successful_write out"
  shows "(\<exists>n < nat (gc_halt_after config). gd_action (fst (attempt digest c out (after_attempts digest c out n g)))
        = GuardHaltTurn)
    \<longleftrightarrow> gc_block_after config \<le> gc_history_max config + 1"
proof -
  let ?at = "\<lambda>n. after_attempts digest c out n g"
  obtain item where item: "observed digest c out = Some item" using assms(4) by blast
  have norm: "NormalizeConfig config = config"
  proof -
    have "trim_space (gc_version config) \<noteq> []" using assms(1) by (simp add: ValidateConfig_def) code_simp
    then show ?thesis using assms(1) by (simp add: NormalizeConfig_def ValidateConfig_def Let_def)
  qed
  have new: "guard_ok (NewGuard config)" using assms(1,2) norm
    by (auto simp: guard_ok_def NewGuard_def blocked_count_def ValidateConfig_def)
  then have g: "guard_ok g" using assms(3) run_ops_ok by simp
  have ok: "guard_ok (?at n)" for n by (induction n) (simp_all add: g attempt_ok)
  have "g_config (snd (run_ops digest ops u)) = g_config u" for u
    by (induction ops arbitrary: u) (simp_all add: case_prod_unfold Let_def)
  then have cg: "g_config g = config" using assms(3) norm by (simp add: NewGuard_def)
  have cfg: "g_config (?at n) = config" for n
    by (induction n) (simp_all add: cg attempt_def case_prod_unfold Let_def)
  show ?thesis
  proof
    assume short: "gc_block_after config \<le> gc_history_max config + 1"
    show "\<exists>n < nat (gc_halt_after config). gd_action (fst (attempt digest c out (?at n))) = GuardHaltTurn"
    proof (rule ccontr)
      assume never: "\<not> ?thesis"
      have up: "level digest c (observation_key item) (?at (Suc n)) > level digest c (observation_key item) (?at n)
          \<and> level digest c (observation_key item) (?at n) < gc_halt_after config"
        if "n < nat (gc_halt_after config)" for n
        using level_attempt [OF ok item assms(5), of n] never that short by (auto simp: cfg)
      have "n \<le> nat (gc_halt_after config) \<Longrightarrow> level digest c (observation_key item) (?at n) \<ge> int n + 1" for n
      proof (induction n)
        case 0
        show ?case using level_start [OF g, of digest c "observation_key item"] by simp
      next
        case (Suc n)
        then show ?case using up [of n] by simp
      qed
      from this [of "nat (gc_halt_after config - 1)"] up [of "nat (gc_halt_after config - 1)"] assms(1)
      show False by (simp add: ValidateConfig_def nat_less_eq_zless nat_le_eq_zle)
    qed
  next
    assume "\<exists>n < nat (gc_halt_after config). gd_action (fst (attempt digest c out (?at n))) = GuardHaltTurn"
    then obtain n where n: "gd_action (fst (attempt digest c out (?at n))) = GuardHaltTurn" by blast
    let ?g = "?at n"
    have len: "int (length (g_history ?g)) \<le> gc_history_max config" using ok [of n] cfg by (simp add: guard_ok_def)
    show "gc_block_after config \<le> gc_history_max config + 1"
    proof (rule ccontr)
      assume long: "\<not> ?thesis"
      have "attempt digest c out ?g = observe_call digest ?g c out"
        by (rule attempt_executed [OF ok]) (use predict_bound(1) len long cfg in \<open>fastforce\<close>)
      then show False using n observe_never_halts by (simp add: refuses_def)
    qed
  qed
qed

lemma failing_observed:
  assumes "po_error_code out \<noteq> []" and "po_error_category out \<noteq> []"
  shows "observed digest c out \<noteq> None"
  using assms by (simp add: observed_def)

definition example_progress_call :: progress_call where
  "example_progress_call = \<lparr>pc_source = ''local'', pc_tool = ''lookup'', pc_revision = ''revision-1'',
     pc_arguments_hash = ''args''\<rparr>"

definition failing_outcome :: progress_outcome where
  "failing_outcome = \<lparr>po_error_code = ''execution_failed'', po_error_category = ''execution'', po_result = [],
     po_read_only = False, po_successful_write = False\<rparr>"

definition example_digest :: "string \<Rightarrow> string" where
  "example_digest s = ''digest''"

text \<open>The default configuration stops a call that keeps failing; one that blocks after ten repeats does not.\<close>

lemma repeated_call_halted_witness:
  "(\<exists>n < nat (gc_halt_after DefaultConfig). gd_action (fst (attempt example_digest example_progress_call failing_outcome
       (after_attempts example_digest example_progress_call failing_outcome n (NewGuard DefaultConfig)))) = GuardHaltTurn)
   \<and> \<not> (\<exists>n < 11. gd_action (fst (attempt example_digest example_progress_call failing_outcome
       (after_attempts example_digest example_progress_call failing_outcome n
         (NewGuard (DefaultConfig\<lparr>gc_block_after := 10, gc_halt_after := 11\<rparr>))))) = GuardHaltTurn)"
proof -
  have out: "observed example_digest example_progress_call failing_outcome \<noteq> None" "\<not> po_successful_write failing_outcome"
    by (simp_all add: failing_observed failing_outcome_def)
  have "ValidateConfig DefaultConfig" "gc_enabled DefaultConfig"
    "ValidateConfig (DefaultConfig\<lparr>gc_block_after := 10, gc_halt_after := 11\<rparr>)"
    "gc_enabled (DefaultConfig\<lparr>gc_block_after := 10, gc_halt_after := 11\<rparr>)"
    by (simp_all add: DefaultConfig_def ValidateConfig_def)
  then show ?thesis
    using repeated_call_halted [of DefaultConfig _ example_digest "[]", OF _ _ _ out]
      repeated_call_halted [of "DefaultConfig\<lparr>gc_block_after := 10, gc_halt_after := 11\<rparr>" _ example_digest "[]", OF _ _ _ out]
    by (simp add: DefaultConfig_def)
qed

text \<open>
  C21: A restart does not change what the guard decides: the guard rebuilt from the durable terminal tool
  events of a Run makes the same decisions as the guard that was lost would have made, for every
  sequence of further calls, outcomes and resets. The events carry the decisions of the lost guard
  in the order in which it made them, calls are refused from the third occurrence at the earliest
  (\<open>block_after\<close> is at least 3; the default is 4), and if the lost guard had been reset for new user input, then
  an outcome that clears the history, such as a successful write, has followed since.
\<close>

theorem guard_survives_restart:
  assumes "proper_digest digest" and "utf8_valid (gc_version config)" and "gc_block_after (NormalizeConfig config) \<ge> 3"
    and "run_ops digest ops (NewGuard config) = (ds, g)" and "\<not> reset_pending digest False ops"
    and "list_all2 stores_decision (filter carries_guard events) (terminal_decisions ds)"
  shows "fst (run_ops digest later (progressGuardForRun config events)) = fst (run_ops digest later g)"
proof (cases "gc_enabled config")
  case False
  have "g_config (snd (run_ops digest ops u)) = g_config u" for u
    by (induction ops arbitrary: u) (simp_all add: case_prod_unfold Let_def)
  then have "g_config g = NormalizeConfig config" using assms(4) by (metis NewGuard_def guard.select_convs(1) snd_conv)
  then show ?thesis
    using False by (intro run_disabled) (simp_all add: progressGuardForRun_def NormalizeConfig_version NewGuard_def)
next
  case True
  then have new: "gc_history_max (g_config (NewGuard config)) > 1" "g_config g = g_config (NewGuard config)"
    "same_guard g (progressGuardForRun config events)"
    using rebuilt_guard [OF assms(1,2) _ assms(4-6)] NormalizeConfig_version(3) [of config]
    by (simp_all add: NewGuard_def)
  show ?thesis by (rule run_same [OF new(3)]) (use new assms(3) in \<open>simp_all add: NewGuard_def\<close>)
qed

text \<open>The stored form of decisions, as events.\<close>

definition decision_event :: "guard_decision \<Rightarrow> run_event" where
  "decision_event d = zero_event\<lparr>ev_type := EventToolFailed, ev_payload := stored_payload (guard_payload d)\<rparr>"

lemma decision_events: "list_all2 stores_decision (filter carries_guard (map decision_event ds)) ds"
  by (induction ds)
    (simp_all add: carries_guard_def stores_decision_def decision_event_def stored_payload_def guard_payload_fields)

lemma example_digest_proper: "proper_digest example_digest"
  unfolding proper_digest_def example_digest_def by (simp, code_simp)

lemma guard_survives_restart_witness:
  "\<exists>ds g. run_ops example_digest [OpObserve example_progress_call failing_outcome, OpReset,
         OpObserve example_progress_call (failing_outcome\<lparr>po_successful_write := True\<rparr>),
         OpObserve example_progress_call failing_outcome] (NewGuard DefaultConfig) = (ds, g)
    \<and> fst (run_ops example_digest [OpBefore example_progress_call]
         (progressGuardForRun DefaultConfig (map decision_event (terminal_decisions ds))))
      = fst (run_ops example_digest [OpBefore example_progress_call] g)"
proof -
  let ?ops = "[OpObserve example_progress_call failing_outcome, OpReset,
      OpObserve example_progress_call (failing_outcome\<lparr>po_successful_write := True\<rparr>),
      OpObserve example_progress_call failing_outcome]"
  obtain ds g where r: "run_ops example_digest ?ops (NewGuard DefaultConfig) = (ds, g)" by (metis prod.exhaust)
  have "utf8_valid (gc_version DefaultConfig)" by (simp add: DefaultConfig_def utf8_GuardVersion)
  moreover have "gc_block_after (NormalizeConfig DefaultConfig) \<ge> 3" by code_simp
  moreover have "\<not> reset_pending example_digest False ?ops" by (simp add: clears_def)
  ultimately show ?thesis
    using r guard_survives_restart [OF example_digest_proper _ _ r _ decision_events] by blast
qed

text \<open>
  A reset that nothing has cleared since is lost in a restart: after three failures and new user input
  the guard lets the call through, and the guard rebuilt from the same events refuses it.
\<close>

lemma reset_lost_on_restart:
  "\<exists>ds g. run_ops example_digest (replicate 3 (OpObserve example_progress_call failing_outcome) @ [OpReset])
       (NewGuard DefaultConfig) = (ds, g)
    \<and> gd_action (fst (before_call example_digest g example_progress_call)) = GuardAllow
    \<and> gd_action (fst (before_call example_digest
         (progressGuardForRun DefaultConfig (map decision_event (terminal_decisions ds))) example_progress_call))
       = GuardBlockCall"
proof -
  let ?fail = "OpObserve example_progress_call failing_outcome"
  obtain ds u where u: "run_ops example_digest (replicate 3 ?fail) (NewGuard DefaultConfig) = (ds, u)" by (metis prod.exhaust)
  have run: "run_ops digest (xs @ [OpReset]) v = (fst (run_ops digest xs v), reset_guard (snd (run_ops digest xs v)))"
    for digest xs v
    by (induction xs arbitrary: v) (simp_all add: case_prod_unfold Let_def)
  have default: "utf8_valid (gc_version DefaultConfig)" "gc_enabled DefaultConfig" "gc_block_after (NormalizeConfig DefaultConfig) \<ge> 3"
    by (simp add: DefaultConfig_def utf8_GuardVersion, simp add: DefaultConfig_def, code_simp)
  have "\<not> reset_pending example_digest False (replicate 3 ?fail)" by (rule no_reset_pending) simp
  note same = rebuilt_guard [OF example_digest_proper default(1,2) u this decision_events]
  have "gd_action (fst (before_call example_digest (snd (run_ops example_digest (replicate 3 ?fail) (NewGuard DefaultConfig)))
      example_progress_call)) = GuardBlockCall"
    by code_simp
  then have "gd_action (fst (before_call example_digest
      (progressGuardForRun DefaultConfig (map decision_event (terminal_decisions ds))) example_progress_call)) = GuardBlockCall"
    using before_same(1) [OF same(1)] same(2) default(3) u by (simp add: NewGuard_def)
  moreover have "gd_action (fst (before_call example_digest (reset_guard u) example_progress_call)) = GuardAllow"
    by (simp add: before_call_def predict_def reset_guard_def)
  ultimately show ?thesis using u by (simp add: run)
qed

end
