(* ===== verification/Run_Admission.thy ===== *)
theory Run_Admission
  imports Prelude
begin

text \<open>
  Admission of Runs (\<open>concurrency/run_controller.go\<close>): a bounded number of reservations, a bounded
  number of active Runs and one writer per conversation. Buffered channels are their fill counts,
  the wait group is its counter, a writer entry is a cell of a heap that goroutines hold addresses
  of. Every lock section and every channel operation is one step; between steps any other
  reservation may move, so the step relation contains all interleavings.
\<close>

section \<open>Errors\<close>

datatype context_error = DeadlineExceeded | Canceled

datatype admission_error =
    QueueFull
  | QueueTimeout
  | ShuttingDown
  | ConversationRequired
  | ContextFailed context_error

text \<open>\<open>parent\<close> is the error of the caller's context, \<open>err\<close> that of the bounded wait.\<close>

definition queueWaitError :: "context_error option \<Rightarrow> context_error \<Rightarrow> admission_error" where
  "queueWaitError parent err =
     (case parent of
        Some e \<Rightarrow> ContextFailed e
      | None \<Rightarrow> if err = DeadlineExceeded then QueueTimeout else ContextFailed err)"

section \<open>State\<close>

record run_options =
  ro_max_concurrent :: int
  ro_queue_size :: int
  ro_wait_timeout :: int

definition DefaultMaxConcurrentRuns :: int where "DefaultMaxConcurrentRuns = 8"
definition DefaultRunQueueSize :: int where "DefaultRunQueueSize = 32"
definition DefaultRunQueueWait :: int where "DefaultRunQueueWait = 30000000000"

record writer_entry =
  we_token :: nat
  we_refs :: int

text \<open>Where the goroutine that owns a reservation stands.\<close>

datatype phase =
    Reserved
  | WaitToken nat
  | WaitActive nat
  | Running nat
  | ReleaseToken nat
  | ReleaseRef nat
  | Cancelling
  | Finished

datatype once = NotDone | Drained | Done

record reservation =
  rv_conversation :: string
  rv_phase :: phase
  rv_cancel :: once
  rv_error :: "admission_error option"

record controller =
  rc_active_max :: nat
  rc_capacity_max :: nat
  rc_wait_timeout :: int
  rc_active :: nat
  rc_capacity :: nat
  rc_closing :: bool
  rc_pending :: int
  rc_entries :: "string \<rightharpoonup> nat"
  rc_heap :: "nat \<Rightarrow> writer_entry"
  rc_fresh :: nat
  rc_reservations :: "reservation list"

text \<open>A channel with a negative size panics; sizes are 64-bit.\<close>

definition NewRunController :: "run_options \<Rightarrow> controller option" where
  "NewRunController opts =
     (let maximum = (if ro_max_concurrent opts \<le> 0 then 1 else ro_max_concurrent opts);
          queue = (if ro_queue_size opts < 0 then 0 else ro_queue_size opts);
          timeout = (if ro_wait_timeout opts \<le> 0 then 30000000000 else ro_wait_timeout opts);
          capacity = wrap64 (maximum + queue)
      in if capacity < 0 then None
         else Some \<lparr>rc_active_max = nat maximum, rc_capacity_max = nat capacity, rc_wait_timeout = timeout,
           rc_active = 0, rc_capacity = 0, rc_closing = False, rc_pending = 0, rc_entries = Map.empty,
           rc_heap = (\<lambda>_. \<lparr>we_token = 0, we_refs = 0\<rparr>), rc_fresh = 0, rc_reservations = []\<rparr>)"

section \<open>Lock sections and channel operations\<close>

definition set_reservation :: "nat \<Rightarrow> reservation \<Rightarrow> controller \<Rightarrow> controller" where
  "set_reservation i r c = c\<lparr>rc_reservations := (rc_reservations c)[i := r]\<rparr>"

definition set_entry :: "nat \<Rightarrow> writer_entry \<Rightarrow> controller \<Rightarrow> controller" where
  "set_entry a e c = c\<lparr>rc_heap := (rc_heap c)(a := e)\<rparr>"

definition Reserve :: "controller \<Rightarrow> admission_error + controller" where
  "Reserve c =
     (if rc_closing c then Inl ShuttingDown
      else if rc_capacity c < rc_capacity_max c then
        Inr (c\<lparr>rc_capacity := rc_capacity c + 1, rc_pending := rc_pending c + 1,
          rc_reservations := rc_reservations c
            @ [\<lparr>rv_conversation = [], rv_phase = Reserved, rv_cancel = NotDone, rv_error = None\<rparr>]\<rparr>)
      else Inl QueueFull)"

text \<open>The first half of \<open>acquire\<close>: find or create the entry of the conversation and count a reference.\<close>

definition acquire_ref :: "string \<Rightarrow> controller \<Rightarrow> nat \<times> controller" where
  "acquire_ref conversation c =
     (case rc_entries c conversation of
        Some a \<Rightarrow> (a, set_entry a ((rc_heap c a)\<lparr>we_refs := we_refs (rc_heap c a) + 1\<rparr>) c)
      | None \<Rightarrow>
          (let a = rc_fresh c
           in (a, set_entry a \<lparr>we_token = 0, we_refs = 1\<rparr>
                (c\<lparr>rc_entries := (rc_entries c)(conversation \<mapsto> a), rc_fresh := a + 1\<rparr>))))"

text \<open>\<open>None\<close> is the panic.\<close>

definition releaseRef :: "string \<Rightarrow> nat \<Rightarrow> controller \<Rightarrow> controller option" where
  "releaseRef conversation a c =
     (let refs = we_refs (rc_heap c a) - 1;
          c = set_entry a ((rc_heap c a)\<lparr>we_refs := refs\<rparr>) c;
          c = (if refs = 0 then c\<lparr>rc_entries := (rc_entries c)(conversation := None)\<rparr> else c)
      in if refs < 0 then None else Some c)"

text \<open>The steps of the goroutine that owns reservation \<open>i\<close>. A receive blocks on an empty channel.\<close>

definition start_blank :: "nat \<Rightarrow> controller \<Rightarrow> controller" where
  "start_blank i c =
     set_reservation i ((rc_reservations c ! i)\<lparr>rv_phase := Cancelling, rv_error := Some ConversationRequired\<rparr>) c"

definition start_waiting :: "nat \<Rightarrow> string \<Rightarrow> controller \<Rightarrow> controller" where
  "start_waiting i conversation c =
     (let (a, c') = acquire_ref conversation c
      in set_reservation i ((rc_reservations c ! i)\<lparr>rv_conversation := conversation, rv_phase := WaitToken a\<rparr>) c')"

definition add_token :: "int \<Rightarrow> writer_entry \<Rightarrow> writer_entry" where
  "add_token d e = e\<lparr>we_token := nat (int (we_token e) + d)\<rparr>"

definition move_to :: "nat \<Rightarrow> phase \<Rightarrow> controller \<Rightarrow> controller" where
  "move_to i p c = set_reservation i ((rc_reservations c ! i)\<lparr>rv_phase := p\<rparr>) c"

definition give_up :: "nat \<Rightarrow> phase \<Rightarrow> admission_error \<Rightarrow> controller \<Rightarrow> controller" where
  "give_up i p e c = set_reservation i ((rc_reservations c ! i)\<lparr>rv_phase := p, rv_error := Some e\<rparr>) c"

definition set_cancel :: "nat \<Rightarrow> once \<Rightarrow> controller \<Rightarrow> controller" where
  "set_cancel i p c = set_reservation i ((rc_reservations c ! i)\<lparr>rv_cancel := p\<rparr>) c"

definition phase_of :: "controller \<Rightarrow> nat \<Rightarrow> phase option" where
  "phase_of c i = (if i < length (rc_reservations c) then Some (rv_phase (rc_reservations c ! i)) else None)"

definition cancel_of :: "controller \<Rightarrow> nat \<Rightarrow> once" where
  "cancel_of c i = rv_cancel (rc_reservations c ! i)"

section \<open>Steps\<close>

text \<open>
  Callers cancel a reservation they never started, or after they have released it (the deferred
  calls of \<open>app/runcommands\<close> run in that order), where \<open>Cancel\<close> has already been done.
\<close>

inductive admission_step :: "controller \<Rightarrow> controller \<Rightarrow> bool" where
  step_reserve: "Reserve c = Inr c' \<Longrightarrow> admission_step c c'"
| step_abandon: "phase_of c i = Some Reserved \<Longrightarrow> admission_step c (move_to i Cancelling c)"
| step_start_blank: "phase_of c i = Some Reserved \<Longrightarrow> admission_step c (start_blank i c)"
| step_start: "phase_of c i = Some Reserved \<Longrightarrow> conversation \<noteq> [] \<Longrightarrow>
    admission_step c (start_waiting i conversation c)"
| step_token: "phase_of c i = Some (WaitToken a) \<Longrightarrow> we_token (rc_heap c a) < 1 \<Longrightarrow>
    admission_step c (move_to i (WaitActive a) (set_entry a (add_token 1 (rc_heap c a)) c))"
| step_token_timeout: "phase_of c i = Some (WaitToken a) \<Longrightarrow>
    admission_step c (give_up i (ReleaseRef a) (queueWaitError parent err) c)"
| step_active: "phase_of c i = Some (WaitActive a) \<Longrightarrow> rc_active c < rc_active_max c \<Longrightarrow>
    admission_step c (move_to i (Running a) (c\<lparr>rc_active := rc_active c + 1\<rparr>))"
| step_active_timeout: "phase_of c i = Some (WaitActive a) \<Longrightarrow>
    admission_step c (give_up i (ReleaseToken a) (queueWaitError parent err) c)"
| step_release: "phase_of c i = Some (Running a) \<Longrightarrow> rc_active c > 0 \<Longrightarrow>
    admission_step c (move_to i (ReleaseToken a) (c\<lparr>rc_active := rc_active c - 1\<rparr>))"
| step_release_token: "phase_of c i = Some (ReleaseToken a) \<Longrightarrow> we_token (rc_heap c a) > 0 \<Longrightarrow>
    admission_step c (move_to i (ReleaseRef a) (set_entry a (add_token (-1) (rc_heap c a)) c))"
| step_release_ref: "phase_of c i = Some (ReleaseRef a) \<Longrightarrow>
    releaseRef (rv_conversation (rc_reservations c ! i)) a c = Some c' \<Longrightarrow> admission_step c (move_to i Cancelling c')"
| step_drain: "phase_of c i = Some Cancelling \<Longrightarrow> cancel_of c i = NotDone \<Longrightarrow> rc_capacity c > 0 \<Longrightarrow>
    admission_step c (set_cancel i Drained (c\<lparr>rc_capacity := rc_capacity c - 1\<rparr>))"
| step_done: "phase_of c i = Some Cancelling \<Longrightarrow> cancel_of c i = Drained \<Longrightarrow>
    admission_step c (set_cancel i Done (c\<lparr>rc_pending := rc_pending c - 1\<rparr>))"
| step_finish: "phase_of c i = Some Cancelling \<Longrightarrow> cancel_of c i = Done \<Longrightarrow> admission_step c (move_to i Finished c)"
| step_close: "admission_step c (c\<lparr>rc_closing := True\<rparr>)"

text \<open>\<open>CloseAndWait\<close> returns nil once admission is closed and the wait group is at zero.\<close>

definition closed_and_drained :: "controller \<Rightarrow> bool" where
  "closed_and_drained c \<longleftrightarrow> rc_closing c \<and> rc_pending c = 0"

inductive reachable :: "run_options \<Rightarrow> controller \<Rightarrow> bool" for opts where
  reachable_new: "NewRunController opts = Some c \<Longrightarrow> reachable opts c"
| reachable_step: "reachable opts c \<Longrightarrow> admission_step c c' \<Longrightarrow> reachable opts c'"

end
