(* ===== verification/Admission_Guarantees.thy ===== *)
theory Admission_Guarantees
  imports Run_Admission
begin

text \<open>
  What admission guarantees in every interleaving: one writer per conversation, the two limits, no
  goroutine that is stuck while releasing, and nothing left behind once the controller has drained.
\<close>

section \<open>Counting reservations\<close>

definition number :: "(reservation \<Rightarrow> bool) \<Rightarrow> controller \<Rightarrow> int" where
  "number P c = int (length (filter P (rc_reservations c)))"

lemma filter_update:
  "i < length xs \<Longrightarrow> int (length (filter P (xs[i := y]))) =
     int (length (filter P xs)) - (if P (xs ! i) then 1 else 0) + (if P y then 1 else 0)"
proof (induction xs arbitrary: i)
  case (Cons x xs)
  show ?case
  proof (cases i)
    case (Suc n)
    then have "int (length (filter P (xs[n := y]))) =
        int (length (filter P xs)) - (if P (xs ! n) then 1 else 0) + (if P y then 1 else 0)"
      using Cons by simp
    then show ?thesis using Suc by (auto split: if_split_asm)
  qed simp
qed simp

lemma number_set:
  "i < length (rc_reservations c) \<Longrightarrow> number P (set_reservation i r c) =
     number P c - (if P (rc_reservations c ! i) then 1 else 0) + (if P r then 1 else 0)"
  by (simp add: number_def set_reservation_def filter_update)

lemma number_nonneg [simp]: "0 \<le> number P c"
  by (simp add: number_def)

lemma number_member: "i < length (rc_reservations c) \<Longrightarrow> P (rc_reservations c ! i) \<Longrightarrow> 1 \<le> number P c"
  using nth_mem [of i "rc_reservations c"] by (fastforce simp: number_def filter_empty_conv Suc_le_eq)

lemma number_two:
  assumes "i < length (rc_reservations c)" and "j < length (rc_reservations c)" and "i \<noteq> j"
    and "P (rc_reservations c ! i)" and "P (rc_reservations c ! j)"
  shows "2 \<le> number P c"
proof -
  let ?rs = "rc_reservations c"
  have "{i, j} \<subseteq> {k. k < length ?rs \<and> P (?rs ! k)}" using assms by auto
  then have "card {i, j} \<le> card {k. k < length ?rs \<and> P (?rs ! k)}" by (intro card_mono) auto
  then show ?thesis using assms(3) by (simp add: number_def length_filter_conv_card)
qed

lemma number_zero: "number P c = 0 \<longleftrightarrow> (\<forall>r \<in> set (rc_reservations c). \<not> P r)"
  by (auto simp: number_def filter_empty_conv)

section \<open>The invariant\<close>

fun ref_of :: "phase \<Rightarrow> nat option" where
  "ref_of (WaitToken a) = Some a"
| "ref_of (WaitActive a) = Some a"
| "ref_of (Running a) = Some a"
| "ref_of (ReleaseToken a) = Some a"
| "ref_of (ReleaseRef a) = Some a"
| "ref_of p = None"

fun token_of :: "phase \<Rightarrow> nat option" where
  "token_of (WaitActive a) = Some a"
| "token_of (Running a) = Some a"
| "token_of (ReleaseToken a) = Some a"
| "token_of p = None"

fun is_running :: "phase \<Rightarrow> bool" where
  "is_running (Running a) = True"
| "is_running p = False"

text \<open>Channels and counters count what the reservations hold.\<close>

definition counts_ok :: "controller \<Rightarrow> bool" where
  "counts_ok c \<longleftrightarrow> int (rc_active c) = number (\<lambda>r. is_running (rv_phase r)) c \<and> rc_active c \<le> rc_active_max c
     \<and> int (rc_capacity c) = number (\<lambda>r. rv_cancel r = NotDone) c \<and> rc_capacity c \<le> rc_capacity_max c
     \<and> rc_pending c = number (\<lambda>r. rv_cancel r \<noteq> Done) c"

definition cells_ok :: "controller \<Rightarrow> bool" where
  "cells_ok c \<longleftrightarrow> (\<forall>a. we_refs (rc_heap c a) = number (\<lambda>r. ref_of (rv_phase r) = Some a) c
     \<and> int (we_token (rc_heap c a)) = number (\<lambda>r. token_of (rv_phase r) = Some a) c \<and> we_token (rc_heap c a) \<le> 1)"

text \<open>Whoever holds an address holds that of the one entry its conversation has.\<close>

definition entries_ok :: "controller \<Rightarrow> bool" where
  "entries_ok c \<longleftrightarrow> (\<forall>r \<in> set (rc_reservations c). \<forall>a. ref_of (rv_phase r) = Some a \<longrightarrow> rc_entries c (rv_conversation r) = Some a)
     \<and> (\<forall>k a. rc_entries c k = Some a \<longrightarrow> a < rc_fresh c \<and> we_refs (rc_heap c a) > 0)
     \<and> (\<forall>k l a. rc_entries c k = Some a \<and> rc_entries c l = Some a \<longrightarrow> k = l)"

definition phases_ok :: "controller \<Rightarrow> bool" where
  "phases_ok c \<longleftrightarrow> (\<forall>r \<in> set (rc_reservations c).
     (rv_cancel r \<noteq> NotDone \<longrightarrow> rv_phase r \<in> {Cancelling, Finished}) \<and> (rv_phase r = Finished \<longrightarrow> rv_cancel r = Done))"

lemma set_reservation_fields [simp]:
  "rc_active (set_reservation i r c) = rc_active c" "rc_active_max (set_reservation i r c) = rc_active_max c"
  "rc_capacity (set_reservation i r c) = rc_capacity c" "rc_capacity_max (set_reservation i r c) = rc_capacity_max c"
  "rc_pending (set_reservation i r c) = rc_pending c" "rc_entries (set_reservation i r c) = rc_entries c"
  "rc_heap (set_reservation i r c) = rc_heap c" "rc_fresh (set_reservation i r c) = rc_fresh c"
  "rc_closing (set_reservation i r c) = rc_closing c"
  "rc_reservations (set_reservation i r c) = (rc_reservations c)[i := r]"
  by (simp_all add: set_reservation_def)

lemma set_entry_fields [simp]:
  "rc_active (set_entry a e c) = rc_active c" "rc_active_max (set_entry a e c) = rc_active_max c"
  "rc_capacity (set_entry a e c) = rc_capacity c" "rc_capacity_max (set_entry a e c) = rc_capacity_max c"
  "rc_pending (set_entry a e c) = rc_pending c" "rc_entries (set_entry a e c) = rc_entries c"
  "rc_fresh (set_entry a e c) = rc_fresh c" "rc_reservations (set_entry a e c) = rc_reservations c"
  "rc_heap (set_entry a e c) = (rc_heap c)(a := e)" "rc_closing (set_entry a e c) = rc_closing c"
  by (simp_all add: set_entry_def)

lemma number_cong: "rc_reservations c = rc_reservations d \<Longrightarrow> number P c = number P d"
  by (simp add: number_def)

lemma number_updates [simp]:
  "number P (set_entry a e c) = number P c" "number P (c\<lparr>rc_active := n\<rparr>) = number P c"
  "number P (c\<lparr>rc_capacity := n\<rparr>) = number P c" "number P (c\<lparr>rc_pending := p\<rparr>) = number P c"
  "number P (c\<lparr>rc_entries := m\<rparr>) = number P c" "number P (c\<lparr>rc_entries := m, rc_fresh := n\<rparr>) = number P c"
  "number P (c\<lparr>rc_closing := b\<rparr>) = number P c"
  by (simp_all add: number_def)

lemma phase_of_Some: "phase_of c i = Some p \<longleftrightarrow> i < length (rc_reservations c) \<and> rv_phase (rc_reservations c ! i) = p"
  by (auto simp: phase_of_def)

lemma all_set_update:
  "\<forall>x \<in> set xs. P x \<Longrightarrow> P y \<Longrightarrow> \<forall>x \<in> set (xs[i := y]). P x"
  using set_update_subset_insert [of xs i y] by blast

lemmas step_simps = move_to_def give_up_def set_cancel_def start_blank_def number_set add_token_def

lemma counts_step:
  assumes "admission_step c c'" and "counts_ok c" and "phases_ok c"
  shows "counts_ok c'"
  using assms
proof (induction rule: admission_step.induct)
  case (step_reserve c c')
  then show ?case
    by (auto simp: Reserve_def counts_ok_def number_def split: if_split_asm)
next
  case (step_start c i conversation)
  obtain a d where d: "acquire_ref conversation c = (a, d)" by (metis prod.exhaust)
  have "rc_active d = rc_active c" "rc_active_max d = rc_active_max c" "rc_capacity d = rc_capacity c"
    "rc_capacity_max d = rc_capacity_max c" "rc_pending d = rc_pending c" "rc_reservations d = rc_reservations c"
    using d by (auto simp: acquire_ref_def Let_def split: option.split_asm)
  then show ?case
    using step_start number_cong [of d c] by (simp add: counts_ok_def start_waiting_def d number_set phase_of_Some)
next
  case (step_release_ref c i a c')
  then have "rc_active c' = rc_active c" "rc_active_max c' = rc_active_max c" "rc_capacity c' = rc_capacity c"
    "rc_capacity_max c' = rc_capacity_max c" "rc_pending c' = rc_pending c" "rc_reservations c' = rc_reservations c"
    by (auto simp: releaseRef_def Let_def split: if_split_asm)
  then show ?case
    using step_release_ref number_cong [of c' c] by (simp add: counts_ok_def step_simps phase_of_Some)
qed (auto simp: counts_ok_def step_simps phase_of_Some cancel_of_def)

lemma phases_step:
  assumes "admission_step c c'" and "phases_ok c"
  shows "phases_ok c'"
  using assms
proof (induction rule: admission_step.induct)
  case (step_reserve c c')
  then show ?case by (auto simp: Reserve_def phases_ok_def split: if_split_asm)
next
  case (step_start c i conversation)
  obtain a d where d: "acquire_ref conversation c = (a, d)" by (metis prod.exhaust)
  have "rc_reservations d = rc_reservations c"
    using d by (auto simp: acquire_ref_def Let_def split: option.split_asm)
  then show ?case
    using step_start unfolding phases_ok_def
    by (simp add: start_waiting_def d phase_of_Some) (intro all_set_update; force)
next
  case (step_release_ref c i a c')
  then have "rc_reservations c' = rc_reservations c" by (auto simp: releaseRef_def Let_def split: if_split_asm)
  then show ?case
    using step_release_ref unfolding phases_ok_def
    by (simp add: step_simps phase_of_Some) (intro all_set_update; force)
qed (unfold phases_ok_def, simp_all add: step_simps phase_of_Some cancel_of_def, (intro all_set_update; force)+)

lemma token_ref: "token_of p = Some a \<Longrightarrow> ref_of p = Some a"
  by (cases p) auto

lemma running_token: "is_running p \<Longrightarrow> \<exists>a. token_of p = Some a"
  by (cases p) auto

lemma fresh_unused:
  assumes "entries_ok c" and "rc_fresh c \<le> a"
  shows "number (\<lambda>r. ref_of (rv_phase r) = Some a) c = 0" "number (\<lambda>r. token_of (rv_phase r) = Some a) c = 0"
proof -
  have "ref_of (rv_phase r) \<noteq> Some a" if "r \<in> set (rc_reservations c)" for r
    using assms that unfolding entries_ok_def by (meson linorder_not_less)
  then show "number (\<lambda>r. ref_of (rv_phase r) = Some a) c = 0" "number (\<lambda>r. token_of (rv_phase r) = Some a) c = 0"
    using token_ref by (auto simp: number_zero)
qed

text \<open>A step that moves one reservation and changes the cells by what it gives up and takes.\<close>

lemma cells_moved:
  assumes "cells_ok c" and "i < length (rc_reservations c)" and "rc_reservations d = (rc_reservations c)[i := r]"
    and "\<And>a. we_refs (rc_heap d a) = we_refs (rc_heap c a) - (if ref_of (rv_phase (rc_reservations c ! i)) = Some a then 1 else 0)
      + (if ref_of (rv_phase r) = Some a then 1 else 0)"
    and "\<And>a. int (we_token (rc_heap d a)) = int (we_token (rc_heap c a))
      - (if token_of (rv_phase (rc_reservations c ! i)) = Some a then 1 else 0) + (if token_of (rv_phase r) = Some a then 1 else 0)"
    and "\<And>a. we_token (rc_heap d a) \<le> 1"
  shows "cells_ok d"
proof -
  have "number P d = number P (set_reservation i r c)" for P using assms(3) by (simp add: number_def)
  then show ?thesis
    using assms(1,6) unfolding cells_ok_def
    by (intro allI conjI) (simp_all add: assms(4,5) number_set [OF assms(2)] del: One_nat_def)
qed

lemma entries_moved:
  assumes "entries_ok c" and "rc_reservations d = (rc_reservations c)[i := r]" and "i < length (rc_reservations c)"
    and "rc_entries d = rc_entries c" and "rc_fresh d = rc_fresh c"
    and "\<And>a. we_refs (rc_heap d a) = we_refs (rc_heap c a)"
    and "ref_of (rv_phase r) = ref_of (rv_phase (rc_reservations c ! i))" and "rv_conversation r = rv_conversation (rc_reservations c ! i)"
  shows "entries_ok d"
proof -
  have "\<forall>x \<in> set (rc_reservations d). \<forall>a. ref_of (rv_phase x) = Some a \<longrightarrow> rc_entries c (rv_conversation x) = Some a"
    unfolding assms(2)
    by (rule all_set_update) (use assms(1,3,7,8) nth_mem [OF assms(3)] in \<open>auto simp: entries_ok_def\<close>)
  then show ?thesis using assms(1) unfolding entries_ok_def assms(4,5,6) by blast
qed

lemma heap_moved:
  assumes "cells_ok c" and "entries_ok c" and "i < length (rc_reservations c)"
    and "rc_reservations d = (rc_reservations c)[i := r]" and "rc_entries d = rc_entries c" and "rc_fresh d = rc_fresh c"
    and "\<And>a. we_refs (rc_heap d a) = we_refs (rc_heap c a)"
    and "ref_of (rv_phase r) = ref_of (rv_phase (rc_reservations c ! i))" and "rv_conversation r = rv_conversation (rc_reservations c ! i)"
    and "\<And>a. int (we_token (rc_heap d a)) = int (we_token (rc_heap c a))
      - (if token_of (rv_phase (rc_reservations c ! i)) = Some a then 1 else 0) + (if token_of (rv_phase r) = Some a then 1 else 0)"
    and "\<And>a. we_token (rc_heap d a) \<le> 1"
  shows "cells_ok d \<and> entries_ok d"
  using cells_moved [OF assms(1,3,4) _ assms(10,11)] entries_moved [OF assms(2,4,3,5-9)] assms(7,8) by simp

text \<open>The goroutine that holds a token or is after a free one keeps the token counts right.\<close>

lemma cells_holder:
  assumes "cells_ok c" and "i < length (rc_reservations c)"
  shows "ref_of (rv_phase (rc_reservations c ! i)) = Some a \<Longrightarrow> we_refs (rc_heap c a) \<ge> 1"
    "token_of (rv_phase (rc_reservations c ! i)) = Some a \<Longrightarrow> we_token (rc_heap c a) = 1"
proof -
  show "ref_of (rv_phase (rc_reservations c ! i)) = Some a \<Longrightarrow> we_refs (rc_heap c a) \<ge> 1"
    using number_member [OF assms(2), of "\<lambda>r. ref_of (rv_phase r) = Some a"] assms(1) by (simp add: cells_ok_def)
  assume "token_of (rv_phase (rc_reservations c ! i)) = Some a"
  then have "1 \<le> number (\<lambda>r. token_of (rv_phase r) = Some a) c"
    using number_member [OF assms(2), of "\<lambda>r. token_of (rv_phase r) = Some a"] by simp
  moreover have "int (we_token (rc_heap c a)) = number (\<lambda>r. token_of (rv_phase r) = Some a) c" "we_token (rc_heap c a) \<le> 1"
    using assms(1) unfolding cells_ok_def by blast+
  ultimately show "we_token (rc_heap c a) = 1" by linarith
qed

lemma start_heap:
  assumes "cells_ok c" and "entries_ok c" and "phase_of c i = Some Reserved" and "conversation \<noteq> []"
  shows "cells_ok (start_waiting i conversation c)" "entries_ok (start_waiting i conversation c)"
proof -
  let ?r = "\<lambda>a. (rc_reservations c ! i)\<lparr>rv_conversation := conversation, rv_phase := WaitToken a\<rparr>"
  have i: "i < length (rc_reservations c)" "rv_phase (rc_reservations c ! i) = Reserved" using assms(3) by (simp_all add: phase_of_Some)
  have f: "we_refs (rc_heap c (rc_fresh c)) = 0" "we_token (rc_heap c (rc_fresh c)) = 0"
    using assms(1) fresh_unused [OF assms(2), of "rc_fresh c"] by (simp_all add: cells_ok_def) (metis of_nat_eq_0_iff)
  have cells: "we_token (rc_heap c a) \<le> 1" "0 \<le> we_refs (rc_heap c a)" for a using assms(1) by (simp_all add: cells_ok_def)
  have all: "\<forall>x \<in> set ((rc_reservations c)[i := ?r a]). \<forall>b. ref_of (rv_phase x) = Some b \<longrightarrow> m (rv_conversation x) = Some b"
    if "m conversation = Some a" "\<And>k b. rc_entries c k = Some b \<Longrightarrow> m k = Some b" for m a
    by (rule all_set_update) (use assms(2) that in \<open>auto simp: entries_ok_def\<close>)
  have both: "cells_ok (start_waiting i conversation c) \<and> entries_ok (start_waiting i conversation c)"
  proof (cases "rc_entries c conversation")
    case (Some a)
    have "cells_ok (start_waiting i conversation c)"
      by (rule cells_moved [OF assms(1) i(1), where r = "?r a"])
        (use i(2) cells in \<open>auto simp: start_waiting_def acquire_ref_def Some\<close>)
    moreover have "entries_ok (start_waiting i conversation c)"
      using assms(2) all [of "rc_entries c" a] Some cells(2)
      by (simp add: entries_ok_def start_waiting_def acquire_ref_def)
    ultimately show ?thesis by simp
  next
    case None
    let ?m = "(rc_entries c)(conversation \<mapsto> rc_fresh c)"
    have "cells_ok (start_waiting i conversation c)"
      by (rule cells_moved [OF assms(1) i(1), where r = "?r (rc_fresh c)"])
        (use i(2) cells f in \<open>auto simp: start_waiting_def acquire_ref_def None Let_def\<close>)
    moreover have old: "b < rc_fresh c" "we_refs (rc_heap c b) > 0" if "rc_entries c k = Some b" for k b
      using assms(2) that unfolding entries_ok_def by blast+
    have "entries_ok (start_waiting i conversation c)"
      unfolding entries_ok_def
    proof (intro conjI)
      show "\<forall>r \<in> set (rc_reservations (start_waiting i conversation c)). \<forall>a. ref_of (rv_phase r) = Some a \<longrightarrow>
          rc_entries (start_waiting i conversation c) (rv_conversation r) = Some a"
      proof -
        have "rc_entries (start_waiting i conversation c) = ?m"
          "rc_reservations (start_waiting i conversation c) = (rc_reservations c)[i := ?r (rc_fresh c)]"
          by (simp_all add: start_waiting_def acquire_ref_def None Let_def)
        moreover have "\<forall>x \<in> set ((rc_reservations c)[i := ?r (rc_fresh c)]). \<forall>b. ref_of (rv_phase x) = Some b \<longrightarrow>
            ?m (rv_conversation x) = Some b"
          by (rule all) (use None in auto)
        ultimately show ?thesis by simp
      qed
      show "\<forall>k a. rc_entries (start_waiting i conversation c) k = Some a \<longrightarrow> a < rc_fresh (start_waiting i conversation c)
          \<and> we_refs (rc_heap (start_waiting i conversation c) a) > 0"
        using old None by (auto simp: start_waiting_def acquire_ref_def Let_def intro: less_SucI)
      show "\<forall>k l a. rc_entries (start_waiting i conversation c) k = Some a \<and> rc_entries (start_waiting i conversation c) l = Some a
          \<longrightarrow> k = l"
        using old(1) None assms(2) unfolding entries_ok_def
        by (simp add: start_waiting_def acquire_ref_def Let_def) (metis less_irrefl)
    qed
    ultimately show ?thesis by simp
  qed
  then show "cells_ok (start_waiting i conversation c)" "entries_ok (start_waiting i conversation c)" by simp_all
qed

lemma release_heap:
  assumes "cells_ok c" and "entries_ok c" and "phase_of c i = Some (ReleaseRef a)"
  obtains c' where "releaseRef (rv_conversation (rc_reservations c ! i)) a c = Some c'"
    "cells_ok (move_to i Cancelling c')" "entries_ok (move_to i Cancelling c')"
proof -
  let ?k = "rv_conversation (rc_reservations c ! i)" and ?refs = "we_refs (rc_heap c a) - 1"
  let ?r = "(rc_reservations c ! i)\<lparr>rv_phase := Cancelling\<rparr>"
  let ?m = "if ?refs = 0 then (rc_entries c)(?k := None) else rc_entries c"
  let ?c = "set_entry a ((rc_heap c a)\<lparr>we_refs := ?refs\<rparr>) c"
  have i: "i < length (rc_reservations c)" "rv_phase (rc_reservations c ! i) = ReleaseRef a"
    using assms(3) by (simp_all add: phase_of_Some)
  then have k: "rc_entries c ?k = Some a" using assms(2) nth_mem [OF i(1)] by (fastforce simp: entries_ok_def)
  have pos: "we_refs (rc_heap c a) \<ge> 1" using cells_holder(1) [OF assms(1) i(1), of a] i(2) by simp
  obtain c' where c': "releaseRef ?k a c = Some c'" "c' = ?c\<lparr>rc_entries := ?m\<rparr>"
    using pos by (auto simp: releaseRef_def Let_def)
  let ?d = "move_to i Cancelling c'"
  have d: "rc_reservations ?d = (rc_reservations c)[i := ?r]" "rc_entries ?d = ?m" "rc_fresh ?d = rc_fresh c"
    "rc_heap ?d = (rc_heap c)(a := (rc_heap c a)\<lparr>we_refs := ?refs\<rparr>)"
    by (simp_all add: move_to_def c'(2))
  have cells: "cells_ok ?d"
    by (rule cells_moved [OF assms(1) i(1) d(1)]) (use i(2) assms(1) d(4) in \<open>auto simp: cells_ok_def\<close>)
  have refs: "we_refs (rc_heap ?d b) = number (\<lambda>r. ref_of (rv_phase r) = Some b) ?d" for b
    using cells by (simp add: cells_ok_def)
  have "entries_ok ?d"
    unfolding entries_ok_def
  proof (intro conjI)
    have keep: "\<forall>x \<in> set ((rc_reservations c)[i := ?r]). \<forall>b. ref_of (rv_phase x) = Some b \<longrightarrow> rc_entries c (rv_conversation x) = Some b"
      by (rule all_set_update) (use assms(2) in \<open>auto simp: entries_ok_def\<close>)
    show "\<forall>x \<in> set (rc_reservations ?d). \<forall>b. ref_of (rv_phase x) = Some b \<longrightarrow> rc_entries ?d (rv_conversation x) = Some b"
    proof (intro ballI allI impI)
      fix x b
      assume x: "x \<in> set (rc_reservations ?d)" "ref_of (rv_phase x) = Some b"
      then have e: "rc_entries c (rv_conversation x) = Some b" using keep d(1) by simp
      show "rc_entries ?d (rv_conversation x) = Some b"
      proof (cases "?refs = 0 \<and> rv_conversation x = ?k")
        case True
        then have "b = a" using e k by simp
        moreover have "we_refs (rc_heap ?d a) = 0" using True d(4) by simp
        ultimately have False using refs [of a] x by (auto simp: number_zero [of _ ?d])
        then show ?thesis ..
      next
        case False
        then show ?thesis using e d(2) by auto
      qed
    qed
    show "\<forall>k b. rc_entries ?d k = Some b \<longrightarrow> b < rc_fresh ?d \<and> we_refs (rc_heap ?d b) > 0"
    proof (intro allI impI)
      fix l b
      assume "rc_entries ?d l = Some b"
      then have e: "rc_entries c l = Some b" "?refs = 0 \<Longrightarrow> l \<noteq> ?k" using d(2) by (auto split: if_split_asm)
      then have "b < rc_fresh c" "we_refs (rc_heap c b) > 0" "b = a \<Longrightarrow> l = ?k"
        using assms(2) k unfolding entries_ok_def by blast+
      moreover have "?refs > 0" if "b = a"
        using that e(2) pos \<open>b = a \<Longrightarrow> l = ?k\<close> by (metis diff_gt_0_iff_gt diff_self order_le_less)
      ultimately show "b < rc_fresh ?d \<and> we_refs (rc_heap ?d b) > 0" using d(3,4) by (cases "b = a") auto
    qed
    show "\<forall>k l b. rc_entries ?d k = Some b \<and> rc_entries ?d l = Some b \<longrightarrow> k = l"
      using assms(2) unfolding entries_ok_def d(2) by (auto split: if_split_asm)
  qed
  then show thesis using that c'(1) cells by blast
qed

lemma heap_step:
  assumes "admission_step c c'" and "cells_ok c" and "entries_ok c" and "phases_ok c"
  shows "cells_ok c' \<and> entries_ok c'"
  using assms
proof (induction rule: admission_step.induct)
  case (step_reserve c c')
  then show ?case by (auto simp: Reserve_def cells_ok_def entries_ok_def number_def split: if_split_asm)
next
  case (step_start c i conversation)
  then show ?case using start_heap by blast
next
  case (step_release_ref c i a c')
  then show ?case using release_heap [OF step_release_ref(3,4,1)] by (metis option.inject)
next
  case (step_token c i a)
  then have "we_token (rc_heap c b) \<le> 1" for b by (simp add: cells_ok_def)
  then show ?case
    by (intro heap_moved [of c i _ "(rc_reservations c ! i)\<lparr>rv_phase := WaitActive a\<rparr>"])
      (use step_token in \<open>auto simp: phase_of_Some move_to_def add_token_def\<close>)
next
  case (step_active c i a)
  then show ?case by (intro heap_moved [of c i _ "(rc_reservations c ! i)\<lparr>rv_phase := Running a\<rparr>"]) (auto simp: phase_of_Some move_to_def cells_ok_def)
next
  case (step_active_timeout c i a parent err)
  then show ?case by (intro heap_moved [of c i _ "(rc_reservations c ! i)\<lparr>rv_phase := ReleaseToken a, rv_error := Some (queueWaitError parent err)\<rparr>"]) (auto simp: phase_of_Some give_up_def cells_ok_def)
next
  case (step_token_timeout c i a parent err)
  then show ?case by (intro heap_moved [of c i _ "(rc_reservations c ! i)\<lparr>rv_phase := ReleaseRef a, rv_error := Some (queueWaitError parent err)\<rparr>"]) (auto simp: phase_of_Some give_up_def cells_ok_def)
next
  case (step_release c i a)
  then show ?case by (intro heap_moved [of c i _ "(rc_reservations c ! i)\<lparr>rv_phase := ReleaseToken a\<rparr>"]) (auto simp: phase_of_Some move_to_def cells_ok_def)
next
  case (step_release_token c i a)
  then have cells: "we_token (rc_heap c b) \<le> 1" for b unfolding cells_ok_def by blast
  moreover have "we_token (rc_heap c a) = 1" using cells [of a] step_release_token(2) by linarith
  ultimately show ?case
    by (intro heap_moved [of c i _ "(rc_reservations c ! i)\<lparr>rv_phase := ReleaseRef a\<rparr>"])
      (use step_release_token in \<open>auto simp: phase_of_Some move_to_def add_token_def\<close>)
next
  case (step_drain c i)
  then show ?case by (intro heap_moved [of c i _ "(rc_reservations c ! i)\<lparr>rv_cancel := Drained\<rparr>"]) (auto simp: phase_of_Some set_cancel_def cells_ok_def)
next
  case (step_done c i)
  then show ?case by (intro heap_moved [of c i _ "(rc_reservations c ! i)\<lparr>rv_cancel := Done\<rparr>"]) (auto simp: phase_of_Some set_cancel_def cells_ok_def)
next
  case (step_finish c i)
  then show ?case by (intro heap_moved [of c i _ "(rc_reservations c ! i)\<lparr>rv_phase := Finished\<rparr>"]) (auto simp: phase_of_Some move_to_def cells_ok_def)
next
  case (step_abandon c i)
  then show ?case by (intro heap_moved [of c i _ "(rc_reservations c ! i)\<lparr>rv_phase := Cancelling\<rparr>"]) (auto simp: phase_of_Some move_to_def cells_ok_def)
next
  case (step_start_blank c i)
  then show ?case by (intro heap_moved [of c i _ "(rc_reservations c ! i)\<lparr>rv_phase := Cancelling, rv_error := Some ConversationRequired\<rparr>"]) (auto simp: phase_of_Some start_blank_def cells_ok_def)
next
  case (step_close c)
  then show ?case by (simp add: cells_ok_def entries_ok_def)
qed

section \<open>Example: two Runs of one conversation\<close>

definition two_slots :: run_options where
  "two_slots = \<lparr>ro_max_concurrent = 2, ro_queue_size = 1, ro_wait_timeout = 0\<rparr>"

text \<open>The first reservation runs and the second waits for the writer token.\<close>

definition contended :: controller where
  "contended = \<lparr>rc_active_max = 2, rc_capacity_max = 3, rc_wait_timeout = 30000000000, rc_active = 1, rc_capacity = 2,
     rc_closing = False, rc_pending = 2, rc_entries = [''c'' \<mapsto> 0],
     rc_heap = (\<lambda>_. \<lparr>we_token = 0, we_refs = 0\<rparr>)(0 := \<lparr>we_token = 1, we_refs = 2\<rparr>), rc_fresh = 1,
     rc_reservations = [\<lparr>rv_conversation = ''c'', rv_phase = Running 0, rv_cancel = NotDone, rv_error = None\<rparr>,
       \<lparr>rv_conversation = ''c'', rv_phase = WaitToken 0, rv_cancel = NotDone, rv_error = None\<rparr>]\<rparr>"

lemma contended_reachable: "reachable two_slots contended"
proof -
  let ?new = "\<lparr>rv_conversation = [], rv_phase = Reserved, rv_cancel = NotDone, rv_error = None\<rparr>"
  obtain c0 where c0: "NewRunController two_slots = Some c0"
    "c0 = contended\<lparr>rc_active := 0, rc_capacity := 0, rc_pending := 0, rc_entries := Map.empty,
       rc_heap := (\<lambda>_. \<lparr>we_token = 0, we_refs = 0\<rparr>), rc_fresh := 0, rc_reservations := []\<rparr>"
    by (simp add: NewRunController_def two_slots_def Let_def wrap64_def contended_def)
  let ?c1 = "c0\<lparr>rc_capacity := 1, rc_pending := 1, rc_reservations := [?new]\<rparr>"
  let ?c2 = "c0\<lparr>rc_capacity := 2, rc_pending := 2, rc_reservations := [?new, ?new]\<rparr>"
  have r1: "reachable two_slots ?c1"
    by (rule reachable_step [OF reachable_new [OF c0(1)] step_reserve]) (simp add: Reserve_def c0(2) contended_def)
  have r2: "reachable two_slots ?c2"
    by (rule reachable_step [OF r1 step_reserve]) (simp add: Reserve_def c0(2) contended_def)
  let ?e = "\<lambda>t n. \<lparr>we_token = t, we_refs = n\<rparr>" and ?w = "?new\<lparr>rv_conversation := ''c'', rv_phase := WaitToken 0\<rparr>"
  obtain c3 where c3: "c3 = ?c2\<lparr>rc_entries := [''c'' \<mapsto> 0], rc_fresh := 1, rc_heap := (\<lambda>_. ?e 0 0)(0 := ?e 0 1),
      rc_reservations := [?w, ?new]\<rparr>" by blast
  have "start_waiting 0 ''c'' ?c2 = c3"
    by (simp add: start_waiting_def acquire_ref_def Let_def set_entry_def set_reservation_def c0(2) c3 contended_def)
  then have r3: "reachable two_slots c3" using reachable_step [OF r2 step_start [of ?c2 0 "''c''"]] by (simp add: phase_of_def)
  obtain c4 where c4: "c4 = c3\<lparr>rc_heap := (\<lambda>_. ?e 0 0)(0 := ?e 0 2), rc_reservations := [?w, ?w]\<rparr>" by blast
  have "start_waiting 1 ''c'' c3 = c4"
    by (simp add: start_waiting_def acquire_ref_def Let_def set_entry_def set_reservation_def c0(2) c4 c3)
  then have r4: "reachable two_slots c4" using reachable_step [OF r3 step_start [of c3 1 "''c''"]] by (simp add: phase_of_def c3)
  obtain c5 where c5: "c5 = c4\<lparr>rc_heap := (\<lambda>_. ?e 0 0)(0 := ?e 1 2), rc_reservations := [?w\<lparr>rv_phase := WaitActive 0\<rparr>, ?w]\<rparr>" by blast
  have "move_to 0 (WaitActive 0) (set_entry 0 (add_token 1 (rc_heap c4 0)) c4) = c5"
    by (simp add: move_to_def set_entry_def set_reservation_def add_token_def c5 c4)
  then have r5: "reachable two_slots c5" using reachable_step [OF r4 step_token [of c4 0 0]] by (simp add: phase_of_def c4)
  have "move_to 0 (Running 0) (c5\<lparr>rc_active := rc_active c5 + 1\<rparr>) = contended"
    by (simp add: move_to_def set_reservation_def c5 c4 c3 c0(2) contended_def)
  moreover have "rc_active c5 < rc_active_max c5" "phase_of c5 0 = Some (WaitActive 0)"
    by (simp_all add: phase_of_def c5 c4 c3 c0(2) contended_def)
  moreover have "reachable two_slots (move_to 0 (Running 0) (c5\<lparr>rc_active := rc_active c5 + 1\<rparr>))"
    by (rule reachable_step [OF r5 step_active]) (fact calculation)+
  ultimately show ?thesis by simp
qed

section \<open>Properties\<close>

lemma reachable_ok: "reachable opts c \<Longrightarrow> counts_ok c \<and> phases_ok c \<and> cells_ok c \<and> entries_ok c"
proof (induction rule: reachable.induct)
  case (reachable_new c)
  then show ?case
    by (auto simp: NewRunController_def Let_def counts_ok_def phases_ok_def cells_ok_def entries_ok_def number_def
        split: if_split_asm)
next
  case (reachable_step c c')
  then show ?case using counts_step phases_step heap_step by blast
qed

lemma limits_step: "admission_step c c' \<Longrightarrow> rc_active_max c' = rc_active_max c \<and> rc_capacity_max c' = rc_capacity_max c"
  by (induction rule: admission_step.induct)
    (auto simp: Reserve_def step_simps start_waiting_def acquire_ref_def releaseRef_def Let_def split: if_split_asm option.split)

lemma reachable_limits:
  assumes "reachable opts c" and "ro_max_concurrent opts > 0" and "ro_queue_size opts \<ge> 0"
    and "is_int64 (ro_max_concurrent opts + ro_queue_size opts)"
  shows "rc_active_max c = nat (ro_max_concurrent opts) \<and> rc_capacity_max c = nat (ro_max_concurrent opts + ro_queue_size opts)"
  using assms(1)
proof (induction rule: reachable.induct)
  case (reachable_new c)
  then show ?case using assms(2-4) by (auto simp: NewRunController_def Let_def wrap64_id split: if_split_asm)
next
  case (reachable_step c c')
  then show ?case using limits_step by metis
qed

text \<open>
  C23: However the goroutines interleave, two Runs are never active on the same conversation, at most
  \<open>MaxConcurrent\<close> Runs are active, and at most \<open>MaxConcurrent + QueueSize\<close> reservations are held.
\<close>

theorem one_writer_per_conversation:
  assumes "reachable opts c" and "ro_max_concurrent opts > 0" and "ro_queue_size opts \<ge> 0"
    and "is_int64 (ro_max_concurrent opts + ro_queue_size opts)"
  shows "(\<forall>i j a b. phase_of c i = Some (Running a) \<and> phase_of c j = Some (Running b) \<and> i \<noteq> j \<longrightarrow>
      rv_conversation (rc_reservations c ! i) \<noteq> rv_conversation (rc_reservations c ! j))
    \<and> number (\<lambda>r. is_running (rv_phase r)) c \<le> ro_max_concurrent opts
    \<and> number (\<lambda>r. rv_cancel r = NotDone) c \<le> ro_max_concurrent opts + ro_queue_size opts"
proof (intro conjI allI impI)
  note ok = reachable_ok [OF assms(1)] and limits = reachable_limits [OF assms]
  show "number (\<lambda>r. is_running (rv_phase r)) c \<le> ro_max_concurrent opts"
    using ok limits assms(2) by (simp add: counts_ok_def) (metis int_nat_eq of_nat_le_iff order_less_imp_le)
  show "number (\<lambda>r. rv_cancel r = NotDone) c \<le> ro_max_concurrent opts + ro_queue_size opts"
    using ok limits assms(2,3) by (simp add: counts_ok_def) (metis int_nat_eq of_nat_le_iff add_nonneg_nonneg order_less_imp_le)
  fix i j a b
  assume run: "phase_of c i = Some (Running a) \<and> phase_of c j = Some (Running b) \<and> i \<noteq> j"
  then have i: "i < length (rc_reservations c)" "rv_phase (rc_reservations c ! i) = Running a"
    "j < length (rc_reservations c)" "rv_phase (rc_reservations c ! j) = Running b"
    by (simp_all add: phase_of_Some)
  show "rv_conversation (rc_reservations c ! i) \<noteq> rv_conversation (rc_reservations c ! j)"
  proof
    assume "rv_conversation (rc_reservations c ! i) = rv_conversation (rc_reservations c ! j)"
    moreover have "rc_entries c (rv_conversation (rc_reservations c ! i)) = Some a"
      "rc_entries c (rv_conversation (rc_reservations c ! j)) = Some b"
      using ok i nth_mem unfolding entries_ok_def by (metis ref_of.simps(3))+
    ultimately have "b = a" by simp
    then have "2 \<le> number (\<lambda>r. token_of (rv_phase r) = Some a) c"
      using number_two [of i c j "\<lambda>r. token_of (rv_phase r) = Some a"] i run by simp
    moreover have "int (we_token (rc_heap c a)) = number (\<lambda>r. token_of (rv_phase r) = Some a) c" "we_token (rc_heap c a) \<le> 1"
      using ok unfolding cells_ok_def by blast+
    ultimately show False by linarith
  qed
qed

lemma one_writer_per_conversation_witness:
  "reachable two_slots contended \<and> phase_of contended 0 = Some (Running 0)
   \<and> (\<forall>b. phase_of contended 1 \<noteq> Some (Running b))
   \<and> number (\<lambda>r. is_running (rv_phase r)) contended \<le> 2 \<and> number (\<lambda>r. rv_cancel r = NotDone) contended \<le> 3"
proof -
  have c: "phase_of contended 0 = Some (Running 0)"
    "rv_conversation (rc_reservations contended ! 0) = rv_conversation (rc_reservations contended ! 1)"
    by (simp_all add: phase_of_def contended_def)
  have "ro_max_concurrent two_slots > 0" "ro_queue_size two_slots \<ge> 0"
    "is_int64 (ro_max_concurrent two_slots + ro_queue_size two_slots)"
    by (simp_all add: two_slots_def max_int64_def min_int64_def)
  note w = one_writer_per_conversation [OF contended_reachable this]
  have "phase_of contended 1 \<noteq> Some (Running b)" for b
    using conjunct1 [OF w] c zero_neq_one by metis
  then show ?thesis using contended_reachable c(1) conjunct2 [OF w] by (simp add: two_slots_def)
qed

text \<open>
  C24: Releasing never blocks and never panics: in every reachable state, whoever holds an active slot, a
  writer token, a reference or an uncancelled reservation that it is giving up can take its next
  step. And nothing is left behind: when a closed controller has drained, every reservation is
  cancelled, no Run is active, no writer entry exists and both channels are empty.
\<close>

theorem release_never_stuck:
  assumes "reachable opts c"
  shows "(\<forall>i p. phase_of c i = Some p \<and> (is_running p \<or> (\<exists>a. p = ReleaseToken a \<or> p = ReleaseRef a) \<or> p = Cancelling) \<longrightarrow>
      (\<exists>c'. admission_step c c' \<and> (phase_of c' i \<noteq> Some p \<or> cancel_of c' i \<noteq> cancel_of c i)))
    \<and> (closed_and_drained c \<longrightarrow>
        (\<forall>i p. phase_of c i = Some p \<longrightarrow> p \<in> {Cancelling, Finished} \<and> cancel_of c i = Done)
        \<and> rc_active c = 0 \<and> rc_capacity c = 0 \<and> rc_entries c = Map.empty)"
proof (intro conjI allI impI)
  note ok = reachable_ok [OF assms]
  fix i p
  assume "phase_of c i = Some p \<and> (is_running p \<or> (\<exists>a. p = ReleaseToken a \<or> p = ReleaseRef a) \<or> p = Cancelling)"
  then have p: "phase_of c i = Some p" "is_running p \<or> (\<exists>a. p = ReleaseToken a \<or> p = ReleaseRef a) \<or> p = Cancelling" by blast+
  then have i: "i < length (rc_reservations c)" "rv_phase (rc_reservations c ! i) = p" by (simp_all add: phase_of_Some)
  have moved: "phase_of (move_to i q d) i = Some q" if "rc_reservations d = rc_reservations c" for q d
    using i that by (simp add: phase_of_def move_to_def)
  consider (run) a where "p = Running a" | (token) a where "p = ReleaseToken a" | (ref) a where "p = ReleaseRef a"
    | (cancel) "p = Cancelling" using p(2) by (cases p) auto
  then show "\<exists>c'. admission_step c c' \<and> (phase_of c' i \<noteq> Some p \<or> cancel_of c' i \<noteq> cancel_of c i)"
  proof cases
    case run
    have "1 \<le> number (\<lambda>r. is_running (rv_phase r)) c" by (rule number_member [OF i(1)]) (simp add: i(2) run)
    then have "rc_active c > 0" using ok by (simp add: counts_ok_def)
    then show ?thesis using step_release [of c i a] p(1) run moved by fastforce
  next
    case token
    have "we_token (rc_heap c a) = 1" using cells_holder(2) [of c i a] ok i token by simp
    then show ?thesis using step_release_token [of c i a] p(1) token moved by fastforce
  next
    case ref
    obtain c' where c': "releaseRef (rv_conversation (rc_reservations c ! i)) a c = Some c'"
      using release_heap [of c i a] ok p(1) ref by blast
    then have "rc_reservations c' = rc_reservations c" by (auto simp: releaseRef_def Let_def split: if_split_asm)
    then show ?thesis using step_release_ref [OF _ c'] p(1) ref moved by fastforce
  next
    case cancel
    show ?thesis
    proof (cases "cancel_of c i")
      case NotDone
      have "1 \<le> number (\<lambda>r. rv_cancel r = NotDone) c"
        by (rule number_member [OF i(1)]) (use NotDone in \<open>simp add: cancel_of_def\<close>)
      then have "rc_capacity c > 0" using ok by (simp add: counts_ok_def)
      then have "admission_step c (set_cancel i Drained (c\<lparr>rc_capacity := rc_capacity c - 1\<rparr>))"
        using step_drain p(1) cancel NotDone by blast
      moreover have "cancel_of (set_cancel i Drained (c\<lparr>rc_capacity := rc_capacity c - 1\<rparr>)) i = Drained"
        using i(1) by (simp add: cancel_of_def set_cancel_def)
      ultimately show ?thesis using NotDone by fastforce
    next
      case Drained
      then have "admission_step c (set_cancel i Done (c\<lparr>rc_pending := rc_pending c - 1\<rparr>))"
        using step_done p(1) cancel by blast
      moreover have "cancel_of (set_cancel i Done (c\<lparr>rc_pending := rc_pending c - 1\<rparr>)) i = Done"
        using i(1) by (simp add: cancel_of_def set_cancel_def)
      ultimately show ?thesis using Drained by fastforce
    next
      case Done
      then show ?thesis using step_finish [of c i] p(1) cancel moved by fastforce
    qed
  qed
next
  note ok = reachable_ok [OF assms]
  assume "closed_and_drained c"
  then have all: "\<forall>r \<in> set (rc_reservations c). rv_cancel r = Done"
    using ok by (simp add: closed_and_drained_def counts_ok_def number_zero)
  then have quiet: "\<forall>r \<in> set (rc_reservations c). rv_phase r \<in> {Cancelling, Finished}"
    using ok unfolding phases_ok_def by (metis once.distinct(3))
  show "p \<in> {Cancelling, Finished}" "cancel_of c i = Done" if "phase_of c i = Some p" for i p
    using that all quiet nth_mem [of i "rc_reservations c"] by (auto simp: phase_of_Some cancel_of_def)
  have "number (\<lambda>r. is_running (rv_phase r)) c = 0" "number (\<lambda>r. rv_cancel r = NotDone) c = 0"
    "number (\<lambda>r. ref_of (rv_phase r) = Some a) c = 0" for a
    using all quiet by (auto simp: number_zero)
  then show "rc_active c = 0" "rc_capacity c = 0" "rc_entries c = Map.empty"
    using ok by (simp_all add: counts_ok_def cells_ok_def entries_ok_def) (metis less_irrefl not_None_eq)
qed

lemma release_never_stuck_witness:
  "\<exists>c. admission_step contended c \<and> (phase_of c 0 \<noteq> Some (Running 0) \<or> cancel_of c 0 \<noteq> cancel_of contended 0)"
proof -
  have "phase_of contended 0 = Some (Running 0)" by (simp add: phase_of_def contended_def)
  then show ?thesis using conjunct1 [OF release_never_stuck [OF contended_reachable]] by (metis is_running.simps(1))
qed

end
