(* ===== verification/Tool_Calls.thy ===== *)
theory Tool_Calls
  imports Tool_Policy Tool_Effects Progress_Guard
begin

text \<open>
  What the tool executor hands around (\<open>tool/descriptor.go\<close>, \<open>tool/errors.go\<close>, the types of
  \<open>tool/executor.go\<close>, \<open>tool/call_contract.go\<close>): bindings, requests, results and errors. The Go cause
  that an error wraps is not kept. A resolved tool is \<open>Some\<close> binding, the zero \<open>Binding\<close> is \<open>None\<close>;
  its handler is the world's (\<open>Tool_Executor\<close>). The value a handler returns has type \<open>'v\<close>.
\<close>

section \<open>Errors\<close>

datatype error_code =
    ErrorToolNotFound
  | ErrorInvalidArgs
  | ErrorExecutionFailed
  | ErrorExecutionTimeout
  | ErrorExecutionCanceled
  | ErrorExecutionCapacity
  | ErrorExecutionUnavailable
  | ErrorProviderRateLimited
  | ErrorProviderUnavailable
  | ErrorNoResults
  | ErrorResultEncoding
  | ErrorBudgetExceeded
  | ErrorIdempotencyRequired
  | ErrorEffectReconciliation
  | ErrorEffectJournal
  | ErrorArtifactUnavailable
  | ErrorSecurity security_code
  | ErrorSecurityAudit
  | ErrorProgressBlocked
  | ErrorNoProgress
  | ErrorCodeOther string

fun error_code_text :: "error_code \<Rightarrow> string" where
  "error_code_text ErrorToolNotFound = ''tool_not_found''"
| "error_code_text ErrorInvalidArgs = ''invalid_arguments''"
| "error_code_text ErrorExecutionFailed = ''execution_failed''"
| "error_code_text ErrorExecutionTimeout = ''execution_timeout''"
| "error_code_text ErrorExecutionCanceled = ''execution_canceled''"
| "error_code_text ErrorExecutionCapacity = ''execution_capacity_exceeded''"
| "error_code_text ErrorExecutionUnavailable = ''execution_unavailable''"
| "error_code_text ErrorProviderRateLimited = ''provider_rate_limited''"
| "error_code_text ErrorProviderUnavailable = ''provider_unavailable''"
| "error_code_text ErrorNoResults = ''no_results''"
| "error_code_text ErrorResultEncoding = ''result_encoding_failed''"
| "error_code_text ErrorBudgetExceeded = ''budget_exceeded''"
| "error_code_text ErrorIdempotencyRequired = ''idempotency_required''"
| "error_code_text ErrorEffectReconciliation = ''side_effect_reconciliation_required''"
| "error_code_text ErrorEffectJournal = ''side_effect_journal_failed''"
| "error_code_text ErrorArtifactUnavailable = ''artifact_unavailable''"
| "error_code_text (ErrorSecurity ErrorSecurityPolicyDenied) = ''security_policy_denied''"
| "error_code_text (ErrorSecurity ErrorSecurityScopeInvalid) = ''security_scope_invalid''"
| "error_code_text (ErrorSecurity ErrorCredentialScope) = ''credential_scope_unavailable''"
| "error_code_text (ErrorSecurity ErrorApprovalRequired) = ''approval_required''"
| "error_code_text ErrorSecurityAudit = ''security_audit_failed''"
| "error_code_text ErrorProgressBlocked = ''tool_progress_blocked''"
| "error_code_text ErrorNoProgress = ''turn_no_progress''"
| "error_code_text (ErrorCodeOther s) = s"

text \<open>The category of \<open>FailureInfo\<close>.\<close>

fun failure_category :: "error_code \<Rightarrow> string" where
  "failure_category ErrorToolNotFound = ''not_found''"
| "failure_category ErrorNoResults = ''not_found''"
| "failure_category ErrorInvalidArgs = ''validation''"
| "failure_category ErrorExecutionTimeout = ''timeout''"
| "failure_category ErrorExecutionCanceled = ''canceled''"
| "failure_category ErrorExecutionCapacity = ''capacity''"
| "failure_category ErrorExecutionUnavailable = ''availability''"
| "failure_category ErrorProviderRateLimited = ''capacity''"
| "failure_category ErrorProviderUnavailable = ''availability''"
| "failure_category ErrorBudgetExceeded = ''capacity''"
| "failure_category ErrorIdempotencyRequired = ''validation''"
| "failure_category ErrorEffectReconciliation = ''availability''"
| "failure_category ErrorEffectJournal = ''availability''"
| "failure_category ErrorArtifactUnavailable = ''availability''"
| "failure_category (ErrorSecurity c) = ''validation''"
| "failure_category ErrorSecurityAudit = ''availability''"
| "failure_category _ = ''execution''"

record argument_issue =
  is_code :: string
  is_path :: string
  is_message :: string

record execution_error =
  xe_code :: error_code
  xe_message :: string
  xe_argument :: "argument_issue option"

definition executionError :: "services \<Rightarrow> error_code \<Rightarrow> string \<Rightarrow> execution_error" where
  "executionError svc code message =
     \<lparr>xe_code = code, xe_message = redact_text svc message, xe_argument = None\<rparr>"

definition invalidArgumentsError :: "argument_issue \<Rightarrow> execution_error" where
  "invalidArgumentsError issue =
     \<lparr>xe_code = ErrorInvalidArgs,
      xe_message = (if is_path issue = [] then ''tool arguments are invalid''
                    else ''tool arguments are invalid at '' @ is_path issue),
      xe_argument = Some issue\<rparr>"

section \<open>Bindings\<close>

datatype concurrency_mode = ConcurrencySerial | ConcurrencyReadOnly | ConcurrencyKeyed string

datatype side_effect_mode = SideEffectInternal | SideEffectExternal

text \<open>
  \<open>bd_validate\<close> is the compiled argument contract: a canonical form of the arguments, when they are
  JSON, and an issue, when they do not satisfy the schema. It is absent when the contract is nil.
\<close>

record binding =
  bd_security :: capability
  bd_concurrency :: concurrency_mode
  bd_timeout :: int
  bd_max_result :: int
  bd_resolve_scope :: "(string \<Rightarrow> string + tool_scope) option"
  bd_revision :: string
  bd_validate :: "(string \<Rightarrow> string option \<times> argument_issue option) option"

definition JournalMode :: "capability \<Rightarrow> side_effect_mode option" where
  "JournalMode c =
     (if cap_side_effect c = SideEffectInternalWrite then Some SideEffectInternal
      else if cap_side_effect c = SideEffectExternalWrite \<or> cap_side_effect c = SideEffectDestructive
      then Some SideEffectExternal
      else None)"

definition RequiresJournal :: "capability \<Rightarrow> bool" where
  "RequiresJournal c \<longleftrightarrow> JournalMode c \<noteq> None"

fun journal_mode_text :: "side_effect_mode \<Rightarrow> string" where
  "journal_mode_text SideEffectInternal = ''internal''"
| "journal_mode_text SideEffectExternal = ''external''"

text \<open>The capability of the zero \<open>Descriptor\<close>.\<close>

definition zero_capability :: capability where
  "zero_capability =
     \<lparr>cap_source = [], cap_scope = \<lparr>ts_resources = [], ts_network = \<lparr>net_mode = [], net_targets = []\<rparr>, ts_credentials = []\<rparr>,
      cap_side_effect = [], cap_rate = [], cap_reversibility = [], cap_visibility = [], cap_approval = [],
      cap_audit = []\<rparr>"

definition security_of :: "binding option \<Rightarrow> capability" where
  "security_of b = (case b of None \<Rightarrow> zero_capability | Some b \<Rightarrow> bd_security b)"

section \<open>Requests and results\<close>

record execution_request =
  xr_call_id :: string
  xr_run_id :: string
  xr_stage_id :: string
  xr_turn_id :: string
  xr_key :: string
  xr_tool :: string
  xr_arguments :: string
  xr_revision :: string
  xr_arguments_hash :: string
  xr_credentials :: "string list"

record artifact_reference =
  ref_id :: string
  ref_media_type :: string
  ref_content_hash :: string
  ref_byte_size :: int

text \<open>The result of a call: none, the value of the handler, or the map that \<open>artifactPreview\<close> builds.\<close>

datatype 'v tool_value =
    NoValue
  | Value 'v
  | Preview string "artifact_reference option" "error_code option"

record 'v execution_result =
  xs_call_id :: string
  xs_tool :: string
  xs_arguments :: string
  xs_revision :: string
  xs_arguments_hash :: string
  xs_value :: "'v tool_value"
  xs_error :: "execution_error option"
  xs_duration :: int
  xs_truncated :: bool
  xs_original_bytes :: int
  xs_replayed :: bool
  xs_artifact :: "artifact_reference option"
  xs_artifact_error :: "execution_error option"
  xs_policy :: "decision option"
  xs_progress :: "guard_decision option"
  xs_warning :: string
  xs_private :: bool
  xs_not_applied :: bool
  xs_encoded :: string

definition ErrorMessage :: "'v execution_result \<Rightarrow> string" where
  "ErrorMessage r = (case xs_error r of None \<Rightarrow> [] | Some e \<Rightarrow> xe_message e)"

text \<open>
  What the code uses of other packages: redaction (of texts, of JSON with the number of removed
  secrets, and whether a value is free of them), SHA-256 as a hexadecimal string, \<open>json.Compact\<close>,
  the JSON of handler values and of results, and the texts of \<open>%q\<close>, of durations and of usage errors.
\<close>

record 'v tool_services =
  tv_svc :: services
  tv_redact_json :: "string \<Rightarrow> (string \<times> int) option"
  tv_clean :: "string \<Rightarrow> bool"
  tv_digest :: "string \<Rightarrow> string"
  tv_compact :: "string \<Rightarrow> string option"
  tv_marshal :: "'v \<Rightarrow> string option"
  tv_marshal_result :: "'v execution_result \<Rightarrow> string option"
  tv_unmarshal_result :: "string \<Rightarrow> 'v execution_result option"
  tv_quoted :: "string \<Rightarrow> string"
  tv_duration :: "int \<Rightarrow> string"

section \<open>The contract of one call\<close>

definition normalizeArguments :: "string \<Rightarrow> string" where
  "normalizeArguments args = (if trim_space args = [] then ''{}'' else args)"

definition argumentsHash :: "(string \<Rightarrow> string) \<Rightarrow> string \<Rightarrow> string \<Rightarrow> string" where
  "argumentsHash digest revision arguments = ''sha256:'' @ digest (revision @ CHR 0x00 # arguments)"

record validated_call =
  vc_arguments :: string
  vc_revision :: string
  vc_arguments_hash :: string

definition prepareCall ::
  "'v tool_services \<Rightarrow> (string \<rightharpoonup> binding) \<Rightarrow> string \<Rightarrow> string
    \<Rightarrow> binding option \<times> validated_call \<times> execution_error option" where
  "prepareCall sv resolve name arguments =
     (let call = \<lparr>vc_arguments = normalizeArguments arguments, vc_revision = [], vc_arguments_hash = []\<rparr>
      in case resolve name of
           None \<Rightarrow>
             (None, call, Some (executionError (tv_svc sv) ErrorToolNotFound
                (''tool '' @ tv_quoted sv name @ '' not found'')))
         | Some b \<Rightarrow>
             (case bd_validate b of
                None \<Rightarrow>
                  (Some b, call, Some (executionError (tv_svc sv) ErrorExecutionFailed
                     ''tool argument contract is unavailable''))
              | Some validate \<Rightarrow>
                  (let (canonical, issue) = validate (vc_arguments call);
                       call = (case canonical of
                                 None \<Rightarrow> call
                               | Some c \<Rightarrow> \<lparr>vc_arguments = c, vc_revision = bd_revision b,
                                   vc_arguments_hash = argumentsHash (tv_digest sv) (bd_revision b) c\<rparr>)
                   in (Some b, call, map_option invalidArgumentsError issue))))"

section \<open>Truncation\<close>

function valid_head :: "string \<Rightarrow> string" where
  "valid_head v = (if v = [] \<or> utf8_valid v then v else valid_head (butlast v))"
  by pat_completeness auto
termination
  by (relation "measure length") auto

declare valid_head.simps [simp del]

definition truncateUTF8 :: "string \<Rightarrow> nat \<Rightarrow> string" where
  "truncateUTF8 v limit = (if limit \<ge> length v then v else valid_head (take limit v))"

lemma valid_head_prefix: "prefix (valid_head v) v"
proof (induction v rule: valid_head.induct)
  case (1 v)
  then show ?case using prefix_order.trans [OF _ prefixeq_butlast]
    by (subst valid_head.simps) auto
qed

lemma valid_head_valid: "utf8_valid (valid_head v)"
proof (induction v rule: valid_head.induct)
  case (1 v)
  then show ?case by (subst valid_head.simps) auto
qed

lemma truncateUTF8_prefix: "prefix (truncateUTF8 v n) v"
  using valid_head_prefix [of "take n v"] take_is_prefix [of n v]
  by (auto simp: truncateUTF8_def intro: prefix_order.trans)

lemma truncateUTF8_length: "length (truncateUTF8 v n) \<le> n"
  using prefix_length_le [OF valid_head_prefix [of "take n v"]] by (auto simp: truncateUTF8_def)

end
