(* ===== verification/Tool_Artifacts.thy ===== *)
theory Tool_Artifacts
  imports Tool_Calls
begin

text \<open>
  Tool artifacts: the table of oversized results (\<open>store/tool_artifacts.go\<close>,
  \<open>store/postgres_tool_artifacts.go\<close>), the reads and searches of the runtime tools
  (\<open>tool/artifact/tool.go\<close>), and the governor that turns a result into a bounded preview
  (\<open>tool/artifact_governor.go\<close>). A content is its bytes. A row is an artifact and its content; a
  missing Run violates the foreign key.
\<close>

section \<open>The table\<close>

record tool_artifact =
  ta_id :: string
  ta_schema_version :: int
  ta_run_id :: string
  ta_stage_id :: string
  ta_turn_id :: string
  ta_tool_call_id :: string
  ta_tool_name :: string
  ta_revision :: string
  ta_media_type :: string
  ta_content_hash :: string
  ta_original_size :: int
  ta_stored_size :: int
  ta_redacted :: bool
  ta_strategy :: string
  ta_redactions :: int
  ta_created_at :: time
  ta_expires_at :: "time option"
  ta_expired :: bool

type_synonym artifact_table = "(tool_artifact \<times> string) list"

datatype artifact_error =
    ArtifactRejected string
  | ArtifactForeignKey
  | ArtifactNotFound
  | ArtifactExpired
  | ArtifactRange

definition Reference :: "tool_artifact \<Rightarrow> artifact_reference" where
  "Reference a = \<lparr>ref_id = ta_id a, ref_media_type = ta_media_type a, ref_content_hash = ta_content_hash a,
     ref_byte_size = ta_stored_size a\<rparr>"

definition ToolArtifactContentHash :: "(string \<Rightarrow> string) \<Rightarrow> string \<Rightarrow> string" where
  "ToolArtifactContentHash digest content = ''sha256:'' @ digest content"

text \<open>\<open>leaks\<close>: whether redaction of a text removes anything.\<close>

definition ValidateToolArtifact ::
  "(string \<Rightarrow> string) \<Rightarrow> (string \<Rightarrow> bool) \<Rightarrow> tool_artifact \<Rightarrow> string \<Rightarrow> string option" where
  "ValidateToolArtifact digest leaks a content =
     (if trim_space (ta_id a) = [] \<or> trim_space (ta_run_id a) = [] \<or> trim_space (ta_tool_call_id a) = []
         \<or> trim_space (ta_tool_name a) = [] then Some ''tool artifact requires id, run, tool call, and tool name''
      else if ta_schema_version a \<noteq> 1 then Some ''unsupported tool artifact schema version''
      else if ta_media_type a \<noteq> ''application/json'' \<and> ta_media_type a \<noteq> ''text/plain''
      then Some ''tool artifact media type must be application/json or text/plain''
      else if ta_stored_size a \<noteq> int (length content) \<or> ta_stored_size a < 0 \<or> ta_original_size a < 0
      then Some ''tool artifact byte sizes do not match content''
      else if ta_content_hash a \<noteq> ToolArtifactContentHash digest content
      then Some ''tool artifact content hash mismatch''
      else if leaks content then Some ''tool artifact contains credential-like content''
      else if ta_created_at a = 0 then Some ''tool artifact created_at is required''
      else None)"

definition getToolArtifact ::
  "artifact_table \<Rightarrow> string \<Rightarrow> string \<Rightarrow> (tool_artifact \<times> string) option" where
  "getToolArtifact table rid aid =
     find (\<lambda>(a, c). ta_run_id a = rid \<and> ta_id a = aid) table"

text \<open>The insert does nothing when the identifier exists; the row that is read back decides.\<close>

definition insert_artifact :: "tool_artifact \<Rightarrow> string \<Rightarrow> artifact_table \<Rightarrow> artifact_table" where
  "insert_artifact a content table =
     (if ta_id a \<in> ta_id ` fst ` set table then table else table @ [(a\<lparr>ta_expired := False\<rparr>, content)])"

definition CreateToolArtifact ::
  "(string \<Rightarrow> string) \<Rightarrow> (string \<Rightarrow> bool) \<Rightarrow> (string \<Rightarrow> bool) \<Rightarrow> tool_artifact \<Rightarrow> string \<Rightarrow> artifact_table
    \<Rightarrow> (artifact_error + tool_artifact) \<times> artifact_table" where
  "CreateToolArtifact digest leaks run_exists a content table =
     (case ValidateToolArtifact digest leaks a content of
        Some m \<Rightarrow> (Inl (ArtifactRejected m), table)
      | None \<Rightarrow>
          if ta_id a \<notin> ta_id ` fst ` set table \<and> \<not> run_exists (ta_run_id a) then (Inl ArtifactForeignKey, table)
          else
            (let table = insert_artifact a content table
             in case getToolArtifact table (ta_run_id a) (ta_id a) of
                  None \<Rightarrow> (Inl (ArtifactRejected ''tool artifact was not persisted''), table)
                | Some (existing, stored) \<Rightarrow>
                    if ta_content_hash existing \<noteq> ta_content_hash a \<or> ta_tool_call_id existing \<noteq> ta_tool_call_id a
                       \<or> ta_stored_size existing \<noteq> ta_stored_size a
                    then (Inl (ArtifactRejected ''tool artifact idempotency conflict''), table)
                    else if int (length stored) \<noteq> ta_stored_size existing
                       \<or> ToolArtifactContentHash digest stored \<noteq> ta_content_hash existing
                    then (Inl (ArtifactRejected ''existing tool artifact content is unavailable or corrupt''), table)
                    else (Inr existing, table)))"

definition ToolArtifactExpired :: "tool_artifact \<Rightarrow> time \<Rightarrow> bool" where
  "ToolArtifactExpired a now = (case ta_expires_at a of None \<Rightarrow> False | Some t \<Rightarrow> \<not> now < t)"

text \<open>The start of the store drops the contents that have expired.\<close>

definition purgeExpiredToolArtifactContent :: "time \<Rightarrow> artifact_table \<Rightarrow> artifact_table" where
  "purgeExpiredToolArtifactContent now table =
     map (\<lambda>(a, content). if ToolArtifactExpired a now \<and> content \<noteq> [] then (a, []) else (a, content)) table"

section \<open>Reads\<close>

record artifact_read =
  ard_artifact :: tool_artifact
  ard_offset :: int
  ard_content :: string
  ard_next_offset :: int
  ard_complete :: bool

definition MaxToolArtifactReadBytes :: int where "MaxToolArtifactReadBytes = 65536"

definition NormalizeArtifactRead :: "int \<Rightarrow> int \<Rightarrow> artifact_error + int \<times> int" where
  "NormalizeArtifactRead offset limit =
     (let limit = (if limit \<le> 0 then 8192 else limit)
      in if offset < 0 then Inl (ArtifactRejected ''artifact offset cannot be negative'')
         else if limit > MaxToolArtifactReadBytes
         then Inl (ArtifactRejected (''artifact read limit cannot exceed '' @ json_int MaxToolArtifactReadBytes @ '' bytes''))
         else Inr (offset, limit))"

definition ReadToolArtifact ::
  "time \<Rightarrow> string \<Rightarrow> string \<Rightarrow> int \<Rightarrow> int \<Rightarrow> artifact_table \<Rightarrow> artifact_error + artifact_read" where
  "ReadToolArtifact now rid aid offset limit table =
     bind_result (NormalizeArtifactRead offset limit)
       (\<lambda>(offset, limit).
          case getToolArtifact table rid aid of
            None \<Rightarrow> Inl ArtifactNotFound
          | Some (a, content) \<Rightarrow>
              if ToolArtifactExpired a now then Inl ArtifactExpired
              else if offset > int (length content) then Inl ArtifactRange
              else
                (let end = min (int (length content)) (offset + limit)
                 in Inr \<lparr>ard_artifact = a, ard_offset = offset,
                      ard_content = take (nat (end - offset)) (drop (nat offset) content),
                      ard_next_offset = end, ard_complete = (end = int (length content))\<rparr>))"

text \<open>What a caller of the runtime tool decodes: the content is encoded as a JSON string.\<close>

definition delivered :: "artifact_read \<Rightarrow> string" where
  "delivered r = sanitize_utf8 (ard_content r)"

section \<open>Searches\<close>

fun index_of :: "string \<Rightarrow> string \<Rightarrow> nat option" where
  "index_of q s =
     (if prefix q s then Some 0 else (case s of [] \<Rightarrow> None | c # t \<Rightarrow> map_option Suc (index_of q t)))"

declare index_of.simps [simp del]

function search_from ::
  "string \<Rightarrow> string \<Rightarrow> nat \<Rightarrow> nat \<Rightarrow> (nat \<times> string) list \<Rightarrow> (nat \<times> string) list \<times> bool" where
  "search_from content query limit cursor matches =
     (if cursor < length content then
        (case index_of query (drop cursor content) of
           None \<Rightarrow> (matches, False)
         | Some relative \<Rightarrow>
             (let offset = cursor + relative
              in if length matches = limit then (matches, True)
                 else
                   (let start = offset - 80; end = min (length content) (offset + length query + 160)
                    in search_from content query limit (offset + max 1 (length query))
                         (matches @ [(offset, take (end - start) (drop start content))]))))
      else (matches, False))"
  by pat_completeness auto
termination
  by (relation "measure (\<lambda>(content, query, limit, cursor, matches). length content - cursor)") auto

declare search_from.simps [simp del]

record artifact_search =
  asr_artifact :: tool_artifact
  asr_query :: string
  asr_matches :: "(nat \<times> string) list"
  asr_scanned :: int
  asr_truncated :: bool

definition NormalizeArtifactSearch :: "string \<Rightarrow> int \<Rightarrow> artifact_error + string \<times> int" where
  "NormalizeArtifactSearch query limit =
     (let query = trim_space query; limit' = (if limit \<le> 0 then 5 else limit)
      in if query = [] then Inl (ArtifactRejected ''artifact search query is required'')
         else if length query > 256 then Inl (ArtifactRejected ''artifact search query cannot exceed 256 bytes'')
         else if limit' > 20 then Inl (ArtifactRejected ''artifact search matches cannot exceed 20'')
         else Inr (query, limit'))"

definition SearchToolArtifact ::
  "time \<Rightarrow> string \<Rightarrow> string \<Rightarrow> string \<Rightarrow> int \<Rightarrow> artifact_table \<Rightarrow> artifact_error + artifact_search" where
  "SearchToolArtifact now rid aid query limit table =
     bind_result (NormalizeArtifactSearch query limit)
       (\<lambda>(query, limit).
          case getToolArtifact table rid aid of
            None \<Rightarrow> Inl ArtifactNotFound
          | Some (a, content) \<Rightarrow>
              if ToolArtifactExpired a now then Inl ArtifactExpired
              else
                (let (matches, truncated) = search_from content query (nat limit) 0 []
                 in Inr \<lparr>asr_artifact = a, asr_query = query, asr_matches = matches,
                      asr_scanned = int (length content), asr_truncated = truncated\<rparr>))"

section \<open>The governor\<close>

text \<open>\<open>gv_store\<close> says whether there is an artifact store.\<close>

record governor =
  gv_store :: bool
  gv_max_bytes :: int
  gv_preview_bytes :: int
  gv_retention :: int

definition minPositive :: "int list \<Rightarrow> int" where
  "minPositive values = fold (\<lambda>v m. if v > 0 \<and> (m = 0 \<or> v < m) then v else m) values 0"

definition artifactID :: "(string \<Rightarrow> string) \<Rightarrow> execution_request \<Rightarrow> string \<Rightarrow> string" where
  "artifactID digest q content_hash =
     ''tool_artifact_'' @ take 32 (digest (separated [CHR 0x00]
        [xr_run_id q, xr_stage_id q, xr_call_id q, xr_tool q, content_hash]))"

definition omitted_text :: string where
  "omitted_text = ''[tool result omitted because safe artifact storage was unavailable]''"

definition artifactPreview ::
  "string \<Rightarrow> int \<Rightarrow> artifact_reference option \<Rightarrow> execution_error option \<Rightarrow> 'v tool_value" where
  "artifactPreview content limit reference err =
     Preview
       (if limit \<le> 0 then []
        else if content \<noteq> [] then truncateUTF8 content (min (nat limit) (length content))
        else if int (length omitted_text) > limit then truncateUTF8 omitted_text (nat limit)
        else omitted_text)
       reference (map_option xe_code err)"

definition artifactDegraded ::
  "services \<Rightarrow> 'v execution_result \<Rightarrow> string \<Rightarrow> int \<Rightarrow> string \<Rightarrow> 'v execution_result" where
  "artifactDegraded svc r safe limit message =
     (let err = executionError svc ErrorArtifactUnavailable message
      in r\<lparr>xs_artifact_error := Some err, xs_value := artifactPreview safe limit None (Some err)\<rparr>)"

definition artifact_for ::
  "(string \<Rightarrow> string) \<Rightarrow> governor \<Rightarrow> time \<Rightarrow> execution_request \<Rightarrow> string \<Rightarrow> string \<Rightarrow> int \<Rightarrow> tool_artifact" where
  "artifact_for digest g now q encoded redacted n =
     (let content_hash = ToolArtifactContentHash digest redacted
      in \<lparr>ta_id = artifactID digest q content_hash, ta_schema_version = 1, ta_run_id = xr_run_id q,
          ta_stage_id = xr_stage_id q, ta_turn_id = xr_turn_id q, ta_tool_call_id = xr_call_id q,
          ta_tool_name = xr_tool q, ta_revision = xr_revision q, ta_media_type = ''application/json'',
          ta_content_hash = content_hash, ta_original_size = int (length encoded),
          ta_stored_size = int (length redacted), ta_redacted = (n > 0), ta_strategy = ''deterministic-v2'',
          ta_redactions = n, ta_created_at = now, ta_expires_at = Some (now + gv_retention g), ta_expired = False\<rparr>)"

text \<open>\<open>create\<close> is \<open>CreateToolArtifact\<close> on the table; its error has a text.\<close>

definition govern ::
  "'v tool_services \<Rightarrow> governor \<Rightarrow> (tool_artifact \<Rightarrow> string \<Rightarrow> 't \<Rightarrow> (string + tool_artifact) \<times> 't) \<Rightarrow> time
    \<Rightarrow> execution_request \<Rightarrow> 'v execution_result \<Rightarrow> string \<Rightarrow> int \<Rightarrow> 't \<Rightarrow> 'v execution_result \<times> 't" where
  "govern sv g create now q r encoded limit table =
     (let r = r\<lparr>xs_truncated := True, xs_original_bytes := int (length encoded), xs_encoded := []\<rparr>;
          limit = (if limit > 0 then minPositive [limit, gv_preview_bytes g] else limit)
      in case tv_redact_json sv encoded of
           None \<Rightarrow> (artifactDegraded (tv_svc sv) r [] limit ''tool result redaction failed'', table)
         | Some (redacted, n) \<Rightarrow>
             if int (length redacted) > gv_max_bytes g
             then (artifactDegraded (tv_svc sv) r redacted limit
                     (''tool result exceeds artifact limit of '' @ json_int (gv_max_bytes g) @ '' bytes''), table)
             else if \<not> gv_store g
             then (artifactDegraded (tv_svc sv) r redacted limit ''tool artifact store is unavailable'', table)
             else if trim_space (xr_run_id q) = [] \<or> trim_space (xr_call_id q) = []
             then (artifactDegraded (tv_svc sv) r redacted limit ''tool artifact requires run and call identity'', table)
             else
               (case create (artifact_for (tv_digest sv) g now q encoded redacted n) redacted table of
                  (Inl m, table') \<Rightarrow>
                    (artifactDegraded (tv_svc sv) r redacted limit (''persist tool artifact: '' @ m), table')
                | (Inr created, table') \<Rightarrow>
                    (r\<lparr>xs_artifact := Some (Reference created),
                       xs_value := artifactPreview redacted limit (Some (Reference created)) None\<rparr>, table')))"

text \<open>A preview is cut to what is left of a batch; the result is the number of bytes kept.\<close>

definition boundArtifactPreview :: "'v execution_result \<Rightarrow> int \<Rightarrow> 'v execution_result \<times> int" where
  "boundArtifactPreview r limit =
     (case xs_value r of
        Preview preview reference err \<Rightarrow>
          (let bounded = (if limit \<le> 0 then [] else truncateUTF8 preview (min (nat limit) (length preview)))
           in (r\<lparr>xs_value := Preview bounded reference err\<rparr>, int (length bounded)))
      | _ \<Rightarrow> (r, 0))"

end
