(* ===== verification/Artifact_Guarantees.thy ===== *)
theory Artifact_Guarantees
  imports Tool_Artifacts
begin

text \<open>
  What artifacts guarantee: a stored content can be recovered page by page, within bounded reads
  and a bounded number of them; what a JSON client decodes of the pages is the content exactly
  when no page cuts a character.
\<close>

section \<open>Sanitising grows invalid text\<close>

lemma first_rune:
  assumes "s \<noteq> []"
  shows "rune_width (take (max 1 (rune_width s)) s) = rune_width s"
proof (cases "rune_width s = 0")
  case True
  have "rune_width (take 1 s) = 0"
  proof (rule ccontr)
    assume "rune_width (take 1 s) \<noteq> 0"
    then have "rune_width (take 1 s @ drop 1 s) = rune_width (take 1 s)" by (rule rune_width_append)
    then show False using True \<open>rune_width (take 1 s) \<noteq> 0\<close> by simp
  qed
  then show ?thesis using True by simp
next
  case False
  have "rune_width s \<le> length (take (rune_width s) s)" using rune_width_le [of s] by simp
  then have "rune_width (take (rune_width s) s) = rune_width (take (rune_width s) s @ drop (rune_width s) s)"
    by (intro rune_width_take) (use False in simp_all)
  moreover have "max 1 (rune_width s) = rune_width s" using False by simp
  ultimately show ?thesis by simp
qed

lemma sanitize_length:
  "length s \<le> length (sanitize_utf8 s) \<and> (\<not> utf8_valid s \<longrightarrow> length s < length (sanitize_utf8 s))"
proof (induction s rule: runes.induct)
  case (1 s)
  show ?case
  proof (cases "s = []")
    case False
    let ?k = "max 1 (rune_width s)" and ?t = "drop (max 1 (rune_width s)) s"
    let ?head = "if rune_width s = 0 then replacement_rune else take ?k s"
    have san: "sanitize_utf8 s = ?head @ sanitize_utf8 ?t"
      using False first_rune [OF False] by (simp add: sanitize_utf8_def runes.simps [of s])
    have k: "?k \<le> length s" using False rune_width_le [of s] by (cases s) auto
    note ih = "1.IH" [OF False]
    show ?thesis
    proof (cases "rune_width s = 0")
      case True
      then show ?thesis using san ih k by (auto simp: replacement_rune_def)
    next
      case w: False
      then have "?k = rune_width s" by simp
      moreover have "utf8_valid s \<longleftrightarrow> utf8_valid ?t" using w False by (simp add: utf8_valid_step)
      ultimately show ?thesis using san ih k w by auto
    qed
  qed (simp add: sanitize_utf8_def)
qed

lemma sanitize_pages:
  "concat (map sanitize_utf8 ps) = concat ps \<longleftrightarrow> (\<forall>p \<in> set ps. utf8_valid p)"
proof
  assume eq: "concat (map sanitize_utf8 ps) = concat ps"
  have le: "length (concat qs) \<le> length (concat (map sanitize_utf8 qs))" for qs
    using sanitize_length by (induction qs) (simp_all add: add_mono)
  show "\<forall>p \<in> set ps. utf8_valid p"
  proof (rule ccontr)
    assume "\<not> (\<forall>p \<in> set ps. utf8_valid p)"
    then obtain p xs ys where ps: "ps = xs @ p # ys" "\<not> utf8_valid p" by (metis split_list)
    then have "length (concat ps) < length (concat (map sanitize_utf8 ps))"
      using le [of xs] le [of ys] sanitize_length [of p] by simp
    then show False using eq by simp
  qed
qed (induction ps, simp_all add: sanitize_valid)

section \<open>Pages\<close>

text \<open>A client that continues at the next offset, with the limits it asks for.\<close>

fun read_pages ::
  "time \<Rightarrow> string \<Rightarrow> string \<Rightarrow> int list \<Rightarrow> int \<Rightarrow> artifact_table \<Rightarrow> artifact_error + artifact_read list" where
  "read_pages now rid aid [] offset table = Inr []"
| "read_pages now rid aid (limit # limits) offset table =
     bind_result (ReadToolArtifact now rid aid offset limit table)
       (\<lambda>r. bind_result (read_pages now rid aid limits (ard_next_offset r) table) (\<lambda>rs. Inr (r # rs)))"

lemma read_one:
  assumes "getToolArtifact table rid aid = Some (a, content)" and "\<not> ToolArtifactExpired a now"
    and "n \<le> length content" and "limit \<le> MaxToolArtifactReadBytes"
  shows "\<exists>m. n \<le> m \<and> m \<le> length content \<and> (n < length content \<longrightarrow> n < m) \<and> int m - int n \<le> MaxToolArtifactReadBytes
    \<and> ReadToolArtifact now rid aid (int n) limit table =
        Inr \<lparr>ard_artifact = a, ard_offset = int n, ard_content = take (m - n) (drop n content), ard_next_offset = int m,
          ard_complete = (m = length content)\<rparr>"
proof -
  define l where "l = (if limit \<le> 0 then 8192 else limit)"
  define m where "m = nat (min (int (length content)) (int n + l))"
  have l: "0 < l" "l \<le> MaxToolArtifactReadBytes" using assms(4) by (simp_all add: l_def MaxToolArtifactReadBytes_def)
  then have m: "n \<le> m" "m \<le> length content" "n < length content \<longrightarrow> n < m" "int m - int n \<le> MaxToolArtifactReadBytes"
    "int m = min (int (length content)) (int n + l)"
    using assms(3) by (auto simp: m_def)
  have "nat (min (int (length content)) (int n + l) - int n) = m - n" using m(1,5) by simp
  moreover have "(min (int (length content)) (int n + l) = int (length content)) = (m = length content)"
    using m(5) by linarith
  ultimately have "ReadToolArtifact now rid aid (int n) limit table =
      Inr \<lparr>ard_artifact = a, ard_offset = int n, ard_content = take (m - n) (drop n content), ard_next_offset = int m,
        ard_complete = (m = length content)\<rparr>"
    using assms l m(5) by (simp add: ReadToolArtifact_def NormalizeArtifactRead_def l_def Let_def)
  then show ?thesis using m by blast
qed

lemma read_pages_recover:
  assumes "getToolArtifact table rid aid = Some (a, content)" and "\<not> ToolArtifactExpired a now"
    and "n \<le> length content" and "\<forall>l \<in> set limits. l \<le> MaxToolArtifactReadBytes"
    and "length content - n \<le> length limits" and "limits \<noteq> []"
  shows "\<exists>pages. read_pages now rid aid limits (int n) table = Inr pages \<and> pages \<noteq> []
    \<and> concat (map ard_content pages) = drop n content \<and> ard_complete (last pages)
    \<and> (\<forall>p \<in> set pages. int (length (ard_content p)) \<le> MaxToolArtifactReadBytes)"
  using assms(3-6)
proof (induction limits arbitrary: n)
  case (Cons limit limits)
  from read_one [OF assms(1,2) Cons.prems(1), of limit] Cons.prems(2)
  obtain m where m: "n \<le> m" "m \<le> length content" "n < length content \<longrightarrow> n < m"
    "int m - int n \<le> MaxToolArtifactReadBytes"
    and r: "ReadToolArtifact now rid aid (int n) limit table =
      Inr \<lparr>ard_artifact = a, ard_offset = int n, ard_content = take (m - n) (drop n content), ard_next_offset = int m,
        ard_complete = (m = length content)\<rparr>" by auto
  have size: "int (length (take (m - n) (drop n content))) \<le> MaxToolArtifactReadBytes" using m by simp
  show ?case
  proof (cases "limits = []")
    case True
    then have "m = length content" using Cons.prems(1,3) m by auto
    then show ?thesis using True r size by simp
  next
    case False
    have "length content - m \<le> length limits" using Cons.prems(1,3) m by (cases "n < length content") auto
    from Cons.IH [OF m(2) _ this False] Cons.prems(2) obtain pages where p:
      "read_pages now rid aid limits (int m) table = Inr pages" "pages \<noteq> []"
      "concat (map ard_content pages) = drop m content" "ard_complete (last pages)"
      "\<forall>p \<in> set pages. int (length (ard_content p)) \<le> MaxToolArtifactReadBytes" by auto
    have "take (m - n) (drop n content) @ drop m content = drop n content"
      using append_take_drop_id [of "m - n" "drop n content"] m(1) by simp
    then show ?thesis using p r size by simp
  qed
qed simp

lemma created_found:
  assumes "CreateToolArtifact digest leaks run_exists a content table = (Inr a', table')"
    and "ta_id a \<notin> ta_id ` fst ` set table"
  shows "getToolArtifact (table' @ later) (ta_run_id a) (ta_id a) = Some (a', content)
    \<and> ta_expires_at a' = ta_expires_at a"
proof -
  have none: "getToolArtifact table (ta_run_id a) (ta_id a) = None"
    using assms(2) by (simp add: getToolArtifact_def find_None_iff) (metis fst_conv image_eqI)
  have app: "getToolArtifact (xs @ ys) r i = (case getToolArtifact xs r i of None \<Rightarrow> getToolArtifact ys r i | Some z \<Rightarrow> Some z)"
    for xs ys r i by (induction xs) (auto simp: getToolArtifact_def)
  have t: "table' = table @ [(a\<lparr>ta_expired := False\<rparr>, content)]" "a' = a\<lparr>ta_expired := False\<rparr>"
    using assms none by (auto simp: CreateToolArtifact_def insert_artifact_def app Let_def getToolArtifact_def [of "[_]"]
        split: option.splits if_splits)
  then show ?thesis using none by (simp add: app) (simp add: getToolArtifact_def)
qed

section \<open>Guarantees\<close>

text \<open>
  C33: A created artifact is recovered by a client that follows the offsets it is given: within
  reads of at most 64 KiB, and after at most one read per byte, it holds the content. A client that
  decodes the pages from JSON holds it exactly when every page is valid UTF-8, and so may not: the
  limits are in bytes and a page may end inside a character.
\<close>

theorem artifact_pages_recover:
  assumes "CreateToolArtifact digest leaks run_exists a content table = (Inr a', table')"
    and "ta_id a \<notin> ta_id ` fst ` set table" and "\<not> ToolArtifactExpired a now"
    and "limits \<noteq> []" and "\<forall>l \<in> set limits. l \<le> MaxToolArtifactReadBytes"
    and "length content \<le> length limits"
  shows "\<exists>pages. read_pages now (ta_run_id a) (ta_id a) limits 0 (table' @ later) = Inr pages
    \<and> concat (map ard_content pages) = content \<and> ard_complete (last pages)
    \<and> (\<forall>p \<in> set pages. int (length (ard_content p)) \<le> MaxToolArtifactReadBytes)
    \<and> (concat (map delivered pages) = content \<longleftrightarrow> (\<forall>p \<in> set pages. utf8_valid (ard_content p)))"
proof -
  have found: "getToolArtifact (table' @ later) (ta_run_id a) (ta_id a) = Some (a', content)"
    and "ta_expires_at a' = ta_expires_at a" using created_found [OF assms(1,2), of later] by auto
  then have "\<not> ToolArtifactExpired a' now" using assms(3) by (simp add: ToolArtifactExpired_def)
  from read_pages_recover [OF found this, of 0 limits] assms(4-6) obtain pages where p:
    "read_pages now (ta_run_id a) (ta_id a) limits 0 (table' @ later) = Inr pages"
    "concat (map ard_content pages) = content" "ard_complete (last pages)"
    "\<forall>p \<in> set pages. int (length (ard_content p)) \<le> MaxToolArtifactReadBytes" by auto
  moreover have "concat (map delivered pages) = content \<longleftrightarrow> (\<forall>p \<in> set pages. utf8_valid (ard_content p))"
    using sanitize_pages [of "map ard_content pages"] p(2) by (simp add: delivered_def [abs_def] comp_def)
  ultimately show ?thesis by blast
qed

text \<open>A page of two bytes cuts a two-byte character; the decoded pages are not the content.\<close>

definition sample_content :: string where
  "sample_content = [CHR 0x22, CHR 0xC3, CHR 0xA9, CHR 0x22]"

definition sample_artifact :: tool_artifact where
  "sample_artifact = \<lparr>ta_id = ''a'', ta_schema_version = 1, ta_run_id = ''r'', ta_stage_id = ''s'', ta_turn_id = ''t'',
     ta_tool_call_id = ''c'', ta_tool_name = ''web'', ta_revision = ''1'', ta_media_type = ''application/json'',
     ta_content_hash = ''sha256:'', ta_original_size = 4, ta_stored_size = 4, ta_redacted = False,
     ta_strategy = ''deterministic-v2'', ta_redactions = 0, ta_created_at = 5, ta_expires_at = Some 9, ta_expired = False\<rparr>"

lemma sample_created:
  "CreateToolArtifact (\<lambda>s. []) (\<lambda>s. False) (\<lambda>r. True) sample_artifact sample_content [] =
     (Inr sample_artifact, [(sample_artifact, sample_content)])"
  by code_simp

lemma artifact_pages_recover_witness:
  "\<exists>pages. read_pages 6 ''r'' ''a'' [2, 2, 2, 2] 0 [(sample_artifact, sample_content)] = Inr pages
    \<and> concat (map ard_content pages) = sample_content \<and> concat (map delivered pages) \<noteq> sample_content"
proof -
  have pages: "map ard_content (projr (read_pages 6 ''r'' ''a'' [2, 2, 2, 2] 0 [(sample_artifact, sample_content)])) =
      [[CHR 0x22, CHR 0xC3], [CHR 0xA9, CHR 0x22], [], []]" by code_simp
  have invalid: "\<not> utf8_valid [CHR 0x22, CHR 0xC3]" by code_simp
  have ids: "ta_run_id sample_artifact = ''r''" "ta_id sample_artifact = ''a''" by (simp_all add: sample_artifact_def)
  have "\<not> ToolArtifactExpired sample_artifact 6" by code_simp
  from artifact_pages_recover [OF sample_created _ this, of "[2, 2, 2, 2]" "[]"]
  obtain pages where p: "read_pages 6 ''r'' ''a'' [2, 2, 2, 2] 0 [(sample_artifact, sample_content)] = Inr pages"
    "concat (map ard_content pages) = sample_content"
    "concat (map delivered pages) = sample_content \<longleftrightarrow> (\<forall>p \<in> set pages. utf8_valid (ard_content p))"
    by (auto simp: ids MaxToolArtifactReadBytes_def sample_content_def)
  have "[CHR 0x22, CHR 0xC3] \<in> ard_content ` set pages" using pages p(1) by (metis list.set_intros(1) projr_def list.set_map sum.case(2) sum.sel(2))
  then show ?thesis using p invalid by auto
qed

end
