(* ===== verification/Tool_Executor.thy ===== *)
theory Tool_Executor
  imports Tool_Artifacts Effect_Journal Budget_Ledger
begin

text \<open>
  The tool executor (\<open>tool/executor.go\<close>, \<open>tool/executor_effects.go\<close>, \<open>tool/executor_security.go\<close>,
  \<open>tool/progress_guard.go\<close>): the pipeline of one call. It composes the argument contract, the
  security policy, the progress guard, the usage ledger, the effect journal, the handler and the
  artifact governor. The handler and everything that other goroutines and processes do to the
  store meanwhile belong to the world of the call. Live progress messages are not modelled.
\<close>

section \<open>The executor\<close>

text \<open>\<open>tr_policy\<close> and \<open>tr_progress\<close>: the optional interfaces that the tracer implements.\<close>

record tracer =
  tr_policy :: bool
  tr_progress :: bool

record executor_options =
  eo_plan_only :: bool
  eo_authorize :: "(execution_request \<Rightarrow> tool_scope \<Rightarrow> authorization) option"
  eo_timeout :: int
  eo_max_result :: int
  eo_private :: bool
  eo_credentials :: "string list"
  eo_tracer :: "tracer option"
  eo_max_concurrency :: int
  eo_journal :: bool
  eo_store :: bool
  eo_max_batch :: int
  eo_max_artifact :: int
  eo_preview :: int
  eo_retention :: int

record executor =
  ex_plan_only :: bool
  ex_authorize :: "(execution_request \<Rightarrow> tool_scope \<Rightarrow> authorization) option"
  ex_resolve :: "string \<rightharpoonup> binding"
  ex_policy :: security_policy
  ex_timeout :: int
  ex_max_result :: int
  ex_credentials :: "string list"
  ex_tracer :: "tracer option"
  ex_max_concurrency :: int
  ex_journal :: bool
  ex_governor :: governor
  ex_max_batch :: int

definition positive_or :: "int \<Rightarrow> int \<Rightarrow> int" where
  "positive_or d n = (if n \<le> 0 then d else n)"

definition newResultArtifactGovernor :: "executor_options \<Rightarrow> governor" where
  "newResultArtifactGovernor o1 =
     \<lparr>gv_store = eo_store o1, gv_max_bytes = positive_or 5242880 (eo_max_artifact o1),
      gv_preview_bytes = positive_or 1000 (eo_preview o1),
      gv_retention = positive_or 604800000000000 (eo_retention o1)\<rparr>"

text \<open>The private-data flag starts as \<open>eo_private\<close>; it lives in the state.\<close>

definition NewExecutor :: "(string \<rightharpoonup> binding) \<Rightarrow> security_policy \<Rightarrow> executor_options \<Rightarrow> executor" where
  "NewExecutor resolve policy o1 =
     \<lparr>ex_plan_only = eo_plan_only o1, ex_authorize = eo_authorize o1, ex_resolve = resolve,
      ex_policy = NormalizePolicy policy, ex_timeout = positive_or 30000000000 (eo_timeout o1),
      ex_max_result = positive_or 20000 (eo_max_result o1), ex_credentials = eo_credentials o1,
      ex_tracer = eo_tracer o1, ex_max_concurrency = positive_or 4 (eo_max_concurrency o1),
      ex_journal = eo_journal o1, ex_governor = newResultArtifactGovernor o1,
      ex_max_batch = positive_or 8000 (eo_max_batch o1)\<rparr>"

record tool_state =
  tx_store :: run_store
  tx_usage :: "usage_entry list"
  tx_artifacts :: artifact_table
  tx_guard :: "guard option"
  tx_private :: bool

section \<open>The world of one call\<close>

text \<open>
  How the wait for the handler ends: the context is done first, or the handler returns an error (of
  the executor's own type, or with a text; a panic is a text) or a value.
\<close>

datatype 'v handler_end =
    Interrupted
  | HandlerTyped execution_error
  | HandlerFailed string
  | HandlerReturned 'v

datatype moment = AtBegin | AtHandler | AtComplete | AtSuspend | AtList

text \<open>
  \<open>cw_others\<close> is what happened to the store since the previous moment: \<open>AtHandler\<close> includes what the
  handler itself did. A handler that was interrupted may go on running; what it still does belongs
  to later moments and calls.
\<close>

record 'v call_world =
  cw_others :: "moment \<Rightarrow> run_store \<Rightarrow> run_store"
  cw_time :: "moment \<Rightarrow> time"
  cw_audit_error :: "string option"
  cw_tracker :: "tracker option"
  cw_purpose :: usage_purpose
  cw_operation :: string
  cw_usage_id :: string
  cw_visit :: "(string \<times> usage_entry) list \<Rightarrow> (string \<times> usage_entry) list"
  cw_canceled :: bool
  cw_deadline :: bool
  cw_end :: "'v handler_end"
  cw_elapsed :: int

text \<open>The texts of errors of the store, the budget and an availability check.\<close>

record error_texts =
  et_effect :: "effect_error \<Rightarrow> string"
  et_usage :: "usage_error \<Rightarrow> string"
  et_artifact :: "artifact_error \<Rightarrow> string"
  et_available :: "string \<Rightarrow> string"
  et_leaks :: "string \<Rightarrow> bool"

datatype 'v tool_note =
    StartedNote execution_request
  | PolicyNote execution_request decision
  | ProgressNote execution_request guard_decision
  | UsageNote notice
  | InvokedNote execution_request string
  | FinishedNote "'v execution_result"

section \<open>Security\<close>

definition security_call_of ::
  "'v tool_services \<Rightarrow> executor \<Rightarrow> execution_request \<Rightarrow> binding \<Rightarrow> bool \<Rightarrow> security_call" where
  "security_call_of sv ex q b private =
     \<lparr>sec_policy = ex_policy ex, sec_tool = xr_tool q, sec_declared = bd_security b,
      sec_resolved = map_option (\<lambda>resolve. resolve (xr_arguments q)) (bd_resolve_scope b),
      sec_credentials = xr_credentials q, sec_private = private, sec_clean = tv_clean sv (xr_arguments q),
      sec_authorize = map_option (\<lambda>authorize. authorize q) (ex_authorize ex)\<rparr>"

text \<open>The message of a denial: resolving the scope failed, the policy denied, or the Workspace did.\<close>

definition security_message :: "error_texts \<Rightarrow> security_call \<Rightarrow> decision \<Rightarrow> string" where
  "security_message et x d =
     (case sec_resolved x of
        Some (Inl e) \<Rightarrow> ''Tool security scope could not be resolved''
      | resolved \<Rightarrow>
          (let scope = (case resolved of Some (Inr s) \<Rightarrow> s | _ \<Rightarrow> cap_scope (sec_declared x))
           in if dec_allowed (guard_egress x (Evaluate (sec_policy x) (security_request x scope)))
              then ''Tool call denied by current Workspace authorization''
                   @ (case sec_authorize x of
                        Some authorize \<Rightarrow>
                          (case authorize scope of Unavailable reason \<Rightarrow> '': '' @ et_available et reason | _ \<Rightarrow> [])
                      | None \<Rightarrow> [])
              else ''Tool call denied by security policy: '' @ dec_reason d))"

definition evaluate_security ::
  "'v tool_services \<Rightarrow> error_texts \<Rightarrow> executor \<Rightarrow> execution_request \<Rightarrow> binding \<Rightarrow> bool
    \<Rightarrow> decision \<times> execution_error option" where
  "evaluate_security sv et ex q b private =
     (let x = security_call_of sv ex q b private; (d, code) = evaluateSecurity x
      in (d, map_option (\<lambda>c. executionError (tv_svc sv) (ErrorSecurity c) (security_message et x d)) code))"

definition implements :: "executor \<Rightarrow> (tracer \<Rightarrow> bool) \<Rightarrow> bool" where
  "implements ex interface = (case ex_tracer ex of None \<Rightarrow> False | Some t \<Rightarrow> interface t)"

text \<open>The error of the audit, and the decision that reached the tracer.\<close>

definition tracePolicyDecision ::
  "executor \<Rightarrow> 'v call_world \<Rightarrow> execution_request \<Rightarrow> decision \<Rightarrow> string option \<times> 'v tool_note list" where
  "tracePolicyDecision ex w q d =
     (if implements ex tr_policy then (cw_audit_error w, [PolicyNote q d])
      else if AuditRequired d then (Some ''Tool policy decision tracer is unavailable'', [])
      else (None, []))"

section \<open>The progress guard\<close>

definition fallbackArgumentsHash :: "'v tool_services \<Rightarrow> string \<Rightarrow> string" where
  "fallbackArgumentsHash sv arguments =
     (let normalized = normalizeArguments arguments
      in tv_digest sv (case tv_compact sv normalized of Some c \<Rightarrow> c | None \<Rightarrow> normalized))"

definition progressCall :: "'v tool_services \<Rightarrow> execution_request \<Rightarrow> binding option \<Rightarrow> progress_call" where
  "progressCall sv q b =
     (let source = trim_space (cap_source (security_of b))
      in \<lparr>pc_source = (if source = [] then ''catalog'' else source), pc_tool = xr_tool q,
          pc_revision = xr_revision q,
          pc_arguments_hash =
            (if xr_arguments_hash q = [] then fallbackArgumentsHash sv (xr_arguments q) else xr_arguments_hash q)\<rparr>)"

definition progress_notes :: "executor \<Rightarrow> execution_request \<Rightarrow> guard_decision \<Rightarrow> 'v tool_note list" where
  "progress_notes ex q d = (if implements ex tr_progress then [ProgressNote q d] else [])"

text \<open>The first component: whether the call is blocked.\<close>

definition applyProgressBefore ::
  "'v tool_services \<Rightarrow> executor \<Rightarrow> execution_request \<Rightarrow> progress_call \<Rightarrow> 'v execution_result \<Rightarrow> tool_state
    \<Rightarrow> bool \<times> 'v execution_result \<times> tool_state \<times> 'v tool_note list" where
  "applyProgressBefore sv ex q c r st =
     (if tx_guard st = None then (False, r, st, [])
      else
        (let (d, g) = Before (tv_digest sv) (tx_guard st) c; st = st\<lparr>tx_guard := g\<rparr>
         in if gd_action d \<noteq> GuardBlockCall \<and> gd_action d \<noteq> GuardHaltTurn then (False, r, st, [])
            else
              (True,
               r\<lparr>xs_progress := Some d,
                 xs_error := Some
                   (if gd_action d = GuardHaltTurn
                    then executionError (tv_svc sv) ErrorNoProgress
                      ''Turn halted because blocked Tool calls continued without progress''
                    else executionError (tv_svc sv) ErrorProgressBlocked
                      ''Tool call blocked because it repeated without progress'')\<rparr>,
               st, progress_notes ex q d)))"

definition progressTrackableError :: "error_code \<Rightarrow> bool" where
  "progressTrackableError c \<longleftrightarrow> c \<in> {ErrorToolNotFound, ErrorInvalidArgs, ErrorExecutionFailed,
     ErrorExecutionTimeout, ErrorResultEncoding}"

definition progress_outcome_of :: "binding option \<Rightarrow> 'v execution_result \<Rightarrow> progress_outcome" where
  "progress_outcome_of b r =
     (let tracked = (case xs_error r of Some e \<Rightarrow> progressTrackableError (xe_code e) | None \<Rightarrow> False);
          code = (case xs_error r of Some e \<Rightarrow> xe_code e | None \<Rightarrow> ErrorCodeOther [])
      in \<lparr>po_error_code = (if tracked then error_code_text code else []),
          po_error_category = (if tracked then failure_category code else []),
          po_result = xs_encoded r,
          po_read_only = (case b of None \<Rightarrow> False | Some x \<Rightarrow> bd_concurrency x = ConcurrencyReadOnly
            \<and> \<not> RequiresJournal (bd_security x)),
          po_successful_write = (xs_error r = None \<and> RequiresJournal (security_of b))\<rparr>)"

definition observeProgress ::
  "'v tool_services \<Rightarrow> executor \<Rightarrow> execution_request \<Rightarrow> binding option \<Rightarrow> progress_call \<Rightarrow> 'v execution_result
    \<Rightarrow> tool_state \<Rightarrow> 'v execution_result \<times> tool_state \<times> 'v tool_note list" where
  "observeProgress sv ex q b c r st =
     (if tx_guard st = None \<or> xs_progress r \<noteq> None then (r, st, [])
      else
        (let (d, g) = Observe (tv_digest sv) (tx_guard st) c (progress_outcome_of b r);
             r = r\<lparr>xs_progress := Some d\<rparr>; st = st\<lparr>tx_guard := g\<rparr>
         in if gd_action d = GuardWarn then (r\<lparr>xs_warning := gd_reason d\<rparr>, st, progress_notes ex q d)
            else (r, st, [])))"

section \<open>The effect journal\<close>

definition hashExecutionIdentity :: "(string \<Rightarrow> string) \<Rightarrow> string list \<Rightarrow> string" where
  "hashExecutionIdentity digest parts = digest (separated [CHR 0x00] parts)"

definition sideEffectKey :: "(string \<Rightarrow> string) \<Rightarrow> execution_request \<Rightarrow> string" where
  "sideEffectKey digest q =
     ''tool_effect_'' @ hashExecutionIdentity digest
       (if trim_space (xr_stage_id q) = [] then [xr_run_id q, ''turn'', xr_turn_id q, xr_call_id q, xr_tool q]
        else [xr_run_id q, xr_stage_id q, xr_call_id q, xr_tool q])"

definition sideEffectRequestHash :: "(string \<Rightarrow> string) \<Rightarrow> execution_request \<Rightarrow> string" where
  "sideEffectRequestHash digest q =
     (if xr_arguments_hash q \<noteq> [] then xr_arguments_hash q
      else hashExecutionIdentity digest [xr_tool q, normalizeArguments (xr_arguments q)])"

definition effect_key :: "(string \<Rightarrow> string) \<Rightarrow> execution_request \<Rightarrow> string" where
  "effect_key digest q =
     (let key = trim_space (xr_key q) in if key = [] then sideEffectKey digest q else key)"

definition effect_of :: "(string \<Rightarrow> string) \<Rightarrow> execution_request \<Rightarrow> tool_effect" where
  "effect_of digest q =
     \<lparr>eff_key = effect_key digest q, eff_version = 0, eff_run_id = xr_run_id q, eff_stage_id = xr_stage_id q,
      eff_turn_id = xr_turn_id q, eff_tool_call_id = xr_call_id q, eff_tool_name = xr_tool q,
      eff_revision = xr_revision q, eff_request_hash = sideEffectRequestHash digest q,
      eff_status = ToolEffectPrepared, eff_result = [], eff_error = [], eff_created_at = 0, eff_updated_at = 0\<rparr>"

definition with_error :: "'v tool_services \<Rightarrow> error_code \<Rightarrow> string \<Rightarrow> 'v execution_result \<Rightarrow> 'v execution_result" where
  "with_error sv code message r = r\<lparr>xs_error := Some (executionError (tv_svc sv) code message)\<rparr>"

text \<open>The result for an effect that was begun before.\<close>

definition replay_effect ::
  "'v tool_services \<Rightarrow> execution_request \<Rightarrow> tool_effect \<Rightarrow> 'v execution_result \<Rightarrow> 'v execution_result" where
  "replay_effect sv q e r =
     (if eff_status e = ToolEffectFailed
      then with_error sv ErrorExecutionFailed ''side effect was confirmed failed and cannot replay this Tool Call'' r
      else if eff_status e = ToolEffectCompensated
      then with_error sv ErrorExecutionFailed ''side effect was compensated and cannot replay this Tool Call'' r
      else if eff_status e \<noteq> ToolEffectCommitted
      then with_error sv ErrorEffectReconciliation
             ''side effect has an uncertain prior attempt and requires reconciliation'' r
      else
        (case tv_unmarshal_result sv (eff_result e) of
           None \<Rightarrow> with_error sv ErrorEffectJournal ''decode committed side-effect result'' r
         | Some replayed \<Rightarrow>
             replayed\<lparr>xs_revision := xr_revision q, xs_arguments_hash := xr_arguments_hash q, xs_replayed := True\<rparr>))"

text \<open>The key, whether the handler is to run, the result so far, and the state.\<close>

definition beginSideEffect ::
  "'v tool_services \<Rightarrow> error_texts \<Rightarrow> executor \<Rightarrow> 'v call_world \<Rightarrow> execution_request \<Rightarrow> side_effect_mode
    \<Rightarrow> 'v execution_result \<Rightarrow> tool_state \<Rightarrow> string \<times> bool \<times> 'v execution_result \<times> tool_state" where
  "beginSideEffect sv et ex w q mode r st =
     (if \<not> ex_journal ex
      then ([], False, with_error sv ErrorIdempotencyRequired
              ''side-effect tool requires a durable effect journal'' r, st)
      else if trim_space (xr_run_id q) = [] \<or> (trim_space (xr_stage_id q) = [] \<and> trim_space (xr_turn_id q) = [])
         \<or> trim_space (xr_call_id q) = []
      then ([], False, with_error sv ErrorIdempotencyRequired
              (journal_mode_text mode @ '' side-effect tool requires run, stage or turn, and call identity'') r, st)
      else
        (let key = effect_key (tv_digest sv) q; before = cw_others w AtBegin (tx_store st)
         in case BeginToolEffect (cw_time w AtBegin) (effect_of (tv_digest sv) q) before of
              Inl e \<Rightarrow>
                (key, False, with_error sv ErrorEffectJournal (''prepare side-effect journal: '' @ et_effect et e) r,
                 st\<lparr>tx_store := before\<rparr>)
            | Inr ((e, execute), after) \<Rightarrow>
                (key, execute, if execute then r else replay_effect sv q e r, st\<lparr>tx_store := after\<rparr>)))"

definition markSideEffectUncertain ::
  "executor \<Rightarrow> 'v call_world \<Rightarrow> string \<Rightarrow> string \<Rightarrow> tool_state \<Rightarrow> tool_state" where
  "markSideEffectUncertain ex w key message st =
     (if key = [] \<or> \<not> ex_journal ex then st
      else
        (let before = cw_others w AtSuspend (tx_store st)
         in case MarkToolEffectNeedsReconciliation message (cw_time w AtSuspend) key before of
              Inl e \<Rightarrow> st\<lparr>tx_store := before\<rparr>
            | Inr (e, after) \<Rightarrow> st\<lparr>tx_store := after\<rparr>))"

definition effectWasRejected :: "executor \<Rightarrow> 'v call_world \<Rightarrow> execution_request \<Rightarrow> string \<Rightarrow> tool_state \<Rightarrow> bool" where
  "effectWasRejected ex w q key st =
     (if \<not> ex_journal ex \<or> key = [] then False
      else
        (case find (\<lambda>e. eff_key e = key) (ListToolEffects (cw_others w AtList (tx_store st)) (xr_run_id q)) of
           None \<Rightarrow> False
         | Some e \<Rightarrow> eff_status e = ToolEffectFailed \<and> eff_request_hash e = xr_arguments_hash q
             \<and> eff_tool_name e = xr_tool q \<and> eff_stage_id e = xr_stage_id q \<and> eff_turn_id e = xr_turn_id q
             \<and> eff_tool_call_id e = xr_call_id q))"

section \<open>Running the handler\<close>

text \<open>An error after the handler has started: the effect is marked uncertain.\<close>

definition uncertain ::
  "'v tool_services \<Rightarrow> executor \<Rightarrow> 'v call_world \<Rightarrow> string \<Rightarrow> error_code \<Rightarrow> string \<Rightarrow> 'v execution_result
    \<Rightarrow> tool_state \<Rightarrow> 'v execution_result \<times> tool_state" where
  "uncertain sv ex w key code message r st =
     (let r = with_error sv code message r in (r, markSideEffectUncertain ex w key (ErrorMessage r) st))"

definition create_artifact ::
  "'v tool_services \<Rightarrow> error_texts \<Rightarrow> tool_artifact \<Rightarrow> string \<Rightarrow> tool_state
    \<Rightarrow> (string + tool_artifact) \<times> tool_state" where
  "create_artifact sv et a content st =
     (let (x, table) = CreateToolArtifact (tv_digest sv) (et_leaks et) (\<lambda>i. get_run (tx_store st) i \<noteq> None)
            a content (tx_artifacts st)
      in (map_error (et_artifact et) x, st\<lparr>tx_artifacts := table\<rparr>))"

definition govern_result ::
  "'v tool_services \<Rightarrow> error_texts \<Rightarrow> executor \<Rightarrow> time \<Rightarrow> execution_request \<Rightarrow> 'v execution_result \<Rightarrow> string
    \<Rightarrow> int \<Rightarrow> tool_state \<Rightarrow> 'v execution_result \<times> tool_state" where
  "govern_result sv et ex now = govern sv (ex_governor ex) (create_artifact sv et) now"

text \<open>The result of an effect is committed before it is returned.\<close>

definition persist_effect ::
  "'v tool_services \<Rightarrow> error_texts \<Rightarrow> executor \<Rightarrow> 'v call_world \<Rightarrow> string \<Rightarrow> 'v execution_result \<Rightarrow> tool_state
    \<Rightarrow> 'v execution_result \<times> tool_state" where
  "persist_effect sv et ex w key r st =
     (case tv_marshal_result sv r of
        None \<Rightarrow> uncertain sv ex w key ErrorEffectJournal ''encode side-effect result'' r st
      | Some encoded \<Rightarrow>
          (case tv_redact_json sv encoded of
             None \<Rightarrow> uncertain sv ex w key ErrorEffectJournal ''redact side-effect result'' r st
           | Some (persisted, n) \<Rightarrow>
               (let before = cw_others w AtComplete (tx_store st)
                in case CompleteToolEffect persisted (cw_time w AtComplete) key before of
                     Inl e \<Rightarrow>
                       uncertain sv ex w key ErrorEffectJournal (''commit side-effect journal: '' @ et_effect et e) r
                         (st\<lparr>tx_store := before\<rparr>)
                   | Inr (e, after) \<Rightarrow> (r, st\<lparr>tx_store := after\<rparr>))))"

text \<open>What is done with the value that the handler returned.\<close>

definition keep_value ::
  "'v tool_services \<Rightarrow> error_texts \<Rightarrow> executor \<Rightarrow> 'v call_world \<Rightarrow> execution_request \<Rightarrow> string \<Rightarrow> int \<Rightarrow> 'v
    \<Rightarrow> 'v execution_result \<Rightarrow> tool_state \<Rightarrow> 'v execution_result \<times> tool_state" where
  "keep_value sv et ex w q key max_result v r st =
     (case tv_marshal sv v of
        None \<Rightarrow> uncertain sv ex w key ErrorResultEncoding ''tool result is not JSON-compatible'' r st
      | Some encoded \<Rightarrow>
          (let r = r\<lparr>xs_encoded := encoded\<rparr>;
               (r, st) = (if int (length encoded) > max_result
                          then govern_result sv et ex (cw_time w AtComplete) q r encoded max_result st
                          else (r\<lparr>xs_value := Value v\<rparr>, st))
           in if key = [] then (r, st) else persist_effect sv et ex w key r st))"

text \<open>A failed handler: was the failure settled durably, so that nothing was applied?\<close>

definition handler_failed ::
  "'v tool_services \<Rightarrow> executor \<Rightarrow> 'v call_world \<Rightarrow> execution_request \<Rightarrow> string \<Rightarrow> error_code \<Rightarrow> string
    \<Rightarrow> 'v execution_result \<Rightarrow> tool_state \<Rightarrow> 'v execution_result \<times> tool_state" where
  "handler_failed sv ex w q key code message r st =
     (let (r, st) = uncertain sv ex w key code message r st
      in (r\<lparr>xs_not_applied := effectWasRejected ex w q key st\<rparr>,
          st\<lparr>tx_store := cw_others w AtList (tx_store st)\<rparr>))"

definition run_handler ::
  "'v tool_services \<Rightarrow> error_texts \<Rightarrow> executor \<Rightarrow> 'v call_world \<Rightarrow> execution_request \<Rightarrow> string \<Rightarrow> int \<Rightarrow> int
    \<Rightarrow> 'v execution_result \<Rightarrow> tool_state \<Rightarrow> 'v execution_result \<times> tool_state" where
  "run_handler sv et ex w q key timeout max_result r st =
     (let st = st\<lparr>tx_store := cw_others w AtHandler (tx_store st)\<rparr>;
          timed_out = ''tool execution exceeded '' @ tv_duration sv timeout
      in case cw_end w of
           Interrupted \<Rightarrow>
             if cw_canceled w then uncertain sv ex w key ErrorExecutionCanceled ''tool execution canceled'' r st
             else uncertain sv ex w key ErrorExecutionTimeout timed_out r st
         | HandlerReturned v \<Rightarrow> keep_value sv et ex w q key max_result v r st
         | failure \<Rightarrow>
             if cw_canceled w then handler_failed sv ex w q key ErrorExecutionCanceled ''tool execution canceled'' r st
             else if cw_deadline w then handler_failed sv ex w q key ErrorExecutionTimeout timed_out r st
             else
               (case failure of
                  HandlerTyped e \<Rightarrow> handler_failed sv ex w q key (xe_code e) (xe_message e) r st
                | HandlerFailed message \<Rightarrow> handler_failed sv ex w q key ErrorExecutionFailed message r st
                | _ \<Rightarrow> (r, st)))"

definition effective :: "int \<Rightarrow> int \<Rightarrow> int" where
  "effective override default_value = (if override > 0 then override else default_value)"

section \<open>One call\<close>

definition charge_budget ::
  "'v call_world \<Rightarrow> execution_request \<Rightarrow> tool_state \<Rightarrow> usage_error option \<times> tool_state \<times> 'v tool_note list" where
  "charge_budget w q st =
     (case cw_tracker w of
        None \<Rightarrow> (None, st, [])
      | Some t \<Rightarrow>
          (let (err, table, notices) = RecordToolCall (cw_visit w) (get_run (tx_store st)) t (cw_operation w)
                 (cw_usage_id w) (cw_time w AtBegin) (xr_call_id q) (cw_purpose w) (xr_tool q) (tx_usage st)
           in (err, st\<lparr>tx_usage := table\<rparr>, map UsageNote notices)))"

text \<open>The call once it is authorized and the guard has let it pass.\<close>

definition execute_allowed ::
  "'v tool_services \<Rightarrow> error_texts \<Rightarrow> executor \<Rightarrow> 'v call_world \<Rightarrow> execution_request \<Rightarrow> binding
    \<Rightarrow> 'v execution_result \<Rightarrow> tool_state \<Rightarrow> 'v execution_result \<times> tool_state \<times> 'v tool_note list" where
  "execute_allowed sv et ex w q b r st =
     (let (err, st, charged) = charge_budget w q st;
          timeout = effective (bd_timeout b) (ex_timeout ex); limit = effective (bd_max_result b) (ex_max_result ex)
      in case err of
           Some e \<Rightarrow> (with_error sv ErrorBudgetExceeded (et_usage et e) r, st, charged)
         | None \<Rightarrow>
             (case JournalMode (bd_security b) of
                None \<Rightarrow>
                  (let (r, st) = run_handler sv et ex w q [] timeout limit r st
                   in (r, st, charged @ [InvokedNote q []]))
              | Some mode \<Rightarrow>
                  (let (key, execute, r, st) = beginSideEffect sv et ex w q mode r st
                   in if xs_error r \<noteq> None \<or> \<not> execute then (r, st, charged)
                      else
                        (let (r, st) = run_handler sv et ex w q key timeout limit r st
                         in (r, st, charged @ [InvokedNote q key])))))"

text \<open>\<open>ProtectPrivateData\<close> when the decision covers private resources.\<close>

definition protect_private ::
  "decision \<Rightarrow> 'v execution_result \<Rightarrow> tool_state \<Rightarrow> 'v execution_result \<times> tool_state" where
  "protect_private d r st =
     (if UsesPrivateResources (dec_capability d) then (r\<lparr>xs_private := True\<rparr>, st\<lparr>tx_private := True\<rparr>) else (r, st))"

text \<open>The call between the two uses of the progress guard.\<close>

definition execute_guarded ::
  "'v tool_services \<Rightarrow> error_texts \<Rightarrow> executor \<Rightarrow> 'v call_world \<Rightarrow> execution_request \<Rightarrow> binding
    \<Rightarrow> 'v execution_result \<Rightarrow> tool_state \<Rightarrow> 'v execution_result \<times> tool_state \<times> 'v tool_note list" where
  "execute_guarded sv et ex w q b r st =
     (let c = progressCall sv q (Some b); (blocked, r, st, before) = applyProgressBefore sv ex q c r st
      in if blocked then (r, st, before)
         else
           (let (r, st, notes) = execute_allowed sv et ex w q b r st;
                (r, st, observed) = observeProgress sv ex q (Some b) c r st
            in (r, st, notes @ observed)))"

text \<open>The call of a tool whose arguments satisfy its contract.\<close>

definition execute_checked ::
  "'v tool_services \<Rightarrow> error_texts \<Rightarrow> executor \<Rightarrow> 'v call_world \<Rightarrow> execution_request \<Rightarrow> binding
    \<Rightarrow> 'v execution_result \<Rightarrow> tool_state \<Rightarrow> 'v execution_result \<times> tool_state \<times> 'v tool_note list" where
  "execute_checked sv et ex w q b r st =
     (let (d, denial) = evaluate_security sv et ex q b (tx_private st); r = r\<lparr>xs_policy := Some d\<rparr>;
          (audit, traced) = tracePolicyDecision ex w q d
      in case denial of
           Some e \<Rightarrow> (r\<lparr>xs_error := Some e\<rparr>, st, traced)
         | None \<Rightarrow>
             if AuditRequired d \<and> audit \<noteq> None
             then (with_error sv ErrorSecurityAudit ''required Tool security audit could not be persisted'' r, st, traced)
             else
               (let (r, st) = protect_private d r st; (r, st, notes) = execute_guarded sv et ex w q b r st
                in (r, st, traced @ notes)))"

definition execute_prepared ::
  "'v tool_services \<Rightarrow> error_texts \<Rightarrow> executor \<Rightarrow> 'v call_world \<Rightarrow> execution_request \<Rightarrow> binding option
    \<Rightarrow> 'v execution_result \<Rightarrow> tool_state \<Rightarrow> 'v execution_result \<times> tool_state \<times> 'v tool_note list" where
  "execute_prepared sv et ex w q b r st =
     (if ex_plan_only ex \<and> (b = None \<or> \<not> AllowsPlanning (security_of b)) then
        (let d = \<lparr>dec_action = ActionDeny, dec_allowed = False, dec_version = sp_version (ex_policy ex),
               dec_rule_id = [], dec_reason = ''plan_only_denied'', dec_capability = security_of b\<rparr>
         in (with_error sv (ErrorSecurity ErrorSecurityPolicyDenied)
               ''Read-only planning forbids this Tool; start a separately authorized execution Run''
               (r\<lparr>xs_policy := Some d\<rparr>), st, snd (tracePolicyDecision ex w q d)))
      else
        (case (xs_error r, b) of
           (None, Some binding) \<Rightarrow> execute_checked sv et ex w q binding r st
         | _ \<Rightarrow>
             (let c = progressCall sv q b; (blocked, r, st, before) = applyProgressBefore sv ex q c r st
              in if blocked then (r, st, before)
                 else (let (r, st, observed) = observeProgress sv ex q b c r st in (r, st, before @ observed)))))"

definition empty_result :: "execution_request \<Rightarrow> validated_call \<Rightarrow> execution_error option \<Rightarrow> 'v execution_result" where
  "empty_result q c err =
     \<lparr>xs_call_id = xr_call_id q, xs_tool = xr_tool q, xs_arguments = vc_arguments c, xs_revision = vc_revision c,
      xs_arguments_hash = (if vc_revision c = [] then [] else vc_arguments_hash c), xs_value = NoValue, xs_error = err, xs_duration = 0,
      xs_truncated = False, xs_original_bytes = 0, xs_replayed = False, xs_artifact = None,
      xs_artifact_error = None, xs_policy = None, xs_progress = None, xs_warning = [], xs_private = False,
      xs_not_applied = False, xs_encoded = []\<rparr>"

definition prepared_request :: "executor \<Rightarrow> validated_call \<Rightarrow> execution_request \<Rightarrow> execution_request" where
  "prepared_request ex c q =
     (let q = q\<lparr>xr_credentials := xr_credentials q @ ex_credentials ex, xr_arguments := vc_arguments c\<rparr>
      in if vc_revision c = [] then q
         else q\<lparr>xr_revision := vc_revision c, xr_arguments_hash := vc_arguments_hash c\<rparr>)"

definition execute ::
  "'v tool_services \<Rightarrow> error_texts \<Rightarrow> executor \<Rightarrow> 'v call_world \<Rightarrow> execution_request \<Rightarrow> bool \<Rightarrow> tool_state
    \<Rightarrow> 'v execution_result \<times> tool_state \<times> 'v tool_note list" where
  "execute sv et ex w request finish st =
     (let (b, c, err) = prepareCall sv (ex_resolve ex) (xr_tool request) (normalizeArguments (xr_arguments request));
          q = prepared_request ex c request;
          (r, st, notes) = execute_prepared sv et ex w q b (empty_result request c err) st;
          r = r\<lparr>xs_duration := cw_elapsed w\<rparr>; traced = (ex_tracer ex \<noteq> None)
      in (r, st, (if traced then [StartedNote q] else []) @ notes
            @ (if traced \<and> finish then [FinishedNote r] else [])))"

definition Execute ::
  "'v tool_services \<Rightarrow> error_texts \<Rightarrow> executor \<Rightarrow> 'v call_world \<Rightarrow> execution_request \<Rightarrow> tool_state
    \<Rightarrow> 'v execution_result \<times> tool_state \<times> 'v tool_note list" where
  "Execute sv et ex w request st =
     (let (r, st, notes) = execute sv et ex w request True st in (r\<lparr>xs_encoded := []\<rparr>, st, notes))"

end
