(* ===== verification/Tool_Batch.thy ===== *)
theory Tool_Batch
  imports Tool_Executor
begin

text \<open>
  Batches of tool calls (\<open>tool/executor_batch.go\<close>, \<open>finishBatch\<close> of \<open>tool/artifact_governor.go\<close>): which
  calls may run in parallel, and how the results of a batch share one byte budget. The decoding of
  JSON objects and scalars is a parameter. What the worker goroutines of a parallel batch produce
  depends on their schedule and is an argument of \<open>ExecuteBatch\<close>.
\<close>

section \<open>Groups\<close>

type_synonym indexed_request = "nat \<times> execution_request"

text \<open>\<open>object_of\<close>: the raw members of a JSON object; \<open>scalar\<close>: a string, a number or a boolean.\<close>

definition concurrencyKey ::
  "(string \<Rightarrow> (string \<rightharpoonup> string) option) \<Rightarrow> (string \<Rightarrow> bool) \<Rightarrow> string \<Rightarrow> string \<Rightarrow> string option" where
  "concurrencyKey object_of scalar key_argument arguments =
     (case object_of (normalizeArguments arguments) of
        None \<Rightarrow> None
      | Some members \<Rightarrow>
          (let raw = trim_space (case members key_argument of Some v \<Rightarrow> v | None \<Rightarrow> [])
           in if raw = [] \<or> raw = ''null'' \<or> \<not> scalar raw then None
              else Some (trim_space key_argument @ '':'' @ raw)))"

record batch_groups =
  bg_groups :: "indexed_request list list"
  bg_keyed :: "string \<rightharpoonup> nat"

text \<open>What the loop does with one request; \<open>None\<close> makes the batch serial.\<close>

definition place_request ::
  "(string \<Rightarrow> (string \<rightharpoonup> string) option) \<Rightarrow> (string \<Rightarrow> bool) \<Rightarrow> (string \<rightharpoonup> binding) \<Rightarrow> indexed_request
    \<Rightarrow> batch_groups \<Rightarrow> batch_groups option" where
  "place_request object_of scalar resolve item g =
     (case resolve (xr_tool (snd item)) of
        None \<Rightarrow> None
      | Some b \<Rightarrow>
          (case bd_concurrency b of
             ConcurrencySerial \<Rightarrow> None
           | ConcurrencyReadOnly \<Rightarrow> Some (g\<lparr>bg_groups := bg_groups g @ [[item]]\<rparr>)
           | ConcurrencyKeyed argument \<Rightarrow>
               (case concurrencyKey object_of scalar argument (xr_arguments (snd item)) of
                  None \<Rightarrow> None
                | Some key \<Rightarrow>
                    (case bg_keyed g key of
                       Some i \<Rightarrow> Some (g\<lparr>bg_groups := (bg_groups g)[i := bg_groups g ! i @ [item]]\<rparr>)
                     | None \<Rightarrow> Some (g\<lparr>bg_keyed := (bg_keyed g)(key \<mapsto> length (bg_groups g)),
                         bg_groups := bg_groups g @ [[item]]\<rparr>)))))"

fun place_requests ::
  "(string \<Rightarrow> (string \<rightharpoonup> string) option) \<Rightarrow> (string \<Rightarrow> bool) \<Rightarrow> (string \<rightharpoonup> binding) \<Rightarrow> indexed_request list
    \<Rightarrow> batch_groups \<Rightarrow> batch_groups option" where
  "place_requests object_of scalar resolve [] g = Some g"
| "place_requests object_of scalar resolve (item # items) g =
     (case place_request object_of scalar resolve item g of
        None \<Rightarrow> None
      | Some g \<Rightarrow> place_requests object_of scalar resolve items g)"

definition concurrentGroups ::
  "(string \<Rightarrow> (string \<rightharpoonup> string) option) \<Rightarrow> (string \<Rightarrow> bool) \<Rightarrow> (string \<rightharpoonup> binding) \<Rightarrow> execution_request list
    \<Rightarrow> indexed_request list list option" where
  "concurrentGroups object_of scalar resolve requests =
     map_option bg_groups
       (place_requests object_of scalar resolve (enumerate 0 requests) \<lparr>bg_groups = [], bg_keyed = Map.empty\<rparr>)"

section \<open>The results of a batch\<close>

text \<open>One result: what is left of the budget bounds it; \<open>used\<close> counts the bytes so far.\<close>

definition finish_value ::
  "'v tool_services \<Rightarrow> error_texts \<Rightarrow> executor \<Rightarrow> time \<Rightarrow> execution_request \<Rightarrow> 'v execution_result \<Rightarrow> int \<Rightarrow> tool_state
    \<Rightarrow> 'v execution_result \<times> int \<times> tool_state" where
  "finish_value sv et ex now q r used st =
     (if xs_error r = None \<and> \<not> xs_truncated r \<and> xs_encoded r \<noteq> [] then
        if used + int (length (xs_encoded r)) > ex_max_batch ex
        then (let (r, st) = govern_result sv et ex now q r (xs_encoded r) (max 0 (ex_max_batch ex - used)) st
              in (r, used, st))
        else (r, used + int (length (xs_encoded r)), st)
      else (r, used, st))"

definition finish_result ::
  "'v tool_services \<Rightarrow> error_texts \<Rightarrow> executor \<Rightarrow> time \<Rightarrow> execution_request \<Rightarrow> 'v execution_result \<Rightarrow> int \<Rightarrow> tool_state
    \<Rightarrow> 'v execution_result \<times> int \<times> tool_state" where
  "finish_result sv et ex now q r used st =
     (let (r, used, st) = finish_value sv et ex now q r used st;
          (r, n) = (if xs_truncated r then boundArtifactPreview r (max 0 (ex_max_batch ex - used)) else (r, 0))
      in (r\<lparr>xs_encoded := []\<rparr>, used + n, st))"

fun finish_results ::
  "'v tool_services \<Rightarrow> error_texts \<Rightarrow> executor \<Rightarrow> time \<Rightarrow> (execution_request \<times> 'v execution_result) list \<Rightarrow> int \<Rightarrow> tool_state
    \<Rightarrow> 'v execution_result list \<times> tool_state" where
  "finish_results sv et ex now [] used st = ([], st)"
| "finish_results sv et ex now ((q, r) # rest) used st =
     (let (r, used, st) = finish_result sv et ex now q r used st;
          (rs, st) = finish_results sv et ex now rest used st
      in (r # rs, st))"

definition finishBatch ::
  "'v tool_services \<Rightarrow> error_texts \<Rightarrow> executor \<Rightarrow> time \<Rightarrow> execution_request list \<Rightarrow> 'v execution_result list \<Rightarrow> tool_state
    \<Rightarrow> 'v execution_result list \<times> tool_state \<times> 'v tool_note list" where
  "finishBatch sv et ex now requests results st =
     (let (rs, st) = finish_results sv et ex now (zip requests results) 0 st
      in (rs, st, if ex_tracer ex = None then [] else map FinishedNote rs))"

section \<open>The batch\<close>

fun executeSequential ::
  "'v tool_services \<Rightarrow> error_texts \<Rightarrow> executor \<Rightarrow> ('v call_world \<times> execution_request) list \<Rightarrow> tool_state
    \<Rightarrow> 'v execution_result list \<times> tool_state \<times> 'v tool_note list" where
  "executeSequential sv et ex [] st = ([], st, [])"
| "executeSequential sv et ex ((w, q) # rest) st =
     (let (r, st, notes) = execute sv et ex w q False st; (rs, st, more) = executeSequential sv et ex rest st
      in (r # rs, st, notes @ more))"

definition protect_batch :: "executor \<Rightarrow> execution_request list \<Rightarrow> tool_state \<Rightarrow> tool_state" where
  "protect_batch ex requests st =
     (if list_ex (\<lambda>q. case ex_resolve ex (xr_tool q) of None \<Rightarrow> False
                    | Some b \<Rightarrow> UsesPrivateResources (bd_security b)) requests
      then st\<lparr>tx_private := True\<rparr> else st)"

text \<open>\<open>workers\<close>: the results, the state and the notes that the worker goroutines leave.\<close>

definition ExecuteBatch ::
  "(string \<Rightarrow> (string \<rightharpoonup> string) option) \<Rightarrow> (string \<Rightarrow> bool) \<Rightarrow> 'v tool_services \<Rightarrow> error_texts \<Rightarrow> executor
    \<Rightarrow> (indexed_request list list \<Rightarrow> tool_state \<Rightarrow> 'v execution_result list \<times> tool_state \<times> 'v tool_note list)
    \<Rightarrow> time \<Rightarrow> ('v call_world \<times> execution_request) list \<Rightarrow> tool_state
    \<Rightarrow> 'v execution_result list \<times> tool_state \<times> 'v tool_note list" where
  "ExecuteBatch object_of scalar sv et ex workers now calls st =
     (if calls = [] then ([], st, [])
      else
        (let requests = map snd calls; st = protect_batch ex requests st;
             (rs, st, notes) =
               (case concurrentGroups object_of scalar (ex_resolve ex) requests of
                  None \<Rightarrow> executeSequential sv et ex calls st
                | Some groups \<Rightarrow>
                    if length groups = 1 then executeSequential sv et ex calls st else workers groups st);
             (rs, st, finished) = finishBatch sv et ex now requests rs st
         in (rs, st, notes @ finished)))"

end
