(* ===== verification/Executor_Guarantees.thy ===== *)
theory Executor_Guarantees
  imports Tool_Executor Policy_Guarantees
begin

text \<open>
  What the tool executor guarantees: a handler runs only for an authorized call, at most once per
  journal key whatever else happens, and a call that has run a handler leaves its journal row
  settled.
\<close>

section \<open>The store during a call\<close>

text \<open>Whatever the world does to the store is a sequence of store operations.\<close>

definition journaled :: "services \<Rightarrow> 'v call_world \<Rightarrow> bool" where
  "journaled svc w \<longleftrightarrow> (\<forall>m s. \<exists>ls. journal_trace svc s ls (cw_others w m s))"

text \<open>The row of a key continues a row: it has the same request, and once settled it stays so.\<close>

definition settled_status :: "effect_status \<Rightarrow> bool" where
  "settled_status s \<longleftrightarrow> s \<noteq> ToolEffectPrepared \<and> s \<noteq> ToolEffectExecuting"

definition continues :: "tool_effect \<Rightarrow> tool_effect \<Rightarrow> bool" where
  "continues e e' \<longleftrightarrow> same_request e e' \<and> (settled_status (eff_status e) \<longrightarrow> settled_status (eff_status e'))"

lemma continues_refl: "continues e e"
  by (simp add: continues_def same_request_def)

lemma continues_trans: "continues a b \<Longrightarrow> continues b c \<Longrightarrow> continues a c"
  using same_request_trans by (auto simp: continues_def)

lemma advances_continues: "effect_advances e e' \<Longrightarrow> continues e e'"
  by (cases "eff_status e"; cases "eff_status e'")
    (auto simp: effect_advances_def effect_moved_def continues_def settled_status_def same_request_def)

lemma trace_continues:
  "journal_trace svc s ls s' \<Longrightarrow> getToolEffect s k = Some e \<Longrightarrow> \<exists>e'. getToolEffect s' k = Some e' \<and> continues e e'"
proof (induction arbitrary: e rule: journal_trace.induct)
  case (trace_nil st)
  then show ?case using continues_refl by blast
next
  case (trace_step st l u ls st')
  then obtain x where x: "getToolEffect u k = Some x" "effect_advances e x"
    using journal_step_row [OF trace_step.hyps(1), of k] by (auto simp: row_step_def)
  then show ?case using trace_step.IH [OF x(1)] advances_continues continues_trans by blast
qed

definition store_continues :: "run_store \<Rightarrow> run_store \<Rightarrow> bool" where
  "store_continues s s' \<longleftrightarrow> (\<forall>k e. getToolEffect s k = Some e \<longrightarrow>
     (\<exists>e'. getToolEffect s' k = Some e' \<and> continues e e'))"

named_theorems continuing

lemma store_continues_refl [continuing]: "store_continues s s"
  by (auto simp: store_continues_def continues_refl)

lemma store_continues_trans [trans]: "store_continues s t \<Longrightarrow> store_continues t u \<Longrightarrow> store_continues s u"
  unfolding store_continues_def using continues_trans by metis

lemma store_continues_trace: "journal_trace svc s ls s' \<Longrightarrow> store_continues s s'"
  unfolding store_continues_def using trace_continues by blast

lemma store_continues_step: "journal_step svc s l s' \<Longrightarrow> store_continues s s'"
  by (rule store_continues_trace [OF trace_step [OF _ trace_nil]])

lemma others_continue: "journaled svc w \<Longrightarrow> store_continues s (cw_others w m s)"
  unfolding journaled_def using store_continues_trace by blast

lemma mark_store:
  assumes "journaled svc w"
  shows "store_continues (tx_store st) (tx_store (markSideEffectUncertain ex w key message st))"
    and "ex_journal ex \<Longrightarrow> key \<noteq> [] \<Longrightarrow> getToolEffect (tx_store st) key = Some e \<Longrightarrow>
      \<exists>e'. getToolEffect (tx_store (markSideEffectUncertain ex w key message st)) key = Some e'
        \<and> continues e e' \<and> settled_status (eff_status e')"
proof -
  let ?before = "cw_others w AtSuspend (tx_store st)"
  let ?mark = "MarkToolEffectNeedsReconciliation message (cw_time w AtSuspend) key ?before"
  note others = others_continue [OF assms, of "tx_store st" AtSuspend]
  have marked: "store_continues ?before s'" if "?mark = Inr (x, s')" for x s'
    by (rule store_continues_step [OF step_suspend [OF that]])
  show "store_continues (tx_store st) (tx_store (markSideEffectUncertain ex w key message st))"
    using others marked store_continues_trans [OF others marked]
    by (auto simp: markSideEffectUncertain_def Let_def store_continues_refl split: sum.splits prod.splits)
  assume ex: "ex_journal ex" "key \<noteq> []" and e: "getToolEffect (tx_store st) key = Some e"
  obtain f where f: "getToolEffect ?before key = Some f" "continues e f"
    using others e by (auto simp: store_continues_def)
  show "\<exists>e'. getToolEffect (tx_store (markSideEffectUncertain ex w key message st)) key = Some e'
        \<and> continues e e' \<and> settled_status (eff_status e')"
  proof (cases ?mark)
    case (Inl err)
    then have "settled_status (eff_status f)"
      using f(1) by (auto simp: MarkToolEffectNeedsReconciliation_def updateToolEffect_def suspend_mutation_def
          settled_status_def Let_def split: if_splits)
    then show ?thesis using Inl ex f by (simp add: markSideEffectUncertain_def)
  next
    case (Inr xs)
    obtain x s' where xs: "xs = (x, s')" by force
    then have m: "?mark = Inr (x, s')" using Inr by simp
    then obtain g where g: "getToolEffect s' key = Some g" "continues f g"
      using marked f(1) by (auto simp: store_continues_def)
    have "g = x" using suspension.moves_one [OF m [unfolded MarkToolEffectNeedsReconciliation_def]] g(1) by auto
    moreover have "eff_status x = ToolEffectNeedsReconciliation"
      using m f(1) by (auto simp: MarkToolEffectNeedsReconciliation_def updateToolEffect_def suspend_mutation_def
          Let_def split: if_splits)
    ultimately show ?thesis
      using m ex g continues_trans [OF f(2) g(2)] by (simp add: markSideEffectUncertain_def settled_status_def)
  qed
qed

lemma uncertain_store:
  assumes "journaled svc w" and "uncertain sv ex w key code message r st = (r', st')"
  shows "store_continues (tx_store st) (tx_store st')" and "xs_error r' \<noteq> None"
    and "ex_journal ex \<Longrightarrow> key \<noteq> [] \<Longrightarrow> getToolEffect (tx_store st) key = Some e \<Longrightarrow>
      \<exists>e'. getToolEffect (tx_store st') key = Some e' \<and> continues e e' \<and> settled_status (eff_status e')"
  using assms(2) mark_store [OF assms(1)] by (auto simp: uncertain_def with_error_def Let_def)

section \<open>The store after the handler\<close>

lemma govern_keeps:
  assumes "\<And>a c t. P (snd (create a c t)) = P t"
  shows "P (snd (govern sv g create now q r encoded limit t)) = P t"
proof (cases "tv_redact_json sv encoded")
  case (Some x)
  obtain redacted n where x: "x = (redacted, n)" by force
  let ?a = "artifact_for (tv_digest sv) g now q encoded redacted n"
  obtain y t' where y: "create ?a redacted t = (y, t')" by force
  then have "P t' = P t" using assms [of ?a redacted t] by simp
  then show ?thesis using Some x y by (cases y) (simp_all add: govern_def Let_def)
qed (simp add: govern_def Let_def)

lemma govern_result_store: "tx_store (snd (govern_result sv et ex now q r encoded limit st)) = tx_store st"
  unfolding govern_result_def by (rule govern_keeps) (simp add: create_artifact_def Let_def split: prod.split)

text \<open>What a call promises about the row of its key once its handler has run.\<close>

definition persisted_as :: "'v tool_services \<Rightarrow> 'v execution_result \<Rightarrow> string \<Rightarrow> bool" where
  "persisted_as sv r result \<longleftrightarrow>
     (\<exists>text1 n. tv_marshal_result sv r = Some text1 \<and> tv_redact_json sv text1 = Some (result, n))"

definition effect_settled ::
  "'v tool_services \<Rightarrow> tool_effect \<Rightarrow> 'v execution_result \<Rightarrow> run_store \<Rightarrow> string \<Rightarrow> bool" where
  "effect_settled sv e r s k \<longleftrightarrow>
     (\<exists>e'. getToolEffect s k = Some e' \<and> continues e e' \<and> settled_status (eff_status e')
        \<and> (xs_error r = None \<longrightarrow> eff_status e' = ToolEffectCommitted \<and> persisted_as sv r (eff_result e')))"

lemma uncertain_settled:
  assumes "journaled svc w" and "uncertain sv ex w key code message r st = (r', st')"
    and "ex_journal ex" and "key \<noteq> []" and "getToolEffect (tx_store st) key = Some e"
  shows "effect_settled sv e r' (tx_store st') key"
  using uncertain_store [OF assms(1,2)] assms(3-5) by (auto simp: effect_settled_def)

lemma effect_settled_earlier:
  assumes "continues e f" and "effect_settled sv f r s k"
  shows "effect_settled sv e r s k"
proof -
  obtain e' where e': "getToolEffect s k = Some e' \<and> continues f e' \<and> settled_status (eff_status e')
      \<and> (xs_error r = None \<longrightarrow> eff_status e' = ToolEffectCommitted \<and> persisted_as sv r (eff_result e'))"
    using assms(2) unfolding effect_settled_def by (elim exE)
  then have "continues e e'" using continues_trans [OF assms(1)] by simp
  with e' show ?thesis unfolding effect_settled_def by (intro exI [of _ e']) simp
qed

lemma persist_effect_store:
  assumes w: "journaled svc w" and kept: "persist_effect sv et ex w key r st = (r', st')"
  shows "store_continues (tx_store st) (tx_store st')"
    and "ex_journal ex \<Longrightarrow> key \<noteq> [] \<Longrightarrow> getToolEffect (tx_store st) key = Some e \<Longrightarrow>
      effect_settled sv e r' (tx_store st') key"
proof -
  let ?before = "cw_others w AtComplete (tx_store st)"
  consider (failed) code message x where "uncertain sv ex w key code message r x = (r', st')"
      "x = st \<or> x = st\<lparr>tx_store := ?before\<rparr>"
    | (completed) encoded persisted n f s' where "r' = r" "st' = st\<lparr>tx_store := s'\<rparr>"
      "tv_marshal_result sv r = Some encoded" "tv_redact_json sv encoded = Some (persisted, n)"
      "CompleteToolEffect persisted (cw_time w AtComplete) key ?before = Inr (f, s')"
    using kept by (auto simp: persist_effect_def Let_def split: option.splits sum.splits prod.splits)
  then have "store_continues (tx_store st) (tx_store st')
    \<and> (ex_journal ex \<and> key \<noteq> [] \<and> getToolEffect (tx_store st) key = Some e \<longrightarrow>
         effect_settled sv e r' (tx_store st') key)"
  proof cases
    case failed
    have start: "store_continues (tx_store st) (tx_store x)"
      using failed(2) others_continue [OF w, of "tx_store st" AtComplete] store_continues_refl by auto
    have "effect_settled sv e r' (tx_store st') key"
      if ex: "ex_journal ex" "key \<noteq> []" "getToolEffect (tx_store st) key = Some e"
    proof -
      obtain f where f: "getToolEffect (tx_store x) key = Some f" "continues e f"
        using start ex by (auto simp: store_continues_def)
      then show ?thesis using uncertain_settled [OF w failed(1) ex(1,2) f(1)] effect_settled_earlier by blast
    qed
    then show ?thesis using store_continues_trans [OF start uncertain_store(1) [OF w failed(1)]] by blast
  next
    case completed
    note step = store_continues_trans [OF others_continue [OF w] store_continues_step [OF step_complete [OF completed(5)]]]
    have x: "getToolEffect s' key = Some f"
      using completion.moves_one [OF completed(5) [unfolded CompleteToolEffect_def]] by blast
    have "eff_status f = ToolEffectCommitted \<and> eff_result f = persisted"
      using completed(5) by (auto simp: CompleteToolEffect_def updateToolEffect_def complete_mutation_def Let_def
          split: option.splits sum.splits prod.splits if_splits)
    moreover have "continues e f" if "getToolEffect (tx_store st) key = Some e"
      using step that x unfolding store_continues_def by fastforce
    ultimately have "effect_settled sv e r' (tx_store st') key" if "getToolEffect (tx_store st) key = Some e"
      using x that completed(1-4) by (auto simp: effect_settled_def settled_status_def persisted_as_def)
    then show ?thesis using step completed(2) by simp
  qed
  then show "store_continues (tx_store st) (tx_store st')"
    and "ex_journal ex \<Longrightarrow> key \<noteq> [] \<Longrightarrow> getToolEffect (tx_store st) key = Some e \<Longrightarrow>
      effect_settled sv e r' (tx_store st') key" by blast+
qed

lemma keep_value_store:
  assumes w: "journaled svc w" and kept: "keep_value sv et ex w q key limit v r st = (r', st')"
  shows "store_continues (tx_store st) (tx_store st')"
    and "ex_journal ex \<Longrightarrow> key \<noteq> [] \<Longrightarrow> getToolEffect (tx_store st) key = Some e \<Longrightarrow>
      effect_settled sv e r' (tx_store st') key"
proof -
  have "store_continues (tx_store st) (tx_store st')
    \<and> (ex_journal ex \<and> key \<noteq> [] \<and> getToolEffect (tx_store st) key = Some e \<longrightarrow>
         effect_settled sv e r' (tx_store st') key)"
  proof (cases "tv_marshal sv v")
    case None
    then have "uncertain sv ex w key ErrorResultEncoding ''tool result is not JSON-compatible'' r st = (r', st')"
      using kept by (simp add: keep_value_def)
    then show ?thesis using uncertain_store(1) [OF w] uncertain_settled [OF w] by blast
  next
    case (Some encoded)
    obtain r1 u where u: "(if int (length encoded) > limit
        then govern_result sv et ex (cw_time w AtComplete) q (r\<lparr>xs_encoded := encoded\<rparr>) encoded limit st
        else (r\<lparr>xs_encoded := encoded, xs_value := Value v\<rparr>, st)) = (r1, u)" by force
    have same: "tx_store u = tx_store st"
      using u govern_result_store [of sv et ex "cw_time w AtComplete" q "r\<lparr>xs_encoded := encoded\<rparr>" encoded limit st]
      by (auto split: if_splits)
    have "(if key = [] then (r1, u) else persist_effect sv et ex w key r1 u) = (r', st')"
      using kept Some u by (simp add: keep_value_def Let_def)
    then show ?thesis
      using persist_effect_store [OF w, of sv et ex key r1 u r' st'] same store_continues_refl
      by (auto split: if_splits)
  qed
  then show "store_continues (tx_store st) (tx_store st')"
    and "ex_journal ex \<Longrightarrow> key \<noteq> [] \<Longrightarrow> getToolEffect (tx_store st) key = Some e \<Longrightarrow>
      effect_settled sv e r' (tx_store st') key" by blast+
qed

lemma effect_settled_later:
  assumes "effect_settled sv e r s k" and "store_continues s s'" and "xs_error r' \<noteq> None"
  shows "effect_settled sv e r' s' k"
proof -
  obtain x where x: "getToolEffect s k = Some x" "continues e x" "settled_status (eff_status x)"
    using assms(1) by (auto simp: effect_settled_def)
  then obtain y where y: "getToolEffect s' k = Some y" "continues x y"
    using assms(2) by (auto simp: store_continues_def)
  then show ?thesis using x continues_trans [OF x(2) y(2)] assms(3)
    by (auto simp: effect_settled_def continues_def)
qed

lemma handler_failed_store:
  assumes w: "journaled svc w" and f: "handler_failed sv ex w q key code message r st = (r', st')"
  shows "store_continues (tx_store st) (tx_store st')"
    and "ex_journal ex \<Longrightarrow> key \<noteq> [] \<Longrightarrow> getToolEffect (tx_store st) key = Some e \<Longrightarrow>
      effect_settled sv e r' (tx_store st') key"
proof -
  obtain r1 u where u: "uncertain sv ex w key code message r st = (r1, u)" by force
  note later = others_continue [OF w, of "tx_store u" AtList]
  have r': "xs_error r' \<noteq> None" "tx_store st' = cw_others w AtList (tx_store u)"
    using f u uncertain_store(2) [OF w u] by (auto simp: handler_failed_def)
  show "store_continues (tx_store st) (tx_store st')"
    using store_continues_trans [OF uncertain_store(1) [OF w u] later] r'(2) by simp
  show "effect_settled sv e r' (tx_store st') key"
    if "ex_journal ex" "key \<noteq> []" "getToolEffect (tx_store st) key = Some e"
    using effect_settled_later [OF uncertain_settled [OF w u that] later r'(1)] r'(2) by simp
qed

lemma run_handler_store:
  assumes w: "journaled svc w" and run: "run_handler sv et ex w q key timeout limit r st = (r', st')"
  shows "store_continues (tx_store st) (tx_store st')"
    and "ex_journal ex \<Longrightarrow> key \<noteq> [] \<Longrightarrow> getToolEffect (tx_store st) key = Some e \<Longrightarrow>
      effect_settled sv e r' (tx_store st') key"
proof -
  let ?u = "st\<lparr>tx_store := cw_others w AtHandler (tx_store st)\<rparr>"
  have start: "store_continues (tx_store st) (tx_store ?u)"
    using others_continue [OF w, of "tx_store st" AtHandler] by simp
  consider (interrupted) code message where "uncertain sv ex w key code message r ?u = (r', st')"
    | (returned) v where "keep_value sv et ex w q key limit v r ?u = (r', st')"
    | (failed) code message where "handler_failed sv ex w q key code message r ?u = (r', st')"
    using run by (auto simp: run_handler_def Let_def split: handler_end.splits if_splits)
  then have "store_continues (tx_store ?u) (tx_store st')
    \<and> (\<forall>f. ex_journal ex \<and> key \<noteq> [] \<and> getToolEffect (tx_store ?u) key = Some f \<longrightarrow>
         effect_settled sv f r' (tx_store st') key)"
  proof cases
    case interrupted
    show ?thesis using uncertain_store(1) [OF w interrupted] uncertain_settled [OF w interrupted] by blast
  next
    case returned
    show ?thesis using keep_value_store [OF w returned] by blast
  next
    case failed
    show ?thesis using handler_failed_store [OF w failed] by blast
  qed
  note after = this
  show "store_continues (tx_store st) (tx_store st')"
    using store_continues_trans [OF start] after by blast
  assume key: "ex_journal ex" "key \<noteq> []" and e: "getToolEffect (tx_store st) key = Some e"
  obtain f where f: "getToolEffect (tx_store ?u) key = Some f" "continues e f"
    using start e unfolding store_continues_def by blast
  have "effect_settled sv f r' (tx_store st') key" using after key f(1) by blast
  then show "effect_settled sv e r' (tx_store st') key" by (rule effect_settled_earlier [OF f(2)])
qed

section \<open>Handlers that ran\<close>

definition invocations :: "'v tool_note list \<Rightarrow> (execution_request \<times> string) list" where
  "invocations notes = List.map_filter (\<lambda>n. case n of InvokedNote q k \<Rightarrow> Some (q, k) | _ \<Rightarrow> None) notes"

lemma invocations_simps [simp]:
  "invocations [] = []" "invocations (StartedNote q # ns) = invocations ns"
  "invocations (PolicyNote q d # ns) = invocations ns" "invocations (ProgressNote q g # ns) = invocations ns"
  "invocations (UsageNote u # ns) = invocations ns" "invocations (FinishedNote r # ns) = invocations ns"
  "invocations (InvokedNote q k # ns) = (q, k) # invocations ns"
  "invocations (ms @ ns) = invocations ms @ invocations ns"
  by (simp_all add: invocations_def map_filter_def)

lemma invocations_usage [simp]: "invocations (map UsageNote us) = []"
  by (induction us) simp_all

lemma invocations_set: "(q, k) \<in> set (invocations ns) \<longleftrightarrow> InvokedNote q k \<in> set ns"
  by (induction ns) (auto simp: invocations_def map_filter_def split: tool_note.splits)

text \<open>The row that the journal holds when the handler starts.\<close>

definition begun :: "(string \<Rightarrow> string) \<Rightarrow> execution_request \<Rightarrow> tool_effect \<Rightarrow> bool" where
  "begun digest q e \<longleftrightarrow> eff_key e = effect_key digest q \<and> eff_run_id e = xr_run_id q
     \<and> eff_stage_id e = xr_stage_id q \<and> eff_turn_id e = xr_turn_id q \<and> eff_tool_call_id e = xr_call_id q
     \<and> eff_tool_name e = xr_tool q \<and> eff_request_hash e = sideEffectRequestHash digest q
     \<and> eff_status e = ToolEffectExecuting \<and> eff_version e = 1"

lemma beginSideEffect_store:
  assumes w: "journaled svc w" and b: "beginSideEffect sv et ex w q mode r st = (key, go, r', st')"
  shows "store_continues (tx_store st) (tx_store st')"
    and "go \<Longrightarrow> ex_journal ex \<and> key \<noteq> [] \<and> r' = r \<and> key = effect_key (tv_digest sv) q
      \<and> getToolEffect (tx_store st) key = None
      \<and> (\<exists>e. getToolEffect (tx_store st') key = Some e \<and> begun (tv_digest sv) q e)"
proof -
  let ?before = "cw_others w AtBegin (tx_store st)"
  let ?opening = "BeginToolEffect (cw_time w AtBegin) (effect_of (tv_digest sv) q) ?before"
  note others = others_continue [OF w, of "tx_store st" AtBegin]
  have begun: "store_continues ?before s'" if "?opening = Inr ((x, d), s')" for x d s'
    by (rule store_continues_step [OF step_begin [OF that]])
  consider (refused) "\<not> go" "st' = st"
    | (failed) "\<not> go" "st' = st\<lparr>tx_store := ?before\<rparr>"
    | (run) x s' where "?opening = Inr ((x, go), s')" "st' = st\<lparr>tx_store := s'\<rparr>" "ex_journal ex"
        "go \<longrightarrow> r' = r" "key = effect_key (tv_digest sv) q"
  proof (cases "ex_journal ex \<and> trim_space (xr_run_id q) \<noteq> []
      \<and> \<not> (trim_space (xr_stage_id q) = [] \<and> trim_space (xr_turn_id q) = []) \<and> trim_space (xr_call_id q) \<noteq> []")
    case False
    then have "\<not> go \<and> st' = st" using b unfolding beginSideEffect_def by (auto split: if_split_asm)
    then show ?thesis using that(1) by blast
  next
    case True
    show ?thesis
    proof (cases ?opening)
      case (Inl e)
      then have "\<not> go \<and> st' = st\<lparr>tx_store := ?before\<rparr>" using b True by (simp add: beginSideEffect_def Let_def)
      then show ?thesis using that(2) by blast
    next
      case (Inr y)
      obtain x d s' where y: "y = ((x, d), s')" by (metis surj_pair)
      have "go = d" "st' = st\<lparr>tx_store := s'\<rparr>" "key = effect_key (tv_digest sv) q" "go \<longrightarrow> r' = r"
        using b True Inr y by (auto simp: beginSideEffect_def Let_def)
      then show ?thesis using that(3) Inr y True by blast
    qed
  qed
  then have "store_continues (tx_store st) (tx_store st')
    \<and> (go \<longrightarrow> ex_journal ex \<and> key \<noteq> [] \<and> r' = r \<and> key = effect_key (tv_digest sv) q
        \<and> getToolEffect (tx_store st) key = None
        \<and> (\<exists>e. getToolEffect (tx_store st') key = Some e \<and> begun (tv_digest sv) q e))"
  proof cases
    case refused
    then show ?thesis by (simp add: store_continues_refl)
  next
    case failed
    then show ?thesis using others by simp
  next
    case run
    have continued: "store_continues (tx_store st) (tx_store st')"
      using store_continues_trans [OF others begun [OF run(1)]] run(2) by simp
    have "key \<noteq> [] \<and> getToolEffect ?before key = None
        \<and> (\<exists>e. getToolEffect s' key = Some e \<and> begun (tv_digest sv) q e)" if go
      using run(1,5) that
      by (auto simp: BeginToolEffect_def effect_of_def getToolEffect_def begun_def ValidateToolEffect_def Let_def
          lookup_by_snoc trim_Nil split: if_splits option.splits)
    moreover have "getToolEffect (tx_store st) key = None" if "getToolEffect ?before key = None"
      using others that unfolding store_continues_def by (metis not_Some_eq option.distinct(1))
    ultimately show ?thesis using continued run by auto
  qed
  then show "store_continues (tx_store st) (tx_store st')"
    and "go \<Longrightarrow> ex_journal ex \<and> key \<noteq> [] \<and> r' = r \<and> key = effect_key (tv_digest sv) q
      \<and> getToolEffect (tx_store st) key = None
      \<and> (\<exists>e. getToolEffect (tx_store st') key = Some e \<and> begun (tv_digest sv) q e)" by blast+
qed

lemma charge_budget_store:
  "charge_budget w q st = (err, st', ns) \<Longrightarrow> tx_store st' = tx_store st \<and> invocations ns = []"
  by (auto simp: charge_budget_def Let_def split: option.splits prod.splits)

lemma observeProgress_fields:
  assumes "observeProgress sv ex q b c r st = (r', st', ns)"
  shows "tx_store st' = tx_store st" and "invocations ns = []"
    and "r' = r\<lparr>xs_progress := xs_progress r', xs_warning := xs_warning r'\<rparr>"
  using assms by (auto simp: observeProgress_def progress_notes_def Let_def split: if_splits prod.splits)

lemma applyProgressBefore_fields:
  assumes "applyProgressBefore sv ex q c r st = (blocked, r', st', ns)"
  shows "tx_store st' = tx_store st" and "invocations ns = []" and "\<not> blocked \<Longrightarrow> r' = r"
  using assms by (auto simp: applyProgressBefore_def progress_notes_def Let_def split: if_splits prod.splits)

lemma tracePolicy_fields:
  "tracePolicyDecision ex w q d = (audit, ns) \<Longrightarrow> invocations ns = []
    \<and> (AuditRequired d \<and> audit = None \<longrightarrow> PolicyNote q d \<in> set ns \<and> cw_audit_error w = None)"
  by (auto simp: tracePolicyDecision_def split: if_splits)

text \<open>What is known of the call \<open>q\<close> when its handler has run under the key \<open>k\<close>.\<close>

definition effect_recorded ::
  "'v tool_services \<Rightarrow> binding \<Rightarrow> execution_request \<Rightarrow> string \<Rightarrow> 'v execution_result \<Rightarrow> run_store \<Rightarrow> run_store \<Rightarrow> bool" where
  "effect_recorded sv b q k r s s' \<longleftrightarrow>
     (if RequiresJournal (bd_security b)
      then k = effect_key (tv_digest sv) q \<and> k \<noteq> [] \<and> getToolEffect s k = None
        \<and> (\<exists>e. begun (tv_digest sv) q e \<and> effect_settled sv e r s' k)
      else k = [])"

lemma execute_allowed_runs:
  assumes w: "journaled svc w" and run: "execute_allowed sv et ex w q b r st = (r', st', ns)"
  shows "store_continues (tx_store st) (tx_store st')"
    and "invocations ns \<noteq> [] \<Longrightarrow> \<exists>k. invocations ns = [(q, k)] \<and> effect_recorded sv b q k r' (tx_store st) (tx_store st')"
proof -
  obtain err u cs where u: "charge_budget w q st = (err, u, cs)" by (metis surj_pair)
  note same = charge_budget_store [OF u]
  let ?timeout = "effective (bd_timeout b) (ex_timeout ex)" and ?limit = "effective (bd_max_result b) (ex_max_result ex)"
  have "store_continues (tx_store st) (tx_store st') \<and> (invocations ns \<noteq> [] \<longrightarrow>
      (\<exists>k. invocations ns = [(q, k)] \<and> effect_recorded sv b q k r' (tx_store st) (tx_store st')))"
  proof (cases err)
    case (Some e)
    then show ?thesis using run u same by (auto simp: execute_allowed_def store_continues_refl)
  next
    case None
    show ?thesis
    proof (cases "JournalMode (bd_security b)")
      case mode: None
      obtain r1 v where v: "run_handler sv et ex w q [] ?timeout ?limit r u = (r1, v)" by force
      then have "st' = v" "ns = cs @ [InvokedNote q []]"
        using run u None mode by (auto simp: execute_allowed_def Let_def)
      then show ?thesis using run_handler_store(1) [OF w v] same mode
        by (simp add: effect_recorded_def RequiresJournal_def)
    next
      case mode: (Some m)
      obtain key go r1 v where v: "beginSideEffect sv et ex w q m r u = (key, go, r1, v)" by (metis surj_pair)
      note started = beginSideEffect_store [OF w v]
      show ?thesis
      proof (cases "xs_error r1 \<noteq> None \<or> \<not> go")
        case True
        then have "st' = v" "ns = cs" using run u None mode v by (auto simp: execute_allowed_def Let_def)
        then show ?thesis using started(1) same by simp
      next
        case False
        obtain r2 x where x: "run_handler sv et ex w q key ?timeout ?limit r1 v = (r2, x)" by force
        then have e: "st' = x" "r' = r2" "ns = cs @ [InvokedNote q key]"
          using run u None mode v False by (auto simp: execute_allowed_def Let_def)
        obtain e where b: "ex_journal ex" "key \<noteq> []" "key = effect_key (tv_digest sv) q"
          "getToolEffect (tx_store u) key = None" "getToolEffect (tx_store v) key = Some e" "begun (tv_digest sv) q e"
          using started(2) False by blast
        have "effect_settled sv e r' (tx_store st') key"
          using run_handler_store(2) [OF w x b(1,2,5)] e by simp
        then have "effect_recorded sv b q key r' (tx_store st) (tx_store st')"
          using b same mode unfolding effect_recorded_def RequiresJournal_def by auto
        moreover have "store_continues (tx_store st) (tx_store st')"
          using store_continues_trans [OF started(1) run_handler_store(1) [OF w x]] same e(1) by simp
        ultimately show ?thesis using same e(3) by simp
      qed
    qed
  qed
  then show "store_continues (tx_store st) (tx_store st')"
    and "invocations ns \<noteq> [] \<Longrightarrow> \<exists>k. invocations ns = [(q, k)] \<and> effect_recorded sv b q k r' (tx_store st) (tx_store st')"
    by blast+
qed

text \<open>The result that was persisted, up to the fields that are filled in afterwards.\<close>

definition same_result :: "'v execution_result \<Rightarrow> 'v execution_result \<Rightarrow> bool" where
  "same_result r0 r \<longleftrightarrow>
     r = r0\<lparr>xs_progress := xs_progress r, xs_warning := xs_warning r, xs_duration := xs_duration r\<rparr>"

text \<open>A handler ran for \<open>q\<close> under \<open>k\<close>, and what had been decided before.\<close>

definition ran ::
  "'v tool_services \<Rightarrow> error_texts \<Rightarrow> executor \<Rightarrow> 'v call_world \<Rightarrow> binding \<Rightarrow> execution_request \<Rightarrow> string
    \<Rightarrow> 'v execution_result \<Rightarrow> tool_state \<Rightarrow> tool_state \<Rightarrow> 'v tool_note list \<Rightarrow> bool" where
  "ran sv et ex w b q k r st st' ns \<longleftrightarrow> invocations ns = [(q, k)]
     \<and> (\<exists>d. evaluate_security sv et ex q b (tx_private st) = (d, None)
          \<and> (AuditRequired d \<longrightarrow> PolicyNote q d \<in> set ns \<and> cw_audit_error w = None))
     \<and> (\<exists>r0. same_result r0 r \<and> effect_recorded sv b q k r0 (tx_store st) (tx_store st'))"

lemma execute_guarded_runs:
  assumes w: "journaled svc w" and run: "execute_guarded sv et ex w q b r st = (r', st', ns)"
  shows "store_continues (tx_store st) (tx_store st')"
    and "invocations ns \<noteq> [] \<Longrightarrow> \<exists>k r0. invocations ns = [(q, k)] \<and> same_result r0 r'
      \<and> effect_recorded sv b q k r0 (tx_store st) (tx_store st')"
proof -
  let ?c = "progressCall sv q (Some b)"
  obtain blocked r2 st2 bs where bs: "applyProgressBefore sv ex q ?c r st = (blocked, r2, st2, bs)"
    by (metis surj_pair)
  note before = applyProgressBefore_fields [OF bs]
  have "store_continues (tx_store st) (tx_store st') \<and> (invocations ns \<noteq> [] \<longrightarrow>
      (\<exists>k r0. invocations ns = [(q, k)] \<and> same_result r0 r' \<and> effect_recorded sv b q k r0 (tx_store st) (tx_store st')))"
  proof (cases blocked)
    case True
    then show ?thesis using run bs before by (simp add: execute_guarded_def store_continues_refl)
  next
    case False
    obtain r3 st3 as1 where a: "execute_allowed sv et ex w q b r2 st2 = (r3, st3, as1)" by (metis surj_pair)
    obtain r4 st4 os where o1: "observeProgress sv ex q (Some b) ?c r3 st3 = (r4, st4, os)" by (metis surj_pair)
    have e: "r' = r4" "st' = st4" "ns = as1 @ os" using run bs False a o1 by (simp_all add: execute_guarded_def)
    note allowed = execute_allowed_runs [OF w a] and observed = observeProgress_fields [OF o1]
    have "r4 = r3\<lparr>xs_progress := xs_progress r4, xs_warning := xs_warning r4, xs_duration := xs_duration r4\<rparr>"
      using observed(3) by (metis execution_result.surjective execution_result.update_convs(8,15,16)
          execution_result.select_convs(8))
    then have "same_result r3 r'" unfolding same_result_def e(1) .
    then show ?thesis using allowed e before observed by auto
  qed
  then show "store_continues (tx_store st) (tx_store st')"
    and "invocations ns \<noteq> [] \<Longrightarrow> \<exists>k r0. invocations ns = [(q, k)] \<and> same_result r0 r'
      \<and> effect_recorded sv b q k r0 (tx_store st) (tx_store st')" by blast+
qed

lemma execute_checked_runs:
  assumes w: "journaled svc w" and run: "execute_checked sv et ex w q b r st = (r', st', ns)"
  shows "store_continues (tx_store st) (tx_store st')"
    and "invocations ns \<noteq> [] \<Longrightarrow> \<exists>k. ran sv et ex w b q k r' st st' ns"
proof -
  obtain d denial where d: "evaluate_security sv et ex q b (tx_private st) = (d, denial)" by force
  obtain audit ts where ts: "tracePolicyDecision ex w q d = (audit, ts)" by force
  note traced = tracePolicy_fields [OF ts]
  have "store_continues (tx_store st) (tx_store st') \<and> (invocations ns \<noteq> [] \<longrightarrow> (\<exists>k. ran sv et ex w b q k r' st st' ns))"
  proof (cases "denial \<noteq> None \<or> AuditRequired d \<and> audit \<noteq> None")
    case True
    then have "st' = st" "ns = ts" using run d ts
      by (auto simp: execute_checked_def Let_def split: option.split_asm if_split_asm)
    then show ?thesis using traced by (simp add: store_continues_refl)
  next
    case False
    obtain r1 st1 where p: "protect_private d (r\<lparr>xs_policy := Some d\<rparr>) st = (r1, st1)" by force
    obtain r2 st2 gs where g: "execute_guarded sv et ex w q b r1 st1 = (r2, st2, gs)" by (metis surj_pair)
    have e: "r' = r2" "st' = st2" "ns = ts @ gs"
      using run d ts False p g by (auto simp: execute_checked_def Let_def)
    have "tx_store st1 = tx_store st" using p by (auto simp: protect_private_def split: if_splits)
    moreover note execute_guarded_runs [OF w g]
    moreover have "\<exists>d. evaluate_security sv et ex q b (tx_private st) = (d, None)
        \<and> (AuditRequired d \<longrightarrow> PolicyNote q d \<in> set ns \<and> cw_audit_error w = None)"
      using d False traced e(3) by auto
    ultimately show ?thesis using traced e unfolding ran_def by auto
  qed
  then show "store_continues (tx_store st) (tx_store st')"
    and "invocations ns \<noteq> [] \<Longrightarrow> \<exists>k. ran sv et ex w b q k r' st st' ns" by blast+
qed

lemma execute_prepared_runs:
  assumes w: "journaled svc w" and run: "execute_prepared sv et ex w q b r st = (r', st', ns)"
  shows "store_continues (tx_store st) (tx_store st')"
    and "invocations ns \<noteq> [] \<Longrightarrow> \<exists>x k. b = Some x \<and> xs_error r = None
      \<and> (ex_plan_only ex \<longrightarrow> AllowsPlanning (bd_security x)) \<and> ran sv et ex w x q k r' st st' ns"
proof -
  let ?c = "progressCall sv q b"
  obtain blocked r2 st2 bs where bs: "applyProgressBefore sv ex q ?c r st = (blocked, r2, st2, bs)"
    by (metis surj_pair)
  obtain r3 st3 os where o1: "observeProgress sv ex q b ?c r2 st2 = (r3, st3, os)" by (metis surj_pair)
  note before = applyProgressBefore_fields [OF bs] and observed = observeProgress_fields [OF o1]
  have "store_continues (tx_store st) (tx_store st') \<and> (invocations ns \<noteq> [] \<longrightarrow>
      (\<exists>x k. b = Some x \<and> xs_error r = None \<and> (ex_plan_only ex \<longrightarrow> AllowsPlanning (bd_security x))
        \<and> ran sv et ex w x q k r' st st' ns))"
  proof (cases "ex_plan_only ex \<and> (b = None \<or> \<not> AllowsPlanning (security_of b))")
    case True
    have "invocations (snd (tracePolicyDecision ex w q d)) = []" for d
      using tracePolicy_fields [of ex w q d "fst (tracePolicyDecision ex w q d)"] by simp
    then show ?thesis using run True by (auto simp: execute_prepared_def Let_def store_continues_refl)
  next
    case plan: False
    show ?thesis
    proof (cases "\<exists>x. xs_error r = None \<and> b = Some x")
      case True
      then obtain x where x: "xs_error r = None" "b = Some x" by blast
      then have "execute_checked sv et ex w q x r st = (r', st', ns)"
        using run plan by (auto simp: execute_prepared_def security_of_def split: if_split_asm)
      then show ?thesis using execute_checked_runs [OF w, of sv et ex q x r st r' st' ns] x plan
        by (auto simp: security_of_def)
    next
      case False
      then have "(if blocked then (r2, st2, bs) else (r3, st3, bs @ os)) = (r', st', ns)"
        using run plan bs o1 by (cases "xs_error r"; cases b) (auto simp: execute_prepared_def Let_def)
      then show ?thesis using before observed by (auto simp: store_continues_refl split: if_splits)
    qed
  qed
  then show "store_continues (tx_store st) (tx_store st')"
    and "invocations ns \<noteq> [] \<Longrightarrow> \<exists>x k. b = Some x \<and> xs_error r = None
      \<and> (ex_plan_only ex \<longrightarrow> AllowsPlanning (bd_security x)) \<and> ran sv et ex w x q k r' st st' ns" by blast+
qed

lemma prepareCall_Some:
  "prepareCall sv resolve name args = (Some b, c, err) \<Longrightarrow> resolve name = Some b"
  by (auto simp: prepareCall_def Let_def split: option.splits prod.splits)

lemma same_result_duration: "same_result r0 r \<Longrightarrow> same_result r0 (r\<lparr>xs_duration := n\<rparr>)"
  by (cases r0; cases r) (simp add: same_result_def)

lemma execute_runs:
  assumes w: "journaled svc w" and run: "execute sv et ex w request finish st = (r', st', ns)"
  shows "store_continues (tx_store st) (tx_store st')"
    and "invocations ns \<noteq> [] \<Longrightarrow> \<exists>b c q k.
      prepareCall sv (ex_resolve ex) (xr_tool request) (normalizeArguments (xr_arguments request)) = (Some b, c, None)
      \<and> q = prepared_request ex c request
      \<and> (ex_plan_only ex \<longrightarrow> AllowsPlanning (bd_security b)) \<and> ran sv et ex w b q k r' st st' ns"
proof -
  obtain b c err where c: "prepareCall sv (ex_resolve ex) (xr_tool request) (normalizeArguments (xr_arguments request))
      = (b, c, err)" by (metis surj_pair)
  let ?q = "prepared_request ex c request"
  obtain r1 st1 n1 where p: "execute_prepared sv et ex w ?q b (empty_result request c err) st = (r1, st1, n1)"
    by (metis surj_pair)
  have e: "r' = r1\<lparr>xs_duration := cw_elapsed w\<rparr>" "st' = st1"
    and n: "invocations ns = invocations n1" "set n1 \<subseteq> set ns"
    using run c p by (auto simp: execute_def Let_def)
  note prepared = execute_prepared_runs [OF w p]
  have "ran sv et ex w x ?q k r' st st' ns" if r: "ran sv et ex w x ?q k r1 st st1 n1" for x k
  proof -
    have "same_result r0 r'" if "same_result r0 r1" for r0
      using that same_result_duration unfolding e(1) by blast
    note same = this
    obtain d r0 where "invocations n1 = [(?q, k)]" "evaluate_security sv et ex ?q x (tx_private st) = (d, None)"
      "AuditRequired d \<longrightarrow> PolicyNote ?q d \<in> set n1 \<and> cw_audit_error w = None"
      "same_result r0 r1" "effect_recorded sv x ?q k r0 (tx_store st) (tx_store st1)"
      using r unfolding ran_def by (elim conjE exE)
    then show ?thesis using same n unfolding ran_def e(2) by auto
  qed
  then show "invocations ns \<noteq> [] \<Longrightarrow> \<exists>b c q k.
      prepareCall sv (ex_resolve ex) (xr_tool request) (normalizeArguments (xr_arguments request)) = (Some b, c, None)
      \<and> q = prepared_request ex c request
      \<and> (ex_plan_only ex \<longrightarrow> AllowsPlanning (bd_security b)) \<and> ran sv et ex w b q k r' st st' ns"
    using prepared(2) c n(1) unfolding empty_result_def by (metis execution_result.select_convs(7))
  show "store_continues (tx_store st) (tx_store st')" using prepared(1) e(2) by simp
qed

section \<open>Properties\<close>

text \<open>
  A history of calls that share a store: each call is made by some executor in some world, and in
  between the store changes by store operations of any kind.
\<close>

inductive tool_history :: "services \<Rightarrow> tool_state \<Rightarrow> 'v tool_note list \<Rightarrow> tool_state \<Rightarrow> bool" for svc where
  history_nil: "tool_history svc st [] st"
| history_call: "journaled svc w \<Longrightarrow> execute sv et ex w request finish st = (r, u, ns) \<Longrightarrow>
    tool_history svc u ms st' \<Longrightarrow> tool_history svc st (ns @ ms) st'"
| history_other: "journal_trace svc (tx_store st) ls (tx_store u) \<Longrightarrow> tool_history svc u ms st' \<Longrightarrow>
    tool_history svc st ms st'"

definition runs_of :: "string \<Rightarrow> 'v tool_note list \<Rightarrow> nat" where
  "runs_of k ns = length (filter (\<lambda>(q, j). j = k) (invocations ns))"

lemma runs_of_append: "runs_of k (ms @ ns) = runs_of k ms + runs_of k ns"
  by (simp add: runs_of_def)

lemma store_continues_None: "store_continues s s' \<Longrightarrow> getToolEffect s' k = None \<Longrightarrow> getToolEffect s k = None"
  unfolding store_continues_def by (metis not_Some_eq option.distinct(1))

lemma store_continues_present: "store_continues s s' \<Longrightarrow> getToolEffect s k \<noteq> None \<Longrightarrow> getToolEffect s' k \<noteq> None"
  by (rule notI) (drule (1) store_continues_None, simp)

lemma call_runs:
  assumes "journaled svc w" and "execute sv et ex w request finish st = (r, u, ns)" and "k \<noteq> []"
  shows "runs_of k ns = 0 \<or> runs_of k ns = 1 \<and> getToolEffect (tx_store st) k = None
    \<and> getToolEffect (tx_store u) k \<noteq> None"
proof (cases "invocations ns = []")
  case False
  then obtain b q j where "ran sv et ex w b q j r st u ns" using execute_runs(2) [OF assms(1,2)] by blast
  then obtain r0 where j: "invocations ns = [(q, j)]" "effect_recorded sv b q j r0 (tx_store st) (tx_store u)"
    unfolding ran_def by blast
  then show ?thesis using assms(3)
    by (auto simp: runs_of_def effect_recorded_def effect_settled_def split: if_splits)
qed (simp add: runs_of_def)

lemma history_runs:
  "tool_history svc st ns st' \<Longrightarrow> k \<noteq> [] \<Longrightarrow>
     runs_of k ns \<le> 1 \<and> (getToolEffect (tx_store st) k \<noteq> None \<longrightarrow> runs_of k ns = 0)"
proof (induction rule: tool_history.induct)
  case (history_nil st)
  then show ?case by (simp add: runs_of_def)
next
  case (history_call w sv et ex request finish st r u ns ms st')
  note c = call_runs [OF history_call.hyps(1,2) history_call.prems]
  have "getToolEffect (tx_store u) k \<noteq> None" if "getToolEffect (tx_store st) k \<noteq> None"
    by (rule store_continues_present [OF execute_runs(1) [OF history_call.hyps(1,2)] that])
  then show ?case using c history_call.IH [OF history_call.prems] by (auto simp: runs_of_append)
next
  case (history_other st ls u ms st')
  have "getToolEffect (tx_store u) k \<noteq> None" if "getToolEffect (tx_store st) k \<noteq> None"
    by (rule store_continues_present [OF store_continues_trace [OF history_other.hyps(1)] that])
  then show ?case using history_other.IH [OF history_other.prems] by simp
qed

lemma security_boundary:
  assumes "evaluate_security sv et ex q b priv = (d, None)"
  shows "\<exists>scope. dec_allowed d \<and> dec_capability d = requested_capability (security_request (security_call_of sv ex q b priv) scope)
    \<and> dec_allowed (Evaluate (ex_policy ex) (security_request (security_call_of sv ex q b priv) scope))
    \<and> (\<forall>authorize. ex_authorize ex = Some authorize \<longrightarrow> authorize q scope = Authorized)
    \<and> within_boundary (security_call_of sv ex q b priv) scope"
proof -
  let ?x = "security_call_of sv ex q b priv"
  have e: "evaluateSecurity ?x = (d, None)"
    using assms by (auto simp: evaluate_security_def Let_def split: prod.splits)
  then obtain scope where "check_scope ?x scope = (d, None)"
    by (auto simp: evaluateSecurity_def split: option.splits sum.splits)
  from check_scope_boundary [OF this] show ?thesis by (auto simp: security_call_of_def)
qed

lemma planning_needs_no_journal: "AllowsPlanning c \<Longrightarrow> \<not> RequiresJournal c"
  by (auto simp: AllowsPlanning_def RequiresJournal_def JournalMode_def NormalizeCapability_def default_to_def Let_def
      split: if_splits)

lemma call_ran:
  assumes "journaled svc w" and "execute sv et ex w request finish st = (r, st', ns)" and "InvokedNote q k \<in> set ns"
  obtains b c where
    "prepareCall sv (ex_resolve ex) (xr_tool request) (normalizeArguments (xr_arguments request)) = (Some b, c, None)"
    "q = prepared_request ex c request" "ex_plan_only ex \<Longrightarrow> AllowsPlanning (bd_security b)"
    "ran sv et ex w b q k r st st' ns"
proof -
  have q: "(q, k) \<in> set (invocations ns)" using assms(3) by (simp add: invocations_set)
  then have "invocations ns \<noteq> []" by auto
  from execute_runs(2) [OF assms(1,2) this] obtain b c q' k' where
    "prepareCall sv (ex_resolve ex) (xr_tool request) (normalizeArguments (xr_arguments request)) = (Some b, c, None)"
    "q' = prepared_request ex c request" "ex_plan_only ex \<longrightarrow> AllowsPlanning (bd_security b)"
    and r: "ran sv et ex w b q' k' r st st' ns" by blast
  moreover have "q' = q \<and> k' = k" using r q by (simp add: ran_def)
  ultimately show thesis using that by blast
qed

text \<open>A concrete executor: a journalled local write that the policy allows and logs.\<close>

definition write_security :: capability where
  "write_security = \<lparr>cap_source = SourceLocal,
     cap_scope = \<lparr>ts_resources = [\<lparr>res_kind = ResourceRun, res_name = ''n'', res_access = AccessWrite\<rparr>],
       ts_network = \<lparr>net_mode = NetworkNone, net_targets = []\<rparr>, ts_credentials = []\<rparr>,
     cap_side_effect = SideEffectInternalWrite, cap_rate = RateBounded, cap_reversibility = Reversible,
     cap_visibility = VisibilityRun, cap_approval = ApprovalNone, cap_audit = AuditBasic\<rparr>"

definition write_binding :: binding where
  "write_binding = \<lparr>bd_security = write_security, bd_concurrency = ConcurrencySerial, bd_timeout = 0, bd_max_result = 0,
     bd_resolve_scope = None, bd_revision = ''v'', bd_validate = Some (\<lambda>args. (Some args, None))\<rparr>"

definition write_policy :: security_policy where
  "write_policy = \<lparr>sp_version = ''p'', sp_default_action = ActionDeny,
     sp_rules = [\<lparr>sr_id = ''r'', sr_tool = ''w'', sr_action = ActionAllowAndLog, sr_capability = write_security\<rparr>]\<rparr>"

definition write_executor :: executor where
  "write_executor = \<lparr>ex_plan_only = False, ex_authorize = None, ex_resolve = [''w'' \<mapsto> write_binding],
     ex_policy = write_policy, ex_timeout = 1, ex_max_result = 9, ex_credentials = [],
     ex_tracer = Some \<lparr>tr_policy = True, tr_progress = True\<rparr>, ex_max_concurrency = 1, ex_journal = True,
     ex_governor = \<lparr>gv_store = False, gv_max_bytes = 9, gv_preview_bytes = 9, gv_retention = 1\<rparr>, ex_max_batch = 9\<rparr>"

definition plain_services :: "string tool_services" where
  "plain_services = \<lparr>tv_svc = \<lparr>redact_text = (\<lambda>s. s), redact_map = (\<lambda>p. p), check_payload = (\<lambda>e. None)\<rparr>,
     tv_redact_json = (\<lambda>s. Some (s, 0)), tv_clean = (\<lambda>s. True), tv_digest = (\<lambda>s. ''d''), tv_compact = Some,
     tv_marshal = Some, tv_marshal_result = (\<lambda>r. Some ''{}''), tv_unmarshal_result = (\<lambda>s. None),
     tv_quoted = (\<lambda>s. s), tv_duration = (\<lambda>n. [])\<rparr>"

definition plain_texts :: error_texts where
  "plain_texts = \<lparr>et_effect = (\<lambda>e. []), et_usage = (\<lambda>e. []), et_artifact = (\<lambda>e. []), et_available = (\<lambda>s. s),
     et_leaks = (\<lambda>s. False)\<rparr>"

definition quiet_world :: "string handler_end \<Rightarrow> string call_world" where
  "quiet_world e = \<lparr>cw_others = (\<lambda>m s. s), cw_time = (\<lambda>m. 1), cw_audit_error = None, cw_tracker = None,
     cw_purpose = UsagePurposePrimary, cw_operation = [], cw_usage_id = [], cw_visit = (\<lambda>x. x),
     cw_canceled = False, cw_deadline = False, cw_end = e, cw_elapsed = 0\<rparr>"

definition write_request :: execution_request where
  "write_request = \<lparr>xr_call_id = ''c'', xr_run_id = ''run'', xr_stage_id = [], xr_turn_id = ''t'', xr_key = [],
     xr_tool = ''w'', xr_arguments = ''{}'', xr_revision = [], xr_arguments_hash = [],
     xr_credentials = []\<rparr>"

definition fresh_state :: tool_state where
  "fresh_state = \<lparr>tx_store = example_store, tx_usage = [], tx_artifacts = [], tx_guard = None, tx_private = False\<rparr>"

definition write_call :: "string handler_end \<Rightarrow> tool_state \<Rightarrow> string execution_result \<times> tool_state \<times> string tool_note list" where
  "write_call e = execute plain_services plain_texts write_executor (quiet_world e) write_request True"

definition write_prepared :: execution_request where
  "write_prepared = write_request\<lparr>xr_revision := ''v'', xr_arguments_hash := ''sha256:d''\<rparr>"

lemma quiet_journaled: "journaled svc (quiet_world e)"
  unfolding journaled_def quiet_world_def by (auto intro: trace_nil)

definition write_decision :: decision where
  "write_decision = \<lparr>dec_action = ActionAllowAndLog, dec_allowed = True, dec_version = ''p'', dec_rule_id = ''r'',
     dec_reason = ''policy_allowed'', dec_capability = write_security\<rparr>"

definition write_validated :: validated_call where
  "write_validated = \<lparr>vc_arguments = ''{}'', vc_revision = ''v'', vc_arguments_hash = ''sha256:d''\<rparr>"

lemma write_authorized:
  "evaluate_security plain_services plain_texts write_executor write_prepared write_binding False = (write_decision, None)"
  by code_simp

lemma write_arguments: "normalizeArguments ''{}'' = ''{}''"
  by code_simp

lemma write_contract:
  "prepareCall plain_services (ex_resolve write_executor) ''w'' ''{}'' = (Some write_binding, write_validated, None)"
  by (simp add: prepareCall_def write_executor_def write_binding_def write_arguments write_validated_def
      argumentsHash_def plain_services_def)

lemma write_request_prepared: "prepared_request write_executor write_validated write_request = write_prepared"
  by (simp add: prepared_request_def write_executor_def write_validated_def write_request_def write_prepared_def)

lemma write_begins:
  "beginSideEffect plain_services plain_texts write_executor (quiet_world e) write_prepared SideEffectInternal r fresh_state
   = (''tool_effect_d'', True, r,
      fresh_state\<lparr>tx_store := example_store\<lparr>rs_effects := [(effect_of (tv_digest plain_services) write_prepared)
        \<lparr>eff_status := ToolEffectExecuting, eff_version := 1, eff_created_at := 1, eff_updated_at := 1\<rparr>]\<rparr>\<rparr>)"
proof -
  have "trim_space ''run'' = ''run''" "trim_space ''t'' = ''t''" "trim_space ''c'' = ''c''" "trim_space ''w'' = ''w''"
    "trim_space [] = []" "trim_space ''sha256:d'' = ''sha256:d''" "trim_space ''tool_effect_d'' = ''tool_effect_d''"
    by code_simp+
  then show ?thesis
    by (simp add: beginSideEffect_def write_prepared_def write_request_def write_executor_def effect_key_def
        sideEffectKey_def hashExecutionIdentity_def plain_services_def quiet_world_def fresh_state_def
        BeginToolEffect_def effect_of_def ValidateToolEffect_def sideEffectRequestHash_def getToolEffect_def
        example_store_def empty_store_def get_run_def example_run_def Let_def)
qed

lemma write_journal: "JournalMode (bd_security write_binding) = Some SideEffectInternal"
  "UsesPrivateResources (dec_capability write_decision)" "AuditRequired write_decision"
  by (simp_all add: JournalMode_def write_binding_def write_security_def write_decision_def UsesPrivateResources_def
      AuditRequired_def)

lemma write_call_invokes: "invocations (snd (snd (write_call e fresh_state))) = [(write_prepared, ''tool_effect_d'')]"
proof -
  let ?r = "(empty_result write_request write_validated None)\<lparr>xs_policy := Some write_decision, xs_private := True\<rparr>"
  let ?st = "fresh_state\<lparr>tx_private := True\<rparr>"
  obtain key go r1 st1 where b: "beginSideEffect plain_services plain_texts write_executor (quiet_world e) write_prepared
      SideEffectInternal ?r ?st = (key, go, r1, st1)" by (metis surj_pair)
  have "beginSideEffect plain_services plain_texts write_executor (quiet_world e) write_prepared SideEffectInternal ?r ?st
    = (let (k, g, r, st) = beginSideEffect plain_services plain_texts write_executor (quiet_world e) write_prepared
         SideEffectInternal ?r fresh_state in (k, g, r, st\<lparr>tx_private := True\<rparr>))"
    by (simp add: beginSideEffect_def Let_def split: sum.split prod.split)
  then have key: "key = ''tool_effect_d''" "go" "r1 = ?r" using b write_begins by auto
  obtain r2 st2 where h: "run_handler plain_services plain_texts write_executor (quiet_world e) write_prepared key
      (effective (bd_timeout write_binding) (ex_timeout write_executor))
      (effective (bd_max_result write_binding) (ex_max_result write_executor)) r1 st1 = (r2, st2)" by force
  have "execute_allowed plain_services plain_texts write_executor (quiet_world e) write_prepared write_binding ?r ?st
      = (r2, st2, [InvokedNote write_prepared key])"
    using b h key by (simp add: execute_allowed_def charge_budget_def quiet_world_def write_journal empty_result_def Let_def)
  moreover obtain r3 st3 os where o1: "observeProgress plain_services write_executor write_prepared (Some write_binding)
      (progressCall plain_services write_prepared (Some write_binding)) r2 st2 = (r3, st3, os)" by (metis surj_pair)
  ultimately have "execute_guarded plain_services plain_texts write_executor (quiet_world e) write_prepared write_binding ?r ?st
      = (r3, st3, InvokedNote write_prepared key # os)"
    by (simp add: execute_guarded_def applyProgressBefore_def fresh_state_def)
  then have "execute_prepared plain_services plain_texts write_executor (quiet_world e) write_prepared (Some write_binding)
      (empty_result write_request write_validated None) fresh_state
      = (r3, st3, PolicyNote write_prepared write_decision # InvokedNote write_prepared key # os)"
    using write_authorized
    by (simp add: execute_prepared_def execute_checked_def empty_result_def fresh_state_def write_journal
        protect_private_def tracePolicyDecision_def implements_def write_executor_def quiet_world_def)
  then show ?thesis using observeProgress_fields(2) [OF o1] key(1) write_contract write_request_prepared
    by (simp add: write_call_def execute_def write_request_def write_arguments Let_def)
qed

text \<open>
  C28: In any history of calls over one store, with any other store operations before, during
  and after them, a handler runs at most once under one journal key, and never when the journal
  already holds a row of that key.
\<close>

theorem handler_at_most_once:
  assumes "tool_history svc st ns st'" and "k \<noteq> []"
  shows "runs_of k ns \<le> 1 \<and> (getToolEffect (tx_store st) k \<noteq> None \<longrightarrow> runs_of k ns = 0)"
  using assms by (rule history_runs)

lemma write_twice: "\<exists>st'. tool_history svc fresh_state
    (snd (snd (write_call Interrupted fresh_state))
     @ snd (snd (write_call (HandlerReturned v) (fst (snd (write_call Interrupted fresh_state))))) @ []) st'"
proof -
  obtain r1 u1 n1 where a: "write_call Interrupted fresh_state = (r1, u1, n1)" by (metis surj_pair)
  obtain r2 u2 n2 where b: "write_call (HandlerReturned v) u1 = (r2, u2, n2)" by (metis surj_pair)
  show ?thesis
    using history_call [OF quiet_journaled a [unfolded write_call_def]
        history_call [OF quiet_journaled b [unfolded write_call_def] history_nil]] a b by auto
qed

lemma handler_at_most_once_witness:
  "runs_of ''tool_effect_d'' (snd (snd (write_call Interrupted fresh_state))) = 1
   \<and> runs_of ''tool_effect_d''
        (snd (snd (write_call (HandlerReturned ''7'') (fst (snd (write_call Interrupted fresh_state)))))) = 0"
proof -
  let ?first = "snd (snd (write_call Interrupted fresh_state))"
    and ?second = "snd (snd (write_call (HandlerReturned ''7'') (fst (snd (write_call Interrupted fresh_state)))))"
  have one: "runs_of ''tool_effect_d'' ?first = 1" by (simp add: runs_of_def write_call_invokes)
  obtain st' where "tool_history (tv_svc plain_services) fresh_state (?first @ ?second @ []) st'"
    using write_twice by blast
  from handler_at_most_once [OF this, of "''tool_effect_d''"] one show ?thesis by (simp add: runs_of_append)
qed

text \<open>
  C29: A handler runs only for a call that satisfied its argument contract, that the policy
  allowed for the scope it asked for, that the Workspace authorized, and that keeps the data
  boundary; where the policy demands an audit, the decision was persisted. The handler of a tool
  with side effects, and only such a handler, runs under a journal key; a plan-only executor runs
  none of them.
\<close>

theorem handler_run_authorized:
  assumes "journaled svc w" and "execute sv et ex w request finish st = (r, st', ns)" and "InvokedNote q k \<in> set ns"
  shows "\<exists>b c d scope.
      prepareCall sv (ex_resolve ex) (xr_tool request) (normalizeArguments (xr_arguments request)) = (Some b, c, None)
      \<and> q = prepared_request ex c request
      \<and> evaluate_security sv et ex q b (tx_private st) = (d, None)
      \<and> dec_allowed (Evaluate (ex_policy ex) (security_request (security_call_of sv ex q b (tx_private st)) scope))
      \<and> (\<forall>authorize. ex_authorize ex = Some authorize \<longrightarrow> authorize q scope = Authorized)
      \<and> within_boundary (security_call_of sv ex q b (tx_private st)) scope
      \<and> dec_allowed d \<and> (AuditRequired d \<longrightarrow> PolicyNote q d \<in> set ns \<and> cw_audit_error w = None)
      \<and> (RequiresJournal (bd_security b) \<longleftrightarrow> k \<noteq> [])
      \<and> (ex_plan_only ex \<longrightarrow> k = [] \<and> AllowsPlanning (bd_security b))"
proof -
  obtain b c where c:
    "prepareCall sv (ex_resolve ex) (xr_tool request) (normalizeArguments (xr_arguments request)) = (Some b, c, None)"
    "q = prepared_request ex c request" "ex_plan_only ex \<Longrightarrow> AllowsPlanning (bd_security b)"
    and ran: "ran sv et ex w b q k r st st' ns"
    using call_ran [OF assms] by blast
  obtain d r0 where d: "evaluate_security sv et ex q b (tx_private st) = (d, None)"
    "AuditRequired d \<longrightarrow> PolicyNote q d \<in> set ns \<and> cw_audit_error w = None"
    "effect_recorded sv b q k r0 (tx_store st) (tx_store st')"
    using ran unfolding ran_def by (elim conjE exE)
  have "RequiresJournal (bd_security b) \<longleftrightarrow> k \<noteq> []" using d(3) by (auto simp: effect_recorded_def split: if_splits)
  then show ?thesis using c d(1,2) security_boundary [OF d(1)] planning_needs_no_journal by blast
qed

lemma handler_run_authorized_witness:
  "PolicyNote write_prepared write_decision \<in> set (snd (snd (write_call Interrupted fresh_state)))
   \<and> RequiresJournal (bd_security write_binding)
   \<and> (\<exists>scope. dec_allowed (Evaluate write_policy
        (security_request (security_call_of plain_services write_executor write_prepared write_binding False) scope)))"
proof -
  obtain r u ns where a: "write_call Interrupted fresh_state = (r, u, ns)" by (metis surj_pair)
  have "InvokedNote write_prepared ''tool_effect_d'' \<in> set ns"
    using write_call_invokes [of Interrupted] a invocations_set [of write_prepared "''tool_effect_d''" ns] by simp
  from handler_run_authorized [OF quiet_journaled a [unfolded write_call_def] this]
  obtain b c d scope where b:
    "prepareCall plain_services (ex_resolve write_executor) (xr_tool write_request)
       (normalizeArguments (xr_arguments write_request)) = (Some b, c, None)"
    "evaluate_security plain_services plain_texts write_executor write_prepared b (tx_private fresh_state) = (d, None)"
    "dec_allowed (Evaluate (ex_policy write_executor)
       (security_request (security_call_of plain_services write_executor write_prepared b (tx_private fresh_state)) scope))"
    "AuditRequired d \<longrightarrow> PolicyNote write_prepared d \<in> set ns"
    "RequiresJournal (bd_security b)" by blast
  have "b = write_binding" using b(1) write_contract write_arguments by (simp add: write_request_def)
  moreover have "d = write_decision" using b(2) write_authorized calculation by (simp add: fresh_state_def)
  ultimately show ?thesis using b(3-5) a write_journal(3) by (auto simp: fresh_state_def write_executor_def)
qed

text \<open>
  C30: A call whose handler ran under a journal key leaves the row of that key settled: the row
  was new, belongs to the request, and is neither prepared nor executing any more, whether the
  handler returned, failed, panicked, was cancelled or timed out. A call that reports no error has
  committed its effect, and the stored result is the encoded, redacted result it returned.
\<close>

theorem call_settles_effect:
  assumes "journaled svc w" and "execute sv et ex w request finish st = (r, st', ns)"
    and "InvokedNote q k \<in> set ns" and "k \<noteq> []"
  shows "getToolEffect (tx_store st) k = None \<and> k = effect_key (tv_digest sv) q
    \<and> (\<exists>e e' r0. begun (tv_digest sv) q e \<and> getToolEffect (tx_store st') k = Some e' \<and> same_request e e'
        \<and> settled_status (eff_status e') \<and> same_result r0 r
        \<and> (xs_error r = None \<longrightarrow> eff_status e' = ToolEffectCommitted \<and> persisted_as sv r0 (eff_result e')))"
proof -
  obtain b where ran: "ran sv et ex w b q k r st st' ns" using call_ran [OF assms(1-3)] by blast
  then obtain r0 where r0: "same_result r0 r" "effect_recorded sv b q k r0 (tx_store st) (tx_store st')"
    unfolding ran_def by blast
  then obtain e where k: "k = effect_key (tv_digest sv) q" "getToolEffect (tx_store st) k = None"
    and e: "begun (tv_digest sv) q e" "effect_settled sv e r0 (tx_store st') k"
    using assms(4) by (auto simp: effect_recorded_def split: if_splits)
  have "xs_error r = xs_error r0"
    using r0(1) unfolding same_result_def by (metis execution_result.select_convs(7) execution_result.surjective
        execution_result.update_convs(8,15,16))
  moreover obtain e' where "getToolEffect (tx_store st') k = Some e'" "continues e e'" "settled_status (eff_status e')"
    "xs_error r0 = None \<longrightarrow> eff_status e' = ToolEffectCommitted \<and> persisted_as sv r0 (eff_result e')"
    using e(2) unfolding effect_settled_def by (elim conjE exE)
  ultimately have "begun (tv_digest sv) q e \<and> getToolEffect (tx_store st') k = Some e' \<and> same_request e e'
      \<and> settled_status (eff_status e') \<and> same_result r0 r
      \<and> (xs_error r = None \<longrightarrow> eff_status e' = ToolEffectCommitted \<and> persisted_as sv r0 (eff_result e'))"
    using e(1) r0(1) by (simp add: continues_def)
  then show ?thesis using k by (intro conjI exI) auto
qed

lemma call_settles_effect_witness:
  "\<exists>e. getToolEffect (tx_store (fst (snd (write_call Interrupted fresh_state)))) ''tool_effect_d'' = Some e
     \<and> settled_status (eff_status e) \<and> eff_tool_call_id e = ''c''"
proof -
  obtain r u ns where a: "write_call Interrupted fresh_state = (r, u, ns)" by (metis surj_pair)
  have "InvokedNote write_prepared ''tool_effect_d'' \<in> set ns"
    using write_call_invokes [of Interrupted] a invocations_set [of write_prepared "''tool_effect_d''" ns] by simp
  from call_settles_effect [OF quiet_journaled a [unfolded write_call_def] this]
  obtain e e' where "begun (tv_digest plain_services) write_prepared e" "same_request e e'"
    "getToolEffect (tx_store u) ''tool_effect_d'' = Some e'" "settled_status (eff_status e')" by blast
  then show ?thesis using a by (auto simp: begun_def same_request_def write_prepared_def write_request_def)
qed

end
