(* ===== verification/Batch_Guarantees.thy ===== *)
theory Batch_Guarantees
  imports Tool_Batch Executor_Guarantees
begin

text \<open>
  What batches of tool calls guarantee: the groups of a parallel batch partition its calls, keep
  their order and never split a key; and the bytes that a batch accounts for
  stay within its budget, results being truncated only where they do not fit.
\<close>

section \<open>Groups\<close>

text \<open>Whether a call may run in parallel at all, and the key that orders it, if any.\<close>

definition class_of ::
  "(string \<Rightarrow> (string \<rightharpoonup> string) option) \<Rightarrow> (string \<Rightarrow> bool) \<Rightarrow> (string \<rightharpoonup> binding) \<Rightarrow> execution_request
    \<Rightarrow> string option option" where
  "class_of object_of scalar resolve q =
     (case resolve (xr_tool q) of
        None \<Rightarrow> None
      | Some b \<Rightarrow>
          (case bd_concurrency b of
             ConcurrencySerial \<Rightarrow> None
           | ConcurrencyReadOnly \<Rightarrow> Some None
           | ConcurrencyKeyed argument \<Rightarrow> map_option Some (concurrencyKey object_of scalar argument (xr_arguments q))))"

lemma place_request_class:
  "place_request object_of scalar resolve item g =
     (case class_of object_of scalar resolve (snd item) of
        None \<Rightarrow> None
      | Some None \<Rightarrow> Some (g\<lparr>bg_groups := bg_groups g @ [[item]]\<rparr>)
      | Some (Some key) \<Rightarrow>
          (case bg_keyed g key of
             Some i \<Rightarrow> Some (g\<lparr>bg_groups := (bg_groups g)[i := bg_groups g ! i @ [item]]\<rparr>)
           | None \<Rightarrow> Some (g\<lparr>bg_keyed := (bg_keyed g)(key \<mapsto> length (bg_groups g)),
               bg_groups := bg_groups g @ [[item]]\<rparr>)))"
  by (simp add: place_request_def class_of_def split: option.split concurrency_mode.split)

text \<open>
  The invariant of the loop after \<open>n\<close> requests, the items \<open>xs\<close>. \<open>cls\<close> is the class of an item.
\<close>

definition groups_ok :: "(indexed_request \<Rightarrow> string option) \<Rightarrow> nat \<Rightarrow> indexed_request list \<Rightarrow> batch_groups \<Rightarrow> bool" where
  "groups_ok cls n xs g \<longleftrightarrow> mset (concat (bg_groups g)) = mset xs
     \<and> (\<forall>grp \<in> set (bg_groups g). grp \<noteq> [] \<and> sorted_wrt (<) (map fst grp) \<and> (\<forall>x \<in> set grp. fst x < n))
     \<and> (\<forall>k i. bg_keyed g k = Some i \<longrightarrow> i < length (bg_groups g) \<and> (\<forall>x \<in> set (bg_groups g ! i). cls x = Some k))
     \<and> (\<forall>i < length (bg_groups g). (\<exists>x. bg_groups g ! i = [x] \<and> cls x = None) \<or> (\<exists>k. bg_keyed g k = Some i))"

lemma concat_update:
  "i < length gs \<Longrightarrow> mset (concat (gs[i := gs ! i @ [x]])) = add_mset x (mset (concat gs))"
proof (induction gs arbitrary: i)
  case (Cons g gs)
  then show ?case by (cases i) simp_all
qed simp

lemma groups_ok_single:
  assumes "groups_ok cls n xs g" and "fst item = n" and "cls item = None"
  shows "groups_ok cls (Suc n) (xs @ [item]) (g\<lparr>bg_groups := bg_groups g @ [[item]]\<rparr>)"
  using assms by (cases item) (auto simp: groups_ok_def nth_append less_Suc_eq)

lemma groups_ok_new:
  assumes "groups_ok cls n xs g" and "fst item = n" and "cls item = Some k" and "bg_keyed g k = None"
  shows "groups_ok cls (Suc n) (xs @ [item])
    (g\<lparr>bg_keyed := (bg_keyed g)(k \<mapsto> length (bg_groups g)), bg_groups := bg_groups g @ [[item]]\<rparr>)"
proof -
  have "(\<exists>x. bg_groups g ! i = [x] \<and> cls x = None) \<or> (\<exists>j. ((bg_keyed g)(k \<mapsto> length (bg_groups g))) j = Some i)"
    if i: "i < length (bg_groups g)" for i
  proof -
    from assms(1) i consider "\<exists>x. bg_groups g ! i = [x] \<and> cls x = None" | j where "bg_keyed g j = Some i"
      unfolding groups_ok_def by blast
    then show ?thesis
    proof cases
      case 2
      then have "j \<noteq> k" using assms(4) by auto
      then show ?thesis using 2 by (intro disjI2 exI [of _ j]) simp
    qed blast
  qed
  then show ?thesis using assms by (auto simp: groups_ok_def nth_append less_Suc_eq)
qed

lemma groups_ok_member:
  assumes "groups_ok cls n xs g" and "fst item = n" and "cls item = Some k" and "bg_keyed g k = Some i"
  shows "groups_ok cls (Suc n) (xs @ [item]) (g\<lparr>bg_groups := (bg_groups g)[i := bg_groups g ! i @ [item]]\<rparr>)"
proof -
  let ?gs = "(bg_groups g)[i := bg_groups g ! i @ [item]]"
  have i: "i < length (bg_groups g)" and old: "\<forall>x \<in> set (bg_groups g ! i). cls x = Some k"
    using assms by (simp_all add: groups_ok_def)
  have keyed: "bg_keyed g j = Some m \<Longrightarrow> m < length (bg_groups g) \<and> (\<forall>x \<in> set (bg_groups g ! m). cls x = Some j)" for j m
    using assms(1) unfolding groups_ok_def by blast
  have grp: "grp \<noteq> [] \<and> sorted_wrt (<) (map fst grp) \<and> (\<forall>x \<in> set grp. fst x < n)" if "grp \<in> set (bg_groups g)" for grp
    using assms(1) that unfolding groups_ok_def by blast
  have "grp \<noteq> [] \<and> sorted_wrt (<) (map fst grp) \<and> (\<forall>x \<in> set grp. fst x < Suc n)" if "grp \<in> set ?gs" for grp
  proof (cases "grp = bg_groups g ! i @ [item]")
    case True
    then show ?thesis using grp [of "bg_groups g ! i"] i assms(2)
      by (auto simp: sorted_wrt_append less_Suc_eq)
  next
    case False
    then have "grp \<in> set (bg_groups g)" using that set_update_subset_insert [of "bg_groups g"] by blast
    then show ?thesis using grp less_SucI by blast
  qed
  moreover have "m < length ?gs \<and> (\<forall>x \<in> set (?gs ! m). cls x = Some j)" if "bg_keyed g j = Some m" for j m
  proof (cases "m = i")
    case True
    have "j = k" using grp [OF nth_mem [OF i]] keyed [OF that] True old by (cases "bg_groups g ! i") auto
    then show ?thesis using True i old assms(3) by auto
  next
    case False
    then show ?thesis using keyed [OF that] by simp
  qed
  moreover have "(\<exists>x. ?gs ! j = [x] \<and> cls x = None) \<or> (\<exists>l. bg_keyed g l = Some j)"
    if j: "j < length ?gs" for j
    using assms(1,4) j unfolding groups_ok_def by (cases "j = i") auto
  moreover have "mset (concat ?gs) = mset (xs @ [item])"
    using concat_update [OF i] assms(1) by (simp add: groups_ok_def)
  ultimately show ?thesis using assms(1) unfolding groups_ok_def by simp
qed

lemma place_request_ok:
  assumes "groups_ok (\<lambda>x. the (class_of object_of scalar resolve (snd x))) n xs g" and "fst item = n"
    and "place_request object_of scalar resolve item g = Some g'"
  shows "groups_ok (\<lambda>x. the (class_of object_of scalar resolve (snd x))) (Suc n) (xs @ [item]) g'"
  using assms groups_ok_single [OF assms(1,2)] groups_ok_new [OF assms(1,2)] groups_ok_member [OF assms(1,2)]
  by (auto simp: place_request_class split: option.splits)

lemma place_requests_ok:
  "groups_ok (\<lambda>x. the (class_of object_of scalar resolve (snd x))) n xs g \<Longrightarrow>
   place_requests object_of scalar resolve (enumerate n qs) g = Some g' \<Longrightarrow>
     groups_ok (\<lambda>x. the (class_of object_of scalar resolve (snd x))) (n + length qs) (xs @ enumerate n qs) g'"
proof (induction qs arbitrary: n xs g)
  case (Cons q qs)
  obtain h where h: "place_request object_of scalar resolve (n, q) g = Some h"
    "place_requests object_of scalar resolve (enumerate (Suc n) qs) h = Some g'"
    using Cons.prems(2) by (auto split: option.splits)
  show ?case
    using Cons.IH [OF place_request_ok [OF Cons.prems(1) _ h(1)] h(2)] by simp
qed simp

lemma place_requests_None:
  "place_requests object_of scalar resolve items g = None \<longleftrightarrow>
     (\<exists>x \<in> set items. class_of object_of scalar resolve (snd x) = None)"
proof (induction items arbitrary: g)
  case (Cons item items)
  have "place_request object_of scalar resolve item g = None \<longleftrightarrow> class_of object_of scalar resolve (snd item) = None"
    by (auto simp: place_request_class split: option.splits)
  then show ?case using Cons by (auto split: option.splits)
qed simp

text \<open>
  C31: A batch is run serially if one of its tools is unknown or serial or has no usable key.
  Otherwise its groups contain every call exactly once, each group in the order of the batch; a
  group of several calls has one key, and calls of one key are never in different groups.
\<close>

theorem concurrentGroups_partition:
  shows "(concurrentGroups object_of scalar resolve qs = None \<longleftrightarrow> (\<exists>q \<in> set qs. class_of object_of scalar resolve q = None))
    \<and> (\<forall>groups. concurrentGroups object_of scalar resolve qs = Some groups \<longrightarrow>
        mset (concat groups) = mset (enumerate 0 qs)
        \<and> (\<forall>grp \<in> set groups. sorted_wrt (<) (map fst grp))
        \<and> (\<forall>grp \<in> set groups. \<forall>x \<in> set grp. \<forall>y \<in> set grp.
             x = y \<or> (\<exists>k. class_of object_of scalar resolve (snd x) = Some (Some k)
               \<and> class_of object_of scalar resolve (snd y) = Some (Some k)))
        \<and> (\<forall>i j. i < length groups \<and> j < length groups \<and> i \<noteq> j \<longrightarrow>
             (\<forall>x \<in> set (groups ! i). \<forall>y \<in> set (groups ! j). \<forall>k.
               \<not> (class_of object_of scalar resolve (snd x) = Some (Some k)
                  \<and> class_of object_of scalar resolve (snd y) = Some (Some k)))))"
proof (intro conjI allI impI)
  let ?cls = "class_of object_of scalar resolve"
  let ?place = "place_requests object_of scalar resolve (enumerate 0 qs) \<lparr>bg_groups = [], bg_keyed = Map.empty\<rparr>"
  show "concurrentGroups object_of scalar resolve qs = None \<longleftrightarrow> (\<exists>q \<in> set qs. ?cls q = None)"
  proof -
    have "(\<exists>x \<in> set (enumerate 0 qs). ?cls (snd x) = None) \<longleftrightarrow> (\<exists>q \<in> snd ` set (enumerate 0 qs). ?cls q = None)"
      by blast
    also have "snd ` set (enumerate 0 qs) = set qs" using map_snd_enumerate [of 0 qs] set_map by metis
    finally show ?thesis by (simp add: concurrentGroups_def place_requests_None)
  qed
  fix groups
  assume "concurrentGroups object_of scalar resolve qs = Some groups"
  then obtain g where g: "?place = Some g" "groups = bg_groups g" by (auto simp: concurrentGroups_def)
  have "groups_ok (\<lambda>x. the (?cls (snd x))) 0 [] \<lparr>bg_groups = [], bg_keyed = Map.empty\<rparr>" by (simp add: groups_ok_def)
  from place_requests_ok [OF this g(1)] have ok: "groups_ok (\<lambda>x. the (?cls (snd x))) (length qs) (enumerate 0 qs) g" by simp
  then show m: "mset (concat groups) = mset (enumerate 0 qs)" by (simp add: groups_ok_def g(2))
  show "\<forall>grp \<in> set groups. sorted_wrt (<) (map fst grp)" using ok by (simp add: groups_ok_def g(2))
  have known: "?cls (snd x) \<noteq> None" if "grp \<in> set groups" "x \<in> set grp" for grp x
  proof -
    have "x \<in> set (enumerate 0 qs)" using that arg_cong [OF m, of set_mset] by auto
    then show ?thesis
      using g(1) place_requests_None [of object_of scalar resolve "enumerate 0 qs" "\<lparr>bg_groups = [], bg_keyed = Map.empty\<rparr>"]
      by (metis option.distinct(1))
  qed
  have keyed: "(\<exists>x. groups ! i = [x] \<and> ?cls (snd x) = Some None)
      \<or> (\<exists>k. bg_keyed g k = Some i \<and> (\<forall>x \<in> set (groups ! i). ?cls (snd x) = Some (Some k)))"
    if i: "i < length groups" for i
  proof -
    from ok i consider x where "groups ! i = [x]" "the (?cls (snd x)) = None"
      | k where "bg_keyed g k = Some i" "\<forall>x \<in> set (groups ! i). the (?cls (snd x)) = Some k"
      unfolding groups_ok_def g(2) by blast
    then show ?thesis using known [OF nth_mem [OF i]] by cases force+
  qed
  show "\<forall>grp \<in> set groups. \<forall>x \<in> set grp. \<forall>y \<in> set grp.
      x = y \<or> (\<exists>k. ?cls (snd x) = Some (Some k) \<and> ?cls (snd y) = Some (Some k))"
  proof
    fix grp assume "grp \<in> set groups"
    then obtain i where "i < length groups" "grp = groups ! i" by (auto simp: in_set_conv_nth)
    then show "\<forall>x \<in> set grp. \<forall>y \<in> set grp. x = y \<or> (\<exists>k. ?cls (snd x) = Some (Some k) \<and> ?cls (snd y) = Some (Some k))"
      using keyed [of i] by auto
  qed
  fix i j assume "i < length groups \<and> j < length groups \<and> i \<noteq> j"
  then show "\<forall>x \<in> set (groups ! i). \<forall>y \<in> set (groups ! j). \<forall>k.
      \<not> (?cls (snd x) = Some (Some k) \<and> ?cls (snd y) = Some (Some k))"
    using keyed [of i] keyed [of j] by fastforce
qed

definition keyed_binding :: binding where
  "keyed_binding = write_binding\<lparr>bd_concurrency := ConcurrencyKeyed ''p''\<rparr>"

definition read_binding :: binding where
  "read_binding = write_binding\<lparr>bd_concurrency := ConcurrencyReadOnly\<rparr>"

definition mixed_batch :: "execution_request list" where
  "mixed_batch = [write_request, write_request\<lparr>xr_tool := ''r''\<rparr>, write_request\<lparr>xr_call_id := ''d''\<rparr>]"

definition any_object :: "string \<Rightarrow> (string \<rightharpoonup> string) option" where
  "any_object s = Some [''p'' \<mapsto> ''1'']"

definition mixed_groups :: "indexed_request list list option" where
  "mixed_groups = concurrentGroups any_object (\<lambda>s. True) [''w'' \<mapsto> keyed_binding, ''r'' \<mapsto> read_binding] mixed_batch"

lemma mixed_groups_eq: "mixed_groups = Some [[(0, mixed_batch ! 0), (2, mixed_batch ! 2)], [(1, mixed_batch ! 1)]]"
proof -
  have "trim_space ''1'' = ''1''" "trim_space ''p'' = ''p''" by code_simp+
  then show ?thesis
    by (simp add: mixed_groups_def concurrentGroups_def mixed_batch_def place_request_def write_request_def
        keyed_binding_def read_binding_def write_binding_def concurrencyKey_def any_object_def Let_def numeral_2_eq_2)
qed

lemma concurrentGroups_partition_witness:
  "sorted_wrt (<) (map fst [(0::nat, mixed_batch ! 0), (2, mixed_batch ! 2)])
   \<and> class_of any_object (\<lambda>s. True) [''w'' \<mapsto> keyed_binding, ''r'' \<mapsto> read_binding] (mixed_batch ! 0)
     = class_of any_object (\<lambda>s. True) [''w'' \<mapsto> keyed_binding, ''r'' \<mapsto> read_binding] (mixed_batch ! 2)"
proof -
  note p = conjunct2 [OF concurrentGroups_partition [of any_object "\<lambda>s. True"
      "[''w'' \<mapsto> keyed_binding, ''r'' \<mapsto> read_binding]" mixed_batch], rule_format, OF mixed_groups_eq [unfolded mixed_groups_def]]
  have "(0::nat, mixed_batch ! 0) \<noteq> (2, mixed_batch ! 2)" by simp
  with p show ?thesis by fastforce
qed

section \<open>The byte budget\<close>

text \<open>The bytes of one result that the batch accounts for: its preview, or the JSON it was encoded to.\<close>

definition preview_bytes :: "'v execution_result \<Rightarrow> int" where
  "preview_bytes r = (case xs_value r of Preview p reference err \<Rightarrow> int (length p) | _ \<Rightarrow> 0)"

definition batch_bytes :: "'v execution_result \<Rightarrow> 'v execution_result \<Rightarrow> int" where
  "batch_bytes r r' =
     (if xs_truncated r' then preview_bytes r'
      else if xs_error r = None then int (length (xs_encoded r)) else 0)"

lemma artifactDegraded_fields [simp]:
  "xs_truncated (artifactDegraded svc r safe limit message) = xs_truncated r"
  "xs_error (artifactDegraded svc r safe limit message) = xs_error r"
  by (simp_all add: artifactDegraded_def Let_def)

lemma govern_result_fields:
  assumes "govern_result sv et ex now q r encoded limit st = (r', st')"
  shows "xs_truncated r'" and "xs_error r' = xs_error r"
proof -
  have "xs_truncated (fst (govern sv g create now q r encoded limit t)) \<and>
      xs_error (fst (govern sv g create now q r encoded limit t)) = xs_error r" for g create t
  proof (cases "tv_redact_json sv encoded")
    case (Some x)
    obtain redacted n where x: "x = (redacted, n)" by force
    obtain y t' where y: "create (artifact_for (tv_digest sv) g now q encoded redacted n) redacted t = (y, t')" by force
    show ?thesis using Some x y by (cases y) (simp_all add: govern_def Let_def)
  qed (simp add: govern_def Let_def)
  note this [of "ex_governor ex" "create_artifact sv et" st]
  then show "xs_truncated r'" "xs_error r' = xs_error r"
    using assms by (simp_all add: govern_result_def)
qed

lemma boundArtifactPreview_bytes:
  assumes "boundArtifactPreview r limit = (r', n)"
  shows "n = preview_bytes r'" and "0 \<le> n" and "n \<le> max 0 limit" and "xs_truncated r' = xs_truncated r"
proof -
  have "n = preview_bytes r' \<and> 0 \<le> n \<and> n \<le> max 0 limit \<and> xs_truncated r' = xs_truncated r"
  proof (cases "xs_value r")
    case (Preview p reference err)
    have "length (truncateUTF8 p (min (nat limit) (length p))) \<le> nat limit"
      using truncateUTF8_length [of p "min (nat limit) (length p)"] by simp
    then show ?thesis using assms Preview
      by (cases "limit \<le> 0") (auto simp: boundArtifactPreview_def preview_bytes_def Let_def)
  qed (use assms in \<open>auto simp: boundArtifactPreview_def preview_bytes_def\<close>)
  then show "n = preview_bytes r'" "0 \<le> n" "n \<le> max 0 limit" "xs_truncated r' = xs_truncated r" by blast+
qed

lemma finish_result_bytes:
  assumes "finish_result sv et ex now q r used st = (r', used', st')" and "0 \<le> used" and "used \<le> ex_max_batch ex"
  shows "used' = used + batch_bytes r r'" and "used \<le> used'" and "used' \<le> ex_max_batch ex"
proof -
  obtain r1 u1 st1 where v: "finish_value sv et ex now q r used st = (r1, u1, st1)" by (metis surj_pair)
  obtain r2 n where b: "(if xs_truncated r1 then boundArtifactPreview r1 (max 0 (ex_max_batch ex - u1)) else (r1, 0)) = (r2, n)"
    by force
  have e: "r' = r2\<lparr>xs_encoded := []\<rparr>" "used' = u1 + n" using assms(1) v b by (simp_all add: finish_result_def)
  have "used' = used + batch_bytes r r' \<and> used \<le> used' \<and> used' \<le> ex_max_batch ex"
  proof (cases "xs_truncated r1")
    case True
    then have "boundArtifactPreview r1 (max 0 (ex_max_batch ex - u1)) = (r2, n)" using b by simp
    note n = boundArtifactPreview_bytes [OF this]
    have "u1 = used" using v True
      by (auto simp: finish_value_def Let_def split: if_splits prod.splits dest: govern_result_fields)
    moreover have "batch_bytes r r' = n" using n True by (simp add: batch_bytes_def e(1) preview_bytes_def)
    ultimately show ?thesis using n e(2) assms(2,3) by simp
  next
    case False
    then have r2: "r2 = r1" "n = 0" using b by simp_all
    have "\<not> (xs_error r = None \<and> \<not> xs_truncated r \<and> xs_encoded r \<noteq> [] \<and> used + int (length (xs_encoded r)) > ex_max_batch ex)"
      using v False by (auto simp: finish_value_def Let_def split: prod.splits dest: govern_result_fields)
    then have "r1 = r \<and> u1 = used + (if xs_error r = None then int (length (xs_encoded r)) else 0)
        \<and> u1 \<le> ex_max_batch ex"
      using v False assms(3) by (auto simp: finish_value_def split: if_splits)
    then show ?thesis using r2 e False assms(2) by (simp add: batch_bytes_def)
  qed
  then show "used' = used + batch_bytes r r'" "used \<le> used'" "used' \<le> ex_max_batch ex" by blast+
qed

lemma finish_results_bytes:
  assumes "finish_results sv et ex now calls used st = (rs, st')" and "0 \<le> used" and "used \<le> ex_max_batch ex"
  shows "length rs = length calls \<and> used + sum_list (map2 batch_bytes (map snd calls) rs) \<le> ex_max_batch ex"
  using assms
proof (induction calls arbitrary: used st rs st')
  case (Cons c calls)
  obtain q r where c: "c = (q, r)" by force
  obtain r1 u1 st1 where f: "finish_result sv et ex now q r used st = (r1, u1, st1)" by (metis surj_pair)
  obtain rs1 st2 where g: "finish_results sv et ex now calls u1 st1 = (rs1, st2)" by force
  have "rs = r1 # rs1" using Cons.prems(1) c f g by simp
  then show ?case
    using Cons.IH [OF g] finish_result_bytes [OF f Cons.prems(2,3)] Cons.prems(2) c by simp
qed simp

text \<open>What becomes of one result, given the bytes that are accounted for already.\<close>

lemma finish_result_kept:
  assumes "finish_result sv et ex now q r used st = (r', used', st')"
  shows "\<not> xs_truncated r' \<Longrightarrow> r' = r\<lparr>xs_encoded := []\<rparr>"
    and "\<not> xs_truncated r \<Longrightarrow> xs_truncated r' \<longleftrightarrow>
      xs_error r = None \<and> xs_encoded r \<noteq> [] \<and> used + int (length (xs_encoded r)) > ex_max_batch ex"
    and "xs_truncated r \<Longrightarrow> r' = fst (boundArtifactPreview r (max 0 (ex_max_batch ex - used)))\<lparr>xs_encoded := []\<rparr>"
proof -
  obtain r1 u1 st1 where v: "finish_value sv et ex now q r used st = (r1, u1, st1)" by (metis surj_pair)
  obtain r2 n where b: "(if xs_truncated r1 then boundArtifactPreview r1 (max 0 (ex_max_batch ex - u1)) else (r1, 0)) = (r2, n)"
    by force
  have e: "r' = r2\<lparr>xs_encoded := []\<rparr>" using assms v b by (simp add: finish_result_def)
  have t: "xs_truncated r' = xs_truncated r1"
    using b boundArtifactPreview_bytes(4) by (auto simp: e split: if_split_asm)
  show "\<not> xs_truncated r \<Longrightarrow> xs_truncated r' \<longleftrightarrow>
      xs_error r = None \<and> xs_encoded r \<noteq> [] \<and> used + int (length (xs_encoded r)) > ex_max_batch ex"
    unfolding t using v by (auto simp: finish_value_def Let_def split: if_split_asm prod.split_asm dest: govern_result_fields)
  show "xs_truncated r \<Longrightarrow> r' = fst (boundArtifactPreview r (max 0 (ex_max_batch ex - used)))\<lparr>xs_encoded := []\<rparr>"
    using v b e by (auto simp: finish_value_def)
  show "\<not> xs_truncated r' \<Longrightarrow> r' = r\<lparr>xs_encoded := []\<rparr>"
    unfolding t using v b e
    by (auto simp: finish_value_def Let_def split: if_split_asm prod.split_asm dest: govern_result_fields)
qed

definition accounted :: "'v execution_result list \<Rightarrow> 'v execution_result list \<Rightarrow> nat \<Rightarrow> int" where
  "accounted results rs i = sum_list (map2 batch_bytes (take i results) (take i rs))"

lemma finish_results_nth:
  assumes "finish_results sv et ex now calls used st = (rs, st')" and "0 \<le> used" and "used \<le> ex_max_batch ex"
    and "i < length calls"
  shows "\<exists>st1 used' st2. finish_result sv et ex now (fst (calls ! i)) (snd (calls ! i))
     (used + accounted (map snd calls) rs i) st1 = (rs ! i, used', st2)"
  using assms
proof (induction calls arbitrary: used st rs st' i)
  case (Cons c calls)
  obtain q r where c: "c = (q, r)" by force
  obtain r1 u1 st1 where f: "finish_result sv et ex now q r used st = (r1, u1, st1)" by (metis surj_pair)
  obtain rs1 st2 where g: "finish_results sv et ex now calls u1 st1 = (rs1, st2)" by force
  have rs: "rs = r1 # rs1" using Cons.prems(1) c f g by simp
  note u = finish_result_bytes [OF f Cons.prems(2,3)]
  show ?case
  proof (cases i)
    case 0
    then show ?thesis using c f rs by (auto simp: accounted_def)
  next
    case (Suc j)
    then show ?thesis
      using Cons.IH [OF g, of j] u Cons.prems(2,4) rs c by (simp add: accounted_def add.assoc)
  qed
qed simp

text \<open>
  C32: The bytes that a batch accounts for stay within its budget: the JSON of the results that it
  encoded and keeps whole, and the preview texts of the truncated ones, also of those that were
  truncated before, such as replayed ones. (The rest of a truncated result, its artifact reference
  and flags, is not accounted for, and neither is a whole result that was not encoded in this
  batch.) In detail: a result is passed on as it is unless it is truncated; one that was not
  truncated before becomes so exactly if it was encoded and does not fit what the results before
  it leave of the budget; and one that was has its preview cut to what they leave.
\<close>

theorem finishBatch_within_budget:
  assumes "finishBatch sv et ex now requests results st = (rs, st', notes)"
    and "length requests = length results" and "0 \<le> ex_max_batch ex"
  shows "length rs = length results \<and> sum_list (map2 batch_bytes results rs) \<le> ex_max_batch ex
    \<and> (\<forall>i < length results. let r = results ! i; r' = rs ! i; used = accounted results rs i in
         (\<not> xs_truncated r' \<longrightarrow> r' = r\<lparr>xs_encoded := []\<rparr>)
       \<and> (\<not> xs_truncated r \<longrightarrow> (xs_truncated r' \<longleftrightarrow>
            xs_error r = None \<and> xs_encoded r \<noteq> [] \<and> used + int (length (xs_encoded r)) > ex_max_batch ex))
       \<and> (xs_truncated r \<longrightarrow> r' = fst (boundArtifactPreview r (max 0 (ex_max_batch ex - used)))\<lparr>xs_encoded := []\<rparr>))"
proof -
  have f: "finish_results sv et ex now (zip requests results) 0 st = (rs, st')"
    using assms(1) by (simp add: finishBatch_def Let_def split: prod.splits)
  have results: "map snd (zip requests results) = results" using assms(2) by simp
  have "let r = results ! i; r' = rs ! i; used = accounted results rs i in
         (\<not> xs_truncated r' \<longrightarrow> r' = r\<lparr>xs_encoded := []\<rparr>)
       \<and> (\<not> xs_truncated r \<longrightarrow> (xs_truncated r' \<longleftrightarrow>
            xs_error r = None \<and> xs_encoded r \<noteq> [] \<and> used + int (length (xs_encoded r)) > ex_max_batch ex))
       \<and> (xs_truncated r \<longrightarrow> r' = fst (boundArtifactPreview r (max 0 (ex_max_batch ex - used)))\<lparr>xs_encoded := []\<rparr>)"
    if i: "i < length results" for i
  proof -
    obtain st1 used' st2 where "finish_result sv et ex now (requests ! i) (results ! i) (accounted results rs i) st1
        = (rs ! i, used', st2)"
      using finish_results_nth [OF f _ assms(3), of i] i assms(2) results by auto
    from finish_result_kept [OF this] show ?thesis by (simp add: Let_def)
  qed
  then show ?thesis using finish_results_bytes [OF f] assms(2,3) by simp
qed

definition fresh_result :: "string execution_result" where
  "fresh_result = (empty_result write_request write_validated None)\<lparr>xs_value := Value ''12345'', xs_encoded := ''12345''\<rparr>"

definition replayed_result :: "string execution_result" where
  "replayed_result = (empty_result write_request write_validated None)\<lparr>xs_value := Value ''123456789012'', xs_replayed := True\<rparr>"

lemma finishBatch_within_budget_witness:
  "sum_list (map2 batch_bytes [fresh_result, replayed_result, fresh_result]
       (fst (finishBatch plain_services plain_texts write_executor 1 [write_request, write_request, write_request]
          [fresh_result, replayed_result, fresh_result] fresh_state))) \<le> 9
   \<and> xs_value (fst (finishBatch plain_services plain_texts write_executor 1 [write_request, write_request, write_request]
          [fresh_result, replayed_result, fresh_result] fresh_state) ! 1) = Value ''123456789012''"
proof -
  obtain rs st' ns where f: "finishBatch plain_services plain_texts write_executor 1
      [write_request, write_request, write_request] [fresh_result, replayed_result, fresh_result] fresh_state = (rs, st', ns)"
    by (metis surj_pair)
  have max: "0 \<le> ex_max_batch write_executor" "ex_max_batch write_executor = 9" by (simp_all add: write_executor_def)
  have r: "xs_encoded replayed_result = []" "\<not> xs_truncated replayed_result" "xs_value replayed_result = Value ''123456789012''"
    by (simp_all add: replayed_result_def empty_result_def)
  note w = finishBatch_within_budget [OF f _ max(1)]
  have "rs ! 1 = replayed_result\<lparr>xs_encoded := []\<rparr>"
    using w r(1,2) by (auto simp: Let_def dest!: spec [of _ "1::nat"])
  then show ?thesis using w max(2) r(3) f by simp
qed

end
