(* ===== verification/Conversation_Inbox.thy ===== *)
theory Conversation_Inbox
  imports Run_Store Go_Json "HOL-Library.Product_Lexorder"
begin

text \<open>
  The inbox of a conversation (\<open>store/postgres_inbox.go\<close>, \<open>store/postgres_followup.go\<close>,
  \<open>CreateInputRun\<close> of \<open>store/postgres_runs.go\<close>): users queue inputs that steer the current Run or
  follow it up. Every operation locks the rows of the conversation and its Workspace first, so it
  is one function of the tables; an error rolls back. \<open>NOW()\<close> is the instant of the transaction.
  Identifiers are ordered bytewise. \<open>request\<close> is stored as JSON, which replaces invalid UTF-8;
  PostgreSQL has no texts with a zero byte.
\<close>

section \<open>Tables\<close>

record conversation_row =
  cv_id :: string
  cv_workspace :: string

record workspace_row =
  wk_id :: string
  wk_owner :: string
  wk_active :: bool
  wk_deleted :: bool

record message_row =
  ms_id :: string
  ms_workspace :: string
  ms_conversation :: string
  ms_role :: string
  ms_content :: string
  ms_created_at :: time

datatype input_status = InputQueued | InputApplied | InputWithdrawn | InputExpired

record run_input_request =
  iq_kind :: string
  iq_run_id :: string
  iq_content :: string
  iq_mode :: string
  iq_agent_id :: string
  iq_key :: string

record run_input =
  in_id :: string
  in_owner :: string
  in_workspace :: string
  in_conversation :: string
  in_run_id :: string
  in_request :: run_input_request
  in_status :: input_status
  in_applied_run :: "string option"
  in_stage_id :: string
  in_turn_id :: string
  in_created_at :: time
  in_expires_at :: time
  in_applied_at :: "time option"

text \<open>\<open>cs_members\<close>: the users and Workspaces of \<open>auth_memberships\<close>.\<close>

record conversation_store =
  cs_runs :: run_store
  cs_conversations :: "conversation_row list"
  cs_workspaces :: "workspace_row list"
  cs_members :: "(string \<times> string) list"
  cs_messages :: "message_row list"
  cs_inputs :: "run_input list"

datatype inbox_error =
    InputConflict
  | InputCapacity
  | InputInvalid
  | InputPlanOnly
  | InputSensitive
  | InputNotFound
  | InputSql
  | InputRun store_error

section \<open>Locks and rows\<close>

definition ValidateFollowupIntent :: "string \<Rightarrow> inbox_error option" where
  "ValidateFollowupIntent constraint = (if constraint = ''plan_only'' then Some InputPlanOnly else None)"

definition lockInboxScope ::
  "string \<Rightarrow> string \<Rightarrow> string \<Rightarrow> bool \<Rightarrow> conversation_store \<Rightarrow> inbox_error option" where
  "lockInboxScope owner workspace conversation writable db =
     (if list_ex (\<lambda>c. cv_id c = conversation \<and> cv_workspace c = workspace) (cs_conversations db)
         \<and> list_ex (\<lambda>w. wk_id w = workspace \<and> wk_owner w = owner \<and> (\<not> writable \<or> wk_active w) \<and> \<not> wk_deleted w)
             (cs_workspaces db)
         \<and> (owner, workspace) \<in> set (cs_members db)
      then None else Some InputNotFound)"

definition lockInbox :: "string \<Rightarrow> string \<Rightarrow> string \<Rightarrow> conversation_store \<Rightarrow> inbox_error option" where
  "lockInbox owner workspace conversation = lockInboxScope owner workspace conversation True"

text \<open>What a reader sees: a queued input whose time has passed is shown as expired.\<close>

definition live_input :: "time \<Rightarrow> run_input \<Rightarrow> bool" where
  "live_input now i \<longleftrightarrow> in_status i = InputQueued \<and> in_expires_at i > now"

definition scanInput :: "time \<Rightarrow> run_input \<Rightarrow> run_input" where
  "scanInput now i =
     (if in_status i = InputQueued \<and> in_expires_at i \<le> now then i\<lparr>in_status := InputExpired\<rparr> else i)"

definition input_order :: "run_input \<Rightarrow> time \<times> string" where
  "input_order i = (in_created_at i, in_id i)"

definition listInputs :: "time \<Rightarrow> string \<Rightarrow> conversation_store \<Rightarrow> run_input list" where
  "listInputs now conversation db =
     map (scanInput now) (sort_key input_order (filter (\<lambda>i. in_conversation i = conversation) (cs_inputs db)))"

definition ListRunInputs ::
  "time \<Rightarrow> string \<Rightarrow> string \<Rightarrow> string \<Rightarrow> conversation_store \<Rightarrow> inbox_error + run_input list" where
  "ListRunInputs now owner workspace conversation db =
     (case lockInboxScope owner workspace conversation False db of
        Some e \<Rightarrow> Inl e
      | None \<Rightarrow> Inr (listInputs now conversation db))"

text \<open>The frozen constraint of a Run, and the instant and texts of SQL.\<close>

definition run_constraint :: "run \<Rightarrow> string" where
  "run_constraint r = (case run_snapshot r of None \<Rightarrow> [] | Some s \<Rightarrow> snap_execution_constraint s)"

definition hours :: "int \<Rightarrow> int" where "hours n = n * 3600000000000"

definition sql_text :: "string \<Rightarrow> bool" where
  "sql_text s \<longleftrightarrow> utf8_valid s \<and> CHR 0x00 \<notin> set s"

section \<open>Submitting an input\<close>

definition ended :: "run_status \<Rightarrow> bool" where
  "ended s \<longleftrightarrow> s = RunCompleted \<or> s = RunFailed \<or> s = RunCanceled"

text \<open>Receipts are kept for seven days, and longer while a Run that applied one is not over.\<close>

definition purgeable :: "time \<Rightarrow> string \<Rightarrow> run_store \<Rightarrow> run_input \<Rightarrow> bool" where
  "purgeable now conversation st i \<longleftrightarrow> in_conversation i = conversation
     \<and> (case get_run st (in_run_id i) of None \<Rightarrow> False | Some r \<Rightarrow> ended (run_status r))
     \<and> in_created_at i < now - hours 168
     \<and> (case in_applied_run i of None \<Rightarrow> True
        | Some j \<Rightarrow> (case get_run st j of None \<Rightarrow> True | Some r \<Rightarrow> ended (run_status r)))"

definition normalize_input :: "run_input_request \<Rightarrow> run_input_request" where
  "normalize_input q =
     q\<lparr>iq_content := trim_space (iq_content q), iq_mode := if iq_mode q = [] then ''single'' else iq_mode q\<rparr>"

definition valid_input :: "run_input_request \<Rightarrow> bool" where
  "valid_input q \<longleftrightarrow> (iq_kind q = ''steer'' \<or> iq_kind q = ''follow_up'') \<and> iq_content q \<noteq> []
     \<and> length (iq_content q) \<le> 8192 \<and> iq_run_id q \<noteq> [] \<and> iq_key q \<noteq> [] \<and> length (iq_key q) \<le> 128
     \<and> (iq_mode q = ''single'' \<or> iq_mode q = ''multi_agent'' \<or> iq_mode q = ''autonomous'')"

definition stored_input :: "run_input_request \<Rightarrow> run_input_request" where
  "stored_input q =
     q\<lparr>iq_run_id := sanitize_utf8 (iq_run_id q), iq_content := sanitize_utf8 (iq_content q),
       iq_agent_id := sanitize_utf8 (iq_agent_id q), iq_key := sanitize_utf8 (iq_key q)\<rparr>"

text \<open>Whether the request is a \<open>jsonb\<close>.\<close>

definition storable_input :: "run_input_request \<Rightarrow> bool" where
  "storable_input q \<longleftrightarrow> CHR 0x00 \<notin> set (iq_content q) \<and> CHR 0x00 \<notin> set (iq_agent_id q)"

definition content_bytes :: "run_input list \<Rightarrow> int" where
  "content_bytes is = (\<Sum>i\<leftarrow>is. int (length (iq_content (in_request i))))"

definition steering_of :: "string \<Rightarrow> run_input \<Rightarrow> bool" where
  "steering_of rid i \<longleftrightarrow> in_run_id i = rid \<and> iq_kind (in_request i) = ''steer''
     \<and> (in_status i = InputQueued \<or> in_status i = InputApplied)"

definition over_capacity :: "time \<Rightarrow> string \<Rightarrow> run_input_request \<Rightarrow> run_input list \<Rightarrow> bool" where
  "over_capacity now conversation q inputs =
     (let rows = filter (\<lambda>i. in_conversation i = conversation) inputs; pending = filter (live_input now) rows;
          n = int (length (iq_content q))
      in length rows \<ge> 256 \<or> length pending \<ge> 16 \<or> content_bytes pending + n > 65536
         \<or> iq_kind q = ''steer'' \<and> content_bytes (filter (steering_of (iq_run_id q)) rows) + n > 65536)"

definition input_row :: "string \<Rightarrow> time \<Rightarrow> string \<Rightarrow> string \<Rightarrow> string \<Rightarrow> run_input_request \<Rightarrow> run_input" where
  "input_row new_id now owner workspace conversation q =
     \<lparr>in_id = new_id, in_owner = owner, in_workspace = workspace, in_conversation = conversation,
      in_run_id = iq_run_id q, in_request = stored_input q, in_status = InputQueued, in_applied_run = None,
      in_stage_id = [], in_turn_id = [], in_created_at = now, in_expires_at = now + hours 24, in_applied_at = None\<rparr>"

definition find_receipt :: "string \<Rightarrow> string \<Rightarrow> string \<Rightarrow> run_input list \<Rightarrow> run_input option" where
  "find_receipt owner conversation key =
     find (\<lambda>i. in_owner i = owner \<and> in_conversation i = conversation \<and> iq_key (in_request i) = key)"

definition EnqueueRunInput ::
  "(run_input_request \<Rightarrow> bool) \<Rightarrow> string \<Rightarrow> time \<Rightarrow> string \<Rightarrow> string \<Rightarrow> string \<Rightarrow> run_input_request
    \<Rightarrow> conversation_store \<Rightarrow> inbox_error + run_input \<times> conversation_store" where
  "EnqueueRunInput clean new_id now owner workspace conversation input db =
     (let q = normalize_input input
      in if \<not> valid_input q then Inl InputInvalid
         else if \<not> clean q then Inl InputSensitive
         else case lockInbox owner workspace conversation db of
           Some e \<Rightarrow> Inl e
         | None \<Rightarrow>
             (case find (\<lambda>r. run_id r = iq_run_id q \<and> run_conversation_id r = conversation) (rs_runs (cs_runs db)) of
                None \<Rightarrow> Inl InputConflict
              | Some r \<Rightarrow>
                  if iq_kind q = ''follow_up'' \<and> ValidateFollowupIntent (run_constraint r) \<noteq> None then Inl InputPlanOnly
                  else if \<not> storable_input q \<or> \<not> sql_text (iq_key q) then Inl InputSql
                  else
                    (let inputs = filter (\<lambda>i. \<not> purgeable now conversation (cs_runs db) i) (cs_inputs db)
                     in case find_receipt owner conversation (iq_key q) inputs of
                          Some i \<Rightarrow>
                            if in_request i \<noteq> stored_input q then Inl InputConflict else Inr (scanInput now i, db)
                        | None \<Rightarrow>
                            if iq_kind q = ''steer'' \<and> run_status r \<noteq> RunRunning then Inl InputConflict
                            else if over_capacity now conversation q inputs then Inl InputCapacity
                            else if new_id \<in> in_id ` set inputs then Inl InputSql
                            else
                              (let i = input_row new_id now owner workspace conversation q
                               in Inr (i, db\<lparr>cs_inputs := inputs @ [i]\<rparr>)))))"

section \<open>Withdrawing an input\<close>

definition WithdrawRunInput ::
  "time \<Rightarrow> string \<Rightarrow> string \<Rightarrow> string \<Rightarrow> string \<Rightarrow> conversation_store
    \<Rightarrow> inbox_error + run_input \<times> conversation_store" where
  "WithdrawRunInput now owner workspace conversation id1 db =
     (case lockInbox owner workspace conversation db of
        Some e \<Rightarrow> Inl e
      | None \<Rightarrow>
          (let matches = (\<lambda>i. in_id i = id1 \<and> in_conversation i = conversation
                 \<and> (in_status i = InputWithdrawn \<or> live_input now i))
           in case find matches (cs_inputs db) of
                None \<Rightarrow> Inl InputConflict
              | Some i \<Rightarrow>
                  Inr (i\<lparr>in_status := InputWithdrawn\<rparr>,
                       db\<lparr>cs_inputs := update_rows matches (\<lambda>i. i\<lparr>in_status := InputWithdrawn\<rparr>) (cs_inputs db)\<rparr>)))"

section \<open>Consuming inputs\<close>

definition input_message :: "time \<Rightarrow> run_input \<Rightarrow> message_row" where
  "input_message now i =
     \<lparr>ms_id = in_id i, ms_workspace = in_workspace i, ms_conversation = in_conversation i, ms_role = ''user'',
      ms_content = iq_content (in_request i), ms_created_at = now\<rparr>"

definition insert_messages :: "message_row list \<Rightarrow> conversation_store \<Rightarrow> inbox_error + conversation_store" where
  "insert_messages ms db =
     (if distinct (map ms_id (cs_messages db @ ms)) then Inr (db\<lparr>cs_messages := cs_messages db @ ms\<rparr>) else Inl InputSql)"

text \<open>The inputs that the two statements of \<open>ConsumeSteering\<close> select, and what they become.\<close>

definition steering :: "time \<Rightarrow> string \<Rightarrow> run_input \<Rightarrow> bool" where
  "steering now rid i \<longleftrightarrow> in_run_id i = rid \<and> iq_kind (in_request i) = ''steer'' \<and> live_input now i"

definition applied_input :: "time \<Rightarrow> string \<Rightarrow> string \<Rightarrow> string \<Rightarrow> run_input \<Rightarrow> run_input" where
  "applied_input now rid stage turn i =
     i\<lparr>in_status := InputApplied, in_applied_run := Some rid, in_stage_id := stage, in_turn_id := turn,
       in_applied_at := Some now\<rparr>"

definition ConsumeSteering ::
  "time \<Rightarrow> string \<Rightarrow> string \<Rightarrow> string \<Rightarrow> conversation_store \<Rightarrow> inbox_error + run_input list \<times> conversation_store" where
  "ConsumeSteering now rid stage turn db =
     (case get_run (cs_runs db) rid of
        None \<Rightarrow> Inl InputSql
      | Some r \<Rightarrow>
          (case find (\<lambda>w. wk_id w = run_workspace_id r) (cs_workspaces db) of
             None \<Rightarrow> Inl InputSql
           | Some w \<Rightarrow>
               (case lockInbox (wk_owner w) (run_workspace_id r) (run_conversation_id r) db of
                  Some e \<Rightarrow> Inl e
                | None \<Rightarrow>
                    if run_status r \<noteq> RunRunning then Inl InputConflict
                    else
                      bind_result (insert_messages (map (input_message now) (filter (steering now rid) (cs_inputs db))) db)
                        (\<lambda>db.
                           (let db = db\<lparr>cs_inputs :=
                                  update_rows (steering now rid) (applied_input now rid stage turn) (cs_inputs db)\<rparr>
                            in Inr (filter (\<lambda>i. iq_kind (in_request i) = ''steer'' \<and> in_applied_run i = Some rid
                                     \<and> in_status i = InputApplied) (listInputs now (run_conversation_id r) db), db))))))"

text \<open>The queued follow-ups of a conversation, and the Run it has had last.\<close>

definition followups :: "time \<Rightarrow> string \<Rightarrow> conversation_store \<Rightarrow> run_input list" where
  "followups now conversation db =
     sort_key input_order (filter (\<lambda>i. in_conversation i = conversation \<and> iq_kind (in_request i) = ''follow_up''
       \<and> live_input now i \<and> get_run (cs_runs db) (in_run_id i) \<noteq> None) (cs_inputs db))"

definition conversation_runs :: "string \<Rightarrow> run_store \<Rightarrow> run list" where
  "conversation_runs conversation st =
     sort_key (\<lambda>r. (run_created_at r, run_id r)) (filter (\<lambda>r. run_conversation_id r = conversation) (rs_runs st))"

definition applyFollowup ::
  "time \<Rightarrow> string \<Rightarrow> string \<Rightarrow> bool \<Rightarrow> run \<Rightarrow> conversation_store \<Rightarrow> inbox_error + conversation_store" where
  "applyFollowup now id1 owner allowStopped r db =
     (case lockInbox owner (run_workspace_id r) (run_conversation_id r) db of
        Some e \<Rightarrow> Inl e
      | None \<Rightarrow>
          (case followups now (run_conversation_id r) db of
             [] \<Rightarrow> Inl InputConflict
           | oldest # _ \<Rightarrow>
               if in_id oldest \<noteq> id1 then Inl InputConflict
               else case get_run (cs_runs db) (in_run_id oldest) of
                 None \<Rightarrow> Inl InputSql
               | Some source \<Rightarrow>
                   (case ValidateFollowupIntent (run_constraint source) of
                      Some e \<Rightarrow> Inl e
                    | None \<Rightarrow>
                        (case rev (conversation_runs (run_conversation_id r) (cs_runs db)) of
                           [] \<Rightarrow> Inl InputSql
                         | latest # _ \<Rightarrow>
                             if run_status latest \<noteq> RunCompleted
                                \<and> \<not> (allowStopped \<and> (run_status latest = RunFailed \<or> run_status latest = RunCanceled))
                             then Inl InputConflict
                             else
                               (let rows = filter (\<lambda>i. in_id i = id1 \<and> in_owner i = owner \<and> in_status i = InputQueued)
                                      (cs_inputs db)
                                in if length rows \<noteq> 1 then Inl InputConflict
                                   else insert_messages (map (input_message now) rows) db)))))"

text \<open>The receipt, the message and the new Run are one transaction; the Run is already running.\<close>

definition started_run :: "time \<Rightarrow> run \<Rightarrow> run" where
  "started_run now r = r\<lparr>run_status := RunRunning, run_started_at := Some now, run_execution_started_at := Some now,
     run_heartbeat_at := Some now\<rparr>"

definition CreateInputRun ::
  "(string \<Rightarrow> string \<rightharpoonup> bool) \<Rightarrow> (runtime_snapshot \<Rightarrow> bool) \<Rightarrow> (string \<Rightarrow> string) \<Rightarrow> string \<Rightarrow> time \<Rightarrow> string
    \<Rightarrow> string \<Rightarrow> bool \<Rightarrow> string \<Rightarrow> string \<Rightarrow> runtime_snapshot \<Rightarrow> completion_contract option \<Rightarrow> conversation_store
    \<Rightarrow> inbox_error + run \<times> conversation_store" where
  "CreateInputRun agent_archived metadata_clean plan_run_id new_id now input owner allowStopped agent conversation
     snapshot contract db =
     bind_result
       (map_error InputRun
         (new_run (\<lambda>c. map_option cv_workspace (find (\<lambda>v. cv_id v = c) (cs_conversations db)))
            agent_archived metadata_clean plan_run_id new_id now agent conversation snapshot contract))
       (\<lambda>r. if input = []
            then bind_result (map_error InputRun (insert_run snapshot r (cs_runs db)))
                   (\<lambda>st. Inr (r, db\<lparr>cs_runs := st\<rparr>))
            else
              bind_result (applyFollowup now input owner allowStopped r db)
                (\<lambda>db. bind_result (map_error InputRun (insert_run snapshot (started_run now r) (cs_runs db)))
                   (\<lambda>st. Inr (started_run now r,
                      db\<lparr>cs_runs := st,
                        cs_inputs := update_rows (\<lambda>i. in_id i = input)
                          (\<lambda>i. i\<lparr>in_status := InputApplied, in_applied_run := Some (run_id r),
                               in_applied_at := Some now\<rparr>) (cs_inputs db)\<rparr>))))"

end
