(* ===== verification/Inbox_Guarantees.thy ===== *)
theory Inbox_Guarantees
  imports Conversation_Inbox
begin

text \<open>
  What the inbox of a conversation guarantees: an input reaches the conversation at most once, with
  the content it was accepted with, and never after it was withdrawn; the limits hold at every
  instant; a repeated submission is answered with its receipt; a follow-up starts one Run.
\<close>

section \<open>Histories\<close>

text \<open>
  Steps of the tables, with the identifiers that were ever used and the latest instant of a
  transaction. New identifiers are fresh. Others may change Runs, Workspaces and members, and add
  messages of their own. The instants of successive transactions need not be ordered.
\<close>

inductive inbox_step ::
  "(run_input_request \<Rightarrow> bool) \<Rightarrow> string set \<Rightarrow> time \<Rightarrow> conversation_store \<Rightarrow> string set \<Rightarrow> time \<Rightarrow> conversation_store \<Rightarrow> bool"
  for clean where
  step_enqueue:
    "EnqueueRunInput clean new_id now owner ws conv q db = Inr (r, db') \<Longrightarrow> new_id \<notin> U \<Longrightarrow> utf8_valid (iq_content q)
      \<Longrightarrow> inbox_step clean U T db (insert new_id U) (max T now) db'"
| step_withdraw:
    "WithdrawRunInput now owner ws conv i db = Inr (r, db') \<Longrightarrow> inbox_step clean U T db U (max T now) db'"
| step_consume:
    "ConsumeSteering now rid stage turn db = Inr (rs, db') \<Longrightarrow> inbox_step clean U T db U (max T now) db'"
| step_followup:
    "CreateInputRun archived meta plan_id new_id now i owner stopped agent conv snap contract db = Inr (r, db')
      \<Longrightarrow> inbox_step clean U T db U (max T now) db'"
| step_others:
    "distinct (map ms_id ms) \<Longrightarrow> ms_id ` set ms \<inter> U = {}
      \<Longrightarrow> inbox_step clean U T db (U \<union> ms_id ` set ms) T
           (db\<lparr>cs_runs := st, cs_conversations := cvs, cs_workspaces := wks, cs_members := mbs,
               cs_messages := cs_messages db @ ms\<rparr>)"

inductive inbox_history ::
  "(run_input_request \<Rightarrow> bool) \<Rightarrow> string set \<Rightarrow> time \<Rightarrow> conversation_store \<Rightarrow> string set \<Rightarrow> time \<Rightarrow> conversation_store \<Rightarrow> bool"
  for clean where
  history_nil: "inbox_history clean U T db U T db"
| history_step: "inbox_history clean U T db U' T' db' \<Longrightarrow> inbox_step clean U' T' db' U'' T'' db''
    \<Longrightarrow> inbox_history clean U T db U'' T'' db''"

section \<open>What a step does to the rows\<close>

definition receipt_key :: "run_input \<Rightarrow> string \<times> string \<times> string" where
  "receipt_key i = (in_owner i, in_conversation i, iq_key (in_request i))"

definition same_receipt :: "run_input \<Rightarrow> run_input \<Rightarrow> bool" where
  "same_receipt i i' \<longleftrightarrow> in_id i' = in_id i \<and> in_owner i' = in_owner i \<and> in_workspace i' = in_workspace i
     \<and> in_conversation i' = in_conversation i \<and> in_run_id i' = in_run_id i \<and> in_request i' = in_request i
     \<and> in_created_at i' = in_created_at i \<and> in_expires_at i' = in_expires_at i"

definition delivers :: "run_input \<Rightarrow> message_row \<Rightarrow> bool" where
  "delivers i m \<longleftrightarrow> ms_id m = in_id i \<and> ms_workspace m = in_workspace i \<and> ms_conversation m = in_conversation i
     \<and> ms_role m = ''user'' \<and> ms_content m = iq_content (in_request i)"

definition input_moves :: "message_row list \<Rightarrow> run_input \<Rightarrow> run_input \<Rightarrow> bool" where
  "input_moves ms i i' \<longleftrightarrow>
     (i' = i \<or> in_status i = InputQueued \<and> i' = i\<lparr>in_status := InputWithdrawn\<rparr>) \<and> in_id i \<notin> ms_id ` set ms
     \<or> in_status i = InputQueued \<and> same_receipt i i' \<and> in_status i' = InputApplied \<and> (\<exists>m \<in> set ms. delivers i m)"

text \<open>Rows are dropped, moved and added; messages are only added.\<close>

definition inbox_shape :: "string set \<Rightarrow> conversation_store \<Rightarrow> string set \<Rightarrow> conversation_store \<Rightarrow> bool" where
  "inbox_shape U db U' db' \<longleftrightarrow> (\<exists>P f new ms.
     cs_inputs db' = map f (filter P (cs_inputs db)) @ new \<and> cs_messages db' = cs_messages db @ ms
     \<and> (\<forall>i \<in> set (cs_inputs db). input_moves ms i (f i))
     \<and> (\<forall>i \<in> set new. in_status i = InputQueued \<and> in_id i \<notin> U \<and> in_id i \<in> U' \<and> in_id i \<notin> ms_id ` set ms
          \<and> receipt_key i \<notin> receipt_key ` set (filter P (cs_inputs db)))
     \<and> length new \<le> 1 \<and> distinct (map ms_id ms) \<and> U \<subseteq> U'
     \<and> (\<forall>m \<in> set ms. ms_id m \<in> U' \<and> ms_id m \<notin> U \<or> ms_id m \<notin> ms_id ` set (cs_messages db) \<and> ms_id m \<in> in_id ` set (cs_inputs db)))"

definition inbox_wf :: "string set \<Rightarrow> conversation_store \<Rightarrow> bool" where
  "inbox_wf U db \<longleftrightarrow> distinct (map in_id (cs_inputs db)) \<and> distinct (map ms_id (cs_messages db))
     \<and> distinct (map receipt_key (cs_inputs db)) \<and> in_id ` set (cs_inputs db) \<subseteq> U \<and> ms_id ` set (cs_messages db) \<subseteq> U
     \<and> (\<forall>i \<in> set (cs_inputs db). if in_status i = InputApplied then \<exists>m \<in> set (cs_messages db). delivers i m
          else in_id i \<notin> ms_id ` set (cs_messages db))"

lemma input_moves_same: "input_moves ms i i' \<Longrightarrow> same_receipt i i'"
  by (auto simp: input_moves_def same_receipt_def)

lemma same_receipt_key: "same_receipt i i' \<Longrightarrow> receipt_key i' = receipt_key i \<and> in_id i' = in_id i"
  by (simp add: same_receipt_def receipt_key_def)

lemma input_moves_settled: "input_moves ms i i' \<Longrightarrow> in_status i \<noteq> InputQueued \<Longrightarrow> i' = i"
  by (auto simp: input_moves_def)

lemma distinct_map_filter: "distinct (map g xs) \<Longrightarrow> distinct (map g (filter P xs))"
  by (induction xs) auto

lemma disjoint_images:
  assumes "A \<subseteq> U" and "\<And>x. x \<in> B \<Longrightarrow> g x \<notin> U"
  shows "A \<inter> g ` B = {}"
  using assms by auto

lemma inbox_shape_wf:
  assumes wf: "inbox_wf U db" and shape: "inbox_shape U db U' db'"
  shows "inbox_wf U' db'"
proof -
  from shape obtain P f new ms where
    inputs: "cs_inputs db' = map f (filter P (cs_inputs db)) @ new" and messages: "cs_messages db' = cs_messages db @ ms"
    and moves: "\<And>i. i \<in> set (cs_inputs db) \<Longrightarrow> input_moves ms i (f i)"
    and new: "\<And>i. i \<in> set new \<Longrightarrow> in_status i = InputQueued \<and> in_id i \<notin> U \<and> in_id i \<in> U' \<and> in_id i \<notin> ms_id ` set ms
          \<and> receipt_key i \<notin> receipt_key ` set (filter P (cs_inputs db))"
    and one: "length new \<le> 1" and ms: "distinct (map ms_id ms)" "U \<subseteq> U'"
    and ids: "\<And>m. m \<in> set ms \<Longrightarrow> ms_id m \<in> U' \<and> ms_id m \<notin> U
      \<or> ms_id m \<notin> ms_id ` set (cs_messages db) \<and> ms_id m \<in> in_id ` set (cs_inputs db)"
    unfolding inbox_shape_def by blast
  let ?kept = "filter P (cs_inputs db)"
  have same: "map in_id (map f ?kept) = map in_id ?kept" "map receipt_key (map f ?kept) = map receipt_key ?kept"
    using input_moves_same [OF moves] same_receipt_key by (auto intro!: map_cong simp: comp_def)
  have new1: "distinct (map g new)" for g :: "run_input \<Rightarrow> 'x"
    using one by (cases new) auto
  have kept_ids: "in_id ` set ?kept \<subseteq> U" using wf by (auto simp: inbox_wf_def)
  have ids_f: "in_id ` set (map f ?kept) = in_id ` set ?kept"
    using same(1) by (metis set_map)
  have keys_f: "receipt_key ` set (map f ?kept) = receipt_key ` set ?kept"
    using same(2) by (metis set_map)
  have new_ids: "in_id i \<notin> U" and new_keys: "receipt_key i \<notin> receipt_key ` set ?kept" if "i \<in> set new" for i
    using new [OF that] by simp_all
  have d1: "distinct (map in_id (map f ?kept))" and d2: "distinct (map receipt_key (map f ?kept))"
    unfolding same using wf by (simp_all add: inbox_wf_def distinct_map_filter)
  have "in_id ` set (map f ?kept) \<inter> in_id ` set new = {}" unfolding ids_f
    by (rule disjoint_images [OF kept_ids new_ids])
  then have "distinct (map in_id (cs_inputs db'))"
    using new1 [of in_id] d1 unfolding inputs map_append distinct_append by (simp only: set_map simp_thms)
  moreover have "receipt_key ` set (map f ?kept) \<inter> receipt_key ` set new = {}" unfolding keys_f
    by (rule disjoint_images [OF subset_refl new_keys])
  then have "distinct (map receipt_key (cs_inputs db'))"
    using new1 [of receipt_key] d2 unfolding inputs map_append distinct_append by (simp only: set_map simp_thms)
  moreover have ms_old: "ms_id m \<notin> ms_id ` set (cs_messages db)" if "m \<in> set ms" for m
    using ids [OF that] wf by (auto simp: inbox_wf_def)
  then have "ms_id ` set (cs_messages db) \<inter> ms_id ` set ms = {}" by (rule disjoint_images [OF subset_refl])
  then have "distinct (map ms_id (cs_messages db'))"
    using wf ms(1) unfolding messages map_append distinct_append by (simp add: inbox_wf_def)
  moreover have "in_id ` set (cs_inputs db') \<subseteq> U'"
  proof -
    have "in_id ` set new \<subseteq> U'" using new by (simp add: image_subset_iff)
    then show ?thesis using kept_ids ids_f ms(2) unfolding inputs set_append image_Un by (simp only: Un_subset_iff) simp
  qed
  moreover have "ms_id ` set (cs_messages db') \<subseteq> U'"
  proof -
    have "ms_id m \<in> U'" if "m \<in> set ms" for m
    proof -
      have "in_id ` set (cs_inputs db) \<subseteq> U" using wf by (simp add: inbox_wf_def)
      then show ?thesis using ids [OF that] ms(2) by (metis subsetD)
    qed
    then show ?thesis using wf ms(2) unfolding messages inbox_wf_def by (simp add: image_Un image_subset_iff) blast
  qed
  moreover have "if in_status i' = InputApplied then \<exists>m \<in> set (cs_messages db'). delivers i' m
      else in_id i' \<notin> ms_id ` set (cs_messages db')" if mem: "i' \<in> set (cs_inputs db')" for i'
  proof (cases "i' \<in> set new")
    case True
    then show ?thesis using new [of i'] wf unfolding messages inbox_wf_def by auto
  next
    case False
    then obtain i where i: "i \<in> set (cs_inputs db)" "i' = f i" using mem inputs by auto
    have del: "delivers i' m" if "delivers i m" for m
      using that input_moves_same [OF moves [OF i(1)]] i(2) by (simp add: delivers_def same_receipt_def)
    have row: "if in_status i = InputApplied then \<exists>m \<in> set (cs_messages db). delivers i m
      else in_id i \<notin> ms_id ` set (cs_messages db)" using wf i(1) by (simp add: inbox_wf_def)
    show ?thesis using moves [OF i(1)] row del i(2) unfolding input_moves_def messages by auto
  qed
  ultimately show ?thesis by (simp add: inbox_wf_def)
qed

section \<open>Every step has the shape\<close>

lemma EnqueueRunInput_Inr:
  assumes "EnqueueRunInput clean new_id now owner ws conv input db = Inr (r, db')"
  defines "q \<equiv> normalize_input input" and "kept \<equiv> filter (\<lambda>i. \<not> purgeable now conv (cs_runs db) i) (cs_inputs db)"
  shows "valid_input q \<and> sql_text (iq_key q)"
    and "find_receipt owner conv (iq_key q) kept = Some i \<Longrightarrow> in_request i = stored_input q \<and> r = scanInput now i \<and> db' = db"
    and "find_receipt owner conv (iq_key q) kept = None \<Longrightarrow> \<not> over_capacity now conv q kept
      \<and> new_id \<notin> in_id ` set kept \<and> r = input_row new_id now owner ws conv q
      \<and> db' = db\<lparr>cs_inputs := kept @ [r]\<rparr>"
  using assms unfolding EnqueueRunInput_def
  by (auto simp: Let_def split: option.split_asm if_split_asm)

lemma find_receipt_None:
  "find_receipt owner conv key is = None \<Longrightarrow> i \<in> set is \<Longrightarrow> receipt_key i \<noteq> (owner, conv, key)"
  by (auto simp: find_receipt_def receipt_key_def find_None_iff)

lemma receipt_key_row: "sql_text (iq_key q) \<Longrightarrow> receipt_key (input_row j now owner ws conv q) = (owner, conv, iq_key q)"
  by (simp add: receipt_key_def input_row_def stored_input_def sql_text_def sanitize_valid)

lemma input_moves_refl [simp]: "input_moves [] i i"
  by (simp add: input_moves_def)

lemma enqueue_shape:
  assumes e: "EnqueueRunInput clean new_id now owner ws conv input db = Inr (r, db')" and "new_id \<notin> U"
  shows "inbox_shape U db (insert new_id U) db'"
proof -
  let ?q = "normalize_input input"
  let ?keep = "\<lambda>i. \<not> purgeable now conv (cs_runs db) i"
  let ?kept = "filter ?keep (cs_inputs db)"
  note q = EnqueueRunInput_Inr(1) [OF e]
  show ?thesis
  proof (cases "find_receipt owner conv (iq_key ?q) ?kept")
    case None
    note new = EnqueueRunInput_Inr(3) [OF e None]
    have "receipt_key r \<notin> receipt_key ` set ?kept"
      using find_receipt_None [OF None] receipt_key_row q new by (metis (no_types, lifting) imageE)
    moreover have "in_status r = InputQueued" "in_id r = new_id" using new by (simp_all add: input_row_def)
    ultimately show ?thesis using new assms(2) unfolding inbox_shape_def
      by (intro exI [of _ ?keep] exI [of _ id] exI [of _ "[r]"] exI [of _ "[]"]) (simp add: subset_insertI)
  next
    case (Some i)
    then have "db' = db" using EnqueueRunInput_Inr(2) [OF e Some] by simp
    then show ?thesis unfolding inbox_shape_def
      by (intro exI [of _ "\<lambda>_. True"] exI [of _ id] exI [of _ "[]"]) auto
  qed
qed

text \<open>Operations that only move rows.\<close>

lemma moves_shape:
  assumes "cs_inputs db' = map f (cs_inputs db)" and "cs_messages db' = cs_messages db @ ms"
    and "\<And>i. i \<in> set (cs_inputs db) \<Longrightarrow> input_moves ms i (f i)" and "distinct (map ms_id (cs_messages db @ ms))"
    and "\<And>m. m \<in> set ms \<Longrightarrow> ms_id m \<in> in_id ` set (cs_inputs db)"
  shows "inbox_shape U db U db'"
proof -
  have "ms_id m \<notin> ms_id ` set (cs_messages db)" if "m \<in> set ms" for m
    using assms(4) that by (auto simp: image_iff)
  then show ?thesis using assms unfolding inbox_shape_def
    by (intro exI [of _ "\<lambda>_. True"] exI [of _ f] exI [of _ "[]"] exI [of _ ms]) simp
qed

lemma withdraw_shape:
  assumes "WithdrawRunInput now owner ws conv j db = Inr (r, db')"
  shows "inbox_shape U db U db'"
proof -
  let ?m = "\<lambda>i. in_id i = j \<and> in_conversation i = conv \<and> (in_status i = InputWithdrawn \<or> live_input now i)"
  let ?f = "\<lambda>i. if ?m i then i\<lparr>in_status := InputWithdrawn\<rparr> else i"
  have db': "db' = db\<lparr>cs_inputs := update_rows ?m (\<lambda>i. i\<lparr>in_status := InputWithdrawn\<rparr>) (cs_inputs db)\<rparr>"
    using assms by (auto simp: WithdrawRunInput_def Let_def split: option.split_asm)
  have withdrawn: "i\<lparr>in_status := InputWithdrawn\<rparr> = i" if "in_status i = InputWithdrawn" for i
    using that by (cases i) simp
  have "input_moves [] i (?f i)" for i
    using withdrawn [of i] by (auto simp: input_moves_def live_input_def)
  then show ?thesis using db'
    unfolding inbox_shape_def
    by (intro exI [of _ "\<lambda>_. True"] exI [of _ ?f] exI [of _ "[]"] exI [of _ "[]"]) (simp add: update_rows_def)
qed

lemma insert_messages_Inr:
  "insert_messages ms db = Inr db' \<longleftrightarrow>
     distinct (map ms_id (cs_messages db @ ms)) \<and> db' = db\<lparr>cs_messages := cs_messages db @ ms\<rparr>"
  by (auto simp: insert_messages_def)

lemma delivers_message: "delivers i (input_message now i)"
  by (simp add: delivers_def input_message_def)

lemma input_message_ids: "ms_id ` set (map (input_message now) (filter Q is)) = in_id ` {i \<in> set is. Q i}"
  by (auto simp: input_message_def image_iff)

lemma consume_shape:
  assumes c: "ConsumeSteering now rid stage turn db = Inr (rs, db')" and wf: "inbox_wf U db"
  shows "inbox_shape U db U db'"
proof -
  let ?ms = "map (input_message now) (filter (steering now rid) (cs_inputs db))"
  let ?f = "\<lambda>i. if steering now rid i then applied_input now rid stage turn i else i"
  from c obtain u where u: "insert_messages ?ms db = Inr u"
    "db' = u\<lparr>cs_inputs := update_rows (steering now rid) (applied_input now rid stage turn) (cs_inputs u)\<rparr>"
    by (auto simp: ConsumeSteering_def Let_def bind_result_Inr split: option.split_asm if_split_asm)
  have ids: "inj_on in_id (set (cs_inputs db))" using wf by (simp add: inbox_wf_def distinct_map)
  show ?thesis
  proof (rule moves_shape [where f = ?f and ms = ?ms])
    show "cs_inputs db' = map ?f (cs_inputs db)" "cs_messages db' = cs_messages db @ ?ms"
      "distinct (map ms_id (cs_messages db @ ?ms))"
      using u by (auto simp: insert_messages_Inr update_rows_def)
    show "ms_id m \<in> in_id ` set (cs_inputs db)" if "m \<in> set ?ms" for m
      using that by (auto simp: input_message_def)
    show "input_moves ?ms i (?f i)" if i: "i \<in> set (cs_inputs db)" for i
    proof (cases "steering now rid i")
      case True
      then have "input_message now i \<in> set ?ms" using i by simp
      then show ?thesis using True delivers_message [of i now]
        by (auto simp: input_moves_def same_receipt_def applied_input_def steering_def live_input_def)
    next
      case False
      then have "in_id i \<notin> ms_id ` set ?ms"
        unfolding input_message_ids using ids i by (auto simp: inj_on_def)
      then show ?thesis using False by (simp add: input_moves_def)
    qed
  qed
qed

lemma applyFollowup_Inr:
  assumes "applyFollowup now input owner stopped r db = Inr db'"
  obtains i source latest where
    "followups now (run_conversation_id r) db = i # tl (followups now (run_conversation_id r) db)" "in_id i = input"
    "get_run (cs_runs db) (in_run_id i) = Some source" "run_constraint source \<noteq> ''plan_only''"
    "rev (conversation_runs (run_conversation_id r) (cs_runs db)) = latest # tl (rev (conversation_runs (run_conversation_id r) (cs_runs db)))"
    "run_status latest = RunCompleted \<or> stopped \<and> (run_status latest = RunFailed \<or> run_status latest = RunCanceled)"
    "length (filter (\<lambda>i. in_id i = input \<and> in_owner i = owner \<and> in_status i = InputQueued) (cs_inputs db)) = 1"
    "insert_messages (map (input_message now)
       (filter (\<lambda>i. in_id i = input \<and> in_owner i = owner \<and> in_status i = InputQueued) (cs_inputs db))) db = Inr db'"
    "lockInbox owner (run_workspace_id r) (run_conversation_id r) db = None"
  using assms unfolding applyFollowup_def ValidateFollowupIntent_def
  by (auto simp: Let_def split: option.split_asm list.split_asm if_split_asm)

lemma CreateInputRun_Inr:
  assumes "CreateInputRun archived meta plan_id new_id now input owner stopped agent conv snap contract db = Inr (r, db')"
    and "input \<noteq> []"
  obtains r0 u st where
    "new_run (\<lambda>c. map_option cv_workspace (find (\<lambda>v. cv_id v = c) (cs_conversations db)))
       archived meta plan_id new_id now agent conv snap contract = Inr r0"
    "r = started_run now r0" "applyFollowup now input owner stopped r0 db = Inr u"
    "insert_run snap r (cs_runs u) = Inr st"
    "db' = u\<lparr>cs_runs := st, cs_inputs := update_rows (\<lambda>i. in_id i = input)
       (\<lambda>i. i\<lparr>in_status := InputApplied, in_applied_run := Some (run_id r), in_applied_at := Some now\<rparr>) (cs_inputs u)\<rparr>"
proof -
  have id_eq: "run_id (started_run now r0) = run_id r0" for r0 by (simp add: started_run_def)
  show ?thesis
    using assms that unfolding CreateInputRun_def by (auto simp: bind_result_Inr id_eq)
qed

lemma CreateInputRun_plain:
  "CreateInputRun archived meta plan_id new_id now [] owner stopped agent conv snap contract db = Inr (r, db')
    \<Longrightarrow> \<exists>st. db' = db\<lparr>cs_runs := st\<rparr>"
  unfolding CreateInputRun_def by (auto simp: bind_result_Inr)

lemma filter_one:
  assumes "length (filter P xs) = 1"
  shows "\<exists>x \<in> set xs. P x \<and> filter P xs = [x]"
proof -
  obtain x where x: "filter P xs = [x]" using assms by (cases "filter P xs") auto
  then have "x \<in> set (filter P xs)" by simp
  then have "x \<in> set xs \<and> P x" unfolding set_filter by simp
  then show ?thesis using x by blast
qed

lemma followup_shape:
  assumes c: "CreateInputRun archived meta plan_id new_id now input owner stopped agent conv snap contract db = Inr (r, db')"
    and wf: "inbox_wf U db"
  shows "inbox_shape U db U db'"
proof (cases "input = []")
  case True
  then obtain st where "db' = db\<lparr>cs_runs := st\<rparr>" using CreateInputRun_plain c by blast
  then show ?thesis unfolding inbox_shape_def
    by (intro exI [of _ "\<lambda>_. True"] exI [of _ id] exI [of _ "[]"]) auto
next
  case False
  let ?Q = "\<lambda>i. in_id i = input \<and> in_owner i = owner \<and> in_status i = InputQueued"
  from CreateInputRun_Inr [OF c False] obtain r0 u st where u: "applyFollowup now input owner stopped r0 db = Inr u"
    and db': "db' = u\<lparr>cs_runs := st, cs_inputs := update_rows (\<lambda>i. in_id i = input)
       (\<lambda>i. i\<lparr>in_status := InputApplied, in_applied_run := Some (run_id r), in_applied_at := Some now\<rparr>) (cs_inputs u)\<rparr>"
    by metis
  from applyFollowup_Inr [OF u] have one: "length (filter ?Q (cs_inputs db)) = 1"
    and ins: "insert_messages (map (input_message now) (filter ?Q (cs_inputs db))) db = Inr u" by blast+
  from filter_one [OF one] obtain j where j: "j \<in> set (cs_inputs db)" "?Q j" "filter ?Q (cs_inputs db) = [j]" by blast
  let ?f = "\<lambda>i. if in_id i = input
    then i\<lparr>in_status := InputApplied, in_applied_run := Some (run_id r), in_applied_at := Some now\<rparr> else i"
  have ids: "inj_on in_id (set (cs_inputs db))" using wf by (simp add: inbox_wf_def distinct_map)
  show ?thesis
  proof (rule moves_shape [where f = ?f and ms = "[input_message now j]"])
    show "cs_inputs db' = map ?f (cs_inputs db)" "cs_messages db' = cs_messages db @ [input_message now j]"
      "distinct (map ms_id (cs_messages db @ [input_message now j]))"
      using ins db' j(3) by (auto simp: insert_messages_Inr update_rows_def)
    show "ms_id m \<in> in_id ` set (cs_inputs db)" if "m \<in> set [input_message now j]" for m
      using that j(1) by (auto simp: input_message_def)
    show "input_moves [input_message now j] i (?f i)" if i: "i \<in> set (cs_inputs db)" for i
    proof (cases "in_id i = input")
      case True
      then have "i = j" using ids i j by (auto simp: inj_on_def)
      then show ?thesis using j(2) delivers_message [of j now] by (auto simp: input_moves_def same_receipt_def)
    next
      case False
      then show ?thesis using j(2) by (auto simp: input_moves_def input_message_def)
    qed
  qed
qed

lemma step_shape: "inbox_step clean U T db U' T' db' \<Longrightarrow> inbox_wf U db \<Longrightarrow> inbox_shape U db U' db'"
proof (induction rule: inbox_step.induct)
  case (step_enqueue new_id now owner ws conv q db r db' U T)
  then show ?case by (simp add: enqueue_shape)
next
  case (step_withdraw now owner ws conv i db r db' U T)
  then show ?case by (simp add: withdraw_shape)
next
  case (step_consume now rid stage turn db rs db' U T)
  then show ?case by (simp add: consume_shape)
next
  case (step_followup archived meta plan_id new_id now i owner stopped agent conv snap contract db r db' U T)
  then show ?case by (simp add: followup_shape)
next
  case (step_others ms U T db st cvs wks mbs)
  have "in_id i \<notin> ms_id ` set ms" if "i \<in> set (cs_inputs db)" for i
    using step_others that by (auto simp: inbox_wf_def)
  then have "input_moves ms i i" if "i \<in> set (cs_inputs db)" for i using that by (simp add: input_moves_def)
  then show ?case using step_others(1,2) unfolding inbox_shape_def
    by (intro exI [of _ "\<lambda>_. True"] exI [of _ id] exI [of _ "[]"] exI [of _ ms]) auto
qed

lemma history_wf: "inbox_history clean U T db U' T' db' \<Longrightarrow> inbox_wf U db \<Longrightarrow> inbox_wf U' db'"
  by (induction rule: inbox_history.induct) (auto intro: inbox_shape_wf step_shape)

section \<open>One input through a history\<close>

lemma shape_row:
  assumes "inbox_shape U db U' db'" and "i' \<in> set (cs_inputs db')" and "in_id i' \<in> U"
  shows "\<exists>i \<in> set (cs_inputs db). \<exists>ms. input_moves ms i i'"
proof -
  from assms(1) obtain P f new ms where inputs: "cs_inputs db' = map f (filter P (cs_inputs db)) @ new"
    and moves: "\<And>i. i \<in> set (cs_inputs db) \<Longrightarrow> input_moves ms i (f i)" and new: "\<And>i. i \<in> set new \<Longrightarrow> in_id i \<notin> U"
    unfolding inbox_shape_def by blast
  then obtain i where "i \<in> set (cs_inputs db)" "i' = f i" using assms(2,3) by auto
  then show ?thesis using moves by blast
qed

lemma disjCI': "(\<not> P \<Longrightarrow> Q) \<Longrightarrow> P \<or> Q"
  by blast

lemma shape_message:
  assumes "inbox_shape U db U' db'" and "inbox_wf U db" and "m \<in> set (cs_messages db')" and "ms_id m \<in> U"
  shows "m \<in> set (cs_messages db) \<or> (\<exists>i \<in> set (cs_inputs db). in_status i = InputQueued \<and> delivers i m)"
proof (rule disjCI')
  assume old: "m \<notin> set (cs_messages db)"
  from assms(1) obtain f ms where messages: "cs_messages db' = cs_messages db @ ms"
    and moves: "\<And>i. i \<in> set (cs_inputs db) \<Longrightarrow> input_moves ms i (f i)" and ms: "distinct (map ms_id ms)"
    and ids: "\<And>m. m \<in> set ms \<Longrightarrow> ms_id m \<notin> U \<or> ms_id m \<in> in_id ` set (cs_inputs db)"
    unfolding inbox_shape_def by blast
  have m: "m \<in> set ms" using assms(3) old messages by simp
  with ids assms(4) obtain i where i: "i \<in> set (cs_inputs db)" "ms_id m = in_id i" by blast
  then have "in_id i \<in> ms_id ` set ms" using m by (metis imageI)
  with moves [OF i(1)] obtain m' where m': "in_status i = InputQueued" "m' \<in> set ms" "delivers i m'"
    unfolding input_moves_def by blast
  then have "ms_id m' = ms_id m" using i by (simp add: delivers_def)
  then have "m' = m" using ms m m'(2) by (auto simp: distinct_map inj_on_def)
  then show "\<exists>i \<in> set (cs_inputs db). in_status i = InputQueued \<and> delivers i m" using i(1) m' by blast
qed

lemma history_grows: "inbox_history clean U T db U' T' db' \<Longrightarrow> U \<subseteq> U'"
proof (induction rule: inbox_history.induct)
  case (history_step U T db U' T' db' U'' T'' db'')
  from this(2) have "U' \<subseteq> U''" by (cases rule: inbox_step.cases) auto
  then show ?case using history_step.IH by simp
qed simp

lemma history_input:
  assumes "inbox_history clean U T db U' T' db'" and "inbox_wf U db" and "i \<in> set (cs_inputs db)"
  shows "(\<forall>i' \<in> set (cs_inputs db'). in_id i' = in_id i \<longrightarrow>
        same_receipt i i' \<and> (in_status i \<noteq> InputQueued \<longrightarrow> i' = i))
    \<and> (\<forall>m \<in> set (cs_messages db'). ms_id m = in_id i \<longrightarrow> delivers i m)
    \<and> (in_status i = InputWithdrawn \<longrightarrow> in_id i \<notin> ms_id ` set (cs_messages db'))"
  using assms
proof (induction rule: inbox_history.induct)
  case (history_nil U T db)
  then have inj: "inj_on in_id (set (cs_inputs db))" "inj_on ms_id (set (cs_messages db))"
    and row: "if in_status i = InputApplied then \<exists>m \<in> set (cs_messages db). delivers i m
      else in_id i \<notin> ms_id ` set (cs_messages db)"
    by (simp_all add: inbox_wf_def distinct_map)
  have "i' = i" if "i' \<in> set (cs_inputs db)" "in_id i' = in_id i" for i'
    using inj(1) that history_nil(2) by (simp add: inj_on_def)
  moreover have "delivers i m" if m: "m \<in> set (cs_messages db)" "ms_id m = in_id i" for m
  proof -
    have "in_id i \<in> ms_id ` set (cs_messages db)" using m by (metis imageI)
    then obtain m' where m': "m' \<in> set (cs_messages db)" "delivers i m'" using row by (auto split: if_split_asm)
    then have "m' = m" using inj(2) m by (auto simp: inj_on_def delivers_def)
    then show ?thesis using m'(2) by simp
  qed
  moreover have "in_status i = InputWithdrawn \<Longrightarrow> in_id i \<notin> ms_id ` set (cs_messages db)" using row by simp
  ultimately show ?case by (auto simp: same_receipt_def)
next
  case (history_step U T db U' T' db' U'' T'' db'')
  note ih = history_step.IH [OF history_step.prems]
  have wf: "inbox_wf U' db'" using history_wf history_step.hyps(1) history_step.prems(1) by blast
  note shape = step_shape [OF history_step.hyps(2) wf]
  have used: "in_id i \<in> U'"
    using history_grows [OF history_step.hyps(1)] history_step.prems by (auto simp: inbox_wf_def)
  have row: "same_receipt i j \<and> (in_status i \<noteq> InputQueued \<longrightarrow> j = i)"
    if "j \<in> set (cs_inputs db')" "in_id j = in_id i" for j using ih that by blast
  have "same_receipt i i'' \<and> (in_status i \<noteq> InputQueued \<longrightarrow> i'' = i)"
    if i'': "i'' \<in> set (cs_inputs db'')" "in_id i'' = in_id i" for i''
  proof -
    from shape_row [OF shape i''(1)] used i''(2) obtain j ms where j: "j \<in> set (cs_inputs db')" "input_moves ms j i''"
      by auto
    have s: "same_receipt j i''" by (rule input_moves_same [OF j(2)])
    then have "in_id j = in_id i" using i''(2) by (simp add: same_receipt_def)
    note r = row [OF j(1) this]
    have "same_receipt i i''" using r s by (simp add: same_receipt_def)
    then show ?thesis using r input_moves_settled [OF j(2)] by auto
  qed
  moreover have "delivers i m" and "in_status i \<noteq> InputWithdrawn"
    if m: "m \<in> set (cs_messages db'')" "ms_id m = in_id i" for m
  proof -
    have "ms_id m \<in> U'" using used m(2) by simp
    from shape_message [OF shape wf m(1) this] consider "m \<in> set (cs_messages db')"
      | j where "j \<in> set (cs_inputs db')" "in_status j = InputQueued" "delivers j m" by blast
    then have "delivers i m \<and> in_status i \<noteq> InputWithdrawn"
    proof cases
      case 1
      then show ?thesis using ih m(2) by (metis imageI)
    next
      case 2
      then have "in_id j = in_id i" using m(2) by (simp add: delivers_def)
      note r = row [OF 2(1) this]
      then show ?thesis using 2 by (auto simp: delivers_def same_receipt_def)
    qed
    then show "delivers i m" "in_status i \<noteq> InputWithdrawn" by simp_all
  qed
  ultimately show ?case by (metis imageE)
qed

section \<open>Limits\<close>

text \<open>
  At every instant from \<open>T\<close> on: the retained receipts, the queued inputs and their content, and the
  content that steers one Run.
\<close>

definition inbox_limits :: "time \<Rightarrow> conversation_store \<Rightarrow> bool" where
  "inbox_limits T db \<longleftrightarrow> (\<forall>conv.
     (let rows = filter (\<lambda>i. in_conversation i = conv) (cs_inputs db)
      in length rows \<le> 256
         \<and> (\<forall>t \<ge> T. length (filter (live_input t) rows) \<le> 16 \<and> content_bytes (filter (live_input t) rows) \<le> 65536)
         \<and> (\<forall>rid. content_bytes (filter (steering_of rid) rows) \<le> 65536)))"

lemma content_bytes_simps [simp]:
  "content_bytes [] = 0" "content_bytes (i # is) = int (length (iq_content (in_request i))) + content_bytes is"
  "content_bytes (xs @ ys) = content_bytes xs + content_bytes ys"
  by (simp_all add: content_bytes_def)

lemma content_bytes_nonneg: "0 \<le> content_bytes is"
  by (induction "is") auto

lemma narrower_rows:
  assumes "\<And>i. i \<in> set is \<Longrightarrow> Q (f i) \<Longrightarrow> Q' i" and "\<And>i. i \<in> set is \<Longrightarrow> in_request (f i) = in_request i"
  shows "length (filter Q (map f (filter P is))) \<le> length (filter Q' is)
    \<and> content_bytes (filter Q (map f (filter P is))) \<le> content_bytes (filter Q' is)"
  using assms by (induction "is") auto

lemma input_moves_narrower:
  assumes "input_moves ms i i'"
  shows "in_conversation i' = in_conversation i" and "in_request i' = in_request i"
    and "live_input t i' \<Longrightarrow> live_input t i" and "steering_of rid i' \<Longrightarrow> steering_of rid i"
  using assms by (auto simp: input_moves_def same_receipt_def live_input_def steering_of_def)

lemma live_input_later: "live_input t i \<Longrightarrow> now \<le> t \<Longrightarrow> live_input now i"
  by (simp add: live_input_def)

lemma moves_narrower:
  assumes "cs_inputs db' = map f (filter P (cs_inputs db))"
    and "\<And>i. i \<in> set (cs_inputs db) \<Longrightarrow> \<exists>ms. input_moves ms i (f i)"
    and "\<And>i i' ms. input_moves ms i i' \<Longrightarrow> Q i' \<Longrightarrow> Q i"
  shows "length (filter (\<lambda>i. in_conversation i = conv \<and> Q i) (cs_inputs db'))
        \<le> length (filter (\<lambda>i. in_conversation i = conv \<and> Q i) (cs_inputs db))
      \<and> content_bytes (filter (\<lambda>i. in_conversation i = conv \<and> Q i) (cs_inputs db'))
        \<le> content_bytes (filter (\<lambda>i. in_conversation i = conv \<and> Q i) (cs_inputs db))"
  unfolding assms(1)
  by (rule narrower_rows) (use assms(2,3) input_moves_narrower(1,2) in \<open>metis\<close>)+

lemma moves_limits:
  assumes "cs_inputs db' = map f (filter P (cs_inputs db))"
    and moves: "\<And>i. i \<in> set (cs_inputs db) \<Longrightarrow> \<exists>ms. input_moves ms i (f i)" and "inbox_limits T db"
  shows "inbox_limits T db'"
proof -
  have rows: "filter Q (filter (\<lambda>i. in_conversation i = conv) is) = filter (\<lambda>i. in_conversation i = conv \<and> Q i) is"
    for Q conv "is" by (simp add: conj_commute)
  have live: "\<And>i i' ms. input_moves ms i i' \<Longrightarrow> live_input t i' \<Longrightarrow> live_input t i" for t
    by (rule input_moves_narrower(3))
  have steer: "\<And>i i' ms. input_moves ms i i' \<Longrightarrow> steering_of rid i' \<Longrightarrow> steering_of rid i" for rid
    by (rule input_moves_narrower(4))
  show ?thesis
    unfolding inbox_limits_def Let_def rows
  proof (intro allI conjI impI)
    fix conv
    note lim = assms(3) [unfolded inbox_limits_def Let_def rows, rule_format, of conv]
    show "length (filter (\<lambda>i. in_conversation i = conv) (cs_inputs db')) \<le> 256"
      using moves_narrower [where Q = "\<lambda>_. True" and conv = conv, OF assms(1) moves] lim by simp
    show "length (filter (\<lambda>i. in_conversation i = conv \<and> live_input t i) (cs_inputs db')) \<le> 16" if "T \<le> t" for t
      by (rule order_trans [OF conjunct1 [OF moves_narrower [where Q = "live_input t", OF assms(1) moves live]]])
        (use lim that in blast)+
    show "content_bytes (filter (\<lambda>i. in_conversation i = conv \<and> live_input t i) (cs_inputs db')) \<le> 65536" if "T \<le> t" for t
      by (rule order_trans [OF conjunct2 [OF moves_narrower [where Q = "live_input t", OF assms(1) moves live]]])
        (use lim that in blast)+
    show "content_bytes (filter (\<lambda>i. in_conversation i = conv \<and> steering_of rid i) (cs_inputs db')) \<le> 65536" for rid
      by (rule order_trans [OF conjunct2 [OF moves_narrower [where Q = "steering_of rid", OF assms(1) moves steer]]])
        (use lim in blast)+
  qed
qed

lemma limits_later: "inbox_limits T db \<Longrightarrow> T \<le> T' \<Longrightarrow> inbox_limits T' db"
  by (auto simp: inbox_limits_def Let_def)

lemma enqueue_limits:
  assumes e: "EnqueueRunInput clean new_id now owner ws conv input db = Inr (r, db')"
    and valid: "utf8_valid (iq_content input)" and lim: "inbox_limits T db"
  shows "inbox_limits (max T now) db'"
proof -
  let ?q = "normalize_input input"
  let ?keep = "\<lambda>i. \<not> purgeable now conv (cs_runs db) i"
  let ?kept = "filter ?keep (cs_inputs db)"
  show ?thesis
  proof (cases "find_receipt owner conv (iq_key ?q) ?kept")
    case (Some i)
    then show ?thesis using EnqueueRunInput_Inr(2) [OF e Some] lim limits_later by simp
  next
    case None
    note new = EnqueueRunInput_Inr(3) [OF e None]
    have kept: "inbox_limits T (db\<lparr>cs_inputs := ?kept\<rparr>)"
      by (rule moves_limits [OF _ _ lim, where f = id and P = ?keep]) (auto intro: exI [of _ "[]"])
    have row: "in_conversation r = conv" "in_run_id r = iq_run_id ?q" "in_status r = InputQueued"
      "iq_kind (in_request r) = iq_kind ?q" "length (iq_content (in_request r)) = length (iq_content ?q)"
      using new valid by (simp_all add: input_row_def stored_input_def normalize_input_def trim_space_valid sanitize_valid)
    let ?rows = "\<lambda>c. filter (\<lambda>i. in_conversation i = c) ?kept"
    have cap: "length (?rows conv) < 256" "length (filter (live_input now) (?rows conv)) < 16"
      "content_bytes (filter (live_input now) (?rows conv)) + int (length (iq_content ?q)) \<le> 65536"
      "iq_kind ?q = ''steer'' \<Longrightarrow>
        content_bytes (filter (steering_of (iq_run_id ?q)) (?rows conv)) + int (length (iq_content ?q)) \<le> 65536"
      using new by (auto simp: over_capacity_def Let_def)
    have later: "length (filter (live_input t) (?rows conv)) \<le> length (filter (live_input now) (?rows conv))
        \<and> content_bytes (filter (live_input t) (?rows conv)) \<le> content_bytes (filter (live_input now) (?rows conv))"
      if "now \<le> t" for t
      using narrower_rows [of "?rows conv" "live_input t" id "live_input now" "\<lambda>_. True"] live_input_later [OF _ that]
      by auto
    have inputs: "cs_inputs db' = ?kept @ [r]" using new by simp
    show ?thesis
      unfolding inbox_limits_def Let_def inputs
    proof (intro allI conjI impI)
      fix c
      note lim_c = kept [unfolded inbox_limits_def Let_def, rule_format, of c]
      have other: "c \<noteq> conv \<Longrightarrow> filter (\<lambda>i. in_conversation i = c) (?kept @ [r]) = ?rows c" using row(1) by simp
      have same: "filter (\<lambda>i. in_conversation i = conv) (?kept @ [r]) = ?rows conv @ [r]" using row(1) by simp
      show "length (filter (\<lambda>i. in_conversation i = c) (?kept @ [r])) \<le> 256"
        using lim_c cap(1) row(1) by (cases "c = conv") simp_all
      show "length (filter (live_input t) (filter (\<lambda>i. in_conversation i = c) (?kept @ [r]))) \<le> 16"
        if t: "max T now \<le> t" for t
      proof (cases "c = conv")
        case True
        have "length (filter (live_input t) (?rows conv)) < 16" using later [of t] cap(2) t by simp
        then show ?thesis unfolding True same by simp
      next
        case False
        then show ?thesis unfolding other [OF False] using lim_c t by simp
      qed
      show "content_bytes (filter (live_input t) (filter (\<lambda>i. in_conversation i = c) (?kept @ [r]))) \<le> 65536"
        if t: "max T now \<le> t" for t
      proof (cases "c = conv")
        case True
        have "content_bytes (filter (live_input t) (?rows conv)) + int (length (iq_content ?q)) \<le> 65536"
          using later [of t] cap(3) t by simp
        then show ?thesis unfolding True same using row(5) by (simp add: content_bytes_nonneg)
      next
        case False
        then show ?thesis unfolding other [OF False] using lim_c t by simp
      qed
      show "content_bytes (filter (steering_of rid) (filter (\<lambda>i. in_conversation i = c) (?kept @ [r]))) \<le> 65536" for rid
      proof (cases "c = conv")
        case True
        have "content_bytes (filter (steering_of rid) (?rows conv)) \<le> 65536" using lim_c unfolding True by simp
        then show ?thesis unfolding True same using cap(4) row by (auto simp: steering_of_def)
      next
        case False
        then show ?thesis unfolding other [OF False] using lim_c by simp
      qed
    qed
  qed
qed

lemma shape_moves:
  assumes "inbox_shape U db U db'" and "inbox_limits T db"
  shows "inbox_limits T db'"
proof -
  from assms(1) obtain P f new ms where inputs: "cs_inputs db' = map f (filter P (cs_inputs db)) @ new"
    and moves: "\<And>i. i \<in> set (cs_inputs db) \<Longrightarrow> input_moves ms i (f i)"
    and new: "\<And>i. i \<in> set new \<Longrightarrow> in_id i \<notin> U \<and> in_id i \<in> U"
    unfolding inbox_shape_def by blast
  have "new = []" using new by (cases new) auto
  then show ?thesis using moves_limits [of db' f P db T] inputs moves assms(2) by auto
qed

lemma step_limits:
  "inbox_step clean U T db U' T' db' \<Longrightarrow> inbox_wf U db \<Longrightarrow> inbox_limits T db \<Longrightarrow> inbox_limits T' db'"
proof (induction rule: inbox_step.induct)
  case (step_enqueue new_id now owner ws conv q db r db' U T)
  then show ?case using enqueue_limits by blast
next
  case (step_withdraw now owner ws conv i db r db' U T)
  then show ?case using shape_moves [OF withdraw_shape] limits_later [of T _ "max T now"] by fastforce
next
  case (step_consume now rid stage turn db rs db' U T)
  then show ?case using shape_moves [OF consume_shape] limits_later [of T _ "max T now"] by fastforce
next
  case (step_followup archived meta plan_id new_id now i owner stopped agent conv snap contract db r db' U T)
  then show ?case using shape_moves [OF followup_shape] limits_later [of T _ "max T now"] by fastforce
next
  case (step_others ms U T db st cvs wks mbs)
  then show ?case by (simp add: inbox_limits_def)
qed

lemma history_limits:
  "inbox_history clean U T db U' T' db' \<Longrightarrow> inbox_wf U db \<Longrightarrow> inbox_limits T db \<Longrightarrow> inbox_limits T' db'"
  by (induction rule: inbox_history.induct) (auto intro: step_limits history_wf)

section \<open>Guarantees\<close>

text \<open>
  C34: An input reaches its conversation at most once. Whatever happens to the inbox - submissions,
  withdrawals, steering, follow-ups, other messages and Runs, in any order - the conversation has at
  most one message for an input, and it is the content that was accepted; a receipt never changes
  what it asks for, it is applied exactly when its message is there, it is final once it was applied
  or withdrawn, and a withdrawn input is never delivered.
\<close>

theorem input_delivered_once:
  assumes "inbox_history clean U T db U' T' db'" and "inbox_wf U db" and "i \<in> set (cs_inputs db)"
  shows "length (filter (\<lambda>m. ms_id m = in_id i) (cs_messages db')) \<le> 1
    \<and> (\<forall>m \<in> set (cs_messages db'). ms_id m = in_id i \<longrightarrow> delivers i m)
    \<and> (in_status i = InputWithdrawn \<longrightarrow> in_id i \<notin> ms_id ` set (cs_messages db'))
    \<and> (\<forall>i' \<in> set (cs_inputs db'). in_id i' = in_id i \<longrightarrow> same_receipt i i'
         \<and> (in_status i \<noteq> InputQueued \<longrightarrow> i' = i)
         \<and> (in_status i' = InputApplied \<longleftrightarrow> in_id i \<in> ms_id ` set (cs_messages db')))"
proof -
  note hist = history_input [OF assms]
  have wf: "inbox_wf U' db'" using history_wf assms by blast
  have one: "length (filter (\<lambda>m. g m = k) ms) \<le> 1" if "distinct (map g ms)" for g :: "message_row \<Rightarrow> string" and k ms
    using that by (induction ms) (auto simp: filter_empty_conv image_iff)
  have "in_status i' = InputApplied \<longleftrightarrow> in_id i \<in> ms_id ` set (cs_messages db')"
    if "i' \<in> set (cs_inputs db')" "in_id i' = in_id i" for i'
  proof -
    have "if in_status i' = InputApplied then \<exists>m \<in> set (cs_messages db'). delivers i' m
      else in_id i' \<notin> ms_id ` set (cs_messages db')" using wf that(1) by (simp add: inbox_wf_def)
    then show ?thesis using that(2) by (metis delivers_def imageI)
  qed
  then show ?thesis using hist one wf by (simp add: inbox_wf_def)
qed

text \<open>
  C35: The limits of an inbox hold after any history: at most 256 receipts are retained for a conversation,
  at most 16 inputs with at most 64 KiB wait at any instant from the latest transaction on, and at
  most 64 KiB steer one Run, whatever expired, was withdrawn or was consumed in between.
\<close>

theorem inbox_limits_hold:
  assumes "inbox_history clean U T db U' T' db'" and "inbox_wf U db" and "inbox_limits T db"
  shows "inbox_limits T' db'"
  using assms by (rule history_limits)

lemma find_unique:
  "distinct (map receipt_key is) \<Longrightarrow> i \<in> set is \<Longrightarrow> receipt_key i = (owner, conv, key)
    \<Longrightarrow> find_receipt owner conv key is = Some i"
  by (induction "is") (auto simp: find_receipt_def receipt_key_def image_iff)

lemma enqueue_row:
  assumes e: "EnqueueRunInput clean j now owner ws conv q db = Inr (r, db')"
  shows "\<exists>i \<in> set (cs_inputs db'). in_id i = in_id r \<and> receipt_key i = (owner, conv, iq_key q)
    \<and> in_request i = stored_input (normalize_input q)"
proof -
  let ?q = "normalize_input q"
  have key: "iq_key ?q = iq_key q" by (simp add: normalize_input_def)
  let ?kept = "filter (\<lambda>i. \<not> purgeable now conv (cs_runs db) i) (cs_inputs db)"
  note q = EnqueueRunInput_Inr(1) [OF e]
  show ?thesis
  proof (cases "find_receipt owner conv (iq_key ?q) ?kept")
    case None
    note new = EnqueueRunInput_Inr(3) [OF e None]
    then show ?thesis using receipt_key_row [of ?q] q key by (auto simp: input_row_def)
  next
    case (Some i)
    then have i: "i \<in> set ?kept" "receipt_key i = (owner, conv, iq_key q)"
      using key by (auto simp: find_receipt_def receipt_key_def find_Some_iff in_set_conv_nth simp del: nth_mem set_filter)
    have "in_id (scanInput now i) = in_id i" by (simp add: scanInput_def)
    then show ?thesis using EnqueueRunInput_Inr(2) [OF e Some] i by auto
  qed
qed

text \<open>
  A submission may be repeated: as long as its receipt is retained, sending the same request again
  is answered with the receipt as it is by then and changes nothing, even when it was consumed or
  withdrawn; another request under its key is always refused.
\<close>

theorem enqueue_retry:
  assumes "EnqueueRunInput clean j now owner ws conv q db = Inr (r, db1)" and "j \<notin> U" and "inbox_wf U db"
    and "inbox_history clean (insert j U) T db1 U' T' db'"
    and "i \<in> set (cs_inputs db')" and "in_id i = in_id r" and "\<not> purgeable now' conv (cs_runs db') i"
    and "lockInbox owner ws' conv db' = None" and "clean (normalize_input q)" and "storable_input (normalize_input q)"
    and "find (\<lambda>x. run_id x = iq_run_id q \<and> run_conversation_id x = conv) (rs_runs (cs_runs db')) = Some run"
    and "\<not> (iq_kind q = ''follow_up'' \<and> run_constraint run = ''plan_only'')"
  shows "EnqueueRunInput clean j' now' owner ws' conv q db' = Inr (scanInput now' i, db')
    \<and> (iq_key q' = iq_key q \<and> stored_input (normalize_input q') \<noteq> stored_input (normalize_input q)
        \<longrightarrow> (\<exists>e. EnqueueRunInput clean j' now' owner ws' conv q' db' = Inl e))"
proof -
  let ?q = "normalize_input q"
  let ?kept = "filter (\<lambda>i. \<not> purgeable now' conv (cs_runs db') i) (cs_inputs db')"
  have norm: "iq_key (normalize_input p) = iq_key p" "iq_run_id (normalize_input p) = iq_run_id p"
    "iq_kind (normalize_input p) = iq_kind p" for p by (simp_all add: normalize_input_def)
  from enqueue_row [OF assms(1)] obtain i0 where i0: "i0 \<in> set (cs_inputs db1)" "in_id i0 = in_id r"
    "receipt_key i0 = (owner, conv, iq_key q)" "in_request i0 = stored_input ?q" by blast
  have wf1: "inbox_wf (insert j U) db1" by (rule inbox_shape_wf [OF assms(3) enqueue_shape [OF assms(1,2)]])
  have "same_receipt i0 i" using history_input [OF assms(4) wf1 i0(1)] assms(5,6) i0(2) by simp
  then have i: "receipt_key i = (owner, conv, iq_key q)" "in_request i = stored_input ?q"
    using i0(3,4) by (simp_all add: same_receipt_key) (simp add: same_receipt_def)
  have "distinct (map receipt_key ?kept)"
    using history_wf [OF assms(4) wf1] by (simp add: inbox_wf_def distinct_map_filter)
  moreover have "i \<in> set ?kept" using assms(5,7) by simp
  ultimately have found: "find_receipt owner conv (iq_key q) ?kept = Some i" using i(1) by (rule find_unique)
  have "EnqueueRunInput clean j' now' owner ws' conv q db' = Inr (scanInput now' i, db')"
    using EnqueueRunInput_Inr(1) [OF assms(1)] assms(8-12) found i(2)
    by (auto simp: EnqueueRunInput_def Let_def norm ValidateFollowupIntent_def)
  moreover have "\<exists>e. EnqueueRunInput clean j' now' owner ws' conv q' db' = Inl e"
    if "iq_key q' = iq_key q" "stored_input (normalize_input q') \<noteq> stored_input ?q"
  proof (cases "EnqueueRunInput clean j' now' owner ws' conv q' db'")
    case (Inr x)
    obtain r' db'' where "x = (r', db'')" by (cases x)
    with Inr have e: "EnqueueRunInput clean j' now' owner ws' conv q' db' = Inr (r', db'')" by simp
    show ?thesis using EnqueueRunInput_Inr(2) [OF e, of i] found i(2) that by (simp add: norm)
  qed simp
  ultimately show ?thesis by blast
qed

section \<open>Follow-ups\<close>

lemma sort_key_head:
  fixes k :: "'a \<Rightarrow> 'b :: linorder"
  assumes "sort_key k xs = x # rest"
  shows "x \<in> set xs" and "y \<in> set xs \<Longrightarrow> k x \<le> k y"
proof -
  have s: "set xs = insert x (set rest)" using assms set_sort [of k xs] by simp
  then show "x \<in> set xs" by simp
  show "k x \<le> k y" if "y \<in> set xs" using sorted_sort_key [of k xs] assms s that by auto
qed

lemma sort_key_last:
  fixes k :: "'a \<Rightarrow> 'b :: linorder"
  assumes "rev (sort_key k xs) = x # rest"
  shows "x \<in> set xs" and "y \<in> set xs \<Longrightarrow> k y \<le> k x"
proof -
  have e: "sort_key k xs = rev rest @ [x]" using assms by (simp add: rev_eq_Cons_iff)
  then have s: "set xs = insert x (set rest)" using set_sort [of k xs] by simp
  then show "x \<in> set xs" by simp
  show "k y \<le> k x" if "y \<in> set xs" using sorted_sort_key [of k xs] e s that by (auto simp: sorted_append)
qed

lemma followups_hd:
  assumes "followups now conv db = i # rest"
  shows "i \<in> set (cs_inputs db)" and "in_conversation i = conv" and "iq_kind (in_request i) = ''follow_up''"
    and "live_input now i"
    and "\<And>k. k \<in> set (cs_inputs db) \<Longrightarrow> in_conversation k = conv \<Longrightarrow> iq_kind (in_request k) = ''follow_up''
      \<Longrightarrow> live_input now k \<Longrightarrow> get_run (cs_runs db) (in_run_id k) \<noteq> None \<Longrightarrow> input_order i \<le> input_order k"
  using sort_key_head [OF assms [unfolded followups_def]] by simp_all

text \<open>
  C36: A follow-up starts exactly one Run. If a Run is created from a queued input, that input was the
  oldest follow-up that waited, the last Run of the conversation had ended, and afterwards the Run is
  running, the receipt points to it and the message is there; and from then on, whatever happens,
  no Run is created from that input again.
\<close>

theorem followup_starts_one_run:
  assumes "CreateInputRun archived meta plan_id new_id now input owner stopped agent conv snap contract db = Inr (r, db')"
    and "input \<noteq> []" and "inbox_wf U db"
  shows "run_status r = RunRunning \<and> get_run (cs_runs db) (run_id r) = None \<and> get_run (cs_runs db') (run_id r) = Some r
    \<and> (\<exists>latest \<in> set (rs_runs (cs_runs db)). run_conversation_id latest = conv
         \<and> (\<forall>x \<in> set (rs_runs (cs_runs db)). run_conversation_id x = conv \<longrightarrow> run_created_at x \<le> run_created_at latest)
         \<and> (run_status latest = RunCompleted \<or> stopped \<and> (run_status latest = RunFailed \<or> run_status latest = RunCanceled)))
    \<and> (\<exists>i \<in> set (cs_inputs db). in_id i = input \<and> in_owner i = owner \<and> live_input now i
         \<and> (\<forall>k \<in> set (cs_inputs db). in_conversation k = conv \<and> iq_kind (in_request k) = ''follow_up'' \<and> live_input now k
              \<and> get_run (cs_runs db) (in_run_id k) \<noteq> None \<longrightarrow> input_order i \<le> input_order k)
         \<and> (\<exists>i' \<in> set (cs_inputs db'). same_receipt i i' \<and> in_status i' = InputApplied \<and> in_applied_run i' = Some (run_id r))
         \<and> (\<exists>m \<in> set (cs_messages db'). delivers i m))
    \<and> (inbox_history clean U T db' U' T' db''
        \<longrightarrow> (\<exists>e. CreateInputRun archived' meta' plan_id' new_id' now' input owner' stopped' agent' conv' snap' contract' db'' = Inl e))"
proof -
  let ?Q = "\<lambda>i. in_id i = input \<and> in_owner i = owner \<and> in_status i = InputQueued"
  from CreateInputRun_Inr [OF assms(1,2)] obtain r0 u st where
    r0: "new_run (\<lambda>c. map_option cv_workspace (find (\<lambda>v. cv_id v = c) (cs_conversations db)))
       archived meta plan_id new_id now agent conv snap contract = Inr r0"
    and r: "r = started_run now r0" and u: "applyFollowup now input owner stopped r0 db = Inr u"
    and ins: "insert_run snap r (cs_runs u) = Inr st"
    and db': "db' = u\<lparr>cs_runs := st, cs_inputs := update_rows (\<lambda>i. in_id i = input)
       (\<lambda>i. i\<lparr>in_status := InputApplied, in_applied_run := Some (run_id r), in_applied_at := Some now\<rparr>) (cs_inputs u)\<rparr>"
    by metis
  have conv: "run_conversation_id r0 = conv" using new_run_Inr(3) [OF r0] .
  from applyFollowup_Inr [OF u, unfolded conv] obtain i latest where
    hd: "followups now conv db = i # tl (followups now conv db)" "in_id i = input"
    and last: "rev (conversation_runs conv (cs_runs db)) = latest # tl (rev (conversation_runs conv (cs_runs db)))"
    and ended: "run_status latest = RunCompleted \<or> stopped \<and> (run_status latest = RunFailed \<or> run_status latest = RunCanceled)"
    and one: "length (filter ?Q (cs_inputs db)) = 1"
    and ms: "insert_messages (map (input_message now) (filter ?Q (cs_inputs db))) db = Inr u"
    by (rule applyFollowup_Inr [OF u, unfolded conv], rule that) assumption+
  note first = followups_hd [OF hd(1)]
  from filter_one [OF one] obtain j where j: "j \<in> set (cs_inputs db)" "?Q j" "filter ?Q (cs_inputs db) = [j]" by blast
  have "j = i" using assms(3) j(1,2) first(1) hd(2) by (auto simp: inbox_wf_def distinct_map inj_on_def)
  with j ms have owner: "in_owner i = owner"
    and u_eq: "u = db\<lparr>cs_messages := cs_messages db @ [input_message now i]\<rparr>"
    by (simp_all add: insert_messages_Inr)
  let ?i' = "i\<lparr>in_status := InputApplied, in_applied_run := Some (run_id r), in_applied_at := Some now\<rparr>"
  have i': "?i' \<in> set (cs_inputs db')"
    using first(1) hd(2) unfolding db' u_eq by (auto simp: update_rows_def intro!: image_eqI [of _ _ i])
  have wf': "inbox_wf U db'" by (rule inbox_shape_wf [OF assms(3) followup_shape [OF assms(1,3)]])
  have fresh: "get_run (cs_runs db) (run_id r) = None" and st: "st = (cs_runs db)\<lparr>rs_runs := rs_runs (cs_runs db) @ [r]\<rparr>"
    using ins by (simp_all add: insert_run_Inr u_eq)
  have run: "get_run (cs_runs db') (run_id r) = Some r" using fresh unfolding db' st by (simp add: get_run_append)
  note newest = sort_key_last [OF last [unfolded conversation_runs_def]]
  have latest: "latest \<in> set (rs_runs (cs_runs db))" "run_conversation_id latest = conv" using newest(1) by simp_all
  have "run_created_at x \<le> run_created_at latest" if "x \<in> set (rs_runs (cs_runs db))" "run_conversation_id x = conv" for x
    using newest(2) [of x] that by auto
  then have newer: "\<forall>x \<in> set (rs_runs (cs_runs db)). run_conversation_id x = conv \<longrightarrow> run_created_at x \<le> run_created_at latest"
    by blast
  have message: "input_message now i \<in> set (cs_messages db')" unfolding db' u_eq by simp
  have "\<exists>e. CreateInputRun archived' meta' plan_id' new_id' now' input owner' stopped' agent' conv' snap' contract' db'' = Inl e"
    if h: "inbox_history clean U T db' U' T' db''"
  proof (rule ccontr)
    assume "\<nexists>e. CreateInputRun archived' meta' plan_id' new_id' now' input owner' stopped' agent' conv' snap' contract' db'' = Inl e"
    then obtain r2 d2 where
      again: "CreateInputRun archived' meta' plan_id' new_id' now' input owner' stopped' agent' conv' snap' contract' db'' = Inr (r2, d2)"
      by (cases "CreateInputRun archived' meta' plan_id' new_id' now' input owner' stopped' agent' conv' snap' contract' db''") auto
    from CreateInputRun_Inr [OF again assms(2)] obtain r3 u2 where "applyFollowup now' input owner' stopped' r3 db'' = Inr u2"
      by metis
    then obtain k c where k: "followups now' c db'' = k # tl (followups now' c db'')" "in_id k = input"
      by (rule applyFollowup_Inr)
    note k' = followups_hd [OF k(1)]
    have "k = ?i'" using history_input [OF h wf' i'] k'(1) k(2) hd(2) by simp
    then show False using k'(4) by (simp add: live_input_def)
  qed
  moreover have "run_status r = RunRunning" using r by (simp add: started_run_def)
  moreover have "same_receipt i ?i'" by (simp add: same_receipt_def)
  ultimately show ?thesis
    using fresh run latest newer ended first owner hd(2) i' message delivers_message [of i now]
    by (intro conjI bexI [of _ latest] bexI [of _ i] bexI [of _ ?i'] bexI [of _ "input_message now i"] impI ballI) simp_all
qed

section \<open>Example: an input that steers a Run, and one that follows it up\<close>

definition inbox_db :: "run_status \<Rightarrow> conversation_store" where
  "inbox_db status =
     \<lparr>cs_runs = empty_store\<lparr>rs_runs := [example_run\<lparr>run_status := status\<rparr>]\<rparr>,
      cs_conversations = [\<lparr>cv_id = ''conversation'', cv_workspace = ''workspace''\<rparr>],
      cs_workspaces = [\<lparr>wk_id = ''workspace'', wk_owner = ''user'', wk_active = True, wk_deleted = False\<rparr>],
      cs_members = [(''user'', ''workspace'')], cs_messages = [], cs_inputs = []\<rparr>"

definition sample_request :: "string \<Rightarrow> run_input_request" where
  "sample_request kind = \<lparr>iq_kind = kind, iq_run_id = ''run'', iq_content = ''be brief'', iq_mode = ''single'',
     iq_agent_id = ''agent'', iq_key = ''k''\<rparr>"

definition sample_row :: "string \<Rightarrow> run_input" where
  "sample_row kind = \<lparr>in_id = ''i'', in_owner = ''user'', in_workspace = ''workspace'', in_conversation = ''conversation'',
      in_run_id = ''run'', in_request = sample_request kind, in_status = InputQueued, in_applied_run = None,
      in_stage_id = [], in_turn_id = [], in_created_at = 5, in_expires_at = 5 + hours 24, in_applied_at = None\<rparr>"

definition queued_db :: "run_status \<Rightarrow> string \<Rightarrow> conversation_store" where
  "queued_db status kind = (inbox_db status)\<lparr>cs_inputs := [sample_row kind]\<rparr>"

definition steered_row :: run_input where
  "steered_row = applied_input 6 ''run'' ''stage'' ''turn'' (sample_row ''steer'')"

definition steered_db :: conversation_store where
  "steered_db = (queued_db RunRunning ''steer'')\<lparr>cs_inputs := [steered_row],
     cs_messages := [input_message 6 (sample_row ''steer'')]\<rparr>"

lemma sample_texts:
  "trim_space ''be brief'' = ''be brief''" "utf8_valid ''be brief''" "utf8_valid ''run''" "utf8_valid ''agent''" "utf8_valid ''k''"
  by code_simp+

lemma normalize_sample: "normalize_input (sample_request kind) = sample_request kind"
  by (simp add: normalize_input_def sample_request_def sample_texts)

lemma stored_sample: "stored_input (sample_request kind) = sample_request kind"
  by (simp add: stored_input_def sample_request_def sample_texts sanitize_valid)

lemma enqueue_sample:
  "EnqueueRunInput (\<lambda>q. True) ''i'' 5 ''user'' ''workspace'' ''conversation'' (sample_request ''steer'') (inbox_db RunRunning)
     = Inr (sample_row ''steer'', queued_db RunRunning ''steer'')"
  unfolding EnqueueRunInput_def normalize_sample
  by (simp add: Let_def valid_input_def lockInbox_def lockInboxScope_def ValidateFollowupIntent_def storable_input_def
      sql_text_def sample_texts input_row_def stored_sample [unfolded sample_request_def] over_capacity_def find_receipt_def
      sample_request_def sample_row_def queued_db_def inbox_db_def empty_store_def example_run_def)

lemma consume_sample:
  "ConsumeSteering 6 ''run'' ''stage'' ''turn'' (queued_db RunRunning ''steer'') = Inr ([steered_row], steered_db)"
  by (simp add: ConsumeSteering_def Let_def get_run_def queued_db_def inbox_db_def empty_store_def example_run_def
      lockInbox_def lockInboxScope_def insert_messages_def steering_def live_input_def update_rows_def listInputs_def
      scanInput_def steered_db_def steered_row_def applied_input_def sample_row_def sample_request_def hours_def)

lemma inbox_db_wf: "inbox_wf {} (inbox_db status)" "inbox_limits T (inbox_db status)"
  by (simp_all add: inbox_wf_def inbox_db_def inbox_limits_def)

lemma queued_wf: "inbox_wf {''i''} (queued_db RunRunning ''steer'')"
  using inbox_shape_wf [OF inbox_db_wf(1) enqueue_shape [OF enqueue_sample]] by simp

lemma consume_history: "inbox_history (\<lambda>q. True) {''i''} 5 (queued_db RunRunning ''steer'') {''i''} 6 steered_db"
proof -
  have "inbox_step (\<lambda>q. True) {''i''} 5 (queued_db RunRunning ''steer'') {''i''} (max 5 6) steered_db"
    by (rule step_consume [OF consume_sample])
  then show ?thesis using history_step [OF history_nil] by fastforce
qed

lemma input_delivered_once_witness:
  "length (filter (\<lambda>m. ms_id m = ''i'') (cs_messages steered_db)) \<le> 1 \<and> ''i'' \<in> ms_id ` set (cs_messages steered_db)"
proof -
  have "sample_row ''steer'' \<in> set (cs_inputs (queued_db RunRunning ''steer''))" by (simp add: queued_db_def)
  note once = input_delivered_once [OF consume_history queued_wf this]
  have "steered_row \<in> set (cs_inputs steered_db)" "in_id steered_row = in_id (sample_row ''steer'')"
    "in_status steered_row = InputApplied" "in_id (sample_row ''steer'') = ''i''"
    by (simp_all add: steered_db_def steered_row_def applied_input_def sample_row_def)
  then show ?thesis using once by auto
qed

lemma inbox_limits_hold_witness: "inbox_limits 5 (queued_db RunRunning ''steer'')"
proof -
  have "inbox_step (\<lambda>q. True) {} 5 (inbox_db RunRunning) {''i''} (max 5 5) (queued_db RunRunning ''steer'')"
    by (rule step_enqueue [OF enqueue_sample]) (simp_all add: sample_request_def sample_texts)
  then have h: "inbox_history (\<lambda>q. True) {} 5 (inbox_db RunRunning) {''i''} (max 5 5) (queued_db RunRunning ''steer'')"
    by (rule history_step [OF history_nil])
  show ?thesis using inbox_limits_hold [OF h inbox_db_wf] by simp
qed

lemma enqueue_retry_witness:
  "EnqueueRunInput (\<lambda>q. True) ''i2'' 7 ''user'' ''workspace'' ''conversation'' (sample_request ''steer'') steered_db
     = Inr (steered_row, steered_db)"
proof -
  have h: "inbox_history (\<lambda>q. True) (insert ''i'' {}) 5 (queued_db RunRunning ''steer'') {''i''} 6 steered_db"
    using consume_history by simp
  have run: "find (\<lambda>x. run_id x = iq_run_id (sample_request ''steer'') \<and> run_conversation_id x = ''conversation'')
      (rs_runs (cs_runs steered_db)) = Some (example_run\<lparr>run_status := RunRunning\<rparr>)"
    by (simp add: steered_db_def queued_db_def inbox_db_def empty_store_def example_run_def sample_request_def)
  have lock: "lockInbox ''user'' ''workspace'' ''conversation'' steered_db = None"
    by (simp add: lockInbox_def lockInboxScope_def steered_db_def queued_db_def inbox_db_def)
  have row: "steered_row \<in> set (cs_inputs steered_db)" "in_id steered_row = in_id (sample_row ''steer'')"
    "\<not> purgeable 7 ''conversation'' (cs_runs steered_db) steered_row" "scanInput 7 steered_row = steered_row"
    "storable_input (normalize_input (sample_request ''steer''))"
    "\<not> (iq_kind (sample_request ''steer'') = ''follow_up'' \<and> run_constraint (example_run\<lparr>run_status := RunRunning\<rparr>) = ''plan_only'')"
    unfolding normalize_sample
    by (simp_all add: steered_db_def steered_row_def applied_input_def sample_row_def purgeable_def hours_def scanInput_def
        storable_input_def sample_request_def)
  show ?thesis
    using enqueue_retry [OF enqueue_sample _ inbox_db_wf(1) h row(1,2,3) lock _ row(5) run row(6)] row(4) by simp
qed

definition sample_snapshot :: runtime_snapshot where
  "sample_snapshot = \<lparr>snap_execution_constraint = [], snap_plan_origin = None, snap_schema_version = 18, snap_routes = [],
     snap_run_budget = Some no_budget, snap_rest = []\<rparr>"

definition followed_db :: conversation_store where
  "followed_db = queued_db RunCompleted ''follow_up''"

definition follow :: "string \<Rightarrow> time \<Rightarrow> conversation_store \<Rightarrow> inbox_error + run \<times> conversation_store" where
  "follow new_id now = CreateInputRun (\<lambda>w a. Some False) (\<lambda>s. True) id new_id now ''i'' ''user'' False ''agent'' ''conversation''
     sample_snapshot None"

lemma follow_sample: "\<exists>r db'. follow ''run2'' 9 followed_db = Inr (r, db')"
  by (simp add: follow_def CreateInputRun_def new_run_def Let_def followed_db_def queued_db_def inbox_db_def empty_store_def
      example_run_def sample_snapshot_def CurrentRuntimeSnapshotVersion_def applyFollowup_def lockInbox_def lockInboxScope_def
      followups_def sample_row_def sample_request_def live_input_def hours_def get_run_def
      ValidateFollowupIntent_def run_constraint_def conversation_runs_def insert_messages_def insert_run_def started_run_def)

lemma followup_starts_one_run_witness:
  "\<exists>r db'. follow ''run2'' 9 followed_db = Inr (r, db') \<and> run_status r = RunRunning
     \<and> (\<exists>e. follow ''run3'' 10 db' = Inl e)"
proof -
  have "inbox_wf {''i''} followed_db"
    by (simp add: inbox_wf_def followed_db_def queued_db_def inbox_db_def sample_row_def)
  moreover obtain r db' where f: "follow ''run2'' 9 followed_db = Inr (r, db')" using follow_sample by blast
  ultimately have "run_status r = RunRunning \<and> (inbox_history (\<lambda>q. True) {''i''} 9 db' {''i''} 9 db'
      \<longrightarrow> (\<exists>e. follow ''run3'' 10 db' = Inl e))"
    using followup_starts_one_run [of "\<lambda>w a. Some False" "\<lambda>s. True" id "''run2''" 9 "''i''" "''user''" False "''agent''" "''conversation''"
        sample_snapshot None followed_db r db' "{''i''}"] unfolding follow_def by blast
  then show ?thesis using f history_nil by blast
qed

end
