(* ===== verification/Clarifications.thy ===== *)
theory Clarifications
  imports Conversation_Inbox Checkpoints
begin

text \<open>
  Questions that a Run asks its user (\<open>clarification/contract.go\<close>, \<open>clarification/store.go\<close>,
  \<open>domain/clarification.go\<close>, \<open>store/postgres_clarifications.go\<close>): the Run commits its questions with
  the checkpoint of the execution and waits; the answers are recorded once, and one resumption
  claims them. Every operation is one transaction that locks the Run; an error rolls back.

  \<open>map[string]string\<close> is an association list without duplicate keys. Identifiers are texts of
  PostgreSQL. Times are instants; \<open>NOW()\<close> and the process clock of one operation are \<open>now\<close>.
\<close>

section \<open>Data\<close>

record clarification_question =
  cq_id :: string
  cq_question :: string
  cq_options :: "string list"

datatype clarification_status =
    ClarificationPending
  | ClarificationAnswered
  | ClarificationApplied
  | ClarificationWithdrawn
  | ClarificationCanceled
  | ClarificationExpired

fun clarification_status_text :: "clarification_status \<Rightarrow> string" where
  "clarification_status_text ClarificationPending = ''pending''"
| "clarification_status_text ClarificationAnswered = ''answered''"
| "clarification_status_text ClarificationApplied = ''applied''"
| "clarification_status_text ClarificationWithdrawn = ''withdrawn''"
| "clarification_status_text ClarificationCanceled = ''canceled''"
| "clarification_status_text ClarificationExpired = ''expired''"

record clarification =
  cl_id :: string
  cl_run_id :: string
  cl_conversation_id :: string
  cl_stage_id :: string
  cl_turn_id :: string
  cl_tool_call_id :: string
  cl_version :: int
  cl_status :: clarification_status
  cl_questions :: "clarification_question list"
  cl_answers :: "(string \<times> string) list"
  cl_created_at :: time
  cl_expires_at :: time
  cl_answered_at :: "time option"
  cl_applied_at :: "time option"

record clarification_answer =
  ca_version :: int
  ca_key :: string
  ca_answers :: "(string \<times> string) list"

text \<open>A row of \<open>run_clarifications\<close>: the columns that \<open>scanClarification\<close> reads, and two it does not.\<close>

record clarification_row =
  cr_item :: clarification
  cr_answer_key :: string
  cr_checkpoint :: string

record clarification_store =
  ct_base :: conversation_store
  ct_rows :: "clarification_row list"

text \<open>\<open>clarification.Mutation\<close>\<close>

record mutation =
  mt_item :: clarification
  mt_checkpoint :: string
  mt_events :: "run_event list"

datatype clarification_error =
    ClarificationConflict
  | ClarificationInvalid
  | ClarificationSensitive
  | ClarificationMissing string
  | ClarificationLock inbox_error
  | ClarificationSql
  | ClarificationDecode

text \<open>
  Parameters: the three redaction checks; whether a checkpoint is JSON, and the text PostgreSQL
  keeps of it; the text of its member \<open>SnapshotHash\<close>; how \<open>->>\<close> renders a value that is no
  string; the layout of times.
\<close>

record clarification_services =
  sv_clean_questions :: "clarification_question list \<Rightarrow> bool"
  sv_clean_answers :: "(string \<times> string) list \<Rightarrow> bool"
  sv_clean_checkpoint :: "string \<Rightarrow> bool"
  sv_valid_json :: "string \<Rightarrow> bool"
  sv_jsonb :: "string \<Rightarrow> string option"
  sv_snapshot_hash :: "string \<Rightarrow> string option"
  sv_render :: "any_value \<Rightarrow> string"
  sv_layout :: "time \<Rightarrow> string"

section \<open>The question contract\<close>

definition MaxCheckpointBytes :: nat where "MaxCheckpointBytes = 262144"

text \<open>
  \<open>credentialQuestion\<close>, with its letters in either case. Under simple case folding, \<open>s\<close> is also U+017F
  and \<open>k\<close> also U+212A. A pattern is a list of alternatives; \<open>\b\<close> is an ASCII word boundary.
\<close>

definition letter :: "char \<Rightarrow> string list" where
  "letter c =
     (let n = byte c in
      (if 97 \<le> n \<and> n \<le> 122 then [[c], [char_of (n - 32)]] else [[c]])
      @ (if c = CHR 0x73 then [[CHR 0xC5, CHR 0xBF]] else [])
      @ (if c = CHR 0x6B then [[CHR 0xE2, CHR 0x84, CHR 0xAA]] else []))"

definition joint :: "string list" where "joint = ['' '', ''_'', ''-'', []]"

definition word_char :: "char \<Rightarrow> bool" where
  "word_char c \<longleftrightarrow> (let n = byte c in 97 \<le> n \<and> n \<le> 122 \<or> 65 \<le> n \<and> n \<le> 90 \<or> 48 \<le> n \<and> n \<le> 57 \<or> n = 95)"

definition word_at :: "string \<Rightarrow> bool" where
  "word_at s \<longleftrightarrow> (case s of [] \<Rightarrow> False | c # _ \<Rightarrow> word_char c)"

fun match_word :: "bool \<Rightarrow> string list list \<Rightarrow> string \<Rightarrow> bool" where
  "match_word before [] s \<longleftrightarrow> before \<noteq> word_at s"
| "match_word before (alts # pattern) s \<longleftrightarrow>
     list_ex (\<lambda>a. take (length a) s = a
       \<and> match_word (if a = [] then before else word_char (last a)) pattern (drop (length a) s)) alts"

definition credential_words :: "string list list list" where
  "credential_words =
     [map letter ''password'', map letter ''passphrase'', map letter ''api'' @ joint # map letter ''key'',
      map letter ''client'' @ joint # map letter ''secret'', map letter ''access'' @ joint # map letter ''token'',
      map letter ''private'' @ joint # map letter ''key'', map letter ''credentials'']"

definition credential_texts :: "string list" where
  "credential_texts =
     [[CHR 0xE5, CHR 0xAF, CHR 0x86, CHR 0xE7, CHR 0xA0, CHR 0x81],
      [CHR 0xE5, CHR 0xAF, CHR 0x86, CHR 0xE9, CHR 0x92, CHR 0xA5],
      [CHR 0xE5, CHR 0x87, CHR 0xAD, CHR 0xE6, CHR 0x8D, CHR 0xAE],
      [CHR 0xE7, CHR 0xA7, CHR 0x81, CHR 0xE9, CHR 0x92, CHR 0xA5],
      [CHR 0xE5, CHR 0x8F, CHR 0xA3, CHR 0xE4, CHR 0xBB, CHR 0xA4]]"

fun credential_match :: "bool \<Rightarrow> string \<Rightarrow> bool" where
  "credential_match before s \<longleftrightarrow>
     before \<noteq> word_at s \<and> list_ex (\<lambda>w. match_word before w s) credential_words
     \<or> list_ex (\<lambda>t. take (length t) s = t) credential_texts
     \<or> (case s of [] \<Rightarrow> False | c # t \<Rightarrow> credential_match (word_char c) t)"

declare credential_match.simps [simp del]

definition credentialQuestion :: "string \<Rightarrow> bool" where
  "credentialQuestion s = credential_match False s"

definition id_char :: "char \<Rightarrow> bool" where
  "id_char c \<longleftrightarrow> word_char c \<or> c = CHR 0x2D"

text \<open>The loops of \<open>ValidateQuestions\<close>, with the number of bytes they count.\<close>

fun option_bytes :: "string list \<Rightarrow> string list \<Rightarrow> nat option" where
  "option_bytes seen [] = Some 0"
| "option_bytes seen (v # vs) =
     (if trim_space v = [] \<or> length v > 500 \<or> v \<in> set seen \<or> \<not> utf8_valid v then None
      else map_option (\<lambda>n. length v + n) (option_bytes (v # seen) vs))"

fun question_bytes :: "string list \<Rightarrow> clarification_question list \<Rightarrow> nat option" where
  "question_bytes seen [] = Some 0"
| "question_bytes seen (q # qs) =
     (if credentialQuestion (cq_id q @ '' '' @ cq_question q @ '' '' @ separated '' '' (cq_options q)) then None
      else if trim_space (cq_id q) = [] \<or> length (cq_id q) > 64 \<or> cq_id q \<in> set seen
         \<or> trim_space (cq_question q) = [] \<or> \<not> utf8_valid (cq_question q) \<or> length (cq_question q) > 2000
         \<or> length (cq_options q) > 6 then None
      else if \<not> list_all id_char (cq_id q) then None
      else case option_bytes [] (cq_options q) of
          None \<Rightarrow> None
        | Some n \<Rightarrow> map_option (\<lambda>m. length (cq_id q) + length (cq_question q) + n + m) (question_bytes (cq_id q # seen) qs))"

definition ValidateQuestions ::
  "clarification_services \<Rightarrow> clarification_question list \<Rightarrow> clarification_error option" where
  "ValidateQuestions sv qs =
     (if length qs < 1 \<or> length qs > 3 then Some ClarificationInvalid
      else case question_bytes [] qs of
          None \<Rightarrow> Some ClarificationInvalid
        | Some n \<Rightarrow>
            if n > 8192 then Some ClarificationInvalid
            else if \<not> sv_clean_questions sv qs then Some ClarificationSensitive else None)"

fun answer_bytes :: "(string \<times> string) list \<Rightarrow> clarification_question list \<Rightarrow> nat option" where
  "answer_bytes given [] = Some 0"
| "answer_bytes given (q # qs) =
     (case map_of given (cq_id q) of
        None \<Rightarrow> None
      | Some v \<Rightarrow>
          if trim_space v = [] \<or> \<not> utf8_valid v then None
          else map_option (\<lambda>n. length v + n) (answer_bytes given qs))"

definition ValidateAnswers ::
  "clarification_services \<Rightarrow> clarification_question list \<Rightarrow> (string \<times> string) list \<Rightarrow> clarification_error option" where
  "ValidateAnswers sv qs given =
     (case ValidateQuestions sv qs of
        Some e \<Rightarrow> Some e
      | None \<Rightarrow>
          if length given \<noteq> length qs then Some ClarificationInvalid
          else case answer_bytes given qs of
              None \<Rightarrow> Some ClarificationInvalid
            | Some n \<Rightarrow>
                if n > 8192 then Some ClarificationInvalid
                else if \<not> sv_clean_answers sv given then Some ClarificationSensitive else None)"

section \<open>Rows and events\<close>

definition clarification_runs :: "clarification_store \<Rightarrow> run_store" where
  "clarification_runs db = cs_runs (ct_base db)"

definition put_runs :: "run_store \<Rightarrow> clarification_store \<Rightarrow> clarification_store" where
  "put_runs st db = db\<lparr>ct_base := (ct_base db)\<lparr>cs_runs := st\<rparr>\<rparr>"

definition put_item :: "clarification_row \<Rightarrow> clarification_store \<Rightarrow> clarification_store" where
  "put_item x db =
     db\<lparr>ct_rows := update_rows (\<lambda>y. cl_id (cr_item y) = cl_id (cr_item x)) (\<lambda>_. x) (ct_rows db)\<rparr>"

definition rows_of_run :: "string \<Rightarrow> clarification_row list \<Rightarrow> clarification_row list" where
  "rows_of_run rid rows = filter (\<lambda>x. cl_run_id (cr_item x) = rid) rows"

definition unsettled_row :: "clarification_row \<Rightarrow> bool" where
  "unsettled_row x \<longleftrightarrow> cl_status (cr_item x) = ClarificationPending \<or> cl_status (cr_item x) = ClarificationAnswered"

text \<open>Whether the questions, or the answers, are a \<open>jsonb\<close>.\<close>

definition storable_questions :: "clarification_question list \<Rightarrow> bool" where
  "storable_questions qs = list_all (\<lambda>q. CHR 0x00 \<notin> set (cq_question q) \<and> list_all (\<lambda>v. CHR 0x00 \<notin> set v) (cq_options q)) qs"

definition storable_answers :: "(string \<times> string) list \<Rightarrow> bool" where
  "storable_answers given = list_all (\<lambda>(k, v). CHR 0x00 \<notin> set v) given"

definition same_answers :: "(string \<times> string) list \<Rightarrow> (string \<times> string) list \<Rightarrow> bool" where
  "same_answers a b \<longleftrightarrow> set a = set b"

text \<open>The JSON of a clarification, decoded: a time outside the years 0 to 9999 cannot be encoded.\<close>

definition clarification_times :: "clarification \<Rightarrow> time list" where
  "clarification_times c =
     [cl_created_at c, cl_expires_at c] @ (case cl_answered_at c of None \<Rightarrow> [] | Some t \<Rightarrow> [t])
     @ (case cl_applied_at c of None \<Rightarrow> [] | Some t \<Rightarrow> [t])"

definition omit_text :: "string \<Rightarrow> string \<Rightarrow> (string \<times> any_value) list" where
  "omit_text k s = (if s = [] then [] else [(k, VString s)])"

definition omit_time :: "(time \<Rightarrow> string) \<Rightarrow> string \<Rightarrow> time option \<Rightarrow> (string \<times> any_value) list" where
  "omit_time layout k t = (case t of None \<Rightarrow> [] | Some t \<Rightarrow> [(k, VString (layout t))])"

definition question_json :: "clarification_question \<Rightarrow> any_value" where
  "question_json q =
     VMap ([(''id'', VString (cq_id q)), (''question'', VString (cq_question q))]
       @ (if cq_options q = [] then [] else [(''options'', VList (map VString (cq_options q)))]))"

definition clarification_json :: "(time \<Rightarrow> string) \<Rightarrow> clarification \<Rightarrow> any_value option" where
  "clarification_json layout c =
     (if list_all (\<lambda>t. json_time layout t \<noteq> None) (clarification_times c)
      then Some (VMap (
        [(''id'', VString (cl_id c)), (''run_id'', VString (cl_run_id c)),
         (''conversation_id'', VString (cl_conversation_id c))]
        @ omit_text ''stage_id'' (cl_stage_id c) @ [(''turn_id'', VString (cl_turn_id c))]
        @ omit_text ''tool_call_id'' (cl_tool_call_id c)
        @ [(''version'', VFloat64 (float64_of_int (cl_version c))),
           (''status'', VString (clarification_status_text (cl_status c))),
           (''questions'', VList (map question_json (cl_questions c)))]
        @ (if cl_answers c = [] then []
           else [(''answers'', VMap (map (\<lambda>(k, v). (k, VString v)) (sort_key fst (cl_answers c))))])
        @ [(''created_at'', VString (layout (cl_created_at c))), (''expires_at'', VString (layout (cl_expires_at c)))]
        @ omit_time layout ''answered_at'' (cl_answered_at c) @ omit_time layout ''applied_at'' (cl_applied_at c)))
      else None)"

definition waiting_text :: "run_event_type \<Rightarrow> string" where
  "waiting_text kind =
     (if kind = EventRunWaitingForUser then ''waiting_for_user''
      else if kind = EventRunResumed then ''running''
      else if kind = EventRunCanceled then ''canceled'' else [])"

definition clarification_payload ::
  "(time \<Rightarrow> string) \<Rightarrow> clarification \<Rightarrow> run_event_type \<Rightarrow> run_store \<Rightarrow> payload option" where
  "clarification_payload layout c kind st =
     (if kind = EventTurnCompleted
      then Some [''stop_reason'' \<mapsto> VString ''waiting_for_user'', ''clarification_id'' \<mapsto> VString (cl_id c)]
      else if kind = EventStageStarted
      then map_option (\<lambda>s.
             [''name'' \<mapsto> VString (step_role s), ''agent_id'' \<mapsto> VString (step_agent_id s),
              ''input'' \<mapsto> VString (step_input s), ''iteration'' \<mapsto> VFloat64 (float64_of_int (step_iteration s)),
              ''clarification_id'' \<mapsto> VString (cl_id c)])
             (find (\<lambda>s. step_id s = cl_stage_id c \<and> step_run_id s = cl_run_id c) (rs_steps st))
      else map_option (\<lambda>v.
             [''status'' \<mapsto> VString (waiting_text kind), ''kind'' \<mapsto> VString ''clarification'', ''clarification'' \<mapsto> v])
             (clarification_json layout c))"

definition clarificationEvent ::
  "(time \<Rightarrow> string) \<Rightarrow> string \<Rightarrow> time \<Rightarrow> clarification \<Rightarrow> run_event_type \<Rightarrow> run_store
    \<Rightarrow> clarification_error + run_event \<times> run_store" where
  "clarificationEvent layout new_id now c kind st =
     (case clarification_payload layout c kind st of
        None \<Rightarrow> Inl ClarificationSql
      | Some p \<Rightarrow>
          (let e = zero_event\<lparr>ev_id := new_id, ev_run_id := cl_run_id c, ev_conversation_id := cl_conversation_id c,
                 ev_stage_id := cl_stage_id c, ev_turn_id := cl_turn_id c, ev_type := kind, ev_schema_version := 1,
                 ev_timestamp := now, ev_payload := p, ev_sequence := max_sequence st (cl_run_id c) + 1\<rparr>
           in bind_result (map_error (\<lambda>_. ClarificationSql) (insert_event e st)) (\<lambda>st. Inr (e, st))))"

text \<open>\<open>clarificationRunStatus\<close>; PostgreSQL rounds the running time down to milliseconds.\<close>

definition status_row :: "time \<Rightarrow> run_status \<Rightarrow> run \<Rightarrow> run" where
  "status_row now status r =
     r\<lparr>run_active_runtime_ms := run_active_runtime_ms r
         + (if run_status r = RunRunning
            then (case run_execution_started_at r of None \<Rightarrow> 0 | Some t \<Rightarrow> max 0 ((now - t) div 1000000)) else 0),
       run_execution_started_at := if status = RunRunning then Some now else None,
       run_heartbeat_at := Some now, run_status := status, run_error := [], run_updated_at := now,
       run_completed_at := if status = RunCanceled then Some now else None\<rparr>"

definition clarificationRunStatus :: "time \<Rightarrow> string \<Rightarrow> run_status \<Rightarrow> run_store \<Rightarrow> run_store" where
  "clarificationRunStatus now rid status st =
     st\<lparr>rs_runs := update_rows (\<lambda>r. run_id r = rid) (status_row now status) (rs_runs st)\<rparr>"

section \<open>Asking\<close>

text \<open>\<open>payload->>key\<close>\<close>

definition payload_text :: "(any_value \<Rightarrow> string) \<Rightarrow> payload \<Rightarrow> string \<Rightarrow> string option" where
  "payload_text render p k =
     (case p k of None \<Rightarrow> None | Some VNil \<Rightarrow> None | Some (VString s) \<Rightarrow> Some s | Some v \<Rightarrow> Some (render v))"

definition turn_event :: "string \<Rightarrow> string \<Rightarrow> run_event_type set \<Rightarrow> run_store \<Rightarrow> bool" where
  "turn_event rid turn kinds st =
     list_ex (\<lambda>e. ev_run_id e = rid \<and> ev_turn_id e = turn \<and> ev_type e \<in> kinds) (rs_events st)"

definition real_call :: "(any_value \<Rightarrow> string) \<Rightarrow> clarification \<Rightarrow> run_store \<Rightarrow> bool" where
  "real_call render c st =
     list_ex (\<lambda>e. ev_run_id e = cl_run_id c \<and> ev_turn_id e = cl_turn_id c \<and> ev_type e = EventToolCompleted
       \<and> payload_text render (ev_payload e) ''tool_call_id'' = Some (cl_tool_call_id c)
       \<and> payload_text render (ev_payload e) ''tool_name'' = Some ''request_user_input''
       \<and> (case payload_text render (ev_payload e) ''error'' of None \<Rightarrow> True | Some s \<Rightarrow> s = [])) (rs_events st)"

definition real_stage :: "clarification \<Rightarrow> run_store \<Rightarrow> bool" where
  "real_stage c st = list_ex (\<lambda>s. step_id s = cl_stage_id c \<and> step_run_id s = cl_run_id c) (rs_steps st)"

definition asked_row :: "string \<Rightarrow> time \<Rightarrow> string \<Rightarrow> clarification \<Rightarrow> clarification_row" where
  "asked_row new_id now checkpoint c =
     \<lparr>cr_item = c\<lparr>cl_id := new_id, cl_version := 1, cl_status := ClarificationPending, cl_answers := [],
        cl_created_at := now, cl_expires_at := now + hours 24, cl_answered_at := None, cl_applied_at := None\<rparr>,
      cr_answer_key = [], cr_checkpoint = checkpoint\<rparr>"

text \<open>The row is inserted unless it breaks the primary key or the index of unsettled rows.\<close>

definition insert_row ::
  "clarification_services \<Rightarrow> string \<Rightarrow> time \<Rightarrow> string \<Rightarrow> clarification \<Rightarrow> clarification_store
    \<Rightarrow> clarification_error + clarification_row \<times> clarification_store" where
  "insert_row sv new_id now checkpoint c db =
     (case sv_jsonb sv checkpoint of
        None \<Rightarrow> Inl ClarificationSql
      | Some stored \<Rightarrow>
          if \<not> storable_questions (cl_questions c) \<or> new_id \<in> (cl_id \<circ> cr_item) ` set (ct_rows db)
             \<or> list_ex unsettled_row (rows_of_run (cl_run_id c) (ct_rows db))
          then Inl ClarificationSql
          else (let x = asked_row new_id now stored c in Inr (x, db\<lparr>ct_rows := ct_rows db @ [x]\<rparr>)))"

text \<open>The Turn of the question is closed in the same transaction that makes the Run wait.\<close>

definition close_turn ::
  "(time \<Rightarrow> string) \<Rightarrow> string \<Rightarrow> time \<Rightarrow> clarification \<Rightarrow> run_store
    \<Rightarrow> clarification_error + run_event list \<times> run_store" where
  "close_turn layout new_id now c st =
     (if turn_event (cl_run_id c) (cl_turn_id c) {EventTurnCompleted, EventTurnFailed, EventTurnCanceled} st
      then Inr ([], st)
      else bind_result (clarificationEvent layout new_id now c EventTurnCompleted st) (\<lambda>(e, st). Inr ([e], st)))"

definition suspend_run ::
  "(time \<Rightarrow> string) \<Rightarrow> (nat \<Rightarrow> string) \<Rightarrow> time \<Rightarrow> clarification \<Rightarrow> run_store
    \<Rightarrow> clarification_error + run_event list \<times> run_store" where
  "suspend_run layout ids now c st =
     bind_result (close_turn layout (ids 1) now c (clarificationRunStatus now (cl_run_id c) RunWaitingForUser st))
       (\<lambda>(es, st). bind_result (clarificationEvent layout (ids 2) now c EventRunWaitingForUser st)
         (\<lambda>(e, st). Inr (es @ [e], st)))"

definition SuspendClarification ::
  "clarification_services \<Rightarrow> (nat \<Rightarrow> string) \<Rightarrow> time \<Rightarrow> clarification \<Rightarrow> string \<Rightarrow> clarification_store
    \<Rightarrow> clarification_error + mutation \<times> clarification_store" where
  "SuspendClarification sv ids now c checkpoint db =
     (if cl_run_id c = [] \<or> cl_conversation_id c = [] \<or> cl_turn_id c = []
         \<or> length checkpoint > MaxCheckpointBytes \<or> \<not> sv_valid_json sv checkpoint then Inl ClarificationInvalid
      else case ValidateQuestions sv (cl_questions c) of
        Some e \<Rightarrow> Inl e
      | None \<Rightarrow>
          if \<not> sv_clean_checkpoint sv checkpoint then Inl ClarificationSensitive
          else case find (\<lambda>r. run_id r = cl_run_id c \<and> run_conversation_id r = cl_conversation_id c)
                 (rs_runs (clarification_runs db)) of
            None \<Rightarrow> Inl ClarificationSql
          | Some r \<Rightarrow>
          (case find (\<lambda>w. wk_id w = run_workspace_id r) (cs_workspaces (ct_base db)) of
             None \<Rightarrow> Inl ClarificationSql
           | Some w \<Rightarrow>
          (case lockInbox (wk_owner w) (run_workspace_id r) (cl_conversation_id c) (ct_base db) of
             Some e \<Rightarrow> Inl (ClarificationLock e)
           | None \<Rightarrow>
               if run_status r \<noteq> RunRunning then Inl ClarificationConflict
               else if \<not> turn_event (cl_run_id c) (cl_turn_id c) {EventTurnStarted} (clarification_runs db)
               then Inl ClarificationInvalid
               else if cl_tool_call_id c \<noteq> [] \<and> \<not> real_call (sv_render sv) c (clarification_runs db)
               then Inl ClarificationInvalid
               else if cl_stage_id c \<noteq> [] \<and> \<not> real_stage c (clarification_runs db) then Inl ClarificationInvalid
               else if length (rows_of_run (cl_run_id c) (ct_rows db)) \<ge> 16 then Inl ClarificationInvalid
               else bind_result (insert_row sv (ids 0) now checkpoint c db) (\<lambda>(x, db).
                    bind_result (suspend_run (sv_layout sv) ids now (cr_item x) (clarification_runs db)) (\<lambda>(es, st).
                      Inr (\<lparr>mt_item = cr_item x, mt_checkpoint = [], mt_events = es\<rparr>, put_runs st db))))))"

section \<open>Listing\<close>

definition shown_status :: "time \<Rightarrow> run_status \<Rightarrow> clarification \<Rightarrow> clarification" where
  "shown_status now status c =
     (if cl_status c = ClarificationPending \<or> cl_status c = ClarificationAnswered
      then if status = RunCanceled \<or> status = RunCanceling then c\<lparr>cl_status := ClarificationCanceled\<rparr>
           else if \<not> now < cl_expires_at c \<and> cl_status c = ClarificationPending
           then c\<lparr>cl_status := ClarificationExpired\<rparr> else c
      else c)"

text \<open>A Run that does not exist has no rows; its zero value has no status.\<close>

definition ListClarifications ::
  "time \<Rightarrow> string \<Rightarrow> string \<Rightarrow> string \<Rightarrow> clarification_store \<Rightarrow> clarification list" where
  "ListClarifications now owner workspace rid db =
     (let current = (case get_run (clarification_runs db) rid of None \<Rightarrow> RunStatusOther [] | Some r \<Rightarrow> run_status r);
          visible = list_ex (\<lambda>r. run_id r = rid \<and> run_workspace_id r = workspace) (rs_runs (clarification_runs db))
            \<and> list_ex (\<lambda>w. wk_id w = workspace \<and> wk_owner w = owner \<and> \<not> wk_deleted w) (cs_workspaces (ct_base db))
            \<and> (owner, workspace) \<in> set (cs_members (ct_base db))
      in if \<not> visible then []
         else map (shown_status now current)
                (sort_key (\<lambda>c. (cl_created_at c, cl_id c)) (map cr_item (rows_of_run rid (ct_rows db)))))"

section \<open>Answering\<close>

definition lockClarification ::
  "string \<Rightarrow> string \<Rightarrow> string \<Rightarrow> string \<Rightarrow> clarification_store
    \<Rightarrow> clarification_error + clarification_row \<times> run_status" where
  "lockClarification owner workspace rid id1 db =
     (case find (\<lambda>r. run_id r = rid \<and> run_workspace_id r = workspace) (rs_runs (clarification_runs db)) of
        None \<Rightarrow> Inl (ClarificationMissing ''run'')
      | Some r \<Rightarrow>
          (case lockInbox owner workspace (run_conversation_id r) (ct_base db) of
             Some e \<Rightarrow> Inl (ClarificationLock e)
           | None \<Rightarrow>
               (case find (\<lambda>x. cl_id (cr_item x) = id1 \<and> cl_run_id (cr_item x) = rid) (ct_rows db) of
                  None \<Rightarrow> Inl (ClarificationMissing ''clarification'')
                | Some x \<Rightarrow> Inr (x, run_status r))))"

definition answered_row :: "time \<Rightarrow> clarification_answer \<Rightarrow> clarification_row \<Rightarrow> clarification_row" where
  "answered_row now input x =
     x\<lparr>cr_item := (cr_item x)\<lparr>cl_answers := ca_answers input, cl_status := ClarificationAnswered,
         cl_answered_at := Some now\<rparr>,
       cr_answer_key := ca_key input\<rparr>"

definition answer_text :: "clarification_question list \<Rightarrow> (string \<times> string) list \<Rightarrow> string" where
  "answer_text qs given =
     separated [CHR 0x0A, CHR 0x0A]
       (map (\<lambda>q. cq_question q @ [CHR 0x0A] @ (case map_of given (cq_id q) of None \<Rightarrow> [] | Some v \<Rightarrow> v)) qs)"

definition answer_message :: "time \<Rightarrow> string \<Rightarrow> clarification \<Rightarrow> message_row" where
  "answer_message now workspace c =
     \<lparr>ms_id = cl_id c, ms_workspace = workspace, ms_conversation = cl_conversation_id c, ms_role = ''user'',
      ms_content = answer_text (cl_questions c) (cl_answers c), ms_created_at = now\<rparr>"

definition add_message :: "message_row \<Rightarrow> clarification_store \<Rightarrow> clarification_error + clarification_store" where
  "add_message m db =
     bind_result (map_error (\<lambda>_. ClarificationSql) (insert_messages [m] (ct_base db)))
       (\<lambda>base. Inr (db\<lparr>ct_base := base\<rparr>))"

definition AnswerClarification ::
  "clarification_services \<Rightarrow> (nat \<Rightarrow> string) \<Rightarrow> time \<Rightarrow> string \<Rightarrow> string \<Rightarrow> string \<Rightarrow> string \<Rightarrow> clarification_answer
    \<Rightarrow> clarification_store \<Rightarrow> clarification_error + mutation \<times> clarification_store" where
  "AnswerClarification sv ids now owner workspace rid id1 input db =
     bind_result (lockClarification owner workspace rid id1 db) (\<lambda>(x, status).
       (let c = cr_item x in
        if ca_key input = [] \<or> length (ca_key input) > 128 \<or> ca_version input \<noteq> cl_version c
        then Inl ClarificationInvalid
        else case ValidateAnswers sv (cl_questions c) (ca_answers input) of
          Some e \<Rightarrow> Inl e
        | None \<Rightarrow>
            if cl_status c = ClarificationAnswered \<or> cl_status c = ClarificationApplied
            then if \<not> sql_text (ca_key input) \<or> \<not> storable_answers (ca_answers input) then Inl ClarificationSql
                 else if cr_answer_key x = ca_key input \<and> same_answers (cl_answers c) (ca_answers input)
                 then Inr (\<lparr>mt_item = c, mt_checkpoint = [], mt_events = []\<rparr>, db)
                 else Inl ClarificationConflict
            else if cl_status c \<noteq> ClarificationPending \<or> status \<noteq> RunWaitingForUser \<or> \<not> now < cl_expires_at c
            then Inl ClarificationConflict
            else if \<not> sql_text (ca_key input) \<or> \<not> storable_answers (ca_answers input) then Inl ClarificationSql
            else
              (let y = answered_row now input x in
               bind_result (add_message (answer_message now workspace (cr_item y)) (put_item y db)) (\<lambda>db.
               bind_result (clarificationEvent (sv_layout sv) (ids 0) now (cr_item y) EventClarificationAnswered (clarification_runs db))
                 (\<lambda>(e, st). Inr (\<lparr>mt_item = cr_item y, mt_checkpoint = [], mt_events = [e]\<rparr>, put_runs st db))))))"

section \<open>Resuming\<close>

definition latest_row :: "string \<Rightarrow> clarification_row list \<Rightarrow> string option" where
  "latest_row rid rows =
     (case rev (sort_key (\<lambda>c. (cl_created_at c, cl_id c)) (map cr_item (rows_of_run rid rows))) of
        [] \<Rightarrow> None
      | c # _ \<Rightarrow> Some (cl_id c))"

definition claim_uncertain :: "string \<Rightarrow> time \<Rightarrow> run_store \<Rightarrow> bool" where
  "claim_uncertain rid asked st =
     list_ex (\<lambda>e. eff_run_id e = rid
       \<and> (eff_status e \<in> {ToolEffectPrepared, ToolEffectExecuting, ToolEffectNeedsReconciliation, ToolEffectReconciling}
          \<or> asked < eff_created_at e \<and> eff_status e = ToolEffectCommitted)) (rs_effects st)"

definition applied_row :: "time \<Rightarrow> clarification_row \<Rightarrow> clarification_row" where
  "applied_row now x = x\<lparr>cr_item := (cr_item x)\<lparr>cl_status := ClarificationApplied, cl_applied_at := Some now\<rparr>\<rparr>"

text \<open>The Stage that the failed continuation left, and its checkpoint, are opened again.\<close>

definition reopened_step :: "time \<Rightarrow> collaboration_step \<Rightarrow> collaboration_step" where
  "reopened_step now s = s\<lparr>step_status := CollaborationStepRunning, step_error := [], step_updated_at := now\<rparr>"

definition reopened_checkpoint :: "time \<Rightarrow> int \<Rightarrow> stage_checkpoint \<Rightarrow> stage_checkpoint" where
  "reopened_checkpoint now cursor p =
     p\<lparr>cp_status := CheckpointExecuting, cp_error := [], cp_event_cursor := cursor, cp_updated_at := now\<rparr>"

definition reopenable :: "string \<Rightarrow> string \<Rightarrow> string option \<Rightarrow> stage_checkpoint \<Rightarrow> bool" where
  "reopenable rid stage hash p \<longleftrightarrow> cp_stage_id p = stage \<and> cp_run_id p = rid
     \<and> (cp_status p = CheckpointExecuting \<or> cp_status p = CheckpointNeedsReconciliation)
     \<and> hash = Some (cp_snapshot_hash p)"

definition reopen_stage ::
  "(time \<Rightarrow> string) \<Rightarrow> string \<Rightarrow> time \<Rightarrow> string option \<Rightarrow> clarification \<Rightarrow> run_store
    \<Rightarrow> clarification_error + run_event list \<times> run_store" where
  "reopen_stage layout new_id now hash c st =
     (case find (\<lambda>s. step_id s = cl_stage_id c \<and> step_run_id s = cl_run_id c) (rs_steps st) of
        None \<Rightarrow> Inl ClarificationSql
      | Some s \<Rightarrow>
          if step_status s \<noteq> CollaborationStepFailed then Inr ([], st)
          else
            (let st = st\<lparr>rs_steps := update_rows (\<lambda>s. step_id s = cl_stage_id c) (reopened_step now) (rs_steps st)\<rparr> in
             bind_result (clarificationEvent layout new_id now c EventStageStarted st) (\<lambda>(e, st).
               (let matches = reopenable (cl_run_id c) (cl_stage_id c) hash;
                    cursor = max_sequence st (cl_run_id c)
                in if length (filter matches (rs_checkpoints st)) \<noteq> 1 then Inl ClarificationConflict
                   else Inr ([e], st\<lparr>rs_checkpoints :=
                          update_rows matches (reopened_checkpoint now cursor) (rs_checkpoints st)\<rparr>)))))"

definition continue_stage ::
  "clarification_services \<Rightarrow> string \<Rightarrow> time \<Rightarrow> run_status \<Rightarrow> clarification_row \<Rightarrow> run_store
    \<Rightarrow> clarification_error + run_event list \<times> run_store" where
  "continue_stage sv new_id now status x st =
     (if status = RunFailedRecoverable \<and> cl_stage_id (cr_item x) \<noteq> []
      then reopen_stage (sv_layout sv) new_id now (sv_snapshot_hash sv (cr_checkpoint x)) (cr_item x) st
      else Inr ([], st))"

definition ClaimClarification ::
  "clarification_services \<Rightarrow> (nat \<Rightarrow> string) \<Rightarrow> time \<Rightarrow> string \<Rightarrow> string \<Rightarrow> string \<Rightarrow> string \<Rightarrow> clarification_store
    \<Rightarrow> clarification_error + mutation \<times> clarification_store" where
  "ClaimClarification sv ids now owner workspace rid id1 db =
     bind_result (lockClarification owner workspace rid id1 db) (\<lambda>(x, status).
       (let c = cr_item x in
        if \<not> (cl_status c = ClarificationAnswered \<and> status = RunWaitingForUser
              \<or> cl_status c = ClarificationApplied \<and> status = RunFailedRecoverable)
        then Inl ClarificationConflict
        else if latest_row rid (ct_rows db) \<noteq> Some (cl_id c) then Inl ClarificationConflict
        else if status = RunFailedRecoverable \<and> claim_uncertain rid (cl_created_at c) (clarification_runs db)
        then Inl ClarificationConflict
        else
          (let y = applied_row now x; db = put_item y db;
               st = clarificationRunStatus now rid RunRunning (clarification_runs db)
           in bind_result (clarificationEvent (sv_layout sv) (ids 0) now (cr_item y) EventRunResumed st) (\<lambda>(e, st).
              bind_result (continue_stage sv (ids 1) now status y st)
                (\<lambda>(es, st). Inr (\<lparr>mt_item = cr_item y, mt_checkpoint = cr_checkpoint x, mt_events = e # es\<rparr>,
                   put_runs st db))))))"

section \<open>Withdrawing\<close>

definition withdrawn_row :: "clarification_row \<Rightarrow> clarification_row" where
  "withdrawn_row x = x\<lparr>cr_item := (cr_item x)\<lparr>cl_status := ClarificationWithdrawn\<rparr>\<rparr>"

definition WithdrawClarification ::
  "clarification_services \<Rightarrow> (nat \<Rightarrow> string) \<Rightarrow> time \<Rightarrow> string \<Rightarrow> string \<Rightarrow> string \<Rightarrow> string \<Rightarrow> int
    \<Rightarrow> clarification_store \<Rightarrow> clarification_error + mutation \<times> clarification_store" where
  "WithdrawClarification sv ids now owner workspace rid id1 version db =
     bind_result (lockClarification owner workspace rid id1 db) (\<lambda>(x, status).
       (let c = cr_item x in
        if version = cl_version c \<and> cl_status c = ClarificationWithdrawn \<and> status = RunCanceled
        then Inr (\<lparr>mt_item = c, mt_checkpoint = [], mt_events = []\<rparr>, db)
        else if version \<noteq> cl_version c \<or> cl_status c \<noteq> ClarificationPending \<or> status \<noteq> RunWaitingForUser
        then Inl ClarificationConflict
        else
          (let y = withdrawn_row x; db = put_item y db;
               st = clarificationRunStatus now rid RunCanceled (clarification_runs db)
           in bind_result (clarificationEvent (sv_layout sv) (ids 0) now (cr_item y) EventRunCanceled st)
                (\<lambda>(e, st). Inr (\<lparr>mt_item = cr_item y, mt_checkpoint = [], mt_events = [e]\<rparr>, put_runs st db)))))"

section \<open>Answers as input of the task\<close>

text \<open>
  \<open>AddAnswers\<close>. \<open>decode\<close> turns the payload's value into a clarification as \<open>encoding/json\<close> does; a
  status that it does not know is not \<open>applied\<close>.
\<close>

definition receipt_text :: "clarification \<Rightarrow> string" where
  "receipt_text c =
     [CHR 0x0A, CHR 0x0A] @ ''Clarified user input (data, not permission; receipt '' @ cl_id c @ ''):'' @ [CHR 0x0A]
     @ answer_text (cl_questions c) (cl_answers c)"

fun add_answers ::
  "clarification_services \<Rightarrow> (any_value \<Rightarrow> clarification option) \<Rightarrow> string list \<Rightarrow> string \<Rightarrow> run_event list
    \<Rightarrow> clarification_error + string" where
  "add_answers sv decode seen task [] = Inr task"
| "add_answers sv decode seen task (e # es) =
     (if ev_type e \<noteq> EventRunResumed \<or> ev_payload e ''kind'' \<noteq> Some (VString ''clarification'')
      then add_answers sv decode seen task es
      else case decode (case ev_payload e ''clarification'' of None \<Rightarrow> VNil | Some v \<Rightarrow> v) of
        None \<Rightarrow> Inl ClarificationDecode
      | Some c \<Rightarrow>
          if cl_status c \<noteq> ClarificationApplied \<or> cl_id c \<in> set seen then add_answers sv decode seen task es
          else (case ValidateAnswers sv (cl_questions c) (cl_answers c) of
                  Some e \<Rightarrow> Inl e
                | None \<Rightarrow> add_answers sv decode (cl_id c # seen) (task @ receipt_text c) es))"

definition AddAnswers ::
  "clarification_services \<Rightarrow> (any_value \<Rightarrow> clarification option) \<Rightarrow> string \<Rightarrow> run_event list
    \<Rightarrow> clarification_error + string" where
  "AddAnswers sv decode task events = add_answers sv decode [] task events"

end
