(* ===== verification/Clarification_Guarantees.thy ===== *)
theory Clarification_Guarantees
  imports Clarifications
begin

text \<open>
  What the questions of a Run guarantee: every row is well formed and a Run has at most one unsettled
  question; answers are recorded once, with their message, and never change; asking closes the Turn;
  one resumption claims the answers, and the task receives them once.
\<close>

section \<open>The contract of questions and answers\<close>

definition question_ok :: "clarification_question \<Rightarrow> bool" where
  "question_ok q \<longleftrightarrow> cq_id q \<noteq> [] \<and> list_all id_char (cq_id q) \<and> trim_space (cq_question q) \<noteq> []
     \<and> utf8_valid (cq_question q) \<and> length (cq_options q) \<le> 6 \<and> distinct (cq_options q)"

definition questions_ok :: "clarification_question list \<Rightarrow> bool" where
  "questions_ok qs \<longleftrightarrow> 1 \<le> length qs \<and> length qs \<le> 3 \<and> distinct (map cq_id qs) \<and> (\<forall>q \<in> set qs. question_ok q)"

text \<open>Every question has exactly one answer, and nothing else is answered.\<close>

definition answers_ok :: "clarification_question list \<Rightarrow> (string \<times> string) list \<Rightarrow> bool" where
  "answers_ok qs given \<longleftrightarrow> distinct (map fst given) \<and> fst ` set given = cq_id ` set qs
     \<and> (\<forall>(k, v) \<in> set given. trim_space v \<noteq> [] \<and> utf8_valid v)
     \<and> (\<Sum>q\<leftarrow>qs. length (the (map_of given (cq_id q)))) \<le> 8192"

lemma option_bytes_distinct:
  "option_bytes seen vs \<noteq> None \<Longrightarrow> distinct vs \<and> set vs \<inter> set seen = {}"
  by (induction seen vs rule: option_bytes.induct) (auto split: if_splits)

lemma trim_empty: "trim_space [] = []"
  by code_simp

lemma question_bytes_ok:
  "question_bytes seen qs \<noteq> None \<Longrightarrow>
     distinct (map cq_id qs) \<and> cq_id ` set qs \<inter> set seen = {} \<and> (\<forall>q \<in> set qs. question_ok q)"
proof (induction seen qs rule: question_bytes.induct)
  case (2 seen q qs)
  from 2(2) have q: "question_ok q" "cq_id q \<notin> set seen" and rest: "question_bytes (cq_id q # seen) qs \<noteq> None"
    using option_bytes_distinct [of "[]" "cq_options q"]
    by (auto simp: question_ok_def trim_empty split: if_splits option.splits)
  have "distinct (map cq_id qs) \<and> cq_id ` set qs \<inter> set (cq_id q # seen) = {} \<and> (\<forall>q \<in> set qs. question_ok q)"
    using "2.IH" rest "2.prems" by (auto split: if_splits option.splits)
  with q show ?case by auto
qed simp

lemma ValidateQuestions_ok: "ValidateQuestions sv qs = None \<Longrightarrow> questions_ok qs"
  using question_bytes_ok [of "[]" qs]
  by (auto simp: ValidateQuestions_def questions_ok_def Suc_le_eq split: if_splits option.splits)

lemma answer_bytes_ok:
  "answer_bytes given qs = Some n \<Longrightarrow>
     n = (\<Sum>q\<leftarrow>qs. length (the (map_of given (cq_id q))))
     \<and> (\<forall>q \<in> set qs. \<exists>v. map_of given (cq_id q) = Some v \<and> trim_space v \<noteq> [] \<and> utf8_valid v)"
  by (induction qs arbitrary: n) (auto split: option.splits if_splits)

lemma ValidateAnswers_ok:
  assumes "ValidateAnswers sv qs given = None"
  shows "questions_ok qs \<and> answers_ok qs given"
proof -
  from assms have qs: "questions_ok qs" and len: "length given = length qs"
    and "\<exists>n. answer_bytes given qs = Some n \<and> n \<le> 8192"
    using ValidateQuestions_ok [of sv qs]
    by (auto simp: ValidateAnswers_def split: option.splits if_splits)
  then obtain n where n: "answer_bytes given qs = Some n" "n \<le> 8192" by blast
  note each = answer_bytes_ok [OF n(1)]
  have sub: "cq_id ` set qs \<subseteq> fst ` set given"
    using each by (force dest: map_of_SomeD)
  have "length given = card (cq_id ` set qs)"
    using qs len by (metis questions_ok_def distinct_card length_map set_map)
  also have "\<dots> \<le> card (fst ` set given)" using sub by (simp add: card_mono)
  finally have d: "distinct (map fst given)"
    by (metis card_length card_distinct le_antisym length_map set_map)
  then have "card (fst ` set given) = card (cq_id ` set qs)"
    using \<open>length given = card (cq_id ` set qs)\<close> by (metis distinct_card length_map set_map)
  then have eq: "fst ` set given = cq_id ` set qs" using sub by (metis card_subset_eq finite_imageI finite_set)
  have "trim_space v \<noteq> [] \<and> utf8_valid v" if "(k, v) \<in> set given" for k v
  proof -
    have "k \<in> cq_id ` set qs" using that eq by force
    then obtain q where q: "q \<in> set qs" "k = cq_id q" by blast
    then show ?thesis using each that d by (metis map_of_is_SomeI option.inject)
  qed
  then show ?thesis using qs d eq each n(2) by (auto simp: answers_ok_def)
qed

section \<open>Histories\<close>

text \<open>
  Steps of the tables. Others may change Runs, inputs, Workspaces and members, and add messages;
  \<open>ms_id\<close> is the primary key of the messages.
\<close>

inductive clarification_step ::
  "clarification_services \<Rightarrow> clarification_store \<Rightarrow> clarification_store \<Rightarrow> bool" for sv where
  step_suspend: "SuspendClarification sv ids now c checkpoint db = Inr (m, db') \<Longrightarrow> clarification_step sv db db'"
| step_answer:
    "AnswerClarification sv ids now owner ws rid id1 input db = Inr (m, db') \<Longrightarrow> clarification_step sv db db'"
| step_claim: "ClaimClarification sv ids now owner ws rid id1 db = Inr (m, db') \<Longrightarrow> clarification_step sv db db'"
| step_withdraw:
    "WithdrawClarification sv ids now owner ws rid id1 version db = Inr (m, db') \<Longrightarrow> clarification_step sv db db'"
| step_other:
    "cs_messages base = cs_messages (ct_base db) @ ms \<Longrightarrow> distinct (map ms_id (cs_messages base))
      \<Longrightarrow> clarification_step sv db (db\<lparr>ct_base := base\<rparr>)"

inductive clarification_history ::
  "clarification_services \<Rightarrow> clarification_store \<Rightarrow> clarification_store \<Rightarrow> bool" for sv where
  no_steps: "clarification_history sv db db"
| more_steps: "clarification_history sv db db' \<Longrightarrow> clarification_step sv db' db'' \<Longrightarrow> clarification_history sv db db''"

abbreviation row_id :: "clarification_row \<Rightarrow> string" where "row_id x \<equiv> cl_id (cr_item x)"
abbreviation row_status :: "clarification_row \<Rightarrow> clarification_status" where "row_status x \<equiv> cl_status (cr_item x)"
abbreviation messages_of :: "clarification_store \<Rightarrow> message_row list" where "messages_of db \<equiv> cs_messages (ct_base db)"

definition has_answers :: "clarification_row \<Rightarrow> bool" where
  "has_answers x \<longleftrightarrow> row_status x = ClarificationAnswered \<or> row_status x = ClarificationApplied"

definition row_ok :: "clarification_row \<Rightarrow> bool" where
  "row_ok x \<longleftrightarrow> (let c = cr_item x in
     questions_ok (cl_questions c) \<and> cl_version c = 1 \<and> cl_expires_at c = cl_created_at c + hours 24
     \<and> (if has_answers x then answers_ok (cl_questions c) (cl_answers c) \<and> cr_answer_key x \<noteq> [] \<and> cl_answered_at c \<noteq> None
        else cl_answers c = [] \<and> cr_answer_key x = [] \<and> cl_answered_at c = None
          \<and> (cl_status c = ClarificationPending \<or> cl_status c = ClarificationWithdrawn))
     \<and> (cl_applied_at c \<noteq> None \<longleftrightarrow> cl_status c = ClarificationApplied))"

definition told :: "clarification_row \<Rightarrow> message_row \<Rightarrow> bool" where
  "told x m \<longleftrightarrow> ms_id m = row_id x \<and> ms_conversation m = cl_conversation_id (cr_item x) \<and> ms_role m = ''user''
     \<and> ms_content m = answer_text (cl_questions (cr_item x)) (cl_answers (cr_item x))"

definition clarification_wf :: "clarification_store \<Rightarrow> bool" where
  "clarification_wf db \<longleftrightarrow> distinct (map row_id (ct_rows db)) \<and> distinct (map ms_id (messages_of db))
     \<and> (\<forall>x \<in> set (ct_rows db). row_ok x \<and> (has_answers x \<longrightarrow> (\<exists>m \<in> set (messages_of db). told x m)))
     \<and> (\<forall>rid. length (rows_of_run rid (ct_rows db)) \<le> 16
          \<and> length (filter unsettled_row (rows_of_run rid (ct_rows db))) \<le> 1)"

section \<open>What a step does to the rows\<close>

definition same_question :: "clarification_row \<Rightarrow> clarification_row \<Rightarrow> bool" where
  "same_question x y \<longleftrightarrow> row_id y = row_id x \<and> cl_run_id (cr_item y) = cl_run_id (cr_item x)
     \<and> cl_conversation_id (cr_item y) = cl_conversation_id (cr_item x) \<and> cl_questions (cr_item y) = cl_questions (cr_item x)
     \<and> cl_turn_id (cr_item y) = cl_turn_id (cr_item x) \<and> cl_stage_id (cr_item y) = cl_stage_id (cr_item x)
     \<and> cr_checkpoint y = cr_checkpoint x"

definition row_moves :: "message_row list \<Rightarrow> clarification_row \<Rightarrow> clarification_row \<Rightarrow> bool" where
  "row_moves ms x y \<longleftrightarrow> y = x
     \<or> row_status x = ClarificationPending \<and> same_question x y \<and> row_ok y \<and> row_status y = ClarificationAnswered
       \<and> (\<exists>m \<in> set ms. told y m)
     \<or> has_answers x \<and> (\<exists>now. y = applied_row now x)
     \<or> row_status x = ClarificationPending \<and> y = withdrawn_row x"

definition asked :: "clarification_row list \<Rightarrow> clarification_row \<Rightarrow> bool" where
  "asked rows x \<longleftrightarrow> row_id x \<notin> row_id ` set rows \<and> row_ok x \<and> row_status x = ClarificationPending
     \<and> \<not> list_ex unsettled_row (rows_of_run (cl_run_id (cr_item x)) rows)
     \<and> length (rows_of_run (cl_run_id (cr_item x)) rows) < 16"

definition clarification_shape :: "clarification_store \<Rightarrow> clarification_store \<Rightarrow> bool" where
  "clarification_shape db db' \<longleftrightarrow> (\<exists>f new ms.
     ct_rows db' = map f (ct_rows db) @ new \<and> messages_of db' = messages_of db @ ms
     \<and> distinct (map ms_id (messages_of db')) \<and> (\<forall>x \<in> set (ct_rows db). row_moves ms x (f x))
     \<and> (new = [] \<or> (\<exists>x. new = [x] \<and> asked (ct_rows db) x)))"

lemma row_moves_refl [simp]: "row_moves ms x x"
  by (simp add: row_moves_def)

lemma applied_row_fields [simp]:
  "row_id (applied_row now x) = row_id x" "row_status (applied_row now x) = ClarificationApplied"
  "cl_run_id (cr_item (applied_row now x)) = cl_run_id (cr_item x)"
  "cl_answers (cr_item (applied_row now x)) = cl_answers (cr_item x)"
  "cr_answer_key (applied_row now x) = cr_answer_key x"
  "same_question x (applied_row now x)"
  by (simp_all add: applied_row_def same_question_def)

lemma withdrawn_row_fields [simp]:
  "row_id (withdrawn_row x) = row_id x" "row_status (withdrawn_row x) = ClarificationWithdrawn"
  "cl_run_id (cr_item (withdrawn_row x)) = cl_run_id (cr_item x)" "same_question x (withdrawn_row x)"
  by (simp_all add: withdrawn_row_def same_question_def)

lemma row_moves_same: "row_moves ms x y \<Longrightarrow> same_question x y"
  by (auto simp: row_moves_def) (simp add: same_question_def)

lemma row_moves_run: "row_moves ms x y \<Longrightarrow> cl_run_id (cr_item y) = cl_run_id (cr_item x) \<and> row_id y = row_id x"
  using row_moves_same by (simp add: same_question_def)

lemma row_moves_ok: "row_moves ms x y \<Longrightarrow> row_ok x \<Longrightarrow> row_ok y"
  by (auto simp: row_moves_def row_ok_def has_answers_def applied_row_def withdrawn_row_def Let_def)

lemma row_moves_unsettled: "row_moves ms x y \<Longrightarrow> unsettled_row y \<Longrightarrow> unsettled_row x"
  by (auto simp: row_moves_def unsettled_row_def)

lemma row_moves_told:
  "row_moves ms x y \<Longrightarrow> has_answers y \<Longrightarrow> has_answers x \<longrightarrow> (\<exists>m \<in> set old. told x m) \<Longrightarrow> \<exists>m \<in> set (old @ ms). told y m"
  by (auto simp: row_moves_def has_answers_def told_def applied_row_def)

lemma filter_map_le: "(\<And>x. x \<in> set xs \<Longrightarrow> P (f x) \<Longrightarrow> Q x) \<Longrightarrow> length (filter P (map f xs)) \<le> length (filter Q xs)"
  by (induction xs) auto

lemma shape_wf:
  assumes wf: "clarification_wf db" and shape: "clarification_shape db db'"
  shows "clarification_wf db'"
proof -
  from shape obtain f new ms where
    rows: "ct_rows db' = map f (ct_rows db) @ new" and messages: "messages_of db' = messages_of db @ ms"
    and d: "distinct (map ms_id (messages_of db'))"
    and moves: "\<And>x. x \<in> set (ct_rows db) \<Longrightarrow> row_moves ms x (f x)"
    and new: "new = [] \<or> (\<exists>x. new = [x] \<and> asked (ct_rows db) x)"
    unfolding clarification_shape_def by blast
  have ids: "map row_id (map f (ct_rows db)) = map row_id (ct_rows db)"
    using row_moves_run [OF moves] by simp
  have idset: "row_id ` set (map f (ct_rows db)) = row_id ` set (ct_rows db)"
    using ids by (metis set_map)
  have "distinct (map row_id (map f (ct_rows db)))" unfolding ids using wf by (simp add: clarification_wf_def)
  moreover have "row_id ` set (map f (ct_rows db)) \<inter> row_id ` set new = {}"
    unfolding idset using new by (elim disjE exE conjE) (simp_all add: asked_def)
  moreover have "distinct (map row_id new)" using new by auto
  ultimately have "distinct (map row_id (ct_rows db'))"
    unfolding rows map_append distinct_append set_map by blast
  moreover have "row_ok y \<and> (has_answers y \<longrightarrow> (\<exists>m \<in> set (messages_of db'). told y m))" if mem: "y \<in> set (ct_rows db')" for y
  proof (cases "y \<in> set new")
    case True
    then show ?thesis using new by (auto simp: asked_def has_answers_def)
  next
    case False
    then obtain x where x: "x \<in> set (ct_rows db)" "y = f x" using mem rows by auto
    then have ok: "row_ok x" "has_answers x \<longrightarrow> (\<exists>m \<in> set (messages_of db). told x m)"
      using wf by (simp_all add: clarification_wf_def)
    show ?thesis
      using row_moves_ok [OF moves [OF x(1)] ok(1)] row_moves_told [OF moves [OF x(1)] _ ok(2)]
      unfolding x(2) messages by blast
  qed
  moreover have "length (rows_of_run rid (ct_rows db')) \<le> 16
      \<and> length (filter unsettled_row (rows_of_run rid (ct_rows db'))) \<le> 1" for rid
  proof -
    let ?old = "rows_of_run rid (ct_rows db)" and ?moved = "rows_of_run rid (map f (ct_rows db))"
    have len: "length ?moved \<le> length ?old" unfolding rows_of_run_def
      by (rule filter_map_le) (simp add: row_moves_run [OF moves])
    have open_len: "length (filter unsettled_row ?moved) \<le> length (filter unsettled_row ?old)"
      unfolding rows_of_run_def filter_filter
      by (rule filter_map_le) (use row_moves_run [OF moves] row_moves_unsettled [OF moves] in auto)
    have bound: "length ?old \<le> 16" "length (filter unsettled_row ?old) \<le> 1"
      using wf by (simp_all add: clarification_wf_def)
    show ?thesis
    proof (cases "\<exists>x. new = [x] \<and> cl_run_id (cr_item x) = rid")
      case True
      then obtain x where x: "new = [x]" "cl_run_id (cr_item x) = rid" "asked (ct_rows db) x" using new by auto
      then have "length ?old < 16" "filter unsettled_row ?old = []"
        by (auto simp: asked_def list_ex_iff filter_empty_conv)
      then show ?thesis using len open_len x unfolding rows by (simp add: rows_of_run_def)
    next
      case False
      then have "rows_of_run rid new = []" using new by (auto simp: rows_of_run_def)
      then show ?thesis using len open_len bound unfolding rows by (simp add: rows_of_run_def)
    qed
  qed
  ultimately show ?thesis using d by (simp add: clarification_wf_def)
qed

section \<open>Every step has the shape\<close>

lemma find_row: "find P xs = Some x \<Longrightarrow> x \<in> set xs \<and> P x"
  by (auto simp: find_Some_iff)

lemma runs_fields [simp]:
  "ct_rows (put_runs st db) = ct_rows db" "messages_of (put_runs st db) = messages_of db" "clarification_runs (put_runs st db) = st"
  "ct_base (put_item x db) = ct_base db" "clarification_runs (put_item x db) = clarification_runs db"
  "clarification_runs (db\<lparr>ct_rows := rows\<rparr>) = clarification_runs db"
  by (simp_all add: put_runs_def clarification_runs_def put_item_def)

lemma SuspendClarification_Inr:
  assumes "SuspendClarification sv ids now c checkpoint db = Inr (m, db')"
  obtains x es st db1 where "insert_row sv (ids 0) now checkpoint c db = Inr (x, db1)"
    and "suspend_run (sv_layout sv) ids now (cr_item x) (clarification_runs db1) = Inr (es, st)"
    and "m = \<lparr>mt_item = cr_item x, mt_checkpoint = [], mt_events = es\<rparr>" and "db' = put_runs st db1"
    and "ValidateQuestions sv (cl_questions c) = None" and "length (rows_of_run (cl_run_id c) (ct_rows db)) < 16"
    and "find (\<lambda>r. run_id r = cl_run_id c \<and> run_conversation_id r = cl_conversation_id c) (rs_runs (clarification_runs db)) \<noteq> None"
    and "\<And>r. find (\<lambda>r. run_id r = cl_run_id c \<and> run_conversation_id r = cl_conversation_id c) (rs_runs (clarification_runs db)) = Some r
      \<Longrightarrow> run_status r = RunRunning"
    and "turn_event (cl_run_id c) (cl_turn_id c) {EventTurnStarted} (clarification_runs db)"
    and "cl_run_id c \<noteq> []" and "cl_conversation_id c \<noteq> []" and "cl_turn_id c \<noteq> []"
  using assms
  by (auto simp: SuspendClarification_def bind_result_Inr split: if_splits option.splits)

lemma insert_row_Inr:
  "insert_row sv new_id now checkpoint c db = Inr (x, db1) \<Longrightarrow>
     (\<exists>stored. sv_jsonb sv checkpoint = Some stored \<and> x = asked_row new_id now stored c) \<and> db1 = db\<lparr>ct_rows := ct_rows db @ [x]\<rparr>
     \<and> new_id \<notin> row_id ` set (ct_rows db) \<and> \<not> list_ex unsettled_row (rows_of_run (cl_run_id c) (ct_rows db))"
  by (auto simp: insert_row_def Let_def split: option.splits if_splits)

lemma asked_row_fields [simp]:
  "row_id (asked_row i now ck c) = i" "row_status (asked_row i now ck c) = ClarificationPending"
  "cl_run_id (cr_item (asked_row i now ck c)) = cl_run_id c" "cl_turn_id (cr_item (asked_row i now ck c)) = cl_turn_id c"
  "cl_conversation_id (cr_item (asked_row i now ck c)) = cl_conversation_id c"
  "cl_questions (cr_item (asked_row i now ck c)) = cl_questions c"
  by (simp_all add: asked_row_def)

lemma suspend_shape:
  assumes "SuspendClarification sv ids now c checkpoint db = Inr (m, db')" and "clarification_wf db"
  shows "clarification_shape db db'"
  using assms(1)
proof (rule SuspendClarification_Inr)
  fix x es st db1
  assume a: "insert_row sv (ids 0) now checkpoint c db = Inr (x, db1)" "db' = put_runs st db1"
    "ValidateQuestions sv (cl_questions c) = None" "length (rows_of_run (cl_run_id c) (ct_rows db)) < 16"
  note r = insert_row_Inr [OF a(1)]
  have "asked (ct_rows db) x"
    using r a(3,4) ValidateQuestions_ok [of sv "cl_questions c"]
    by (auto simp: asked_def row_ok_def has_answers_def) (auto simp: asked_row_def)
  then show ?thesis unfolding clarification_shape_def
    using r a(2) assms(2)
    by (intro exI [of _ id] exI [of _ "[x]"] exI [of _ "[]"]) (simp add: clarification_wf_def)
qed

lemma lock_row:
  assumes "lockClarification owner ws rid i db = Inr (x, status)"
  shows "x \<in> set (ct_rows db) \<and> row_id x = i \<and> cl_run_id (cr_item x) = rid
    \<and> (\<exists>r \<in> set (rs_runs (clarification_runs db)). run_id r = rid \<and> run_status r = status)"
  using assms by (auto simp: lockClarification_def split: option.splits dest!: find_row)

text \<open>One row is replaced; its message, if any, is added.\<close>

lemma put_item_shape:
  assumes wf: "clarification_wf db" and x: "x \<in> set (ct_rows db)" and moves: "row_moves ms x y"
    and rows: "ct_rows db' = ct_rows (put_item y db)" and messages: "messages_of db' = messages_of db @ ms"
    and d: "distinct (map ms_id (messages_of db'))"
  shows "clarification_shape db db'"
proof -
  have same: "z = x" if "z \<in> set (ct_rows db)" "row_id z = row_id y" for z
    using that x row_moves_run [OF moves] wf by (auto simp: clarification_wf_def distinct_map dest: inj_onD)
  show ?thesis unfolding clarification_shape_def
    by (rule exI [of _ "\<lambda>z. if row_id z = row_id y then y else z"], rule exI [of _ "[]"], rule exI [of _ ms])
      (use same moves rows messages d in \<open>auto simp: put_item_def update_rows_def\<close>)
qed

lemma AnswerClarification_Inr:
  assumes "AnswerClarification sv ids now owner ws rid i input db = Inr (m, db')"
  obtains x status where "lockClarification owner ws rid i db = Inr (x, status)"
    and "has_answers x" and "cr_answer_key x = ca_key input" and "same_answers (cl_answers (cr_item x)) (ca_answers input)"
    and "db' = db" and "m = \<lparr>mt_item = cr_item x, mt_checkpoint = [], mt_events = []\<rparr>"
  | x db1 e st where "lockClarification owner ws rid i db = Inr (x, RunWaitingForUser)"
    and "row_status x = ClarificationPending" and "ca_key input \<noteq> []"
    and "ValidateAnswers sv (cl_questions (cr_item x)) (ca_answers input) = None"
    and "add_message (answer_message now ws (cr_item (answered_row now input x))) (put_item (answered_row now input x) db) = Inr db1"
    and "clarificationEvent (sv_layout sv) (ids 0) now (cr_item (answered_row now input x)) EventClarificationAnswered (clarification_runs db1)
      = Inr (e, st)"
    and "db' = put_runs st db1" and "now < cl_expires_at (cr_item x)"
    and "m = \<lparr>mt_item = cr_item (answered_row now input x), mt_checkpoint = [], mt_events = [e]\<rparr>"
  using assms
  by (auto simp: AnswerClarification_def bind_result_Inr Let_def has_answers_def split: if_splits option.splits)

lemma add_message_Inr:
  "add_message msg db = Inr db1 \<Longrightarrow> ct_rows db1 = ct_rows db \<and> messages_of db1 = messages_of db @ [msg]
     \<and> distinct (map ms_id (messages_of db1)) \<and> clarification_runs db1 = clarification_runs db"
  by (auto simp: add_message_def bind_result_Inr insert_messages_def clarification_runs_def split: if_splits)

lemma answer_moves:
  assumes "row_ok x" and "row_status x = ClarificationPending" and "ca_key input \<noteq> []"
    and "ValidateAnswers sv (cl_questions (cr_item x)) (ca_answers input) = None"
  shows "row_moves [answer_message now ws (cr_item (answered_row now input x))] x (answered_row now input x)"
  using assms ValidateAnswers_ok [OF assms(4)]
  by (auto simp: row_moves_def same_question_def row_ok_def has_answers_def told_def answer_message_def answered_row_def Let_def)

lemma ClaimClarification_Inr:
  assumes "ClaimClarification sv ids now owner ws rid i db = Inr (m, db')"
  obtains x status e es st1 st where "lockClarification owner ws rid i db = Inr (x, status)"
    and "row_status x = ClarificationAnswered \<and> status = RunWaitingForUser
      \<or> row_status x = ClarificationApplied \<and> status = RunFailedRecoverable"
    and "status = RunFailedRecoverable \<Longrightarrow> \<not> claim_uncertain rid (cl_created_at (cr_item x)) (clarification_runs db)"
    and "latest_row rid (ct_rows db) = Some i"
    and "clarificationEvent (sv_layout sv) (ids 0) now (cr_item (applied_row now x)) EventRunResumed
      (clarificationRunStatus now rid RunRunning (clarification_runs db)) = Inr (e, st1)"
    and "continue_stage sv (ids 1) now status (applied_row now x) st1 = Inr (es, st)"
    and "m = \<lparr>mt_item = cr_item (applied_row now x), mt_checkpoint = cr_checkpoint x, mt_events = e # es\<rparr>"
    and "db' = put_runs st (put_item (applied_row now x) db)"
  using assms lock_row [of owner ws rid i db]
  by (auto simp: ClaimClarification_def bind_result_Inr Let_def split: if_splits option.splits)

lemma WithdrawClarification_Inr:
  assumes "WithdrawClarification sv ids now owner ws rid i version db = Inr (m, db')"
  obtains "db' = db"
  | x e st where "lockClarification owner ws rid i db = Inr (x, RunWaitingForUser)"
    and "row_status x = ClarificationPending"
    and "clarificationEvent (sv_layout sv) (ids 0) now (cr_item (withdrawn_row x)) EventRunCanceled
      (clarificationRunStatus now rid RunCanceled (clarification_runs db)) = Inr (e, st)"
    and "db' = put_runs st (put_item (withdrawn_row x) db)"
proof -
  from assms obtain x status where lock: "lockClarification owner ws rid i db = Inr (x, status)"
    by (auto simp: WithdrawClarification_def bind_result_Inr)
  consider "status = RunCanceled" "row_status x = ClarificationWithdrawn" "db' = db"
    | "row_status x = ClarificationPending" "status = RunWaitingForUser" "version = cl_version (cr_item x)"
    using assms lock by (simp add: WithdrawClarification_def Let_def split: if_splits)
  then show thesis
  proof cases
    case 2
    with assms lock that(2) show ?thesis
      by (simp add: WithdrawClarification_def Let_def bind_result_Inr case_prod_unfold) (metis prod.collapse)
  qed (rule that(1))
qed

lemma clarification_step_shape:
  assumes "clarification_step sv db db'" and wf: "clarification_wf db"
  shows "clarification_shape db db'"
  using assms(1)
proof cases
  case (step_suspend ids now c checkpoint m)
  then show ?thesis using wf suspend_shape by blast
next
  case (step_answer ids now owner ws rid i input m)
  then show ?thesis
  proof (cases rule: AnswerClarification_Inr)
    case (1 x status)
    then show ?thesis unfolding clarification_shape_def
      using wf by (intro exI [of _ id] exI [of _ "[]"]) (simp add: clarification_wf_def)
  next
    case (2 x db1 e st)
    note row = lock_row [OF 2(1)] and message = add_message_Inr [OF 2(5)]
    have "row_ok x" using wf row by (simp add: clarification_wf_def)
    note moves = answer_moves [OF this 2(2-4)]
    have rows: "ct_rows db' = ct_rows (put_item (answered_row now input x) db)"
      and messages: "messages_of db' = messages_of db @ [answer_message now ws (cr_item (answered_row now input x))]"
      and "distinct (map ms_id (messages_of db'))"
      unfolding 2(7) runs_fields using message unfolding runs_fields by blast+
    then show ?thesis using row by (intro put_item_shape [OF wf _ moves]) simp_all
  qed
next
  case (step_claim ids now owner ws rid i m)
  then show ?thesis
  proof (rule ClaimClarification_Inr)
    fix x status st
    assume a: "lockClarification owner ws rid i db = Inr (x, status)"
      "row_status x = ClarificationAnswered \<and> status = RunWaitingForUser
        \<or> row_status x = ClarificationApplied \<and> status = RunFailedRecoverable"
      "db' = put_runs st (put_item (applied_row now x) db)"
    have moves: "row_moves [] x (applied_row now x)" using a(2) by (auto simp: row_moves_def has_answers_def)
    show ?thesis
      by (rule put_item_shape [OF wf _ moves]) (use lock_row [OF a(1)] a(3) wf in \<open>simp_all add: clarification_wf_def\<close>)
  qed
next
  case (step_withdraw ids now owner ws rid i version m)
  then show ?thesis
  proof (cases rule: WithdrawClarification_Inr)
    case 1
    then show ?thesis unfolding clarification_shape_def
      using wf by (intro exI [of _ id] exI [of _ "[]"]) (simp add: clarification_wf_def)
  next
    case (2 x e st)
    have moves: "row_moves [] x (withdrawn_row x)" using 2(2) by (simp add: row_moves_def)
    show ?thesis
      by (rule put_item_shape [OF wf _ moves]) (use lock_row [OF 2(1)] 2(4) wf in \<open>simp_all add: clarification_wf_def\<close>)
  qed
next
  case (step_other base ms)
  then show ?thesis unfolding clarification_shape_def
    by (intro exI [of _ id] exI [of _ "[]"] exI [of _ ms]) simp
qed

lemma clarification_history_wf:
  "clarification_history sv db db' \<Longrightarrow> clarification_wf db \<Longrightarrow> clarification_wf db'"
  by (induction rule: clarification_history.induct) (auto intro: shape_wf clarification_step_shape)

section \<open>Well-formed rows\<close>

text \<open>
  C40: whatever sequence of questions, answers, resumptions and withdrawals is committed, and whatever
  others do to the Runs, the rows stay well formed: at most sixteen questions and one unsettled
  question per Run; a row carries a key, an instant and exactly one non-blank answer for each of its
  questions once it is answered, and nothing of that before; and the conversation holds the message
  of every answered row.
\<close>

theorem clarification_well_formed:
  assumes "clarification_history sv db db'" and "clarification_wf db"
  shows "clarification_wf db'"
  using assms by (rule clarification_history_wf)

section \<open>Answers are final\<close>

lemma filter_key: "distinct (map key xs) \<Longrightarrow> x \<in> set xs \<Longrightarrow> key x = k \<Longrightarrow> filter (\<lambda>y. key y = k) xs = [x]"
proof (induction xs)
  case (Cons a xs)
  then show ?case
  proof (cases "x = a")
    case True
    then have "key y \<noteq> k" if "y \<in> set xs" for y using that Cons.prems by (simp add: image_iff) metis
    then show ?thesis using True Cons.prems(3) by (simp add: filter_empty_conv)
  next
    case False
    then have "x \<in> set xs" using Cons.prems(2) by simp
    then have "key a \<noteq> k" using Cons.prems by (auto simp: image_iff)
    then show ?thesis using Cons \<open>x \<in> set xs\<close> by simp
  qed
qed simp

lemma row_moves_final:
  "row_moves ms x y \<Longrightarrow> has_answers x \<Longrightarrow>
     has_answers y \<and> cl_answers (cr_item y) = cl_answers (cr_item x) \<and> cr_answer_key y = cr_answer_key x"
  by (auto simp: row_moves_def has_answers_def)

lemma history_answers:
  assumes "clarification_history sv db db'" and "clarification_wf db" and "x \<in> set (ct_rows db)" and "has_answers x"
  shows "\<exists>y \<in> set (ct_rows db'). same_question x y \<and> has_answers y
    \<and> cl_answers (cr_item y) = cl_answers (cr_item x) \<and> cr_answer_key y = cr_answer_key x"
  using assms
proof (induction rule: clarification_history.induct)
  case (no_steps db)
  then show ?case by (auto simp: same_question_def)
next
  case (more_steps db db' db'')
  then obtain y where y: "y \<in> set (ct_rows db')" "same_question x y" "has_answers y"
    "cl_answers (cr_item y) = cl_answers (cr_item x)" "cr_answer_key y = cr_answer_key x" by blast
  have "clarification_shape db' db''"
    by (rule clarification_step_shape [OF more_steps.hyps(2) clarification_history_wf [OF more_steps.hyps(1) more_steps.prems(1)]])
  then obtain f new ms where rows: "ct_rows db'' = map f (ct_rows db') @ new"
    and "\<forall>x \<in> set (ct_rows db'). row_moves ms x (f x)"
    unfolding clarification_shape_def by blast
  then have moves: "row_moves ms y (f y)" using y(1) by blast
  have "f y \<in> set (ct_rows db'')" using y(1) rows by simp
  moreover have "same_question x (f y)"
    using y(2) row_moves_same [OF moves] by (simp add: same_question_def)
  ultimately show ?case using y(4,5) row_moves_final [OF moves y(3)] by auto
qed

text \<open>
  C38: once a question has been answered, no later step replaces its answers or the key they came
  with, the row stays answered or applied, and the conversation holds exactly one message under the
  question's identifier: the questions with these answers.
\<close>

theorem answers_final:
  assumes "clarification_history sv db db'" and "clarification_wf db" and "x \<in> set (ct_rows db)" and "has_answers x"
  shows "\<exists>y \<in> set (ct_rows db'). \<exists>m. row_id y = row_id x \<and> has_answers y
    \<and> cl_questions (cr_item y) = cl_questions (cr_item x) \<and> cl_answers (cr_item y) = cl_answers (cr_item x)
    \<and> cr_answer_key y = cr_answer_key x
    \<and> filter (\<lambda>m. ms_id m = row_id x) (messages_of db') = [m] \<and> told x m"
proof -
  have wf: "clarification_wf db'" using assms(1,2) by (rule clarification_history_wf)
  obtain y where y: "y \<in> set (ct_rows db')" "same_question x y" "has_answers y"
    "cl_answers (cr_item y) = cl_answers (cr_item x)" "cr_answer_key y = cr_answer_key x"
    using history_answers [OF assms] by blast
  then obtain m where m: "m \<in> set (messages_of db')" "told y m" using wf by (auto simp: clarification_wf_def)
  have "told x m" using m(2) y by (simp add: told_def same_question_def)
  moreover have "filter (\<lambda>m. ms_id m = row_id x) (messages_of db') = [m]"
    using wf m(1) \<open>told x m\<close> by (auto simp: clarification_wf_def told_def intro: filter_key)
  ultimately show ?thesis using y by (auto simp: same_question_def)
qed

section \<open>Asking closes the Turn\<close>

lemma clarificationEvent_Inr:
  "clarificationEvent layout i now c kind st = Inr (e, st') \<Longrightarrow>
     st' = st\<lparr>rs_events := rs_events st @ [e]\<rparr> \<and> ev_run_id e = cl_run_id c \<and> ev_turn_id e = cl_turn_id c
     \<and> ev_stage_id e = cl_stage_id c \<and> ev_type e = kind \<and> ev_schema_version e = 1
     \<and> ev_sequence e = max_sequence st (cl_run_id c) + 1"
  by (auto simp: clarificationEvent_def bind_result_Inr Let_def zero_event_def dest!: insert_event_fields split: option.splits)

lemma status_row_fields [simp]:
  "run_id (status_row now s r) = run_id r" "run_status (status_row now s r) = s"
  "run_conversation_id (status_row now s r) = run_conversation_id r"
  "run_execution_started_at (status_row now s r) = (if s = RunRunning then Some now else None)"
  by (simp_all add: status_row_def)

lemma clarificationRunStatus_run:
  "get_run (clarificationRunStatus now rid status st) i =
     (if i = rid then map_option (status_row now status) (get_run st i) else get_run st i)"
proof -
  have "lookup_by run_id (update_rows (\<lambda>r. run_id r = rid) (status_row now status) rs) i =
     (if i = rid then map_option (status_row now status) (lookup_by run_id rs i) else lookup_by run_id rs i)" for rs
    by (induction rs) (auto simp: update_rows_def)
  then show ?thesis by (simp add: get_run_def clarificationRunStatus_def)
qed

lemma clarificationRunStatus_fields [simp]:
  "run_log (clarificationRunStatus now rid status st) i = run_log st i"
  "rs_events (clarificationRunStatus now rid status st) = rs_events st"
  "rs_effects (clarificationRunStatus now rid status st) = rs_effects st"
  "max_sequence (clarificationRunStatus now rid status st) i = max_sequence st i"
  by (simp_all add: clarificationRunStatus_def max_sequence_def)

text \<open>A Turn that is started once is open until its first terminal, and then never again.\<close>

lemma marks_of_mem: "b \<in> set (marks_of mark k es) \<longleftrightarrow> (\<exists>e \<in> set es. mark e = Some (k, b))"
  by (induction es) (auto simp: marks_of_def List.map_filter_simps split: option.splits)

lemma marks_of_starts:
  "length (filter id (marks_of turn_mark k es)) = length (filter (\<lambda>e. ev_turn_id e = k \<and> ev_type e = EventTurnStarted) es)"
  by (induction es)
    (auto simp: marks_of_def List.map_filter_simps split: run_event_type.splits turn_kind.splits option.splits)

lemma alternation_once:
  assumes "alternation False ms = Some b" and "length (filter id ms) = 1"
  shows "b = (False \<notin> set ms)"
proof -
  have none: "alternation False xs = Some b \<Longrightarrow> filter id xs = [] \<Longrightarrow> xs = []" for xs
    by (cases xs) (auto split: if_splits)
  obtain xs where ms: "ms = True # xs" "alternation True xs = Some b" "filter id xs = []"
    using assms by (cases ms) (auto split: if_splits)
  show ?thesis
  proof (cases xs)
    case (Cons a ys)
    then have a: "\<not> a" "alternation False ys = Some b" "filter id ys = []" using ms by (auto split: if_splits)
    then show ?thesis using none [of ys] Cons ms(1) by simp
  qed (use ms in simp)
qed

lemma turn_open_once:
  assumes "scanLifecycle es = Inr lc" and "length (filter (\<lambda>e. ev_turn_id e = t \<and> ev_type e = EventTurnStarted) es) = 1"
  shows "map_of (lc_turns lc) t \<noteq> None \<longleftrightarrow>
    \<not> (\<exists>e \<in> set es. ev_turn_id e = t \<and> ev_type e \<in> {EventTurnCompleted, EventTurnFailed, EventTurnCanceled})"
proof -
  have "alternation False (marks_of turn_mark t es) = Some (is_some (map_of (lc_turns lc) t))"
    using turn_scope.alternates [OF TrueI assms(1) [unfolded scanLifecycle_def], of t] by (simp add: empty_lifecycle_def)
  then have "is_some (map_of (lc_turns lc) t) = (False \<notin> set (marks_of turn_mark t es))"
    using alternation_once assms(2) by (simp add: marks_of_starts)
  moreover have "turn_mark e = Some (t, False) \<longleftrightarrow>
      ev_turn_id e = t \<and> ev_type e \<in> {EventTurnCompleted, EventTurnFailed, EventTurnCanceled}" for e
    by (auto split: run_event_type.splits turn_kind.splits)
  ultimately show ?thesis by (simp add: marks_of_mem del: turn_mark.simps)
qed

lemma scan_numbered: "scanLifecycle es = Inr lc \<Longrightarrow> numbered es"
  using scan_sequences [of _ 0] by (auto simp: scanLifecycle_def numbered_def)

lemma scan_one_more:
  assumes scan: "scanLifecycle es = Inr lc" and "ev_sequence e = int (length es) + 1"
    and "DefinitionFor (ev_type e) \<noteq> None" and "ev_schema_version e = CurrentRunEventSchemaVersion"
    and "ev_type e \<notin> {EventCheckpointCaptured, EventCheckpointRestored, EventCheckpointStale}"
    and "scan_type (strictStagePairing es) e lc = Inr lc'"
  shows "scanLifecycle (es @ [e]) = Inr lc'"
proof -
  have "strictStagePairing (es @ [e]) = strictStagePairing es"
    using assms(5) by (simp add: strictStagePairing_def)
  then show ?thesis
    using assms registered_current [OF assms(3,4)] by (simp add: scanLifecycle_def fold_result_append scan_event_def)
qed

lemma appended_log:
  assumes "clarificationEvent layout i now c kind st = Inr (e, st')" and "scanLifecycle (run_log st (cl_run_id c)) = Inr lc"
    and "DefinitionFor kind \<noteq> None" and "kind \<notin> {EventCheckpointCaptured, EventCheckpointRestored, EventCheckpointStale}"
    and "scan_type (strictStagePairing (run_log st (cl_run_id c))) e lc = Inr lc'"
  shows "run_log st' (cl_run_id c) = run_log st (cl_run_id c) @ [e]" and "scanLifecycle (run_log st' (cl_run_id c)) = Inr lc'"
proof -
  note e = clarificationEvent_Inr [OF assms(1)]
  show log: "run_log st' (cl_run_id c) = run_log st (cl_run_id c) @ [e]" using e by (simp add: run_log_def)
  show "scanLifecycle (run_log st' (cl_run_id c)) = Inr lc'" unfolding log
    by (rule scan_one_more [OF assms(2)])
      (use e assms max_sequence_numbered [OF scan_numbered [OF assms(2)]] in \<open>auto simp: CurrentRunEventSchemaVersion_def\<close>)
qed

lemma turn_event_log:
  "turn_event rid t kinds st \<longleftrightarrow> (\<exists>e \<in> set (run_log st rid). ev_turn_id e = t \<and> ev_type e \<in> kinds)"
  by (auto simp: turn_event_def run_log_def list_ex_iff)

lemma turn_event_status [simp]:
  "turn_event rid t kinds (clarificationRunStatus now i status st) = turn_event rid t kinds st"
  by (simp add: turn_event_def)

lemma suspend_run_log:
  assumes run: "suspend_run layout ids now c st = Inr (es, st')"
    and scan: "scanLifecycle (run_log st (cl_run_id c)) = Inr lc"
    and once: "length (filter (\<lambda>e. ev_turn_id e = cl_turn_id c \<and> ev_type e = EventTurnStarted) (run_log st (cl_run_id c))) = 1"
  shows "run_log st' (cl_run_id c) = run_log st (cl_run_id c) @ es
    \<and> (\<exists>m. scanLifecycle (run_log st' (cl_run_id c)) = Inr (lc\<lparr>lc_turns := m\<rparr>)
         \<and> map_of m = (map_of (lc_turns lc))(cl_turn_id c := None))
    \<and> (\<forall>i. get_run st' i = get_run (clarificationRunStatus now (cl_run_id c) RunWaitingForUser st) i)"
proof -
  let ?st0 = "clarificationRunStatus now (cl_run_id c) RunWaitingForUser st"
  obtain es1 st1 e where close: "close_turn layout (ids 1) now c ?st0 = Inr (es1, st1)"
    and wait: "clarificationEvent layout (ids 2) now c EventRunWaitingForUser st1 = Inr (e, st')" and es: "es = es1 @ [e]"
    using run by (auto simp: suspend_run_def bind_result_Inr)
  note turn_open = turn_open_once [OF scan once, folded turn_event_log]
  have scan0: "scanLifecycle (run_log ?st0 (cl_run_id c)) = Inr lc" using scan by simp
  have "\<exists>m. run_log st1 (cl_run_id c) = run_log st (cl_run_id c) @ es1
      \<and> scanLifecycle (run_log st1 (cl_run_id c)) = Inr (lc\<lparr>lc_turns := m\<rparr>)
      \<and> map_of m = (map_of (lc_turns lc))(cl_turn_id c := None) \<and> rs_runs st1 = rs_runs ?st0"
  proof (cases "turn_event (cl_run_id c) (cl_turn_id c) {EventTurnCompleted, EventTurnFailed, EventTurnCanceled} st")
    case True
    then have "map_of (lc_turns lc) (cl_turn_id c) = None" using turn_open by blast
    then show ?thesis
      using True close scan by (intro exI [of _ "lc_turns lc"]) (auto simp: close_turn_def)
  next
    case False
    then obtain e1 where e1: "clarificationEvent layout (ids 1) now c EventTurnCompleted ?st0 = Inr (e1, st1)" "es1 = [e1]"
      using close by (auto simp: close_turn_def bind_result_Inr)
    have "map_of (lc_turns lc) (cl_turn_id c) \<noteq> None" using False turn_open by blast
    then have step: "scan_type strict e1 lc = Inr (lc\<lparr>lc_turns := AList.delete (cl_turn_id c) (lc_turns lc)\<rparr>)" for strict
      using clarificationEvent_Inr [OF e1(1)] by (simp add: scan_type_def close_scope_def)
    show ?thesis
      using appended_log [OF e1(1) scan0 _ _ step] e1 clarificationEvent_Inr [OF e1(1)]
      by (intro exI [of _ "AList.delete (cl_turn_id c) (lc_turns lc)"]) (simp add: delete_conv' registered_def)
  qed
  then obtain m where m: "run_log st1 (cl_run_id c) = run_log st (cl_run_id c) @ es1"
    "scanLifecycle (run_log st1 (cl_run_id c)) = Inr (lc\<lparr>lc_turns := m\<rparr>)"
    "map_of m = (map_of (lc_turns lc))(cl_turn_id c := None)" "rs_runs st1 = rs_runs ?st0" by blast
  have step: "scan_type strict e (lc\<lparr>lc_turns := m\<rparr>) = Inr (lc\<lparr>lc_turns := m\<rparr>)" for strict
    using clarificationEvent_Inr [OF wait] by (simp add: scan_type_def)
  show ?thesis
    using appended_log [OF wait m(2) _ _ step] m es clarificationEvent_Inr [OF wait]
    by (auto simp: get_run_def registered_def)
qed

text \<open>
  C37: a question is committed only by a running Run, in a Turn that was started. The Run then waits and
  no longer counts as executing, its Turn is closed in the same transaction and every other open scope
  is left as it was, so that the log stays a valid lifecycle; and the question is the only unsettled one.
\<close>

theorem question_closes_turn:
  assumes "SuspendClarification sv ids now c checkpoint db = Inr (m, db')"
    and "distinct (map run_id (rs_runs (clarification_runs db)))"
    and "scanLifecycle (run_log (clarification_runs db) (cl_run_id c)) = Inr lc"
    and "length (filter (\<lambda>e. ev_turn_id e = cl_turn_id c \<and> ev_type e = EventTurnStarted)
           (run_log (clarification_runs db) (cl_run_id c))) = 1"
  shows "\<exists>r r' turns. get_run (clarification_runs db) (cl_run_id c) = Some r \<and> run_status r = RunRunning
    \<and> get_run (clarification_runs db') (cl_run_id c) = Some r' \<and> run_status r' = RunWaitingForUser
    \<and> run_execution_started_at r' = None
    \<and> run_log (clarification_runs db') (cl_run_id c) = run_log (clarification_runs db) (cl_run_id c) @ mt_events m
    \<and> scanLifecycle (run_log (clarification_runs db') (cl_run_id c)) = Inr (lc\<lparr>lc_turns := turns\<rparr>)
    \<and> map_of turns = (map_of (lc_turns lc))(cl_turn_id c := None)
    \<and> map cr_item (filter unsettled_row (rows_of_run (cl_run_id c) (ct_rows db'))) = [mt_item m]"
  using assms(1)
proof (rule SuspendClarification_Inr)
  fix x es st db1
  let ?found = "find (\<lambda>r. run_id r = cl_run_id c \<and> run_conversation_id r = cl_conversation_id c) (rs_runs (clarification_runs db))"
  assume a: "insert_row sv (ids 0) now checkpoint c db = Inr (x, db1)"
    "suspend_run (sv_layout sv) ids now (cr_item x) (clarification_runs db1) = Inr (es, st)"
    "m = \<lparr>mt_item = cr_item x, mt_checkpoint = [], mt_events = es\<rparr>" "db' = put_runs st db1"
    "?found \<noteq> None" "\<And>r. ?found = Some r \<Longrightarrow> run_status r = RunRunning"
  note row = insert_row_Inr [OF a(1)]
  have x: "cl_run_id (cr_item x) = cl_run_id c" "cl_turn_id (cr_item x) = cl_turn_id c" "unsettled_row x"
    and runs: "clarification_runs db1 = clarification_runs db" using row by (auto simp: unsettled_row_def)
  obtain r where found: "?found = Some r" using a(5) by blast
  then have r: "r \<in> set (rs_runs (clarification_runs db))" "run_id r = cl_run_id c" using find_row [OF found] by auto
  then have get: "get_run (clarification_runs db) (cl_run_id c) = Some r"
    unfolding get_run_def using lookup_by_distinct [OF assms(2)] by metis
  have log: "run_log st (cl_run_id c) = run_log (clarification_runs db) (cl_run_id c) @ es
      \<and> (\<exists>t. scanLifecycle (run_log st (cl_run_id c)) = Inr (lc\<lparr>lc_turns := t\<rparr>)
         \<and> map_of t = (map_of (lc_turns lc))(cl_turn_id c := None))
      \<and> (\<forall>i. get_run st i = get_run (clarificationRunStatus now (cl_run_id c) RunWaitingForUser (clarification_runs db)) i)"
    using suspend_run_log [OF a(2)] assms(3,4) unfolding x runs by blast
  have "filter unsettled_row (rows_of_run (cl_run_id c) (ct_rows db)) = []"
    using row by (simp add: filter_empty_conv list_ex_iff)
  then have "map cr_item (filter unsettled_row (rows_of_run (cl_run_id c) (ct_rows db1))) = [cr_item x]"
    using row x by (simp add: rows_of_run_def)
  then show ?thesis
    using log get a(6) [OF found] a(3,4) by (auto simp: clarificationRunStatus_run)
qed

section \<open>One resumption\<close>

lemma reopen_stage_Inr:
  "reopen_stage layout j now hash c st = Inr (es, st') \<Longrightarrow>
     rs_runs st' = rs_runs st \<and> run_log st' (cl_run_id c) = run_log st (cl_run_id c) @ es
     \<and> (\<forall>e \<in> set es. ev_type e = EventStageStarted)"
  by (auto simp: reopen_stage_def bind_result_Inr Let_def run_log_def dest!: clarificationEvent_Inr
      split: option.splits if_splits)

lemma continue_stage_Inr:
  assumes "continue_stage sv j now status x st = Inr (es, st')"
  shows "rs_runs st' = rs_runs st \<and> run_log st' (cl_run_id (cr_item x)) = run_log st (cl_run_id (cr_item x)) @ es
    \<and> (\<forall>e \<in> set es. ev_type e = EventStageStarted)"
  using assms by (auto simp: continue_stage_def dest: reopen_stage_Inr split: if_splits)

lemma lock_status:
  assumes "rs_runs (clarification_runs db') = update_rows (\<lambda>r. run_id r = rid) (status_row now status) rs"
    and "lockClarification owner ws rid i db' = Inr (x, s)"
  shows "s = status"
  using assms lock_row [OF assms(2)] by (auto simp: update_rows_def split: if_splits)

text \<open>
  C39: a successful claim hands out the answers and the checkpoint that were committed, and makes the Run
  run; it resumes the Run with one event, after the log as it was. A question that was claimed before
  is claimed again only if no effect of the Run is open and none was committed since the question.
  Whoever claims next, for whichever question of the Run, is refused.
\<close>

theorem answers_claimed_once:
  assumes claim: "ClaimClarification sv ids now owner ws rid i db = Inr (m, db')"
  shows "(\<exists>x \<in> set (ct_rows db). row_id x = i \<and> has_answers x \<and> mt_checkpoint m = cr_checkpoint x
      \<and> cl_answers (mt_item m) = cl_answers (cr_item x) \<and> cl_status (mt_item m) = ClarificationApplied
      \<and> (row_status x = ClarificationApplied \<longrightarrow> \<not> claim_uncertain rid (cl_created_at (cr_item x)) (clarification_runs db)))
    \<and> (\<exists>r. get_run (clarification_runs db') rid = Some r \<and> run_status r = RunRunning)
    \<and> run_log (clarification_runs db') rid = run_log (clarification_runs db) rid @ mt_events m
    \<and> length (filter (\<lambda>e. ev_type e = EventRunResumed) (mt_events m)) = 1
    \<and> isl (ClaimClarification sv ids' now' owner' ws' rid i' db')"
  using claim
proof (rule ClaimClarification_Inr)
  fix x status e es st1 st
  let ?st0 = "clarificationRunStatus now rid RunRunning (clarification_runs db)"
  assume a: "lockClarification owner ws rid i db = Inr (x, status)"
    "row_status x = ClarificationAnswered \<and> status = RunWaitingForUser
      \<or> row_status x = ClarificationApplied \<and> status = RunFailedRecoverable"
    "status = RunFailedRecoverable \<Longrightarrow> \<not> claim_uncertain rid (cl_created_at (cr_item x)) (clarification_runs db)"
    "clarificationEvent (sv_layout sv) (ids 0) now (cr_item (applied_row now x)) EventRunResumed ?st0 = Inr (e, st1)"
    "continue_stage sv (ids 1) now status (applied_row now x) st1 = Inr (es, st)"
    "m = \<lparr>mt_item = cr_item (applied_row now x), mt_checkpoint = cr_checkpoint x, mt_events = e # es\<rparr>"
    "db' = put_runs st (put_item (applied_row now x) db)"
  note row = lock_row [OF a(1)] and ev = clarificationEvent_Inr [OF a(4)] and stage = continue_stage_Inr [OF a(5)]
  have rid: "cl_run_id (cr_item (applied_row now x)) = rid" using row by simp
  have runs: "rs_runs st = update_rows (\<lambda>r. run_id r = rid) (status_row now RunRunning) (rs_runs (clarification_runs db))"
    using stage ev by (simp add: clarificationRunStatus_def)
  have log: "run_log st rid = run_log (clarification_runs db) rid @ mt_events m"
    using stage ev a(6) unfolding rid by (simp add: run_log_def)
  have one: "length (filter (\<lambda>e. ev_type e = EventRunResumed) (mt_events m)) = 1"
    using stage ev a(6) by (simp add: filter_empty_conv)
  have "get_run (clarification_runs db) rid \<noteq> None" using row unfolding get_run_def lookup_by_None by force
  moreover have "get_run st rid = get_run ?st0 rid" using runs by (simp add: get_run_def clarificationRunStatus_def)
  ultimately have run: "\<exists>r. get_run st rid = Some r \<and> run_status r = RunRunning"
    by (auto simp: clarificationRunStatus_run)
  have refused: "isl (ClaimClarification sv ids' now' owner' ws' rid i' db')"
  proof (rule ccontr)
    assume "\<not> ?thesis"
    then obtain m2 db2 where "ClaimClarification sv ids' now' owner' ws' rid i' db' = Inr (m2, db2)"
      by (cases "ClaimClarification sv ids' now' owner' ws' rid i' db'") auto
    then show False
    proof (rule ClaimClarification_Inr)
      fix y s assume b: "lockClarification owner' ws' rid i' db' = Inr (y, s)"
        "row_status y = ClarificationAnswered \<and> s = RunWaitingForUser
          \<or> row_status y = ClarificationApplied \<and> s = RunFailedRecoverable"
      have "s = RunRunning" by (rule lock_status [OF _ b(1)]) (simp add: a(7) runs)
      then show False using b(2) by simp
    qed
  qed
  have given: "cl_answers (mt_item m) = cl_answers (cr_item x)" "cl_status (mt_item m) = ClarificationApplied"
    "mt_checkpoint m = cr_checkpoint x" using a(6) by simp_all
  have "has_answers x" "row_status x = ClarificationApplied \<longrightarrow> \<not> claim_uncertain rid (cl_created_at (cr_item x)) (clarification_runs db)"
    using a(2,3) by (auto simp: has_answers_def)
  then have "\<exists>x \<in> set (ct_rows db). row_id x = i \<and> has_answers x \<and> mt_checkpoint m = cr_checkpoint x
      \<and> cl_answers (mt_item m) = cl_answers (cr_item x) \<and> cl_status (mt_item m) = ClarificationApplied
      \<and> (row_status x = ClarificationApplied \<longrightarrow> \<not> claim_uncertain rid (cl_created_at (cr_item x)) (clarification_runs db))"
    using row given by (intro bexI [of _ x]) simp_all
  then show ?thesis using run log one refused unfolding a(7) runs_fields by blast
qed

section \<open>Answers in the task\<close>

definition receipts :: "(any_value \<Rightarrow> clarification option) \<Rightarrow> run_event list \<Rightarrow> string set" where
  "receipts decode es =
     {cl_id c |e c. e \<in> set es \<and> ev_type e = EventRunResumed \<and> ev_payload e ''kind'' = Some (VString ''clarification'')
       \<and> decode (case ev_payload e ''clarification'' of None \<Rightarrow> VNil | Some v \<Rightarrow> v) = Some c
       \<and> cl_status c = ClarificationApplied}"

lemma receipts_Nil [simp]: "receipts decode [] = {}"
  by (simp add: receipts_def)

lemma receipts_Cons: "receipts decode (e # es) = receipts decode [e] \<union> receipts decode es"
  by (auto simp: receipts_def)

lemma receipts_one:
  "receipts decode [e] =
     (if ev_type e \<noteq> EventRunResumed \<or> ev_payload e ''kind'' \<noteq> Some (VString ''clarification'') then {}
      else case decode (case ev_payload e ''clarification'' of None \<Rightarrow> VNil | Some v \<Rightarrow> v) of
        None \<Rightarrow> {} | Some c \<Rightarrow> if cl_status c = ClarificationApplied then {cl_id c} else {})"
  by (auto simp: receipts_def split: option.splits)

lemma add_answers_Inr:
  "add_answers sv decode seen task es = Inr t \<Longrightarrow>
     \<exists>cs. t = task @ concat (map receipt_text cs) \<and> distinct (map cl_id cs)
       \<and> cl_id ` set cs = receipts decode es - set seen \<and> (\<forall>c \<in> set cs. answers_ok (cl_questions c) (cl_answers c))"
proof (induction es arbitrary: seen task)
  case (Cons e es)
  let ?c = "decode (case ev_payload e ''clarification'' of None \<Rightarrow> VNil | Some v \<Rightarrow> v)"
  show ?case
  proof (cases "\<exists>c. ev_type e = EventRunResumed \<and> ev_payload e ''kind'' = Some (VString ''clarification'')
      \<and> ?c = Some c \<and> cl_status c = ClarificationApplied \<and> cl_id c \<notin> set seen")
    case True
    then obtain c where c: "ev_type e = EventRunResumed" "ev_payload e ''kind'' = Some (VString ''clarification'')"
      "?c = Some c" "cl_status c = ClarificationApplied" "cl_id c \<notin> set seen" by blast
    then have ok: "ValidateAnswers sv (cl_questions c) (cl_answers c) = None"
      and rest: "add_answers sv decode (cl_id c # seen) (task @ receipt_text c) es = Inr t"
      using Cons.prems by (auto split: option.splits)
    obtain cs where "t = (task @ receipt_text c) @ concat (map receipt_text cs)" "distinct (map cl_id cs)"
      "cl_id ` set cs = receipts decode es - set (cl_id c # seen)" "\<forall>c \<in> set cs. answers_ok (cl_questions c) (cl_answers c)"
      using Cons.IH [OF rest] by blast
    then show ?thesis
      using c ok ValidateAnswers_ok [OF ok] unfolding receipts_Cons [of decode e es] by (intro exI [of _ "c # cs"]) (auto simp: receipts_one)
  next
    case False
    then have rest: "add_answers sv decode seen task es = Inr t" and "receipts decode [e] \<subseteq> set seen"
      using Cons.prems by (auto simp: receipts_one split: option.splits if_splits)
    then have "receipts decode (e # es) - set seen = receipts decode es - set seen"
      unfolding receipts_Cons [of decode e es] by blast
    then show ?thesis using Cons.IH [OF rest] by simp
  qed
qed simp

text \<open>
  the task receives the answers of every claimed question exactly once,
  however often the Run was resumed, and nothing else; only complete answers reach it.
\<close>

theorem answers_added_once:
  assumes "AddAnswers sv decode task es = Inr t"
  shows "\<exists>cs. t = task @ concat (map receipt_text cs) \<and> distinct (map cl_id cs)
    \<and> cl_id ` set cs = receipts decode es \<and> (\<forall>c \<in> set cs. answers_ok (cl_questions c) (cl_answers c))"
  using add_answers_Inr [OF assms [unfolded AddAnswers_def]] by simp

section \<open>Example: a question that is asked, answered and claimed\<close>

definition sample_services :: clarification_services where
  "sample_services = \<lparr>sv_clean_questions = \<lambda>qs. True, sv_clean_answers = \<lambda>as. True, sv_clean_checkpoint = \<lambda>c. True,
     sv_valid_json = \<lambda>c. True, sv_jsonb = Some, sv_snapshot_hash = \<lambda>c. Some ''hash'', sv_render = \<lambda>v. [],
     sv_layout = \<lambda>t. ''time''\<rparr>"

definition sample_question :: clarification where
  "sample_question = \<lparr>cl_id = [], cl_run_id = ''run'', cl_conversation_id = ''conversation'', cl_stage_id = [],
     cl_turn_id = ''turn'', cl_tool_call_id = [], cl_version = 0, cl_status = ClarificationPending,
     cl_questions = [\<lparr>cq_id = ''r'', cq_question = ''eu?'', cq_options = []\<rparr>],
     cl_answers = [], cl_created_at = 0, cl_expires_at = 0, cl_answered_at = None, cl_applied_at = None\<rparr>"

definition turn_log :: "run_event list" where
  "turn_log = [zero_event\<lparr>ev_id := ''e0'', ev_type := EventTurnStarted, ev_schema_version := 1, ev_sequence := 1,
     ev_run_id := ''run'', ev_conversation_id := ''conversation'', ev_turn_id := ''turn''\<rparr>]"

definition sample_db :: "run_status \<Rightarrow> clarification_row list \<Rightarrow> message_row list \<Rightarrow> clarification_store" where
  "sample_db status rows messages =
     \<lparr>ct_base = \<lparr>cs_runs = empty_store\<lparr>rs_runs := [example_run\<lparr>run_status := status\<rparr>], rs_events := turn_log\<rparr>,
        cs_conversations = [\<lparr>cv_id = ''conversation'', cv_workspace = ''workspace''\<rparr>],
        cs_workspaces = [\<lparr>wk_id = ''workspace'', wk_owner = ''user'', wk_active = True, wk_deleted = False\<rparr>],
        cs_members = [(''user'', ''workspace'')], cs_messages = messages, cs_inputs = []\<rparr>, ct_rows = rows\<rparr>"

definition sample_ids :: "nat \<Rightarrow> string" where
  "sample_ids n = (if n = 0 then ''a0'' else if n = 1 then ''a1'' else ''a2'')"

definition sample_answer :: clarification_answer where
  "sample_answer = \<lparr>ca_version = 1, ca_key = ''key'', ca_answers = [(''r'', ''yes'')]\<rparr>"

definition sample_answered :: clarification_row where
  "sample_answered = answered_row 6 sample_answer (asked_row ''a0'' 5 ''{}'' sample_question)"

definition sample_message :: message_row where
  "sample_message = answer_message 6 ''workspace'' (cr_item sample_answered)"

definition answered_db :: clarification_store where
  "answered_db = sample_db RunWaitingForUser [sample_answered] [sample_message]"

definition ask :: "clarification_error + mutation \<times> clarification_store" where
  "ask = SuspendClarification sample_services sample_ids 5 sample_question ''{}'' (sample_db RunRunning [] [])"

definition claim :: "clarification_store \<Rightarrow> clarification_error + mutation \<times> clarification_store" where
  "claim = ClaimClarification sample_services sample_ids 7 ''user'' ''workspace'' ''run'' ''a0''"

lemmas sample_defs = sample_services_def sample_db_def turn_log_def zero_event_def empty_store_def example_run_def
  sample_ids_def clarification_runs_def sample_answered_def sample_question_def sample_answer_def asked_row_def answered_row_def

lemma valid_sample:
  "ValidateQuestions sample_services (cl_questions sample_question) = None"
  "ValidateAnswers sample_services (cl_questions sample_question) (ca_answers sample_answer) = None"
proof -
  have texts: "\<not> credentialQuestion ''r eu? ''" "trim_space ''r'' = ''r''" "trim_space ''eu?'' = ''eu?''"
    "utf8_valid ''eu?''" "trim_space ''yes'' = ''yes''" "utf8_valid ''yes''" "id_char (CHR 0x72)"
    by code_simp+
  then show v: "ValidateQuestions sample_services (cl_questions sample_question) = None"
    by (simp add: ValidateQuestions_def sample_question_def sample_services_def)
  then show "ValidateAnswers sample_services (cl_questions sample_question) (ca_answers sample_answer) = None"
    using texts by (simp add: ValidateAnswers_def sample_question_def sample_services_def sample_answer_def)
qed

lemma clarificationEvent_ok:
  assumes "clarification_payload layout c kind st \<noteq> None" and "i \<notin> ev_id ` set (rs_events st)"
    and "get_run st (cl_run_id c) \<noteq> None"
  obtains e where "clarificationEvent layout i now c kind st = Inr (e, st\<lparr>rs_events := rs_events st @ [e]\<rparr>)" and "ev_id e = i"
  using assms by (auto simp: clarificationEvent_def insert_event_def Let_def)

lemma sample_payload:
  "clarification_payload (sv_layout sample_services) (cr_item (asked_row ''a0'' 5 ''{}'' sample_question)) EventRunWaitingForUser st \<noteq> None"
  "clarification_payload (sv_layout sample_services) (cr_item (applied_row 7 sample_answered)) EventRunResumed st \<noteq> None"
  by (simp_all add: clarification_payload_def clarification_json_def json_time_def clarification_times_def hours_def sample_defs
      applied_row_def)

lemma ask_sample: "\<exists>m db. ask = Inr (m, db)"
proof -
  let ?x = "asked_row ''a0'' 5 ''{}'' sample_question" and ?db = "sample_db RunRunning [] []"
  have row: "insert_row sample_services (sample_ids 0) 5 ''{}'' sample_question ?db = Inr (?x, ?db\<lparr>ct_rows := [?x]\<rparr>)"
    by (simp add: insert_row_def Let_def sample_defs storable_questions_def rows_of_run_def)
  let ?st = "clarificationRunStatus 5 ''run'' RunWaitingForUser (clarification_runs ?db)"
  have fields: "rs_events ?st = turn_log" "get_run ?st ''run'' \<noteq> None" "cl_run_id (cr_item ?x) = ''run''"
    "\<not> turn_event ''run'' ''turn'' {EventTurnCompleted, EventTurnFailed, EventTurnCanceled} ?st"
    by (simp_all add: clarificationRunStatus_run) (simp_all add: sample_defs get_run_def turn_event_def)
  obtain e1 where e1: "clarificationEvent (sv_layout sample_services) (sample_ids 1) 5 (cr_item ?x) EventTurnCompleted ?st
      = Inr (e1, ?st\<lparr>rs_events := turn_log @ [e1]\<rparr>)" "ev_id e1 = ''a1''"
    by (rule clarificationEvent_ok [of "sv_layout sample_services" "cr_item ?x" EventTurnCompleted ?st "sample_ids 1" 5])
      (use fields sample_payload in \<open>simp_all add: clarification_payload_def sample_ids_def turn_log_def zero_event_def\<close>)
  let ?st1 = "?st\<lparr>rs_events := turn_log @ [e1]\<rparr>"
  obtain e2 where e2: "clarificationEvent (sv_layout sample_services) (sample_ids 2) 5 (cr_item ?x) EventRunWaitingForUser ?st1
      = Inr (e2, ?st1\<lparr>rs_events := rs_events ?st1 @ [e2]\<rparr>)"
    by (rule clarificationEvent_ok [of "sv_layout sample_services" "cr_item ?x" EventRunWaitingForUser ?st1 "sample_ids 2" 5])
      (use fields sample_payload(1) e1(2) in \<open>simp_all add: sample_ids_def turn_log_def zero_event_def\<close>)
  have suspended: "\<exists>es st. suspend_run (sv_layout sample_services) sample_ids 5 (cr_item ?x) (clarification_runs ?db) = Inr (es, st)"
    using fields e1 e2 by (simp add: suspend_run_def close_turn_def sample_question_def)
  let ?run = "example_run\<lparr>run_status := RunRunning\<rparr>"
  let ?ws = "\<lparr>wk_id = ''workspace'', wk_owner = ''user'', wk_active = True, wk_deleted = False\<rparr>"
  have guards: "find (\<lambda>r. run_id r = ''run'' \<and> run_conversation_id r = ''conversation'') (rs_runs (clarification_runs ?db)) = Some ?run"
    "find (\<lambda>w. wk_id w = run_workspace_id ?run) (cs_workspaces (ct_base ?db)) = Some ?ws"
    "lockInbox ''user'' (run_workspace_id ?run) ''conversation'' (ct_base ?db) = None"
    "turn_event ''run'' ''turn'' {EventTurnStarted} (clarification_runs ?db)" "rows_of_run ''run'' (ct_rows ?db) = []"
    by (simp_all add: sample_db_def clarification_runs_def example_run_def lockInbox_def lockInboxScope_def turn_event_def turn_log_def
        rows_of_run_def)
  have input: "cl_run_id sample_question = ''run''" "cl_conversation_id sample_question = ''conversation''"
    "cl_turn_id sample_question = ''turn''" "cl_tool_call_id sample_question = []" "cl_stage_id sample_question = []"
    by (simp_all add: sample_question_def)
  have services: "sv_valid_json sample_services ''{}''" "sv_clean_checkpoint sample_services ''{}''"
    by (simp_all add: sample_services_def)
  show ?thesis
    using row suspended valid_sample(1) guards services
    by (auto simp: ask_def SuspendClarification_def input MaxCheckpointBytes_def)
qed

lemma claim_sample: "\<exists>m db. claim answered_db = Inr (m, db)"
proof -
  let ?x = "applied_row 7 sample_answered"
  let ?st = "clarificationRunStatus 7 ''run'' RunRunning (clarification_runs answered_db)"
  have fields: "rs_events ?st = turn_log" "get_run ?st ''run'' \<noteq> None" "cl_run_id (cr_item ?x) = ''run''"
    by (simp_all add: clarificationRunStatus_run answered_db_def) (simp_all add: sample_defs get_run_def)
  obtain e where e: "clarificationEvent (sv_layout sample_services) (sample_ids 0) 7 (cr_item ?x) EventRunResumed ?st
      = Inr (e, ?st\<lparr>rs_events := turn_log @ [e]\<rparr>)"
    by (rule clarificationEvent_ok [of "sv_layout sample_services" "cr_item ?x" EventRunResumed ?st "sample_ids 0" 7])
      (use fields sample_payload(2) in \<open>simp_all add: sample_ids_def turn_log_def zero_event_def\<close>)
  have lock: "lockClarification ''user'' ''workspace'' ''run'' ''a0'' answered_db = Inr (sample_answered, RunWaitingForUser)"
    by (simp add: lockClarification_def answered_db_def sample_defs lockInbox_def lockInboxScope_def)
  have row: "row_status sample_answered = ClarificationAnswered" "latest_row ''run'' (ct_rows answered_db) = Some ''a0''"
    "row_id sample_answered = ''a0''"
    by (simp_all add: sample_answered_def answered_row_def answered_db_def sample_db_def latest_row_def rows_of_run_def)
      (simp_all add: asked_row_def sample_question_def)
  show ?thesis
    using lock row e by (simp add: claim_def ClaimClarification_def continue_stage_def Let_def)
qed

lemma answered_db_wf: "clarification_wf answered_db"
proof -
  have "questions_ok (cl_questions sample_question) \<and> answers_ok (cl_questions sample_question) (ca_answers sample_answer)"
    using valid_sample(2) by (rule ValidateAnswers_ok)
  then have "row_ok sample_answered" and "has_answers sample_answered" and "told sample_answered sample_message"
    by (simp_all add: row_ok_def has_answers_def sample_answered_def answered_row_def asked_row_def sample_answer_def
        told_def sample_message_def answer_message_def)
  then show ?thesis
    by (simp add: clarification_wf_def answered_db_def sample_db_def rows_of_run_def)
qed

lemma clarification_well_formed_witness:
  "\<exists>m db. ask = Inr (m, db) \<and> clarification_wf db"
proof -
  obtain m db where a: "ask = Inr (m, db)" using ask_sample by blast
  then have "clarification_step sample_services (sample_db RunRunning [] []) db"
    unfolding ask_def by (rule step_suspend)
  then have "clarification_history sample_services (sample_db RunRunning [] []) db"
    by (rule more_steps [OF no_steps])
  moreover have "clarification_wf (sample_db RunRunning [] [])"
    by (simp add: clarification_wf_def sample_db_def rows_of_run_def)
  ultimately have "clarification_wf db" by (rule clarification_well_formed)
  then show ?thesis using a by blast
qed

lemma answers_final_witness:
  "\<exists>m db. claim answered_db = Inr (m, db)
     \<and> (\<exists>k. filter (\<lambda>m. ms_id m = ''a0'') (messages_of db) = [k] \<and> told sample_answered k)"
proof -
  obtain m db where c: "claim answered_db = Inr (m, db)" using claim_sample by blast
  then have "clarification_step sample_services answered_db db" unfolding claim_def by (rule step_claim)
  then have h: "clarification_history sample_services answered_db db" by (rule more_steps [OF no_steps])
  have x: "sample_answered \<in> set (ct_rows answered_db)" "has_answers sample_answered" "row_id sample_answered = ''a0''"
    by (simp_all add: answered_db_def sample_db_def has_answers_def sample_answered_def answered_row_def)
  show ?thesis using answers_final [OF h answered_db_wf x(1,2)] c x(3) by auto
qed

lemma question_closes_turn_witness:
  "\<exists>m db. ask = Inr (m, db) \<and> (\<exists>r turns. get_run (clarification_runs db) ''run'' = Some r \<and> run_status r = RunWaitingForUser
     \<and> scanLifecycle (run_log (clarification_runs db) ''run'') = Inr (empty_lifecycle\<lparr>lc_turns := turns\<rparr>) \<and> map_of turns ''turn'' = None)"
proof -
  obtain m db where a: "ask = Inr (m, db)" using ask_sample by blast
  let ?log = "run_log (clarification_runs (sample_db RunRunning [] [])) (cl_run_id sample_question)"
  let ?lc = "empty_lifecycle\<lparr>lc_turns := [(''turn'', hd turn_log)]\<rparr>"
  have log: "?log = turn_log" by (simp add: run_log_def sample_defs)
  have scan: "scanLifecycle ?log = Inr ?lc" unfolding log
    by (simp add: scanLifecycle_def turn_log_def scan_event_def validateRegisteredEvent_def registered_def scan_type_def
        open_scope_def empty_lifecycle_def zero_event_def CurrentRunEventSchemaVersion_def)
  have "length (filter (\<lambda>e. ev_turn_id e = cl_turn_id sample_question \<and> ev_type e = EventTurnStarted) ?log) = 1"
    and "distinct (map run_id (rs_runs (clarification_runs (sample_db RunRunning [] []))))"
    unfolding log by (simp_all add: sample_defs)
  then have "\<exists>r r' turns. get_run (clarification_runs (sample_db RunRunning [] [])) (cl_run_id sample_question) = Some r
      \<and> run_status r = RunRunning \<and> get_run (clarification_runs db) (cl_run_id sample_question) = Some r'
      \<and> run_status r' = RunWaitingForUser \<and> run_execution_started_at r' = None
      \<and> run_log (clarification_runs db) (cl_run_id sample_question) = ?log @ mt_events m
      \<and> scanLifecycle (run_log (clarification_runs db) (cl_run_id sample_question)) = Inr (?lc\<lparr>lc_turns := turns\<rparr>)
      \<and> map_of turns = (map_of (lc_turns ?lc))(cl_turn_id sample_question := None)
      \<and> map cr_item (filter unsettled_row (rows_of_run (cl_run_id sample_question) (ct_rows db))) = [mt_item m]"
    using question_closes_turn [OF a [unfolded ask_def] _ scan] by blast
  then obtain r turns where "get_run (clarification_runs db) ''run'' = Some r" "run_status r = RunWaitingForUser"
    "scanLifecycle (run_log (clarification_runs db) ''run'') = Inr (empty_lifecycle\<lparr>lc_turns := turns\<rparr>)" "map_of turns ''turn'' = None"
    unfolding sample_question_def by auto
  then show ?thesis using a by blast
qed

lemma answers_claimed_once_witness:
  "\<exists>m db. claim answered_db = Inr (m, db) \<and> isl (claim db)"
proof -
  obtain m db where c: "claim answered_db = Inr (m, db)" using claim_sample by blast
  have "isl (claim db)"
    using answers_claimed_once [OF c [unfolded claim_def], of sample_ids 7 "''user''" "''workspace''" "''a0''"]
    unfolding claim_def by blast
  then show ?thesis using c by blast
qed

definition resumed_event :: run_event where
  "resumed_event = zero_event\<lparr>ev_type := EventRunResumed,
     ev_payload := [''kind'' \<mapsto> VString ''clarification'', ''clarification'' \<mapsto> VMap []]\<rparr>"

definition decode_sample :: "any_value \<Rightarrow> clarification option" where
  "decode_sample v = Some (cr_item (applied_row 7 sample_answered))"

lemma answers_added_once_witness:
  "\<exists>cs. AddAnswers sample_services decode_sample ''task'' [resumed_event, resumed_event]
       = Inr (''task'' @ concat (map receipt_text cs)) \<and> map cl_id cs = [''a0'']"
proof -
  have "ValidateAnswers sample_services (cl_questions (cr_item (applied_row 7 sample_answered)))
      (cl_answers (cr_item (applied_row 7 sample_answered))) = None"
    using valid_sample(2) by (simp add: applied_row_def sample_answered_def answered_row_def)
  then have added: "AddAnswers sample_services decode_sample ''task'' [resumed_event, resumed_event]
      = Inr (''task'' @ receipt_text (cr_item (applied_row 7 sample_answered)))"
    by (simp add: AddAnswers_def resumed_event_def zero_event_def decode_sample_def)
  have "receipts decode_sample [resumed_event, resumed_event] = {''a0''}"
    unfolding receipts_Cons [of _ _ "[_]"]
    by (simp add: receipts_one resumed_event_def zero_event_def decode_sample_def)
      (simp add: sample_answered_def answered_row_def)
  then obtain cs where cs: "''task'' @ receipt_text (cr_item (applied_row 7 sample_answered)) = ''task'' @ concat (map receipt_text cs)"
    "distinct (map cl_id cs)" "cl_id ` set cs = {''a0''}"
    using answers_added_once [OF added] by auto
  then have ids: "set (map cl_id cs) = {''a0''}" by simp
  have "length (map cl_id cs) = 1" using distinct_card [OF cs(2)] unfolding ids by simp
  then have one: "map cl_id cs = [''a0'']" using ids by (cases cs) simp_all
  show ?thesis by (rule exI [of _ cs], rule conjI [OF _ one]) (simp only: added cs(1))
qed

end
