(* ===== verification/Model_Requests.thy ===== *)
theory Model_Requests
  imports Run_Admission Domain
begin

text \<open>
  Admission of physical requests to model providers (\<open>concurrency/model_request_limiter.go\<close>,
  \<open>concurrency/model_owner.go\<close>): per-owner slots with a bounded queue, token buckets per API key and
  a global bound. As in \<open>Run_Admission\<close>, a buffered channel is its fill count, an owner entry a cell
  of a heap that goroutines hold addresses of, and every lock section and channel operation one step.

  The buckets compute in \<open>float64\<close>: every operation is the exact one on rationals followed by \<open>rnd\<close>, the
  rounding of the machine. Times and durations are nanoseconds; \<open>hash\<close> is SHA-256 in hexadecimal.
\<close>

section \<open>Token buckets\<close>

record token_bucket =
  tb_capacity :: rat
  tb_tokens :: rat
  tb_refill :: rat
  tb_last :: int

text \<open>\<open>Duration.Seconds\<close>, and the truncating conversion from \<open>float64\<close>, for values in the range of the target.\<close>

definition duration_seconds :: "(rat \<Rightarrow> rat) \<Rightarrow> int \<Rightarrow> rat" where
  "duration_seconds rnd d =
     rnd (rnd (of_int (quo d 1000000000)) + rnd (rnd (of_int (d - quo d 1000000000 * 1000000000)) / 1000000000))"

definition truncate_float :: "rat \<Rightarrow> int" where
  "truncate_float q = (if q \<ge> 0 then \<lfloor>q\<rfloor> else - \<lfloor>- q\<rfloor>)"

definition newTokenBucket :: "(rat \<Rightarrow> rat) \<Rightarrow> int \<Rightarrow> int \<Rightarrow> int \<Rightarrow> token_bucket" where
  "newTokenBucket rnd capacity period now =
     (if capacity \<le> 0 then \<lparr>tb_capacity = 0, tb_tokens = 0, tb_refill = 0, tb_last = 0\<rparr>
      else (let value = rnd (of_int capacity)
            in \<lparr>tb_capacity = value, tb_tokens = value, tb_refill = rnd (value / duration_seconds rnd period),
                tb_last = now\<rparr>))"

definition refillAt :: "(rat \<Rightarrow> rat) \<Rightarrow> int \<Rightarrow> token_bucket \<Rightarrow> token_bucket" where
  "refillAt rnd now b =
     (if tb_capacity b = 0 \<or> \<not> tb_last b < now then b
      else b\<lparr>tb_tokens := min (tb_capacity b)
               (rnd (tb_tokens b + rnd (duration_seconds rnd (time_sub now (tb_last b)) * tb_refill b))),
             tb_last := now\<rparr>)"

text \<open>The wait, whether the cost fits at all, and the bucket, which is refilled on the way.\<close>

definition waitDuration :: "(rat \<Rightarrow> rat) \<Rightarrow> int \<Rightarrow> rat \<Rightarrow> token_bucket \<Rightarrow> (int \<times> bool) \<times> token_bucket" where
  "waitDuration rnd now cost b =
     (if tb_capacity b = 0 then ((0, True), b)
      else if cost > tb_capacity b then ((0, False), b)
      else (let b = refillAt rnd now b
            in if tb_tokens b \<ge> cost then ((0, True), b)
               else ((truncate_float (rnd (rnd (rnd (cost - tb_tokens b) / tb_refill b) * 1000000000)), True), b)))"

definition consume :: "(rat \<Rightarrow> rat) \<Rightarrow> rat \<Rightarrow> token_bucket \<Rightarrow> token_bucket" where
  "consume rnd cost b = (if tb_capacity b > 0 then b\<lparr>tb_tokens := rnd (tb_tokens b - cost)\<rparr> else b)"

section \<open>One attempt to take\<close>

record key_limiter =
  kl_requests :: token_bucket
  kl_tokens :: token_bucket

datatype take_result = TakeTooLarge int | TakeWait int | TakeReady

text \<open>The lock section of \<open>take\<close> up to the check of the context.\<close>

definition try_take :: "(rat \<Rightarrow> rat) \<Rightarrow> int \<Rightarrow> int \<Rightarrow> key_limiter \<Rightarrow> take_result \<times> key_limiter" where
  "try_take rnd now cost k =
     (let ((request_wait, _), requests) = waitDuration rnd now 1 (kl_requests k);
          ((token_wait, token_ok), tokens) = waitDuration rnd now (rnd (of_int cost)) (kl_tokens k);
          k = \<lparr>kl_requests = requests, kl_tokens = tokens\<rparr>
      in if \<not> token_ok then (TakeTooLarge (truncate_float (tb_capacity tokens)), k)
         else if request_wait \<le> 0 \<and> token_wait \<le> 0 then (TakeReady, k)
         else (TakeWait (max request_wait token_wait), k))"

definition consume_both :: "(rat \<Rightarrow> rat) \<Rightarrow> int \<Rightarrow> key_limiter \<Rightarrow> key_limiter" where
  "consume_both rnd cost k =
     \<lparr>kl_requests = consume rnd 1 (kl_requests k), kl_tokens = consume rnd (rnd (of_int cost)) (kl_tokens k)\<rparr>"

section \<open>The limiter\<close>

record request_limits =
  rl_max_concurrent :: int
  rl_requests :: int
  rl_tokens :: int
  rl_period :: int
  rl_owner_max :: int
  rl_owner_queue :: int
  rl_resolver :: bool

datatype request_error =
    OwnerAdmission string
  | RequestContext context_error
  | TokenCapacity int int
  | OwnerResolver string

record owner_entry =
  oe_active :: nat
  oe_refs :: int

text \<open>
  Where the goroutine of a request stands. \<open>nat option\<close> is the owner entry whose slot it holds,
  if owners are limited. \<open>FailSlot\<close> and \<open>FailRef\<close> are the error exits of \<open>acquireOwner\<close>, \<open>ReturnGlobal\<close>
  to \<open>ReturnRef\<close> the release of permits.
\<close>

datatype request_phase =
    Arrived
  | WaitOwner nat
  | OwnerTaken nat
  | FailSlot nat request_error
  | FailRef nat request_error
  | FindKey "nat option"
  | WaitRate "nat option"
  | WaitGlobal "nat option"
  | GlobalTaken "nat option"
  | Recheck "nat option"
  | Sending "nat option"
  | ReturnGlobal "nat option"
  | ReturnSlot nat
  | ReturnRef nat
  | Ended

record model_request =
  mq_key :: string
  mq_tokens :: int
  mq_owner :: string
  mq_phase :: request_phase
  mq_error :: "request_error option"

record model_limiter =
  ml_limits :: request_limits
  ml_global_max :: nat
  ml_global :: nat
  ml_keys :: "string \<rightharpoonup> key_limiter"
  ml_owners :: "string \<rightharpoonup> nat"
  ml_heap :: "nat \<Rightarrow> owner_entry"
  ml_fresh :: nat
  ml_closed :: bool
  ml_requests :: "model_request list"

definition NewModelRequestLimiter :: "request_limits \<Rightarrow> model_limiter" where
  "NewModelRequestLimiter limits =
     (let maximum = (if rl_max_concurrent limits \<le> 0 then 1 else rl_max_concurrent limits);
          period = (if rl_period limits \<le> 0 then 60000000000 else rl_period limits)
      in \<lparr>ml_limits = limits\<lparr>rl_max_concurrent := maximum, rl_period := period\<rparr>, ml_global_max = nat maximum,
          ml_global = 0, ml_keys = Map.empty, ml_owners = Map.empty,
          ml_heap = (\<lambda>_. \<lparr>oe_active = 0, oe_refs = 0\<rparr>), ml_fresh = 0, ml_closed = False, ml_requests = []\<rparr>)"

definition waitError :: "model_limiter \<Rightarrow> request_error \<Rightarrow> request_error" where
  "waitError c e = (if ml_closed c then OwnerAdmission ''model_limiter_closed'' else e)"

text \<open>\<open>parent\<close> is the error of the caller's context, \<open>err\<close> that of the bounded wait.\<close>

definition ownerWaitError :: "context_error option \<Rightarrow> context_error \<Rightarrow> request_error" where
  "ownerWaitError parent err =
     (if parent = None \<and> err = DeadlineExceeded then OwnerAdmission ''owner_model_queue_timeout'' else RequestContext err)"

text \<open>The owner that the resolver or the context names.\<close>

definition request_owner :: "request_error + string \<Rightarrow> request_error + string" where
  "request_owner resolved =
     (case resolved of
        Inl e \<Rightarrow> Inl e
      | Inr owner \<Rightarrow> if trim_space owner = [] then Inl (OwnerAdmission ''model_owner_required'') else Inr (trim_space owner))"

definition set_owner_entry :: "nat \<Rightarrow> owner_entry \<Rightarrow> model_limiter \<Rightarrow> model_limiter" where
  "set_owner_entry a e c = c\<lparr>ml_heap := (ml_heap c)(a := e)\<rparr>"

definition owner_capacity :: "request_limits \<Rightarrow> int" where
  "owner_capacity limits = wrap64 (rl_owner_max limits + max 0 (rl_owner_queue limits))"

text \<open>The entry of an owner is found or created, and counts the reference unless it is full.\<close>

definition acquire_owner_ref :: "string \<Rightarrow> model_limiter \<Rightarrow> (request_error + nat) \<times> model_limiter" where
  "acquire_owner_ref owner c =
     (let (a, c) = (case ml_owners c owner of
          Some a \<Rightarrow> (a, c)
        | None \<Rightarrow> (ml_fresh c, set_owner_entry (ml_fresh c) \<lparr>oe_active = 0, oe_refs = 0\<rparr>
              (c\<lparr>ml_owners := (ml_owners c)(owner \<mapsto> ml_fresh c), ml_fresh := ml_fresh c + 1\<rparr>)))
      in if oe_refs (ml_heap c a) \<ge> owner_capacity (ml_limits c) then (Inl (OwnerAdmission ''owner_model_queue_full''), c)
         else (Inr a, set_owner_entry a ((ml_heap c a)\<lparr>oe_refs := oe_refs (ml_heap c a) + 1\<rparr>) c))"

definition releaseOwnerRef :: "string \<Rightarrow> nat \<Rightarrow> model_limiter \<Rightarrow> model_limiter" where
  "releaseOwnerRef owner a c =
     (let refs = oe_refs (ml_heap c a) - 1;
          c = set_owner_entry a ((ml_heap c a)\<lparr>oe_refs := refs\<rparr>) c
      in if refs = 0 then c\<lparr>ml_owners := (ml_owners c)(owner := None)\<rparr> else c)"

definition add_active :: "int \<Rightarrow> nat \<Rightarrow> model_limiter \<Rightarrow> model_limiter" where
  "add_active d a c = set_owner_entry a ((ml_heap c a)\<lparr>oe_active := nat (int (oe_active (ml_heap c a)) + d)\<rparr>) c"

definition apiKeyLimiter :: "(rat \<Rightarrow> rat) \<Rightarrow> int \<Rightarrow> string \<Rightarrow> model_limiter \<Rightarrow> model_limiter" where
  "apiKeyLimiter rnd now key c =
     (case ml_keys c key of
        Some _ \<Rightarrow> c
      | None \<Rightarrow>
          c\<lparr>ml_keys := (ml_keys c)(key \<mapsto>
            \<lparr>kl_requests = newTokenBucket rnd (rl_requests (ml_limits c)) (rl_period (ml_limits c)) now,
             kl_tokens = newTokenBucket rnd (rl_tokens (ml_limits c)) (rl_period (ml_limits c)) now\<rparr>)\<rparr>)"

section \<open>Steps of the goroutine of one request\<close>

definition set_request :: "nat \<Rightarrow> model_request \<Rightarrow> model_limiter \<Rightarrow> model_limiter" where
  "set_request i r c = c\<lparr>ml_requests := (ml_requests c)[i := r]\<rparr>"

definition to_phase :: "nat \<Rightarrow> request_phase \<Rightarrow> model_limiter \<Rightarrow> model_limiter" where
  "to_phase i p c = set_request i ((ml_requests c ! i)\<lparr>mq_phase := p\<rparr>) c"

definition refuse :: "nat \<Rightarrow> request_phase \<Rightarrow> request_error \<Rightarrow> model_limiter \<Rightarrow> model_limiter" where
  "refuse i p e c = set_request i ((ml_requests c ! i)\<lparr>mq_phase := p, mq_error := Some e\<rparr>) c"

definition to_owner :: "nat \<Rightarrow> string \<Rightarrow> nat \<Rightarrow> model_limiter \<Rightarrow> model_limiter" where
  "to_owner i owner a c = set_request i ((ml_requests c ! i)\<lparr>mq_owner := owner, mq_phase := WaitOwner a\<rparr>) c"

definition request_at :: "model_limiter \<Rightarrow> nat \<Rightarrow> request_phase option" where
  "request_at c i = (if i < length (ml_requests c) then Some (mq_phase (ml_requests c ! i)) else None)"

text \<open>The deferred or returned release of the owner's slot.\<close>

fun release_owner :: "nat option \<Rightarrow> request_phase" where
  "release_owner None = Ended"
| "release_owner (Some a) = ReturnSlot a"

definition arrived_request :: "string \<Rightarrow> int \<Rightarrow> model_request" where
  "arrived_request key tokens =
     \<lparr>mq_key = key, mq_tokens = (if tokens < 1 then 1 else tokens), mq_owner = [], mq_phase = Arrived, mq_error = None\<rparr>"

definition rate_limited :: "request_limits \<Rightarrow> string \<Rightarrow> bool" where
  "rate_limited limits key \<longleftrightarrow> trim_space key \<noteq> [] \<and> (rl_requests limits > 0 \<or> rl_tokens limits > 0)"

definition rechecked :: "request_limits \<Rightarrow> bool" where
  "rechecked limits \<longleftrightarrow> rl_resolver limits \<and> rl_owner_max limits > 0"

definition put_key :: "string \<Rightarrow> key_limiter \<Rightarrow> model_limiter \<Rightarrow> model_limiter" where
  "put_key key k c = c\<lparr>ml_keys := (ml_keys c)(key \<mapsto> k)\<rparr>"

text \<open>
  A context may end at any time, with either error; closing the limiter ends the contexts of all
  waits. The resolver may name any owner or fail.
\<close>

inductive request_step :: "(rat \<Rightarrow> rat) \<Rightarrow> (string \<Rightarrow> string) \<Rightarrow> model_limiter \<Rightarrow> model_limiter \<Rightarrow> bool"
  for rnd hash where
  rs_arrive: "request_step rnd hash c (c\<lparr>ml_requests := ml_requests c @ [arrived_request key tokens]\<rparr>)"
| rs_dead: "request_at c i = Some Arrived \<Longrightarrow> request_step rnd hash c (refuse i Ended (RequestContext e) c)"
| rs_closed: "request_at c i = Some Arrived \<Longrightarrow> ml_closed c \<Longrightarrow>
    request_step rnd hash c (refuse i Ended (OwnerAdmission ''model_limiter_closed'') c)"
| rs_unlimited: "request_at c i = Some Arrived \<Longrightarrow> rl_owner_max (ml_limits c) \<le> 0 \<Longrightarrow>
    request_step rnd hash c (to_phase i (FindKey None) c)"
| rs_no_owner: "request_at c i = Some Arrived \<Longrightarrow> rl_owner_max (ml_limits c) > 0 \<Longrightarrow> request_owner resolved = Inl e \<Longrightarrow>
    request_step rnd hash c (refuse i Ended (waitError c e) c)"
| rs_owner_full: "request_at c i = Some Arrived \<Longrightarrow> rl_owner_max (ml_limits c) > 0 \<Longrightarrow> request_owner resolved = Inr owner \<Longrightarrow>
    acquire_owner_ref owner c = (Inl e, c') \<Longrightarrow> request_step rnd hash c (refuse i Ended (waitError c' e) c')"
| rs_owner_ref: "request_at c i = Some Arrived \<Longrightarrow> rl_owner_max (ml_limits c) > 0 \<Longrightarrow> request_owner resolved = Inr owner \<Longrightarrow>
    acquire_owner_ref owner c = (Inr a, c') \<Longrightarrow> request_step rnd hash c (to_owner i owner a c')"
| rs_owner_take: "request_at c i = Some (WaitOwner a) \<Longrightarrow> int (oe_active (ml_heap c a)) < rl_owner_max (ml_limits c) \<Longrightarrow>
    request_step rnd hash c (to_phase i (OwnerTaken a) (add_active 1 a c))"
| rs_owner_gone: "request_at c i = Some (WaitOwner a) \<Longrightarrow>
    request_step rnd hash c (to_phase i (FailRef a (ownerWaitError parent err)) c)"
| rs_owner_late: "request_at c i = Some (OwnerTaken a) \<Longrightarrow>
    request_step rnd hash c (to_phase i (FailSlot a (ownerWaitError parent err)) c)"
| rs_owner_ok: "request_at c i = Some (OwnerTaken a) \<Longrightarrow> request_step rnd hash c (to_phase i (FindKey (Some a)) c)"
| rs_fail_slot: "request_at c i = Some (FailSlot a e) \<Longrightarrow> oe_active (ml_heap c a) > 0 \<Longrightarrow>
    request_step rnd hash c (to_phase i (FailRef a e) (add_active (-1) a c))"
| rs_fail_ref: "request_at c i = Some (FailRef a e) \<Longrightarrow>
    request_step rnd hash c (refuse i Ended (waitError c e) (releaseOwnerRef (mq_owner (ml_requests c ! i)) a c))"
| rs_no_rate: "request_at c i = Some (FindKey o1) \<Longrightarrow> \<not> rate_limited (ml_limits c) (mq_key (ml_requests c ! i)) \<Longrightarrow>
    request_step rnd hash c (to_phase i (WaitGlobal o1) c)"
| rs_key: "request_at c i = Some (FindKey o1) \<Longrightarrow> rate_limited (ml_limits c) (mq_key (ml_requests c ! i)) \<Longrightarrow>
    request_step rnd hash c (to_phase i (WaitRate o1) (apiKeyLimiter rnd now (hash (mq_key (ml_requests c ! i))) c))"
| rs_too_large: "request_at c i = Some (WaitRate o1) \<Longrightarrow> ml_keys c (hash (mq_key (ml_requests c ! i))) = Some k \<Longrightarrow>
    try_take rnd now (mq_tokens (ml_requests c ! i)) k = (TakeTooLarge capacity, k') \<Longrightarrow>
    request_step rnd hash c (refuse i (release_owner o1) (waitError c (TokenCapacity (mq_tokens (ml_requests c ! i)) capacity))
      (put_key (hash (mq_key (ml_requests c ! i))) k' c))"
| rs_rate_wait: "request_at c i = Some (WaitRate o1) \<Longrightarrow> ml_keys c (hash (mq_key (ml_requests c ! i))) = Some k \<Longrightarrow>
    try_take rnd now (mq_tokens (ml_requests c ! i)) k = (TakeWait d, k') \<Longrightarrow>
    request_step rnd hash c (put_key (hash (mq_key (ml_requests c ! i))) k' c)"
| rs_rate_ready: "request_at c i = Some (WaitRate o1) \<Longrightarrow> ml_keys c (hash (mq_key (ml_requests c ! i))) = Some k \<Longrightarrow>
    try_take rnd now (mq_tokens (ml_requests c ! i)) k = (TakeReady, k') \<Longrightarrow>
    request_step rnd hash c (to_phase i (WaitGlobal o1)
      (put_key (hash (mq_key (ml_requests c ! i))) (consume_both rnd (mq_tokens (ml_requests c ! i)) k') c))"
| rs_rate_dead: "request_at c i = Some (WaitRate o1) \<Longrightarrow> ml_keys c (hash (mq_key (ml_requests c ! i))) = Some k \<Longrightarrow>
    try_take rnd now (mq_tokens (ml_requests c ! i)) k = (TakeReady, k') \<Longrightarrow>
    request_step rnd hash c (refuse i (release_owner o1) (waitError c (RequestContext e))
      (put_key (hash (mq_key (ml_requests c ! i))) k' c))"
| rs_rate_gone: "request_at c i = Some (WaitRate o1) \<Longrightarrow>
    request_step rnd hash c (refuse i (release_owner o1) (waitError c (RequestContext e)) c)"
| rs_global: "request_at c i = Some (WaitGlobal o1) \<Longrightarrow> ml_global c < ml_global_max c \<Longrightarrow>
    request_step rnd hash c (to_phase i (GlobalTaken o1) (c\<lparr>ml_global := ml_global c + 1\<rparr>))"
| rs_global_gone: "request_at c i = Some (WaitGlobal o1) \<Longrightarrow>
    request_step rnd hash c (refuse i (release_owner o1) (waitError c (RequestContext e)) c)"
| rs_global_late: "request_at c i = Some (GlobalTaken o1) \<Longrightarrow>
    request_step rnd hash c (refuse i (ReturnGlobal o1) (waitError c (RequestContext e)) c)"
| rs_checked: "request_at c i = Some (GlobalTaken o1) \<Longrightarrow> \<not> ml_closed c \<Longrightarrow>
    request_step rnd hash c (to_phase i (Recheck o1) c)"
| rs_recheck_failed: "request_at c i = Some (Recheck o1) \<Longrightarrow> rechecked (ml_limits c) \<Longrightarrow>
    request_step rnd hash c (refuse i (ReturnGlobal o1) e c)"
| rs_send: "request_at c i = Some (Recheck o1) \<Longrightarrow> request_step rnd hash c (to_phase i (Sending o1) c)"
| rs_sent: "request_at c i = Some (Sending o1) \<Longrightarrow> request_step rnd hash c (to_phase i (ReturnGlobal o1) c)"
| rs_return_global: "request_at c i = Some (ReturnGlobal o1) \<Longrightarrow> ml_global c > 0 \<Longrightarrow>
    request_step rnd hash c (to_phase i (release_owner o1) (c\<lparr>ml_global := ml_global c - 1\<rparr>))"
| rs_return_slot: "request_at c i = Some (ReturnSlot a) \<Longrightarrow> oe_active (ml_heap c a) > 0 \<Longrightarrow>
    request_step rnd hash c (to_phase i (ReturnRef a) (add_active (-1) a c))"
| rs_return_ref: "request_at c i = Some (ReturnRef a) \<Longrightarrow>
    request_step rnd hash c (to_phase i Ended (releaseOwnerRef (mq_owner (ml_requests c ! i)) a c))"
| rs_close: "request_step rnd hash c (c\<lparr>ml_closed := True\<rparr>)"

inductive requests_reachable :: "(rat \<Rightarrow> rat) \<Rightarrow> (string \<Rightarrow> string) \<Rightarrow> request_limits \<Rightarrow> model_limiter \<Rightarrow> bool"
  for rnd hash limits where
  new_limiter: "requests_reachable rnd hash limits (NewModelRequestLimiter limits)"
| later: "requests_reachable rnd hash limits c \<Longrightarrow> request_step rnd hash c c' \<Longrightarrow> requests_reachable rnd hash limits c'"

end
