(* ===== verification/Request_Guarantees.thy ===== *)
theory Request_Guarantees
  imports Model_Requests Admission_Guarantees
begin

text \<open>
  What the admission of model requests guarantees in every interleaving: the global bound, the bounds
  of each owner and its queue; every permit is returned and no release blocks; and an API key is
  charged no more than its bucket holds and refills.
\<close>

section \<open>Counting requests\<close>

fun holds_global :: "request_phase \<Rightarrow> bool" where
  "holds_global (GlobalTaken o1) = True"
| "holds_global (Recheck o1) = True"
| "holds_global (Sending o1) = True"
| "holds_global (ReturnGlobal o1) = True"
| "holds_global _ = False"

fun slot_of :: "request_phase \<Rightarrow> nat option" where
  "slot_of (OwnerTaken a) = Some a"
| "slot_of (FailSlot a e) = Some a"
| "slot_of (FindKey o1) = o1"
| "slot_of (WaitRate o1) = o1"
| "slot_of (WaitGlobal o1) = o1"
| "slot_of (GlobalTaken o1) = o1"
| "slot_of (Recheck o1) = o1"
| "slot_of (Sending o1) = o1"
| "slot_of (ReturnGlobal o1) = o1"
| "slot_of (ReturnSlot a) = Some a"
| "slot_of _ = None"

fun reference_of :: "request_phase \<Rightarrow> nat option" where
  "reference_of (WaitOwner a) = Some a"
| "reference_of (FailRef a e) = Some a"
| "reference_of (ReturnRef a) = Some a"
| "reference_of p = slot_of p"

definition in_phase :: "(request_phase \<Rightarrow> bool) \<Rightarrow> model_limiter \<Rightarrow> int" where
  "in_phase P c = int (length (filter (\<lambda>r. P (mq_phase r)) (ml_requests c)))"

lemma in_phase_set:
  "i < length (ml_requests c) \<Longrightarrow> in_phase P (set_request i r c) =
     in_phase P c - (if P (mq_phase (ml_requests c ! i)) then 1 else 0) + (if P (mq_phase r) then 1 else 0)"
  by (simp add: in_phase_def set_request_def filter_update)

lemma in_phase_nonneg: "0 \<le> in_phase P c"
  by (simp add: in_phase_def)

lemma in_phase_member: "i < length (ml_requests c) \<Longrightarrow> P (mq_phase (ml_requests c ! i)) \<Longrightarrow> 1 \<le> in_phase P c"
  using nth_mem [of i "ml_requests c"] by (fastforce simp: in_phase_def filter_empty_conv Suc_le_eq)

lemma in_phase_cong: "ml_requests c = ml_requests d \<Longrightarrow> in_phase P c = in_phase P d"
  by (simp add: in_phase_def)

lemma in_phase_mono: "(\<And>p. P p \<Longrightarrow> Q p) \<Longrightarrow> in_phase P c \<le> in_phase Q c"
  unfolding in_phase_def by (induction "ml_requests c" arbitrary: c) (auto simp: length_filter_conv_card intro!: card_mono)

section \<open>The invariant\<close>

definition global_ok :: "model_limiter \<Rightarrow> bool" where
  "global_ok c \<longleftrightarrow> int (ml_global c) = in_phase holds_global c \<and> ml_global c \<le> ml_global_max c"

definition cells_hold :: "model_limiter \<Rightarrow> bool" where
  "cells_hold c \<longleftrightarrow> (\<forall>a. in_phase (\<lambda>p. slot_of p = Some a) c = int (oe_active (ml_heap c a))
     \<and> in_phase (\<lambda>p. reference_of p = Some a) c = oe_refs (ml_heap c a)
     \<and> int (oe_active (ml_heap c a)) \<le> max 0 (rl_owner_max (ml_limits c))
     \<and> oe_refs (ml_heap c a) \<le> max 0 (owner_capacity (ml_limits c)))"

definition owners_hold :: "model_limiter \<Rightarrow> bool" where
  "owners_hold c \<longleftrightarrow> (\<forall>a. ml_fresh c \<le> a \<longrightarrow> oe_refs (ml_heap c a) = 0)
     \<and> (\<forall>owner a. ml_owners c owner = Some a \<longrightarrow> a < ml_fresh c \<and> oe_refs (ml_heap c a) > 0
          \<and> (\<forall>other. ml_owners c other = Some a \<longrightarrow> other = owner))
     \<and> (\<forall>r \<in> set (ml_requests c). \<forall>a. reference_of (mq_phase r) = Some a \<longrightarrow> ml_owners c (mq_owner r) = Some a)"

definition limiter_ok :: "model_limiter \<Rightarrow> bool" where
  "limiter_ok c \<longleftrightarrow> global_ok c \<and> cells_hold c \<and> owners_hold c"

lemma slot_reference: "slot_of p = Some a \<Longrightarrow> reference_of p = Some a"
  by (cases p) auto

lemma limiter_fields [simp]:
  "ml_requests (set_request i r c) = (ml_requests c)[i := r]" "ml_heap (set_request i r c) = ml_heap c"
  "ml_global (set_request i r c) = ml_global c" "ml_global_max (set_request i r c) = ml_global_max c"
  "ml_owners (set_request i r c) = ml_owners c" "ml_fresh (set_request i r c) = ml_fresh c"
  "ml_limits (set_request i r c) = ml_limits c" "ml_closed (set_request i r c) = ml_closed c"
  "ml_requests (set_owner_entry a e c) = ml_requests c" "ml_heap (set_owner_entry a e c) = (ml_heap c)(a := e)"
  "ml_global (set_owner_entry a e c) = ml_global c" "ml_global_max (set_owner_entry a e c) = ml_global_max c"
  "ml_owners (set_owner_entry a e c) = ml_owners c" "ml_fresh (set_owner_entry a e c) = ml_fresh c"
  "ml_limits (set_owner_entry a e c) = ml_limits c" "ml_closed (set_owner_entry a e c) = ml_closed c"
  by (simp_all add: set_request_def set_owner_entry_def)

lemma request_at_Some: "request_at c i = Some p \<longleftrightarrow> i < length (ml_requests c) \<and> mq_phase (ml_requests c ! i) = p"
  by (auto simp: request_at_def)

text \<open>A request that holds a reference keeps its entry alive, and the entry is that of its owner.\<close>

lemma holder_entry:
  assumes "limiter_ok c" and "request_at c i = Some p" and "reference_of p = Some a"
  shows "ml_owners c (mq_owner (ml_requests c ! i)) = Some a" and "oe_refs (ml_heap c a) > 0" and "a < ml_fresh c"
proof -
  have "ml_requests c ! i \<in> set (ml_requests c)" using assms(2) by (simp add: request_at_Some)
  then show o: "ml_owners c (mq_owner (ml_requests c ! i)) = Some a"
    using assms by (simp add: limiter_ok_def owners_hold_def request_at_Some)
  then show "oe_refs (ml_heap c a) > 0" "a < ml_fresh c" using assms(1) by (auto simp: limiter_ok_def owners_hold_def)
qed

text \<open>The parts of the limiter that a lock section leaves alone.\<close>

lemma section_fields [simp]:
  "ml_requests (put_key key k c) = ml_requests c" "ml_requests (apiKeyLimiter rnd now key c) = ml_requests c"
  "ml_requests (add_active d a c) = ml_requests c" "ml_requests (releaseOwnerRef owner a c) = ml_requests c"
  "ml_global (put_key key k c) = ml_global c" "ml_global (apiKeyLimiter rnd now key c) = ml_global c"
  "ml_global (add_active d a c) = ml_global c" "ml_global (releaseOwnerRef owner a c) = ml_global c"
  "ml_global_max (put_key key k c) = ml_global_max c" "ml_global_max (apiKeyLimiter rnd now key c) = ml_global_max c"
  "ml_global_max (add_active d a c) = ml_global_max c" "ml_global_max (releaseOwnerRef owner a c) = ml_global_max c"
  "ml_limits (put_key key k c) = ml_limits c" "ml_limits (apiKeyLimiter rnd now key c) = ml_limits c"
  "ml_limits (add_active d a c) = ml_limits c" "ml_limits (releaseOwnerRef owner a c) = ml_limits c"
  "ml_heap (put_key key k c) = ml_heap c" "ml_heap (apiKeyLimiter rnd now key c) = ml_heap c"
  "ml_owners (put_key key k c) = ml_owners c" "ml_owners (apiKeyLimiter rnd now key c) = ml_owners c"
  "ml_fresh (put_key key k c) = ml_fresh c" "ml_fresh (apiKeyLimiter rnd now key c) = ml_fresh c"
  "ml_owners (add_active d a c) = ml_owners c" "ml_fresh (add_active d a c) = ml_fresh c"
  "ml_fresh (releaseOwnerRef owner a c) = ml_fresh c"
  by (simp_all add: put_key_def apiKeyLimiter_def add_active_def releaseOwnerRef_def Let_def split: option.splits)

lemma acquire_fields:
  assumes "acquire_owner_ref owner c = (r, c')"
  shows "ml_requests c' = ml_requests c \<and> ml_global c' = ml_global c \<and> ml_global_max c' = ml_global_max c
    \<and> ml_limits c' = ml_limits c"
  using assms by (auto simp: acquire_owner_ref_def Let_def split: option.splits if_splits)

lemma in_phase_requests [simp]:
  "in_phase P (put_key key k c) = in_phase P c" "in_phase P (apiKeyLimiter rnd now key c) = in_phase P c"
  "in_phase P (add_active d a c) = in_phase P c" "in_phase P (releaseOwnerRef owner a c) = in_phase P c"
  "in_phase P (set_owner_entry a e c) = in_phase P c"
  "in_phase P (c\<lparr>ml_global := n\<rparr>) = in_phase P c" "in_phase P (c\<lparr>ml_closed := b\<rparr>) = in_phase P c"
  by (simp_all add: in_phase_def)

lemma in_phase_arrived [simp]:
  "in_phase P (c\<lparr>ml_requests := ml_requests c @ [arrived_request key tokens]\<rparr>) = in_phase P c + (if P Arrived then 1 else 0)"
  by (simp add: in_phase_def arrived_request_def)

lemma release_phases [simp]:
  "holds_global (release_owner o1) = False" "slot_of (release_owner o1) = o1" "reference_of (release_owner o1) = o1"
  by (cases o1; simp)+

lemmas phase_steps = to_phase_def refuse_def to_owner_def in_phase_set request_at_Some

section \<open>The global bound\<close>

lemma global_step:
  assumes "request_step rnd hash c c'" and "global_ok c"
  shows "global_ok c'"
  using assms
proof cases
  case (rs_owner_full i resolved owner e c1)
  then show ?thesis using assms(2) acquire_fields [OF rs_owner_full(5)] in_phase_cong [of c1 c]
    by (auto simp: global_ok_def phase_steps)
next
  case (rs_owner_ref i resolved owner a c1)
  then show ?thesis using assms(2) acquire_fields [OF rs_owner_ref(5)] in_phase_cong [of c1 c]
    by (auto simp: global_ok_def phase_steps)
next
  case (rs_return_global i o1)
  then show ?thesis using assms(2) in_phase_member [of i c holds_global]
    by (auto simp: global_ok_def phase_steps of_nat_diff)
qed (use assms(2) in \<open>auto simp: global_ok_def phase_steps\<close>)

section \<open>The entries of the owners\<close>

lemma release_heap_entry:
  "ml_heap (releaseOwnerRef owner a c) = (ml_heap c)(a := (ml_heap c a)\<lparr>oe_refs := oe_refs (ml_heap c a) - 1\<rparr>)"
  "ml_owners (releaseOwnerRef owner a c) = (if oe_refs (ml_heap c a) = 1 then (ml_owners c)(owner := None) else ml_owners c)"
  by (simp_all add: releaseOwnerRef_def Let_def)

lemma unused_entry:
  assumes "cells_hold c" and "oe_refs (ml_heap c a) = 0"
  shows "ml_heap c a = \<lparr>oe_active = 0, oe_refs = 0\<rparr>"
proof -
  have "in_phase (\<lambda>p. slot_of p = Some a) c \<le> in_phase (\<lambda>p. reference_of p = Some a) c"
    by (rule in_phase_mono) (rule slot_reference)
  then have "oe_active (ml_heap c a) = 0" using assms by (simp add: cells_hold_def)
  then show ?thesis using assms(2) by simp
qed

lemma acquire_Inr:
  assumes "acquire_owner_ref owner c = (Inr a, c')" and "cells_hold c" and "owners_hold c"
  shows "ml_heap c' = (ml_heap c)(a := (ml_heap c a)\<lparr>oe_refs := oe_refs (ml_heap c a) + 1\<rparr>)"
    and "oe_refs (ml_heap c a) < owner_capacity (ml_limits c)" and "ml_owners c' = (ml_owners c)(owner \<mapsto> a)"
    and "a < ml_fresh c'" and "ml_fresh c \<le> ml_fresh c'" and "ml_owners c owner = None \<Longrightarrow> a = ml_fresh c"
    and "ml_owners c owner = None \<or> ml_owners c owner = Some a"
proof -
  have fresh: "ml_heap c (ml_fresh c) = \<lparr>oe_active = 0, oe_refs = 0\<rparr>"
    using assms(3) by (intro unused_entry [OF assms(2)]) (simp add: owners_hold_def)
  have old: "b < ml_fresh c" if "ml_owners c owner = Some b" for b using assms(3) that by (simp add: owners_hold_def)
  show "ml_heap c' = (ml_heap c)(a := (ml_heap c a)\<lparr>oe_refs := oe_refs (ml_heap c a) + 1\<rparr>)"
    and "oe_refs (ml_heap c a) < owner_capacity (ml_limits c)" and "ml_owners c' = (ml_owners c)(owner \<mapsto> a)"
    and "a < ml_fresh c'" and "ml_fresh c \<le> ml_fresh c'" and "ml_owners c owner = None \<Longrightarrow> a = ml_fresh c"
    and "ml_owners c owner = None \<or> ml_owners c owner = Some a"
    using assms(1) fresh old
    by (auto simp: acquire_owner_ref_def Let_def fun_upd_idem split: option.splits if_splits)
qed

lemma acquire_Inl:
  assumes "acquire_owner_ref owner c = (Inl e, c')" and "0 < owner_capacity (ml_limits c)"
  shows "c' = c"
  using assms by (auto simp: acquire_owner_ref_def Let_def split: option.splits if_splits)

lemma cell_limit:
  "cells_hold c \<Longrightarrow> in_phase (\<lambda>p. reference_of p = Some a) c \<le> max 0 (owner_capacity (ml_limits c))"
  by (simp add: cells_hold_def)

lemma cell_bounds:
  "cells_hold c \<Longrightarrow> int (oe_active (ml_heap c a)) - 1 \<le> max 0 (rl_owner_max (ml_limits c))
     \<and> oe_refs (ml_heap c a) - 1 \<le> max 0 (owner_capacity (ml_limits c))"
proof -
  assume "cells_hold c"
  then have "int (oe_active (ml_heap c a)) \<le> max 0 (rl_owner_max (ml_limits c))"
    and "oe_refs (ml_heap c a) \<le> max 0 (owner_capacity (ml_limits c))"
    by (simp_all add: cells_hold_def)
  then show ?thesis by linarith
qed

lemma cells_step:
  assumes "request_step rnd hash c c'" and "cells_hold c" and "owners_hold c"
    and "0 < rl_owner_max (ml_limits c) \<longrightarrow> 0 < owner_capacity (ml_limits c)"
  shows "cells_hold c'"
  using assms(1)
proof cases
  case (rs_owner_full i resolved owner e c1)
  then have "c1 = c" using acquire_Inl assms(4) by blast
  then show ?thesis using assms(2) rs_owner_full by (auto simp: cells_hold_def phase_steps)
next
  case (rs_owner_ref i resolved owner a c1)
  note acq = acquire_Inr [OF rs_owner_ref(5) assms(2,3)] and same = acquire_fields [OF rs_owner_ref(5)]
  have "in_phase P c1 = in_phase P c" for P using same by (simp add: in_phase_def)
  then show ?thesis using assms(2) rs_owner_ref(1,2) same acq(1,2)
    by (auto simp: cells_hold_def phase_steps)
next
  case (rs_fail_slot i a e)
  then show ?thesis using assms(2) cell_bounds [OF assms(2), of a] by (auto simp: cells_hold_def phase_steps add_active_def of_nat_diff)
next
  case (rs_return_slot i a)
  then show ?thesis using assms(2) cell_bounds [OF assms(2), of a] by (auto simp: cells_hold_def phase_steps add_active_def of_nat_diff)
next
  case (rs_fail_ref i a e)
  then show ?thesis using assms(2) cell_bounds [OF assms(2), of a] by (auto simp: cells_hold_def phase_steps release_heap_entry)
next
  case (rs_return_ref i a)
  then show ?thesis using assms(2) cell_bounds [OF assms(2), of a] by (auto simp: cells_hold_def phase_steps release_heap_entry)
qed (use assms(2) in \<open>auto simp: cells_hold_def phase_steps add_active_def\<close>)

lemma owners_holdI:
  assumes "\<And>a. ml_fresh c \<le> a \<Longrightarrow> oe_refs (ml_heap c a) = 0"
    and "\<And>owner a. ml_owners c owner = Some a \<Longrightarrow> a < ml_fresh c \<and> oe_refs (ml_heap c a) > 0"
    and "\<And>owner other a. ml_owners c owner = Some a \<Longrightarrow> ml_owners c other = Some a \<Longrightarrow> other = owner"
    and "\<And>r a. r \<in> set (ml_requests c) \<Longrightarrow> reference_of (mq_phase r) = Some a \<Longrightarrow> ml_owners c (mq_owner r) = Some a"
  shows "owners_hold c"
  using assms unfolding owners_hold_def by blast

lemma owners_holdD:
  assumes "owners_hold c"
  shows "ml_fresh c \<le> a \<Longrightarrow> oe_refs (ml_heap c a) = 0"
    and "ml_owners c owner = Some a \<Longrightarrow> a < ml_fresh c" and "ml_owners c owner = Some a \<Longrightarrow> oe_refs (ml_heap c a) > 0"
    and "ml_owners c owner = Some a \<Longrightarrow> ml_owners c other = Some a \<Longrightarrow> other = owner"
    and "r \<in> set (ml_requests c) \<Longrightarrow> reference_of (mq_phase r) = Some a \<Longrightarrow> ml_owners c (mq_owner r) = Some a"
  using assms unfolding owners_hold_def by blast+

text \<open>A step that leaves the entries alone, up to the slots in use, and gives no request a new reference.\<close>

lemma owners_kept:
  assumes own: "owners_hold c" and "\<And>a. oe_refs (ml_heap c' a) = oe_refs (ml_heap c a)" and "ml_owners c' = ml_owners c"
    and "ml_fresh c' = ml_fresh c" and "ml_requests c' = (ml_requests c)[i := r]" and "i < length (ml_requests c)"
    and "mq_owner r = mq_owner (ml_requests c ! i)"
    and "reference_of (mq_phase r) = None \<or> reference_of (mq_phase r) = reference_of (mq_phase (ml_requests c ! i))"
  shows "owners_hold c'"
proof (rule owners_holdI, goal_cases)
  case (4 q a)
  then have "q = r \<or> q \<in> set (ml_requests c)" using assms(5) set_update_subset_insert [of "ml_requests c" i r] by auto
  then show ?case using 4(2) owners_holdD(5) [OF own] nth_mem [OF assms(6)] assms(3,7,8) by fastforce
qed (use owners_holdD(1-4) [OF own] assms(2-4) in auto)

text \<open>Dropping a reference; the entry leaves the map with the last one.\<close>

lemma owners_released:
  assumes own: "owners_hold c" and cells: "cells_hold c" and at: "request_at c i = Some p" and "reference_of p = Some a"
    and "reference_of (mq_phase r) = None"
  shows "owners_hold (set_request i r (releaseOwnerRef (mq_owner (ml_requests c ! i)) a c))"
proof -
  let ?o = "mq_owner (ml_requests c ! i)" and ?refs = "oe_refs (ml_heap c a)"
  let ?c = "set_request i r (releaseOwnerRef ?o a c)"
  have i: "i < length (ml_requests c)" "mq_phase (ml_requests c ! i) = p" using at by (simp_all add: request_at_Some)
  have o: "ml_owners c ?o = Some a"
    using owners_holdD(5) [OF own nth_mem [OF i(1)]] assms(4) i(2) by simp
  note pos = owners_holdD(2,3) [OF own o]
  have "in_phase (\<lambda>p. reference_of p = Some a) (set_request i r c) = ?refs - 1"
    using cells assms(4,5) i by (simp add: in_phase_set cells_hold_def)
  then have last: "reference_of (mq_phase q) \<noteq> Some a" if "?refs = 1" "q \<in> set ((ml_requests c)[i := r])" for q
    using that by (auto simp: in_phase_def filter_empty_conv)
  have owners: "ml_owners ?c = (if ?refs = 1 then (ml_owners c)(?o := None) else ml_owners c)"
    and heap: "ml_heap ?c = (ml_heap c)(a := (ml_heap c a)\<lparr>oe_refs := ?refs - 1\<rparr>)" by (simp_all add: release_heap_entry)
  show ?thesis
  proof (rule owners_holdI, goal_cases)
    case (1 b)
    then show ?case using owners_holdD(1) [OF own, of b] pos unfolding heap by auto
  next
    case (2 owner b)
    then have "ml_owners c owner = Some b" "?refs = 1 \<longrightarrow> owner \<noteq> ?o" unfolding owners by (auto split: if_splits)
    moreover from this have "b = a \<Longrightarrow> owner = ?o" using owners_holdD(4) [OF own o] by blast
    ultimately show ?case using owners_holdD(2,3) [OF own, of owner b] pos unfolding heap by auto
  next
    case (3 owner other b)
    then show ?case using owners_holdD(4) [OF own] unfolding owners by (auto split: if_splits)
  next
    case (4 q b)
    have "q \<noteq> r" using 4(2) assms(5) by auto
    then have q: "q \<in> set (ml_requests c)" using 4(1) set_update_subset_insert [of "ml_requests c" i r] by auto
    note qb = owners_holdD(5) [OF own q 4(2)]
    have "mq_owner q \<noteq> ?o" if "?refs = 1"
    proof
      assume "mq_owner q = ?o"
      then have "b = a" using qb o by simp
      then show False using last [OF that, of q] 4 by simp
    qed
    then show ?case using qb unfolding owners by auto
  qed
qed

lemma owners_acquired:
  assumes own: "owners_hold c" and cells: "cells_hold c" and at: "request_at c i = Some Arrived"
    and acq: "acquire_owner_ref owner c = (Inr a, c1)"
  shows "owners_hold (to_owner i owner a c1)"
proof -
  note acq' = acquire_Inr [OF acq cells own]
  have requests: "ml_requests c1 = ml_requests c" using acquire_fields [OF acq] by simp
  let ?r = "(ml_requests c ! i)\<lparr>mq_owner := owner, mq_phase := WaitOwner a\<rparr>"
  let ?c = "to_owner i owner a c1"
  have fields: "ml_requests ?c = (ml_requests c)[i := ?r]" "ml_owners ?c = (ml_owners c)(owner \<mapsto> a)"
    "ml_fresh ?c = ml_fresh c1" "ml_heap ?c = (ml_heap c)(a := (ml_heap c a)\<lparr>oe_refs := oe_refs (ml_heap c a) + 1\<rparr>)"
    using acq'(1,3) requests by (simp_all add: to_owner_def)
  have known: "other = owner" if "ml_owners c other = Some a" for other
  proof (cases "ml_owners c owner = None")
    case True
    then show ?thesis using acq'(6) owners_holdD(2) [OF own that] by simp
  next
    case False
    then have "ml_owners c owner = Some a" using acq'(7) by (elim disjE) simp_all
    then show ?thesis by (rule owners_holdD(4) [OF own _ that])
  qed
  have pos: "0 \<le> oe_refs (ml_heap c a)"
    using cells in_phase_nonneg by (metis cells_hold_def)
  show ?thesis
  proof (rule owners_holdI, goal_cases)
    case (1 b)
    then show ?case using owners_holdD(1) [OF own, of b] acq'(4,5) unfolding fields by auto
  next
    case (2 other b)
    then show ?case using owners_holdD(2,3) [OF own, of other b] acq'(4,5) pos unfolding fields by (auto split: if_splits)
  next
    case (3 o1 o2 b)
    then show ?case using owners_holdD(4) [OF own, of o1 b o2] known unfolding fields by (auto split: if_splits)
  next
    case (4 q b)
    show ?case
    proof (cases "q = ?r")
      case True
      then show ?thesis using 4(2) unfolding fields by simp
    next
      case False
      then have q: "q \<in> set (ml_requests c)"
        using 4(1) set_update_subset_insert [of "ml_requests c" i ?r] unfolding fields by auto
      note qb = owners_holdD(5) [OF own q 4(2)]
      then show ?thesis using acq'(7) unfolding fields by auto
    qed
  qed
qed

lemma owners_phase:
  assumes "owners_hold c" and "request_at c i = Some q" and "reference_of p = None \<or> reference_of p = reference_of q"
    and "ml_requests c1 = ml_requests c" and "\<And>a. oe_refs (ml_heap c1 a) = oe_refs (ml_heap c a)"
    and "ml_owners c1 = ml_owners c" and "ml_fresh c1 = ml_fresh c"
  shows "owners_hold (to_phase i p c1)" and "owners_hold (refuse i p e c1)"
proof -
  have i: "i < length (ml_requests c)" "mq_phase (ml_requests c ! i) = q" using assms(2) by (simp_all add: request_at_Some)
  show "owners_hold (to_phase i p c1)" unfolding to_phase_def
    by (rule owners_kept [OF assms(1), where i = i and r = "(ml_requests c1 ! i)\<lparr>mq_phase := p\<rparr>"])
      (use assms i in simp_all)
  show "owners_hold (refuse i p e c1)" unfolding refuse_def
    by (rule owners_kept [OF assms(1), where i = i and r = "(ml_requests c1 ! i)\<lparr>mq_phase := p, mq_error := Some e\<rparr>"])
      (use assms i in simp_all)
qed

lemma owners_step:
  assumes step: "request_step rnd hash c c'" and own: "owners_hold c" and cells: "cells_hold c"
    and capacity: "0 < rl_owner_max (ml_limits c) \<longrightarrow> 0 < owner_capacity (ml_limits c)"
  shows "owners_hold c'"
  using step
proof cases
  case (rs_arrive key tokens)
  then show ?thesis using own by (auto simp: owners_hold_def arrived_request_def)
next
  case (rs_owner_full i resolved owner e c1)
  then have "c1 = c" using acquire_Inl capacity by blast
  then show ?thesis using rs_owner_full owners_phase(2) [OF own, of i Arrived Ended c] by simp
next
  case (rs_owner_ref i resolved owner a c1)
  then show ?thesis using owners_acquired [OF own cells] by blast
next
  case (rs_fail_ref i a e)
  then show ?thesis unfolding refuse_def
    using owners_released [OF own cells rs_fail_ref(2)] by simp
next
  case (rs_return_ref i a)
  then show ?thesis unfolding to_phase_def
    using owners_released [OF own cells rs_return_ref(2)] by simp
next
  case (rs_rate_wait i o1 k now d k')
  then show ?thesis using own by (simp add: owners_hold_def)
next
  case rs_close
  then show ?thesis using own by (simp add: owners_hold_def)
qed (hypsubst; erule owners_phase [OF own]; simp add: add_active_def)+

lemma request_step_limits: "request_step rnd hash c c' \<Longrightarrow> ml_limits c' = ml_limits c \<and> ml_global_max c' = ml_global_max c"
  by (cases rule: request_step.cases, assumption)
    (auto simp: to_phase_def refuse_def to_owner_def dest: acquire_fields)

lemma new_limiter_ok: "limiter_ok (NewModelRequestLimiter limits)"
  by (simp add: limiter_ok_def global_ok_def cells_hold_def owners_hold_def NewModelRequestLimiter_def Let_def in_phase_def)

lemma owner_capacity_positive:
  assumes "rl_owner_max limits + max 0 (rl_owner_queue limits) \<le> max_int64"
  shows "0 < rl_owner_max limits \<longrightarrow> owner_capacity limits = rl_owner_max limits + max 0 (rl_owner_queue limits)"
  using assms by (auto simp: owner_capacity_def min_int64_def intro!: wrap64_id)

text \<open>The limits in force: a missing global limit is 1.\<close>

lemma reachable_limiter:
  assumes "requests_reachable rnd hash limits c"
    and bound: "rl_owner_max limits + max 0 (rl_owner_queue limits) \<le> max_int64"
  shows "limiter_ok c \<and> rl_owner_max (ml_limits c) = rl_owner_max limits \<and> rl_owner_queue (ml_limits c) = rl_owner_queue limits
    \<and> int (ml_global_max c) = (if rl_max_concurrent limits \<le> 0 then 1 else rl_max_concurrent limits)"
  using assms(1)
proof induction
  case new_limiter
  then show ?case using new_limiter_ok by (simp add: NewModelRequestLimiter_def Let_def)
next
  case (later c c')
  then have "owner_capacity (ml_limits c) = owner_capacity limits" by (simp add: owner_capacity_def)
  then have "0 < rl_owner_max (ml_limits c) \<longrightarrow> 0 < owner_capacity (ml_limits c)"
    using owner_capacity_positive [OF bound] later by auto
  then show ?case
    using later global_step cells_step owners_step request_step_limits by (auto simp: limiter_ok_def)
qed

section \<open>The limits hold\<close>

definition of_owner :: "string \<Rightarrow> (request_phase \<Rightarrow> nat option) \<Rightarrow> model_limiter \<Rightarrow> int" where
  "of_owner owner held c = int (length (filter (\<lambda>r. held (mq_phase r) \<noteq> None \<and> mq_owner r = owner) (ml_requests c)))"

lemma of_owner_le:
  assumes "limiter_ok c" and "\<And>p a. held p = Some a \<Longrightarrow> reference_of p = Some a" and "ml_owners c owner = Some a"
  shows "of_owner owner held c \<le> in_phase (\<lambda>p. held p = Some a) c"
proof -
  have "filter (\<lambda>r. held (mq_phase r) \<noteq> None \<and> mq_owner r = owner) (ml_requests c)
      = filter (\<lambda>r. held (mq_phase r) = Some a \<and> mq_owner r = owner) (ml_requests c)"
  proof (rule filter_cong [OF refl])
    fix r assume r: "r \<in> set (ml_requests c)"
    show "(held (mq_phase r) \<noteq> None \<and> mq_owner r = owner) = (held (mq_phase r) = Some a \<and> mq_owner r = owner)"
    proof (cases "held (mq_phase r)")
      case (Some b)
      then have "mq_owner r = owner \<Longrightarrow> ml_owners c owner = Some b"
        using owners_holdD(5) [of c r b] assms(1,2) r by (auto simp: limiter_ok_def)
      then show ?thesis using Some assms(3) by auto
    qed simp
  qed
  moreover have "length (filter (\<lambda>r. P r \<and> Q r) xs) \<le> length (filter P xs)" for P Q and xs :: "model_request list"
    by (induction xs) auto
  ultimately show ?thesis by (simp add: of_owner_def in_phase_def)
qed

lemma of_owner_absent:
  assumes "limiter_ok c" and "\<And>p a. held p = Some a \<Longrightarrow> reference_of p = Some a" and "ml_owners c owner = None"
  shows "of_owner owner held c = 0"
proof -
  have "\<not> (held (mq_phase r) \<noteq> None \<and> mq_owner r = owner)" if "r \<in> set (ml_requests c)" for r
    using owners_holdD(5) [of c r] assms that by (fastforce simp: limiter_ok_def)
  then show ?thesis by (simp add: of_owner_def filter_empty_conv)
qed

text \<open>
  C25: in every interleaving of requests, waits that end, and releases, at most \<open>MaxConcurrent\<close> requests
  hold a global permit, each owner has at most \<open>OwnerMaxConcurrent\<close> requests that hold one of its slots
  and at most \<open>OwnerQueueSize\<close> more that wait for one. A request that is being sent counts in both.
\<close>

theorem request_limits_hold:
  assumes "requests_reachable rnd hash limits c"
    and "rl_owner_max limits + max 0 (rl_owner_queue limits) \<le> max_int64"
  shows "in_phase holds_global c \<le> (if rl_max_concurrent limits \<le> 0 then 1 else rl_max_concurrent limits)
    \<and> of_owner owner slot_of c \<le> max 0 (rl_owner_max limits)
    \<and> (0 < rl_owner_max limits \<longrightarrow>
         of_owner owner reference_of c \<le> rl_owner_max limits + max 0 (rl_owner_queue limits))"
proof -
  note r = reachable_limiter [OF assms]
  then have ok: "limiter_ok c" by blast
  have "in_phase holds_global c \<le> int (ml_global_max c)" using ok by (simp add: limiter_ok_def global_ok_def)
  moreover have "of_owner owner slot_of c \<le> max 0 (rl_owner_max limits)"
  proof (cases "ml_owners c owner")
    case None
    have "of_owner owner slot_of c = 0" by (rule of_owner_absent [OF ok _ None]) (rule slot_reference)
    then show ?thesis by simp
  next
    case (Some a)
    have "in_phase (\<lambda>p. slot_of p = Some a) c \<le> max 0 (rl_owner_max limits)"
      using ok r by (simp add: limiter_ok_def cells_hold_def)
    moreover have "of_owner owner slot_of c \<le> in_phase (\<lambda>p. slot_of p = Some a) c"
      by (rule of_owner_le [OF ok _ Some]) (rule slot_reference)
    ultimately show ?thesis by linarith
  qed
  moreover have "of_owner owner reference_of c \<le> rl_owner_max limits + max 0 (rl_owner_queue limits)"
    if pos: "0 < rl_owner_max limits"
  proof (cases "ml_owners c owner")
    case None
    show ?thesis using of_owner_absent [OF ok _ None, of reference_of] pos by simp
  next
    case (Some a)
    have "owner_capacity (ml_limits c) = rl_owner_max limits + max 0 (rl_owner_queue limits)"
      using owner_capacity_positive [OF assms(2)] pos r by (simp add: owner_capacity_def)
    then have "in_phase (\<lambda>p. reference_of p = Some a) c \<le> rl_owner_max limits + max 0 (rl_owner_queue limits)"
      using ok pos cell_limit [of c a] by (auto simp: limiter_ok_def)
    then show ?thesis using of_owner_le [OF ok _ Some, of reference_of] by linarith
  qed
  ultimately show ?thesis using r by simp
qed

section \<open>Permits are returned\<close>

text \<open>The steps of its own that a request that gives its permits back has left.\<close>

fun steps_left :: "request_phase \<Rightarrow> nat" where
  "steps_left (FailSlot a e) = 2"
| "steps_left (FailRef a e) = 1"
| "steps_left (ReturnGlobal None) = 1"
| "steps_left (ReturnGlobal (Some a)) = 3"
| "steps_left (ReturnSlot a) = 2"
| "steps_left (ReturnRef a) = 1"
| "steps_left _ = 0"

lemma active_positive:
  assumes "limiter_ok c" and "request_at c i = Some p" and "slot_of p = Some a"
  shows "oe_active (ml_heap c a) > 0"
proof -
  have "1 \<le> in_phase (\<lambda>p. slot_of p = Some a) c"
    using assms(2,3) in_phase_member [of i c "\<lambda>p. slot_of p = Some a"] by (simp add: request_at_Some)
  then show ?thesis using assms(1) by (simp add: limiter_ok_def cells_hold_def)
qed

lemma at_to_phase: "request_at c i = Some q \<Longrightarrow> ml_requests c1 = ml_requests c \<Longrightarrow> request_at (to_phase i p c1) i = Some p"
  by (simp add: request_at_def to_phase_def split: if_splits)

lemma at_refuse: "request_at c i = Some q \<Longrightarrow> ml_requests c1 = ml_requests c \<Longrightarrow> request_at (refuse i p e c1) i = Some p"
  by (simp add: request_at_def refuse_def split: if_splits)

lemma release_step:
  assumes ok: "limiter_ok c" and at: "request_at c i = Some p" and "steps_left p = Suc n"
  shows "\<exists>c' q. request_step rnd hash c c' \<and> request_at c' i = Some q \<and> steps_left q = n \<and> (n = 0 \<longrightarrow> q = Ended)"
proof (cases p)
  case (FailSlot a e)
  note pos = active_positive [OF ok at [unfolded FailSlot], of a, simplified]
  show ?thesis
    using rs_fail_slot [OF at [unfolded FailSlot] pos] at_to_phase [OF at, of "add_active (-1) a c"] assms(3) FailSlot by fastforce
next
  case (FailRef a e)
  then show ?thesis
    using rs_fail_ref [OF at [unfolded FailRef]] at_refuse [OF at, of "releaseOwnerRef (mq_owner (ml_requests c ! i)) a c"]
      assms(3) by fastforce
next
  case (ReturnGlobal o1)
  have "1 \<le> in_phase holds_global c"
    using at ReturnGlobal in_phase_member [of i c holds_global] by (simp add: request_at_Some)
  then have "ml_global c > 0" using ok by (simp add: limiter_ok_def global_ok_def)
  note step = rs_return_global [OF at [unfolded ReturnGlobal] this]
    and moved = at_to_phase [OF at, of "c\<lparr>ml_global := ml_global c - 1\<rparr>" "release_owner o1"]
  show ?thesis using step moved assms(3) ReturnGlobal by (cases o1) fastforce+
next
  case (ReturnSlot a)
  note pos = active_positive [OF ok at [unfolded ReturnSlot], of a, simplified]
  show ?thesis
    using rs_return_slot [OF at [unfolded ReturnSlot] pos] at_to_phase [OF at, of "add_active (-1) a c"] assms(3) ReturnSlot by fastforce
next
  case (ReturnRef a)
  then show ?thesis
    using rs_return_ref [OF at [unfolded ReturnRef]] at_to_phase [OF at, of "releaseOwnerRef (mq_owner (ml_requests c ! i)) a c"]
      assms(3) by fastforce
qed (use assms(3) in auto)

text \<open>
  C26: a request that gives its permits back can always take its next step, whatever the others do, and
  has ended after at most three of them; once every request has ended, no permit is taken and no entry
  of an owner is left.
\<close>

theorem permits_returned:
  assumes "requests_reachable rnd hash limits c"
    and "rl_owner_max limits + max 0 (rl_owner_queue limits) \<le> max_int64"
  shows "(request_at c i = Some p \<and> steps_left p = Suc n \<longrightarrow>
       (\<exists>c' q. request_step rnd hash c c' \<and> request_at c' i = Some q \<and> steps_left q = n \<and> (n = 0 \<longrightarrow> q = Ended)))
    \<and> ((\<forall>r \<in> set (ml_requests c). mq_phase r = Ended) \<longrightarrow>
       ml_global c = 0 \<and> ml_owners c = Map.empty \<and> ml_heap c a = \<lparr>oe_active = 0, oe_refs = 0\<rparr>)"
proof -
  have ok: "limiter_ok c" using reachable_limiter [OF assms] by blast
  have "ml_global c = 0 \<and> ml_owners c = Map.empty \<and> ml_heap c a = \<lparr>oe_active = 0, oe_refs = 0\<rparr>"
    if ended: "\<forall>r \<in> set (ml_requests c). mq_phase r = Ended"
  proof -
    have none: "in_phase P c = 0" if "\<not> P Ended" for P
      using ended that by (auto simp: in_phase_def filter_empty_conv)
    have refs: "oe_refs (ml_heap c b) = 0" for b
      using none [of "\<lambda>p. reference_of p = Some b"] ok by (simp add: limiter_ok_def cells_hold_def)
    have "ml_owners c owner = None" for owner
      using owners_holdD(3) [of c owner] refs ok by (cases "ml_owners c owner") (auto simp: limiter_ok_def)
    moreover have "ml_global c = 0" using none [of holds_global] ok by (simp add: limiter_ok_def global_ok_def)
    moreover have "ml_heap c a = \<lparr>oe_active = 0, oe_refs = 0\<rparr>"
      using unused_entry [OF _ refs] ok by (simp add: limiter_ok_def)
    ultimately show ?thesis by auto
  qed
  then show ?thesis using release_step [OF ok] by blast
qed

section \<open>The rate of one key\<close>

text \<open>
  Attempts on the limiter of one key, each with its instant, its cost and whether its context is still
  alive when both buckets are ready; the costs that were taken.
\<close>

fun takes :: "(rat \<Rightarrow> rat) \<Rightarrow> (int \<times> int \<times> bool) list \<Rightarrow> key_limiter \<Rightarrow> int list \<times> key_limiter" where
  "takes rnd [] k = ([], k)"
| "takes rnd ((now, cost, alive) # xs) k =
     (let (result, k) = try_take rnd now cost k in
      if result = TakeReady \<and> alive
      then (let (taken, k) = takes rnd xs (consume_both rnd cost k) in (cost # taken, k))
      else takes rnd xs k)"

text \<open>In exact arithmetic: what was taken and what is left never exceeds what was there and refilled.\<close>

definition within_rate :: "int \<Rightarrow> int \<Rightarrow> rat \<Rightarrow> token_bucket \<Rightarrow> bool" where
  "within_rate start finish taken b \<longleftrightarrow> 0 < tb_capacity b \<and> 0 < tb_refill b \<and> start \<le> tb_last b \<and> tb_last b \<le> finish
     \<and> - (tb_refill b / 1000000000) \<le> tb_tokens b
     \<and> taken + tb_tokens b \<le> tb_capacity b + tb_refill b * of_int (tb_last b - start) / 1000000000"

lemma seconds_exact: "0 \<le> d \<Longrightarrow> duration_seconds id d = of_int d / 1000000000"
  by (simp add: duration_seconds_def field_simps flip: of_int_add of_int_mult)

lemma within_refill:
  assumes "within_rate start finish taken b" and "now \<le> finish"
  shows "within_rate start finish taken (refillAt id now b)"
proof (cases "tb_last b < now")
  case True
  let ?d = "time_sub now (tb_last b)" and ?r = "tb_refill b"
  have d: "0 \<le> ?d" "?d \<le> now - tb_last b" using True by (simp_all add: time_sub_def max_int64_def min_int64_def)
  let ?gain = "?r * of_int ?d / 1000000000"
  have tokens: "tb_tokens (refillAt id now b) = min (tb_capacity b) (tb_tokens b + ?gain)"
    using True assms(1) d(1) by (simp add: refillAt_def within_rate_def seconds_exact mult.commute)
  have rest: "tb_capacity (refillAt id now b) = tb_capacity b" "tb_refill (refillAt id now b) = ?r" "tb_last (refillAt id now b) = now"
    using True assms(1) by (simp_all add: refillAt_def within_rate_def)
  have pos: "0 < ?r" "0 < tb_capacity b" "start \<le> tb_last b" "- (?r / 1000000000) \<le> tb_tokens b"
    using assms(1) by (simp_all add: within_rate_def)
  have gain: "0 \<le> ?gain" "?gain \<le> ?r * of_int (now - tb_last b) / 1000000000"
    using pos(1) d by (simp_all add: divide_right_mono mult_left_mono)
  have "?r * of_int (tb_last b - start) / 1000000000 + ?r * of_int (now - tb_last b) / 1000000000 = ?r * of_int (now - start) / 1000000000"
    by (simp add: algebra_simps add_divide_distrib diff_divide_distrib)
  moreover have "taken + tb_tokens b \<le> tb_capacity b + ?r * of_int (tb_last b - start) / 1000000000"
    using assms(1) by (simp add: within_rate_def)
  moreover have "min (tb_capacity b) (tb_tokens b + ?gain) \<le> tb_tokens b + ?gain" by simp
  ultimately have "taken + min (tb_capacity b) (tb_tokens b + ?gain) \<le> tb_capacity b + ?r * of_int (now - start) / 1000000000"
    using gain(2) by linarith
  moreover have "- (?r / 1000000000) \<le> min (tb_capacity b) (tb_tokens b + ?gain)"
  proof -
    have "0 < ?r / 1000000000" using pos(1) by simp
    then show ?thesis using pos(2,4) gain(1) by linarith
  qed
  ultimately show ?thesis using pos True assms(2) by (simp add: within_rate_def tokens rest)
qed (use assms in \<open>simp add: refillAt_def within_rate_def\<close>)

lemma within_wait:
  assumes "within_rate start finish taken b" and "now \<le> finish" and "waitDuration id now cost b = ((wait, fits), b')"
  shows "within_rate start finish taken b'" and "fits \<Longrightarrow> wait \<le> 0 \<Longrightarrow> within_rate start finish (taken + cost) (consume id cost b')"
proof -
  let ?b = "refillAt id now b"
  have b: "b' = b \<or> b' = ?b" using assms(3) by (auto simp: waitDuration_def Let_def split: if_splits)
  then show w: "within_rate start finish taken b'" using assms(1) within_refill [OF assms(1,2)] by auto
  assume ready: "fits" "wait \<le> 0"
  have pos: "0 < tb_capacity b'" "0 < tb_refill b'" using w by (simp_all add: within_rate_def)
  have low: "cost - tb_tokens b' \<le> tb_refill b' / 1000000000"
  proof (cases "tb_tokens b' \<ge> cost")
    case False
    have "b' = ?b" and wait: "wait = truncate_float ((cost - tb_tokens ?b) / tb_refill ?b * 1000000000)"
      using assms(1,3) ready(1) False by (auto simp: waitDuration_def Let_def within_rate_def split: if_splits)
    moreover have "0 \<le> (cost - tb_tokens b') / tb_refill b' * 1000000000" using False pos by simp
    ultimately have "\<lfloor>(cost - tb_tokens b') / tb_refill b' * 1000000000\<rfloor> \<le> 0" using ready(2) by (simp add: truncate_float_def)
    then have "(cost - tb_tokens b') / tb_refill b' * 1000000000 < 1" by linarith
    then have "cost - tb_tokens b' < 1 / 1000000000 * tb_refill b'" using pos(2) by (simp add: field_simps)
    then show ?thesis by simp
  qed (use pos in \<open>simp add: order_trans [of _ 0]\<close>)
  show "within_rate start finish (taken + cost) (consume id cost b')"
    using w low pos by (simp add: consume_def within_rate_def algebra_simps)
qed

lemma wait_capacity:
  "waitDuration rnd now cost b = ((wait, fits), b') \<Longrightarrow>
     tb_capacity b' = tb_capacity b \<and> tb_refill b' = tb_refill b \<and> (cost \<le> tb_capacity b \<longrightarrow> fits)"
  by (auto simp: waitDuration_def refillAt_def Let_def split: if_splits)

lemma consume_capacity [simp]:
  "tb_capacity (consume rnd cost b) = tb_capacity b" "tb_refill (consume rnd cost b) = tb_refill b"
  by (simp_all add: consume_def)

text \<open>One attempt, on either bucket.\<close>

lemma try_take_buckets:
  assumes "try_take rnd now cost k = (result, k')"
  obtains w1 f1 w2 f2 where "waitDuration rnd now 1 (kl_requests k) = ((w1, f1), kl_requests k')"
    and "waitDuration rnd now (rnd (of_int cost)) (kl_tokens k) = ((w2, f2), kl_tokens k')"
    and "result = TakeReady \<longrightarrow> w1 \<le> 0 \<and> w2 \<le> 0 \<and> f2"
  using assms by (auto simp: try_take_def Let_def split: prod.splits if_splits)

lemma take_tokens:
  assumes "try_take id now cost k = (result, k1)" and "now \<le> finish" and "within_rate start finish s (kl_tokens k)"
  shows "within_rate start finish s (kl_tokens k1)"
    and "result = TakeReady \<Longrightarrow> within_rate start finish (s + of_int cost) (kl_tokens (consume_both id cost k1))"
    and "tb_capacity (kl_tokens k1) = tb_capacity (kl_tokens k) \<and> tb_refill (kl_tokens k1) = tb_refill (kl_tokens k)"
proof -
  obtain w1 f1 w2 f2 where "waitDuration id now 1 (kl_requests k) = ((w1, f1), kl_requests k1)"
    and w: "waitDuration id now (id (of_int cost)) (kl_tokens k) = ((w2, f2), kl_tokens k1)" and ready: "result = TakeReady \<longrightarrow> w1 \<le> 0 \<and> w2 \<le> 0 \<and> f2"
    using assms(1) by (rule try_take_buckets)
  show "within_rate start finish s (kl_tokens k1)" using within_wait(1) [OF assms(3,2) w] .
  show "result = TakeReady \<Longrightarrow> within_rate start finish (s + of_int cost) (kl_tokens (consume_both id cost k1))"
    using within_wait(2) [OF assms(3,2) w] ready by (simp add: consume_both_def)
  show "tb_capacity (kl_tokens k1) = tb_capacity (kl_tokens k) \<and> tb_refill (kl_tokens k1) = tb_refill (kl_tokens k)"
    using wait_capacity [OF w] by simp
qed

lemma take_requests:
  assumes "try_take id now cost k = (result, k1)" and "now \<le> finish" and "within_rate start finish s (kl_requests k)"
    and "1 \<le> tb_capacity (kl_requests k)"
  shows "within_rate start finish s (kl_requests k1)"
    and "result = TakeReady \<Longrightarrow> within_rate start finish (s + 1) (kl_requests (consume_both id cost k1))"
    and "tb_capacity (kl_requests k1) = tb_capacity (kl_requests k) \<and> tb_refill (kl_requests k1) = tb_refill (kl_requests k)"
proof -
  obtain w1 f1 w2 f2 where w: "waitDuration id now 1 (kl_requests k) = ((w1, f1), kl_requests k1)"
    and "waitDuration id now (id (of_int cost)) (kl_tokens k) = ((w2, f2), kl_tokens k1)" and ready: "result = TakeReady \<longrightarrow> w1 \<le> 0 \<and> w2 \<le> 0 \<and> f2"
    using assms(1) by (rule try_take_buckets)
  show "within_rate start finish s (kl_requests k1)" using within_wait(1) [OF assms(3,2) w] .
  show "result = TakeReady \<Longrightarrow> within_rate start finish (s + 1) (kl_requests (consume_both id cost k1))"
    using within_wait(2) [OF assms(3,2) w] ready wait_capacity [OF w] assms(4) by (simp add: consume_both_def)
  show "tb_capacity (kl_requests k1) = tb_capacity (kl_requests k) \<and> tb_refill (kl_requests k1) = tb_refill (kl_requests k)"
    using wait_capacity [OF w] by simp
qed

lemma takes_ready:
  "try_take rnd now cost k = (result, k1) \<Longrightarrow> result = TakeReady \<and> alive \<Longrightarrow>
     takes rnd ((now, cost, alive) # xs) k =
       (cost # fst (takes rnd xs (consume_both rnd cost k1)), snd (takes rnd xs (consume_both rnd cost k1)))"
  by (simp add: case_prod_unfold Let_def)

lemma takes_refused:
  "try_take rnd now cost k = (result, k1) \<Longrightarrow> \<not> (result = TakeReady \<and> alive) \<Longrightarrow>
     takes rnd ((now, cost, alive) # xs) k = takes rnd xs k1"
  by auto

lemma takes_tokens:
  assumes "\<And>now cost alive. (now, cost, alive) \<in> set xs \<Longrightarrow> now \<le> finish" and "takes id xs k = (gs, k')"
    and "within_rate start finish s (kl_tokens k)"
  shows "within_rate start finish (s + of_int (sum_list gs)) (kl_tokens k')
    \<and> tb_capacity (kl_tokens k') = tb_capacity (kl_tokens k) \<and> tb_refill (kl_tokens k') = tb_refill (kl_tokens k)"
  using assms
proof (induction xs arbitrary: k gs s)
  case (Cons x xs)
  obtain now cost alive where x: "x = (now, cost, alive)" by (cases x)
  obtain result k1 where t: "try_take id now cost k = (result, k1)" by (cases "try_take id now cost k")
  have now: "now \<le> finish" using Cons.prems(1) [of now cost alive] x by simp
  have rest: "n \<le> finish" if "(n, c, l) \<in> set xs" for n c l using Cons.prems(1) [of n c l] that by simp
  note step = take_tokens [OF t now Cons.prems(3)]
  show ?case
  proof (cases "result = TakeReady \<and> alive")
    case True
    let ?rest = "takes id xs (consume_both id cost k1)"
    have "(cost # fst ?rest, snd ?rest) = (gs, k')"
      by (rule trans [OF takes_ready [OF t True, symmetric] Cons.prems(2) [unfolded x]])
    then obtain hs where hs: "?rest = (hs, k')" "gs = cost # hs" by (cases ?rest) simp
    from Cons.IH [OF rest hs(1) step(2)] True step(3) show ?thesis
      by (simp add: hs(2) consume_both_def add.assoc)
  next
    case False
    have "takes id xs k1 = (gs, k')"
      by (rule trans [OF takes_refused [OF t False, symmetric] Cons.prems(2) [unfolded x]])
    note final = this
    from Cons.IH [OF rest final step(1)] step(3) show ?thesis by simp
  qed
qed simp

lemma takes_requests:
  assumes "\<And>now cost alive. (now, cost, alive) \<in> set xs \<Longrightarrow> now \<le> finish" and "takes id xs k = (gs, k')"
    and "within_rate start finish s (kl_requests k)" and "1 \<le> tb_capacity (kl_requests k)"
  shows "within_rate start finish (s + of_nat (length gs)) (kl_requests k')
    \<and> tb_capacity (kl_requests k') = tb_capacity (kl_requests k) \<and> tb_refill (kl_requests k') = tb_refill (kl_requests k)"
  using assms
proof (induction xs arbitrary: k gs s)
  case (Cons x xs)
  obtain now cost alive where x: "x = (now, cost, alive)" by (cases x)
  obtain result k1 where t: "try_take id now cost k = (result, k1)" by (cases "try_take id now cost k")
  have now: "now \<le> finish" using Cons.prems(1) [of now cost alive] x by simp
  have rest: "n \<le> finish" if "(n, c, l) \<in> set xs" for n c l using Cons.prems(1) [of n c l] that by simp
  note step = take_requests [OF t now Cons.prems(3,4)]
  show ?case
  proof (cases "result = TakeReady \<and> alive")
    case True
    let ?rest = "takes id xs (consume_both id cost k1)"
    have "(cost # fst ?rest, snd ?rest) = (gs, k')"
      by (rule trans [OF takes_ready [OF t True, symmetric] Cons.prems(2) [unfolded x]])
    then obtain hs where hs: "?rest = (hs, k')" "gs = cost # hs" by (cases ?rest) simp
    have "1 \<le> tb_capacity (kl_requests (consume_both id cost k1))" using step(3) Cons.prems(4) by (simp add: consume_both_def)
    from Cons.IH [OF rest hs(1) step(2) this] True step(3) show ?thesis
      by (simp add: hs(2) consume_both_def add_ac)
  next
    case False
    have "takes id xs k1 = (gs, k')"
      by (rule trans [OF takes_refused [OF t False, symmetric] Cons.prems(2) [unfolded x]])
    note final = this
    from Cons.IH [OF rest final step(1)] step(3) Cons.prems(4) show ?thesis by simp
  qed
qed simp

lemma new_bucket_within:
  assumes "0 < capacity" and "0 < period" and "start \<le> finish"
  shows "within_rate start finish 0 (newTokenBucket id capacity period start)"
    and "tb_capacity (newTokenBucket id capacity period start) = of_int capacity"
    and "tb_refill (newTokenBucket id capacity period start) = of_int capacity * 1000000000 / of_int period"
proof -
  have "0 \<le> (of_int capacity / of_int period :: rat)" "0 \<le> (of_int capacity :: rat)" using assms by simp_all
  then have "- (of_int capacity / of_int period) \<le> (of_int capacity :: rat)" by linarith
  then show "within_rate start finish 0 (newTokenBucket id capacity period start)"
    using assms by (simp add: newTokenBucket_def Let_def within_rate_def seconds_exact)
qed (use assms in \<open>simp_all add: newTokenBucket_def Let_def seconds_exact\<close>)

text \<open>What the invariant says of the total at the end.\<close>

lemma within_total:
  assumes "within_rate start finish taken b" and "tb_capacity b = of_int capacity"
    and "tb_refill b = of_int capacity * 1000000000 / of_int period" and "0 < period"
  shows "taken \<le> of_int capacity + of_int capacity * of_int (finish - start + 1) / of_int period"
proof -
  have r: "0 < tb_refill b" "tb_last b \<le> finish" "- (tb_refill b / 1000000000) \<le> tb_tokens b"
    "taken + tb_tokens b \<le> tb_capacity b + tb_refill b * of_int (tb_last b - start) / 1000000000"
    using assms(1) by (simp_all add: within_rate_def)
  have "tb_refill b * of_int (tb_last b - start) / 1000000000 \<le> tb_refill b * of_int (finish - start) / 1000000000"
    using r(1,2) by (intro divide_right_mono mult_left_mono) simp_all
  then have "taken \<le> tb_capacity b + tb_refill b * of_int (finish - start) / 1000000000 + tb_refill b / 1000000000"
    using r(3,4) by linarith
  also have "\<dots> = of_int capacity + of_int capacity * of_int (finish - start + 1) / of_int period"
    using assms(4) by (simp add: assms(2,3) field_simps)
  finally show ?thesis .
qed

text \<open>
  C27: in exact arithmetic, whatever attempts are made on the limiter of an API key, in any order, with
  any instants up to \<open>finish\<close> and whether or not their callers are still there, the estimated tokens that
  are let through are at most the capacity and what the configured rate refills until then, plus one
  nanosecond of it, because a wait is rounded down to nanoseconds; and so are the requests.
\<close>

theorem key_rate_bounded:
  assumes "takes id xs \<lparr>kl_requests = newTokenBucket id rpm period start, kl_tokens = newTokenBucket id tpm period start\<rparr> = (gs, k)"
    and "\<forall>(now, cost, alive) \<in> set xs. now \<le> finish" and "start \<le> finish" and "0 < period"
  shows "(0 < tpm \<longrightarrow> of_int (sum_list gs) \<le> (of_int tpm + of_int tpm * of_int (finish - start + 1) / of_int period :: rat))
    \<and> (0 < rpm \<longrightarrow> of_nat (length gs) \<le> (of_int rpm + of_int rpm * of_int (finish - start + 1) / of_int period :: rat))"
proof (intro conjI impI)
  let ?k = "\<lparr>kl_requests = newTokenBucket id rpm period start, kl_tokens = newTokenBucket id tpm period start\<rparr>"
  have times: "\<And>now cost alive. (now, cost, alive) \<in> set xs \<Longrightarrow> now \<le> finish" using assms(2) by blast
  {
    assume "0 < tpm"
    note new = new_bucket_within [OF this assms(4,3)]
    have "within_rate start finish (0 + of_int (sum_list gs)) (kl_tokens k) \<and> tb_capacity (kl_tokens k) = tb_capacity (kl_tokens ?k)
        \<and> tb_refill (kl_tokens k) = tb_refill (kl_tokens ?k)"
      by (rule takes_tokens [OF times assms(1)]) (use new(1) in simp_all)
    then show "of_int (sum_list gs) \<le> (of_int tpm + of_int tpm * of_int (finish - start + 1) / of_int period :: rat)"
      using within_total [of start finish "of_int (sum_list gs)" "kl_tokens k" tpm period] new(2,3) assms(4) by simp
  next
    assume pos: "0 < rpm"
    note new = new_bucket_within [OF this assms(4,3)]
    have "within_rate start finish (0 + of_nat (length gs)) (kl_requests k) \<and> tb_capacity (kl_requests k) = tb_capacity (kl_requests ?k)
        \<and> tb_refill (kl_requests k) = tb_refill (kl_requests ?k)"
      by (rule takes_requests [OF times assms(1)]) (use new pos in simp_all)
    then show "of_nat (length gs) \<le> (of_int rpm + of_int rpm * of_int (finish - start + 1) / of_int period :: rat)"
      using within_total [of start finish "of_nat (length gs)" "kl_requests k" rpm period] new(2,3) assms(4) by simp
  }
qed

section \<open>Example: one owner with one slot\<close>

definition one_slot :: request_limits where
  "one_slot = \<lparr>rl_max_concurrent = 1, rl_requests = 1, rl_tokens = 10, rl_period = 60000000000, rl_owner_max = 1,
     rl_owner_queue = 0, rl_resolver = False\<rparr>"

definition arrived_limiter :: model_limiter where
  "arrived_limiter = (NewModelRequestLimiter one_slot)\<lparr>ml_requests := [arrived_request [] 5]\<rparr>"

lemma arrived_reachable: "requests_reachable id id one_slot arrived_limiter"
proof -
  let ?new = "NewModelRequestLimiter one_slot"
  have "request_step id id ?new (?new\<lparr>ml_requests := ml_requests ?new @ [arrived_request [] 5]\<rparr>)" by (rule rs_arrive)
  then show ?thesis
    using later [OF new_limiter] by (simp add: arrived_limiter_def NewModelRequestLimiter_def Let_def)
qed

definition admitted_limiter :: model_limiter where
  "admitted_limiter = to_owner 0 ''owner'' 0 (snd (acquire_owner_ref ''owner'' arrived_limiter))"

lemma admitted_reachable: "requests_reachable id id one_slot admitted_limiter"
  and admitted_waits: "request_at admitted_limiter 0 = Some (WaitOwner 0)"
proof -
  have "trim_space ''owner'' = ''owner''" by code_simp
  then have owner: "request_owner (Inr ''owner'') = Inr ''owner''" by (simp add: request_owner_def)
  have acq: "acquire_owner_ref ''owner'' arrived_limiter = (Inr 0, snd (acquire_owner_ref ''owner'' arrived_limiter))"
    by (simp add: acquire_owner_ref_def arrived_limiter_def NewModelRequestLimiter_def one_slot_def Let_def
        owner_capacity_def wrap64_def set_owner_entry_def)
  have at: "request_at arrived_limiter 0 = Some Arrived"
    by (simp add: request_at_def arrived_limiter_def arrived_request_def)
  have limited: "rl_owner_max (ml_limits arrived_limiter) > 0"
    by (simp add: arrived_limiter_def NewModelRequestLimiter_def one_slot_def Let_def)
  show "requests_reachable id id one_slot admitted_limiter"
    unfolding admitted_limiter_def by (rule later [OF arrived_reachable rs_owner_ref [OF at limited owner acq]])
  show "request_at admitted_limiter 0 = Some (WaitOwner 0)"
    unfolding admitted_limiter_def using acquire_fields [OF acq] at by (simp add: request_at_def to_owner_def split: if_splits)
qed

lemma one_slot_bound: "rl_owner_max one_slot + max 0 (rl_owner_queue one_slot) \<le> max_int64"
  by (simp add: one_slot_def max_int64_def)

lemma request_limits_hold_witness:
  "of_owner ''owner'' reference_of admitted_limiter = 1 \<and> of_owner ''owner'' reference_of admitted_limiter \<le> 1"
proof -
  have "length (ml_requests admitted_limiter) = 1" "mq_owner (ml_requests admitted_limiter ! 0) = ''owner''"
    by (simp_all add: admitted_limiter_def acquire_owner_ref_def arrived_limiter_def NewModelRequestLimiter_def one_slot_def
        Let_def owner_capacity_def wrap64_def set_owner_entry_def to_owner_def)
  then have "of_owner ''owner'' reference_of admitted_limiter = 1"
    using admitted_waits by (auto simp: of_owner_def request_at_def length_Suc_conv split: if_splits)
  then show ?thesis
    using request_limits_hold [OF admitted_reachable one_slot_bound, of "''owner''"] by (simp add: one_slot_def)
qed

lemma permits_returned_witness:
  "\<exists>c'. request_step id id (to_phase 0 (FailRef 0 (RequestContext Canceled)) admitted_limiter) c'
     \<and> request_at c' 0 = Some Ended"
proof -
  let ?c = "to_phase 0 (FailRef 0 (RequestContext Canceled)) admitted_limiter"
  have "request_step id id admitted_limiter ?c"
    using rs_owner_gone [OF admitted_waits, of id id None Canceled] by (simp add: ownerWaitError_def)
  then have r: "requests_reachable id id one_slot ?c" by (rule later [OF admitted_reachable])
  have "request_at ?c 0 = Some (FailRef 0 (RequestContext Canceled))"
    by (rule at_to_phase [OF admitted_waits]) simp
  then show ?thesis
    using permits_returned [OF r one_slot_bound, of 0 "FailRef 0 (RequestContext Canceled)" 0] by auto
qed

lemma key_rate_bounded_witness:
  "\<exists>k. takes id [(0, 10, True), (0, 1, True)]
       \<lparr>kl_requests = newTokenBucket id 0 60000000000 0, kl_tokens = newTokenBucket id 10 60000000000 0\<rparr> = ([10], k)
     \<and> of_int (sum_list [10]) \<le> (of_int 10 + of_int 10 * of_int (0 - 0 + 1) / of_int 60000000000 :: rat)"
proof -
  let ?k = "\<lparr>kl_requests = newTokenBucket id 0 60000000000 0, kl_tokens = newTokenBucket id 10 60000000000 0\<rparr>"
  have "fst (takes id [(0, 10, True), (0, 1, True)] ?k) = [10]"
    by code_simp
  then obtain k where k: "takes id [(0, 10, True), (0, 1, True)] ?k = ([10], k)"
    by (cases "takes id [(0, 10, True), (0, 1, True)] ?k") simp
  have "of_int (sum_list [10]) \<le> (of_int 10 + of_int 10 * of_int (0 - 0 + 1) / of_int 60000000000 :: rat)"
    using key_rate_bounded [OF k, of 0] by simp
  then show ?thesis using k by blast
qed

end
