(* ===== verification/Spec2Isabelle.thy ===== *)
theory Spec2Isabelle
  imports Event_Lifecycle Run_Store Recovery Budget_Guarantees Effect_Guarantees Policy_Guarantees
    Reconciliation_Guarantees Task_Guarantees Restore_Guarantees Progress_Guarantees
    Admission_Guarantees Artifact_Guarantees Batch_Guarantees Inbox_Guarantees
    Clarification_Guarantees Request_Guarantees
begin

text \<open>
  Agentflow Platform: the execution core of the API server (\<open>src/apps/api/internal\<close>, Go).

  The server runs agents. A user request becomes a Run; a Run is admitted, executes stages, turns,
  model calls and tool calls, and records everything it does as an append-only log of typed events
  beside its row. A worker may die at any point: what it left is closed by recovery at the next
  start, and the Run may be resumed from its stage checkpoints. Tools that write to the outside go
  through a write-ahead journal so that no effect is repeated; what the journal cannot decide is
  settled by an operator. This development models that core: the durable tables and the
  transactions on them, the protocols that keep them consistent across crashes, races and retries,
  and the pipeline that executes a tool call.

  \<^bold>\<open>How Go is modelled.\<close> A struct is a \<open>record\<close> (a field is left out when no modelled code reads it),
  a string enumeration a \<open>datatype\<close> with a last constructor for every other string, a map a function
  to \<open>option\<close> or an association list, a pointer that may be nil an \<open>option\<close>. \<open>(T, error)\<close> is a sum with
  the error on the left; every early return is a branch. Strings are their bytes, so \<open>TrimSpace\<close>, UTF-8
  and byte limits mean what they mean in Go. \<open>int\<close> and \<open>int64\<close> are integers with the wrap-around written
  out (\<open>wrap64\<close>) where a result can leave their range; counters bounded by the length of a list in
  memory are not wrapped. A panic is a value where the code recovers it. A database table is the
  list of its rows, a transaction a function from tables to a result and new tables, rolled back
  on an error; transactions take the lock of their Run first, so they are atomic. A \<open>timestamptz\<close>
  column drops nanoseconds where a state keeps the same instant in full (\<open>Task_History\<close>), and is
  modelled as keeping an instant elsewhere. Concurrency is
  a sequence of atomic steps: the interleavings of Run and request admission are step relations, other
  workers during a tool call or a reconciliation are functions of the store that may be any
  sequence of store operations.

  \<^bold>\<open>Parameters.\<close> What is not in the repository or not decided by it is an argument: SHA-256, new
  identifiers, the clock, the redaction of texts and payloads, the JSON of values of arbitrary
  type, the typed payload checks of two event types, the callbacks and handlers of tools, the
  iteration order of a Go map, the schedule of goroutines, the rounding of \<open>float64\<close> in rate limits.

  \<^bold>\<open>Shared theories.\<close> \<open>Prelude\<close> has results, wrapping integers and first-match list updates;
  \<open>Go_String\<close> and \<open>Go_Json\<close> the parts of \<open>strings\<close>, \<open>unicode/utf8\<close> and \<open>encoding/json\<close> that the code uses;
  \<open>Domain\<close> the records of \<open>domain/\<close> that several components share; \<open>Keyed_Items\<close> the locale of slices
  that serve as ordered maps, interpreted for tasks, constraints and blockers; \<open>Transactions\<close> the
  handlers that make several transactions and may fail between them. Further locales capture what
  the four kinds of scope of a log share (\<open>Event_Lifecycle\<close>) and the mutations of the effect
  journal (\<open>Effect_Journal\<close>).

  \<^bold>\<open>Events and Runs.\<close> \<open>Event_Catalog\<close> (\<open>eventcatalog/registry.go\<close>) registers the event types with scope
  and durability. \<open>Event_Lifecycle\<close> (\<open>event/contract.go\<close>) scans a log, pairs starts with terminals and
  plans the terminals of an interrupted Run: plans exist, answer the open scopes one to one from the
  inside out, and make the log pass the check. \<open>Run_Lifecycle\<close> and \<open>Run_Store\<close> (\<open>store/run_lifecycle.go\<close>,
  \<open>store/run_records.go\<close>, \<open>store/postgres_runs.go\<close>, \<open>postgres_traces.go\<close>, \<open>postgres_run_transition.go\<close>)
  are the legal status changes and the transaction that commits one with its events: it keeps
  the invariant of the tables, and only one of two racing transitions is applied. \<open>Recovery\<close>
  (\<open>recovery/\<close>, \<open>store/postgres_recovery.go\<close>) closes stale Runs at start-up, in the order of their
  creation up to the first whose log breaks the protocol, and touches nothing else. \<open>Run_Admission\<close>
  (\<open>concurrency/run_controller.go\<close>) is the queue in front of it; \<open>Admission_Guarantees\<close> shows one
  writer per conversation and that a release is never stuck. \<open>Model_Requests\<close>
  (\<open>concurrency/model_request_limiter.go\<close>, \<open>concurrency/model_owner.go\<close>) admits the requests of Runs to
  model providers; \<open>Request_Guarantees\<close> shows that the bounds of owners and the global one hold in every
  interleaving, that all permits come back, and that no API key exceeds its rate in exact arithmetic.

  \<^bold>\<open>Conversations.\<close> \<open>Conversation_Inbox\<close> (\<open>store/postgres_inbox.go\<close>, \<open>postgres_followup.go\<close>,
  \<open>CreateInputRun\<close>) queues what users add to a Run or send after it. \<open>Inbox_Guarantees\<close> shows that an
  input is delivered at most once and never after its withdrawal, that the limits hold, that a
  submission can be repeated and that a follow-up starts exactly one Run. \<open>Clarifications\<close>
  (\<open>clarification/\<close>, \<open>store/postgres_clarifications.go\<close>) are the questions a Run asks its user: the Run
  waits, the answers are recorded, one resumption claims them. \<open>Clarification_Guarantees\<close> shows that
  rows stay well formed, that asking closes the Turn and leaves a valid log, that answers are final
  and reach the conversation once, and that a second claim is refused.

  \<^bold>\<open>Budget.\<close> \<open>Budget_Ledger\<close> (\<open>budget/\<close>, \<open>domain/run_usage.go\<close>, \<open>ApplyRunUsage\<close>) has the usage entries,
  their totals, limits, prices and the tracker of reservations. \<open>Budget_Safety\<close> and
  \<open>Budget_Guarantees\<close> show that totals do not depend on the order of a map, that admission keeps
  every limit, and that a call within its grant settles within the budget if nothing else of its Run
  is recorded before.

  \<^bold>\<open>Tool effects.\<close> \<open>Tool_Effects\<close> (\<open>store/postgres_checkpoints.go\<close>, \<open>postgres_effect_intent.go\<close>,
  \<open>tool_effect_reconciliation.go\<close>) is the journal; \<open>Effect_Journal\<close> refines its operations to the life
  cycle of one effect; \<open>Effect_Guarantees\<close> shows execution at most once, replay, finality and that
  commands for one version race safely. \<open>Reconciliation\<close> (\<open>tool/reconciliation/\<close>) is the operator's
  command handler; \<open>Reconciliation_Guarantees\<close> shows that callbacks run under a claim, and once per
  command however its handlers overlap. \<open>Tool_Policy\<close> (\<open>tool/policy/\<close>, \<open>tool/executor_security.go\<close>) decides about calls;
  \<open>Policy_Guarantees\<close> shows that it fails closed.

  \<^bold>\<open>Tool calls.\<close> \<open>Progress_Guard\<close> (\<open>tool/progress/\<close>, \<open>agent/tool_progress.go\<close>) halts repetition and is
  rebuilt from the log after a restart; \<open>Progress_Guarantees\<close> shows that the rebuilt guard decides
  alike, except for a reset on new user input, which no event records. \<open>Tool_Calls\<close> has the types of a call, \<open>Tool_Artifacts\<close> the
  storage of large results and its paged reads, \<open>Tool_Executor\<close> (\<open>tool/executor*.go\<close>,
  \<open>tool/artifact_governor.go\<close>) composes contract, policy, guard, budget, journal, handler and
  artifacts into one call, \<open>Tool_Batch\<close> groups calls and shares a byte budget among their results.
  \<open>Executor_Guarantees\<close>, \<open>Batch_Guarantees\<close> and \<open>Artifact_Guarantees\<close> show that a handler runs only when
  allowed and once per key, that a call leaves its effect settled, that groups partition a batch
  and keep the order of a key, that the bytes accounted for fit the budget and only results that do
  not fit are truncated, and that pages recover a content.

  \<^bold>\<open>Checkpoints and task state.\<close> \<open>Checkpoints\<close> (\<open>checkpoint/\<close>, \<open>store/postgres_checkpoints.go\<close>) records
  stages and restores Runs; \<open>Checkpoint_Rows\<close>, \<open>Checkpoint_Guarantees\<close>, \<open>Restore_Run\<close> and
  \<open>Restore_Guarantees\<close> show that rows only advance, that committed stages are backed by the log and
  that a restore settles every stage. \<open>Task_State\<close> and \<open>Task_History\<close> (\<open>domain/task_state.go\<close>,
  \<open>store/postgres_task_states.go\<close>, \<open>taskstate/\<close>) patch the state of a conversation and keep its
  revisions; \<open>Task_Wellformed\<close> and \<open>Task_Guarantees\<close> show the refinement to maps, the size bound, that
  replaying patches yields every stored state, and that versions race safely.

  \<^bold>\<open>Bounds and termination.\<close> All recursions are structural or have a measure; none uses fuel. The
  cold-start recheck makes the two attempts of the code. A client that pages through an artifact
  is given a list of limits; the theorem says that one for each byte of the content is enough.

  \<^bold>\<open>Not modelled.\<close> HTTP handlers, wire types, authentication, configuration and wiring: they
  translate and compose. Model providers, inference routing, streaming, tokenization and the
  agent orchestration above the executor: their behaviour is the answer of a remote model, and
  their state is what the modelled tables record. Retrieval, knowledge, memory, session history
  and context assembly: SQL full-text and vector ranking outside the repository does the work.
  Filesystem and process tools, sandbox, MCP and skills: the operating system's behaviour.
  Verification and evaluation engines, telemetry and projections: readers of what is modelled.
  The manifest lists them one by one.
\<close>

end
